(* ===== verification/Prelude.thy ===== *)
theory Prelude
  imports Main "HOL-Library.Word"
begin

text \<open>
  Shared vocabulary of the development: the types every component uses (UUIDs, instants, JSON
  values), the parts of Go's \<^verbatim>\<open>strings\<close> and \<^verbatim>\<open>strconv\<close> packages that the modelled code calls,
  the theorem collections, and generic lemmas on lists and maps.

  A Go string is a byte string, modelled as \<open>string\<close> (one \<open>char\<close> per byte). The functions below
  treat the ASCII range as Go does; a byte of 128 or more is no space, no letter and no digit.
  (Go's Unicode case folding and Unicode spaces outside ASCII are not modelled.)
\<close>

section \<open>Theorem collections\<close>

named_theorems go_defs \<open>definitions of thin wrappers, unfolded by the component proofs\<close>
named_theorems frame \<open>what an operation leaves unchanged\<close>
named_theorems inv_intro \<open>preservation of a component's invariant\<close>

section \<open>Types\<close>

type_synonym uuid = "128 word"

abbreviation uuid_nil :: uuid where
  "uuid_nil \<equiv> 0"

text \<open>A \<^verbatim>\<open>time.Time\<close> is an instant, counted in nanoseconds; \<^verbatim>\<open>IsZero\<close> is year 1.\<close>

type_synonym instant = int

text \<open>
  JSON documents, up to layout: what \<^verbatim>\<open>encoding/json\<close> reads and writes. Objects are association
  lists with the keys in the order written.
\<close>

datatype json =
    JNull
  | JBool bool
  | JNum int
  | JStr string
  | JUuid uuid
  | JTime instant
  | JArr "json list"
  | JObj "(string \<times> json) list"

section \<open>Results\<close>

text \<open>\<^verbatim>\<open>if err != nil { return err }\<close>.\<close>

definition and_then :: "'e + 'a \<Rightarrow> ('a \<Rightarrow> 'e + 'b) \<Rightarrow> 'e + 'b" where
  "and_then r f = (case r of Inl e \<Rightarrow> Inl e | Inr x \<Rightarrow> f x)"

lemma and_then_simps [simp]: "and_then (Inl e) f = Inl e" "and_then (Inr x) f = f x"
  by (simp_all add: and_then_def)

section \<open>Strings\<close>

text \<open>\<^verbatim>\<open>unicode.IsSpace\<close> on ASCII: tab, newline, vertical tab, form feed, return, blank.\<close>

definition is_space :: "char \<Rightarrow> bool" where
  "is_space c \<longleftrightarrow> of_char c \<in> {9, 10, 11, 12, 13, 32 :: nat}"

definition trim_left :: "string \<Rightarrow> string" where
  "trim_left s = dropWhile is_space s"

text \<open>\<^verbatim>\<open>strings.TrimSpace\<close>.\<close>

definition trim_space :: "string \<Rightarrow> string" where
  "trim_space s = rev (trim_left (rev (trim_left s)))"

text \<open>\<^verbatim>\<open>strings.Split(s, sep)\<close> for a one-byte separator; never empty.\<close>

fun split_on :: "char \<Rightarrow> string \<Rightarrow> string list" where
  "split_on c [] = [[]]"
| "split_on c (x # xs) =
     (if x = c then [] # split_on c xs
      else (case split_on c xs of [] \<Rightarrow> [[x]] | p # ps \<Rightarrow> (x # p) # ps))"

text \<open>\<^verbatim>\<open>strings.SplitN(s, sep, n)\<close>: at most \<open>n\<close> pieces, the last one unsplit.\<close>

fun split_n :: "nat \<Rightarrow> char \<Rightarrow> string \<Rightarrow> string list" where
  "split_n 0 c s = []"
| "split_n (Suc 0) c s = [s]"
| "split_n (Suc (Suc n)) c s =
     (case dropWhile (\<lambda>x. x \<noteq> c) s of
        [] \<Rightarrow> [s]
      | _ # rest \<Rightarrow> takeWhile (\<lambda>x. x \<noteq> c) s # split_n (Suc n) c rest)"

text \<open>\<^verbatim>\<open>strings.Join\<close>.\<close>

fun join_with :: "string \<Rightarrow> string list \<Rightarrow> string" where
  "join_with sep [] = []"
| "join_with sep [x] = x"
| "join_with sep (x # y # ys) = x @ sep @ join_with sep (y # ys)"

text \<open>\<^verbatim>\<open>strings.Fields\<close>: the maximal runs of non-space bytes.\<close>

function fields :: "string \<Rightarrow> string list" where
  "fields s =
     (case trim_left s of
        [] \<Rightarrow> []
      | c # cs \<Rightarrow> takeWhile (\<lambda>x. \<not> is_space x) (c # cs) # fields (dropWhile (\<lambda>x. \<not> is_space x) (c # cs)))"
  by pat_completeness auto
termination
proof (relation "measure length")
  fix s :: string and c cs
  assume eq: "trim_left s = c # cs"
  then have c: "\<not> is_space c"
    by (metis hd_dropWhile list.discI list.sel(1) trim_left_def)
  have "length (dropWhile (\<lambda>x. \<not> is_space x) cs) \<le> length cs"
    by (rule length_dropWhile_le)
  moreover have "length (c # cs) \<le> length s"
    using length_dropWhile_le [of is_space s] eq by (simp add: trim_left_def)
  ultimately have "length (dropWhile (\<lambda>x. \<not> is_space x) (c # cs)) < length s"
    using c by simp
  then show "(dropWhile (\<lambda>x. \<not> is_space x) (c # cs), s) \<in> measure length"
    by simp
qed simp

declare fields.simps [simp del]

definition to_lower_char :: "char \<Rightarrow> char" where
  "to_lower_char c =
     (let n = (of_char c :: nat) in if 65 \<le> n \<and> n \<le> 90 then char_of (n + 32) else c)"

definition to_upper_char :: "char \<Rightarrow> char" where
  "to_upper_char c =
     (let n = (of_char c :: nat) in if 97 \<le> n \<and> n \<le> 122 then char_of (n - 32) else c)"

definition to_lower :: "string \<Rightarrow> string" where
  "to_lower s = map to_lower_char s"

definition to_upper :: "string \<Rightarrow> string" where
  "to_upper s = map to_upper_char s"

text \<open>\<^verbatim>\<open>strings.EqualFold\<close>.\<close>

definition equal_fold :: "string \<Rightarrow> string \<Rightarrow> bool" where
  "equal_fold s t \<longleftrightarrow> to_lower s = to_lower t"

definition has_prefix :: "string \<Rightarrow> string \<Rightarrow> bool" where
  "has_prefix s p \<longleftrightarrow> take (length p) s = p"

definition has_suffix :: "string \<Rightarrow> string \<Rightarrow> bool" where
  "has_suffix s p \<longleftrightarrow> has_prefix (rev s) (rev p)"

text \<open>\<^verbatim>\<open>strings.Index(s, c)\<close> for one byte: the offset of its first occurrence.\<close>

definition index_of :: "'a \<Rightarrow> 'a list \<Rightarrow> nat option" where
  "index_of c s = (if c \<in> set s then Some (length (takeWhile (\<lambda>x. x \<noteq> c) s)) else None)"

definition is_digit :: "char \<Rightarrow> bool" where
  "is_digit c \<longleftrightarrow> 48 \<le> (of_char c :: nat) \<and> (of_char c :: nat) \<le> 57"

definition digit_val :: "char \<Rightarrow> nat" where
  "digit_val c = of_char c - 48"

definition digits_val :: "string \<Rightarrow> nat" where
  "digits_val s = fold (\<lambda>c n. 10 * n + digit_val c) s 0"

text \<open>
  \<^verbatim>\<open>strconv.ParseUint(s, 10, bits)\<close>: an error (\<open>None\<close>) on an empty string, a byte that is no
  decimal digit (a sign included), or a value of \<open>2 ^ bits\<close> or more.
\<close>

definition parse_uint :: "nat \<Rightarrow> string \<Rightarrow> nat option" where
  "parse_uint bits s =
     (if s \<noteq> [] \<and> list_all is_digit s \<and> digits_val s < 2 ^ bits then Some (digits_val s) else None)"

text \<open>The three bytes of the arrow in the error messages.\<close>

definition arrow :: string where
  "arrow = '' '' @ [CHR 0xE2, CHR 0x86, CHR 0x92] @ '' ''"

text \<open>\<^verbatim>\<open>%d\<close> of a number that is not negative.\<close>

fun show_nat :: "nat \<Rightarrow> string" where
  "show_nat n = (if n < 10 then [char_of (48 + n)] else show_nat (n div 10) @ [char_of (48 + n mod 10)])"

declare show_nat.simps [simp del]

text \<open>\<^verbatim>\<open>%q\<close> of a string of printable bytes: quotes and backslashes are escaped.\<close>

definition go_quote :: "string \<Rightarrow> string" where
  "go_quote s = CHR 0x22 # concat (map (\<lambda>c. if c \<in> {CHR 0x22, CHR 0x5C} then [CHR 0x5C, c] else [c]) s) @ [CHR 0x22]"

section \<open>Generic lemmas\<close>

lemma index_of_Some_iff:
  "index_of c s = Some i \<longleftrightarrow> i < length s \<and> s ! i = c \<and> (\<forall>j < i. s ! j \<noteq> c)"
proof
  assume "index_of c s = Some i"
  then have c: "c \<in> set s" and i: "i = length (takeWhile (\<lambda>x. x \<noteq> c) s)"
    by (auto simp: index_of_def split: if_splits)
  have "takeWhile (\<lambda>x. x \<noteq> c) s \<noteq> s"
    using c by (metis (mono_tags, lifting) takeWhile_eq_all_conv)
  then have lt: "i < length s"
    unfolding i by (metis length_takeWhile_le nless_le takeWhile_eq_take take_all order_refl)
  moreover have "s ! i = c"
    using nth_length_takeWhile [of "\<lambda>x. x \<noteq> c" s] lt i by simp
  moreover have "\<forall>j < i. s ! j \<noteq> c"
  proof (intro allI impI)
    fix j assume j: "j < i"
    then have "takeWhile (\<lambda>x. x \<noteq> c) s ! j \<in> set (takeWhile (\<lambda>x. x \<noteq> c) s)"
      by (simp add: i)
    then have "takeWhile (\<lambda>x. x \<noteq> c) s ! j \<noteq> c"
      using set_takeWhileD by fastforce
    with j show "s ! j \<noteq> c"
      by (simp add: i takeWhile_nth)
  qed
  ultimately show "i < length s \<and> s ! i = c \<and> (\<forall>j < i. s ! j \<noteq> c)"
    by blast
next
  assume *: "i < length s \<and> s ! i = c \<and> (\<forall>j < i. s ! j \<noteq> c)"
  then have s: "s = take i s @ c # drop (Suc i) s"
    by (metis id_take_nth_drop)
  have "\<forall>x \<in> set (take i s). x \<noteq> c"
    using * by (auto simp: in_set_conv_nth)
  then have "takeWhile (\<lambda>x. x \<noteq> c) s = take i s"
    by (subst s) (simp add: takeWhile_append2 del: append_take_drop_id)
  with * show "index_of c s = Some i"
    by (auto simp: index_of_def)
qed

lemma index_of_None_iff [simp]: "index_of c s = None \<longleftrightarrow> c \<notin> set s"
  by (simp add: index_of_def)

lemma split_on_ne [simp]: "split_on c s \<noteq> []"
  by (induction s) (auto split: list.splits)

lemma join_split_on: "join_with [c] (split_on c s) = s"
proof (induction s)
  case Nil
  then show ?case by simp
next
  case (Cons x xs)
  obtain p ps where p: "split_on c xs = p # ps"
    by (cases "split_on c xs") auto
  with Cons.IH show ?case
    by (cases ps) auto
qed

lemma split_on_no_sep: "p \<in> set (split_on c s) \<Longrightarrow> c \<notin> set p"
proof (induction s arbitrary: p)
  case Nil
  then show ?case by simp
next
  case (Cons x xs)
  obtain q qs where q: "split_on c xs = q # qs"
    by (cases "split_on c xs") auto
  from Cons show ?case
    by (auto simp: q split: if_splits)
qed

lemma split_on_single: "c \<notin> set s \<Longrightarrow> split_on c s = [s]"
  by (induction s) auto

lemma split_on_append: "c \<notin> set s \<Longrightarrow> split_on c (s @ c # t) = s # split_on c t"
  by (induction s) auto

lemma foldl_invariant:
  "P s \<Longrightarrow> (\<And>x s. x \<in> set xs \<Longrightarrow> P s \<Longrightarrow> P (f s x)) \<Longrightarrow> P (foldl f s xs)"
  by (induction xs arbitrary: s) auto

lemma find_some: "find P xs = Some x \<Longrightarrow> x \<in> set xs \<and> P x"
  by (auto simp: find_Some_iff)

lemma map_upd_dom_in [simp]: "k \<in> dom m \<Longrightarrow> dom (m(k \<mapsto> v)) = dom m"
  by auto

section \<open>Decimal numbers read back\<close>

lemma digits_val_append_one: "digits_val (s @ [c]) = 10 * digits_val s + digit_val c"
  by (simp add: digits_val_def)

lemma digit_char: "n < 10 \<Longrightarrow> is_digit (char_of (48 + n :: nat)) \<and> digit_val (char_of (48 + n :: nat)) = n"
  by (simp add: is_digit_def digit_val_def of_char_of)

lemma show_nat_digits: "list_all is_digit (show_nat n) \<and> digits_val (show_nat n) = n \<and> show_nat n \<noteq> []"
proof (induction n rule: show_nat.induct)
  case (1 n)
  show ?case
  proof (cases "n < 10")
    case True
    with digit_char [of n] show ?thesis
      by (subst (1 2 3) show_nat.simps) (simp add: digits_val_def)
  next
    case False
    with 1 digit_char [of "n mod 10"] show ?thesis
      by (subst (1 2 3) show_nat.simps) (simp add: digits_val_append_one)
  qed
qed

lemma show_nat_no_char: "\<not> is_digit c \<Longrightarrow> c \<notin> set (show_nat n)"
  using show_nat_digits [of n] by (auto simp: list_all_iff)

lemma digit_not_space: "is_digit c \<Longrightarrow> \<not> is_space c"
  by (auto simp: is_digit_def is_space_def)

lemma trim_left_id: "s \<noteq> [] \<Longrightarrow> \<not> is_space (hd s) \<Longrightarrow> trim_left s = s"
  by (cases s) (simp_all add: trim_left_def)

lemma trim_space_id: "s \<noteq> [] \<Longrightarrow> \<not> is_space (hd s) \<Longrightarrow> \<not> is_space (last s) \<Longrightarrow> trim_space s = s"
  by (simp add: trim_space_def trim_left_id hd_rev)

lemma trim_space_show_nat [simp]: "trim_space (show_nat n) = show_nat n"
  using show_nat_digits [of n]
  by (intro trim_space_id digit_not_space) (auto simp: list_all_iff)

lemma parse_uint_show_nat [simp]: "n < 2 ^ bits \<Longrightarrow> parse_uint bits (show_nat n) = Some n"
  using show_nat_digits [of n] by (simp add: parse_uint_def)

end
