(* ===== verification/Pg_Tx.thy ===== *)
theory Pg_Tx
  imports Prelude
begin

text \<open>
  A Postgres transaction as the Go code sees it through \<^verbatim>\<open>pgx.Tx\<close>. The driver and the server are
  not part of the repository, so what they may do is a parameter of the state: \<open>pg_fault n\<close> is the
  driver's error text if the \<open>n\<close>-th statement of the transaction fails, \<open>None\<close> if it succeeds.
  Every statement counts, a failing one has no effect on the tables, and every theorem about an
  operation holds for every fault pattern it does not exclude. The tables are added by the
  components as record extensions, and each SQL statement of the code is a function on them.
\<close>

record pg =
  pg_clock :: nat
  pg_fault :: "nat \<Rightarrow> string option"

definition pg_exec ::
  "('a pg_scheme \<Rightarrow> 'a pg_scheme \<times> 'r) \<Rightarrow> 'a pg_scheme \<Rightarrow> 'a pg_scheme \<times> (string + 'r)" where
  "pg_exec f t =
     (case pg_fault t (pg_clock t) of
        Some msg \<Rightarrow> (t\<lparr>pg_clock := Suc (pg_clock t)\<rparr>, Inl msg)
      | None \<Rightarrow> (let (t', r) = f t in (t'\<lparr>pg_clock := Suc (pg_clock t)\<rparr>, Inr r)))"

text \<open>No statement from now on fails.\<close>

definition no_faults :: "'a pg_scheme \<Rightarrow> bool" where
  "no_faults t \<longleftrightarrow> (\<forall>n \<ge> pg_clock t. pg_fault t n = None)"

lemma pg_exec_ok:
  assumes "no_faults t"
  shows "pg_exec f t = (case f t of (t', r) \<Rightarrow> (t'\<lparr>pg_clock := Suc (pg_clock t)\<rparr>, Inr r))"
  using assms by (simp add: pg_exec_def no_faults_def split: prod.split)

text \<open>A statement is harmless for \<open>p\<close> if the server's bookkeeping does not matter to \<open>p\<close>.\<close>

lemma pg_exec_cases:
  assumes "pg_exec f t = (t', res)"
  obtains (fault) msg where "pg_fault t (pg_clock t) = Some msg"
      "t' = t\<lparr>pg_clock := Suc (pg_clock t)\<rparr>" "res = Inl msg"
    | (ok) u r where "pg_fault t (pg_clock t) = None" "f t = (u, r)"
      "t' = u\<lparr>pg_clock := Suc (pg_clock t)\<rparr>" "res = Inr r"
  using assms by (auto simp: pg_exec_def Let_def split: option.splits prod.splits)

lemma no_faults_clock:
  "no_faults t \<Longrightarrow> pg_fault u = pg_fault t \<Longrightarrow> pg_clock t \<le> pg_clock u \<Longrightarrow> no_faults u"
  by (auto simp: no_faults_def)

text \<open>\<^verbatim>\<open>if err != nil { ...; return }\<close> in a handler.\<close>

definition and_do :: "'s \<times> ('e + 'a) \<Rightarrow> ('a \<Rightarrow> 's \<Rightarrow> 's \<times> ('e + 'b)) \<Rightarrow> 's \<times> ('e + 'b)" where
  "and_do r f = (case r of (s, Inl e) \<Rightarrow> (s, Inl e) | (s, Inr x) \<Rightarrow> f x s)"

lemma and_do_Inr:
  assumes "and_do r f = (db', Inr y)"
  obtains db1 x where "r = (db1, Inr x)" "f x db1 = (db', Inr y)"
  using assms by (auto simp: and_do_def split: prod.splits sum.splits)

lemma and_do_Inl:
  assumes "and_do r f = (db', Inl e)"
  obtains (first) "r = (db', Inl e)" | (second) db1 x where "r = (db1, Inr x)" "f x db1 = (db', Inl e)"
  using assms by (auto simp: and_do_def split: prod.splits sum.splits)

end
