(* ===== verification/Outbox.thy ===== *)
theory Outbox
  imports Pg_Tx
begin

text \<open>
  The transactional outbox of \<^verbatim>\<open>libs/outbox/outbox.go\<close>: an event is inserted into
  \<^verbatim>\<open>outbox.events\<close> and deleted again in the same transaction, so that the table stays empty while
  the write-ahead log carries the event to Kafka. The table is a map from the primary key
  \<^verbatim>\<open>event_id\<close>; the log is the list of row changes in order.
\<close>

section \<open>Events, table and log\<close>

text \<open>\<open>oe_headers\<close> is a Go map: \<open>None\<close> is the nil map.\<close>

record outbox_event =
  oe_event_id :: uuid
  oe_aggregate :: string
  oe_aggregate_id :: string
  oe_topic :: string
  oe_payload :: json
  oe_headers :: "(string \<rightharpoonup> string) option"

datatype wal_entry = WalInsert outbox_event | WalDelete uuid

record outbox_tx = pg +
  outbox_events :: "uuid \<rightharpoonup> outbox_event"
  wal :: "wal_entry list"

text \<open>
  \<^verbatim>\<open>google/uuid\<close> as the producers of events use it: the v5 hash in the producer's namespace, and
  the canonical text form. The package is not part of the repository, so both are parameters.
\<close>

record uuid_lib =
  new_sha1 :: "string \<Rightarrow> uuid"
  uuid_string :: "uuid \<Rightarrow> string"

text \<open>The 16 bytes of a \<^verbatim>\<open>uuid.UUID\<close>, the most significant first.\<close>

definition uuid_bytes :: "uuid \<Rightarrow> string" where
  "uuid_bytes u = map (\<lambda>i. char_of (nat (uint u div 2 ^ (8 * (15 - i)) mod 256))) [0..<16]"

section \<open>Operations\<close>

definition new_outbox_event :: "uuid \<Rightarrow> string \<Rightarrow> string \<Rightarrow> string \<Rightarrow> json \<Rightarrow> outbox_event" where
  "new_outbox_event event_id aggregate aggregate_id topic payload =
     \<lparr>oe_event_id = event_id, oe_aggregate = aggregate, oe_aggregate_id = aggregate_id,
      oe_topic = topic, oe_payload = payload, oe_headers = Some Map.empty\<rparr>"

definition with_header :: "outbox_event \<Rightarrow> string \<Rightarrow> string \<Rightarrow> outbox_event" where
  "with_header e key value =
     (let hs = (case oe_headers e of None \<Rightarrow> Map.empty | Some hs \<Rightarrow> hs)
      in e\<lparr>oe_headers := Some (hs(key \<mapsto> value))\<rparr>)"

text \<open>\<^verbatim>\<open>INSERT \<dots> ON CONFLICT (event_id) DO NOTHING\<close>, with the number of rows affected.\<close>

definition insert_outbox_sql ::
  "outbox_event \<Rightarrow> 'a outbox_tx_scheme \<Rightarrow> 'a outbox_tx_scheme \<times> nat" where
  "insert_outbox_sql e t =
     (case outbox_events t (oe_event_id e) of
        Some _ \<Rightarrow> (t, 0)
      | None \<Rightarrow> (t\<lparr>outbox_events := (outbox_events t)(oe_event_id e \<mapsto> e),
                  wal := wal t @ [WalInsert e]\<rparr>, 1))"

text \<open>\<^verbatim>\<open>DELETE FROM outbox.events WHERE event_id = $1\<close>.\<close>

definition delete_outbox_sql :: "uuid \<Rightarrow> 'a outbox_tx_scheme \<Rightarrow> 'a outbox_tx_scheme \<times> nat" where
  "delete_outbox_sql k t =
     (case outbox_events t k of
        None \<Rightarrow> (t, 0)
      | Some _ \<Rightarrow> (t\<lparr>outbox_events := (outbox_events t)(k := None),
                    wal := wal t @ [WalDelete k]\<rparr>, 1))"

text \<open>
  \<^verbatim>\<open>Enqueue\<close>; the result is the text of the error, if any. (\<^verbatim>\<open>json.Marshal\<close> of a string map, the
  first thing it does, cannot fail.)
\<close>

definition enqueue :: "outbox_event \<Rightarrow> 'a outbox_tx_scheme \<Rightarrow> 'a outbox_tx_scheme \<times> string option" where
  "enqueue e t =
     (case pg_exec (insert_outbox_sql e) t of
        (t1, Inl msg) \<Rightarrow> (t1, Some (''outbox insert: '' @ msg))
      | (t1, Inr n) \<Rightarrow>
          if n = 0 then (t1, None)
          else (case pg_exec (delete_outbox_sql (oe_event_id e)) t1 of
                  (t2, Inl msg) \<Rightarrow> (t2, Some (''outbox tombstone delete: '' @ msg))
                | (t2, Inr _) \<Rightarrow> (t2, None)))"

fun enqueue_all :: "outbox_event list \<Rightarrow> 'a outbox_tx_scheme \<Rightarrow> 'a outbox_tx_scheme \<times> string option" where
  "enqueue_all [] t = (t, None)"
| "enqueue_all (e # es) t =
     (case enqueue e t of (t', Some msg) \<Rightarrow> (t', Some msg) | (t', None) \<Rightarrow> enqueue_all es t')"

text \<open>What the change-data-capture connector relays: the inserts of the log, in order.\<close>

fun relayed :: "wal_entry list \<Rightarrow> outbox_event list" where
  "relayed [] = []"
| "relayed (WalInsert e # ws) = e # relayed ws"
| "relayed (WalDelete k # ws) = relayed ws"

section \<open>Lemmas\<close>

lemma relayed_append [simp]: "relayed (xs @ ys) = relayed xs @ relayed ys"
  by (induction xs rule: relayed.induct) auto

lemma enqueue_fault [frame]: "enqueue e t = (t', res) \<Longrightarrow> pg_fault t' = pg_fault t"
  by (auto simp: enqueue_def pg_exec_def insert_outbox_sql_def delete_outbox_sql_def Let_def
      split: option.splits sum.splits prod.splits if_splits)

lemma enqueue_clock [frame]: "enqueue e t = (t', res) \<Longrightarrow> pg_clock t < pg_clock t'"
  by (auto simp: enqueue_def pg_exec_def insert_outbox_sql_def delete_outbox_sql_def Let_def
      split: option.splits sum.splits prod.splits if_splits)

lemma enqueue_more [frame]: "enqueue e t = (t', res) \<Longrightarrow> outbox_tx.more t' = outbox_tx.more t"
  by (auto simp: enqueue_def pg_exec_def insert_outbox_sql_def delete_outbox_sql_def Let_def
      split: option.splits sum.splits prod.splits if_splits)

lemma enqueue_no_faults: "enqueue e t = (t', res) \<Longrightarrow> no_faults t \<Longrightarrow> no_faults t'"
  by (meson enqueue_clock enqueue_fault no_faults_clock order_less_imp_le)

text \<open>A call without an error on a table that does not hold the key: two log entries, same table.\<close>

lemma enqueue_fresh:
  assumes "enqueue e t = (t', None)" and "outbox_events t (oe_event_id e) = None"
  shows "outbox_events t' = outbox_events t \<and>
         wal t' = wal t @ [WalInsert e, WalDelete (oe_event_id e)]"
proof -
  have upd: "(outbox_events t)(oe_event_id e := None) = outbox_events t"
    using assms(2) by (simp add: fun_upd_idem)
  show ?thesis
    using assms upd
    by (auto simp: enqueue_def pg_exec_def insert_outbox_sql_def delete_outbox_sql_def Let_def
        split: option.splits sum.splits prod.splits if_splits)
qed

lemma enqueue_ok_fresh:
  assumes "no_faults t" and "outbox_events t (oe_event_id e) = None"
  shows "\<exists>t'. enqueue e t = (t', None)"
  using assms
  by (auto simp: enqueue_def pg_exec_def no_faults_def insert_outbox_sql_def delete_outbox_sql_def
      Let_def split: option.splits sum.splits prod.splits if_splits)

lemma enqueue_all_frame:
  "enqueue_all es t = (t', None) \<Longrightarrow> outbox_events t = Map.empty \<Longrightarrow>
   outbox_events t' = Map.empty \<and> relayed (wal t') = relayed (wal t) @ es"
proof (induction es arbitrary: t)
  case Nil
  then show ?case by simp
next
  case (Cons e es)
  obtain t1 where t1: "enqueue e t = (t1, None)" and rest: "enqueue_all es t1 = (t', None)"
    using Cons.prems(1) by (auto split: prod.splits option.splits)
  from enqueue_fresh [OF t1] Cons.prems(2)
  have "outbox_events t1 = Map.empty" "wal t1 = wal t @ [WalInsert e, WalDelete (oe_event_id e)]"
    by auto
  with Cons.IH [OF rest] show ?case by simp
qed

section \<open>Properties\<close>

text \<open>
  C1. Steady state of the outbox. Whatever events are enqueued one after the other on an empty
  table, with no error, the table is empty again and the log relays exactly these events, each one
  once per call and in call order. Repeated event ids are relayed again: the primary key does not
  absorb a retry, because the row of the first attempt is gone.
\<close>

theorem outbox_steady_state:
  assumes "outbox_events t = Map.empty" and "enqueue_all es t = (t', None)"
  shows "outbox_events t' = Map.empty \<and> relayed (wal t') = relayed (wal t) @ es"
  using enqueue_all_frame [OF assms(2,1)] .

definition sample_tx :: outbox_tx where
  "sample_tx = \<lparr>pg_clock = 0, pg_fault = (\<lambda>_. None), outbox_events = Map.empty, wal = []\<rparr>"

definition sample_event :: outbox_event where
  "sample_event = new_outbox_event 7 ''saga'' ''s1'' ''saga.completed.v1'' (JObj [])"

lemma sample_enqueue_twice:
  "\<exists>t'. enqueue_all [sample_event, sample_event] sample_tx = (t', None)"
  by (simp add: sample_tx_def sample_event_def new_outbox_event_def enqueue_def pg_exec_def
      insert_outbox_sql_def delete_outbox_sql_def)

theorem outbox_steady_state_witness:
  "\<exists>t'. enqueue_all [sample_event, sample_event] sample_tx = (t', None) \<and>
        outbox_events t' = Map.empty \<and> relayed (wal t') = [sample_event, sample_event]"
proof -
  obtain t' where t': "enqueue_all [sample_event, sample_event] sample_tx = (t', None)"
    using sample_enqueue_twice by blast
  have "outbox_events sample_tx = Map.empty" "wal sample_tx = []"
    by (simp_all add: sample_tx_def)
  with outbox_steady_state [OF _ t'] t' show ?thesis by simp
qed

end
