(* ===== verification/Saga.thy ===== *)
theory Saga
  imports Outbox
begin

text \<open>
  The saga runner of \<^verbatim>\<open>libs/saga\<close>: typed steps executed inside one Postgres transaction, a row of
  \<^verbatim>\<open>saga.state\<close> that mirrors the runner, one outbox event per state change, and the LIFO chain of
  compensations that undoes the completed steps when a later one fails. A step's effects outside the
  transaction are a state \<open>'w\<close> that its \<^verbatim>\<open>Execute\<close> and \<^verbatim>\<open>Compensate\<close> change. The column
  \<^verbatim>\<open>updated_at\<close> is not modelled.
\<close>

section \<open>Errors\<close>

text \<open>
  \<^verbatim>\<open>SagaError\<close>, one constructor per \<^verbatim>\<open>SagaErrorKind\<close> with the fields that kind carries;
  \<open>ErrOther\<close> is an error a step returns that is no \<^verbatim>\<open>SagaError\<close>.
\<close>

datatype saga_error =
    ErrStepFailure string string
  | ErrCompensationFailure string string
  | ErrDB string
  | ErrOutbox string
  | ErrSerialize string
  | ErrTerminal string
  | ErrOther string

fun saga_error_text :: "saga_error \<Rightarrow> string" where
  "saga_error_text (ErrStepFailure step msg) = ''step `'' @ step @ ''` failed: '' @ msg"
| "saga_error_text (ErrCompensationFailure step msg) = ''compensate `'' @ step @ ''` failed: '' @ msg"
| "saga_error_text (ErrDB msg) = ''database error: '' @ msg"
| "saga_error_text (ErrOutbox msg) = ''outbox: '' @ msg"
| "saga_error_text (ErrSerialize msg) = ''serialize: '' @ msg"
| "saga_error_text (ErrTerminal msg) = ''saga is in terminal state `'' @ msg @ ''`''"
| "saga_error_text (ErrOther msg) = msg"

fun is_terminal_error :: "saga_error \<Rightarrow> bool" where
  "is_terminal_error (ErrTerminal _) = True"
| "is_terminal_error _ = False"

section \<open>Status, events, rows\<close>

datatype saga_status = Running | Completed | Failed | Compensated | Aborted

fun saga_status_string :: "saga_status \<Rightarrow> string" where
  "saga_status_string Running = ''running''"
| "saga_status_string Completed = ''completed''"
| "saga_status_string Failed = ''failed''"
| "saga_status_string Compensated = ''compensated''"
| "saga_status_string Aborted = ''aborted''"

text \<open>Unknown strings collapse to \<open>Running\<close>.\<close>

definition parse_saga_status :: "string \<Rightarrow> saga_status" where
  "parse_saga_status s =
     (if s = ''completed'' then Completed
      else if s = ''failed'' then Failed
      else if s = ''compensated'' then Compensated
      else if s = ''aborted'' then Aborted
      else Running)"

definition saga_status_is_terminal :: "saga_status \<Rightarrow> bool" where
  "saga_status_is_terminal s \<longleftrightarrow> s \<noteq> Running"

datatype saga_event_kind =
  EventStepCompleted | EventStepFailed | EventStepCompensated | EventSagaCompleted | EventSagaAborted

fun saga_topic :: "saga_event_kind \<Rightarrow> string" where
  "saga_topic EventStepCompleted = ''saga.step.completed.v1''"
| "saga_topic EventStepFailed = ''saga.step.failed.v1''"
| "saga_topic EventStepCompensated = ''saga.step.compensated.v1''"
| "saga_topic EventSagaCompleted = ''saga.completed.v1''"
| "saga_topic EventSagaAborted = ''saga.aborted.v1''"

fun discriminator :: "saga_event_kind \<Rightarrow> string" where
  "discriminator EventStepCompleted = ''step.completed''"
| "discriminator EventStepFailed = ''step.failed''"
| "discriminator EventStepCompensated = ''step.compensated''"
| "discriminator EventSagaCompleted = ''saga.completed''"
| "discriminator EventSagaAborted = ''saga.aborted''"

record saga_event =
  se_kind :: saga_event_kind
  se_step :: string
  se_event_id :: uuid

text \<open>A row of \<^verbatim>\<open>saga.state\<close>; \<^verbatim>\<open>step_outputs\<close> is a JSON object, read as a map.\<close>

record saga_row =
  sr_name :: string
  sr_status :: string
  sr_current_step :: "string option"
  sr_completed_steps :: "string list"
  sr_step_outputs :: "string \<rightharpoonup> json"
  sr_failed_step :: "string option"

record saga_tx = outbox_tx +
  saga_state :: "uuid \<rightharpoonup> saga_row"

text \<open>
  A step: its name, its effectful \<^verbatim>\<open>Execute\<close> and \<^verbatim>\<open>Compensate\<close>. A compensation is the closure
  that the runner keeps, with the input already captured.
\<close>

record ('w, 'i, 'o) saga_step =
  step_name :: string
  execute :: "'i \<Rightarrow> 'w \<Rightarrow> 'w \<times> (saga_error + 'o)"
  compensate :: "'i \<Rightarrow> 'w \<Rightarrow> 'w \<times> saga_error option"

type_synonym 'w compensation = "string \<times> ('w \<Rightarrow> 'w \<times> saga_error option)"

record 'w saga_runner =
  r_tx :: saga_tx
  r_saga_id :: uuid
  r_name :: string
  r_status :: saga_status
  r_completed_steps :: "string list"
  r_completed_set :: "string set"
  r_step_outputs :: "string \<rightharpoonup> json"
  r_compensations :: "'w compensation list"
  r_events :: "saga_event list"

section \<open>Payloads\<close>

definition step_completed_payload :: "uuid \<Rightarrow> string \<Rightarrow> string \<Rightarrow> json \<Rightarrow> json" where
  "step_completed_payload sid saga step out =
     JObj [(''saga_id'', JUuid sid), (''saga'', JStr saga), (''step'', JStr step), (''output'', out)]"

definition step_failed_payload :: "uuid \<Rightarrow> string \<Rightarrow> string \<Rightarrow> string \<Rightarrow> json" where
  "step_failed_payload sid saga step err =
     JObj [(''saga_id'', JUuid sid), (''saga'', JStr saga), (''step'', JStr step), (''error'', JStr err)]"

definition step_compensated_payload :: "uuid \<Rightarrow> string \<Rightarrow> string \<Rightarrow> json" where
  "step_compensated_payload sid saga step =
     JObj [(''saga_id'', JUuid sid), (''saga'', JStr saga), (''step'', JStr step)]"

definition saga_completed_payload :: "uuid \<Rightarrow> string \<Rightarrow> string list \<Rightarrow> json" where
  "saga_completed_payload sid saga steps =
     JObj [(''saga_id'', JUuid sid), (''saga'', JStr saga), (''completed_steps'', JArr (map JStr steps))]"

definition saga_aborted_payload :: "uuid \<Rightarrow> string \<Rightarrow> json" where
  "saga_aborted_payload sid saga = JObj [(''saga_id'', JUuid sid), (''saga'', JStr saga)]"

section \<open>The SQL statements\<close>

text \<open>\<^verbatim>\<open>INSERT INTO saga.state (saga_id, name) \<dots> ON CONFLICT (saga_id) DO NOTHING\<close>.\<close>

definition insert_saga_sql :: "uuid \<Rightarrow> string \<Rightarrow> saga_tx \<Rightarrow> saga_tx \<times> unit" where
  "insert_saga_sql sid name t =
     (case saga_state t sid of
        Some _ \<Rightarrow> (t, ())
      | None \<Rightarrow>
          (t\<lparr>saga_state := (saga_state t)(sid \<mapsto>
              \<lparr>sr_name = name, sr_status = ''running'', sr_current_step = None,
               sr_completed_steps = [], sr_step_outputs = Map.empty, sr_failed_step = None\<rparr>)\<rparr>, ()))"

definition select_saga_sql :: "uuid \<Rightarrow> saga_tx \<Rightarrow> saga_tx \<times> saga_row option" where
  "select_saga_sql sid t = (t, saga_state t sid)"

definition update_saga_sql :: "uuid \<Rightarrow> (saga_row \<Rightarrow> saga_row) \<Rightarrow> saga_tx \<Rightarrow> saga_tx \<times> unit" where
  "update_saga_sql sid f t = (t\<lparr>saga_state := (saga_state t)(sid := map_option f (saga_state t sid))\<rparr>, ())"

definition set_current_step :: "string \<Rightarrow> saga_row \<Rightarrow> saga_row" where
  "set_current_step step row = row\<lparr>sr_current_step := Some step\<rparr>"

definition append_completed :: "string \<Rightarrow> json \<Rightarrow> saga_row \<Rightarrow> saga_row" where
  "append_completed step out row =
     row\<lparr>sr_completed_steps := sr_completed_steps row @ [step],
         sr_step_outputs := (sr_step_outputs row)(step \<mapsto> out),
         sr_current_step := None\<rparr>"

definition set_row_status :: "saga_status \<Rightarrow> string \<Rightarrow> saga_row \<Rightarrow> saga_row" where
  "set_row_status st failed_step row =
     row\<lparr>sr_status := saga_status_string st,
         sr_failed_step := (if failed_step \<noteq> [] then Some failed_step else sr_failed_step row),
         sr_current_step := None\<rparr>"

section \<open>The runner\<close>

text \<open>\<^verbatim>\<open>Start\<close>: the transaction after it, and the runner or the error.\<close>

definition saga_start ::
  "saga_tx \<Rightarrow> uuid \<Rightarrow> string \<Rightarrow> saga_tx \<times> (saga_error + 'w saga_runner)" where
  "saga_start tx sid name =
     (case pg_exec (insert_saga_sql sid name) tx of
        (t1, Inl msg) \<Rightarrow> (t1, Inl (ErrDB msg))
      | (t1, Inr _) \<Rightarrow>
          (case pg_exec (select_saga_sql sid) t1 of
             (t2, Inl msg) \<Rightarrow> (t2, Inl (ErrDB msg))
           | (t2, Inr None) \<Rightarrow> (t2, Inl (ErrDB ''no rows in result set''))
           | (t2, Inr (Some row)) \<Rightarrow>
               if saga_status_is_terminal (parse_saga_status (sr_status row))
               then (t2, Inl (ErrTerminal (sr_status row)))
               else (t2, Inr \<lparr>r_tx = t2, r_saga_id = sid, r_name = name, r_status = Running,
                       r_completed_steps = sr_completed_steps row,
                       r_completed_set = set (sr_completed_steps row),
                       r_step_outputs = sr_step_outputs row,
                       r_compensations = [], r_events = []\<rparr>)))"

text \<open>The hash input of an event id, and \<^verbatim>\<open>emit\<close>.\<close>

definition event_id_input :: "uuid_lib \<Rightarrow> uuid \<Rightarrow> string \<Rightarrow> saga_event_kind \<Rightarrow> string" where
  "event_id_input ul sid step kind =
     uuid_string ul sid @ '':'' @ step @ '':'' @ discriminator kind"

definition emit ::
  "uuid_lib \<Rightarrow> saga_event_kind \<Rightarrow> string \<Rightarrow> json \<Rightarrow> 'w saga_runner \<Rightarrow>
   'w saga_runner \<times> (saga_error + uuid)" where
  "emit ul kind step payload r =
     (let event_id = new_sha1 ul (event_id_input ul (r_saga_id r) step kind);
          ev = new_outbox_event event_id ''saga'' (uuid_string ul (r_saga_id r)) (saga_topic kind) payload
      in case enqueue ev (r_tx r) of
           (t, Some msg) \<Rightarrow> (r\<lparr>r_tx := t\<rparr>, Inl (ErrOutbox msg))
         | (t, None) \<Rightarrow>
             (r\<lparr>r_tx := t,
                r_events := r_events r @ [\<lparr>se_kind = kind, se_step = step, se_event_id = event_id\<rparr>]\<rparr>,
              Inr event_id))"

definition set_status ::
  "saga_status \<Rightarrow> string \<Rightarrow> 'w saga_runner \<Rightarrow> 'w saga_runner \<times> saga_error option" where
  "set_status st failed_step r =
     (case pg_exec (update_saga_sql (r_saga_id r) (set_row_status st failed_step)) (r_tx r) of
        (t, Inl msg) \<Rightarrow> (r\<lparr>r_tx := t\<rparr>, Some (ErrDB msg))
      | (t, Inr _) \<Rightarrow> (r\<lparr>r_tx := t, r_status := st\<rparr>, None))"

text \<open>
  The loop of \<^verbatim>\<open>runCompensations\<close> over the chain already reversed: a failing compensation is skipped,
  a failing emit stops the loop. The last component is the error; the one before it is \<^verbatim>\<open>ranAny\<close>.
\<close>

fun compensation_loop ::
  "uuid_lib \<Rightarrow> 'w compensation list \<Rightarrow> bool \<Rightarrow> 'w saga_runner \<Rightarrow> 'w \<Rightarrow>
   'w saga_runner \<times> 'w \<times> bool \<times> saga_error option" where
  "compensation_loop ul [] ran_any r w = (r, w, ran_any, None)"
| "compensation_loop ul ((name, invoke) # cs) ran_any r w =
     (case invoke w of
        (w', Some _) \<Rightarrow> compensation_loop ul cs ran_any r w'
      | (w', None) \<Rightarrow>
          (case emit ul EventStepCompensated name
                  (step_compensated_payload (r_saga_id r) (r_name r) name) r of
             (r', Inl err) \<Rightarrow> (r', w', ran_any, Some err)
           | (r', Inr _) \<Rightarrow> compensation_loop ul cs True r' w'))"

definition run_compensations ::
  "uuid_lib \<Rightarrow> 'w saga_runner \<Rightarrow> 'w \<Rightarrow> 'w saga_runner \<times> 'w \<times> bool \<times> saga_error option" where
  "run_compensations ul r w =
     compensation_loop ul (rev (r_compensations r)) False (r\<lparr>r_compensations := []\<rparr>) w"

text \<open>
  \<^verbatim>\<open>ExecuteStep\<close>. \<open>enc\<close> and \<open>dec\<close> are the JSON encoding of the step's output type (\<^verbatim>\<open>json.Marshal\<close>
  and \<^verbatim>\<open>json.Unmarshal\<close> at that type), an \<open>Inl\<close> being their error text.
\<close>

definition execute_success ::
  "('o \<Rightarrow> string + json) \<Rightarrow> uuid_lib \<Rightarrow> ('w, 'i, 'o) saga_step \<Rightarrow> 'i \<Rightarrow> 'o \<Rightarrow>
   'w saga_runner \<Rightarrow> 'w saga_runner \<times> (saga_error + 'o)" where
  "execute_success enc ul step input out r =
     (case enc out of
        Inl msg \<Rightarrow> (r, Inl (ErrSerialize msg))
      | Inr out_json \<Rightarrow>
          (case emit ul EventStepCompleted (step_name step)
                  (step_completed_payload (r_saga_id r) (r_name r) (step_name step) out_json) r of
             (r1, Inl err) \<Rightarrow> (r1, Inl err)
           | (r1, Inr _) \<Rightarrow>
               (case pg_exec (update_saga_sql (r_saga_id r1) (append_completed (step_name step) out_json))
                       (r_tx r1) of
                  (t, Inl msg) \<Rightarrow> (r1\<lparr>r_tx := t\<rparr>, Inl (ErrDB msg))
                | (t, Inr _) \<Rightarrow>
                    (r1\<lparr>r_tx := t,
                        r_completed_steps := r_completed_steps r1 @ [step_name step],
                        r_completed_set := insert (step_name step) (r_completed_set r1),
                        r_step_outputs := (r_step_outputs r1)(step_name step \<mapsto> out_json),
                        r_compensations :=
                          r_compensations r1 @ [(step_name step, compensate step input)]\<rparr>,
                     Inr out))))"

definition execute_failure ::
  "uuid_lib \<Rightarrow> string \<Rightarrow> saga_error \<Rightarrow> 'w saga_runner \<Rightarrow> 'w \<Rightarrow>
   'w saga_runner \<times> 'w \<times> (saga_error + 'o)" where
  "execute_failure ul name err r w =
     (case emit ul EventStepFailed name
             (step_failed_payload (r_saga_id r) (r_name r) name (saga_error_text err)) r of
        (r1, Inl e) \<Rightarrow> (r1, w, Inl e)
      | (r1, Inr _) \<Rightarrow>
          (case run_compensations ul r1 w of
             (r2, w2, _, Some e) \<Rightarrow> (r2, w2, Inl e)
           | (r2, w2, ran_any, None) \<Rightarrow>
               (case set_status (if ran_any then Compensated else Failed) name r2 of
                  (r3, Some e) \<Rightarrow> (r3, w2, Inl e)
                | (r3, None) \<Rightarrow> (r3, w2, Inl err))))"

definition execute_step ::
  "('o \<Rightarrow> string + json) \<Rightarrow> (json \<Rightarrow> string + 'o) \<Rightarrow> uuid_lib \<Rightarrow> ('w, 'i, 'o) saga_step \<Rightarrow> 'i \<Rightarrow>
   'w saga_runner \<Rightarrow> 'w \<Rightarrow> 'w saga_runner \<times> 'w \<times> (saga_error + 'o)" where
  "execute_step enc dec ul step input r w =
     (if saga_status_is_terminal (r_status r)
      then (r, w, Inl (ErrTerminal (saga_status_string (r_status r))))
      else if step_name step \<in> r_completed_set r
      then (case r_step_outputs r (step_name step) of
              None \<Rightarrow> (r, w, Inl (ErrStepFailure (step_name step)
                                  ''step marked complete but no cached output''))
            | Some cached \<Rightarrow>
                (case dec cached of
                   Inl msg \<Rightarrow> (r, w, Inl (ErrSerialize msg))
                 | Inr out \<Rightarrow> (r, w, Inr out)))
      else (case pg_exec (update_saga_sql (r_saga_id r) (set_current_step (step_name step))) (r_tx r) of
              (t, Inl msg) \<Rightarrow> (r\<lparr>r_tx := t\<rparr>, w, Inl (ErrDB msg))
            | (t, Inr _) \<Rightarrow>
                (case execute step input w of
                   (w', Inr out) \<Rightarrow>
                     (case execute_success enc ul step input out (r\<lparr>r_tx := t\<rparr>) of
                        (r', res) \<Rightarrow> (r', w', res))
                 | (w', Inl err) \<Rightarrow> execute_failure ul (step_name step) err (r\<lparr>r_tx := t\<rparr>) w')))"

definition saga_finish :: "uuid_lib \<Rightarrow> 'w saga_runner \<Rightarrow> 'w saga_runner \<times> saga_error option" where
  "saga_finish ul r =
     (if saga_status_is_terminal (r_status r)
      then (r, Some (ErrTerminal (saga_status_string (r_status r))))
      else (case emit ul EventSagaCompleted ''''
                    (saga_completed_payload (r_saga_id r) (r_name r) (r_completed_steps r)) r of
              (r1, Inl e) \<Rightarrow> (r1, Some e)
            | (r1, Inr _) \<Rightarrow> set_status Completed '''' r1))"

definition saga_abort ::
  "uuid_lib \<Rightarrow> 'w saga_runner \<Rightarrow> 'w \<Rightarrow> 'w saga_runner \<times> 'w \<times> saga_error option" where
  "saga_abort ul r w =
     (if saga_status_is_terminal (r_status r)
      then (r, w, Some (ErrTerminal (saga_status_string (r_status r))))
      else (case run_compensations ul r w of
              (r1, w1, _, Some e) \<Rightarrow> (r1, w1, Some e)
            | (r1, w1, _, None) \<Rightarrow>
                (case emit ul EventSagaAborted '''' (saga_aborted_payload (r_saga_id r1) (r_name r1)) r1 of
                   (r2, Inl e) \<Rightarrow> (r2, w1, Some e)
                 | (r2, Inr _) \<Rightarrow> (case set_status Aborted '''' r2 of (r3, e) \<Rightarrow> (r3, w1, e)))))"

text \<open>
  \<^verbatim>\<open>EnqueueOutboxEvent\<close>: the key of the event id and the call. \<open>render\<close> is the compact text
  \<^verbatim>\<open>json.Marshal\<close> writes.
\<close>

definition outbox_event_key :: "(json \<Rightarrow> string) \<Rightarrow> string \<Rightarrow> string \<Rightarrow> string \<Rightarrow> json \<Rightarrow> string" where
  "outbox_event_key render aggregate aggregate_id topic payload =
     aggregate @ '':'' @ aggregate_id @ '':'' @ topic @ '':'' @ render payload"

definition enqueue_outbox_event ::
  "(json \<Rightarrow> string) \<Rightarrow> uuid_lib \<Rightarrow> string \<Rightarrow> string \<Rightarrow> string \<Rightarrow> json \<Rightarrow>
   'a outbox_tx_scheme \<Rightarrow> 'a outbox_tx_scheme \<times> (saga_error + uuid)" where
  "enqueue_outbox_event render ul aggregate aggregate_id topic payload t =
     (let event_id = new_sha1 ul (outbox_event_key render aggregate aggregate_id topic payload)
      in case enqueue (new_outbox_event event_id aggregate aggregate_id topic payload) t of
           (t', Some msg) \<Rightarrow> (t', Inl (ErrOutbox msg))
         | (t', None) \<Rightarrow> (t', Inr event_id))"

end
