(* ===== verification/Saga_Proofs.thy ===== *)
theory Saga_Proofs
  imports Saga
begin

text \<open>
  The correctness of the saga runner: the in-memory runner is an exact image of its row under every
  fault pattern, terminal runners refuse every call, a failing step undoes the completed ones in
  LIFO order, a completed step is replayed from its cached output after a restart, and the recorded
  events are the ones on the log.
\<close>

section \<open>Sequences of calls\<close>

text \<open>A caller's use of a runner, with one input and one output type for its steps.\<close>

datatype ('w, 'i, 'o) saga_call =
    ExecuteStep "('w, 'i, 'o) saga_step" 'i
  | Finish
  | Abort

datatype 'o saga_result = StepOut 'o | NoError | Error saga_error

definition of_sum :: "saga_error + 'o \<Rightarrow> 'o saga_result" where
  "of_sum res = (case res of Inl e \<Rightarrow> Error e | Inr out \<Rightarrow> StepOut out)"

definition of_opt :: "saga_error option \<Rightarrow> 'o saga_result" where
  "of_opt res = (case res of None \<Rightarrow> NoError | Some e \<Rightarrow> Error e)"

fun run_call ::
  "('o \<Rightarrow> string + json) \<Rightarrow> (json \<Rightarrow> string + 'o) \<Rightarrow> uuid_lib \<Rightarrow> ('w, 'i, 'o) saga_call \<Rightarrow>
   'w saga_runner \<times> 'w \<Rightarrow> ('w saga_runner \<times> 'w) \<times> 'o saga_result" where
  "run_call enc dec ul (ExecuteStep step input) (r, w) =
     (case execute_step enc dec ul step input r w of (r', w', res) \<Rightarrow> ((r', w'), of_sum res))"
| "run_call enc dec ul Finish (r, w) = (case saga_finish ul r of (r', e) \<Rightarrow> ((r', w), of_opt e))"
| "run_call enc dec ul Abort (r, w) = (case saga_abort ul r w of (r', w', e) \<Rightarrow> ((r', w'), of_opt e))"

fun run_calls ::
  "('o \<Rightarrow> string + json) \<Rightarrow> (json \<Rightarrow> string + 'o) \<Rightarrow> uuid_lib \<Rightarrow> ('w, 'i, 'o) saga_call list \<Rightarrow>
   'w saga_runner \<times> 'w \<Rightarrow> ('w saga_runner \<times> 'w) \<times> 'o saga_result list" where
  "run_calls enc dec ul [] rw = (rw, [])"
| "run_calls enc dec ul (c # cs) rw =
     (case run_call enc dec ul c rw of
        (rw', res) \<Rightarrow> (case run_calls enc dec ul cs rw' of (rw'', ress) \<Rightarrow> (rw'', res # ress)))"

section \<open>The runner mirrors its row\<close>

definition row_mirrors :: "'w saga_runner \<Rightarrow> saga_row \<Rightarrow> bool" where
  "row_mirrors r row \<longleftrightarrow>
     parse_saga_status (sr_status row) = r_status r \<and>
     sr_completed_steps row = r_completed_steps r \<and>
     sr_step_outputs row = r_step_outputs r"

definition runner_inv :: "'w saga_runner \<Rightarrow> bool" where
  "runner_inv r \<longleftrightarrow>
     (\<exists>row. saga_state (r_tx r) (r_saga_id r) = Some row \<and> row_mirrors r row) \<and>
     r_completed_set r = set (r_completed_steps r) \<and>
     distinct (r_completed_steps r) \<and>
     (\<forall>s \<in> set (r_completed_steps r). r_step_outputs r s \<noteq> None)"

lemma parse_status_string [simp]: "parse_saga_status (saga_status_string s) = s"
  by (cases s) (simp_all add: parse_saga_status_def)

lemma runner_inv_cong:
  assumes "saga_state (r_tx r') = saga_state (r_tx r)" "r_saga_id r' = r_saga_id r"
    "r_status r' = r_status r" "r_completed_steps r' = r_completed_steps r"
    "r_completed_set r' = r_completed_set r" "r_step_outputs r' = r_step_outputs r"
  shows "runner_inv r' = runner_inv r"
  using assms by (simp add: runner_inv_def row_mirrors_def)

lemma enqueue_saga_state [frame]:
  "enqueue e t = (t', res) \<Longrightarrow> saga_state t' = saga_state t"
  using enqueue_more [of e t t' res] by (cases t; cases t') simp

text \<open>\<^verbatim>\<open>emit\<close> touches only the transaction's outbox part and the event record.\<close>

lemma emit_frame:
  assumes "emit ul k s p r = (r', res)"
  obtains t evs where "r' = r\<lparr>r_tx := t, r_events := evs\<rparr>" "saga_state t = saga_state (r_tx r)"
proof -
  obtain t e where enq: "enqueue (new_outbox_event (new_sha1 ul (event_id_input ul (r_saga_id r) s k))
      ''saga'' (uuid_string ul (r_saga_id r)) (saga_topic k) p) (r_tx r) = (t, e)"
    by fastforce
  show ?thesis
  proof (rule that)
    show "r' = r\<lparr>r_tx := t, r_events := r_events r'\<rparr>"
      using assms enq by (auto simp: emit_def Let_def split: option.splits)
    show "saga_state t = saga_state (r_tx r)"
      using enq by (rule enqueue_saga_state)
  qed
qed

lemma emit_inv [inv_intro]: "emit ul k s p r = (r', res) \<Longrightarrow> runner_inv r' = runner_inv r"
  by (erule emit_frame, rule runner_inv_cong) simp_all

lemma emit_status [frame]:
  "emit ul k s p r = (r', res) \<Longrightarrow>
   r_status r' = r_status r \<and> r_saga_id r' = r_saga_id r \<and> r_name r' = r_name r \<and>
   r_completed_steps r' = r_completed_steps r \<and> r_completed_set r' = r_completed_set r \<and>
   r_step_outputs r' = r_step_outputs r \<and> r_compensations r' = r_compensations r"
  by (erule emit_frame) simp

lemma compensation_loop_frame [frame]:
  "compensation_loop ul cs b r w = (r', w', b', e) \<Longrightarrow>
   r_status r' = r_status r \<and> r_saga_id r' = r_saga_id r \<and>
   r_completed_steps r' = r_completed_steps r \<and> r_completed_set r' = r_completed_set r \<and>
   r_step_outputs r' = r_step_outputs r \<and> runner_inv r' = runner_inv r"
proof (induction ul cs b r w rule: compensation_loop.induct)
  case (1 ul b r w)
  then show ?case by simp
next
  case (2 ul name invoke cs b r w)
  then show ?case
    by (auto split: prod.splits option.splits sum.splits dest: emit_status emit_inv)
qed

lemma run_compensations_frame [frame]:
  assumes "run_compensations ul r w = (r', w', b, e)"
  shows "r_status r' = r_status r \<and> r_saga_id r' = r_saga_id r \<and>
    r_completed_set r' = r_completed_set r \<and> runner_inv r' = runner_inv r"
proof -
  have "runner_inv (r\<lparr>r_compensations := []\<rparr>) = runner_inv r"
    by (rule runner_inv_cong) simp_all
  with compensation_loop_frame [OF assms [unfolded run_compensations_def]] show ?thesis by simp
qed

lemma update_saga_inv:
  assumes "runner_inv r" and "pg_exec (update_saga_sql (r_saga_id r) f) (r_tx r) = (t, res)"
  shows "(\<exists>msg. res = Inl msg) \<and> saga_state t = saga_state (r_tx r) \<or>
         (\<exists>row. res = Inr () \<and> saga_state (r_tx r) (r_saga_id r) = Some row \<and>
            saga_state t = (saga_state (r_tx r))(r_saga_id r \<mapsto> f row))"
proof -
  obtain row where "saga_state (r_tx r) (r_saga_id r) = Some row"
    using assms(1) by (auto simp: runner_inv_def)
  with assms(2) show ?thesis
    by (auto simp: pg_exec_def update_saga_sql_def Let_def split: option.splits)
qed

lemma set_status_inv [inv_intro]:
  assumes "runner_inv r" and "set_status st step r = (r', e)"
  shows "runner_inv r'"
proof -
  obtain t res where t: "pg_exec (update_saga_sql (r_saga_id r) (set_row_status st step)) (r_tx r) = (t, res)"
    by fastforce
  from update_saga_inv [OF assms(1) t] assms t show ?thesis
    by (auto simp: set_status_def runner_inv_def row_mirrors_def set_row_status_def)
qed

lemma set_current_inv [inv_intro]:
  assumes "runner_inv r"
    and "pg_exec (update_saga_sql (r_saga_id r) (set_current_step step)) (r_tx r) = (t, res)"
  shows "runner_inv (r\<lparr>r_tx := t\<rparr>)"
  using update_saga_inv [OF assms] assms(1)
  by (auto simp: runner_inv_def row_mirrors_def set_current_step_def)

lemma execute_success_inv [inv_intro]:
  assumes inv: "runner_inv r" and new: "step_name step \<notin> r_completed_set r"
    and run: "execute_success enc ul step input out r = (r', res)"
  shows "runner_inv r'"
proof (cases "enc out")
  case (Inl msg)
  with inv run show ?thesis by (simp add: execute_success_def)
next
  case (Inr out_json)
  obtain r1 e1 where r1: "emit ul EventStepCompleted (step_name step)
      (step_completed_payload (r_saga_id r) (r_name r) (step_name step) out_json) r = (r1, e1)"
    by fastforce
  have inv1: "runner_inv r1" and set1: "r_completed_set r1 = r_completed_set r"
    using inv r1 by (simp_all add: emit_inv emit_status)
  show ?thesis
  proof (cases e1)
    case (Inl err)
    with inv1 run Inr r1 show ?thesis by (simp add: execute_success_def)
  next
    case (Inr u)
    obtain t res1 where t: "pg_exec (update_saga_sql (r_saga_id r1)
        (append_completed (step_name step) out_json)) (r_tx r1) = (t, res1)"
      by fastforce
    from update_saga_inv [OF inv1 t] inv1 run \<open>enc out = Inr out_json\<close> r1 Inr t new set1
    show ?thesis
      by (auto simp: execute_success_def runner_inv_def row_mirrors_def append_completed_def)
  qed
qed

lemma execute_failure_inv [inv_intro]:
  assumes "runner_inv r" and "execute_failure ul name err r w = (r', w', res)"
  shows "runner_inv r'"
  using assms
  by (auto simp: execute_failure_def split: prod.splits sum.splits option.splits
      dest: emit_inv run_compensations_frame set_status_inv)

lemma execute_step_inv [inv_intro]:
  assumes inv: "runner_inv r" and run: "execute_step enc dec ul step input r w = (r', w', res)"
  shows "runner_inv r'"
proof (cases "saga_status_is_terminal (r_status r) \<or> step_name step \<in> r_completed_set r")
  case True
  then have "r' = r"
    using run by (auto simp: execute_step_def split: if_splits option.splits sum.splits)
  with inv show ?thesis by simp
next
  case False
  obtain t e where t: "pg_exec (update_saga_sql (r_saga_id r) (set_current_step (step_name step))) (r_tx r) = (t, e)"
    by fastforce
  have "runner_inv (r\<lparr>r_tx := t\<rparr>)"
    by (rule set_current_inv [OF inv t])
  with False run t show ?thesis
    by (auto simp: execute_step_def split: prod.splits sum.splits
        intro: execute_success_inv execute_failure_inv)
qed

lemma saga_finish_inv [inv_intro]: "runner_inv r \<Longrightarrow> saga_finish ul r = (r', e) \<Longrightarrow> runner_inv r'"
  by (auto simp: saga_finish_def split: if_splits prod.splits sum.splits dest: emit_inv set_status_inv)

lemma saga_abort_inv [inv_intro]: "runner_inv r \<Longrightarrow> saga_abort ul r w = (r', w', e) \<Longrightarrow> runner_inv r'"
  by (auto simp: saga_abort_def split: if_splits prod.splits sum.splits option.splits
      dest: emit_inv set_status_inv run_compensations_frame)

lemma run_call_inv: "runner_inv (fst rw) \<Longrightarrow> run_call enc dec ul c rw = (rw', res) \<Longrightarrow> runner_inv (fst rw')"
  by (cases rw; cases c)
     (auto split: prod.splits intro: execute_step_inv saga_finish_inv saga_abort_inv)

lemma run_calls_inv:
  "runner_inv (fst rw) \<Longrightarrow> run_calls enc dec ul cs rw = (rw', ress) \<Longrightarrow> runner_inv (fst rw')"
  by (induction cs arbitrary: rw ress) (auto split: prod.splits dest: run_call_inv)

text \<open>What \<^verbatim>\<open>Start\<close> needs of the rows another process may have left.\<close>

definition rows_ok :: "saga_tx \<Rightarrow> bool" where
  "rows_ok tx \<longleftrightarrow>
     (\<forall>sid row. saga_state tx sid = Some row \<longrightarrow>
        distinct (sr_completed_steps row) \<and> (\<forall>s \<in> set (sr_completed_steps row). sr_step_outputs row s \<noteq> None))"

lemma saga_start_inv [inv_intro]:
  assumes "rows_ok tx" and "saga_start tx sid name = (tx', Inr r)"
  shows "runner_inv r"
  using assms
  by (auto simp: saga_start_def runner_inv_def row_mirrors_def rows_ok_def pg_exec_def Let_def
      insert_saga_sql_def select_saga_sql_def saga_status_is_terminal_def parse_saga_status_def
      split: option.splits if_splits prod.splits sum.splits)


section \<open>Fault-free runs\<close>

text \<open>A runner whose transaction does not fail from here on and whose outbox table is empty.\<close>

definition quiet :: "'w saga_runner \<Rightarrow> bool" where
  "quiet r \<longleftrightarrow> no_faults (r_tx r) \<and> outbox_events (r_tx r) = Map.empty"

definition event_of :: "uuid_lib \<Rightarrow> uuid \<Rightarrow> saga_event_kind \<Rightarrow> string \<Rightarrow> saga_event" where
  "event_of ul sid kind step =
     \<lparr>se_kind = kind, se_step = step, se_event_id = new_sha1 ul (event_id_input ul sid step kind)\<rparr>"

text \<open>The row of the log that a recorded event stands for: its id and its topic.\<close>

definition on_wire :: "outbox_event \<Rightarrow> uuid \<times> string" where
  "on_wire e = (oe_event_id e, oe_topic e)"

definition se_on_wire :: "saga_event \<Rightarrow> uuid \<times> string" where
  "se_on_wire e = (se_event_id e, saga_topic (se_kind e))"

text \<open>\<open>logged r0 r\<close>: between \<open>r0\<close> and \<open>r\<close> the log grew by exactly the recorded events.\<close>

definition logged :: "'w saga_runner \<Rightarrow> 'w saga_runner \<Rightarrow> bool" where
  "logged r0 r \<longleftrightarrow>
     (\<exists>evs ws. r_events r = r_events r0 @ evs \<and> relayed (wal (r_tx r)) = relayed (wal (r_tx r0)) @ ws \<and>
               map on_wire ws = map se_on_wire evs)"

lemma logged_refl [simp]: "logged r r"
  by (simp add: logged_def)

lemma logged_trans: "logged r0 r1 \<Longrightarrow> logged r1 r2 \<Longrightarrow> logged r0 r2"
  unfolding logged_def by (metis append.assoc map_append)

lemma emit_quiet:
  assumes "quiet r"
  obtains t where
    "emit ul k s p r =
       (r\<lparr>r_tx := t, r_events := r_events r @ [event_of ul (r_saga_id r) k s]\<rparr>,
        Inr (new_sha1 ul (event_id_input ul (r_saga_id r) s k)))"
    "quiet (r\<lparr>r_tx := t, r_events := r_events r @ [event_of ul (r_saga_id r) k s]\<rparr>)"
    "logged r (r\<lparr>r_tx := t, r_events := r_events r @ [event_of ul (r_saga_id r) k s]\<rparr>)"
    "saga_state t = saga_state (r_tx r)"
proof -
  define ev where "ev = new_outbox_event (new_sha1 ul (event_id_input ul (r_saga_id r) s k))
      ''saga'' (uuid_string ul (r_saga_id r)) (saga_topic k) p"
  from assms have "no_faults (r_tx r)" "outbox_events (r_tx r) (oe_event_id ev) = None"
    by (simp_all add: quiet_def)
  then obtain t where t: "enqueue ev (r_tx r) = (t, None)"
    using enqueue_ok_fresh by blast
  show ?thesis
  proof (rule that [of t])
    show "emit ul k s p r =
       (r\<lparr>r_tx := t, r_events := r_events r @ [event_of ul (r_saga_id r) k s]\<rparr>,
        Inr (new_sha1 ul (event_id_input ul (r_saga_id r) s k)))"
      using t by (simp add: emit_def event_of_def ev_def Let_def)
    have fresh: "outbox_events t = outbox_events (r_tx r) \<and>
        wal t = wal (r_tx r) @ [WalInsert ev, WalDelete (oe_event_id ev)]"
      using enqueue_fresh [OF t] assms by (simp add: quiet_def)
    then show "quiet (r\<lparr>r_tx := t, r_events := r_events r @ [event_of ul (r_saga_id r) k s]\<rparr>)"
      using assms enqueue_no_faults [OF t] by (simp add: quiet_def)
    show "logged r (r\<lparr>r_tx := t, r_events := r_events r @ [event_of ul (r_saga_id r) k s]\<rparr>)"
      using fresh by (simp add: logged_def on_wire_def se_on_wire_def event_of_def ev_def new_outbox_event_def)
    show "saga_state t = saga_state (r_tx r)"
      using t by (rule enqueue_saga_state)
  qed
qed

lemma update_quiet:
  assumes "quiet r"
  shows "pg_exec (update_saga_sql sid f) (r_tx r) =
     ((r_tx r)\<lparr>saga_state := (saga_state (r_tx r))(sid := map_option f (saga_state (r_tx r) sid)),
               pg_clock := Suc (pg_clock (r_tx r))\<rparr>, Inr ())"
  using assms by (simp add: quiet_def pg_exec_ok update_saga_sql_def)

lemma quiet_update [simp]:
  "quiet (r\<lparr>r_tx := (r_tx r)\<lparr>saga_state := S, pg_clock := Suc (pg_clock (r_tx r))\<rparr>\<rparr>) = quiet r" if "quiet r"
  using that by (auto simp: quiet_def no_faults_def)

text \<open>What the chain does to the world, and the names of the steps it undoes, in order.\<close>

fun undo :: "'w compensation list \<Rightarrow> 'w \<Rightarrow> 'w \<times> string list" where
  "undo [] w = (w, [])"
| "undo ((name, invoke) # cs) w =
     (case invoke w of
        (w', Some _) \<Rightarrow> undo cs w'
      | (w', None) \<Rightarrow> (case undo cs w' of (w'', names) \<Rightarrow> (w'', name # names)))"

lemma compensation_loop_quiet:
  assumes "quiet r"
  shows "\<exists>r'. compensation_loop ul cs b r w = (r', fst (undo cs w), b \<or> snd (undo cs w) \<noteq> [], None) \<and>
     quiet r' \<and> logged r r' \<and> r_compensations r' = r_compensations r \<and>
     saga_state (r_tx r') = saga_state (r_tx r) \<and> r_saga_id r' = r_saga_id r \<and>
     r_events r' = r_events r @ map (event_of ul (r_saga_id r) EventStepCompensated) (snd (undo cs w))"
  using assms
proof (induction cs w arbitrary: b r rule: undo.induct)
  case (1 w)
  then show ?case by simp
next
  case (2 name invoke cs w)
  obtain w' e where inv: "invoke w = (w', e)"
    by fastforce
  show ?case
  proof (cases e)
    case (Some err)
    with 2 inv show ?thesis by simp
  next
    case None
    obtain t where t:
      "emit ul EventStepCompensated name (step_compensated_payload (r_saga_id r) (r_name r) name) r =
       (r\<lparr>r_tx := t, r_events := r_events r @ [event_of ul (r_saga_id r) EventStepCompensated name]\<rparr>,
        Inr (new_sha1 ul (event_id_input ul (r_saga_id r) name EventStepCompensated)))"
      "quiet (r\<lparr>r_tx := t, r_events := r_events r @ [event_of ul (r_saga_id r) EventStepCompensated name]\<rparr>)"
      "logged r (r\<lparr>r_tx := t, r_events := r_events r @ [event_of ul (r_saga_id r) EventStepCompensated name]\<rparr>)"
      "saga_state t = saga_state (r_tx r)"
      by (rule emit_quiet [OF "2.prems"])
    let ?r1 = "r\<lparr>r_tx := t, r_events := r_events r @ [event_of ul (r_saga_id r) EventStepCompensated name]\<rparr>"
    obtain r' where r': "compensation_loop ul cs True ?r1 w' =
        (r', fst (undo cs w'), True \<or> snd (undo cs w') \<noteq> [], None)"
      "quiet r'" "logged ?r1 r'" "r_compensations r' = r_compensations ?r1"
      "saga_state (r_tx r') = saga_state (r_tx ?r1)" "r_saga_id r' = r_saga_id ?r1"
      "r_events r' = r_events ?r1 @
         map (event_of ul (r_saga_id ?r1) EventStepCompensated) (snd (undo cs w'))"
      using "2.IH"(1) [OF inv [symmetric] None t(2), where b = True] by blast
    with t None inv show ?thesis
      by (auto simp: case_prod_beta intro: logged_trans)
  qed
qed

lemma run_compensations_quiet:
  assumes "quiet r"
  obtains r' where
    "run_compensations ul r w =
       (r', fst (undo (rev (r_compensations r)) w), snd (undo (rev (r_compensations r)) w) \<noteq> [], None)"
    "quiet r'" "logged r r'" "r_compensations r' = []" "r_saga_id r' = r_saga_id r"
    "saga_state (r_tx r') = saga_state (r_tx r)"
    "r_events r' = r_events r @
       map (event_of ul (r_saga_id r) EventStepCompensated) (snd (undo (rev (r_compensations r)) w))"
proof -
  let ?r = "r\<lparr>r_compensations := []\<rparr>"
  have q: "quiet ?r" and l: "\<And>r'. logged ?r r' = logged r r'"
    using assms by (simp_all add: quiet_def logged_def)
  from compensation_loop_quiet [OF q, of ul "rev (r_compensations r)" False w] that l
  show ?thesis by (auto simp: run_compensations_def)
qed

lemma set_status_quiet:
  assumes "quiet r"
  shows "set_status st step r =
     (r\<lparr>r_tx := (r_tx r)\<lparr>saga_state := (saga_state (r_tx r))(r_saga_id r :=
            map_option (set_row_status st step) (saga_state (r_tx r) (r_saga_id r))),
          pg_clock := Suc (pg_clock (r_tx r))\<rparr>, r_status := st\<rparr>, None)"
  using assms by (simp add: set_status_def update_quiet)


lemma saga_rollback_core:
  assumes "quiet r" and "r_status r = Running" and "step_name step \<notin> r_completed_set r"
    and "execute step input w = (w1, Inl err)"
    and "undo (rev (r_compensations r)) w1 = (w2, undone)"
  shows "\<exists>r'. execute_step enc dec ul step input r w = (r', w2, Inl err) \<and>
     r_events r' = r_events r @ event_of ul (r_saga_id r) EventStepFailed (step_name step) #
       map (event_of ul (r_saga_id r) EventStepCompensated) undone \<and>
     r_status r' = (if undone = [] then Failed else Compensated) \<and>
     r_compensations r' = [] \<and> logged r r'"
proof -
  let ?t0 = "(r_tx r)\<lparr>saga_state := (saga_state (r_tx r))(r_saga_id r :=
      map_option (set_current_step (step_name step)) (saga_state (r_tx r) (r_saga_id r))),
      pg_clock := Suc (pg_clock (r_tx r))\<rparr>"
  let ?r0 = "r\<lparr>r_tx := ?t0\<rparr>"
  have q0: "quiet ?r0" and l0: "logged r ?r0"
    using assms(1) by (auto simp: logged_def)
  obtain t where t: "emit ul EventStepFailed (step_name step)
      (step_failed_payload (r_saga_id ?r0) (r_name ?r0) (step_name step) (saga_error_text err)) ?r0 =
      (?r0\<lparr>r_tx := t, r_events := r_events ?r0 @ [event_of ul (r_saga_id ?r0) EventStepFailed (step_name step)]\<rparr>,
       Inr (new_sha1 ul (event_id_input ul (r_saga_id ?r0) (step_name step) EventStepFailed)))"
    "quiet (?r0\<lparr>r_tx := t, r_events := r_events ?r0 @ [event_of ul (r_saga_id ?r0) EventStepFailed (step_name step)]\<rparr>)"
    "logged ?r0 (?r0\<lparr>r_tx := t, r_events := r_events ?r0 @ [event_of ul (r_saga_id ?r0) EventStepFailed (step_name step)]\<rparr>)"
    by (rule emit_quiet [OF q0])
  let ?r1 = "?r0\<lparr>r_tx := t, r_events := r_events ?r0 @ [event_of ul (r_saga_id ?r0) EventStepFailed (step_name step)]\<rparr>"
  obtain r2 where r2: "run_compensations ul ?r1 w1 = (r2, w2, undone \<noteq> [], None)"
    "quiet r2" "logged ?r1 r2" "r_compensations r2 = []"
    "r_events r2 = r_events ?r1 @ map (event_of ul (r_saga_id r) EventStepCompensated) undone"
    using run_compensations_quiet [OF t(2), of ul w1] assms(5) by auto
  have l: "logged r r2"
    using l0 t(3) r2(3) by (blast intro: logged_trans)
  show ?thesis
    using assms(2-4) update_quiet [OF assms(1)] t(1) r2 l
    by (auto simp: execute_step_def saga_status_is_terminal_def execute_failure_def
        set_status_quiet [OF r2(2)] logged_def)
qed

text \<open>Every call on a quiet runner leaves it quiet and logs exactly the events it records.\<close>

definition steady :: "'w saga_runner \<Rightarrow> 'w saga_runner \<Rightarrow> bool" where
  "steady r r' \<longleftrightarrow> (quiet r \<longrightarrow> quiet r' \<and> logged r r')"

lemma steady_refl [simp]: "steady r r"
  by (simp add: steady_def)

lemma steady_trans: "steady r0 r1 \<Longrightarrow> steady r1 r2 \<Longrightarrow> steady r0 r2"
  unfolding steady_def by (blast intro: logged_trans)

lemma emit_steady:
  assumes "emit ul k s p r = (r', res)"
  shows "steady r r'"
  unfolding steady_def
proof
  assume "quiet r"
  then show "quiet r' \<and> logged r r'"
    by (rule emit_quiet [of r ul k s p]) (use assms in auto)
qed

lemma run_compensations_steady:
  assumes "run_compensations ul r w = (r', w', b, e)"
  shows "steady r r'"
  unfolding steady_def
proof
  assume "quiet r"
  then show "quiet r' \<and> logged r r'"
    by (rule run_compensations_quiet [of r ul w]) (use assms in auto)
qed

lemma update_steady:
  "pg_exec (update_saga_sql sid f) (r_tx r) = (t, res) \<Longrightarrow> steady r (r\<lparr>r_tx := t\<rparr>)"
  by (auto simp: steady_def update_quiet logged_def quiet_def no_faults_def)

text \<open>Of the runner, only the transaction and the recorded events matter to \<open>steady\<close>.\<close>

lemma steady_cong:
  "r_tx r' = r_tx r \<Longrightarrow> r_events r' = r_events r \<Longrightarrow> steady r r'"
  by (simp add: steady_def quiet_def logged_def)

lemma set_status_steady: "set_status st step r = (r', e) \<Longrightarrow> steady r r'"
  by (auto simp: set_status_def split: prod.splits sum.splits
      intro: update_steady steady_trans [OF update_steady steady_cong])

lemma execute_success_steady:
  assumes "execute_success enc ul step input out r = (r', res)"
  shows "steady r r'"
  using assms
  by (auto simp: execute_success_def split: sum.splits prod.splits
      intro: emit_steady update_steady
        steady_trans [OF emit_steady update_steady]
        steady_trans [OF emit_steady steady_trans [OF update_steady steady_cong]])

lemma execute_failure_steady:
  assumes "execute_failure ul name err r w = (r', w', res)"
  shows "steady r r'"
  using assms
  by (auto simp: execute_failure_def split: prod.splits sum.splits option.splits
      intro: emit_steady steady_trans [OF emit_steady run_compensations_steady]
        steady_trans [OF emit_steady steady_trans [OF run_compensations_steady set_status_steady]])

lemma execute_step_steady:
  assumes run: "execute_step enc dec ul step input r w = (r', w', res)"
  shows "steady r r'"
proof -
  obtain t e where t: "pg_exec (update_saga_sql (r_saga_id r) (set_current_step (step_name step))) (r_tx r) = (t, e)"
    by fastforce
  note steady_trans [OF update_steady [OF t] execute_success_steady]
    steady_trans [OF update_steady [OF t] execute_failure_steady] update_steady [OF t]
  with run t show ?thesis
    by (auto simp: execute_step_def split: if_splits option.splits sum.splits prod.splits)
qed

lemma saga_finish_steady: "saga_finish ul r = (r', e) \<Longrightarrow> steady r r'"
  by (auto simp: saga_finish_def split: if_splits prod.splits sum.splits
      intro: emit_steady steady_trans [OF emit_steady set_status_steady])

lemma saga_abort_steady: "saga_abort ul r w = (r', w', e) \<Longrightarrow> steady r r'"
  by (auto simp: saga_abort_def split: if_splits prod.splits sum.splits option.splits
      intro: run_compensations_steady steady_trans [OF run_compensations_steady emit_steady]
        steady_trans [OF run_compensations_steady steady_trans [OF emit_steady set_status_steady]])

lemma run_call_steady: "run_call enc dec ul c rw = (rw', res) \<Longrightarrow> steady (fst rw) (fst rw')"
  by (cases rw; cases c)
     (auto split: prod.splits intro: execute_step_steady saga_finish_steady saga_abort_steady)

lemma run_calls_steady: "run_calls enc dec ul calls rw = (rw', ress) \<Longrightarrow> steady (fst rw) (fst rw')"
proof (induction calls arbitrary: rw ress)
  case Nil
  then show ?case by simp
next
  case (Cons c cs)
  obtain rw1 res1 where c: "run_call enc dec ul c rw = (rw1, res1)"
    by fastforce
  with Cons.prems obtain ress1 where "run_calls enc dec ul cs rw1 = (rw', ress1)"
    by (auto split: prod.splits)
  from steady_trans [OF run_call_steady [OF c] Cons.IH [OF this]] show ?case .
qed

text \<open>The discriminator is the part of an event id's hash input behind the last colon.\<close>

lemma discriminator_inj: "discriminator k = discriminator k' \<Longrightarrow> k = k'"
  by (cases k; cases k') simp_all

lemma discriminator_no_colon: "CHR '':'' \<notin> set (discriminator k)"
  by (cases k) simp_all

lemma append_sep_eq:
  assumes "xs @ c # ys = xs' @ c # ys'" and "c \<notin> set ys" and "c \<notin> set ys'"
  shows "xs = xs' \<and> ys = ys'"
  using assms
proof (induction xs arbitrary: xs')
  case Nil
  then show ?case by (cases xs') auto
next
  case (Cons x xs)
  then show ?case by (cases xs') auto
qed

text \<open>A step that succeeds, its effect on a quiet runner; a restart; a step that fails.\<close>

lemma execute_step_success_quiet:
  assumes "quiet r" and "r_status r = Running" and "step_name step \<notin> r_completed_set r"
    and "execute_step enc dec ul step input r w = (r1, w1, Inr out)"
  shows "quiet r1" "r_status r1 = Running" "r_saga_id r1 = r_saga_id r"
    "r_compensations r1 = r_compensations r @ [(step_name step, compensate step input)]"
    "r_completed_steps r1 = r_completed_steps r @ [step_name step]"
proof -
  show "quiet r1"
    using execute_step_steady [OF assms(4)] assms(1) by (simp add: steady_def)
  show "r_status r1 = Running" "r_saga_id r1 = r_saga_id r"
    "r_compensations r1 = r_compensations r @ [(step_name step, compensate step input)]"
    "r_completed_steps r1 = r_completed_steps r @ [step_name step]"
    using assms(2-4)
    by (auto simp: execute_step_def execute_success_def execute_failure_def
        split: if_splits prod.splits sum.splits option.splits dest: emit_status)
qed

lemma saga_restart:
  assumes "runner_inv r" and "quiet r" and "r_saga_id r = sid" and "saga_start (r_tx r) sid name = (tx', Inr r')"
  shows "quiet r'" "r_status r' = Running" "r_compensations r' = []" "r_completed_set r' = r_completed_set r"
    "r_events r' = []" "r_completed_steps r' = r_completed_steps r \<and> r_saga_id r' = sid" "runner_inv r'"
  using assms
  by (auto simp: saga_start_def runner_inv_def row_mirrors_def pg_exec_def Let_def quiet_def no_faults_def
      insert_saga_sql_def select_saga_sql_def saga_status_is_terminal_def parse_saga_status_def
      split: option.splits if_splits prod.splits sum.splits)

lemma execute_step_failure_frame:
  assumes "step_name step \<notin> r_completed_set r" and "execute step input w = (w1, Inl err)"
    and "execute_step enc dec ul step input r w = (r', w', res)"
  shows "r_completed_steps r' = r_completed_steps r" "r_saga_id r' = r_saga_id r"
  using assms
  by (auto simp: execute_step_def execute_failure_def run_compensations_def set_status_def
      split: if_splits prod.splits sum.splits option.splits dest!: emit_status compensation_loop_frame)

section \<open>Properties\<close>

text \<open>
  C2. Refinement of the row: from a successful \<^verbatim>\<open>Start\<close>, whatever calls follow and whatever
  statements fail, the in-memory runner is the image of its row (status, completed steps in order,
  cached outputs), the completed steps are distinct and each one has a cached output.
\<close>

theorem saga_runner_mirrors_row:
  assumes "rows_ok tx" and "saga_start tx sid name = (tx', Inr r0)"
    and "run_calls enc dec ul calls (r0, w0) = ((r, w), ress)"
  shows "runner_inv r"
  using run_calls_inv [OF _ assms(3)] saga_start_inv [OF assms(1,2)] by simp

text \<open>
  Terminal states are absorbing: once the runner is terminal, every call is refused with
  \<^verbatim>\<open>ErrTerminal\<close>, and neither the transaction nor the world nor the runner changes.
\<close>

theorem saga_terminal_absorbing:
  assumes "saga_status_is_terminal (r_status r)"
  shows "run_calls enc dec ul calls (r, w) =
     ((r, w), map (\<lambda>_. Error (ErrTerminal (saga_status_string (r_status r)))) calls)"
proof (induction calls)
  case Nil
  then show ?case by simp
next
  case (Cons c cs)
  have "run_call enc dec ul c (r, w) = ((r, w), Error (ErrTerminal (saga_status_string (r_status r))))"
    using assms by (cases c) (simp_all add: execute_step_def saga_finish_def saga_abort_def of_sum_def of_opt_def)
  with Cons.IH show ?case by simp
qed

text \<open>
  C3. Rollback of a failing step: if the step's \<^verbatim>\<open>Execute\<close> fails, the registered compensations run
  once each in LIFO order on the world it left (a failing one is skipped), the events recorded are
  the failure and one compensation per success in that order, the chain is empty afterwards, the
  status is \<open>Compensated\<close> if some compensation succeeded and \<open>Failed\<close> otherwise, and the caller gets
  the step's own error.
\<close>

theorem saga_failure_rolls_back:
  assumes "quiet r" and "r_status r = Running" and "step_name step \<notin> r_completed_set r"
    and "execute step input w = (w1, Inl err)"
    and "undo (rev (r_compensations r)) w1 = (w2, undone)"
  shows "\<exists>r'. execute_step enc dec ul step input r w = (r', w2, Inl err) \<and>
     r_events r' = r_events r @ event_of ul (r_saga_id r) EventStepFailed (step_name step) #
       map (event_of ul (r_saga_id r) EventStepCompensated) undone \<and>
     r_status r' = (if undone = [] then Failed else Compensated) \<and>
     r_compensations r' = [] \<and> logged r r'"
  using saga_rollback_core [OF assms] .

text \<open>
  Replay across a restart: if a step succeeded and its output survives the JSON round trip, a
  runner started again on the transaction the first one left returns the same output for that step
  name, for every step body and input, without running it: the world, the row and the events are
  untouched.
\<close>

theorem saga_completed_step_replays:
  assumes "execute_step enc dec ul step input r w = (r1, w1, Inr out)"
    and "step_name step \<notin> r_completed_set r" and "runner_inv r"
    and "\<And>j. enc out = Inr j \<Longrightarrow> dec j = Inr out"
    and "saga_start (r_tx r1) (r_saga_id r) name = (tx2, Inr r2)"
    and "step_name step' = step_name step"
  shows "execute_step enc dec ul step' input' r2 w2 = (r2, w2, Inr out)"
proof -
  have inv1: "runner_inv r1"
    using assms(3,1) by (rule execute_step_inv)
  obtain j where j: "enc out = Inr j" "r_step_outputs r1 (step_name step) = Some j"
    "step_name step \<in> set (r_completed_steps r1)" "r_saga_id r1 = r_saga_id r"
    using assms(1,2)
    by (auto simp: execute_step_def execute_success_def execute_failure_def
        split: if_splits prod.splits sum.splits option.splits dest: emit_status)
  then obtain row where row: "saga_state (r_tx r1) (r_saga_id r) = Some row"
    "sr_completed_steps row = r_completed_steps r1" "sr_step_outputs row = r_step_outputs r1"
    using inv1 by (auto simp: runner_inv_def row_mirrors_def)
  have "r_completed_set r2 = set (r_completed_steps r1)" "r_step_outputs r2 = r_step_outputs r1"
    "r_status r2 = Running"
    using assms(5) row
    by (auto simp: saga_start_def pg_exec_def Let_def insert_saga_sql_def select_saga_sql_def
        split: option.splits if_splits prod.splits sum.splits)
  with j assms(4,6) show ?thesis
    by (simp add: execute_step_def saga_status_is_terminal_def)
qed

text \<open>
  C4. A restart makes the steps of the earlier run impossible to undo. A runner completes a step, the
  process restarts and the saga is started again on the same row, and the next new step fails (all
  statements succeeding). The row still records the first step as completed, and the new runner treats
  it so. Had the first runner gone on, it would have called the step's compensation, and then those of
  the steps before it; the restarted one calls none of them: the world is as the failing step left it,
  the only event is the failure, and the row ends as \<^verbatim>\<open>failed\<close> with the completed steps still on it.
\<close>

theorem resumed_saga_skips_compensation:
  assumes "quiet r" and "r_status r = Running" and "runner_inv r"
    and "step_name step \<notin> r_completed_set r"
    and "execute_step enc dec ul step input r w = (r1, w1, Inr out)"
    and "saga_start (r_tx r1) (r_saga_id r) name = (tx2, Inr r2)"
    and "step_name step' \<notin> r_completed_set r2"
    and "execute step' input' w1 = (w2, Inl err)"
    and "undo ((step_name step, compensate step input) # rev (r_compensations r)) w2 = (w3, undone)"
  shows "step_name step \<in> r_completed_set r2 \<and>
     (\<exists>r'. execute_step enc dec ul step' input' r1 w1 = (r', w3, Inl err) \<and>
        r_status r' = (if undone = [] then Failed else Compensated)) \<and>
     (\<exists>r' row. execute_step enc dec ul step' input' r2 w1 = (r', w2, Inl err) \<and> r_status r' = Failed \<and>
        map se_kind (r_events r') = [EventStepFailed] \<and>
        saga_state (r_tx r') (r_saga_id r) = Some row \<and> parse_saga_status (sr_status row) = Failed \<and>
        sr_completed_steps row = r_completed_steps r @ [step_name step])"
proof -
  note one = execute_step_success_quiet [OF assms(1,2,4,5)]
  have inv1: "runner_inv r1"
    using assms(3,5) by (rule execute_step_inv)
  note two = saga_restart [OF inv1 one(1) one(3) assms(6)]
  have new1: "step_name step' \<notin> r_completed_set r1"
    using two(4) assms(7) by simp
  have undo1: "undo (rev (r_compensations r1)) w2 = (w3, undone)" and undo2: "undo (rev (r_compensations r2)) w2 = (w2, [])"
    using one(4) two(3) assms(9) by simp_all
  have going_on: "\<exists>r'. execute_step enc dec ul step' input' r1 w1 = (r', w3, Inl err) \<and>
      r_status r' = (if undone = [] then Failed else Compensated)"
    using saga_rollback_core [OF one(1,2) new1 assms(8) undo1, of enc dec ul] by blast
  obtain r' where r': "execute_step enc dec ul step' input' r2 w1 = (r', w2, Inl err)"
    "r_status r' = Failed" "map se_kind (r_events r') = [EventStepFailed]"
    using saga_rollback_core [OF two(1,2) assms(7,8) undo2, of enc dec ul] two(5)
    by (force simp: event_of_def)
  have "runner_inv r'"
    using two(7) r'(1) by (rule execute_step_inv)
  with execute_step_failure_frame [OF assms(7,8) r'(1)] r'(2) two(4,6) one
  have "\<exists>row. saga_state (r_tx r') (r_saga_id r) = Some row \<and> parse_saga_status (sr_status row) = Failed \<and>
      sr_completed_steps row = r_completed_steps r @ [step_name step]"
    by (auto simp: runner_inv_def row_mirrors_def)
  moreover have "step_name step \<in> r_completed_set r2"
    using two(4) one(5) inv1 by (simp add: runner_inv_def)
  ultimately show ?thesis
    using going_on r' by (intro conjI) auto
qed


text \<open>
  Every event the runner recorded is on the log, in order and once: over any sequence of calls on
  a runner whose statements succeed and whose outbox table is empty, the log grows by exactly the
  recorded events (same event id, the topic of their kind), and the table is empty again.
\<close>

theorem saga_events_are_relayed:
  assumes "quiet r0" and "run_calls enc dec ul calls (r0, w0) = ((r, w), ress)"
  shows "\<exists>evs ws. r_events r = r_events r0 @ evs \<and>
     relayed (wal (r_tx r)) = relayed (wal (r_tx r0)) @ ws \<and>
     map on_wire ws = map se_on_wire evs \<and> outbox_events (r_tx r) = Map.empty"
  using run_calls_steady [OF assms(2)] assms(1) by (auto simp: steady_def logged_def quiet_def)

text \<open>
  Event ids do not mix up state changes: within one saga, the strings hashed for two events are
  equal only if the step and the kind of event are the same, whatever characters (colons included)
  the step names contain.
\<close>

theorem event_id_input_injective:
  "event_id_input ul sid step kind = event_id_input ul sid step' kind' \<longleftrightarrow>
   step = step' \<and> kind = kind'"
  using append_sep_eq [OF _ discriminator_no_colon discriminator_no_colon, of step kind step' kind']
  by (auto simp: event_id_input_def dest: discriminator_inj)

text \<open>
  The public helper lacks both guarantees its comment gives. The key of \<^verbatim>\<open>EnqueueOutboxEvent\<close>
  joins its parts with colons that the parts may contain, so two different events (aggregate id
  \<open>b:c\<close> with topic \<open>d\<close>, aggregate id \<open>b\<close> with topic \<open>c:d\<close>) get the same event id for every hash;
  and a call repeated with the same arguments, on an outbox whose statements succeed, is no no-op:
  the event is relayed a second time.
\<close>

theorem enqueue_outbox_event_not_idempotent:
  fixes t :: "'a outbox_tx_scheme"
  assumes "no_faults t" and "outbox_events t = Map.empty"
  shows "outbox_event_key render a ''b:c'' ''d'' p = outbox_event_key render a ''b'' ''c:d'' p \<and>
    (\<exists>k t1 t2 e. enqueue_outbox_event render ul a i tp p t = (t1, Inr k) \<and>
       enqueue_outbox_event render ul a i tp p t1 = (t2, Inr k) \<and>
       oe_event_id e = k \<and> relayed (wal t2) = relayed (wal t) @ [e, e])"
proof -
  define k where "k = new_sha1 ul (outbox_event_key render a i tp p)"
  define e where "e = new_outbox_event k a i tp p"
  obtain t1 where t1: "enqueue e t = (t1, None)"
    using assms enqueue_ok_fresh [of t e] by auto
  have f1: "outbox_events t1 = Map.empty" "relayed (wal t1) = relayed (wal t) @ [e]" "no_faults t1"
    using enqueue_fresh [OF t1] assms enqueue_no_faults [OF t1] by auto
  obtain t2 where t2: "enqueue e t1 = (t2, None)"
    using f1 enqueue_ok_fresh [of t1 e] by auto
  have "relayed (wal t2) = relayed (wal t) @ [e, e]"
    using enqueue_fresh [OF t2] f1 by simp
  moreover have "enqueue_outbox_event render ul a i tp p t = (t1, Inr k)"
    "enqueue_outbox_event render ul a i tp p t1 = (t2, Inr k)"
    using t1 t2 by (simp_all add: enqueue_outbox_event_def Let_def k_def e_def)
  moreover have "oe_event_id e = k"
    by (simp add: e_def new_outbox_event_def)
  moreover have "outbox_event_key render a ''b:c'' ''d'' p = outbox_event_key render a ''b'' ''c:d'' p"
    by (simp add: outbox_event_key_def)
  ultimately show ?thesis by blast
qed

end
