(* ===== verification/Saga_Witnesses.thy ===== *)
theory Saga_Witnesses
  imports Saga_Proofs
begin

text \<open>
  The saga theorems at concrete inputs: a two-step saga over a world that records what the steps do.
\<close>

definition sample_uuid_lib :: uuid_lib where
  "sample_uuid_lib = \<lparr>new_sha1 = (\<lambda>s. of_nat (length s)), uuid_string = (\<lambda>_. ''00'')\<rparr>"

definition sample_saga_tx :: saga_tx where
  "sample_saga_tx = \<lparr>pg_clock = 0, pg_fault = (\<lambda>_. None), outbox_events = Map.empty, wal = [],
     saga_state = Map.empty\<rparr>"

text \<open>A world of notes; the good step notes that it ran and that it was undone, the bad one fails.\<close>

definition good_step :: "(string list, nat, nat) saga_step" where
  "good_step = \<lparr>step_name = ''reserve'', execute = (\<lambda>i w. (w @ [''reserve''], Inr i)),
     compensate = (\<lambda>i w. (w @ [''release''], None))\<rparr>"

definition bad_step :: "(string list, nat, nat) saga_step" where
  "bad_step = \<lparr>step_name = ''charge'',
     execute = (\<lambda>i w. (w @ [''declined''], Inl (ErrStepFailure ''charge'' ''declined''))),
     compensate = (\<lambda>i w. (w, None))\<rparr>"

definition enc_nat :: "nat \<Rightarrow> string + json" where
  "enc_nat n = Inr (JNum (int n))"

definition dec_nat :: "json \<Rightarrow> string + nat" where
  "dec_nat j = (case j of JNum n \<Rightarrow> Inr (nat n) | _ \<Rightarrow> Inl ''not a number'')"

definition sample_runner :: "string list saga_runner" where
  "sample_runner = \<lparr>r_tx = sample_saga_tx\<lparr>pg_clock := 2, saga_state := [9 \<mapsto>
       \<lparr>sr_name = ''order'', sr_status = ''running'', sr_current_step = None, sr_completed_steps = [],
        sr_step_outputs = Map.empty, sr_failed_step = None\<rparr>]\<rparr>,
     r_saga_id = 9, r_name = ''order'', r_status = Running, r_completed_steps = [],
     r_completed_set = {}, r_step_outputs = Map.empty, r_compensations = [], r_events = []\<rparr>"

lemma sample_start: "saga_start sample_saga_tx 9 ''order'' = (r_tx sample_runner, Inr sample_runner)"
  by (simp add: saga_start_def sample_saga_tx_def sample_runner_def pg_exec_def insert_saga_sql_def
      select_saga_sql_def saga_status_is_terminal_def parse_saga_status_def)

lemma sample_rows_ok: "rows_ok sample_saga_tx"
  by (simp add: rows_ok_def sample_saga_tx_def)

lemma sample_quiet: "quiet sample_runner" "quiet (sample_runner\<lparr>r_compensations := cs\<rparr>)"
  by (simp_all add: quiet_def no_faults_def sample_runner_def sample_saga_tx_def)

lemma sample_inv: "runner_inv sample_runner"
  using sample_rows_ok sample_start by (rule saga_start_inv)

lemma sample_good_ok:
  "\<exists>r1. execute_step enc_nat dec_nat sample_uuid_lib good_step 5 sample_runner [] =
     (r1, [''reserve''], Inr 5) \<and> saga_state (r_tx r1) 9 \<noteq> None \<and>
     map_option sr_status (saga_state (r_tx r1) 9) = Some ''running'' \<and> pg_fault (r_tx r1) = (\<lambda>_. None)"
  by (simp add: execute_step_def sample_runner_def sample_saga_tx_def saga_status_is_terminal_def
      good_step_def pg_exec_def update_saga_sql_def execute_success_def enc_nat_def emit_def Let_def
      enqueue_def insert_outbox_sql_def delete_outbox_sql_def new_outbox_event_def
      set_current_step_def append_completed_def)

theorem saga_runner_mirrors_row_witness:
  "\<exists>r w ress. run_calls enc_nat dec_nat sample_uuid_lib
       [ExecuteStep good_step 5, ExecuteStep bad_step 1, Finish] (sample_runner, []) = ((r, w), ress) \<and>
     runner_inv r"
proof -
  obtain r w ress where run: "run_calls enc_nat dec_nat sample_uuid_lib
      [ExecuteStep good_step 5, ExecuteStep bad_step 1, Finish] (sample_runner, []) = ((r, w), ress)"
    by (metis old.prod.exhaust)
  with saga_runner_mirrors_row [OF sample_rows_ok sample_start run] show ?thesis by blast
qed

theorem saga_terminal_absorbing_witness:
  "run_calls enc_nat dec_nat sample_uuid_lib [ExecuteStep good_step 5, Finish, Abort]
     (sample_runner\<lparr>r_status := Aborted\<rparr>, []) =
   ((sample_runner\<lparr>r_status := Aborted\<rparr>, []), replicate 3 (Error (ErrTerminal ''aborted'')))"
proof -
  have "saga_status_is_terminal (r_status (sample_runner\<lparr>r_status := Aborted\<rparr>))"
    by (simp add: saga_status_is_terminal_def)
  from saga_terminal_absorbing [OF this, of enc_nat dec_nat sample_uuid_lib
      "[ExecuteStep good_step 5, Finish, Abort]" "[]"]
  show ?thesis by (simp add: numeral_3_eq_3)
qed

theorem saga_failure_rolls_back_witness:
  "\<exists>r'. execute_step enc_nat dec_nat sample_uuid_lib bad_step 1
       (sample_runner\<lparr>r_compensations := [(''reserve'', compensate good_step 5)]\<rparr>) [''reserve''] =
     (r', [''reserve'', ''declined'', ''release''], Inl (ErrStepFailure ''charge'' ''declined'')) \<and>
     map se_kind (r_events r') = [EventStepFailed, EventStepCompensated] \<and> r_status r' = Compensated"
proof -
  let ?r = "sample_runner\<lparr>r_compensations := [(''reserve'', compensate good_step 5)]\<rparr>"
  have 1: "r_status ?r = Running" "step_name bad_step \<notin> r_completed_set ?r"
    by (simp_all add: sample_runner_def)
  have 2: "execute bad_step 1 [''reserve''] =
      ([''reserve'', ''declined''], Inl (ErrStepFailure ''charge'' ''declined''))"
    by (simp add: bad_step_def)
  have 3: "undo (rev (r_compensations ?r)) [''reserve'', ''declined''] =
      ([''reserve'', ''declined'', ''release''], [''reserve''])"
    by (simp add: good_step_def)
  from saga_failure_rolls_back [OF sample_quiet(2) 1 2 3, of enc_nat dec_nat sample_uuid_lib]
  show ?thesis by (auto simp: event_of_def sample_runner_def)
qed

theorem saga_completed_step_replays_witness:
  "\<exists>r1 tx2 r2. execute_step enc_nat dec_nat sample_uuid_lib good_step 5 sample_runner [] =
       (r1, [''reserve''], Inr 5) \<and>
     saga_start (r_tx r1) 9 ''order'' = (tx2, Inr r2) \<and>
     execute_step enc_nat dec_nat sample_uuid_lib good_step 6 r2 [''x''] = (r2, [''x''], Inr 5)"
proof -
  obtain r1 where r1: "execute_step enc_nat dec_nat sample_uuid_lib good_step 5 sample_runner [] =
      (r1, [''reserve''], Inr 5)" "pg_fault (r_tx r1) = (\<lambda>_. None)"
    "saga_state (r_tx r1) 9 \<noteq> None"
    "map_option sr_status (saga_state (r_tx r1) 9) = Some ''running''"
    using sample_good_ok by blast
  obtain tx2 r2 where r2: "saga_start (r_tx r1) (r_saga_id sample_runner) ''order'' =
      (tx2, Inr (r2 :: string list saga_runner))"
    using r1(2-4)
    by (auto simp: saga_start_def pg_exec_def insert_saga_sql_def select_saga_sql_def
        saga_status_is_terminal_def parse_saga_status_def sample_runner_def split: option.splits)
  have new: "step_name good_step \<notin> r_completed_set sample_runner"
    by (simp add: sample_runner_def)
  have rt: "\<And>j. enc_nat 5 = Inr j \<Longrightarrow> dec_nat j = Inr 5"
    by (auto simp: enc_nat_def dec_nat_def)
  from saga_completed_step_replays [OF r1(1) new sample_inv rt r2 refl, of 6 "[''x'']"] r1(1) r2
  show ?thesis by (auto simp: sample_runner_def)
qed

theorem resumed_saga_skips_compensation_witness:
  "\<exists>r1 tx2 r2 r' row r''. execute_step enc_nat dec_nat sample_uuid_lib good_step 5 sample_runner [] =
       (r1, [''reserve''], Inr 5) \<and>
     saga_start (r_tx r1) 9 ''order'' = (tx2, Inr r2) \<and>
     execute_step enc_nat dec_nat sample_uuid_lib bad_step 1 r1 [''reserve''] =
       (r'', [''reserve'', ''declined'', ''release''], Inl (ErrStepFailure ''charge'' ''declined'')) \<and>
     r_status r'' = Compensated \<and>
     execute_step enc_nat dec_nat sample_uuid_lib bad_step 1 r2 [''reserve''] =
       (r', [''reserve'', ''declined''], Inl (ErrStepFailure ''charge'' ''declined'')) \<and>
     r_status r' = Failed \<and> saga_state (r_tx r') 9 = Some row \<and> sr_completed_steps row = [''reserve'']"
proof -
  obtain r1 where r1: "execute_step enc_nat dec_nat sample_uuid_lib good_step 5 sample_runner [] =
      (r1, [''reserve''], Inr 5)" "pg_fault (r_tx r1) = (\<lambda>_. None)"
    "saga_state (r_tx r1) 9 \<noteq> None"
    "map_option sr_status (saga_state (r_tx r1) 9) = Some ''running''"
    using sample_good_ok by blast
  obtain tx2 r2 where r2: "saga_start (r_tx r1) (r_saga_id sample_runner) ''order'' =
      (tx2, Inr (r2 :: string list saga_runner))"
    using r1(2-4)
    by (auto simp: saga_start_def pg_exec_def insert_saga_sql_def select_saga_sql_def
        saga_status_is_terminal_def parse_saga_status_def sample_runner_def split: option.splits)
  have first: "r_status sample_runner = Running" "step_name good_step \<notin> r_completed_set sample_runner"
    by (simp_all add: sample_runner_def)
  have "r_completed_set r2 = {''reserve''}"
    using execute_step_inv [OF sample_inv r1(1)] saga_restart(4) [OF _ _ _ r2]
      execute_step_success_quiet [OF sample_quiet(1) first r1(1)]
    by (simp add: runner_inv_def sample_runner_def good_step_def)
  then have fresh: "step_name bad_step \<notin> r_completed_set r2"
    by (simp add: bad_step_def)
  have fails: "execute bad_step 1 [''reserve''] =
      ([''reserve'', ''declined''], Inl (ErrStepFailure ''charge'' ''declined''))"
    by (simp add: bad_step_def)
  have "undo ((step_name good_step, compensate good_step 5) # rev (r_compensations sample_runner))
      [''reserve'', ''declined''] = ([''reserve'', ''declined'', ''release''], [''reserve''])"
    by (simp add: good_step_def sample_runner_def)
  from resumed_saga_skips_compensation [OF sample_quiet(1) first(1) sample_inv first(2) r1(1) r2 fresh fails this]
    r1(1) r2 show ?thesis
    by (simp add: sample_runner_def good_step_def) blast
qed

theorem saga_events_are_relayed_witness:
  "\<exists>r w ress evs ws. run_calls enc_nat dec_nat sample_uuid_lib [ExecuteStep good_step 5, Finish]
       (sample_runner, []) = ((r, w), ress) \<and>
     r_events r = r_events sample_runner @ evs \<and>
     relayed (wal (r_tx r)) = ws \<and> map on_wire ws = map se_on_wire evs"
proof -
  obtain r w ress where run: "run_calls enc_nat dec_nat sample_uuid_lib
      [ExecuteStep good_step 5, Finish] (sample_runner, []) = ((r, w), ress)"
    by (metis old.prod.exhaust)
  have "relayed (wal (r_tx sample_runner)) = []"
    by (simp add: sample_runner_def sample_saga_tx_def)
  with saga_events_are_relayed [OF sample_quiet(1) run] run show ?thesis by auto
qed

theorem enqueue_outbox_event_not_idempotent_witness:
  "\<exists>k t1 t2 e. enqueue_outbox_event (\<lambda>_. ''{}'') sample_uuid_lib ''a'' ''1'' ''t'' (JObj []) sample_saga_tx
       = (t1, Inr k) \<and>
     enqueue_outbox_event (\<lambda>_. ''{}'') sample_uuid_lib ''a'' ''1'' ''t'' (JObj []) t1 = (t2, Inr k) \<and>
     oe_event_id e = k \<and> relayed (wal t2) = [e, e]"
proof -
  have 1: "no_faults sample_saga_tx" "outbox_events sample_saga_tx = Map.empty"
    by (simp_all add: no_faults_def sample_saga_tx_def)
  have "relayed (wal sample_saga_tx) = []"
    by (simp add: sample_saga_tx_def)
  with enqueue_outbox_event_not_idempotent [OF 1, of "\<lambda>_. ''{}''" "''a''" "JObj []"
      sample_uuid_lib "''1''" "''t''"]
  show ?thesis by simp
qed

end
