(* ===== verification/State_Machine.thy ===== *)
theory State_Machine
  imports Pg_Tx "HOL-Library.Sublist"
begin

text \<open>
  The Postgres-backed state-machine store of \<^verbatim>\<open>libs/state-machine/state_machine.go\<close>: optimistic
  concurrency by a version column, the timeout sweep, and \<^verbatim>\<open>WithRetry\<close>. The Go type parameter
  \<^verbatim>\<open>M Aggregate[E]\<close> is a record of the operations of the machine type; the locale \<open>aggregate\<close>
  states what the store relies on, and each machine type of the repository is an interpretation of
  it. Each call of the store is one auto-committed statement. (\<^verbatim>\<open>created_at\<close>, \<^verbatim>\<open>updated_at\<close> and
  the 2^63 bound of the version column are left out.)
\<close>

section \<open>Aggregates\<close>

text \<open>
  \<^verbatim>\<open>Apply\<close> mutates its receiver, so it returns the machine as it is afterwards next to the error
  (the message of a \<^verbatim>\<open>TransitionError\<close>). The last two are \<^verbatim>\<open>encoding/json\<close> at the machine type.
\<close>

record ('m, 'e) aggregate_ops =
  agg_apply :: "'m \<Rightarrow> 'e \<Rightarrow> 'm \<times> string option"
  agg_state :: "'m \<Rightarrow> string"
  agg_id :: "'m \<Rightarrow> uuid"
  agg_expires_at :: "'m \<Rightarrow> instant option"
  agg_marshal :: "'m \<Rightarrow> string + json"
  agg_unmarshal :: "json \<Rightarrow> string + 'm"

datatype store_error =
    TransitionError string
  | StaleError uuid int
  | NotFoundError uuid
  | InvalidStateError uuid string
  | SerializeError string
  | DbError string

fun is_transition_error :: "store_error \<Rightarrow> bool" where
  "is_transition_error (TransitionError _) = True"
| "is_transition_error _ = False"

fun is_stale :: "store_error \<Rightarrow> bool" where
  "is_stale (StaleError _ _) = True"
| "is_stale _ = False"

fun is_not_found :: "store_error \<Rightarrow> bool" where
  "is_not_found (NotFoundError _) = True"
| "is_not_found _ = False"

record 'm loaded =
  ld_machine :: 'm
  ld_version :: int

section \<open>The table\<close>

record sm_row =
  sm_state :: string
  sm_state_data :: json
  sm_version :: int
  sm_expires_at :: "instant option"

text \<open>The rows in the order the server scans them, keyed by the primary key \<^verbatim>\<open>id\<close>.\<close>

record sm_db = pg +
  sm_rows :: "(uuid \<times> sm_row) list"

definition sm_lookup :: "'a sm_db_scheme \<Rightarrow> uuid \<Rightarrow> sm_row option" where
  "sm_lookup db i = map_of (sm_rows db) i"

text \<open>\<^verbatim>\<open>INSERT \<dots> RETURNING version\<close>: \<open>None\<close> is the unique violation of the primary key.\<close>

definition sm_insert_sql ::
  "uuid \<Rightarrow> string \<Rightarrow> json \<Rightarrow> instant option \<Rightarrow> 'a sm_db_scheme \<Rightarrow> 'a sm_db_scheme \<times> int option" where
  "sm_insert_sql i state payload expires db =
     (if sm_lookup db i \<noteq> None then (db, None)
      else (db\<lparr>sm_rows := sm_rows db @
                 [(i, \<lparr>sm_state = state, sm_state_data = payload, sm_version = 1, sm_expires_at = expires\<rparr>)]\<rparr>,
            Some 1))"

definition sm_select_sql :: "uuid \<Rightarrow> 'a sm_db_scheme \<Rightarrow> 'a sm_db_scheme \<times> (json \<times> int) option" where
  "sm_select_sql i db =
     (db, map_option (\<lambda>row. (sm_state_data row, sm_version row)) (sm_lookup db i))"

text \<open>\<^verbatim>\<open>UPDATE \<dots> WHERE id = $4 AND version = $5 RETURNING version\<close>: \<open>None\<close> is no row returned.\<close>

definition sm_update_sql ::
  "uuid \<Rightarrow> int \<Rightarrow> string \<Rightarrow> json \<Rightarrow> instant option \<Rightarrow> 'a sm_db_scheme \<Rightarrow> 'a sm_db_scheme \<times> int option" where
  "sm_update_sql i version state payload expires db =
     (case sm_lookup db i of
        None \<Rightarrow> (db, None)
      | Some row \<Rightarrow>
          if sm_version row \<noteq> version then (db, None)
          else (db\<lparr>sm_rows := map (\<lambda>(k, r).
                     if k = i then (k, \<lparr>sm_state = state, sm_state_data = payload,
                                        sm_version = sm_version r + 1, sm_expires_at = expires\<rparr>)
                     else (k, r)) (sm_rows db)\<rparr>,
                Some (version + 1)))"

text \<open>\<^verbatim>\<open>SELECT \<dots> WHERE expires_at IS NOT NULL AND expires_at <= $1 ORDER BY expires_at\<close>.\<close>

definition sm_sweep_sql ::
  "instant \<Rightarrow> 'a sm_db_scheme \<Rightarrow> 'a sm_db_scheme \<times> (uuid \<times> json \<times> int) list" where
  "sm_sweep_sql now db =
     (db, map (\<lambda>(i, row). (i, sm_state_data row, sm_version row))
            (sort_key (\<lambda>(i, row). the (sm_expires_at row))
              (filter (\<lambda>(i, row). case sm_expires_at row of None \<Rightarrow> False | Some t \<Rightarrow> t \<le> now)
                (sm_rows db))))"

section \<open>The store\<close>

definition store_insert ::
  "('m, 'e) aggregate_ops \<Rightarrow> 'm \<Rightarrow> 'a sm_db_scheme \<Rightarrow> 'a sm_db_scheme \<times> (store_error + 'm loaded)" where
  "store_insert ops m db =
     (case agg_marshal ops m of
        Inl msg \<Rightarrow> (db, Inl (SerializeError msg))
      | Inr payload \<Rightarrow>
          (case pg_exec (sm_insert_sql (agg_id ops m) (agg_state ops m) payload (agg_expires_at ops m)) db of
             (db', Inl msg) \<Rightarrow> (db', Inl (DbError msg))
           | (db', Inr None) \<Rightarrow> (db', Inl (DbError ''duplicate key value violates unique constraint''))
           | (db', Inr (Some v)) \<Rightarrow> (db', Inr \<lparr>ld_machine = m, ld_version = v\<rparr>)))"

definition store_load ::
  "('m, 'e) aggregate_ops \<Rightarrow> uuid \<Rightarrow> 'a sm_db_scheme \<Rightarrow> 'a sm_db_scheme \<times> (store_error + 'm loaded)" where
  "store_load ops i db =
     (case pg_exec (sm_select_sql i) db of
        (db', Inl msg) \<Rightarrow> (db', Inl (DbError msg))
      | (db', Inr None) \<Rightarrow> (db', Inl (NotFoundError i))
      | (db', Inr (Some (payload, v))) \<Rightarrow>
          (case agg_unmarshal ops payload of
             Inl msg \<Rightarrow> (db', Inl (InvalidStateError i msg))
           | Inr m \<Rightarrow> (db', Inr \<lparr>ld_machine = m, ld_version = v\<rparr>)))"

definition store_apply ::
  "('m, 'e) aggregate_ops \<Rightarrow> 'm loaded \<Rightarrow> 'e \<Rightarrow> 'a sm_db_scheme \<Rightarrow>
   'a sm_db_scheme \<times> (store_error + 'm loaded)" where
  "store_apply ops ld event db =
     (let i = agg_id ops (ld_machine ld) in
      case agg_apply ops (ld_machine ld) event of
        (m, Some msg) \<Rightarrow> (db, Inl (TransitionError msg))
      | (m, None) \<Rightarrow>
          (case agg_marshal ops m of
             Inl msg \<Rightarrow> (db, Inl (SerializeError msg))
           | Inr payload \<Rightarrow>
               (case pg_exec (sm_update_sql i (ld_version ld) (agg_state ops m) payload (agg_expires_at ops m)) db of
                  (db', Inl msg) \<Rightarrow> (db', Inl (DbError msg))
                | (db', Inr None) \<Rightarrow> (db', Inl (StaleError i (ld_version ld)))
                | (db', Inr (Some v)) \<Rightarrow> (db', Inr \<lparr>ld_machine = m, ld_version = v\<rparr>))))"

fun decode_rows ::
  "('m, 'e) aggregate_ops \<Rightarrow> (uuid \<times> json \<times> int) list \<Rightarrow> store_error + 'm loaded list" where
  "decode_rows ops [] = Inr []"
| "decode_rows ops ((i, payload, v) # rows) =
     (case agg_unmarshal ops payload of
        Inl msg \<Rightarrow> Inl (InvalidStateError i msg)
      | Inr m \<Rightarrow>
          (case decode_rows ops rows of
             Inl e \<Rightarrow> Inl e
           | Inr lds \<Rightarrow> Inr (\<lparr>ld_machine = m, ld_version = v\<rparr> # lds)))"

definition timeout_sweep ::
  "('m, 'e) aggregate_ops \<Rightarrow> instant \<Rightarrow> 'a sm_db_scheme \<Rightarrow>
   'a sm_db_scheme \<times> (store_error + 'm loaded list)" where
  "timeout_sweep ops now db =
     (case pg_exec (sm_sweep_sql now) db of
        (db', Inl msg) \<Rightarrow> (db', Inl (DbError msg))
      | (db', Inr rows) \<Rightarrow> (db', decode_rows ops rows))"

section \<open>WithRetry\<close>

datatype 't retry_result =
    RetryOk 't
  | RetryErr store_error
  | RetryZeroAttempts
  | RetryCancelled
  | RetryExhausted
  | RetryPanic

text \<open>Two's-complement \<^verbatim>\<open>int64\<close> arithmetic on durations (nanoseconds).\<close>

definition wrap64 :: "int \<Rightarrow> int" where
  "wrap64 x = sint (word_of_int x :: 64 word)"

definition max_delay :: int where
  "max_delay = 1000000000"

definition next_delay :: "int \<Rightarrow> int" where
  "next_delay delay = (let d = wrap64 (delay * 2) in if d > max_delay then max_delay else d)"

text \<open>
  \<^verbatim>\<open>rand.Int63n(int64(delay) / 3)\<close> panics unless its argument is positive, that is unless the delay
  is at least 3 ns. \<open>cancelled n\<close> says that the context ends during the sleep after attempt \<open>n\<close>.
\<close>

function retry_loop ::
  "(nat \<Rightarrow> 's \<Rightarrow> 's \<times> (store_error + 't)) \<Rightarrow> (nat \<Rightarrow> bool) \<Rightarrow> nat \<Rightarrow> nat \<Rightarrow> int \<Rightarrow> 's \<Rightarrow>
   's \<times> 't retry_result" where
  "retry_loop f cancelled max_attempts attempt delay s =
     (if attempt \<le> max_attempts then
        (case f attempt s of
           (s', Inr out) \<Rightarrow> (s', RetryOk out)
         | (s', Inl err) \<Rightarrow>
             if \<not> is_stale err \<or> attempt = max_attempts then (s', RetryErr err)
             else if delay < 3 then (s', RetryPanic)
             else if cancelled attempt then (s', RetryCancelled)
             else retry_loop f cancelled max_attempts (Suc attempt) (next_delay delay) s')
      else (s, RetryExhausted))"
  by pat_completeness auto
termination
  by (relation "measure (\<lambda>(f, c, m, a, d, s). Suc m - a)") auto

declare retry_loop.simps [simp del]

definition with_retry ::
  "(nat \<Rightarrow> bool) \<Rightarrow> nat \<Rightarrow> int \<Rightarrow> (nat \<Rightarrow> 's \<Rightarrow> 's \<times> (store_error + 't)) \<Rightarrow> 's \<Rightarrow> 's \<times> 't retry_result" where
  "with_retry cancelled max_attempts base_delay f s =
     (if max_attempts = 0 then (s, RetryZeroAttempts)
      else retry_loop f cancelled max_attempts 1 base_delay s)"

section \<open>The contract of a machine type\<close>

text \<open>
  What the store relies on: a refused event leaves the machine as it was (the store never writes it,
  but the caller's pointer is the machine that was mutated), an accepted one keeps the identity, and
  the JSON encoding can be read back. \<open>ok\<close> is what holds of the machines that can be stored at all.
\<close>

locale aggregate =
  fixes ops :: "('m, 'e) aggregate_ops"
    and ok :: "'m \<Rightarrow> bool"
  assumes refused: "agg_apply ops m e = (m', Some msg) \<Longrightarrow> m' = m"
    and keeps_id: "agg_apply ops m e = (m', None) \<Longrightarrow> agg_id ops m' = agg_id ops m"
    and keeps_ok: "ok m \<Longrightarrow> agg_apply ops m e = (m', None) \<Longrightarrow> agg_marshal ops m' = Inr j \<Longrightarrow> ok m'"
    and roundtrip: "ok m \<Longrightarrow> \<exists>j. agg_marshal ops m = Inr j \<and> agg_unmarshal ops j = Inr m"

text \<open>A row that stores the machine: every queryable column agrees with the JSON document.\<close>

definition row_of :: "('m, 'e) aggregate_ops \<Rightarrow> uuid \<Rightarrow> sm_row \<Rightarrow> 'm \<Rightarrow> bool" where
  "row_of ops i row m \<longleftrightarrow>
     agg_id ops m = i \<and> agg_marshal ops m = Inr (sm_state_data row) \<and>
     agg_unmarshal ops (sm_state_data row) = Inr m \<and>
     sm_state row = agg_state ops m \<and> sm_expires_at row = agg_expires_at ops m"

definition table_ok :: "('m, 'e) aggregate_ops \<Rightarrow> ('m \<Rightarrow> bool) \<Rightarrow> 'a sm_db_scheme \<Rightarrow> bool" where
  "table_ok ops ok db \<longleftrightarrow>
     distinct (map fst (sm_rows db)) \<and>
     (\<forall>(i, row) \<in> set (sm_rows db). 1 \<le> sm_version row \<and> (\<exists>m. ok m \<and> row_of ops i row m))"

text \<open>One statement of another writer, on any machine of the type.\<close>

inductive store_step :: "('m, 'e) aggregate_ops \<Rightarrow> 'a sm_db_scheme \<Rightarrow> 'a sm_db_scheme \<Rightarrow> bool"
  for ops where
  insert: "store_insert ops m db = (db', res) \<Longrightarrow> store_step ops db db'"
| load: "store_load ops i db = (db', res) \<Longrightarrow> store_step ops db db'"
| apply_event: "store_apply ops ld e db = (db', res) \<Longrightarrow> store_step ops db db'"
| sweep: "timeout_sweep ops now db = (db', res) \<Longrightarrow> store_step ops db db'"

end
