(* ===== verification/State_Machine_Proofs.thy ===== *)
theory State_Machine_Proofs
  imports State_Machine
begin

text \<open>
  The store's guarantees: versions only grow and a row keeps its content as long as it keeps its
  version (so a successful \<^verbatim>\<open>Apply\<close> never overwrites an update it has not seen), a table of well-formed
  machines stays one, the sweep finds exactly the due machines, and \<^verbatim>\<open>WithRetry\<close> stops.
\<close>

section \<open>The statements on the table\<close>

lemma map_of_map_update:
  "map_of (map (\<lambda>(k, r). if k = i then (k, f r) else (k, r)) xs) j =
   (if j = i then map_option f (map_of xs i) else map_of xs j)"
  by (induction xs) (auto split: if_splits)

lemma in_map_updateD:
  "(i, r) \<in> set (map (\<lambda>(k, r). if k = j then (k, f r) else (k, r)) xs) \<Longrightarrow>
   \<exists>r0. (i, r0) \<in> set xs \<and> r = (if i = j then f r0 else r0)"
  by (induction xs) (auto split: if_splits)

lemma sm_insert_cases:
  assumes "sm_insert_sql i s p e db = (db', res)"
  obtains (dup) "db' = db" "res = None" "sm_lookup db i \<noteq> None"
    | (new) "sm_lookup db i = None" "res = Some 1"
      "sm_rows db' = sm_rows db @ [(i, \<lparr>sm_state = s, sm_state_data = p, sm_version = 1, sm_expires_at = e\<rparr>)]"
  using assms by (auto simp: sm_insert_sql_def split: if_splits)

lemma sm_update_cases:
  assumes "sm_update_sql i v s p e db = (db', res)"
  obtains (stale) "db' = db" "res = None" "\<And>row. sm_lookup db i = Some row \<Longrightarrow> sm_version row \<noteq> v"
    | (hit) row where "sm_lookup db i = Some row" "sm_version row = v" "res = Some (v + 1)"
      "sm_rows db' = map (\<lambda>(k, r). if k = i then (k, \<lparr>sm_state = s, sm_state_data = p,
         sm_version = sm_version r + 1, sm_expires_at = e\<rparr>) else (k, r)) (sm_rows db)"
  using assms by (auto simp: sm_update_sql_def split: option.splits if_splits)

lemma sm_lookup_after_update:
  assumes "sm_rows db' = map (\<lambda>(k, r). if k = i then (k, f r) else (k, r)) (sm_rows db)"
  shows "sm_lookup db' j = (if j = i then map_option f (sm_lookup db i) else sm_lookup db j)"
  using assms by (simp add: sm_lookup_def map_of_map_update)

text \<open>\<open>grows\<close>: every row is still there, either as it was or with a higher version.\<close>

definition grows :: "'a sm_db_scheme \<Rightarrow> 'a sm_db_scheme \<Rightarrow> bool" where
  "grows db db' \<longleftrightarrow>
     (\<forall>i row. sm_lookup db i = Some row \<longrightarrow>
        (\<exists>row'. sm_lookup db' i = Some row' \<and> (row' = row \<or> sm_version row < sm_version row')))"

lemma grows_refl [simp]: "grows db db"
  by (simp add: grows_def)

lemma grows_same: "sm_rows db' = sm_rows db \<Longrightarrow> grows db db'"
  by (simp add: grows_def sm_lookup_def)

lemma grows_trans: "grows a b \<Longrightarrow> grows b c \<Longrightarrow> grows a c"
  unfolding grows_def
proof (intro allI impI)
  fix i row
  assume ab: "\<forall>i row. sm_lookup a i = Some row \<longrightarrow>
      (\<exists>row'. sm_lookup b i = Some row' \<and> (row' = row \<or> sm_version row < sm_version row'))"
    and bc: "\<forall>i row. sm_lookup b i = Some row \<longrightarrow>
      (\<exists>row'. sm_lookup c i = Some row' \<and> (row' = row \<or> sm_version row < sm_version row'))"
    and "sm_lookup a i = Some row"
  then obtain row1 where "sm_lookup b i = Some row1" "row1 = row \<or> sm_version row < sm_version row1"
    by blast
  moreover with bc obtain row2 where "sm_lookup c i = Some row2" "row2 = row1 \<or> sm_version row1 < sm_version row2"
    by blast
  ultimately show "\<exists>row'. sm_lookup c i = Some row' \<and> (row' = row \<or> sm_version row < sm_version row')"
    by auto
qed

lemma sm_insert_grows: "sm_insert_sql i s p e db = (db', res) \<Longrightarrow> grows db db'"
proof (erule sm_insert_cases)
  assume "sm_lookup db i = None"
    and "sm_rows db' = sm_rows db @ [(i, \<lparr>sm_state = s, sm_state_data = p, sm_version = 1, sm_expires_at = e\<rparr>)]"
  then show "grows db db'"
    by (simp add: grows_def sm_lookup_def map_add_def split: option.split)
qed simp

lemma sm_update_grows: "sm_update_sql i v s p e db = (db', res) \<Longrightarrow> grows db db'"
proof (erule sm_update_cases)
  fix row
  let ?f = "\<lambda>r. \<lparr>sm_state = s, sm_state_data = p, sm_version = sm_version r + 1, sm_expires_at = e\<rparr>"
  assume "sm_lookup db i = Some row"
    and "sm_rows db' = map (\<lambda>(k, r). if k = i then (k, ?f r) else (k, r)) (sm_rows db)"
  then show "grows db db'"
    by (auto simp: grows_def sm_lookup_after_update [of db' i ?f db])
qed simp

lemma pg_exec_grows:
  assumes "pg_exec f db = (db', res)" and "\<And>u r. f db = (u, r) \<Longrightarrow> grows db u"
  shows "grows db db'"
  using assms(1)
proof (cases rule: pg_exec_cases)
  case (fault msg)
  then show ?thesis by (simp add: grows_same)
next
  case (ok u r)
  with assms(2) have "grows db u" by blast
  moreover have "grows u db'"
    by (simp add: ok(3) grows_same)
  ultimately show ?thesis by (rule grows_trans)
qed

lemma store_insert_grows: "store_insert ops m db = (db', res) \<Longrightarrow> grows db db'"
  by (auto simp: store_insert_def split: sum.splits prod.splits option.splits
      intro: pg_exec_grows sm_insert_grows)

lemma store_load_grows: "store_load ops i db = (db', res) \<Longrightarrow> grows db db'"
  by (auto simp: store_load_def sm_select_sql_def split: sum.splits prod.splits option.splits
      intro: pg_exec_grows)

lemma store_apply_grows: "store_apply ops ld e db = (db', res) \<Longrightarrow> grows db db'"
  by (auto simp: store_apply_def Let_def split: sum.splits prod.splits option.splits
      intro: pg_exec_grows sm_update_grows)

lemma timeout_sweep_grows: "timeout_sweep ops now db = (db', res) \<Longrightarrow> grows db db'"
  by (auto simp: timeout_sweep_def sm_sweep_sql_def split: sum.splits prod.splits intro: pg_exec_grows)

lemma store_step_grows: "store_step ops db db' \<Longrightarrow> grows db db'"
  by (induction rule: store_step.induct)
     (auto intro: store_insert_grows store_load_grows store_apply_grows timeout_sweep_grows)

lemma store_steps_grow: "(store_step ops)\<^sup>*\<^sup>* db db' \<Longrightarrow> grows db db'"
  by (induction rule: rtranclp_induct) (auto intro: grows_trans store_step_grows)

text \<open>What a successful load read and a successful apply wrote.\<close>

lemma store_load_InrD:
  assumes "store_load ops i db = (db', Inr ld)"
  obtains row where "sm_lookup db i = Some row" "sm_lookup db' = sm_lookup db"
    "agg_unmarshal ops (sm_state_data row) = Inr (ld_machine ld)" "ld_version ld = sm_version row"
  using assms
  by (auto simp: store_load_def pg_exec_def sm_select_sql_def sm_lookup_def Let_def fun_eq_iff
      split: sum.splits prod.splits option.splits)

lemma store_apply_InrD:
  assumes "store_apply ops ld e db = (db', Inr ld')"
  obtains row where "agg_apply ops (ld_machine ld) e = (ld_machine ld', None)"
    "sm_lookup db (agg_id ops (ld_machine ld)) = Some row" "sm_version row = ld_version ld"
    "ld_version ld' = ld_version ld + 1"
    "sm_lookup db' = (sm_lookup db)(agg_id ops (ld_machine ld) \<mapsto>
       \<lparr>sm_state = agg_state ops (ld_machine ld'),
        sm_state_data = projr (agg_marshal ops (ld_machine ld')),
        sm_version = ld_version ld', sm_expires_at = agg_expires_at ops (ld_machine ld')\<rparr>)"
    "agg_marshal ops (ld_machine ld') = Inr (projr (agg_marshal ops (ld_machine ld')))"
proof -
  obtain m payload where m: "agg_apply ops (ld_machine ld) e = (m, None)"
    and p: "agg_marshal ops m = Inr payload"
    using assms by (auto simp: store_apply_def Let_def split: prod.splits option.splits sum.splits)
  let ?i = "agg_id ops (ld_machine ld)"
  let ?q = "sm_update_sql ?i (ld_version ld) (agg_state ops m) payload (agg_expires_at ops m)"
  obtain v where ex: "pg_exec ?q db = (db', Inr (Some v))" and ld': "ld' = \<lparr>ld_machine = m, ld_version = v\<rparr>"
    using assms m p by (auto simp: store_apply_def Let_def split: prod.splits option.splits sum.splits)
  from ex obtain u where u: "?q db = (u, Some v)" and db': "db' = u\<lparr>pg_clock := Suc (pg_clock db)\<rparr>"
    by (auto elim: pg_exec_cases)
  from u show ?thesis
  proof (cases rule: sm_update_cases)
    case stale
    then show ?thesis by simp
  next
    case (hit row)
    have "sm_lookup db' = sm_lookup u"
      by (simp add: db' sm_lookup_def fun_eq_iff)
    with hit m p ld' sm_lookup_after_update [OF hit(4)] show ?thesis
      by (intro that [of row]) (auto simp: fun_eq_iff)
  qed
qed

lemma store_apply_ok:
  assumes "agg_apply ops (ld_machine ld) e = (m, None)" and "agg_marshal ops m = Inr j"
    and "sm_lookup db (agg_id ops (ld_machine ld)) = Some row" and "sm_version row = ld_version ld"
    and "pg_fault db (pg_clock db) = None"
  shows "\<exists>db'. store_apply ops ld e db = (db', Inr \<lparr>ld_machine = m, ld_version = ld_version ld + 1\<rparr>) \<and>
    sm_lookup db' = (sm_lookup db)(agg_id ops (ld_machine ld) \<mapsto>
      \<lparr>sm_state = agg_state ops m, sm_state_data = j, sm_version = ld_version ld + 1,
       sm_expires_at = agg_expires_at ops m\<rparr>) \<and>
    pg_clock db' = Suc (pg_clock db) \<and> pg_fault db' = pg_fault db \<and> sm_db.more db' = sm_db.more db"
  using assms
  by (auto simp: store_apply_def Let_def pg_exec_def sm_update_sql_def sm_lookup_def map_of_map_update fun_eq_iff)

section \<open>Well-formed tables\<close>

lemma distinct_map_fst_sort_filter:
  "distinct (map fst xs) \<Longrightarrow> distinct (map fst (sort_key f (filter P xs)))"
  by (simp add: distinct_map inj_on_def)

context aggregate begin

lemma insert_table_ok:
  assumes tab: "table_ok ops ok db" and m: "ok m" and run: "store_insert ops m db = (db', res)"
  shows "table_ok ops ok db'"
proof -
  obtain j where j: "agg_marshal ops m = Inr j" "agg_unmarshal ops j = Inr m"
    using roundtrip [OF m] by blast
  let ?q = "sm_insert_sql (agg_id ops m) (agg_state ops m) j (agg_expires_at ops m)"
  obtain r where ex: "pg_exec ?q db = (db', r)"
    using run j by (auto simp: store_insert_def split: prod.splits sum.splits option.splits)
  then show ?thesis
  proof (cases rule: pg_exec_cases)
    case (fault msg)
    with tab show ?thesis by (simp add: table_ok_def)
  next
    case (ok u r')
    from ok(2) show ?thesis
    proof (cases rule: sm_insert_cases)
      case dup
      with ok(3) tab show ?thesis by (simp add: table_ok_def)
    next
      case new
      have fresh: "agg_id ops m \<notin> fst ` set (sm_rows db)"
        using new(1) by (simp add: sm_lookup_def map_of_eq_None_iff)
      have "row_of ops (agg_id ops m) \<lparr>sm_state = agg_state ops m, sm_state_data = j, sm_version = 1,
          sm_expires_at = agg_expires_at ops m\<rparr> m"
        using j by (simp add: row_of_def)
      with tab new(3) ok(3) m fresh show ?thesis
        by (auto simp: table_ok_def)
    qed
  qed
qed

lemma apply_table_ok:
  assumes tab: "table_ok ops ok db" and m: "ok (ld_machine ld)" and run: "store_apply ops ld e db = (db', res)"
  shows "table_ok ops ok db'"
proof (cases "snd (agg_apply ops (ld_machine ld) e)")
  case (Some msg)
  then show ?thesis
    using tab run by (auto simp: store_apply_def Let_def split: prod.splits)
next
  case None
  then obtain m' where m': "agg_apply ops (ld_machine ld) e = (m', None)"
    by (metis prod.collapse)
  have id': "agg_id ops m' = agg_id ops (ld_machine ld)"
    using keeps_id [OF m'] .
  show ?thesis
  proof (cases "agg_marshal ops m'")
    case (Inl msg)
    with m' tab run show ?thesis
      by (auto simp: store_apply_def Let_def)
  next
  case (Inr j0)
  have ok': "ok m'"
    using keeps_ok [OF m m' Inr] .
  obtain j where j: "agg_marshal ops m' = Inr j" "agg_unmarshal ops j = Inr m'"
    using roundtrip [OF ok'] by blast
  let ?q = "sm_update_sql (agg_id ops (ld_machine ld)) (ld_version ld) (agg_state ops m') j (agg_expires_at ops m')"
  obtain r where ex: "pg_exec ?q db = (db', r)"
    using run m' j by (auto simp: store_apply_def Let_def split: prod.splits sum.splits option.splits)
  then show ?thesis
  proof (cases rule: pg_exec_cases)
    case (fault msg)
    with tab show ?thesis by (simp add: table_ok_def)
  next
    case (ok u r')
    from ok(2) show ?thesis
    proof (cases rule: sm_update_cases)
      case stale
      with ok(3) tab show ?thesis by (simp add: table_ok_def)
    next
      case (hit row)
      have rows': "sm_rows db' = sm_rows u"
        by (simp add: ok(3))
      have "map fst (sm_rows u) = map fst (sm_rows db)"
        by (simp add: hit(4) case_prod_beta if_distrib [of fst] cong: if_cong)
      moreover have "1 \<le> sm_version r \<and> (\<exists>m. ok m \<and> row_of ops i r m)" if "(i, r) \<in> set (sm_rows u)" for i r
      proof -
        let ?new = "\<lambda>r. \<lparr>sm_state = agg_state ops m', sm_state_data = j, sm_version = sm_version r + 1,
            sm_expires_at = agg_expires_at ops m'\<rparr>"
        have "\<exists>r0. (i, r0) \<in> set (sm_rows db) \<and> r = (if i = agg_id ops (ld_machine ld) then ?new r0 else r0)"
          by (rule in_map_updateD [where f = ?new]) (rule that [unfolded hit(4)])
        then obtain r0 where "(i, r0) \<in> set (sm_rows db) \<and> r = (if i = agg_id ops (ld_machine ld) then ?new r0 else r0)"
          by (rule exE)
        then have r0: "(i, r0) \<in> set (sm_rows db)"
          "r = (if i = agg_id ops (ld_machine ld) then ?new r0 else r0)"
          by simp_all
        have "1 \<le> sm_version r0 \<and> (\<exists>m. ok m \<and> row_of ops i r0 m)"
          using tab r0(1) by (auto simp: table_ok_def)
        moreover have "row_of ops (agg_id ops (ld_machine ld)) (?new r0) m'"
          using id' j by (simp add: row_of_def)
        ultimately show ?thesis
          using r0(2) ok' by auto
      qed
      ultimately show ?thesis
        using tab by (auto simp: table_ok_def rows')
    qed
  qed
  qed
qed

lemma load_machine:
  assumes "table_ok ops ok db" and "store_load ops i db = (db', Inr ld)"
  shows "ok (ld_machine ld) \<and> agg_id ops (ld_machine ld) = i \<and>
    (\<exists>row. sm_lookup db i = Some row \<and> row_of ops i row (ld_machine ld) \<and> ld_version ld = sm_version row)"
proof -
  obtain row where row: "sm_lookup db i = Some row"
    "agg_unmarshal ops (sm_state_data row) = Inr (ld_machine ld)" "ld_version ld = sm_version row"
    using assms(2) by (rule store_load_InrD)
  have "(i, row) \<in> set (sm_rows db)"
    using row(1) by (simp add: sm_lookup_def map_of_SomeD)
  then obtain m where m: "ok m" "row_of ops i row m"
    using assms(1) by (auto simp: table_ok_def)
  with row have "m = ld_machine ld"
    by (simp add: row_of_def)
  with m row show ?thesis
    by (auto simp: row_of_def)
qed

lemma decode_rows_ok:
  assumes "\<forall>(i, row) \<in> set rows. \<exists>m. ok m \<and> row_of ops i row m"
  shows "\<exists>lds. decode_rows ops (map (\<lambda>(i, row). (i, sm_state_data row, sm_version row)) rows) = Inr lds \<and>
    list_all2 (\<lambda>(i, row) ld. ok (ld_machine ld) \<and> row_of ops i row (ld_machine ld) \<and>
       ld_version ld = sm_version row) rows lds"
  using assms
proof (induction rows)
  case Nil
  then show ?case by simp
next
  case (Cons r rows)
  obtain i row where r: "r = (i, row)"
    by fastforce
  obtain m where m: "ok m" "row_of ops i row m"
    using Cons.prems r by auto
  obtain lds where "decode_rows ops (map (\<lambda>(i, row). (i, sm_state_data row, sm_version row)) rows) = Inr lds"
    "list_all2 (\<lambda>(i, row) ld. ok (ld_machine ld) \<and> row_of ops i row (ld_machine ld) \<and>
       ld_version ld = sm_version row) rows lds"
    using Cons by auto
  with m r show ?case
    by (auto simp: row_of_def)
qed

text \<open>The sweep: no decoding error, and exactly the due machines, earliest deadline first.\<close>

lemma timeout_sweep_due:
  assumes tab: "table_ok ops ok db" and nf: "no_faults db"
  shows "\<exists>lds. snd (timeout_sweep ops now db) = Inr lds \<and>
    distinct (map (agg_id ops \<circ> ld_machine) lds) \<and>
    sorted (map (\<lambda>ld. the (agg_expires_at ops (ld_machine ld))) lds) \<and>
    (\<forall>ld \<in> set lds. ok (ld_machine ld) \<and>
       (\<exists>t. agg_expires_at ops (ld_machine ld) = Some t \<and> t \<le> now) \<and>
       (\<exists>row. sm_lookup db (agg_id ops (ld_machine ld)) = Some row \<and> ld_version ld = sm_version row \<and>
              row_of ops (agg_id ops (ld_machine ld)) row (ld_machine ld))) \<and>
    (\<forall>i row m t. sm_lookup db i = Some row \<longrightarrow> row_of ops i row m \<longrightarrow>
       agg_expires_at ops m = Some t \<longrightarrow> t \<le> now \<longrightarrow> m \<in> ld_machine ` set lds)"
proof -
  define due where "due = sort_key (\<lambda>(i, row). the (sm_expires_at row))
      (filter (\<lambda>(i, row). case sm_expires_at row of None \<Rightarrow> False | Some t \<Rightarrow> t \<le> now) (sm_rows db))"
  have set_due: "set due = {(i, row) \<in> set (sm_rows db). \<exists>t. sm_expires_at row = Some t \<and> t \<le> now}"
    by (auto simp: due_def split: option.splits)
  have lookup: "sm_lookup db i = Some row \<longleftrightarrow> (i, row) \<in> set (sm_rows db)" for i row
    using tab by (simp add: sm_lookup_def table_ok_def)
  have "\<forall>(i, row) \<in> set due. \<exists>m. ok m \<and> row_of ops i row m"
    using tab by (auto simp: set_due table_ok_def)
  then obtain lds where lds: "decode_rows ops (map (\<lambda>(i, row). (i, sm_state_data row, sm_version row)) due) = Inr lds"
    and rel: "list_all2 (\<lambda>(i, row) ld. ok (ld_machine ld) \<and> row_of ops i row (ld_machine ld) \<and>
       ld_version ld = sm_version row) due lds"
    using decode_rows_ok by blast
  have ids: "map (agg_id ops \<circ> ld_machine) lds = map fst due"
    using rel by (induction rule: list_all2_induct) (auto simp: row_of_def)
  have "map (\<lambda>ld. the (agg_expires_at ops (ld_machine ld))) lds = map (\<lambda>(i, row). the (sm_expires_at row)) due"
    using rel by (induction rule: list_all2_induct) (auto simp: row_of_def)
  then have "sorted (map (\<lambda>ld. the (agg_expires_at ops (ld_machine ld))) lds)"
    by (simp add: due_def)
  moreover have "distinct (map (agg_id ops \<circ> ld_machine) lds)"
    using tab unfolding ids by (simp add: due_def table_ok_def distinct_map_fst_sort_filter)
  moreover have "snd (timeout_sweep ops now db) = Inr lds"
    using lds nf by (simp add: timeout_sweep_def pg_exec_ok sm_sweep_sql_def due_def)
  moreover have "\<exists>i row. (i, row) \<in> set due \<and> ok (ld_machine ld) \<and> row_of ops i row (ld_machine ld) \<and>
      ld_version ld = sm_version row" if "ld \<in> set lds" for ld
    using rel that by (fastforce simp: list_all2_conv_all_nth in_set_conv_nth)
  moreover have "\<exists>ld \<in> set lds. row_of ops i row (ld_machine ld)" if "(i, row) \<in> set due" for i row
    using rel that by (fastforce simp: list_all2_conv_all_nth in_set_conv_nth)
  moreover have "m = m'" if "row_of ops i row m" "row_of ops i row m'" for i row m m'
    using that by (simp add: row_of_def)
  ultimately show ?thesis
    unfolding lookup set_due by (intro exI [of _ lds]) (fastforce simp: row_of_def lookup)
qed

end

section \<open>WithRetry\<close>

lemma wrap64_id: "- (2 ^ 63) \<le> x \<Longrightarrow> x < 2 ^ 63 \<Longrightarrow> wrap64 x = x"
  by (simp add: wrap64_def sint_sbintrunc' signed_take_bit_int_eq_self)

lemma next_delay_range: "3 \<le> d \<Longrightarrow> d < 2 ^ 62 \<Longrightarrow> 3 \<le> next_delay d \<and> next_delay d \<le> max_delay"
  by (simp add: next_delay_def Let_def wrap64_id max_delay_def)

text \<open>The calls a retry makes: \<open>tally f\<close> is \<open>f\<close> that also notes its attempt number.\<close>

fun tally ::
  "(nat \<Rightarrow> 's \<Rightarrow> 's \<times> (store_error + 't)) \<Rightarrow> nat \<Rightarrow> 's \<times> nat list \<Rightarrow> ('s \<times> nat list) \<times> (store_error + 't)" where
  "tally f n (s, ns) = (case f n s of (s', res) \<Rightarrow> ((s', ns @ [n]), res))"

lemma retry_loop_calls:
  assumes "retry_loop (tally f) cancelled mx attempt delay (s, ns) = ((s', ns'), res)"
    and "attempt \<le> mx" and "3 \<le> delay" and "delay < 2 ^ 62"
  shows "\<exists>n. attempt \<le> n \<and> n \<le> mx \<and> ns' = ns @ [attempt..<Suc n] \<and>
    res \<noteq> RetryExhausted \<and> res \<noteq> RetryPanic \<and> res \<noteq> RetryZeroAttempts \<and>
    (res = RetryCancelled \<longrightarrow> cancelled n)"
  using assms
proof (induction "mx - attempt" arbitrary: attempt delay s ns)
  case 0
  then have [simp]: "attempt = mx" by simp
  from "0.prems" show ?case
    by (intro exI [of _ mx]) (auto simp: retry_loop.simps [of "tally f" cancelled mx mx delay "(s, ns)"] 
        split: prod.splits sum.splits if_splits)
next
  case (Suc k)
  obtain s1 r where f: "f attempt s = (s1, r)"
    by fastforce
  show ?case
  proof (cases "\<exists>err. r = Inl err \<and> is_stale err \<and> \<not> cancelled attempt")
    case True
    have "attempt \<noteq> mx" "\<not> delay < 3"
      using Suc.hyps(2) Suc.prems(3) by auto
    then have "retry_loop (tally f) cancelled mx (Suc attempt) (next_delay delay) (s1, ns @ [attempt]) =
        ((s', ns'), res)"
      using True Suc.prems(1,2) f
      by (auto simp: retry_loop.simps [of "tally f" cancelled mx attempt delay "(s, ns)"] )
    moreover have "3 \<le> next_delay delay" "next_delay delay < 2 ^ 62"
      using next_delay_range [OF Suc.prems(3,4)] by (simp_all add: max_delay_def)
    moreover have "k = mx - Suc attempt" "Suc attempt \<le> mx"
      using Suc.hyps(2) by arith+
    ultimately have "\<exists>n. Suc attempt \<le> n \<and> n \<le> mx \<and> ns' = (ns @ [attempt]) @ [Suc attempt..<Suc n] \<and>
        res \<noteq> RetryExhausted \<and> res \<noteq> RetryPanic \<and> res \<noteq> RetryZeroAttempts \<and>
        (res = RetryCancelled \<longrightarrow> cancelled n)"
      by (intro Suc.hyps(1))
    then obtain n where n: "Suc attempt \<le> n" "n \<le> mx" "ns' = (ns @ [attempt]) @ [Suc attempt..<Suc n]"
      "res \<noteq> RetryExhausted" "res \<noteq> RetryPanic" "res \<noteq> RetryZeroAttempts" "res = RetryCancelled \<longrightarrow> cancelled n"
      by blast
    have "ns' = ns @ [attempt..<Suc n]"
      using n(1,3) by (simp add: upt_conv_Cons [of attempt] del: upt_Suc)
    with n show ?thesis
      by (intro exI [of _ n]) simp
  next
    case False
    then show ?thesis
      using Suc.prems f
      by (intro exI [of _ attempt])
         (auto simp: retry_loop.simps [of "tally f" cancelled mx attempt delay "(s, ns)"] 
           split: sum.splits if_splits)
  qed
qed

end
