(* ===== verification/Json.thy ===== *)
theory Json
  imports Prelude
begin

text \<open>
  The part of \<^verbatim>\<open>encoding/json\<close> that the modelled structs use: a struct is written as an object with
  its fields in declaration order, a field tagged \<^verbatim>\<open>omitempty\<close> is left out when it is empty, and
  reading leaves a missing or null field at its zero value and fails on a value of another kind.
  Documents are typed: a string that holds a UUID or an RFC 3339 time stays \<open>JUuid\<close> or \<open>JTime\<close>.
  (The case-insensitive match of field names, and times outside the years 0 to 9999, are left out.)
\<close>

text \<open>A \<^verbatim>\<open>json.RawMessage\<close>: empty, a valid document, or bytes that are no JSON.\<close>

datatype raw_json = RawEmpty | Raw json | RawInvalid string

fun raw_valid :: "raw_json \<Rightarrow> bool" where
  "raw_valid (RawInvalid _) = False"
| "raw_valid _ = True"

abbreviation zero_time :: instant where
  "zero_time \<equiv> 0"

section \<open>Reading fields\<close>

text \<open>The last of several fields with one name is the one that counts.\<close>

definition json_field :: "string \<Rightarrow> (string \<times> json) list \<Rightarrow> json" where
  "json_field k kvs = (case map_of (rev kvs) k of None \<Rightarrow> JNull | Some j \<Rightarrow> j)"

definition wrong_kind :: string where
  "wrong_kind = ''json: cannot unmarshal value into Go value''"

fun dec_obj :: "json \<Rightarrow> string + (string \<times> json) list" where
  "dec_obj (JObj kvs) = Inr kvs"
| "dec_obj JNull = Inr []"
| "dec_obj _ = Inl wrong_kind"

fun dec_str :: "json \<Rightarrow> string + string" where
  "dec_str (JStr s) = Inr s"
| "dec_str JNull = Inr []"
| "dec_str _ = Inl wrong_kind"

fun dec_uuid :: "json \<Rightarrow> string + uuid" where
  "dec_uuid (JUuid u) = Inr u"
| "dec_uuid JNull = Inr 0"
| "dec_uuid _ = Inl wrong_kind"

fun dec_time_ptr :: "json \<Rightarrow> string + instant option" where
  "dec_time_ptr (JTime t) = Inr (Some t)"
| "dec_time_ptr JNull = Inr None"
| "dec_time_ptr _ = Inl wrong_kind"

fun dec_str_ptr :: "json \<Rightarrow> string + string option" where
  "dec_str_ptr (JStr s) = Inr (Some s)"
| "dec_str_ptr JNull = Inr None"
| "dec_str_ptr _ = Inl wrong_kind"

text \<open>A \<^verbatim>\<open>uint32\<close> field refuses numbers out of its range.\<close>

fun dec_uint32 :: "json \<Rightarrow> string + 32 word" where
  "dec_uint32 (JNum n) = (if 0 \<le> n \<and> n < 2 ^ 32 then Inr (word_of_int n) else Inl wrong_kind)"
| "dec_uint32 JNull = Inr 0"
| "dec_uint32 _ = Inl wrong_kind"

fun dec_bool :: "json \<Rightarrow> string + bool" where
  "dec_bool (JBool b) = Inr b"
| "dec_bool JNull = Inr False"
| "dec_bool _ = Inl wrong_kind"

fun dec_time :: "json \<Rightarrow> string + instant" where
  "dec_time (JTime t) = Inr t"
| "dec_time JNull = Inr 0"
| "dec_time _ = Inl wrong_kind"

fun dec_uint64 :: "json \<Rightarrow> string + 64 word" where
  "dec_uint64 (JNum n) = (if 0 \<le> n \<and> n < 2 ^ 64 then Inr (word_of_int n) else Inl wrong_kind)"
| "dec_uint64 JNull = Inr 0"
| "dec_uint64 _ = Inl wrong_kind"

fun dec_str_items :: "json list \<Rightarrow> string + string list" where
  "dec_str_items [] = Inr []"
| "dec_str_items (j # js) =
     and_then (dec_str j) (\<lambda>s. and_then (dec_str_items js) (\<lambda>ss. Inr (s # ss)))"

text \<open>A \<^verbatim>\<open>[]string\<close>: \<open>None\<close> is the nil slice, written as null.\<close>

fun dec_str_slice :: "json \<Rightarrow> string + string list option" where
  "dec_str_slice (JArr js) = and_then (dec_str_items js) (\<lambda>ss. Inr (Some ss))"
| "dec_str_slice JNull = Inr None"
| "dec_str_slice _ = Inl wrong_kind"

text \<open>A missing field leaves a raw message empty, a null is kept as the document null.\<close>

definition dec_raw :: "string \<Rightarrow> (string \<times> json) list \<Rightarrow> raw_json" where
  "dec_raw k kvs = (case map_of (rev kvs) k of None \<Rightarrow> RawEmpty | Some j \<Rightarrow> Raw j)"

section \<open>Writing fields\<close>

definition enc_str_slice :: "string list option \<Rightarrow> json" where
  "enc_str_slice ss = (case ss of None \<Rightarrow> JNull | Some xs \<Rightarrow> JArr (map JStr xs))"

definition omit_none :: "string \<Rightarrow> ('a \<Rightarrow> json) \<Rightarrow> 'a option \<Rightarrow> (string \<times> json) list" where
  "omit_none k f x = (case x of None \<Rightarrow> [] | Some v \<Rightarrow> [(k, f v)])"

text \<open>Marshalling a raw message that is no JSON is the error of the whole \<^verbatim>\<open>json.Marshal\<close>.\<close>

fun omit_raw :: "string \<Rightarrow> raw_json \<Rightarrow> string + (string \<times> json) list" where
  "omit_raw k RawEmpty = Inr []"
| "omit_raw k (Raw j) = Inr [(k, j)]"
| "omit_raw k (RawInvalid msg) = Inl msg"

lemma dec_str_items_map [simp]: "dec_str_items (map JStr xs) = Inr xs"
  by (induction xs) auto

lemma dec_enc_str_slice [simp]: "dec_str_slice (enc_str_slice ss) = Inr ss"
  by (cases ss) (simp_all add: enc_str_slice_def)

lemma dec_uint32_uint [simp]: "dec_uint32 (JNum (uint (w :: 32 word))) = Inr w"
  using uint_lt2p [of w] by simp

lemma raw_valid_cases:
  "raw_valid r \<longleftrightarrow> r = RawEmpty \<or> (\<exists>j. r = Raw j)"
  by (cases r) auto

lemma dec_option_field:
  "dec_time_ptr (case t of None \<Rightarrow> JNull | Some v \<Rightarrow> JTime v) = Inr t"
  "dec_str_ptr (case s of None \<Rightarrow> JNull | Some v \<Rightarrow> JStr v) = Inr s"
  by (cases t; simp) (cases s; simp)

lemma map_of_rev_omit_none:
  "map_of (rev (omit_none k f x)) k' = (if k = k' then map_option f x else None)"
  by (cases x) (auto simp: omit_none_def)

lemma collapse_lookup:
  "(case (case t of None \<Rightarrow> None | Some x \<Rightarrow> Some (f x)) of None \<Rightarrow> JNull | Some j \<Rightarrow> j) =
   (case t of None \<Rightarrow> JNull | Some v \<Rightarrow> f v)"
  by (cases t) auto

lemmas json_lookup = json_field_def dec_raw_def map_add_def map_of_rev_omit_none collapse_lookup dec_option_field

text \<open>The field lists that \<open>omitempty\<close> produces, looked up.\<close>

lemma omit_none_simps [simp]: "omit_none k f None = []" "omit_none k f (Some v) = [(k, f v)]"
  by (simp_all add: omit_none_def)

end
