(* ===== verification/Lifecycle.thy ===== *)
theory Lifecycle
  imports Prelude
begin

text \<open>
  The contract of every transition table of the repository (\<^verbatim>\<open>CanTransitionTo\<close>,
  \<^verbatim>\<open>IsValidTransition\<close>, \<^verbatim>\<open>canTransition\<close>): \<open>can s t\<close> is the table, and a terminal state admits no
  move to another state. The tables are executable functions on the wire strings or on the
  enumeration; each component interprets the locale on its own table.
\<close>

definition moves :: "('s \<Rightarrow> 's \<Rightarrow> bool) \<Rightarrow> 's \<Rightarrow> 's \<Rightarrow> bool" where
  "moves can = (\<lambda>s t. can s t)\<^sup>*\<^sup>*"

lemma moves_refl [simp]: "moves can s s"
  by (simp add: moves_def)

lemma moves_step: "moves can s t \<Longrightarrow> can t u \<Longrightarrow> moves can s u"
  unfolding moves_def by (rule rtranclp.rtrancl_into_rtrancl)

lemma moves_induct [consumes 1, case_names refl step]:
  assumes "moves can s t" and "P s" and "\<And>t u. moves can s t \<Longrightarrow> P t \<Longrightarrow> can t u \<Longrightarrow> P u"
  shows "P t"
  using assms(1) unfolding moves_def
  by (induction rule: rtranclp_induct) (auto intro: assms(2,3) simp: moves_def)

lemma moves_converse_induct [consumes 1, case_names refl step]:
  assumes "moves can s t" and "P t" and "\<And>s u. can s u \<Longrightarrow> moves can u t \<Longrightarrow> P u \<Longrightarrow> P s"
  shows "P s"
  using assms(1) unfolding moves_def
  by (induction rule: converse_rtranclp_induct) (auto intro: assms(2,3) simp: moves_def)

locale lifecycle =
  fixes can :: "'s \<Rightarrow> 's \<Rightarrow> bool"
    and terminal :: "'s \<Rightarrow> bool"
  assumes terminal_stuck: "terminal s \<Longrightarrow> can s t \<Longrightarrow> t = s"
begin

lemma terminal_forever: "terminal s \<Longrightarrow> moves can s t \<Longrightarrow> t = s"
proof -
  assume t: "terminal s" and m: "moves can s t"
  from m show "t = s"
    by (induction rule: moves_induct) (use t terminal_stuck in auto)
qed

text \<open>Once two runs from one state end in terminal states along one path, they end in the same state.\<close>

lemma terminal_unique: "terminal t \<Longrightarrow> moves can s t \<Longrightarrow> moves can t u \<Longrightarrow> terminal u \<and> moves can s u"
  using terminal_forever by blast

end

text \<open>
  A table whose proper moves climb a rank: then no run visits a state again after leaving it, and a
  run makes at most as many proper moves as the ranks allow.
\<close>

locale ranked_lifecycle = lifecycle +
  fixes rank :: "'s \<Rightarrow> nat"
  assumes climbs: "can s t \<Longrightarrow> t \<noteq> s \<Longrightarrow> rank s < rank t"
begin

lemma moves_rank: "moves can s t \<Longrightarrow> t = s \<or> rank s < rank t"
proof (induction rule: moves_induct)
  case (step t u)
  then show ?case
    using climbs [of t u] by (cases "u = t") auto
qed simp

lemma no_return: "moves can s t \<Longrightarrow> moves can t s \<Longrightarrow> t = s"
  using moves_rank [of s t] moves_rank [of t s] by auto

end

end
