(* ===== verification/Approvals.thy ===== *)
theory Approvals
  imports State_Machine_Proofs Outbox Json Lifecycle
begin

text \<open>
  Human approvals of \<^verbatim>\<open>workflow-automation-service\<close>: the aggregate of
  \<^verbatim>\<open>internal/approvals/state_machine.go\<close> on the store of \<open>State_Machine\<close>, and the single-shot
  sweep of \<^verbatim>\<open>cmd/approvals-timeout-sweep/main.go\<close>, which expires overdue requests and publishes
  \<^verbatim>\<open>approval.expired.v1\<close> through the outbox. A state is a Go string (the JSON reader accepts any), and
  so is an event kind. \<^verbatim>\<open>time.Now()\<close> is an input of each \<^verbatim>\<open>Apply\<close>.
\<close>

section \<open>States\<close>

abbreviation ap_pending :: string where "ap_pending \<equiv> ''pending''"
abbreviation ap_approved :: string where "ap_approved \<equiv> ''approved''"
abbreviation ap_rejected :: string where "ap_rejected \<equiv> ''rejected''"
abbreviation ap_expired :: string where "ap_expired \<equiv> ''expired''"
abbreviation ap_escalated :: string where "ap_escalated \<equiv> ''escalated''"

definition approval_parse_state :: "string \<Rightarrow> string + string" where
  "approval_parse_state v =
     (if v = ''pending'' then Inr ap_pending
      else if v = ''approved'' then Inr ap_approved
      else if v = ''rejected'' then Inr ap_rejected
      else if v = ''expired'' then Inr ap_expired
      else if v = ''escalated'' then Inr ap_escalated
      else Inl (''unknown approval request state '' @ go_quote v))"

definition approval_terminal :: "string \<Rightarrow> bool" where
  "approval_terminal s \<longleftrightarrow> s = ap_approved \<or> s = ap_rejected \<or> s = ap_expired"

definition approval_can_transition :: "string \<Rightarrow> string \<Rightarrow> bool" where
  "approval_can_transition s next \<longleftrightarrow>
     s = next \<or>
     (s = ap_pending \<and> next = ap_approved) \<or> (s = ap_pending \<and> next = ap_rejected) \<or>
     (s = ap_pending \<and> next = ap_expired) \<or> (s = ap_pending \<and> next = ap_escalated) \<or>
     (s = ap_escalated \<and> next = ap_approved) \<or> (s = ap_escalated \<and> next = ap_rejected) \<or>
     (s = ap_escalated \<and> next = ap_expired)"

section \<open>Requests and events\<close>

record approval_event =
  ae_kind :: string
  ae_decided_by :: string
  ae_comment :: "string option"
  ae_expired_at :: instant
  ae_escalated_at :: instant

record approval_request =
  ap_id :: uuid
  ap_tenant_id :: string
  ap_subject :: string
  ap_approver_set :: "string list option"
  ap_action_payload :: raw_json
  ap_correlation_id :: uuid
  ap_state :: string
  ap_expires_at :: "instant option"
  ap_decided_by :: "string option"
  ap_decided_at :: "instant option"
  ap_comment :: "string option"

definition new_approval ::
  "uuid \<Rightarrow> string \<Rightarrow> string \<Rightarrow> string list option \<Rightarrow> raw_json \<Rightarrow> uuid \<Rightarrow> instant option \<Rightarrow> approval_request" where
  "new_approval i tenant subject approvers payload correlation expires =
     \<lparr>ap_id = i, ap_tenant_id = tenant, ap_subject = subject, ap_approver_set = approvers,
      ap_action_payload = payload, ap_correlation_id = correlation, ap_state = ap_pending,
      ap_expires_at = expires, ap_decided_by = None, ap_decided_at = None, ap_comment = None\<rparr>"

text \<open>
  \<^verbatim>\<open>Apply\<close>: the switch first changes the receiver's other fields and picks the next state, then the
  table is consulted, and only then the state is changed.
\<close>

definition approval_switch ::
  "instant \<Rightarrow> approval_request \<Rightarrow> approval_event \<Rightarrow> (approval_request \<times> string) option" where
  "approval_switch now r e =
     (if (ap_state r = ap_pending \<or> ap_state r = ap_escalated) \<and> ae_kind e = ''approve'' then
        Some (r\<lparr>ap_decided_by := Some (ae_decided_by e), ap_decided_at := Some now,
                ap_comment := ae_comment e, ap_expires_at := None\<rparr>, ap_approved)
      else if (ap_state r = ap_pending \<or> ap_state r = ap_escalated) \<and> ae_kind e = ''reject'' then
        Some (r\<lparr>ap_decided_by := Some (ae_decided_by e), ap_decided_at := Some now,
                ap_comment := ae_comment e, ap_expires_at := None\<rparr>, ap_rejected)
      else if (ap_state r = ap_pending \<or> ap_state r = ap_escalated) \<and> ae_kind e = ''expire'' then
        (let expired_at = (if ae_expired_at e = zero_time then now else ae_expired_at e)
         in Some (r\<lparr>ap_decided_at := Some expired_at, ap_expires_at := None\<rparr>, ap_expired))
      else if ap_state r = ap_pending \<and> ae_kind e = ''escalate'' then Some (r, ap_escalated)
      else None)"

definition approval_no_transition :: "string \<Rightarrow> string \<Rightarrow> string" where
  "approval_no_transition state kind = ''no ApprovalRequest transition from '' @ state @ '' for event '' @ kind"

definition approval_disallowed :: "string \<Rightarrow> string \<Rightarrow> string" where
  "approval_disallowed state next = ''ApprovalRequest produced disallowed transition: '' @ state @ arrow @ next"

definition approval_apply ::
  "approval_request \<Rightarrow> instant \<times> approval_event \<Rightarrow> approval_request \<times> string option" where
  "approval_apply r ne =
     (case ne of (now, e) \<Rightarrow>
        (case approval_switch now r e of
           None \<Rightarrow> (r, Some (approval_no_transition (ap_state r) (ae_kind e)))
         | Some (r', next) \<Rightarrow>
             if \<not> approval_can_transition (ap_state r') next then
               (r', Some (approval_disallowed (ap_state r') next))
             else (r'\<lparr>ap_state := next\<rparr>, None)))"

section \<open>JSON\<close>

definition approval_marshal :: "approval_request \<Rightarrow> string + json" where
  "approval_marshal r =
     and_then (omit_raw ''action_payload'' (ap_action_payload r)) (\<lambda>payload.
       Inr (JObj ([(''id'', JUuid (ap_id r)), (''tenant_id'', JStr (ap_tenant_id r)),
                   (''subject'', JStr (ap_subject r)), (''approver_set'', enc_str_slice (ap_approver_set r))] @
                  payload @
                  [(''correlation_id'', JUuid (ap_correlation_id r)), (''state'', JStr (ap_state r))] @
                  omit_none ''expires_at'' JTime (ap_expires_at r) @
                  omit_none ''decided_by'' JStr (ap_decided_by r) @
                  omit_none ''decided_at'' JTime (ap_decided_at r) @
                  omit_none ''comment'' JStr (ap_comment r))))"

definition approval_unmarshal :: "json \<Rightarrow> string + approval_request" where
  "approval_unmarshal j =
     and_then (dec_obj j) (\<lambda>obj. 
     and_then (dec_uuid (json_field ''id'' obj)) (\<lambda>i.
     and_then (dec_str (json_field ''tenant_id'' obj)) (\<lambda>tenant.
     and_then (dec_str (json_field ''subject'' obj)) (\<lambda>subject.
     and_then (dec_str_slice (json_field ''approver_set'' obj)) (\<lambda>approvers.
     and_then (dec_uuid (json_field ''correlation_id'' obj)) (\<lambda>correlation.
     and_then (dec_str (json_field ''state'' obj)) (\<lambda>state.
     and_then (dec_time_ptr (json_field ''expires_at'' obj)) (\<lambda>expires.
     and_then (dec_str_ptr (json_field ''decided_by'' obj)) (\<lambda>decided_by.
     and_then (dec_time_ptr (json_field ''decided_at'' obj)) (\<lambda>decided_at.
     and_then (dec_str_ptr (json_field ''comment'' obj)) (\<lambda>comment.
       Inr \<lparr>ap_id = i, ap_tenant_id = tenant, ap_subject = subject, ap_approver_set = approvers,
            ap_action_payload = dec_raw ''action_payload'' obj, ap_correlation_id = correlation,
            ap_state = state, ap_expires_at = expires, ap_decided_by = decided_by,
            ap_decided_at = decided_at, ap_comment = comment\<rparr>)))))))))))"

definition approval_ops :: "(approval_request, instant \<times> approval_event) aggregate_ops" where
  "approval_ops = \<lparr>agg_apply = approval_apply, agg_state = ap_state, agg_id = ap_id,
     agg_expires_at = ap_expires_at, agg_marshal = approval_marshal, agg_unmarshal = approval_unmarshal\<rparr>"

definition approval_ok :: "approval_request \<Rightarrow> bool" where
  "approval_ok r \<longleftrightarrow> raw_valid (ap_action_payload r)"

lemma approval_ops_simps [simp]:
  "agg_apply approval_ops = approval_apply" "agg_state approval_ops = ap_state"
  "agg_id approval_ops = ap_id" "agg_expires_at approval_ops = ap_expires_at"
  "agg_marshal approval_ops = approval_marshal" "agg_unmarshal approval_ops = approval_unmarshal"
  by (simp_all add: approval_ops_def)

lemma approval_roundtrip:
  assumes "approval_ok r"
  shows "\<exists>j. approval_marshal r = Inr j \<and> approval_unmarshal j = Inr r"
proof -
  from assms consider "ap_action_payload r = RawEmpty" | d where "ap_action_payload r = Raw d"
    by (auto simp: approval_ok_def raw_valid_cases)
  then show ?thesis
    by cases (simp_all add: approval_marshal_def approval_unmarshal_def json_lookup cong: option.case_cong)
qed

section \<open>What Apply accepts\<close>

text \<open>The second guard of \<^verbatim>\<open>Apply\<close> never fires: the switch only picks moves of the table.\<close>

lemma approval_switch_SomeD:
  assumes "approval_switch now r e = Some (r', next)"
  shows "ap_state r' = ap_state r \<and> ap_id r' = ap_id r \<and> ap_action_payload r' = ap_action_payload r \<and>
    (ap_state r = ap_pending \<or> ap_state r = ap_escalated) \<and> ap_state r \<noteq> next \<and>
    approval_can_transition (ap_state r) next \<and>
    (approval_terminal next \<longrightarrow> ap_expires_at r' = None \<and> ap_decided_at r' \<noteq> None)"
  using assms
  by (auto simp: approval_switch_def Let_def approval_can_transition_def approval_terminal_def split: if_splits)

lemma approval_apply_cases:
  assumes "approval_apply r (now, e) = (r', res)"
  obtains (refused) msg where "approval_switch now r e = None" "r' = r" "res = Some msg"
    | (accepted) r1 s where "approval_switch now r e = Some (r1, s)" "r' = r1\<lparr>ap_state := s\<rparr>" "res = None"
proof (cases "approval_switch now r e")
  case None
  then have "r' = r \<and> res = Some (approval_no_transition (ap_state r) (ae_kind e))"
    using assms by (auto simp: approval_apply_def)
  then show ?thesis
    using refused [OF None] by blast
next
  case (Some rs)
  obtain r1 s where rs: "rs = (r1, s)"
    by fastforce
  have sw: "approval_switch now r e = Some (r1, s)"
    using Some rs by simp
  have can: "approval_can_transition (ap_state r1) s"
    using approval_switch_SomeD [OF sw] by simp
  have "r' = r1\<lparr>ap_state := s\<rparr>" "res = None"
    using assms sw can by (auto simp: approval_apply_def)
  then show ?thesis
    by (rule accepted [OF sw])
qed

interpretation approval: aggregate approval_ops approval_ok
proof unfold_locales
  fix m m' :: approval_request and e msg
  assume "agg_apply approval_ops m e = (m', Some msg)"
  then show "m' = m"
    by (cases e) (auto elim: approval_apply_cases)
next
  fix m m' :: approval_request and e
  assume "agg_apply approval_ops m e = (m', None)"
  then show "agg_id approval_ops m' = agg_id approval_ops m"
    by (cases e) (auto elim!: approval_apply_cases dest: approval_switch_SomeD)
next
  fix m m' :: approval_request and e j
  assume "approval_ok m" "agg_apply approval_ops m e = (m', None)"
  then show "approval_ok m'"
    by (cases e) (auto elim!: approval_apply_cases dest: approval_switch_SomeD simp: approval_ok_def)
next
  fix m assume "approval_ok m"
  then show "\<exists>j. agg_marshal approval_ops m = Inr j \<and> agg_unmarshal approval_ops j = Inr m"
    using approval_roundtrip by simp
qed

definition approval_rank :: "string \<Rightarrow> nat" where
  "approval_rank s = (if s = ap_pending then 0 else if s = ap_escalated then 1 else 2)"

interpretation approval_table: ranked_lifecycle approval_can_transition approval_terminal approval_rank
  by unfold_locales (auto simp: approval_can_transition_def approval_terminal_def approval_rank_def)

end
