(* ===== verification/Approvals_Sweep.thy ===== *)
theory Approvals_Sweep
  imports Approvals
begin

text \<open>
  The expiry job of \<^verbatim>\<open>cmd/approvals-timeout-sweep/main.go\<close>: one \<^verbatim>\<open>TimeoutSweep\<close>, then for each
  pending candidate the \<^verbatim>\<open>Expire\<close> event (one auto-committed statement) and, in a transaction of its
  own, the outbox event. The database holds the approvals and the committed outbox.
\<close>

record approvals_db = sm_db +
  ap_outbox :: "uuid \<rightharpoonup> outbox_event"
  ap_wal :: "wal_entry list"

section \<open>The expired event\<close>

definition derive_outbox_event_id :: "uuid_lib \<Rightarrow> uuid \<Rightarrow> string \<Rightarrow> uuid" where
  "derive_outbox_event_id ul approval_id kind = new_sha1 ul (uuid_bytes approval_id @ ''|'' @ kind)"

definition expired_payload :: "approval_request \<Rightarrow> instant \<Rightarrow> instant \<Rightarrow> json" where
  "expired_payload m expired_at deadline =
     JObj [(''approval_id'', JUuid (ap_id m)), (''tenant_id'', JStr (ap_tenant_id m)),
           (''correlation_id'', JUuid (ap_correlation_id m)), (''expired_at'', JTime expired_at),
           (''deadline'', JTime deadline)]"

definition expired_outbox_event ::
  "uuid_lib \<Rightarrow> approval_request \<Rightarrow> instant \<Rightarrow> instant \<Rightarrow> outbox_event" where
  "expired_outbox_event ul m expired_at deadline =
     (let out = new_outbox_event (derive_outbox_event_id ul (ap_id m) ''expired'') ''approval_request''
                  (uuid_string ul (ap_id m)) ''approval.expired.v1'' (expired_payload m expired_at deadline);
          out = with_header out ''x-audit-correlation-id'' (uuid_string ul (ap_correlation_id m));
          out = with_header out ''ol-job'' ''approvals/timeout-sweep'';
          out = with_header out ''ol-run-id'' (uuid_string ul (ap_id m))
      in with_header out ''ol-producer'' ''approvals-timeout-sweep'')"

section \<open>The job\<close>

datatype sweep_error =
    ApplyExpireFailed store_error
  | BeginTx string
  | OutboxEnqueue string
  | CommitTx string

definition expire_event :: "instant \<Rightarrow> approval_event" where
  "expire_event expired_at =
     \<lparr>ae_kind = ''expire'', ae_decided_by = [], ae_comment = None, ae_expired_at = expired_at,
      ae_escalated_at = zero_time\<rparr>"

text \<open>The second step: begin, enqueue, commit. What is not committed is rolled back.\<close>

definition publish_expired :: "outbox_event \<Rightarrow> approvals_db \<Rightarrow> approvals_db \<times> sweep_error option" where
  "publish_expired e db =
     (case pg_exec (\<lambda>db. (db, ())) db of
        (db1, Inl msg) \<Rightarrow> (db1, Some (BeginTx msg))
      | (db1, Inr _) \<Rightarrow>
          (let tx = \<lparr>pg_clock = pg_clock db1, pg_fault = pg_fault db1,
                     outbox_events = ap_outbox db1, wal = ap_wal db1\<rparr>
           in case enqueue e tx of
                (tx1, Some msg) \<Rightarrow> (db1\<lparr>pg_clock := pg_clock tx1\<rparr>, Some (OutboxEnqueue msg))
              | (tx1, None) \<Rightarrow>
                  (case pg_exec (\<lambda>db. (db\<lparr>ap_outbox := outbox_events tx1, ap_wal := wal tx1\<rparr>, ()))
                          (db1\<lparr>pg_clock := pg_clock tx1\<rparr>) of
                     (db2, Inl msg) \<Rightarrow> (db2, Some (CommitTx msg))
                   | (db2, Inr _) \<Rightarrow> (db2, None))))"

text \<open>\<open>ticks\<close> is the clock that \<^verbatim>\<open>Apply\<close> reads, by the number of statements run so far.\<close>

definition transition_and_publish ::
  "uuid_lib \<Rightarrow> (nat \<Rightarrow> instant) \<Rightarrow> approval_request loaded \<Rightarrow> instant \<Rightarrow> instant \<Rightarrow> approvals_db \<Rightarrow>
   approvals_db \<times> sweep_error option" where
  "transition_and_publish ul ticks ld expired_at deadline db =
     (case store_apply approval_ops ld (ticks (pg_clock db), expire_event expired_at) db of
        (db1, Inl err) \<Rightarrow> (db1, Some (ApplyExpireFailed err))
      | (db1, Inr _) \<Rightarrow> publish_expired (expired_outbox_event ul (ld_machine ld) expired_at deadline) db1)"

definition deadline_of :: "instant \<Rightarrow> approval_request \<Rightarrow> instant" where
  "deadline_of now m = (case ap_expires_at m of None \<Rightarrow> now | Some t \<Rightarrow> t)"

record sweep_counts =
  n_expired :: "32 word"
  n_skipped :: "32 word"
  n_failed :: "32 word"

fun sweep_loop ::
  "uuid_lib \<Rightarrow> (nat \<Rightarrow> instant) \<Rightarrow> instant \<Rightarrow> approval_request loaded list \<Rightarrow> sweep_counts \<Rightarrow>
   approvals_db \<Rightarrow> approvals_db \<times> sweep_counts" where
  "sweep_loop ul ticks now [] c db = (db, c)"
| "sweep_loop ul ticks now (ld # lds) c db =
     (if ap_state (ld_machine ld) \<noteq> ap_pending then
        sweep_loop ul ticks now lds (c\<lparr>n_skipped := n_skipped c + 1\<rparr>) db
      else
        (case transition_and_publish ul ticks ld now (deadline_of now (ld_machine ld)) db of
           (db', Some _) \<Rightarrow> sweep_loop ul ticks now lds (c\<lparr>n_failed := n_failed c + 1\<rparr>) db'
         | (db', None) \<Rightarrow> sweep_loop ul ticks now lds (c\<lparr>n_expired := n_expired c + 1\<rparr>) db'))"

text \<open>The whole run: \<open>Inl\<close> is the exit with status 1 after a failed sweep query.\<close>

definition approvals_sweep ::
  "uuid_lib \<Rightarrow> (nat \<Rightarrow> instant) \<Rightarrow> instant \<Rightarrow> approvals_db \<Rightarrow> approvals_db \<times> (store_error + sweep_counts)" where
  "approvals_sweep ul ticks now db =
     (case timeout_sweep approval_ops now db of
        (db1, Inl err) \<Rightarrow> (db1, Inl err)
      | (db1, Inr lds) \<Rightarrow>
          (case sweep_loop ul ticks now lds \<lparr>n_expired = 0, n_skipped = 0, n_failed = 0\<rparr> db1 of
             (db2, c) \<Rightarrow> (db2, Inr c)))"

section \<open>One candidate\<close>

definition expired_machine :: "instant \<Rightarrow> approval_request \<Rightarrow> approval_request" where
  "expired_machine now m = m\<lparr>ap_decided_at := Some now, ap_expires_at := None, ap_state := ap_expired\<rparr>"

definition expired_row :: "instant \<Rightarrow> approval_request loaded \<Rightarrow> sm_row" where
  "expired_row now ld =
     \<lparr>sm_state = ap_expired, sm_state_data = projr (approval_marshal (expired_machine now (ld_machine ld))),
      sm_version = ld_version ld + 1, sm_expires_at = None\<rparr>"

lemma expired_machine_simps [simp]:
  "ap_id (expired_machine now m) = ap_id m" "ap_state (expired_machine now m) = ap_expired"
  "ap_expires_at (expired_machine now m) = None"
  "ap_action_payload (expired_machine now m) = ap_action_payload m"
  by (simp_all add: expired_machine_def)

lemma apply_expire:
  assumes "ap_state m = ap_pending" and "now \<noteq> zero_time"
  shows "approval_apply m (t, expire_event now) = (expired_machine now m, None)"
  using assms
  by (simp add: approval_apply_def approval_switch_def expire_event_def approval_can_transition_def
      expired_machine_def)

text \<open>Which statement of one candidate fails decides what is left behind.\<close>

lemma store_apply_expire:
  assumes p: "ap_state (ld_machine ld) = ap_pending" and now: "now \<noteq> zero_time"
    and ok: "approval_ok (ld_machine ld)"
    and row: "sm_lookup db (ap_id (ld_machine ld)) = Some row" "sm_version row = ld_version ld"
    and nf: "pg_fault db (pg_clock db) = None"
  shows "\<exists>db'. store_apply approval_ops ld (t, expire_event now) db =
      (db', Inr \<lparr>ld_machine = expired_machine now (ld_machine ld), ld_version = ld_version ld + 1\<rparr>) \<and>
    sm_lookup db' = (sm_lookup db)(ap_id (ld_machine ld) \<mapsto> expired_row now ld) \<and>
    pg_clock db' = Suc (pg_clock db) \<and> pg_fault db' = pg_fault db \<and> sm_db.more db' = sm_db.more db"
proof -
  have "approval_ok (expired_machine now (ld_machine ld))"
    using ok by (simp add: approval_ok_def)
  then obtain j where j: "approval_marshal (expired_machine now (ld_machine ld)) = Inr j"
    using approval_roundtrip by blast
  have "agg_apply approval_ops (ld_machine ld) (t, expire_event now) = (expired_machine now (ld_machine ld), None)"
    using apply_expire [OF p now] by simp
  from store_apply_ok [OF this, of j db row] j row nf show ?thesis
    by (simp add: expired_row_def)
qed

lemma approvals_more:
  "sm_db.more db' = sm_db.more db \<Longrightarrow> ap_outbox db' = ap_outbox db \<and> ap_wal db' = ap_wal db"
  for db db' :: approvals_db
  by (cases db; cases db') simp

lemma sm_lookup_clock [simp]:
  "sm_lookup (db\<lparr>pg_clock := n\<rparr>) = sm_lookup db"
  "sm_lookup (a\<lparr>ap_outbox := x, ap_wal := y, pg_clock := n\<rparr>) = sm_lookup a"
  for a :: approvals_db
  by (simp_all add: sm_lookup_def fun_eq_iff)

lemma publish_expired_ok:
  assumes nf: "no_faults db" and empty: "ap_outbox db = Map.empty"
  shows "\<exists>db'. publish_expired e db = (db', None) \<and> sm_lookup db' = sm_lookup db \<and>
    ap_outbox db' = Map.empty \<and> relayed (ap_wal db') = relayed (ap_wal db) @ [e] \<and> no_faults db'"
proof -
  define tx :: outbox_tx where "tx = \<lparr>pg_clock = Suc (pg_clock db), pg_fault = pg_fault db,
      outbox_events = ap_outbox db, wal = ap_wal db\<rparr>"
  have nftx: "no_faults tx"
    using nf by (simp add: no_faults_def tx_def)
  obtain tx1 where tx1: "enqueue e tx = (tx1, None)"
    using enqueue_ok_fresh [OF nftx] empty by (auto simp: tx_def)
  have fresh: "outbox_events tx1 = Map.empty" "relayed (wal tx1) = relayed (ap_wal db) @ [e]"
    using enqueue_fresh [OF tx1] empty by (simp_all add: tx_def)
  have nf1: "no_faults tx1" and fault1: "pg_fault tx1 = pg_fault db"
    using enqueue_no_faults [OF tx1 nftx] enqueue_fault [OF tx1] by (simp_all add: tx_def)
  then have nf1': "pg_fault db n = None" if "pg_clock tx1 \<le> n" for n
    using that by (simp add: no_faults_def)
  have "publish_expired e db = (db\<lparr>pg_clock := Suc (pg_clock tx1), ap_outbox := outbox_events tx1, ap_wal := wal tx1\<rparr>, None)"
    using nf nf1' tx1 [unfolded tx_def] by (simp add: publish_expired_def pg_exec_def no_faults_def Let_def)
  then show ?thesis
    using fresh nf1' by (simp add: no_faults_def sm_lookup_def fun_eq_iff)
qed

lemma transition_and_publish_ok:
  assumes p: "ap_state (ld_machine ld) = ap_pending" and now: "now \<noteq> zero_time"
    and ok: "approval_ok (ld_machine ld)"
    and row: "sm_lookup db (ap_id (ld_machine ld)) = Some row" "sm_version row = ld_version ld"
    and nf: "no_faults db" and empty: "ap_outbox db = Map.empty"
  shows "\<exists>db'. transition_and_publish ul ticks ld now d db = (db', None) \<and>
    sm_lookup db' = (sm_lookup db)(ap_id (ld_machine ld) \<mapsto> expired_row now ld) \<and>
    ap_outbox db' = Map.empty \<and> no_faults db' \<and>
    relayed (ap_wal db') = relayed (ap_wal db) @ [expired_outbox_event ul (ld_machine ld) now d]"
proof -
  have "pg_fault db (pg_clock db) = None"
    using nf by (simp add: no_faults_def)
  from store_apply_expire [OF p now ok row this, of "ticks (pg_clock db)"]
  obtain db1 ld1 where db1: "store_apply approval_ops ld (ticks (pg_clock db), expire_event now) db = (db1, Inr ld1)"
    "sm_lookup db1 = (sm_lookup db)(ap_id (ld_machine ld) \<mapsto> expired_row now ld)"
    "pg_clock db1 = Suc (pg_clock db)" "pg_fault db1 = pg_fault db" "sm_db.more db1 = sm_db.more db"
    by blast
  have "no_faults db1" "ap_outbox db1 = Map.empty" "ap_wal db1 = ap_wal db"
    using nf db1(3,4) approvals_more [OF db1(5)] empty by (simp_all add: no_faults_def)
  with publish_expired_ok [of db1 "expired_outbox_event ul (ld_machine ld) now d"] db1(1,2) show ?thesis
    by (auto simp: transition_and_publish_def)
qed

section \<open>The loop\<close>

definition pending_of :: "approval_request loaded list \<Rightarrow> approval_request loaded list" where
  "pending_of lds = filter (\<lambda>ld. ap_state (ld_machine ld) = ap_pending) lds"

lemma sweep_loop_ok:
  assumes "now \<noteq> zero_time" and "no_faults db" and "ap_outbox db = Map.empty"
    and "distinct (map (ap_id \<circ> ld_machine) lds)"
    and "\<And>ld. ld \<in> set lds \<Longrightarrow> approval_ok (ld_machine ld) \<and>
      (\<exists>row. sm_lookup db (ap_id (ld_machine ld)) = Some row \<and> sm_version row = ld_version ld)"
  shows "\<exists>db' c'. sweep_loop ul ticks now lds c db = (db', c') \<and> n_failed c' = n_failed c \<and> no_faults db' \<and>
    ap_outbox db' = Map.empty \<and>
    relayed (ap_wal db') = relayed (ap_wal db) @
      map (\<lambda>ld. expired_outbox_event ul (ld_machine ld) now (deadline_of now (ld_machine ld))) (pending_of lds) \<and>
    (\<forall>ld \<in> set (pending_of lds). sm_lookup db' (ap_id (ld_machine ld)) = Some (expired_row now ld)) \<and>
    (\<forall>i. i \<notin> (ap_id \<circ> ld_machine) ` set (pending_of lds) \<longrightarrow> sm_lookup db' i = sm_lookup db i)"
  using assms(2-)
proof (induction lds arbitrary: c db)
  case Nil
  then show ?case by (simp add: pending_of_def)
next
  case (Cons ld lds)
  have fresh: "ap_id (ld_machine ld) \<notin> (ap_id \<circ> ld_machine) ` set lds" and dist: "distinct (map (ap_id \<circ> ld_machine) lds)"
    using Cons.prems(3) by (auto simp: comp_def)
  show ?case
  proof (cases "ap_state (ld_machine ld) = ap_pending")
    case False
    from Cons.IH [of db "c\<lparr>n_skipped := n_skipped c + 1\<rparr>"] Cons.prems dist False
    show ?thesis by (simp add: pending_of_def)
  next
    case True
    obtain row where "approval_ok (ld_machine ld)"
      "sm_lookup db (ap_id (ld_machine ld)) = Some row" "sm_version row = ld_version ld"
      using Cons.prems(4) [of ld] by auto
    from transition_and_publish_ok [OF True assms(1) this Cons.prems(1,2), of ul ticks "deadline_of now (ld_machine ld)"]
    obtain db1 where db1: "transition_and_publish ul ticks ld now (deadline_of now (ld_machine ld)) db = (db1, None)"
      "sm_lookup db1 = (sm_lookup db)(ap_id (ld_machine ld) \<mapsto> expired_row now ld)"
      "ap_outbox db1 = Map.empty" "no_faults db1"
      "relayed (ap_wal db1) = relayed (ap_wal db) @
         [expired_outbox_event ul (ld_machine ld) now (deadline_of now (ld_machine ld))]"
      by blast
    have "approval_ok (ld_machine l) \<and>
      (\<exists>row. sm_lookup db1 (ap_id (ld_machine l)) = Some row \<and> sm_version row = ld_version l)" if "l \<in> set lds" for l
    proof -
      have "ap_id (ld_machine l) \<noteq> ap_id (ld_machine ld)"
        using that fresh by (metis comp_apply image_eqI)
      then show ?thesis
        using Cons.prems(4) [of l] that by (simp add: db1(2))
    qed
    from Cons.IH [OF db1(4,3) dist this, of "c\<lparr>n_expired := n_expired c + 1\<rparr>"]
    obtain db' c' where run: "sweep_loop ul ticks now lds (c\<lparr>n_expired := n_expired c + 1\<rparr>) db1 = (db', c')"
      and rest: "n_failed c' = n_failed c" "no_faults db'" "ap_outbox db' = Map.empty"
        "relayed (ap_wal db') = relayed (ap_wal db1) @
           map (\<lambda>ld. expired_outbox_event ul (ld_machine ld) now (deadline_of now (ld_machine ld))) (pending_of lds)"
        "\<forall>ld \<in> set (pending_of lds). sm_lookup db' (ap_id (ld_machine ld)) = Some (expired_row now ld)"
        "\<forall>i. i \<notin> (ap_id \<circ> ld_machine) ` set (pending_of lds) \<longrightarrow> sm_lookup db' i = sm_lookup db1 i"
      by auto
    have split: "pending_of (ld # lds) = ld # pending_of lds"
      using True by (simp add: pending_of_def)
    have "ap_id (ld_machine ld) \<notin> (ap_id \<circ> ld_machine) ` set (pending_of lds)"
      using fresh by (auto simp: pending_of_def)
    then have "sm_lookup db' (ap_id (ld_machine ld)) = Some (expired_row now ld)"
      using rest(6) db1(2) by simp
    then show ?thesis
      using True db1 run rest unfolding split
      by (intro exI [of _ db'] exI [of _ c']) simp
  qed
qed

section \<open>Properties\<close>

definition stored :: "approvals_db \<Rightarrow> approval_request \<Rightarrow> bool" where
  "stored db m \<longleftrightarrow> (\<exists>row. sm_lookup db (ap_id m) = Some row \<and> row_of approval_ops (ap_id m) row m)"

lemma stored_expired:
  assumes "approval_ok (ld_machine ld)" and "sm_lookup db (ap_id (ld_machine ld)) = Some (expired_row now ld)"
  shows "stored db (expired_machine now (ld_machine ld))"
proof -
  have "approval_ok (expired_machine now (ld_machine ld))"
    using assms(1) by (simp add: approval_ok_def)
  then obtain j where "approval_marshal (expired_machine now (ld_machine ld)) = Inr j"
    "approval_unmarshal j = Inr (expired_machine now (ld_machine ld))"
    using approval_roundtrip by blast
  with assms(2) show ?thesis
    by (simp add: stored_def row_of_def expired_row_def)
qed

lemma sm_sweep_frame [frame]:
  "timeout_sweep ops now db = (db', res) \<Longrightarrow>
   sm_lookup db' = sm_lookup db \<and> pg_fault db' = pg_fault db \<and> pg_clock db \<le> pg_clock db' \<and>
   sm_db.more db' = sm_db.more db"
  by (auto simp: timeout_sweep_def pg_exec_def sm_sweep_sql_def sm_lookup_def fun_eq_iff Let_def
      split: option.splits sum.splits)

text \<open>
  C6. The expiry job on a well-formed table, when no statement fails: exactly the pending requests
  whose deadline has passed are expired (decided now, no deadline left, one version up), each of
  them is published once, in the order of the deadlines, with the deadline it missed; no other row
  changes (an overdue escalated request stays as it is) and no candidate is counted as failed.
\<close>

theorem sweep_expires_overdue:
  assumes tab: "table_ok approval_ops approval_ok db" and nf: "no_faults db"
    and empty: "ap_outbox db = Map.empty" and now: "now \<noteq> zero_time"
  shows "\<exists>db' c due. approvals_sweep ul ticks now db = (db', Inr c) \<and> n_failed c = 0 \<and>
    distinct (map ap_id due) \<and> sorted (map (deadline_of now) due) \<and>
    set due = {m. stored db m \<and> ap_state m = ap_pending \<and> (\<exists>t. ap_expires_at m = Some t \<and> t \<le> now)} \<and>
    relayed (ap_wal db') = relayed (ap_wal db) @
      map (\<lambda>m. expired_outbox_event ul m now (deadline_of now m)) due \<and>
    ap_outbox db' = Map.empty \<and> (\<forall>m \<in> set due. stored db' (expired_machine now m)) \<and>
    (\<forall>i. i \<notin> ap_id ` set due \<longrightarrow> sm_lookup db' i = sm_lookup db i)"
proof -
  obtain db1 lds where sweep: "timeout_sweep approval_ops now db = (db1, Inr lds)"
    and lds: "distinct (map (ap_id \<circ> ld_machine) lds)"
      "sorted (map (\<lambda>ld. the (ap_expires_at (ld_machine ld))) lds)"
      "\<forall>ld \<in> set lds. approval_ok (ld_machine ld) \<and> (\<exists>t. ap_expires_at (ld_machine ld) = Some t \<and> t \<le> now) \<and>
         (\<exists>row. sm_lookup db (ap_id (ld_machine ld)) = Some row \<and> ld_version ld = sm_version row \<and>
            row_of approval_ops (ap_id (ld_machine ld)) row (ld_machine ld))"
      "\<forall>i row m t. sm_lookup db i = Some row \<longrightarrow> row_of approval_ops i row m \<longrightarrow>
         ap_expires_at m = Some t \<longrightarrow> t \<le> now \<longrightarrow> m \<in> ld_machine ` set lds"
    using approval.timeout_sweep_due [OF tab nf, of now] by (cases "timeout_sweep approval_ops now db") auto
  note fr = sm_sweep_frame [OF sweep]
  have db1: "no_faults db1" "ap_outbox db1 = Map.empty" "ap_wal db1 = ap_wal db" "sm_lookup db1 = sm_lookup db"
    using nf fr approvals_more [of db1 db] empty by (auto intro: no_faults_clock)
  have cur: "approval_ok (ld_machine ld) \<and>
      (\<exists>row. sm_lookup db1 (ap_id (ld_machine ld)) = Some row \<and> sm_version row = ld_version ld)" if "ld \<in> set lds" for ld
    using lds(3) that db1(4) by fastforce
  obtain db' c where loop: "sweep_loop ul ticks now lds \<lparr>n_expired = 0, n_skipped = 0, n_failed = 0\<rparr> db1 = (db', c)"
    and fin: "n_failed c = 0" "ap_outbox db' = Map.empty"
      "relayed (ap_wal db') = relayed (ap_wal db) @
         map (\<lambda>ld. expired_outbox_event ul (ld_machine ld) now (deadline_of now (ld_machine ld))) (pending_of lds)"
      "\<forall>ld \<in> set (pending_of lds). sm_lookup db' (ap_id (ld_machine ld)) = Some (expired_row now ld)"
      "\<forall>i. i \<notin> (ap_id \<circ> ld_machine) ` set (pending_of lds) \<longrightarrow> sm_lookup db' i = sm_lookup db i"
    using sweep_loop_ok [OF now db1(1,2) lds(1) cur, of ul ticks "\<lparr>n_expired = 0, n_skipped = 0, n_failed = 0\<rparr>"]
    by (auto simp: db1(3,4))
  define due where "due = map ld_machine (pending_of lds)"
  have run: "approvals_sweep ul ticks now db = (db', Inr c)"
    by (simp add: approvals_sweep_def sweep loop)
  have dist: "distinct (map ap_id due)"
    using lds(1) by (simp add: due_def pending_of_def distinct_map_filter)
  have "map (deadline_of now) due = map (\<lambda>ld. the (ap_expires_at (ld_machine ld))) (pending_of lds)"
    using lds(3) by (force simp: due_def pending_of_def deadline_of_def)
  then have ord: "sorted (map (deadline_of now) due)"
    using lds(2) by (simp add: pending_of_def sorted_filter)
  have set_due: "set due = {m. stored db m \<and> ap_state m = ap_pending \<and> (\<exists>t. ap_expires_at m = Some t \<and> t \<le> now)}"
    using lds(3,4) by (fastforce simp: due_def pending_of_def stored_def)
  have exp: "\<forall>m \<in> set due. stored db' (expired_machine now m)"
    using fin(4) lds(3) stored_expired by (fastforce simp: due_def pending_of_def)
  have rest: "\<forall>i. i \<notin> ap_id ` set due \<longrightarrow> sm_lookup db' i = sm_lookup db i"
    using fin(5) by (auto simp: due_def image_image)
  show ?thesis
    using run fin(1-3) dist ord set_due exp rest
    by (intro exI [of _ db'] exI [of _ c] exI [of _ due]) (simp add: due_def comp_def)
qed

text \<open>A table with one overdue request, as \<^verbatim>\<open>Insert\<close> writes it.\<close>

definition overdue_request :: approval_request where
  "overdue_request = new_approval 1 ''t'' ''s'' (Some [''a'']) (Raw (JObj [])) 2 (Some 10)"

definition overdue_db :: "(nat \<Rightarrow> string option) \<Rightarrow> approvals_db" where
  "overdue_db faults =
     \<lparr>pg_clock = 0, pg_fault = faults,
      sm_rows = [(1, \<lparr>sm_state = ap_pending, sm_state_data = projr (approval_marshal overdue_request),
                      sm_version = 1, sm_expires_at = Some 10\<rparr>)],
      ap_outbox = Map.empty, ap_wal = []\<rparr>"

lemma overdue_simps [simp]:
  "ap_id overdue_request = 1" "ap_state overdue_request = ap_pending" "ap_expires_at overdue_request = Some 10"
  "approval_ok overdue_request"
  by (simp_all add: overdue_request_def new_approval_def approval_ok_def)

lemma overdue_row:
  "sm_lookup (overdue_db faults) 1 = Some \<lparr>sm_state = ap_pending,
     sm_state_data = projr (approval_marshal overdue_request), sm_version = 1, sm_expires_at = Some 10\<rparr>"
  by (simp add: overdue_db_def sm_lookup_def)

lemma overdue_stored: "stored (overdue_db faults) overdue_request"
  using approval_roundtrip [of overdue_request] by (auto simp: stored_def row_of_def overdue_row)

lemma overdue_table_ok: "table_ok approval_ops approval_ok (overdue_db faults)"
  using overdue_stored [of faults]
  by (auto simp: table_ok_def stored_def overdue_row) (auto simp: overdue_db_def intro!: exI [of _ overdue_request])

lemma overdue_no_faults: "no_faults (overdue_db (\<lambda>_. None))"
  by (simp add: no_faults_def overdue_db_def)

theorem sweep_expires_overdue_witness:
  "\<exists>db' c. approvals_sweep \<lparr>new_sha1 = (\<lambda>_. 7), uuid_string = (\<lambda>_. ''u'')\<rparr> (\<lambda>_. 0) 20 (overdue_db (\<lambda>_. None)) = (db', Inr c) \<and>
     n_failed c = 0 \<and> stored db' (expired_machine 20 overdue_request)"
proof -
  have "ap_outbox (overdue_db (\<lambda>_. None)) = Map.empty"
    by (simp add: overdue_db_def)
  from sweep_expires_overdue [OF overdue_table_ok overdue_no_faults this, of 20
      "\<lparr>new_sha1 = (\<lambda>_. 7), uuid_string = (\<lambda>_. ''u'')\<rparr>" "\<lambda>_. 0"]
  obtain db' c due where r: "approvals_sweep \<lparr>new_sha1 = (\<lambda>_. 7), uuid_string = (\<lambda>_. ''u'')\<rparr> (\<lambda>_. 0) 20
      (overdue_db (\<lambda>_. None)) = (db', Inr c)" "n_failed c = 0"
    and due: "set due = {m. stored (overdue_db (\<lambda>_. None)) m \<and> ap_state m = ap_pending \<and>
      (\<exists>t. ap_expires_at m = Some t \<and> t \<le> 20)}"
    and all: "\<forall>m \<in> set due. stored db' (expired_machine 20 m)"
    by auto
  have "overdue_request \<in> set due"
    using due overdue_stored by simp
  with r all show ?thesis by blast
qed

text \<open>
  The expiry and its event are not atomic. If the second transaction cannot be opened after the
  expiry was written, the candidate is reported as failed, to be retried by the next sweep; but the
  row is expired and has lost its deadline, no event was logged, and no later sweep query returns it
  again, so \<^verbatim>\<open>approval.expired.v1\<close> is never published for this request.
\<close>

theorem expired_event_lost:
  assumes tab: "table_ok approval_ops approval_ok db" and ok: "approval_ok (ld_machine ld)"
    and p: "ap_state (ld_machine ld) = ap_pending" and now: "now \<noteq> zero_time"
    and row: "sm_lookup db (ap_id (ld_machine ld)) = Some row" "sm_version row = ld_version ld"
    and update_runs: "pg_fault db (pg_clock db) = None"
    and begin_fails: "pg_fault db (Suc (pg_clock db)) = Some msg"
  shows "\<exists>db'. transition_and_publish ul ticks ld now d db = (db', Some (BeginTx msg)) \<and>
    ap_wal db' = ap_wal db \<and> ap_outbox db' = ap_outbox db \<and>
    sm_lookup db' (ap_id (ld_machine ld)) = Some (expired_row now ld) \<and>
    (\<forall>later. ap_id (ld_machine ld) \<notin> fst ` set (snd (sm_sweep_sql later db')))"
proof -
  obtain db1 ld1 where db1: "store_apply approval_ops ld (ticks (pg_clock db), expire_event now) db = (db1, Inr ld1)"
    "sm_lookup db1 = (sm_lookup db)(ap_id (ld_machine ld) \<mapsto> expired_row now ld)"
    "pg_clock db1 = Suc (pg_clock db)" "pg_fault db1 = pg_fault db" "sm_db.more db1 = sm_db.more db"
    using store_apply_expire [OF p now ok row update_runs, of "ticks (pg_clock db)"] by blast
  let ?db' = "db1\<lparr>pg_clock := Suc (pg_clock db1)\<rparr>"
  have run: "transition_and_publish ul ticks ld now d db = (?db', Some (BeginTx msg))"
    using begin_fails db1(1,3,4) by (simp add: transition_and_publish_def publish_expired_def pg_exec_def)
  have "table_ok approval_ops approval_ok db1"
    using approval.apply_table_ok [OF tab ok db1(1)] .
  then have "distinct (map fst (sm_rows db1))"
    by (simp add: table_ok_def)
  then have "map_of (sm_rows db1) (ap_id (ld_machine ld)) = Some r" if "(ap_id (ld_machine ld), r) \<in> set (sm_rows db1)" for r
    using that by simp
  moreover have "map_of (sm_rows db1) (ap_id (ld_machine ld)) = Some (expired_row now ld)"
    using db1(2) by (simp add: sm_lookup_def fun_eq_iff)
  ultimately have "sm_expires_at r = None" if "(ap_id (ld_machine ld), r) \<in> set (sm_rows db1)" for r
    using that by (fastforce simp: expired_row_def)
  then have "ap_id (ld_machine ld) \<notin> fst ` set (snd (sm_sweep_sql later ?db'))" for later
    by (auto simp: sm_sweep_sql_def split: option.splits)
  then show ?thesis
    using run db1(2) approvals_more [OF db1(5)]
    by (intro exI [of _ ?db']) simp
qed

theorem expired_event_lost_witness:
  "\<exists>db'. transition_and_publish \<lparr>new_sha1 = (\<lambda>_. 7), uuid_string = (\<lambda>_. ''u'')\<rparr> (\<lambda>_. 0)
      \<lparr>ld_machine = overdue_request, ld_version = 1\<rparr> 20 10 (overdue_db (\<lambda>n. if n = 1 then Some ''down'' else None)) =
      (db', Some (BeginTx ''down'')) \<and> ap_wal db' = []"
proof -
  let ?db = "overdue_db (\<lambda>n. if n = 1 then Some ''down'' else None)"
  have "ap_wal ?db = []" "pg_fault ?db (pg_clock ?db) = None" "pg_fault ?db (Suc (pg_clock ?db)) = Some ''down''"
    by (simp_all add: overdue_db_def)
  with expired_event_lost [of ?db "\<lparr>ld_machine = overdue_request, ld_version = 1\<rparr>" 20] overdue_table_ok overdue_row
  show ?thesis by fastforce
qed

fun approval_run :: "approval_request \<Rightarrow> (instant \<times> approval_event) list \<Rightarrow> approval_request \<times> nat" where
  "approval_run r [] = (r, 0)"
| "approval_run r (e # es) =
     (case approval_apply r e of
        (r', Some _) \<Rightarrow> approval_run r' es
      | (r', None) \<Rightarrow> (case approval_run r' es of (r'', n) \<Rightarrow> (r'', Suc n)))"

lemma approval_apply_accepted:
  assumes "approval_apply r ne = (r', None)"
  shows "approval_can_transition (ap_state r) (ap_state r') \<and> ap_state r \<noteq> ap_state r' \<and>
    \<not> approval_terminal (ap_state r) \<and>
    (approval_terminal (ap_state r') \<longrightarrow> ap_expires_at r' = None \<and> ap_decided_at r' \<noteq> None)"
proof -
  obtain now e where ne: "ne = (now, e)" by fastforce
  with assms obtain r1 s where "approval_switch now r e = Some (r1, s)" "r' = r1\<lparr>ap_state := s\<rparr>"
    by (auto elim: approval_apply_cases)
  with approval_switch_SomeD [of now r e r1 s] show ?thesis
    by (auto simp: approval_terminal_def)
qed

lemma approval_apply_terminal:
  assumes "approval_terminal (ap_state r)"
  shows "\<exists>msg. approval_apply r ne = (r, Some msg)"
proof (cases "approval_apply r ne")
  case (Pair r' res)
  obtain now e where ne: "ne = (now, e)" by fastforce
  from Pair [unfolded ne] show ?thesis
  proof (cases rule: approval_apply_cases)
    case refused
    then show ?thesis using Pair by simp
  next
    case (accepted r1 s)
    with Pair assms approval_apply_accepted [of r ne r'] show ?thesis by simp
  qed
qed

lemma approval_run_terminal: "approval_terminal (ap_state r) \<Longrightarrow> approval_run r es = (r, 0)"
proof (induction es)
  case (Cons e es)
  then show ?case
    using approval_apply_terminal [of r e] by (auto split: prod.splits)
qed simp

lemma approval_run_append:
  "approval_run r es = (r1, n) \<Longrightarrow> approval_run r1 es' = (r2, k) \<Longrightarrow> approval_run r (es @ es') = (r2, n + k)"
  by (induction es arbitrary: r n) (auto split: prod.splits option.splits)

lemma approval_run_rank:
  "approval_run r es = (r1, n) \<Longrightarrow> approval_rank (ap_state r) + n \<le> approval_rank (ap_state r1)"
proof (induction es arbitrary: r n)
  case (Cons e es)
  obtain r' res where ap: "approval_apply r e = (r', res)" by fastforce
  show ?case
  proof (cases res)
    case (Some msg)
    then have "r' = r"
      using approval.refused [of r e r' msg] ap by simp
    with Cons ap Some show ?thesis by simp
  next
    case None
    then obtain k where "approval_run r' es = (r1, k)" "n = Suc k"
      using Cons.prems ap by (auto split: prod.splits)
    moreover have "approval_rank (ap_state r) < approval_rank (ap_state r')"
      using approval_table.climbs approval_apply_accepted [of r e r'] ap None by fastforce
    ultimately show ?thesis
      using Cons.IH [of r' k] by simp
  qed
qed simp

lemma approval_rank_le: "approval_rank s \<le> 2"
  by (simp add: approval_rank_def)

lemma approval_run_unaccepted: "approval_run r es = (r1, 0) \<Longrightarrow> r1 = r"
proof (induction es arbitrary: r)
  case (Cons e es)
  obtain r' res where ap: "approval_apply r e = (r', res)" by fastforce
  with Cons.prems obtain msg where msg: "res = Some msg"
    by (cases res) (auto split: prod.splits)
  then have "r' = r"
    using approval.refused [of r e r' msg] ap by simp
  with Cons ap msg show ?case by simp
qed simp

lemma approval_run_decided:
  "approval_run r es = (r1, n) \<Longrightarrow> n \<noteq> 0 \<Longrightarrow> approval_terminal (ap_state r1) \<Longrightarrow>
   ap_expires_at r1 = None \<and> ap_decided_at r1 \<noteq> None"
proof (induction es arbitrary: r n)
  case (Cons e es)
  obtain r' res where ap: "approval_apply r e = (r', res)" by fastforce
  show ?case
  proof (cases res)
    case (Some msg)
    with Cons ap show ?thesis by simp
  next
    case None
    then obtain k where k: "approval_run r' es = (r1, k)" "n = Suc k"
      using Cons.prems(1) ap by (auto split: prod.splits)
    show ?thesis
    proof (cases "k = 0 \<and> approval_terminal (ap_state r')")
      case True
      with approval_run_terminal [of r' es] k have "r1 = r'" by simp
      with True approval_apply_accepted [of r e r'] ap None show ?thesis by simp
    next
      case False
      have "k \<noteq> 0"
      proof
        assume "k = 0"
        then have "ap_state r1 = ap_state r'"
          using approval_run_unaccepted [of r' es r1] k(1) by simp
        with False \<open>k = 0\<close> Cons.prems(3) show False by simp
      qed
      with Cons.IH [OF k(1)] Cons.prems(3) show ?thesis by simp
    qed
  qed
qed simp

text \<open>
  A request is decided once. Along any sequence of events from any request, at most two are
  accepted (an escalation and a decision); an accepted decision leaves a decision time and no
  deadline; and from then on every event, the same one included, is refused with an error and
  leaves the request as it is. (So re-applying the terminal event is not the safe no-op that the
  header of \<^verbatim>\<open>state_machine.go\<close> describes.)
\<close>

theorem approval_decided_once:
  assumes "approval_run r es = (r1, n)"
  shows "n \<le> 2 \<and>
    (approval_terminal (ap_state r1) \<longrightarrow>
       (n \<noteq> 0 \<longrightarrow> ap_expires_at r1 = None \<and> ap_decided_at r1 \<noteq> None) \<and>
       (\<forall>e. \<exists>msg. approval_apply r1 e = (r1, Some msg)) \<and>
       (\<forall>es'. approval_run r (es @ es') = (r1, n)))"
proof -
  have "n \<le> 2"
    using approval_run_rank [OF assms] approval_rank_le [of "ap_state r1"] by linarith
  moreover have "approval_run r (es @ es') = (r1, n)" if "approval_terminal (ap_state r1)" for es'
    using approval_run_append [OF assms approval_run_terminal [OF that, of es']] by simp
  ultimately show ?thesis
    using approval_run_decided [OF assms] approval_apply_terminal by blast
qed

theorem approval_decided_once_witness:
  "approval_run overdue_request [(20, expire_event 20)] = (expired_machine 20 overdue_request, 1) \<and>
   (\<exists>msg. approval_apply (expired_machine 20 overdue_request) (21, expire_event 20) =
      (expired_machine 20 overdue_request, Some msg))"
proof -
  have run: "approval_run overdue_request [(20, expire_event 20)] = (expired_machine 20 overdue_request, 1)"
    by (simp add: apply_expire)
  have "approval_terminal (ap_state (expired_machine 20 overdue_request))"
    by (simp add: approval_terminal_def)
  with run approval_decided_once [OF run] show ?thesis by blast
qed

end
