(* ===== verification/Store_Properties.thy ===== *)
theory Store_Properties
  imports Approvals_Sweep
begin

text \<open>
  Optimistic concurrency of the state-machine store and the retry loop, as properties of the store
  for every machine type, with approval requests as the instance of the witnesses.
\<close>

section \<open>Optimistic concurrency\<close>

text \<open>
  C5. No lost update. Whatever the other writers do between a \<^verbatim>\<open>Load\<close> and the \<^verbatim>\<open>Apply\<close> of what it
  returned, a successful \<^verbatim>\<open>Apply\<close> means that the row it replaces is still the one that was loaded;
  its version goes up by one and its columns and document become those of the transitioned machine;
  no other row changes.
\<close>

theorem no_lost_update:
  assumes load: "store_load ops i db0 = (db1, Inr ld)" and i: "agg_id ops (ld_machine ld) = i"
    and others: "(store_step ops)\<^sup>*\<^sup>* db1 db2"
    and written: "store_apply ops ld e db2 = (db3, Inr ld')"
  shows "sm_lookup db2 i = sm_lookup db0 i \<and> ld_version ld' = ld_version ld + 1 \<and>
    agg_apply ops (ld_machine ld) e = (ld_machine ld', None) \<and>
    (\<exists>j. agg_marshal ops (ld_machine ld') = Inr j \<and>
      sm_lookup db3 = (sm_lookup db2)(i \<mapsto> \<lparr>sm_state = agg_state ops (ld_machine ld'), sm_state_data = j,
        sm_version = ld_version ld', sm_expires_at = agg_expires_at ops (ld_machine ld')\<rparr>))"
proof -
  obtain row where row: "sm_lookup db0 i = Some row" "sm_lookup db1 = sm_lookup db0" "ld_version ld = sm_version row"
    using load by (rule store_load_InrD)
  obtain row2 where row2: "sm_lookup db2 i = Some row2" "sm_version row2 = ld_version ld"
    and rest: "agg_apply ops (ld_machine ld) e = (ld_machine ld', None)" "ld_version ld' = ld_version ld + 1"
      "sm_lookup db3 = (sm_lookup db2)(i \<mapsto> \<lparr>sm_state = agg_state ops (ld_machine ld'),
         sm_state_data = projr (agg_marshal ops (ld_machine ld')), sm_version = ld_version ld',
         sm_expires_at = agg_expires_at ops (ld_machine ld')\<rparr>)"
      "agg_marshal ops (ld_machine ld') = Inr (projr (agg_marshal ops (ld_machine ld')))"
    using written unfolding i [symmetric] by (rule store_apply_InrD)
  have "grows db1 db2"
    using others by (rule store_steps_grow)
  then have "row2 = row"
    using row row2 unfolding grows_def by fastforce
  with row(1) row2(1) rest show ?thesis
    by (intro conjI exI [of _ "projr (agg_marshal ops (ld_machine ld'))"]) simp_all
qed

text \<open>
  Of two writers that loaded the same version of a row, at most one succeeds. After one of them
  has, and whatever happens in between, the other one's \<^verbatim>\<open>Apply\<close> changes no row and returns an error;
  if its transition, its JSON encoding and its statement are in order, it is the stale-write error.
\<close>

theorem second_writer_stale:
  assumes first: "store_apply ops ld1 e1 db0 = (db1, Inr ld1')"
    and others: "(store_step ops)\<^sup>*\<^sup>* db1 db2"
    and same: "agg_id ops (ld_machine ld2) = agg_id ops (ld_machine ld1)" "ld_version ld2 = ld_version ld1"
    and second: "store_apply ops ld2 e2 db2 = (db3, res)"
  shows "sm_lookup db3 = sm_lookup db2 \<and>
    (\<exists>err. res = Inl err \<and>
      (is_stale err \<or> is_transition_error err \<or> (\<exists>msg. err = SerializeError msg) \<or> (\<exists>msg. err = DbError msg)))"
proof -
  let ?i = "agg_id ops (ld_machine ld1)"
  obtain row1 where "sm_lookup db1 ?i = Some row1" "sm_version row1 = ld_version ld1 + 1"
    using first by (auto elim: store_apply_InrD)
  moreover have "grows db1 db2"
    using others by (rule store_steps_grow)
  ultimately obtain row2 where row2: "sm_lookup db2 ?i = Some row2" "ld_version ld1 < sm_version row2"
    unfolding grows_def by force
  then have none: "sm_update_sql ?i (ld_version ld1) s p x db2 = (db2, None)" for s p x
    by (simp add: sm_update_sql_def)
  have clock: "sm_lookup (db2\<lparr>pg_clock := n\<rparr>) = sm_lookup db2" for n
    by (simp add: sm_lookup_def fun_eq_iff)
  show ?thesis
    using second
    by (auto simp: store_apply_def Let_def same none pg_exec_def clock
        split: prod.splits option.splits sum.splits)
qed

abbreviation one_overdue :: approvals_db where
  "one_overdue \<equiv> overdue_db (\<lambda>_. None)"

definition loaded_overdue :: "approval_request loaded" where
  "loaded_overdue = \<lparr>ld_machine = overdue_request, ld_version = 1\<rparr>"

lemma load_overdue:
  "store_load approval_ops 1 one_overdue = (one_overdue\<lparr>pg_clock := 1\<rparr>, Inr loaded_overdue)"
proof -
  obtain j where j: "approval_marshal overdue_request = Inr j" "approval_unmarshal j = Inr overdue_request"
    using approval_roundtrip [of overdue_request] by auto
  show ?thesis
    by (simp add: store_load_def pg_exec_def overdue_db_def sm_select_sql_def sm_lookup_def j loaded_overdue_def)
qed

lemma expire_overdue:
  assumes "sm_rows db = sm_rows one_overdue" and "pg_fault db = (\<lambda>_. None)"
  shows "\<exists>db'. store_apply approval_ops loaded_overdue (0, expire_event 20) db =
    (db', Inr \<lparr>ld_machine = expired_machine 20 overdue_request, ld_version = 2\<rparr>)"
proof -
  have "\<exists>row. sm_lookup db (ap_id (ld_machine loaded_overdue)) = Some row \<and> sm_version row = ld_version loaded_overdue"
    using assms(1) overdue_row [of "\<lambda>_. None"] by (simp add: sm_lookup_def loaded_overdue_def)
  with store_apply_expire [of loaded_overdue 20 db] assms(2) show ?thesis
    by (force simp: loaded_overdue_def)
qed

theorem no_lost_update_witness:
  "\<exists>db3. store_apply approval_ops loaded_overdue (0, expire_event 20) (one_overdue\<lparr>pg_clock := 1\<rparr>) =
     (db3, Inr \<lparr>ld_machine = expired_machine 20 overdue_request, ld_version = 2\<rparr>) \<and>
     (\<exists>row. sm_lookup db3 1 = Some row \<and> sm_version row = 2 \<and> sm_state row = ap_expired)"
proof -
  obtain db3 where w: "store_apply approval_ops loaded_overdue (0, expire_event 20) (one_overdue\<lparr>pg_clock := 1\<rparr>) =
      (db3, Inr \<lparr>ld_machine = expired_machine 20 overdue_request, ld_version = 2\<rparr>)"
    using expire_overdue [of "one_overdue\<lparr>pg_clock := 1\<rparr>"] by (auto simp: overdue_db_def)
  have "agg_id approval_ops (ld_machine loaded_overdue) = 1"
    by (simp add: loaded_overdue_def)
  from no_lost_update [OF load_overdue this rtranclp.rtrancl_refl w] w show ?thesis
    by auto
qed

theorem second_writer_stale_witness:
  "\<exists>db1 db3 err. store_apply approval_ops loaded_overdue (0, expire_event 20) one_overdue =
     (db1, Inr \<lparr>ld_machine = expired_machine 20 overdue_request, ld_version = 2\<rparr>) \<and>
     store_apply approval_ops loaded_overdue (0, expire_event 30) db1 = (db3, Inl err)"
proof -
  obtain db1 where w: "store_apply approval_ops loaded_overdue (0, expire_event 20) one_overdue =
      (db1, Inr \<lparr>ld_machine = expired_machine 20 overdue_request, ld_version = 2\<rparr>)"
    using expire_overdue [of one_overdue] by (auto simp: overdue_db_def)
  obtain db3 res where w2: "store_apply approval_ops loaded_overdue (0, expire_event 30) db1 = (db3, res)"
    by fastforce
  from second_writer_stale [OF w rtranclp.rtrancl_refl refl refl w2] w w2 show ?thesis
    by blast
qed

section \<open>WithRetry\<close>

text \<open>
  \<^verbatim>\<open>WithRetry\<close> with a base delay of at least 3 ns (and below 2^62 ns): the operation is called with
  the attempt numbers 1, 2, ... up to some \<open>n\<close> that is at most the maximum, each once and in order;
  it never panics and never reports exhaustion; it returns the value of the last call, or its error,
  or (only after a stale write) that the context ended; and no call is made for a maximum of 0.
\<close>

theorem with_retry_attempts:
  assumes run: "with_retry cancelled mx base (tally f) (s, []) = ((s', ns), res)"
    and base: "3 \<le> base" "base < 2 ^ 62"
  shows "if mx = 0 then ns = [] \<and> s' = s \<and> res = RetryZeroAttempts
    else \<exists>n. 1 \<le> n \<and> n \<le> mx \<and> ns = [1..<Suc n] \<and>
      ((\<exists>v. res = RetryOk v) \<or> (\<exists>err. res = RetryErr err) \<or> (res = RetryCancelled \<and> cancelled n))"
proof (cases "mx = 0")
  case True
  with run show ?thesis by (simp add: with_retry_def)
next
  case False
  then have "retry_loop (tally f) cancelled mx 1 base (s, []) = ((s', ns), res)" "1 \<le> mx"
    using run by (simp_all add: with_retry_def)
  from retry_loop_calls [OF this base] obtain n where n: "1 \<le> n" "n \<le> mx" "ns = [1..<Suc n]"
    "res \<noteq> RetryExhausted" "res \<noteq> RetryPanic" "res \<noteq> RetryZeroAttempts" "res = RetryCancelled \<longrightarrow> cancelled n"
    by auto
  then have "(\<exists>v. res = RetryOk v) \<or> (\<exists>err. res = RetryErr err) \<or> (res = RetryCancelled \<and> cancelled n)"
    by (cases res) auto
  with n False show ?thesis by auto
qed

definition stale_twice :: "nat \<Rightarrow> unit \<Rightarrow> unit \<times> (store_error + nat)" where
  "stale_twice n u = (u, if n \<le> 2 then Inl (StaleError 1 1) else Inr n)"

theorem with_retry_attempts_witness:
  "\<exists>n. with_retry (\<lambda>_. False) 5 50000000 (tally stale_twice) ((), []) = (((), [1, 2, 3]), RetryOk 3) \<and> n = (3 :: nat)"
proof -
  have run: "with_retry (\<lambda>_. False) 5 50000000 (tally stale_twice) ((), []) = (((), [1, 2, 3]), RetryOk 3)"
    by (simp add: with_retry_def retry_loop.simps stale_twice_def next_delay_def Let_def wrap64_id max_delay_def)
  have "(3 :: int) \<le> 50000000" "(50000000 :: int) < 2 ^ 62"
    by simp_all
  from with_retry_attempts [OF run this] run show ?thesis by simp
qed

text \<open>
  With a base delay below 3 ns (zero included) \<^verbatim>\<open>WithRetry\<close> does not retry but panics: after a stale
  first attempt it asks \<^verbatim>\<open>rand.Int63n\<close> for a number below \<open>delay / 3 = 0\<close>.
\<close>

theorem with_retry_short_delay_panics:
  assumes "base < 3" and "2 \<le> mx" and "f 1 s = (s', Inl (StaleError i v))"
  shows "with_retry cancelled mx base f s = (s', RetryPanic)"
  using assms
  by (simp add: with_retry_def retry_loop.simps [of f cancelled mx "Suc 0" base s])

theorem with_retry_short_delay_panics_witness:
  "with_retry (\<lambda>_. False) 5 0 stale_twice () = ((), RetryPanic)"
  using with_retry_short_delay_panics [of 0 5 stale_twice "()" "()" 1 1] by (simp add: stale_twice_def)

end
