(* ===== verification/Automation_Run.thy ===== *)
theory Automation_Run
  imports State_Machine_Proofs Json Lifecycle
begin

text \<open>
  The automation runs of \<^verbatim>\<open>workflow-automation-service/internal/domain/automationrun\<close>, on the store
  of \<open>State_Machine\<close>. States and event kinds are Go strings; attempts are a 32-bit counter that
  saturates.
\<close>

section \<open>States\<close>

abbreviation ar_queued :: string where "ar_queued \<equiv> ''queued''"
abbreviation ar_running :: string where "ar_running \<equiv> ''running''"
abbreviation ar_suspended :: string where "ar_suspended \<equiv> ''suspended''"
abbreviation ar_compensating :: string where "ar_compensating \<equiv> ''compensating''"
abbreviation ar_completed :: string where "ar_completed \<equiv> ''completed''"
abbreviation ar_failed :: string where "ar_failed \<equiv> ''failed''"

definition automation_parse_state :: "string \<Rightarrow> string + string" where
  "automation_parse_state v =
     (if v \<in> {ar_queued, ar_running, ar_suspended, ar_compensating, ar_completed, ar_failed} then Inr v
      else Inl (''unknown automation run state '' @ go_quote v))"

definition automation_terminal :: "string \<Rightarrow> bool" where
  "automation_terminal s \<longleftrightarrow> s = ar_completed \<or> s = ar_failed"

definition automation_can_transition :: "string \<Rightarrow> string \<Rightarrow> bool" where
  "automation_can_transition s next \<longleftrightarrow>
     s = next \<or>
     (s = ar_queued \<and> next = ar_running) \<or> (s = ar_queued \<and> next = ar_failed) \<or>
     (s = ar_running \<and> next = ar_completed) \<or> (s = ar_running \<and> next = ar_failed) \<or>
     (s = ar_running \<and> next = ar_suspended) \<or> (s = ar_running \<and> next = ar_compensating) \<or>
     (s = ar_suspended \<and> next = ar_running) \<or> (s = ar_suspended \<and> next = ar_failed) \<or>
     (s = ar_compensating \<and> next = ar_failed)"

interpretation automation_table: lifecycle automation_can_transition automation_terminal
  by unfold_locales (auto simp: automation_can_transition_def automation_terminal_def)

section \<open>Runs and events\<close>

record automation_event =
  re_kind :: string
  re_response :: raw_json
  re_error :: string
  re_wait_until :: "instant option"

definition automation_event_of :: "string \<Rightarrow> automation_event" where
  "automation_event_of kind = \<lparr>re_kind = kind, re_response = RawEmpty, re_error = [], re_wait_until = None\<rparr>"

definition claim_event :: automation_event where
  "claim_event = automation_event_of ''claim''"

definition effect_completed_event :: "raw_json \<Rightarrow> automation_event" where
  "effect_completed_event r = (automation_event_of ''effect_completed'')\<lparr>re_response := r\<rparr>"

definition effect_failed_event :: "string \<Rightarrow> automation_event" where
  "effect_failed_event err = (automation_event_of ''effect_failed'')\<lparr>re_error := err\<rparr>"

definition pre_flight_failed_event :: "string \<Rightarrow> automation_event" where
  "pre_flight_failed_event err = (automation_event_of ''pre_flight_failed'')\<lparr>re_error := err\<rparr>"

definition suspend_event :: "instant option \<Rightarrow> automation_event" where
  "suspend_event t = (automation_event_of ''suspend'')\<lparr>re_wait_until := t\<rparr>"

definition resume_event :: automation_event where
  "resume_event = automation_event_of ''resume''"

definition start_compensating_event :: automation_event where
  "start_compensating_event = automation_event_of ''start_compensating''"

definition compensation_completed_event :: "string \<Rightarrow> automation_event" where
  "compensation_completed_event err = (automation_event_of ''compensation_completed'')\<lparr>re_error := err\<rparr>"

definition suspension_failed_event :: "string \<Rightarrow> automation_event" where
  "suspension_failed_event err = (automation_event_of ''suspension_failed'')\<lparr>re_error := err\<rparr>"

record automation_run =
  ar_id :: uuid
  ar_tenant_id :: uuid
  ar_definition_id :: uuid
  ar_correlation_id :: uuid
  ar_state :: string
  ar_expires_at :: "instant option"
  ar_attempts :: "32 word"
  ar_last_error :: "string option"
  ar_effect_response :: raw_json
  ar_progress :: raw_json

definition new_automation_run ::
  "uuid \<Rightarrow> uuid \<Rightarrow> uuid \<Rightarrow> uuid \<Rightarrow> instant option \<Rightarrow> automation_run" where
  "new_automation_run i tenant_id definition_id correlation_id expires =
     \<lparr>ar_id = i, ar_tenant_id = tenant_id, ar_definition_id = definition_id,
      ar_correlation_id = correlation_id, ar_state = ar_queued, ar_expires_at = expires,
      ar_attempts = 0, ar_last_error = None, ar_effect_response = RawEmpty,
      ar_progress = Raw (JObj [])\<rparr>"

definition saturating_add :: "32 word \<Rightarrow> 32 word \<Rightarrow> 32 word" where
  "saturating_add a b = (if a > - 1 - b then - 1 else a + b)"

definition automation_switch ::
  "automation_run \<Rightarrow> automation_event \<Rightarrow> (automation_run \<times> string) option" where
  "automation_switch r e =
     (if ar_state r = ar_queued \<and> re_kind e = ''claim'' then
        Some (r\<lparr>ar_attempts := saturating_add (ar_attempts r) 1\<rparr>, ar_running)
      else if ar_state r = ar_queued \<and> re_kind e = ''pre_flight_failed'' then
        Some (r\<lparr>ar_last_error := Some (re_error e)\<rparr>, ar_failed)
      else if ar_state r = ar_running \<and> re_kind e = ''effect_completed'' then
        Some (r\<lparr>ar_effect_response := re_response e, ar_expires_at := None\<rparr>, ar_completed)
      else if ar_state r = ar_running \<and> re_kind e = ''effect_failed'' then
        Some (r\<lparr>ar_last_error := Some (re_error e), ar_expires_at := None\<rparr>, ar_failed)
      else if ar_state r = ar_running \<and> re_kind e = ''suspend'' then
        Some (r\<lparr>ar_expires_at := re_wait_until e\<rparr>, ar_suspended)
      else if ar_state r = ar_running \<and> re_kind e = ''start_compensating'' then
        Some (r, ar_compensating)
      else if ar_state r = ar_suspended \<and> re_kind e = ''resume'' then
        Some (r\<lparr>ar_attempts := saturating_add (ar_attempts r) 1, ar_expires_at := None\<rparr>, ar_running)
      else if ar_state r = ar_suspended \<and> re_kind e = ''suspension_failed'' then
        Some (r\<lparr>ar_last_error := Some (re_error e), ar_expires_at := None\<rparr>, ar_failed)
      else if ar_state r = ar_compensating \<and> re_kind e = ''compensation_completed'' then
        Some (r\<lparr>ar_last_error := Some (re_error e)\<rparr>, ar_failed)
      else None)"

definition automation_no_transition :: "string \<Rightarrow> string \<Rightarrow> string" where
  "automation_no_transition state kind = ''no AutomationRun transition from '' @ state @ '' for event '' @ kind"

definition automation_disallowed :: "string \<Rightarrow> string \<Rightarrow> string" where
  "automation_disallowed state next = ''AutomationRun produced disallowed transition: '' @ state @ arrow @ next"

definition automation_apply ::
  "automation_run \<Rightarrow> automation_event \<Rightarrow> automation_run \<times> string option" where
  "automation_apply r e =
     (case automation_switch r e of
        None \<Rightarrow> (r, Some (automation_no_transition (ar_state r) (re_kind e)))
      | Some (r', next) \<Rightarrow>
          if \<not> automation_can_transition (ar_state r') next then
            (r', Some (automation_disallowed (ar_state r') next))
          else (r'\<lparr>ar_state := next\<rparr>, None))"

section \<open>JSON\<close>

text \<open>\<^verbatim>\<open>attempts,omitempty\<close> leaves a zero out.\<close>

definition automation_marshal :: "automation_run \<Rightarrow> string + json" where
  "automation_marshal r =
     and_then (omit_raw ''effect_response'' (ar_effect_response r)) (\<lambda>response.
     and_then (omit_raw ''progress'' (ar_progress r)) (\<lambda>progress.
       Inr (JObj ([(''id'', JUuid (ar_id r)), (''tenant_id'', JUuid (ar_tenant_id r)),
                   (''definition_id'', JUuid (ar_definition_id r)),
                   (''correlation_id'', JUuid (ar_correlation_id r)), (''state'', JStr (ar_state r))] @
                  omit_none ''expires_at'' JTime (ar_expires_at r) @
                  (if ar_attempts r = 0 then [] else [(''attempts'', JNum (uint (ar_attempts r)))]) @
                  omit_none ''last_error'' JStr (ar_last_error r) @ response @ progress))))"

definition automation_unmarshal :: "json \<Rightarrow> string + automation_run" where
  "automation_unmarshal j =
     and_then (dec_obj j) (\<lambda>obj.
     and_then (dec_uuid (json_field ''id'' obj)) (\<lambda>i.
     and_then (dec_uuid (json_field ''tenant_id'' obj)) (\<lambda>tenant.
     and_then (dec_uuid (json_field ''definition_id'' obj)) (\<lambda>definition.
     and_then (dec_uuid (json_field ''correlation_id'' obj)) (\<lambda>correlation.
     and_then (dec_str (json_field ''state'' obj)) (\<lambda>state.
     and_then (dec_time_ptr (json_field ''expires_at'' obj)) (\<lambda>expires.
     and_then (dec_uint32 (json_field ''attempts'' obj)) (\<lambda>attempts.
     and_then (dec_str_ptr (json_field ''last_error'' obj)) (\<lambda>last_error.
       Inr \<lparr>ar_id = i, ar_tenant_id = tenant, ar_definition_id = definition,
            ar_correlation_id = correlation, ar_state = state, ar_expires_at = expires,
            ar_attempts = attempts, ar_last_error = last_error,
            ar_effect_response = dec_raw ''effect_response'' obj,
            ar_progress = dec_raw ''progress'' obj\<rparr>)))))))))"

definition automation_ops :: "(automation_run, automation_event) aggregate_ops" where
  "automation_ops = \<lparr>agg_apply = automation_apply, agg_state = ar_state, agg_id = ar_id,
     agg_expires_at = ar_expires_at, agg_marshal = automation_marshal, agg_unmarshal = automation_unmarshal\<rparr>"

definition automation_ok :: "automation_run \<Rightarrow> bool" where
  "automation_ok r \<longleftrightarrow> raw_valid (ar_effect_response r) \<and> raw_valid (ar_progress r)"

lemma automation_ops_simps [simp]:
  "agg_apply automation_ops = automation_apply" "agg_state automation_ops = ar_state"
  "agg_id automation_ops = ar_id" "agg_expires_at automation_ops = ar_expires_at"
  "agg_marshal automation_ops = automation_marshal" "agg_unmarshal automation_ops = automation_unmarshal"
  by (simp_all add: automation_ops_def)

lemma automation_roundtrip:
  assumes "automation_ok r"
  shows "\<exists>j. automation_marshal r = Inr j \<and> automation_unmarshal j = Inr r"
proof -
  from assms have "ar_effect_response r = RawEmpty \<or> (\<exists>d. ar_effect_response r = Raw d)"
    "ar_progress r = RawEmpty \<or> (\<exists>d. ar_progress r = Raw d)"
    by (simp_all add: automation_ok_def raw_valid_cases)
  then show ?thesis
    by (elim disjE exE)
       (cases "ar_attempts r = 0"; simp add: automation_marshal_def automation_unmarshal_def json_lookup
          del: dec_uint32.simps(1) cong: option.case_cong; fail)+
qed

section \<open>What Apply accepts\<close>

lemma automation_switch_SomeD:
  assumes "automation_switch r e = Some (r', next)"
  shows "ar_state r' = ar_state r \<and> ar_id r' = ar_id r \<and> ar_progress r' = ar_progress r \<and>
    automation_can_transition (ar_state r) next \<and> \<not> automation_terminal (ar_state r)"
  using assms
  by (auto simp: automation_switch_def automation_can_transition_def automation_terminal_def split: if_splits)

lemma automation_apply_cases:
  assumes "automation_apply r e = (r', res)"
  obtains (refused) msg where "automation_switch r e = None" "r' = r" "res = Some msg"
    | (accepted) r1 s where "automation_switch r e = Some (r1, s)" "r' = r1\<lparr>ar_state := s\<rparr>" "res = None"
proof (cases "automation_switch r e")
  case None
  then have "r' = r \<and> res = Some (automation_no_transition (ar_state r) (re_kind e))"
    using assms by (auto simp: automation_apply_def)
  then show ?thesis
    using refused [OF None] by blast
next
  case (Some rs)
  obtain r1 s where rs: "rs = (r1, s)"
    by fastforce
  have sw: "automation_switch r e = Some (r1, s)"
    using Some rs by simp
  have can: "automation_can_transition (ar_state r1) s"
    using automation_switch_SomeD [OF sw] by simp
  have "r' = r1\<lparr>ar_state := s\<rparr>" "res = None"
    using assms sw can by (auto simp: automation_apply_def)
  then show ?thesis
    by (rule accepted [OF sw])
qed

lemma automation_apply_terminal:
  assumes "automation_terminal (ar_state r)"
  shows "automation_apply r e = (r, Some (automation_no_transition (ar_state r) (re_kind e)))"
  using assms automation_switch_SomeD [of r e]
  by (cases "automation_switch r e") (auto simp: automation_apply_def)

lemma automation_marshal_ok:
  "automation_marshal r = Inr j \<Longrightarrow> automation_ok r"
  by (cases "ar_effect_response r"; cases "ar_progress r") (simp_all add: automation_marshal_def automation_ok_def)

interpretation automation: aggregate automation_ops automation_ok
proof unfold_locales
  fix m m' :: automation_run and e msg
  assume "agg_apply automation_ops m e = (m', Some msg)"
  then show "m' = m"
    by (auto elim: automation_apply_cases)
next
  fix m m' :: automation_run and e
  assume "agg_apply automation_ops m e = (m', None)"
  then show "agg_id automation_ops m' = agg_id automation_ops m"
    by (auto elim!: automation_apply_cases dest: automation_switch_SomeD)
next
  fix m m' :: automation_run and e j
  assume "agg_marshal automation_ops m' = Inr j"
  then show "automation_ok m'"
    using automation_marshal_ok by simp
next
  fix m assume "automation_ok m"
  then show "\<exists>j. agg_marshal automation_ops m = Inr j \<and> agg_unmarshal automation_ops j = Inr m"
    using automation_roundtrip by simp
qed

section \<open>The runs that can occur\<close>

inductive automation_reachable :: "nat \<Rightarrow> automation_run \<Rightarrow> bool" where
  fresh: "automation_reachable 0 (new_automation_run i tenant definition correlation expires)"
| enter: "automation_reachable n r \<Longrightarrow> automation_apply r e = (r', None) \<Longrightarrow>
    ar_state r' = ar_running \<Longrightarrow> automation_reachable (Suc n) r'"
| other: "automation_reachable n r \<Longrightarrow> automation_apply r e = (r', None) \<Longrightarrow>
    ar_state r' \<noteq> ar_running \<Longrightarrow> automation_reachable n r'"

definition automation_inv :: "nat \<Rightarrow> automation_run \<Rightarrow> bool" where
  "automation_inv n r \<longleftrightarrow>
     automation_parse_state (ar_state r) = Inr (ar_state r) \<and>
     unat (ar_attempts r) = min n (2 ^ 32 - 1) \<and>
     (ar_state r = ar_queued \<longrightarrow> n = 0) \<and>
     (ar_state r \<in> {ar_running, ar_suspended, ar_compensating, ar_completed} \<longrightarrow> 0 < n) \<and>
     (ar_last_error r \<noteq> None \<longleftrightarrow> ar_state r = ar_failed) \<and>
     (ar_state r = ar_completed \<longrightarrow> ar_expires_at r = None)"

lemma unat_max32: "unat (- 1 :: 32 word) = 2 ^ 32 - 1"
  by (simp add: unsigned_minus_1_eq_mask mask_eq_exp_minus_1)

lemma unat_saturating_add_1:
  assumes "unat a = min n (2 ^ 32 - 1)"
  shows "unat (saturating_add a 1) = min (Suc n) (2 ^ 32 - 1)"
proof (cases "a = - 1")
  case True
  with assms unat_max32 show ?thesis
    by (simp add: saturating_add_def word_less_nat_alt)
next
  case False
  then have "unat a \<noteq> 2 ^ 32 - 1"
    using unat_max32 word_unat_eq_iff [of a "- 1"] by simp
  then have lt: "unat a < 2 ^ 32 - 1" "unat a = n"
    using assms by auto
  have "unat (- 1 - (1 :: 32 word)) = unat (- 1 :: 32 word) - unat (1 :: 32 word)"
    by (rule unat_sub) (simp add: word_le_nat_alt unat_max32)
  then have "\<not> a > - 1 - 1"
    using lt(1) unat_max32 by (simp add: word_less_nat_alt del: diff_minus_eq_add)
  moreover have "unat (a + 1) = unat a + 1"
    using lt(1) by (simp add: unat_word_ariths)
  ultimately show ?thesis
    using lt by (simp add: saturating_add_def)
qed

lemma automation_inv_step:
  assumes inv: "automation_inv n r" and ap: "automation_apply r e = (r', None)"
  shows "automation_inv (if ar_state r' = ar_running then Suc n else n) r'"
proof -
  obtain r1 s where sw: "automation_switch r e = Some (r1, s)" and r': "r' = r1\<lparr>ar_state := s\<rparr>"
    using ap by (auto elim: automation_apply_cases)
  show ?thesis
    using sw inv unat_saturating_add_1 [of "ar_attempts r" n]
    by (auto simp: automation_inv_def automation_switch_def automation_parse_state_def r' split: if_split_asm)
qed

lemma automation_reachable_inv: "automation_reachable n r \<Longrightarrow> automation_inv n r"
proof (induction rule: automation_reachable.induct)
  case fresh
  then show ?case
    by (simp add: automation_inv_def new_automation_run_def automation_parse_state_def)
next
  case (enter n r e r')
  then show ?case using automation_inv_step [of n r e r'] by simp
next
  case (other n r e r')
  then show ?case using automation_inv_step [of n r e r'] by simp
qed

section \<open>Properties\<close>

text \<open>
  What holds of every automation run that can occur, \<open>n\<close> being the number of times it was
  claimed or resumed: its state is one of the six wire states; the attempts counter is \<open>n\<close>,
  saturated at 2^32 - 1; a run that is past the queue (other than a failed one) was claimed; the
  error text is set exactly when the run has failed; and a completed run carries no deadline.
\<close>

theorem automation_run_invariant:
  assumes "automation_reachable n r"
  shows "automation_parse_state (ar_state r) = Inr (ar_state r) \<and>
    unat (ar_attempts r) = min n (2 ^ 32 - 1) \<and>
    (ar_state r = ar_queued \<longrightarrow> n = 0) \<and>
    (ar_state r \<in> {ar_running, ar_suspended, ar_compensating, ar_completed} \<longrightarrow> 0 < n) \<and>
    (ar_last_error r \<noteq> None \<longleftrightarrow> ar_state r = ar_failed) \<and>
    (ar_state r = ar_completed \<longrightarrow> ar_expires_at r = None)"
  using automation_reachable_inv [OF assms] unfolding automation_inv_def .

definition sample_run :: automation_run where
  "sample_run = new_automation_run 1 2 3 4 (Some 50)"

definition claimed_run :: automation_run where
  "claimed_run = sample_run\<lparr>ar_attempts := 1, ar_state := ar_running\<rparr>"

definition rejected_run :: automation_run where
  "rejected_run = sample_run\<lparr>ar_last_error := Some ''bad'', ar_state := ar_failed\<rparr>"

lemma claimed_run: "automation_apply sample_run claim_event = (claimed_run, None)"
  by (simp add: sample_run_def claimed_run_def new_automation_run_def automation_apply_def automation_switch_def
      claim_event_def automation_event_of_def automation_can_transition_def saturating_add_def word_less_nat_alt
      unat_max32)

lemma rejected_run: "automation_apply sample_run (pre_flight_failed_event ''bad'') = (rejected_run, None)"
  by (simp add: sample_run_def rejected_run_def new_automation_run_def automation_apply_def automation_switch_def
      pre_flight_failed_event_def automation_event_of_def automation_can_transition_def)

theorem automation_run_invariant_witness:
  "automation_reachable 1 claimed_run \<and> unat (ar_attempts claimed_run) = 1 \<and> ar_last_error claimed_run = None"
proof -
  have "automation_reachable 0 sample_run"
    unfolding sample_run_def by (rule automation_reachable.fresh)
  from automation_reachable.enter [OF this claimed_run]
  have reach: "automation_reachable 1 claimed_run"
    by (simp add: claimed_run_def)
  have "ar_state claimed_run = ar_running"
    by (simp add: claimed_run_def)
  with reach automation_run_invariant [OF reach] show ?thesis
    by simp
qed

text \<open>
  A run that ends with a deadline is never done with: whenever it is stored and its deadline has
  passed, every sweep returns it, and every event that the sweep's caller can apply is refused. A run
  rejected before it starts, or one whose compensation is finished, keeps its deadline.
\<close>

theorem automation_terminal_swept_forever:
  assumes tab: "table_ok automation_ops automation_ok db" and nf: "no_faults db"
    and row: "sm_lookup db (ar_id r) = Some row" "row_of automation_ops (ar_id r) row r"
    and ended: "automation_terminal (ar_state r)" and t: "ar_expires_at r = Some t" "t \<le> now"
  shows "\<exists>lds. snd (timeout_sweep automation_ops now db) = Inr lds \<and>
    (\<exists>ld \<in> set lds. ld_machine ld = r \<and> ld_version ld = sm_version row \<and>
       (\<forall>e. \<exists>msg. store_apply automation_ops ld e db = (db, Inl (TransitionError msg))))"
proof -
  obtain lds where lds: "snd (timeout_sweep automation_ops now db) = Inr lds"
    "\<forall>ld \<in> set lds. automation_ok (ld_machine ld) \<and> (\<exists>t. ar_expires_at (ld_machine ld) = Some t \<and> t \<le> now) \<and>
       (\<exists>row. sm_lookup db (ar_id (ld_machine ld)) = Some row \<and> ld_version ld = sm_version row \<and>
          row_of automation_ops (ar_id (ld_machine ld)) row (ld_machine ld))"
    "\<forall>i row m t. sm_lookup db i = Some row \<longrightarrow> row_of automation_ops i row m \<longrightarrow>
       ar_expires_at m = Some t \<longrightarrow> t \<le> now \<longrightarrow> m \<in> ld_machine ` set lds"
    using automation.timeout_sweep_due [OF tab nf, of now] by auto
  then obtain ld where ld: "ld \<in> set lds" "ld_machine ld = r"
    using row t by blast
  moreover have "ld_version ld = sm_version row"
    using lds(2) ld row(1) by fastforce
  moreover have "\<exists>msg. store_apply automation_ops ld e db = (db, Inl (TransitionError msg))" for e
    using automation_apply_terminal [OF ended] ld(2) by (simp add: store_apply_def Let_def)
  ultimately show ?thesis
    using lds(1) by blast
qed

definition rejected_db :: sm_db where
  "rejected_db = \<lparr>pg_clock = 0, pg_fault = (\<lambda>_. None),
     sm_rows = [(1, \<lparr>sm_state = ar_failed, sm_state_data = projr (automation_marshal rejected_run),
                     sm_version = 2, sm_expires_at = Some 50\<rparr>)]\<rparr>"

lemma rejected_simps [simp]:
  "ar_id rejected_run = 1" "ar_state rejected_run = ar_failed" "ar_expires_at rejected_run = Some 50"
  "automation_ok rejected_run"
  by (simp_all add: rejected_run_def sample_run_def new_automation_run_def automation_ok_def)

theorem automation_terminal_swept_forever_witness:
  "automation_apply sample_run (pre_flight_failed_event ''bad'') = (rejected_run, None) \<and>
   (\<exists>lds. snd (timeout_sweep automation_ops 60 rejected_db) = Inr lds \<and> rejected_run \<in> ld_machine ` set lds)"
proof -
  let ?row = "\<lparr>sm_state = ar_failed, sm_state_data = projr (automation_marshal rejected_run),
      sm_version = 2, sm_expires_at = Some 50\<rparr>"
  have row: "row_of automation_ops 1 ?row rejected_run"
    using automation_roundtrip [of rejected_run] by (auto simp: row_of_def)
  then have tab: "table_ok automation_ops automation_ok rejected_db"
    by (auto simp: table_ok_def rejected_db_def intro!: exI [of _ rejected_run])
  have "no_faults rejected_db" "sm_lookup rejected_db (ar_id rejected_run) = Some ?row"
    by (simp_all add: no_faults_def rejected_db_def sm_lookup_def)
  with automation_terminal_swept_forever [OF tab, of rejected_run ?row 50 60] row rejected_run show ?thesis
    by (force simp: automation_terminal_def)
qed

end
