(* ===== verification/Job_States.thy ===== *)
theory Job_States
  imports State_Machine_Proofs Json Lifecycle
begin

text \<open>
  The smaller transition tables: the job lifecycle of \<^verbatim>\<open>reindex-coordinator-service\<close>, the build
  lifecycle of \<^verbatim>\<open>pipeline-build-service\<close>, and the deployment machine of
  \<^verbatim>\<open>model-deployment-service\<close>, which is an aggregate of the store. Statuses are Go strings.
\<close>

section \<open>Reindex jobs\<close>

definition reindex_statuses :: "string list" where
  "reindex_statuses = [''queued'', ''running'', ''completed'', ''failed'', ''cancelled'']"

datatype reindex_error = UnknownStatusError string | IllegalTransitionError string string

definition reindex_parse_status :: "string \<Rightarrow> reindex_error + string" where
  "reindex_parse_status v =
     (case find (\<lambda>s. s = v) reindex_statuses of None \<Rightarrow> Inl (UnknownStatusError v) | Some s \<Rightarrow> Inr s)"

definition reindex_terminal :: "string \<Rightarrow> bool" where
  "reindex_terminal s \<longleftrightarrow> s = ''completed'' \<or> s = ''failed'' \<or> s = ''cancelled''"

definition reindex_can_transition :: "string \<Rightarrow> string \<Rightarrow> bool" where
  "reindex_can_transition s next \<longleftrightarrow>
     (if s = next then True
      else if s = ''queued'' then next = ''running'' \<or> next = ''failed'' \<or> next = ''cancelled''
      else if s = ''running'' then next = ''completed'' \<or> next = ''failed'' \<or> next = ''cancelled''
      else False)"

definition reindex_ensure_transition :: "string \<Rightarrow> string \<Rightarrow> reindex_error option" where
  "reindex_ensure_transition s next =
     (if reindex_can_transition s next then None else Some (IllegalTransitionError s next))"

definition reindex_rank :: "string \<Rightarrow> nat" where
  "reindex_rank s = (if s = ''queued'' then 0 else if s = ''running'' then 1 else 2)"

interpretation reindex_table: ranked_lifecycle reindex_can_transition reindex_terminal reindex_rank
  by unfold_locales (auto simp: reindex_can_transition_def reindex_terminal_def reindex_rank_def split: if_splits)

section \<open>Builds\<close>

definition build_transitions :: "(string \<times> string) list" where
  "build_transitions =
     [(''BUILD_RESOLUTION'', ''BUILD_QUEUED''), (''BUILD_RESOLUTION'', ''BUILD_FAILED''),
      (''BUILD_RESOLUTION'', ''BUILD_ABORTING''), (''BUILD_QUEUED'', ''BUILD_RUNNING''),
      (''BUILD_QUEUED'', ''BUILD_FAILED''), (''BUILD_QUEUED'', ''BUILD_ABORTING''),
      (''BUILD_RUNNING'', ''BUILD_COMPLETED''), (''BUILD_RUNNING'', ''BUILD_FAILED''),
      (''BUILD_RUNNING'', ''BUILD_ABORTING''), (''BUILD_ABORTING'', ''BUILD_ABORTED'')]"

definition build_valid_transition :: "string \<Rightarrow> string \<Rightarrow> bool" where
  "build_valid_transition s t \<longleftrightarrow> (s, t) \<in> set build_transitions"

definition build_check_transition :: "string \<Rightarrow> string \<Rightarrow> (string \<times> string) option" where
  "build_check_transition s t = (if \<not> build_valid_transition s t then Some (s, t) else None)"

definition build_terminal :: "string \<Rightarrow> bool" where
  "build_terminal s \<longleftrightarrow> s = ''BUILD_COMPLETED'' \<or> s = ''BUILD_FAILED'' \<or> s = ''BUILD_ABORTED''"

definition build_rank :: "string \<Rightarrow> nat" where
  "build_rank s =
     (if s = ''BUILD_RESOLUTION'' then 0 else if s = ''BUILD_QUEUED'' then 1
      else if s = ''BUILD_RUNNING'' then 2 else if s = ''BUILD_ABORTING'' then 3 else 4)"

interpretation build_table: ranked_lifecycle build_valid_transition build_terminal build_rank
  by unfold_locales (auto simp: build_valid_transition_def build_transitions_def build_terminal_def build_rank_def)

section \<open>Deployments\<close>

definition deployment_status_valid :: "string \<Rightarrow> bool" where
  "deployment_status_valid s \<longleftrightarrow> s \<in> {''pending'', ''running'', ''degraded'', ''terminated''}"

definition deployment_can_transition :: "string \<Rightarrow> string \<Rightarrow> bool" where
  "deployment_can_transition from to \<longleftrightarrow>
     (if from = ''terminated'' then False
      else if to = ''terminated'' then True
      else if from = ''pending'' then to = ''running''
      else if from = ''running'' then to = ''degraded''
      else if from = ''degraded'' then to = ''running''
      else False)"

record deployment_machine =
  dm_id :: uuid
  dm_state :: string

definition deployment_apply :: "deployment_machine \<Rightarrow> string \<Rightarrow> deployment_machine \<times> string option" where
  "deployment_apply m target =
     (if \<not> deployment_status_valid target then (m, Some (''unknown target status: '' @ target))
      else if \<not> deployment_can_transition (dm_state m) target then (m, Some (dm_state m @ arrow @ target))
      else (m\<lparr>dm_state := target\<rparr>, None))"

definition deployment_marshal :: "deployment_machine \<Rightarrow> string + json" where
  "deployment_marshal m = Inr (JObj [(''id'', JUuid (dm_id m)), (''state'', JStr (dm_state m))])"

definition deployment_unmarshal :: "json \<Rightarrow> string + deployment_machine" where
  "deployment_unmarshal j =
     and_then (dec_obj j) (\<lambda>obj.
     and_then (dec_uuid (json_field ''id'' obj)) (\<lambda>i.
     and_then (dec_str (json_field ''state'' obj)) (\<lambda>s. Inr \<lparr>dm_id = i, dm_state = s\<rparr>)))"

definition deployment_ops :: "(deployment_machine, string) aggregate_ops" where
  "deployment_ops = \<lparr>agg_apply = deployment_apply, agg_state = dm_state, agg_id = dm_id,
     agg_expires_at = (\<lambda>_. None), agg_marshal = deployment_marshal, agg_unmarshal = deployment_unmarshal\<rparr>"

interpretation deployment: aggregate deployment_ops "\<lambda>_. True"
  by unfold_locales
     (auto simp: deployment_ops_def deployment_apply_def deployment_marshal_def deployment_unmarshal_def
        json_lookup split: if_splits)

interpretation deployment_table: lifecycle deployment_can_transition "\<lambda>s. s = ''terminated''"
  by unfold_locales (auto simp: deployment_can_transition_def)

section \<open>Properties\<close>

text \<open>The runs of a table whose proper moves climb a rank.\<close>

text \<open>
  A deployment machine accepts a status exactly along the lifecycle graph: a machine in one of
  the four states moves to a target if the target is a valid status and the graph has the edge, any
  other target (the current state included) is refused and changes nothing; a terminated machine
  accepts nothing, for ever; and every machine that is not terminated can be terminated.
\<close>

theorem deployment_lifecycle:
  assumes "deployment_status_valid (dm_state m)"
  shows "(\<forall>target. (snd (deployment_apply m target) = None \<longleftrightarrow>
      (dm_state m, target) \<in> {(''pending'', ''running''), (''running'', ''degraded''), (''degraded'', ''running''),
        (''pending'', ''terminated''), (''running'', ''terminated''), (''degraded'', ''terminated'')}) \<and>
      fst (deployment_apply m target) =
        (if snd (deployment_apply m target) = None then m\<lparr>dm_state := target\<rparr> else m)) \<and>
    (\<forall>s. moves deployment_can_transition ''terminated'' s \<longrightarrow> s = ''terminated'')"
proof -
  from assms consider "dm_state m = ''pending''" | "dm_state m = ''running''" | "dm_state m = ''degraded''"
    | "dm_state m = ''terminated''"
    by (auto simp: deployment_status_valid_def)
  then have "\<forall>target. (snd (deployment_apply m target) = None \<longleftrightarrow>
      (dm_state m, target) \<in> {(''pending'', ''running''), (''running'', ''degraded''), (''degraded'', ''running''),
        (''pending'', ''terminated''), (''running'', ''terminated''), (''degraded'', ''terminated'')}) \<and>
      fst (deployment_apply m target) =
        (if snd (deployment_apply m target) = None then m\<lparr>dm_state := target\<rparr> else m)"
    by cases (auto simp: deployment_apply_def deployment_can_transition_def deployment_status_valid_def)
  with deployment_table.terminal_forever show ?thesis by blast
qed

theorem deployment_lifecycle_witness:
  "snd (deployment_apply \<lparr>dm_id = 1, dm_state = ''running''\<rparr> ''degraded'') = None \<and>
   snd (deployment_apply \<lparr>dm_id = 1, dm_state = ''running''\<rparr> ''running'') \<noteq> None"
proof -
  have "deployment_status_valid (dm_state \<lparr>dm_id = 1, dm_state = ''running''\<rparr>)"
    by (simp add: deployment_status_valid_def)
  from deployment_lifecycle [OF this] show ?thesis
    by (auto simp: numeral_2_eq_2)
qed

text \<open>
  No build and no reindex job returns to a state it has left, whatever sequence of allowed moves
  it makes, and one that has reached a terminal state stays in it.
\<close>

theorem lifecycles_never_return:
  "(moves build_valid_transition s t \<and> moves build_valid_transition t s \<longrightarrow> t = s) \<and>
   (build_terminal s \<and> moves build_valid_transition s t \<longrightarrow> t = s) \<and>
   (moves reindex_can_transition s t \<and> moves reindex_can_transition t s \<longrightarrow> t = s) \<and>
   (reindex_terminal s \<and> moves reindex_can_transition s t \<longrightarrow> t = s)"
  using build_table.no_return build_table.terminal_forever reindex_table.no_return
    reindex_table.terminal_forever by blast

theorem lifecycles_never_return_witness:
  "build_terminal ''BUILD_FAILED'' \<and> moves build_valid_transition ''BUILD_RUNNING'' ''BUILD_FAILED'' \<and>
   \<not> moves build_valid_transition ''BUILD_FAILED'' ''BUILD_RUNNING''"
proof -
  have "build_valid_transition ''BUILD_RUNNING'' ''BUILD_FAILED''"
    by (simp add: build_valid_transition_def build_transitions_def)
  then have "moves build_valid_transition ''BUILD_RUNNING'' ''BUILD_FAILED''"
    by (rule moves_step [OF moves_refl])
  moreover have "build_terminal ''BUILD_FAILED''"
    by (simp add: build_terminal_def)
  ultimately show ?thesis
    using lifecycles_never_return [of "''BUILD_FAILED''" "''BUILD_RUNNING''"] by auto
qed

end
