(* ===== verification/Job_Lifecycle.thy ===== *)
theory Job_Lifecycle
  imports Pg_Tx Lifecycle
begin

text \<open>
  The job lifecycle of \<^verbatim>\<open>pipeline-build-service\<close>: the state table of
  \<^verbatim>\<open>internal/domain/joblifecycle/joblifecycle.go\<close> with \<^verbatim>\<open>internal/models/job.go\<close>, the transactional
  row update with its audit row, and the wrapper that opens a transaction of its own.
\<close>

section \<open>States\<close>

datatype job_state = JobWaiting | JobRunPending | JobRunning | JobAbortPending | JobAborted | JobFailed | JobCompleted

fun job_state_string :: "job_state \<Rightarrow> string" where
  "job_state_string JobWaiting = ''WAITING''"
| "job_state_string JobRunPending = ''RUN_PENDING''"
| "job_state_string JobRunning = ''RUNNING''"
| "job_state_string JobAbortPending = ''ABORT_PENDING''"
| "job_state_string JobAborted = ''ABORTED''"
| "job_state_string JobFailed = ''FAILED''"
| "job_state_string JobCompleted = ''COMPLETED''"

definition all_job_states :: "job_state list" where
  "all_job_states = [JobWaiting, JobRunPending, JobRunning, JobAbortPending, JobAborted, JobFailed, JobCompleted]"

fun job_is_terminal :: "job_state \<Rightarrow> bool" where
  "job_is_terminal s \<longleftrightarrow> s = JobAborted \<or> s = JobFailed \<or> s = JobCompleted"

text \<open>\<open>None\<close> is the \<^verbatim>\<open>UnknownJobState\<close> error.\<close>

definition parse_job_state :: "string \<Rightarrow> job_state option" where
  "parse_job_state v = find (\<lambda>s. job_state_string s = v) all_job_states"

definition job_valid_transition :: "job_state \<Rightarrow> job_state \<Rightarrow> bool" where
  "job_valid_transition s t \<longleftrightarrow>
     (s, t) \<in> {(JobWaiting, JobRunPending), (JobWaiting, JobAborted), (JobWaiting, JobAbortPending),
              (JobRunPending, JobRunning), (JobRunPending, JobAbortPending), (JobRunPending, JobFailed),
              (JobRunning, JobCompleted), (JobRunning, JobFailed), (JobRunning, JobAbortPending),
              (JobAbortPending, JobAborted)}"

text \<open>\<^verbatim>\<open>strings.Contains\<close>.\<close>

definition contains_sub :: "string \<Rightarrow> string \<Rightarrow> bool" where
  "contains_sub s p \<longleftrightarrow> (\<exists>k \<in> {0..length s}. has_prefix (drop k s) p)"

definition normalize_job_status :: "string \<Rightarrow> bool \<Rightarrow> string option \<Rightarrow> string" where
  "normalize_job_status state stale_skipped reason =
     (case parse_job_state state of
        Some JobCompleted \<Rightarrow> if stale_skipped then ''ignored'' else ''succeeded''
      | Some JobFailed \<Rightarrow> ''failed''
      | Some JobAborted \<Rightarrow>
          if (case reason of Some r \<Rightarrow> contains_sub (to_lower r) ''dependency'' | None \<Rightarrow> False)
          then ''skipped'' else ''cancelled''
      | Some JobAbortPending \<Rightarrow>
          if (case reason of Some r \<Rightarrow> contains_sub (to_lower r) ''dependency'' | None \<Rightarrow> False)
          then ''skipped'' else ''cancelled''
      | Some JobRunning \<Rightarrow> ''running''
      | _ \<Rightarrow> ''queued'')"

section \<open>The tables\<close>

record job_audit =
  ja_job :: uuid
  ja_from :: job_state
  ja_to :: job_state
  ja_reason :: "string option"

text \<open>The \<^verbatim>\<open>state\<close> column of \<^verbatim>\<open>jobs\<close>, and \<^verbatim>\<open>job_state_transitions\<close> in insertion order.\<close>

record job_db = pg +
  jobs :: "uuid \<rightharpoonup> string"
  job_audits :: "job_audit list"

datatype job_error =
    JobNotFound uuid
  | UnknownJobState string
  | InvalidTransition job_state job_state
  | JobDb string

section \<open>Transitions\<close>

definition transition_job_in_tx ::
  "uuid \<Rightarrow> job_state option \<Rightarrow> job_state \<Rightarrow> string option \<Rightarrow> 'a job_db_scheme \<Rightarrow>
   'a job_db_scheme \<times> (job_error + job_state)" where
  "transition_job_in_tx job_id expected_from to reason db =
     (case pg_exec (\<lambda>db. (db, jobs db job_id)) db of
        (db1, Inl msg) \<Rightarrow> (db1, Inl (JobDb msg))
      | (db1, Inr None) \<Rightarrow> (db1, Inl (JobNotFound job_id))
      | (db1, Inr (Some state_str)) \<Rightarrow>
          (case parse_job_state state_str of
             None \<Rightarrow> (db1, Inl (UnknownJobState state_str))
           | Some from \<Rightarrow>
               if expected_from \<noteq> None \<and> expected_from \<noteq> Some from then (db1, Inl (InvalidTransition from to))
               else if from = to then (db1, Inr from)
               else if \<not> job_valid_transition from to then (db1, Inl (InvalidTransition from to))
               else
                 (case pg_exec (\<lambda>db. (db\<lparr>jobs := (jobs db)(job_id \<mapsto> job_state_string to)\<rparr>, ())) db1 of
                    (db2, Inl msg) \<Rightarrow> (db2, Inl (JobDb msg))
                  | (db2, Inr _) \<Rightarrow>
                      (case pg_exec (\<lambda>db. (db\<lparr>job_audits := job_audits db @
                              [\<lparr>ja_job = job_id, ja_from = from, ja_to = to, ja_reason = reason\<rparr>]\<rparr>, ())) db2 of
                         (db3, Inl msg) \<Rightarrow> (db3, Inl (JobDb msg))
                       | (db3, Inr _) \<Rightarrow> (db3, Inr from)))))"

text \<open>
  Its own transaction: begin, the transition, commit; anything that fails rolls the tables back to
  what they were at the beginning.
\<close>

definition job_rollback :: "'a job_db_scheme \<Rightarrow> 'a job_db_scheme \<Rightarrow> 'a job_db_scheme" where
  "job_rollback db db' = db'\<lparr>jobs := jobs db, job_audits := job_audits db\<rparr>"

definition transition_job ::
  "uuid \<Rightarrow> job_state option \<Rightarrow> job_state \<Rightarrow> string option \<Rightarrow> 'a job_db_scheme \<Rightarrow>
   'a job_db_scheme \<times> (job_error + job_state)" where
  "transition_job job_id expected_from to reason db =
     (case pg_exec (\<lambda>db. (db, ())) db of
        (db1, Inl msg) \<Rightarrow> (db1, Inl (JobDb msg))
      | (db1, Inr _) \<Rightarrow>
          (case transition_job_in_tx job_id expected_from to reason db1 of
             (db2, Inl err) \<Rightarrow> (job_rollback db db2, Inl err)
           | (db2, Inr from) \<Rightarrow>
               (case pg_exec (\<lambda>db. (db, ())) db2 of
                  (db3, Inl msg) \<Rightarrow> (job_rollback db db3, Inl (JobDb msg))
                | (db3, Inr _) \<Rightarrow> (db3, Inr from))))"

section \<open>Lemmas\<close>

lemma parse_job_state_string [simp]: "parse_job_state (job_state_string s) = Some s"
  by (cases s) (simp_all add: parse_job_state_def all_job_states_def)

lemma parse_job_stateD: "parse_job_state v = Some s \<Longrightarrow> v = job_state_string s"
  by (auto simp: parse_job_state_def all_job_states_def split: if_splits)

definition job_rank :: "job_state \<Rightarrow> nat" where
  "job_rank s = (case s of JobWaiting \<Rightarrow> 0 | JobRunPending \<Rightarrow> 1 | JobRunning \<Rightarrow> 2 | JobAbortPending \<Rightarrow> 3 | _ \<Rightarrow> 4)"

interpretation job_table: ranked_lifecycle job_valid_transition job_is_terminal job_rank
  by unfold_locales (auto simp: job_valid_transition_def job_rank_def)

lemma pg_exec_job_frame:
  "pg_exec (\<lambda>db. (db, r db)) db = (db', res) \<Longrightarrow> jobs db' = jobs db \<and> job_audits db' = job_audits db"
  by (auto simp: pg_exec_def split: option.splits)

lemma transition_job_in_tx_InrD:
  assumes "transition_job_in_tx i ef to reason db = (db', Inr from)"
  shows "jobs db i = Some (job_state_string from) \<and> (ef = None \<or> ef = Some from) \<and>
    (if from = to then jobs db' = jobs db \<and> job_audits db' = job_audits db
     else job_valid_transition from to \<and> jobs db' = (jobs db)(i \<mapsto> job_state_string to) \<and>
       job_audits db' = job_audits db @ [\<lparr>ja_job = i, ja_from = from, ja_to = to, ja_reason = reason\<rparr>])"
  using assms
  by (auto simp: transition_job_in_tx_def pg_exec_def Let_def dest!: parse_job_stateD
      split: prod.splits sum.splits option.splits if_splits)

text \<open>What a call of the wrapper leaves behind: nothing after an error, the step after a success.\<close>

lemma transition_job_cases:
  assumes "transition_job i ef to reason db = (db', res)"
  obtains (failed) err where "res = Inl err" "jobs db' = jobs db" "job_audits db' = job_audits db"
    | (same) "res = Inr to" "jobs db i = Some (job_state_string to)" "jobs db' = jobs db"
      "job_audits db' = job_audits db"
    | (moved) src where "res = Inr src" "jobs db i = Some (job_state_string src)" "job_valid_transition src to"
      "ef = None \<or> ef = Some src" "jobs db' = (jobs db)(i \<mapsto> job_state_string to)"
      "job_audits db' = job_audits db @ [\<lparr>ja_job = i, ja_from = src, ja_to = to, ja_reason = reason\<rparr>]"
proof -
  obtain db1 b where b: "pg_exec (\<lambda>db. (db, ())) db = (db1, b)"
    by fastforce
  note f1 = pg_exec_job_frame [OF b]
  show ?thesis
  proof (cases b)
    case (Inl msg)
    then show ?thesis using assms b f1 failed [of "JobDb msg"] by (simp add: transition_job_def)
  next
    case (Inr u)
    obtain db2 r where r: "transition_job_in_tx i ef to reason db1 = (db2, r)"
      by fastforce
    show ?thesis
    proof (cases r)
      case (Inl err)
      then show ?thesis using assms b Inr r failed by (auto simp: transition_job_def job_rollback_def)
    next
      case res_src: (Inr src)
      obtain db3 c where c: "pg_exec (\<lambda>db. (db, ())) db2 = (db3, c)"
        by fastforce
      note f3 = pg_exec_job_frame [OF c]
      note step = transition_job_in_tx_InrD [OF r [unfolded res_src]]
      show ?thesis
      proof (cases c)
        case (Inl msg)
        then show ?thesis
          using assms b \<open>b = Inr u\<close> r res_src c failed by (auto simp: transition_job_def job_rollback_def)
      next
        case (Inr v)
        then have "db' = db3" "res = Inr src"
          using assms b \<open>b = Inr u\<close> r res_src c by (simp_all add: transition_job_def)
        with step f1 f3 same moved show ?thesis
          by (cases "src = to") auto
      qed
    qed
  qed
qed

text \<open>The audit rows of one job, read as a walk through the table that ends in its state.\<close>

fun walk :: "job_state \<Rightarrow> job_audit list \<Rightarrow> job_state option" where
  "walk s [] = Some s"
| "walk s (a # as) = (if ja_from a = s \<and> job_valid_transition s (ja_to a) then walk (ja_to a) as else None)"

definition audits_of :: "uuid \<Rightarrow> 'a job_db_scheme \<Rightarrow> job_audit list" where
  "audits_of i db = filter (\<lambda>a. ja_job a = i) (job_audits db)"

lemma walk_append:
  "walk s (as @ [a]) = (case walk s as of None \<Rightarrow> None | Some t \<Rightarrow>
     if ja_from a = t \<and> job_valid_transition t (ja_to a) then Some (ja_to a) else None)"
  by (induction as arbitrary: s) auto

lemma walk_moves: "walk s as = Some t \<Longrightarrow> moves job_valid_transition s t"
proof (induction as arbitrary: s)
  case (Cons a as)
  then have "job_valid_transition s (ja_to a)" "moves job_valid_transition (ja_to a) t"
    by (auto split: if_splits)
  then show ?case
    unfolding moves_def by (rule converse_rtranclp_into_rtranclp)
qed simp

lemma walk_length: "walk s as = Some t \<Longrightarrow> job_rank s + length as \<le> job_rank t"
proof (induction as arbitrary: s)
  case (Cons a as)
  then have step: "job_valid_transition s (ja_to a)" and rest: "walk (ja_to a) as = Some t"
    by (auto split: if_splits)
  have "job_rank s < job_rank (ja_to a)"
    using step by (rule job_table.climbs) (use step in \<open>auto simp: job_valid_transition_def\<close>)
  with Cons.IH [OF rest] show ?case by simp
qed simp

definition job_table_ok :: "'a job_db_scheme \<Rightarrow> bool" where
  "job_table_ok db \<longleftrightarrow>
     (\<forall>i v. jobs db i = Some v \<longrightarrow> (\<exists>t. v = job_state_string t \<and> walk JobWaiting (audits_of i db) = Some t))"

lemma job_state_string_inj [simp]: "job_state_string s = job_state_string t \<longleftrightarrow> s = t"
  by (metis option.inject parse_job_state_string)

lemma transition_job_ok:
  assumes ok: "job_table_ok db" and run: "transition_job i ef to reason db = (db', res)"
  shows "job_table_ok db'"
  using run
proof (cases rule: transition_job_cases)
  case (moved src)
  show ?thesis
    unfolding job_table_ok_def
  proof (intro allI impI)
    fix k v assume v: "jobs db' k = Some v"
    show "\<exists>t. v = job_state_string t \<and> walk JobWaiting (audits_of k db') = Some t"
    proof (cases "k = i")
      case True
      have "walk JobWaiting (audits_of i db) = Some src"
        using ok moved(2) unfolding job_table_ok_def by (metis job_state_string_inj)
      with True v moved show ?thesis
        by (simp add: audits_of_def walk_append)
    next
      case False
      with v moved ok show ?thesis
        by (simp add: job_table_ok_def audits_of_def)
    qed
  qed
qed (use ok in \<open>simp_all add: job_table_ok_def audits_of_def\<close>)

text \<open>Any number of calls, by anyone, with any of their statements failing.\<close>

inductive job_steps :: "'a job_db_scheme \<Rightarrow> 'a job_db_scheme \<Rightarrow> bool" where
  none: "job_steps db db"
| step: "job_steps db db1 \<Longrightarrow> transition_job i ef to reason db1 = (db2, res) \<Longrightarrow> job_steps db db2"

lemma job_steps_ok: "job_steps db db' \<Longrightarrow> job_table_ok db \<Longrightarrow> job_table_ok db'"
  by (induction rule: job_steps.induct) (auto intro: transition_job_ok)

section \<open>Properties\<close>

text \<open>
  C9. The audit trail explains every job. Starting with all jobs waiting and no audit rows, after any
  sequence of transition calls with any failing statements, the audit rows of each job, in insertion
  order, form a walk through the lifecycle table from WAITING to the state of its row, and there are
  at most four of them.
\<close>

theorem job_audit_trail:
  assumes start: "\<And>i v. jobs db i = Some v \<Longrightarrow> v = ''WAITING''" "job_audits db = []"
    and run: "job_steps db db'" and row: "jobs db' i = Some v"
  shows "\<exists>t. v = job_state_string t \<and> walk JobWaiting (audits_of i db') = Some t \<and>
    length (audits_of i db') \<le> 4 \<and> moves job_valid_transition JobWaiting t"
proof -
  have "job_table_ok db"
    using start by (fastforce simp: job_table_ok_def audits_of_def)
  with run have "job_table_ok db'"
    by (rule job_steps_ok)
  then obtain t where t: "v = job_state_string t" "walk JobWaiting (audits_of i db') = Some t"
    using row by (auto simp: job_table_ok_def)
  moreover have "job_rank t \<le> 4"
    by (simp add: job_rank_def split: job_state.split)
  ultimately show ?thesis
    using walk_length [OF t(2)] walk_moves [OF t(2)] by (auto simp: job_rank_def)
qed

definition one_job :: job_db where
  "one_job = \<lparr>pg_clock = 0, pg_fault = (\<lambda>_. None), jobs = [1 \<mapsto> ''WAITING''], job_audits = []\<rparr>"

lemma one_job_run:
  "\<exists>db1. transition_job 1 None JobRunPending None one_job = (db1, Inr JobWaiting) \<and>
     jobs db1 1 = Some ''RUN_PENDING''"
  by (simp add: transition_job_def transition_job_in_tx_def pg_exec_def one_job_def parse_job_state_def
      all_job_states_def job_valid_transition_def)

theorem job_audit_trail_witness:
  "\<exists>db1. transition_job 1 None JobRunPending None one_job = (db1, Inr JobWaiting) \<and>
     walk JobWaiting (audits_of 1 db1) = Some JobRunPending"
proof -
  obtain db1 where db1: "transition_job 1 None JobRunPending None one_job = (db1, Inr JobWaiting)"
    "jobs db1 1 = Some ''RUN_PENDING''"
    using one_job_run by blast
  have "jobs one_job i = Some v \<Longrightarrow> v = ''WAITING''" for i v
    by (simp add: one_job_def split: if_splits)
  moreover have "job_audits one_job = []"
    by (simp add: one_job_def)
  ultimately obtain t where "''RUN_PENDING'' = job_state_string t" "walk JobWaiting (audits_of 1 db1) = Some t"
    using job_audit_trail [of one_job db1 1 "''RUN_PENDING''"] job_steps.step [OF job_steps.none db1(1)] db1(2) by blast
  then show ?thesis
    using db1(1) by (cases t) auto
qed

end
