(* ===== verification/Idempotency.thy ===== *)
theory Idempotency
  imports Pg_Tx
begin

text \<open>
  Consumer-side deduplication, \<^verbatim>\<open>libs/idempotency/idempotency.go\<close>: the store interface as the locale
  \<open>dedup_store\<close>, its in-memory and Postgres implementations as interpretations, and the
  \<^verbatim>\<open>Idempotent\<close> wrapper with the exactly-once lemmas proved once for the interface. (The Cassandra
  store is a thin call of another driver and is left out.)
\<close>

datatype outcome = FirstSeen | AlreadyProcessed

definition is_first_seen :: "outcome \<Rightarrow> bool" where
  "is_first_seen oc \<longleftrightarrow> oc = FirstSeen"

definition is_already_processed :: "outcome \<Rightarrow> bool" where
  "is_already_processed oc \<longleftrightarrow> oc = AlreadyProcessed"

section \<open>The stores\<close>

text \<open>\<^verbatim>\<open>MemStore\<close>: the set of recorded ids.\<close>

type_synonym mem_store = "uuid list"

definition mem_check_and_record :: "uuid \<Rightarrow> mem_store \<Rightarrow> mem_store \<times> (string + outcome)" where
  "mem_check_and_record e seen =
     (if e \<in> set seen then (seen, Inr AlreadyProcessed) else (e # seen, Inr FirstSeen))"

definition mem_len :: "mem_store \<Rightarrow> nat" where
  "mem_len seen = length seen"

text \<open>\<^verbatim>\<open>PgStore\<close>: \<^verbatim>\<open>INSERT \<dots> ON CONFLICT (event_id) DO NOTHING RETURNING event_id\<close>.\<close>

record dedup_db = pg +
  processed_events :: "uuid set"

definition insert_processed_sql :: "uuid \<Rightarrow> 'a dedup_db_scheme \<Rightarrow> 'a dedup_db_scheme \<times> uuid option" where
  "insert_processed_sql e db =
     (if e \<in> processed_events db then (db, None)
      else (db\<lparr>processed_events := insert e (processed_events db)\<rparr>, Some e))"

definition pg_check_and_record :: "uuid \<Rightarrow> 'a dedup_db_scheme \<Rightarrow> 'a dedup_db_scheme \<times> (string + outcome)" where
  "pg_check_and_record e db =
     (case pg_exec (insert_processed_sql e) db of
        (db', Inr (Some _)) \<Rightarrow> (db', Inr FirstSeen)
      | (db', Inr None) \<Rightarrow> (db', Inr AlreadyProcessed)
      | (db', Inl msg) \<Rightarrow> (db', Inl (''idempotency backend: '' @ msg)))"

section \<open>The wrapper\<close>

text \<open>
  The closure works on the rest of the world. The result is \<open>(value, did_run, err)\<close>; a backend error
  and a closure error are kept apart.
\<close>

datatype 'e idem_error = Backend string | Closure 'e

definition idempotent ::
  "(uuid \<Rightarrow> 's \<Rightarrow> 's \<times> (string + outcome)) \<Rightarrow> uuid \<Rightarrow> ('w \<Rightarrow> 'w \<times> ('e + 't)) \<Rightarrow> 's \<times> 'w \<Rightarrow>
   ('s \<times> 'w) \<times> 't option \<times> bool \<times> 'e idem_error option" where
  "idempotent check event_id f sw =
     (case sw of (s, w) \<Rightarrow>
        (case check event_id s of
           (s', Inl msg) \<Rightarrow> ((s', w), None, False, Some (Backend msg))
         | (s', Inr oc) \<Rightarrow>
             if is_already_processed oc then ((s', w), None, False, None)
             else (case f w of
                     (w', Inl e) \<Rightarrow> ((s', w'), None, True, Some (Closure e))
                   | (w', Inr v) \<Rightarrow> ((s', w'), Some v, True, None))))"

text \<open>
  A sequence of deliveries, redeliveries included; the world of the closure is the log of the ids it
  was run for, next to whatever else it changes.
\<close>

definition logging :: "(uuid \<Rightarrow> 'w \<Rightarrow> 'w \<times> ('e + 't)) \<Rightarrow> uuid \<Rightarrow> 'w \<times> uuid list \<Rightarrow> ('w \<times> uuid list) \<times> ('e + 't)" where
  "logging f e wl = (case wl of (w, l) \<Rightarrow> (case f e w of (w', r) \<Rightarrow> ((w', l @ [e]), r)))"

fun deliver ::
  "(uuid \<Rightarrow> 's \<Rightarrow> 's \<times> (string + outcome)) \<Rightarrow> (uuid \<Rightarrow> 'w \<Rightarrow> 'w \<times> ('e + 't)) \<Rightarrow> uuid list \<Rightarrow>
   's \<times> 'w \<times> uuid list \<Rightarrow> ('s \<times> 'w \<times> uuid list) \<times> bool list" where
  "deliver check f [] st = (st, [])"
| "deliver check f (e # es) st =
     (case idempotent check e (logging f e) st of
        (st', _, did_run, _) \<Rightarrow> (case deliver check f es st' of (st'', rs) \<Rightarrow> (st'', did_run # rs)))"

section \<open>The contract\<close>

text \<open>
  What a store promises: it answers first-seen exactly for an id not recorded before and records it;
  a backend error may have recorded the id (the answer was lost) but nothing else.
\<close>

locale dedup_store =
  fixes check :: "uuid \<Rightarrow> 's \<Rightarrow> 's \<times> (string + outcome)"
    and seen :: "'s \<Rightarrow> uuid set"
  assumes answer: "check e s = (s', Inr oc) \<Longrightarrow>
      (oc = FirstSeen \<longleftrightarrow> e \<notin> seen s) \<and> seen s' = insert e (seen s)"
    and failure: "check e s = (s', Inl msg) \<Longrightarrow> seen s \<subseteq> seen s' \<and> seen s' \<subseteq> insert e (seen s)"
begin

lemma idempotent_cases:
  assumes "idempotent check e (logging f e) (s, w, l) = ((s', w', l'), v, did_run, err)"
  obtains (skip) "\<not> did_run" "w' = w" "l' = l" "seen s \<subseteq> seen s'" "seen s' \<subseteq> insert e (seen s)"
      "err = None \<longrightarrow> e \<in> seen s"
    | (run) "did_run" "e \<notin> seen s" "seen s' = insert e (seen s)" "l' = l @ [e]" "w' = fst (f e w)"
proof -
  obtain s1 r where c: "check e s = (s1, r)"
    by fastforce
  show ?thesis
  proof (cases r)
    case (Inl msg)
    with assms c have "\<not> did_run \<and> w' = w \<and> l' = l \<and> s' = s1 \<and> err \<noteq> None"
      by (auto simp: idempotent_def)
    with failure [of e s s1 msg] c Inl skip show ?thesis by simp
  next
    case (Inr oc)
    show ?thesis
    proof (cases oc)
      case FirstSeen
      with assms c Inr have "did_run \<and> s' = s1 \<and> l' = l @ [e] \<and> w' = fst (f e w)"
        by (auto simp: idempotent_def is_already_processed_def logging_def split: prod.splits sum.splits)
      with answer [of e s s1 oc] c Inr FirstSeen run show ?thesis by simp
    next
      case AlreadyProcessed
      with assms c Inr have "\<not> did_run \<and> w' = w \<and> l' = l \<and> s' = s1"
        by (auto simp: idempotent_def is_already_processed_def)
      with answer [of e s s1 oc] c Inr AlreadyProcessed skip show ?thesis by auto
    qed
  qed
qed

text \<open>The closure runs at most once per id, and never for an id recorded before.\<close>

lemma deliver_at_most_once:
  assumes "deliver check f es (s, w, l) = ((s', w', l'), rs)"
  shows "\<exists>new. l' = l @ new \<and> distinct new \<and> set new \<inter> seen s = {} \<and> set new \<subseteq> set es \<and>
    set new \<subseteq> seen s' \<and> seen s \<subseteq> seen s' \<and> length rs = length es \<and> length new = length (filter (\<lambda>r. r) rs)"
  using assms
proof (induction es arbitrary: s w l rs)
  case Nil
  then show ?case by auto
next
  case (Cons e es)
  obtain s1 w1 l1 v did_run err where st: "idempotent check e (logging f e) (s, w, l) = ((s1, w1, l1), v, did_run, err)"
    by (cases "idempotent check e (logging f e) (s, w, l)") auto
  obtain rs1 where rest: "deliver check f es (s1, w1, l1) = ((s', w', l'), rs1)" and rs: "rs = did_run # rs1"
    using Cons.prems st by (auto split: prod.splits)
  obtain new where new: "l' = l1 @ new" "distinct new" "set new \<inter> seen s1 = {}" "set new \<subseteq> set es"
    "set new \<subseteq> seen s'" "seen s1 \<subseteq> seen s'" "length rs1 = length es" "length new = length (filter (\<lambda>r. r) rs1)"
    using Cons.IH [OF rest] by blast
  from st show ?case
  proof (cases rule: idempotent_cases)
    case skip
    with new rs show ?thesis by (intro exI [of _ new]) auto
  next
    case run
    with new rs show ?thesis by (intro exI [of _ "e # new"]) auto
  qed
qed

end

section \<open>The implementations\<close>

interpretation mem_store: dedup_store mem_check_and_record set
  by unfold_locales (auto simp: mem_check_and_record_def split: if_splits)

interpretation pg_store: dedup_store pg_check_and_record processed_events
proof
  fix e and s s' :: "'a dedup_db_scheme" and oc
  assume "pg_check_and_record e s = (s', Inr oc)"
  then show "(oc = FirstSeen \<longleftrightarrow> e \<notin> processed_events s) \<and> processed_events s' = insert e (processed_events s)"
    by (auto simp: pg_check_and_record_def pg_exec_def insert_processed_sql_def Let_def
        split: option.splits sum.splits prod.splits if_splits)
next
  fix e and s s' :: "'a dedup_db_scheme" and msg
  assume "pg_check_and_record e s = (s', Inl msg)"
  then show "processed_events s \<subseteq> processed_events s' \<and> processed_events s' \<subseteq> insert e (processed_events s)"
    by (auto simp: pg_check_and_record_def pg_exec_def insert_processed_sql_def Let_def
        split: option.splits sum.splits prod.splits if_splits)
qed

lemma pg_check_frame [frame]:
  "pg_check_and_record e db = (db', res) \<Longrightarrow>
   pg_fault db' = pg_fault db \<and> pg_clock db' = Suc (pg_clock db) \<and> dedup_db.more db' = dedup_db.more db"
  by (auto simp: pg_check_and_record_def pg_exec_def insert_processed_sql_def Let_def
      split: option.splits sum.splits prod.splits if_splits)

lemma pg_check_again:
  assumes "pg_check_and_record e db = (db', Inr oc)"
    and "processed_events db2 \<supseteq> processed_events db'" and "pg_fault db2 (pg_clock db2) = None"
  shows "snd (pg_check_and_record e db2) = Inr AlreadyProcessed \<and>
    processed_events (fst (pg_check_and_record e db2)) = processed_events db2"
  using pg_store.answer [OF assms(1)] assms(2,3)
  by (auto simp: pg_check_and_record_def pg_exec_def insert_processed_sql_def)

section \<open>Properties\<close>

lemma pg_check_no_fault:
  assumes "no_faults db"
  shows "\<exists>oc. snd (pg_check_and_record e db) = Inr oc"
  using assms
  by (auto simp: pg_check_and_record_def pg_exec_def no_faults_def insert_processed_sql_def)

lemma remdups_snoc: "remdups (xs @ [x]) = filter (\<lambda>y. y \<noteq> x) (remdups xs) @ [x]"
  by (induction xs) auto

lemma deliver_all_new:
  assumes "deliver pg_check_and_record f es (db, w, l) = ((db', w', l'), rs)" and "no_faults db"
  shows "l' = l @ rev (remdups (rev (filter (\<lambda>e. e \<notin> processed_events db) es)))"
  using assms
proof (induction es arbitrary: db w l rs)
  case Nil
  then show ?case by simp
next
  case (Cons e es)
  obtain db1 w1 l1 v did_run err where
    st: "idempotent pg_check_and_record e (logging f e) (db, w, l) = ((db1, w1, l1), v, did_run, err)"
    by (cases "idempotent pg_check_and_record e (logging f e) (db, w, l)") auto
  obtain rs1 where rest: "deliver pg_check_and_record f es (db1, w1, l1) = ((db', w', l'), rs1)"
    using Cons.prems st by (auto split: prod.splits)
  obtain oc where oc: "pg_check_and_record e db = (fst (pg_check_and_record e db), Inr oc)"
    using pg_check_no_fault [OF Cons.prems(2), of e] by (metis prod.collapse)
  have db1: "db1 = fst (pg_check_and_record e db)"
    using st oc by (auto simp: idempotent_def split: prod.splits sum.splits if_splits)
  have nf: "no_faults db1"
    using pg_check_frame [OF oc] Cons.prems(2) db1 by (auto intro: no_faults_clock)
  note ih = Cons.IH [OF rest nf]
  have seen1: "processed_events db1 = insert e (processed_events db)"
    using pg_store.answer [OF oc] db1 by simp
  have "oc = FirstSeen \<longleftrightarrow> e \<notin> processed_events db"
    using pg_store.answer [OF oc] by simp
  then have l1: "l1 = (if e \<in> processed_events db then l else l @ [e])"
    using st oc by (cases oc)
      (auto simp: idempotent_def logging_def is_already_processed_def split: prod.splits sum.splits if_splits)
  have split: "filter (\<lambda>x. x \<notin> insert e S) es = filter (\<lambda>x. x \<noteq> e) (filter (\<lambda>x. x \<notin> S) es)" for S
    by (simp add: conj_commute)
  have rem: "rev (remdups (rev (filter (\<lambda>x. x \<noteq> e) xs))) = filter (\<lambda>x. x \<noteq> e) (rev (remdups (rev xs)))" for xs
    by (simp add: rev_filter remdups_filter)
  have snoc: "rev (remdups (rev (e # xs))) = e # filter (\<lambda>x. x \<noteq> e) (rev (remdups (rev xs)))" for xs :: "uuid list"
    by (simp add: remdups_snoc rev_filter)
  show ?case
  proof (cases "e \<in> processed_events db")
    case True
    then have "processed_events db1 = processed_events db"
      using seen1 by auto
    with True ih l1 show ?thesis by simp
  next
    case False
    with ih l1 show ?thesis
      unfolding seen1 split rem by (simp add: snoc del: rev.simps)
  qed
qed

text \<open>
  C7. Exactly-once per id on the Postgres store, whatever statements fail and however often an event
  is delivered, also when the closure fails: the ids the closure did_run for are distinct, were delivered
  and were not recorded before; if no statement fails they are all the delivered new ids, in the
  order of their first delivery.
\<close>

theorem idempotent_exactly_once:
  assumes run: "deliver pg_check_and_record f es (db, w, l) = ((db', w', l'), rs)"
  shows "\<exists>new. l' = l @ new \<and> distinct new \<and> set new \<subseteq> set es - processed_events db \<and>
    set new \<subseteq> processed_events db' \<and> length new = length (filter (\<lambda>r. r) rs) \<and>
    (no_faults db \<longrightarrow> new = rev (remdups (rev (filter (\<lambda>e. e \<notin> processed_events db) es))))"
proof -
  obtain new where "l' = l @ new" "distinct new" "set new \<inter> processed_events db = {}" "set new \<subseteq> set es"
    "set new \<subseteq> processed_events db'" "length new = length (filter (\<lambda>r. r) rs)"
    using pg_store.deliver_at_most_once [OF run] by blast
  with deliver_all_new [OF run] show ?thesis
    by (intro exI [of _ new]) auto
qed

definition failing_closure :: "uuid \<Rightarrow> unit \<Rightarrow> unit \<times> (string + unit)" where
  "failing_closure e w = (w, Inl ''boom'')"

theorem idempotent_exactly_once_witness:
  "\<exists>db'. deliver pg_check_and_record failing_closure [5, 6, 5]
      (\<lparr>pg_clock = 0, pg_fault = (\<lambda>_. None), processed_events = {}\<rparr> :: dedup_db, (), []) =
      ((db', (), [5, 6]), [True, True, False]) \<and> {5, 6} \<subseteq> processed_events db'"
proof -
  let ?db = "\<lparr>pg_clock = 0, pg_fault = (\<lambda>_. None), processed_events = {}\<rparr> :: dedup_db"
  obtain db' where run: "deliver pg_check_and_record failing_closure [5, 6, 5] (?db, (), []) =
      ((db', (), [5, 6]), [True, True, False])"
    by (simp add: idempotent_def pg_check_and_record_def pg_exec_def insert_processed_sql_def logging_def
        failing_closure_def is_already_processed_def)
  from idempotent_exactly_once [OF run] run show ?thesis by auto
qed

end
