(* ===== verification/Automation_Operations.thy ===== *)
theory Automation_Operations
  imports Saga_Proofs Idempotency Json
begin

text \<open>
  The saga consumer of \<^verbatim>\<open>workflow-automation-service/internal/automationoperations\<close>: event ids
  (\<^verbatim>\<open>event.go\<close>), the step graphs (\<^verbatim>\<open>steps/\<close>), the dispatcher (\<^verbatim>\<open>dispatcher.go\<close>), and
  \<^verbatim>\<open>saga_consumer.go\<close>. The world that the steps act on is a parameter with its clock, the state of
  the request context, and the client of audit-compliance-service. (The HTTP client behind it is not
  modelled, nor is the endless poll loop around \<^verbatim>\<open>processMessage\<close>, only its commit rule.)
\<close>

section \<open>Event ids\<close>

definition derive_saga_id :: "uuid_lib \<Rightarrow> string \<Rightarrow> uuid \<Rightarrow> uuid" where
  "derive_saga_id ol task_type correlation_id = new_sha1 ol (task_type @ ''|'' @ uuid_bytes correlation_id)"

definition derive_request_event_id :: "uuid_lib \<Rightarrow> string \<Rightarrow> uuid \<Rightarrow> uuid" where
  "derive_request_event_id ol task_type correlation_id =
     new_sha1 ol (task_type @ ''|'' @ uuid_bytes correlation_id @ ''R'')"

section \<open>Steps\<close>

record retention_input =
  ri_tenant_id :: string
  ri_older_than_days :: "32 word"
  ri_dry_run :: bool

record retention_output =
  ro_evicted :: "64 word"
  ro_older_than_days :: "32 word"
  ro_dry_run :: bool

text \<open>An error of the client: a non-2xx answer, with its status and body, or anything else.\<close>

datatype client_error = AuditCompliance nat string | OtherClientError string

fun client_error_text :: "client_error \<Rightarrow> string" where
  "client_error_text (AuditCompliance status body) =
     (if body = [] then ''audit-compliance returned HTTP '' @ show_nat status
      else ''audit-compliance returned HTTP '' @ show_nat status @ '': '' @ body)"
| "client_error_text (OtherClientError msg) = msg"

record 'w effects =
  eff_now :: "'w \<Rightarrow> instant"
  eff_ctx_err :: "'w \<Rightarrow> string option"
  eff_sweep :: "(retention_input \<Rightarrow> 'w \<Rightarrow> 'w \<times> (client_error + retention_output)) option"

definition evict_name :: string where "evict_name = ''evict_retention_eligible''"
definition mark_name :: string where "mark_name = ''mark_for_deletion''"
definition drop_name :: string where "drop_name = ''drop_workspace_blobs''"
definition finalize_name :: string where "finalize_name = ''finalize_workspace_deletion''"

definition evict_execute ::
  "'w effects \<Rightarrow> retention_input \<Rightarrow> 'w \<Rightarrow> 'w \<times> (saga_error + retention_output)" where
  "evict_execute eff input w =
     (if trim_space (ri_tenant_id input) = [] then
        (w, Inl (ErrStepFailure evict_name ''invalid input: tenant_id is required''))
      else if ri_older_than_days input = 0 then
        (w, Inl (ErrStepFailure evict_name ''invalid input: older_than_days must be greater than 0''))
      else
        (case eff_sweep eff of
           None \<Rightarrow> (w, Inl (ErrStepFailure evict_name ''retention sweep client is not configured''))
         | Some sweep \<Rightarrow>
             (case sweep input w of
                (w', Inr out) \<Rightarrow> (w', Inr out)
              | (w', Inl err) \<Rightarrow>
                  (w', Inl (ErrStepFailure evict_name
                     (case eff_ctx_err eff w' of
                        Some msg \<Rightarrow> ''retention sweep request canceled: '' @ msg
                      | None \<Rightarrow>
                          (case err of
                             AuditCompliance status body \<Rightarrow>
                               if 500 \<le> status
                               then ''audit-compliance retention sweep unavailable: '' @ client_error_text err
                               else ''audit-compliance retention sweep rejected request: '' @ client_error_text err
                           | OtherClientError msg \<Rightarrow> ''audit-compliance retention sweep failed: '' @ msg)))))))"

definition evict_step :: "'w effects \<Rightarrow> ('w, retention_input, retention_output) saga_step" where
  "evict_step eff = \<lparr>step_name = evict_name, execute = evict_execute eff, compensate = (\<lambda>_ w. (w, None))\<rparr>"

record cleanup_input =
  ci_tenant_id :: string
  ci_workspace_id :: uuid
  ci_force_failure_at :: "string option"

definition must_fail_here :: "cleanup_input \<Rightarrow> string \<Rightarrow> bool" where
  "must_fail_here input step \<longleftrightarrow> ci_force_failure_at input = Some step"

definition forced_failure :: "string \<Rightarrow> saga_error" where
  "forced_failure step = ErrStepFailure step ''forced failure (chaos test)''"

text \<open>\<^verbatim>\<open>MarkForDeletionOutput\<close> and \<^verbatim>\<open>FinalizeOutput\<close> are an id and a time, \<^verbatim>\<open>DropBlobsOutput\<close> an id and a count.\<close>

definition mark_step :: "'w effects \<Rightarrow> ('w, cleanup_input, uuid \<times> instant) saga_step" where
  "mark_step eff = \<lparr>step_name = mark_name,
     execute = (\<lambda>input w. (w, if must_fail_here input mark_name then Inl (forced_failure mark_name)
                              else Inr (ci_workspace_id input, eff_now eff w))),
     compensate = (\<lambda>_ w. (w, None))\<rparr>"

definition drop_step :: "'w effects \<Rightarrow> ('w, cleanup_input, uuid \<times> 64 word) saga_step" where
  "drop_step eff = \<lparr>step_name = drop_name,
     execute = (\<lambda>input w. (w, if must_fail_here input drop_name then Inl (forced_failure drop_name)
                              else Inr (ci_workspace_id input, 0))),
     compensate = (\<lambda>_ w. (w, None))\<rparr>"

definition finalize_step :: "'w effects \<Rightarrow> ('w, cleanup_input, uuid \<times> instant) saga_step" where
  "finalize_step eff = \<lparr>step_name = finalize_name,
     execute = (\<lambda>input w. (w, if must_fail_here input finalize_name then Inl (forced_failure finalize_name)
                              else Inr (ci_workspace_id input, eff_now eff w))),
     compensate = (\<lambda>_ w. (w, None))\<rparr>"

section \<open>JSON of inputs and outputs\<close>

text \<open>\<open>older_than_days\<close> defaults to 90: when missing or null, and when it is 0.\<close>

definition retention_input_unmarshal :: "json \<Rightarrow> string + retention_input" where
  "retention_input_unmarshal j =
     and_then (dec_obj j) (\<lambda>obj.
     and_then (dec_str (json_field ''tenant_id'' obj)) (\<lambda>tenant.
     and_then (dec_uint32 (json_field ''older_than_days'' obj)) (\<lambda>days.
     and_then (dec_bool (json_field ''dry_run'' obj)) (\<lambda>dry.
       Inr \<lparr>ri_tenant_id = tenant, ri_older_than_days = (if days = 0 then 90 else days), ri_dry_run = dry\<rparr>))))"

definition cleanup_input_unmarshal :: "json \<Rightarrow> string + cleanup_input" where
  "cleanup_input_unmarshal j =
     and_then (dec_obj j) (\<lambda>obj.
     and_then (dec_str (json_field ''tenant_id'' obj)) (\<lambda>tenant.
     and_then (dec_uuid (json_field ''workspace_id'' obj)) (\<lambda>workspace.
     and_then (dec_str_ptr (json_field ''force_failure_at'' obj)) (\<lambda>force.
       Inr \<lparr>ci_tenant_id = tenant, ci_workspace_id = workspace, ci_force_failure_at = force\<rparr>))))"

definition retention_output_marshal :: "retention_output \<Rightarrow> string + json" where
  "retention_output_marshal out = Inr (JObj [(''evicted'', JNum (uint (ro_evicted out))),
     (''older_than_days'', JNum (uint (ro_older_than_days out))), (''dry_run'', JBool (ro_dry_run out))])"

definition retention_output_unmarshal :: "json \<Rightarrow> string + retention_output" where
  "retention_output_unmarshal j =
     and_then (dec_obj j) (\<lambda>obj.
     and_then (dec_uint64 (json_field ''evicted'' obj)) (\<lambda>n.
     and_then (dec_uint32 (json_field ''older_than_days'' obj)) (\<lambda>days.
     and_then (dec_bool (json_field ''dry_run'' obj)) (\<lambda>dry.
       Inr \<lparr>ro_evicted = n, ro_older_than_days = days, ro_dry_run = dry\<rparr>))))"

definition id_time_marshal :: "string \<Rightarrow> uuid \<times> instant \<Rightarrow> string + json" where
  "id_time_marshal k out = Inr (JObj [(''workspace_id'', JUuid (fst out)), (k, JTime (snd out))])"

definition id_time_unmarshal :: "string \<Rightarrow> json \<Rightarrow> string + uuid \<times> instant" where
  "id_time_unmarshal k j =
     and_then (dec_obj j) (\<lambda>obj.
     and_then (dec_uuid (json_field ''workspace_id'' obj)) (\<lambda>i.
     and_then (dec_time (json_field k obj)) (\<lambda>t. Inr (i, t))))"

definition id_count_marshal :: "uuid \<times> 64 word \<Rightarrow> string + json" where
  "id_count_marshal out = Inr (JObj [(''workspace_id'', JUuid (fst out)), (''blob_count'', JNum (uint (snd out)))])"

definition id_count_unmarshal :: "json \<Rightarrow> string + uuid \<times> 64 word" where
  "id_count_unmarshal j =
     and_then (dec_obj j) (\<lambda>obj.
     and_then (dec_uuid (json_field ''workspace_id'' obj)) (\<lambda>i.
     and_then (dec_uint64 (json_field ''blob_count'' obj)) (\<lambda>n. Inr (i, n))))"

section \<open>The dispatcher\<close>

definition known_saga_types :: "string list" where
  "known_saga_types = [''retention.sweep'', ''cleanup.workspace'']"

definition is_known_saga :: "string \<Rightarrow> bool" where
  "is_known_saga task_type \<longleftrightarrow> task_type \<in> set known_saga_types"

text \<open>\<^verbatim>\<open>json.Unmarshal(rawOrNullObject(raw), &in)\<close>.\<close>

definition unmarshal_or_empty :: "(json \<Rightarrow> string + 'i) \<Rightarrow> raw_json \<Rightarrow> string + 'i" where
  "unmarshal_or_empty dec raw =
     (case raw of RawEmpty \<Rightarrow> dec (JObj []) | Raw j \<Rightarrow> dec j | RawInvalid msg \<Rightarrow> Inl msg)"

definition dispatch_retention_sweep ::
  "'w effects \<Rightarrow> uuid_lib \<Rightarrow> raw_json \<Rightarrow> 'w saga_runner \<Rightarrow> 'w \<Rightarrow> 'w saga_runner \<times> 'w \<times> saga_error option" where
  "dispatch_retention_sweep eff ul raw r w =
     (case unmarshal_or_empty retention_input_unmarshal raw of
        Inl msg \<Rightarrow> (r, w, Some (ErrStepFailure ''retention.sweep'' (''invalid input: '' @ msg)))
      | Inr input \<Rightarrow>
          (case execute_step retention_output_marshal retention_output_unmarshal ul (evict_step eff) input r w of
             (r1, w1, Inl err) \<Rightarrow> (r1, w1, Some err)
           | (r1, w1, Inr _) \<Rightarrow> (case saga_finish ul r1 of (r2, e) \<Rightarrow> (r2, w1, e))))"

definition dispatch_cleanup_workspace ::
  "'w effects \<Rightarrow> uuid_lib \<Rightarrow> raw_json \<Rightarrow> 'w saga_runner \<Rightarrow> 'w \<Rightarrow> 'w saga_runner \<times> 'w \<times> saga_error option" where
  "dispatch_cleanup_workspace eff ul raw r w =
     (case unmarshal_or_empty cleanup_input_unmarshal raw of
        Inl msg \<Rightarrow> (r, w, Some (ErrStepFailure ''cleanup.workspace'' (''invalid input: '' @ msg)))
      | Inr input \<Rightarrow>
          (case execute_step (id_time_marshal ''tombstoned_at'') (id_time_unmarshal ''tombstoned_at'') ul
                  (mark_step eff) input r w of
             (r1, w1, Inl err) \<Rightarrow> (r1, w1, Some err)
           | (r1, w1, Inr _) \<Rightarrow>
               (case execute_step id_count_marshal id_count_unmarshal ul (drop_step eff) input r1 w1 of
                  (r2, w2, Inl err) \<Rightarrow> (r2, w2, Some err)
                | (r2, w2, Inr _) \<Rightarrow>
                    (case execute_step (id_time_marshal ''finalized_at'') (id_time_unmarshal ''finalized_at'') ul
                            (finalize_step eff) input r2 w2 of
                       (r3, w3, Inl err) \<Rightarrow> (r3, w3, Some err)
                     | (r3, w3, Inr _) \<Rightarrow> (case saga_finish ul r3 of (r4, e) \<Rightarrow> (r4, w3, e))))))"

definition dispatch_saga ::
  "'w effects \<Rightarrow> uuid_lib \<Rightarrow> string \<Rightarrow> raw_json \<Rightarrow> 'w saga_runner \<Rightarrow> 'w \<Rightarrow>
   'w saga_runner \<times> 'w \<times> saga_error option" where
  "dispatch_saga eff ul task_type input r w =
     (if task_type = ''retention.sweep'' then dispatch_retention_sweep eff ul input r w
      else if task_type = ''cleanup.workspace'' then dispatch_cleanup_workspace eff ul input r w
      else (r, w, Some (ErrStepFailure ''dispatch''
              (''unknown saga type '' @ go_quote task_type @ ''; known: [retention.sweep cleanup.workspace]''))))"

section \<open>The consumer\<close>

record saga_request =
  rq_saga_id :: uuid
  rq_saga :: string
  rq_tenant_id :: string
  rq_correlation_id :: uuid
  rq_triggered_by :: string
  rq_input :: raw_json

definition decode_request :: "json \<Rightarrow> string + saga_request" where
  "decode_request j =
     and_then (dec_obj j) (\<lambda>obj.
     and_then (dec_uuid (json_field ''saga_id'' obj)) (\<lambda>sid.
     and_then (dec_str (json_field ''saga'' obj)) (\<lambda>saga.
     and_then (dec_str (json_field ''tenant_id'' obj)) (\<lambda>tenant.
     and_then (dec_uuid (json_field ''correlation_id'' obj)) (\<lambda>correlation.
     and_then (dec_str (json_field ''triggered_by'' obj)) (\<lambda>by_whom.
       Inr \<lparr>rq_saga_id = sid, rq_saga = saga, rq_tenant_id = tenant, rq_correlation_id = correlation,
            rq_triggered_by = by_whom, rq_input = dec_raw ''input'' obj\<rparr>))))))"

text \<open>The committed tables: the processed events, and what the saga transaction works on.\<close>

record consumer_db = dedup_db +
  c_outbox :: "uuid \<rightharpoonup> outbox_event"
  c_wal :: "wal_entry list"
  c_sagas :: "uuid \<rightharpoonup> saga_row"

datatype consumer_error = IdemError string | PgError string | SagaError saga_error

definition tx_of :: "consumer_db \<Rightarrow> saga_tx" where
  "tx_of db = \<lparr>pg_clock = pg_clock db, pg_fault = pg_fault db, outbox_events = c_outbox db, wal = c_wal db,
     saga_state = c_sagas db\<rparr>"

definition commit_tx :: "saga_tx \<Rightarrow> consumer_db \<Rightarrow> consumer_db" where
  "commit_tx t db = db\<lparr>c_outbox := outbox_events t, c_wal := wal t, c_sagas := saga_state t\<rparr>"

text \<open>The server's bookkeeping goes on where the transaction left it.\<close>

definition after_tx :: "saga_tx \<Rightarrow> consumer_db \<Rightarrow> consumer_db" where
  "after_tx t db = db\<lparr>pg_clock := pg_clock t, pg_fault := pg_fault t\<rparr>"

definition run_saga ::
  "'w effects \<Rightarrow> uuid_lib \<Rightarrow> saga_request \<Rightarrow> consumer_db \<Rightarrow> 'w \<Rightarrow>
   consumer_db \<times> 'w \<times> (consumer_error + string)" where
  "run_saga eff ul rq db w =
     (case pg_exec (\<lambda>db. (db, ())) db of
        (db1, Inl msg) \<Rightarrow> (db1, w, Inl (PgError msg))
      | (db1, Inr _) \<Rightarrow>
          (case saga_start (tx_of db1) (rq_saga_id rq) (rq_saga rq) of
             (t, Inl err) \<Rightarrow> (after_tx t db1, w, Inl (SagaError err))
           | (t, Inr r) \<Rightarrow>
               (case dispatch_saga eff ul (rq_saga rq) (rq_input rq) r w of
                  (r', w', dispatch_err) \<Rightarrow>
                    (case pg_exec (\<lambda>db. (commit_tx (r_tx r') db, ())) (after_tx (r_tx r') db1) of
                       (db2, Inl msg) \<Rightarrow> (db2, w', Inl (PgError msg))
                     | (db2, Inr _) \<Rightarrow>
                         (db2, w', Inr (if dispatch_err \<noteq> None then ''failed_or_compensated'' else ''completed''))))))"

definition process_request ::
  "'w effects \<Rightarrow> uuid_lib \<Rightarrow> uuid_lib \<Rightarrow> saga_request \<Rightarrow> consumer_db \<Rightarrow> 'w \<Rightarrow>
   consumer_db \<times> 'w \<times> (consumer_error + string)" where
  "process_request eff ol ul rq db w =
     (case pg_check_and_record (derive_request_event_id ol (rq_saga rq) (rq_correlation_id rq)) db of
        (db1, Inl msg) \<Rightarrow> (db1, w, Inl (IdemError msg))
      | (db1, Inr oc) \<Rightarrow>
          if is_already_processed oc then (db1, w, Inr ''deduped'')
          else run_saga eff ul rq db1 w)"

text \<open>A message value; an undecodable one is skipped, like an empty one.\<close>

definition process_message ::
  "'w effects \<Rightarrow> uuid_lib \<Rightarrow> uuid_lib \<Rightarrow> raw_json \<Rightarrow> consumer_db \<Rightarrow> 'w \<Rightarrow>
   consumer_db \<times> 'w \<times> (consumer_error + string)" where
  "process_message eff ol ul value db w =
     (case value of
        RawEmpty \<Rightarrow> (db, w, Inr ''empty_payload'')
      | RawInvalid _ \<Rightarrow> (db, w, Inr ''decode_error'')
      | Raw j \<Rightarrow>
          (case decode_request j of
             Inl _ \<Rightarrow> (db, w, Inr ''decode_error'')
           | Inr rq \<Rightarrow> process_request eff ol ul rq db w))"

text \<open>The loop of \<^verbatim>\<open>Run\<close> over the messages polled, with the offsets it commits.\<close>

fun consume ::
  "'w effects \<Rightarrow> uuid_lib \<Rightarrow> uuid_lib \<Rightarrow> (nat \<times> raw_json) list \<Rightarrow> consumer_db \<Rightarrow> 'w \<Rightarrow>
   consumer_db \<times> 'w \<times> nat list" where
  "consume eff ol ul [] db w = (db, w, [])"
| "consume eff ol ul ((offset, value) # msgs) db w =
     (case process_message eff ol ul value db w of
        (db', w', Inl _) \<Rightarrow> consume eff ol ul msgs db' w'
      | (db', w', Inr _) \<Rightarrow> (case consume eff ol ul msgs db' w' of (db'', w'', os) \<Rightarrow> (db'', w'', offset # os)))"

end
