(* ===== verification/Saga_Consumer.thy ===== *)
theory Saga_Consumer
  imports Automation_Operations
begin

text \<open>
  What the saga consumer guarantees: a complete run of a step graph when nothing fails, and the two
  ways in which a request is lost.
\<close>

section \<open>Fault-free calls of the runner\<close>

definition saga_row_of :: "'w saga_runner \<Rightarrow> saga_row option" where
  "saga_row_of r = saga_state (r_tx r) (r_saga_id r)"

text \<open>One successful new step, from runner \<open>r\<close> to runner \<open>r'\<close>.\<close>

definition stepped :: "uuid_lib \<Rightarrow> string \<Rightarrow> json \<Rightarrow> 'w saga_runner \<Rightarrow> 'w saga_runner \<Rightarrow> bool" where
  "stepped ul name j r r' \<longleftrightarrow>
     quiet r' \<and> logged r r' \<and> r_status r' = Running \<and> r_saga_id r' = r_saga_id r \<and>
     r_events r' = r_events r @ [event_of ul (r_saga_id r) EventStepCompleted name] \<and>
     r_completed_set r' = insert name (r_completed_set r) \<and>
     saga_row_of r' = map_option (append_completed name j \<circ> set_current_step name) (saga_row_of r)"

lemma quiet_step:
  assumes q: "quiet r" and run: "r_status r = Running" and new: "step_name step \<notin> r_completed_set r"
    and exec: "execute step input w = (w1, Inr out)" and enc: "enc out = Inr j"
  shows "\<exists>r'. execute_step enc dec ul step input r w = (r', w1, Inr out) \<and> stepped ul (step_name step) j r r'"
proof -
  let ?r0 = "r\<lparr>r_tx := (r_tx r)\<lparr>saga_state := (saga_state (r_tx r))(r_saga_id r :=
      map_option (set_current_step (step_name step)) (saga_state (r_tx r) (r_saga_id r))),
      pg_clock := Suc (pg_clock (r_tx r))\<rparr>\<rparr>"
  have q0: "quiet ?r0" and l0: "logged r ?r0"
    using q by (auto simp: logged_def)
  obtain t where t: "emit ul EventStepCompleted (step_name step)
      (step_completed_payload (r_saga_id ?r0) (r_name ?r0) (step_name step) j) ?r0 =
      (?r0\<lparr>r_tx := t, r_events := r_events ?r0 @ [event_of ul (r_saga_id ?r0) EventStepCompleted (step_name step)]\<rparr>,
       Inr (new_sha1 ul (event_id_input ul (r_saga_id ?r0) (step_name step) EventStepCompleted)))"
    "quiet (?r0\<lparr>r_tx := t, r_events := r_events ?r0 @ [event_of ul (r_saga_id ?r0) EventStepCompleted (step_name step)]\<rparr>)"
    "logged ?r0 (?r0\<lparr>r_tx := t, r_events := r_events ?r0 @ [event_of ul (r_saga_id ?r0) EventStepCompleted (step_name step)]\<rparr>)"
    "saga_state t = saga_state (r_tx ?r0)"
    by (rule emit_quiet [OF q0])
  have "logged r (?r0\<lparr>r_tx := t, r_events := r_events ?r0 @ [event_of ul (r_saga_id ?r0) EventStepCompleted (step_name step)]\<rparr>)"
    using l0 t(3) by (rule logged_trans)
  then show ?thesis
    using assms update_quiet [OF q] t(1,2,4) update_quiet [OF t(2)] quiet_update [OF t(2)]
    by (simp add: execute_step_def saga_status_is_terminal_def execute_success_def saga_row_of_def logged_def
        option.map_comp comp_def quiet_def no_faults_def stepped_def)
qed

lemma quiet_finish:
  assumes q: "quiet r" and run: "r_status r = Running"
  shows "\<exists>r'. saga_finish ul r = (r', None) \<and> quiet r' \<and> logged r r' \<and> r_status r' = Completed \<and>
    r_saga_id r' = r_saga_id r \<and>
    r_events r' = r_events r @ [event_of ul (r_saga_id r) EventSagaCompleted ''''] \<and>
    saga_row_of r' = map_option (set_row_status Completed '''') (saga_row_of r)"
proof -
  obtain t where t: "emit ul EventSagaCompleted '''' (saga_completed_payload (r_saga_id r) (r_name r) (r_completed_steps r)) r =
      (r\<lparr>r_tx := t, r_events := r_events r @ [event_of ul (r_saga_id r) EventSagaCompleted '''']\<rparr>,
       Inr (new_sha1 ul (event_id_input ul (r_saga_id r) '''' EventSagaCompleted)))"
    "quiet (r\<lparr>r_tx := t, r_events := r_events r @ [event_of ul (r_saga_id r) EventSagaCompleted '''']\<rparr>)"
    "logged r (r\<lparr>r_tx := t, r_events := r_events r @ [event_of ul (r_saga_id r) EventSagaCompleted '''']\<rparr>)"
    "saga_state t = saga_state (r_tx r)"
    by (rule emit_quiet [OF q])
  show ?thesis
    using run t(1,3,4) set_status_quiet [OF t(2), of Completed "''''"] t(2)
    by (simp add: saga_finish_def saga_status_is_terminal_def saga_row_of_def logged_def quiet_def no_faults_def)
qed

lemma quiet_start:
  assumes "no_faults t" and "outbox_events t = Map.empty" and "saga_state t sid = None"
  shows "\<exists>r. saga_start t sid name = (r_tx r, Inr r) \<and> quiet r \<and> r_status r = Running \<and> r_saga_id r = sid \<and>
    r_completed_set r = {} \<and> r_compensations r = [] \<and> r_events r = [] \<and> wal (r_tx r) = wal t \<and>
    saga_row_of r = Some \<lparr>sr_name = name, sr_status = ''running'', sr_current_step = None,
       sr_completed_steps = [], sr_step_outputs = Map.empty, sr_failed_step = None\<rparr>"
  using assms
  by (simp add: saga_start_def pg_exec_def insert_saga_sql_def select_saga_sql_def quiet_def no_faults_def
      saga_row_of_def parse_saga_status_def saga_status_is_terminal_def)

section \<open>The cleanup saga\<close>

definition cleanup_events :: "uuid_lib \<Rightarrow> uuid \<Rightarrow> saga_event list" where
  "cleanup_events ul sid =
     [event_of ul sid EventStepCompleted mark_name, event_of ul sid EventStepCompleted drop_name,
      event_of ul sid EventStepCompleted finalize_name, event_of ul sid EventSagaCompleted '''']"

lemma step_names_distinct [simp]:
  "mark_name \<noteq> drop_name" "mark_name \<noteq> finalize_name" "drop_name \<noteq> finalize_name"
  "drop_name \<noteq> mark_name" "finalize_name \<noteq> mark_name" "finalize_name \<noteq> drop_name"
  by (simp_all add: mark_name_def drop_name_def finalize_name_def)

lemma step_names [simp]:
  "step_name (mark_step eff) = mark_name" "step_name (drop_step eff) = drop_name"
  "step_name (finalize_step eff) = finalize_name"
  by (simp_all add: mark_step_def drop_step_def finalize_step_def)

lemma dispatch_cleanup_ok:
  assumes q: "quiet r" and run: "r_status r = Running" and none: "r_completed_set r = {}"
    and input: "unmarshal_or_empty cleanup_input_unmarshal raw = Inr input"
    and calm: "\<not> must_fail_here input mark_name" "\<not> must_fail_here input drop_name"
      "\<not> must_fail_here input finalize_name"
  shows "\<exists>r'. dispatch_cleanup_workspace eff ul raw r w = (r', w, None) \<and> quiet r' \<and> logged r r' \<and>
    r_events r' = r_events r @ cleanup_events ul (r_saga_id r) \<and> r_saga_id r' = r_saga_id r \<and>
    (\<forall>row. saga_row_of r = Some row \<longrightarrow> (\<exists>row'. saga_row_of r' = Some row' \<and> sr_status row' = ''completed'' \<and>
       sr_completed_steps row' = sr_completed_steps row @ [mark_name, drop_name, finalize_name]))"
proof -
  have n1: "step_name (mark_step eff) \<notin> r_completed_set r"
    by (simp add: none)
  have e1: "execute (mark_step eff) input w = (w, Inr (ci_workspace_id input, eff_now eff w))"
    using calm by (simp add: mark_step_def)
  obtain j1 where j1: "id_time_marshal ''tombstoned_at'' (ci_workspace_id input, eff_now eff w) = Inr j1"
    by (simp add: id_time_marshal_def)
  obtain r1 where r1: "execute_step (id_time_marshal ''tombstoned_at'') (id_time_unmarshal ''tombstoned_at'') ul
      (mark_step eff) input r w = (r1, w, Inr (ci_workspace_id input, eff_now eff w))" "stepped ul mark_name j1 r r1"
    using quiet_step [where enc = "id_time_marshal ''tombstoned_at''" and dec = "id_time_unmarshal ''tombstoned_at''",
      OF q run n1 e1 j1] unfolding step_names by blast
  note q1 = r1(2) [unfolded stepped_def]
  have n2: "step_name (drop_step eff) \<notin> r_completed_set r1"
    using q1 none by simp
  have e2: "execute (drop_step eff) input w = (w, Inr (ci_workspace_id input, 0))"
    using calm by (simp add: drop_step_def)
  obtain j2 where j2: "id_count_marshal (ci_workspace_id input, 0) = Inr j2"
    by (simp add: id_count_marshal_def)
  obtain r2 where r2: "execute_step id_count_marshal id_count_unmarshal ul (drop_step eff) input r1 w =
      (r2, w, Inr (ci_workspace_id input, 0))" "stepped ul drop_name j2 r1 r2"
    using quiet_step [where enc = id_count_marshal and dec = id_count_unmarshal, OF _ _ n2 e2 j2] q1 unfolding step_names by blast
  note q2 = r2(2) [unfolded stepped_def]
  have n3: "step_name (finalize_step eff) \<notin> r_completed_set r2"
    using q1 q2 none by simp
  have e3: "execute (finalize_step eff) input w = (w, Inr (ci_workspace_id input, eff_now eff w))"
    using calm by (simp add: finalize_step_def)
  obtain j3 where j3: "id_time_marshal ''finalized_at'' (ci_workspace_id input, eff_now eff w) = Inr j3"
    by (simp add: id_time_marshal_def)
  obtain r3 where r3: "execute_step (id_time_marshal ''finalized_at'') (id_time_unmarshal ''finalized_at'') ul
      (finalize_step eff) input r2 w = (r3, w, Inr (ci_workspace_id input, eff_now eff w))" "stepped ul finalize_name j3 r2 r3"
    using quiet_step [where enc = "id_time_marshal ''finalized_at''" and dec = "id_time_unmarshal ''finalized_at''",
      OF _ _ n3 e3 j3] q2 unfolding step_names by blast
  note q3 = r3(2) [unfolded stepped_def]
  obtain r4 where r4: "saga_finish ul r3 = (r4, None)"
    and q4: "quiet r4" "logged r3 r4" "r_saga_id r4 = r_saga_id r3"
    "r_events r4 = r_events r3 @ [event_of ul (r_saga_id r3) EventSagaCompleted '''']"
    "saga_row_of r4 = map_option (set_row_status Completed '''') (saga_row_of r3)"
    using quiet_finish [of r3 ul] q3 by blast
  have l: "logged r r4"
  proof -
    have "logged r r1" "logged r1 r2" "logged r2 r3"
      using q1 q2 q3 by simp_all
    then have "logged r r3"
      by (rule logged_trans [OF logged_trans])
    then show ?thesis
      using q4(2) by (rule logged_trans)
  qed
  have row: "\<exists>row'. saga_row_of r4 = Some row' \<and> sr_status row' = ''completed'' \<and>
       sr_completed_steps row' = sr_completed_steps row @ [mark_name, drop_name, finalize_name]"
    if "saga_row_of r = Some row" for row
    using that q1 q2 q3 q4(5) by (simp add: set_row_status_def append_completed_def set_current_step_def)
  have ev: "r_events r4 = r_events r @ cleanup_events ul (r_saga_id r)"
    using q1 q2 q3 q4(3,4) by (simp add: cleanup_events_def)
  have "dispatch_cleanup_workspace eff ul raw r w = (r4, w, None)"
    by (simp add: dispatch_cleanup_workspace_def input r1(1) r2(1) r3(1) r4)
  then show ?thesis
    using q4(1,3) q1 q2 q3 l ev row by (intro exI [of _ r4]) simp
qed

lemma tx_of_simps [simp]:
  "pg_clock (tx_of db) = pg_clock db" "pg_fault (tx_of db) = pg_fault db" "outbox_events (tx_of db) = c_outbox db"
  "wal (tx_of db) = c_wal db" "saga_state (tx_of db) = c_sagas db"
  by (simp_all add: tx_of_def)

lemma check_first:
  assumes "pg_fault db (pg_clock db) = None" and "e \<notin> processed_events db"
  shows "pg_check_and_record e db =
    (db\<lparr>processed_events := insert e (processed_events db), pg_clock := Suc (pg_clock db)\<rparr>, Inr FirstSeen)"
  using assms by (simp add: pg_check_and_record_def pg_exec_def insert_processed_sql_def)

section \<open>Properties\<close>

text \<open>
  A new cleanup request is carried through: if no statement fails, the request was not processed
  and its saga does not exist, the input decodes, and the chaos switch names none of the steps, the
  consumer answers \<open>completed\<close>; the saga's row is completed with the three steps in order; the log
  grows by exactly three step events and the completion event; and the request is recorded.
\<close>

theorem cleanup_request_completes:
  fixes w :: 'w and eff :: "'w effects"
  assumes nf: "no_faults db" and empty: "c_outbox db = Map.empty" and new: "c_sagas db (rq_saga_id rq) = None"
    and kind: "rq_saga rq = ''cleanup.workspace''"
    and input: "unmarshal_or_empty cleanup_input_unmarshal (rq_input rq) = Inr input"
    and calm: "\<not> must_fail_here input mark_name" "\<not> must_fail_here input drop_name"
      "\<not> must_fail_here input finalize_name"
    and unseen: "derive_request_event_id ol (rq_saga rq) (rq_correlation_id rq) \<notin> processed_events db"
  shows "\<exists>db' row ws. process_request eff ol ul rq db w = (db', w, Inr ''completed'') \<and>
    c_sagas db' (rq_saga_id rq) = Some row \<and> sr_status row = ''completed'' \<and>
    sr_completed_steps row = [mark_name, drop_name, finalize_name] \<and>
    relayed (c_wal db') = relayed (c_wal db) @ ws \<and>
    map on_wire ws = map se_on_wire (cleanup_events ul (rq_saga_id rq)) \<and> c_outbox db' = Map.empty \<and>
    derive_request_event_id ol (rq_saga rq) (rq_correlation_id rq) \<in> processed_events db'"
proof -
  let ?e = "derive_request_event_id ol (rq_saga rq) (rq_correlation_id rq)"
  define db1 where "db1 = db\<lparr>processed_events := insert ?e (processed_events db), pg_clock := Suc (Suc (pg_clock db))\<rparr>"
  have fine: "pg_fault db n = None" if "pg_clock db \<le> n" for n
    using nf that by (simp add: no_faults_def)
  have tx: "no_faults (tx_of db1)" "outbox_events (tx_of db1) = Map.empty" "saga_state (tx_of db1) (rq_saga_id rq) = None"
    using nf empty new by (simp_all add: no_faults_def db1_def)
  obtain r :: "'w saga_runner" where r: "saga_start (tx_of db1) (rq_saga_id rq) (rq_saga rq) = (r_tx r, Inr r)"
    "quiet r" "r_status r = Running" "r_saga_id r = rq_saga_id rq" "r_completed_set r = {}" "r_events r = []"
    "wal (r_tx r) = c_wal db"
    "saga_row_of r = Some \<lparr>sr_name = rq_saga rq, sr_status = ''running'', sr_current_step = None,
       sr_completed_steps = [], sr_step_outputs = Map.empty, sr_failed_step = None\<rparr>"
    using quiet_start [OF tx, of "rq_saga rq"] by (auto simp: db1_def)
  obtain r' row where r': "dispatch_cleanup_workspace eff ul (rq_input rq) r w = (r', w, None)" "quiet r'" "logged r r'"
    "r_events r' = cleanup_events ul (rq_saga_id rq)" "r_saga_id r' = rq_saga_id rq"
    and row: "saga_row_of r' = Some row" "sr_status row = ''completed''"
      "sr_completed_steps row = [mark_name, drop_name, finalize_name]"
    using dispatch_cleanup_ok [OF r(2,3,5) input calm, of eff ul w] r(4,6,8) by auto
  obtain ws where ws: "relayed (wal (r_tx r')) = relayed (c_wal db) @ ws"
    "map on_wire ws = map se_on_wire (cleanup_events ul (rq_saga_id rq))"
    using r'(3,4) r(6,7) by (auto simp: logged_def)
  have "pg_fault (r_tx r') (pg_clock (r_tx r')) = None"
    using r'(2) by (simp add: quiet_def no_faults_def)
  then have "run_saga eff ul rq (db1\<lparr>pg_clock := Suc (pg_clock db)\<rparr>) w =
      ((commit_tx (r_tx r') (after_tx (r_tx r') db1))\<lparr>pg_clock := Suc (pg_clock (r_tx r'))\<rparr>, w, Inr ''completed'')"
    using fine r(1) r'(1) kind
    by (simp add: run_saga_def pg_exec_def dispatch_saga_def after_tx_def commit_tx_def db1_def)
  then have "process_request eff ol ul rq db w =
      ((commit_tx (r_tx r') (after_tx (r_tx r') db1))\<lparr>pg_clock := Suc (pg_clock (r_tx r'))\<rparr>, w, Inr ''completed'')"
    using check_first [OF fine [OF order_refl] unseen]
    by (simp add: process_request_def is_already_processed_def db1_def)
  then show ?thesis
    using row ws r'(2,5)
    by (intro exI [of _ "(commit_tx (r_tx r') (after_tx (r_tx r') db1))\<lparr>pg_clock := Suc (pg_clock (r_tx r'))\<rparr>"]
        exI [of _ row] exI [of _ ws])
       (simp add: commit_tx_def after_tx_def saga_row_of_def quiet_def db1_def)
qed

definition sample_consumer_db :: "(nat \<Rightarrow> string option) \<Rightarrow> consumer_db" where
  "sample_consumer_db faults = \<lparr>pg_clock = 0, pg_fault = faults, processed_events = {}, c_outbox = Map.empty,
     c_wal = [], c_sagas = Map.empty\<rparr>"

definition sample_request :: "string \<Rightarrow> saga_request" where
  "sample_request kind = \<lparr>rq_saga_id = 9, rq_saga = kind, rq_tenant_id = ''t'', rq_correlation_id = 3,
     rq_triggered_by = ''u'', rq_input = RawEmpty\<rparr>"

definition sample_effects :: "unit effects" where
  "sample_effects = \<lparr>eff_now = (\<lambda>_. 1), eff_ctx_err = (\<lambda>_. None), eff_sweep = None\<rparr>"

definition sample_uuids :: uuid_lib where
  "sample_uuids = \<lparr>new_sha1 = (\<lambda>_. 5), uuid_string = (\<lambda>_. ''u'')\<rparr>"

definition empty_cleanup :: cleanup_input where
  "empty_cleanup = \<lparr>ci_tenant_id = [], ci_workspace_id = 0, ci_force_failure_at = None\<rparr>"

lemma empty_cleanup_input:
  "unmarshal_or_empty cleanup_input_unmarshal (rq_input (sample_request kind)) = Inr empty_cleanup"
  by (simp add: unmarshal_or_empty_def sample_request_def cleanup_input_unmarshal_def json_field_def empty_cleanup_def)

theorem cleanup_request_completes_witness:
  "\<exists>db'. process_request sample_effects sample_uuids sample_uuids (sample_request ''cleanup.workspace'')
     (sample_consumer_db (\<lambda>_. None)) () = (db', (), Inr ''completed'')"
proof -
  let ?db = "sample_consumer_db (\<lambda>_. None)" and ?rq = "sample_request ''cleanup.workspace''"
  have "no_faults ?db" "c_outbox ?db = Map.empty" "c_sagas ?db (rq_saga_id ?rq) = None"
    "rq_saga ?rq = ''cleanup.workspace''"
    "derive_request_event_id sample_uuids (rq_saga ?rq) (rq_correlation_id ?rq) \<notin> processed_events ?db"
    by (simp_all add: sample_consumer_db_def no_faults_def sample_request_def)
  moreover have "\<not> must_fail_here empty_cleanup name" for name
    by (simp add: must_fail_here_def empty_cleanup_def)
  ultimately show ?thesis
    using cleanup_request_completes [OF _ _ _ _ empty_cleanup_input, of ?db "''cleanup.workspace''" sample_uuids
        sample_effects sample_uuids "()"] by blast
qed

text \<open>
  C8. A request whose processing fails is lost, although its offset stays uncommitted so that it
  is delivered again. If the request was recorded and then the saga's transaction cannot be opened,
  the consumer reports the error without having touched a saga or the outbox; and from then on, in
  whatever state it finds the database, each redelivery of the request does nothing: it is answered
  \<open>deduped\<close>, or the dedup query fails.
\<close>

theorem failed_request_is_lost:
  assumes unseen: "derive_request_event_id ol (rq_saga rq) (rq_correlation_id rq) \<notin> processed_events db"
    and recorded: "pg_fault db (pg_clock db) = None"
    and begin_fails: "pg_fault db (Suc (pg_clock db)) = Some msg"
  shows "\<exists>db1. process_request eff ol ul rq db w = (db1, w, Inl (PgError msg)) \<and>
    c_sagas db1 = c_sagas db \<and> c_wal db1 = c_wal db \<and>
    (\<forall>db2 w2. processed_events db1 \<subseteq> processed_events db2 \<longrightarrow>
      (\<exists>db3 res. process_request eff ol ul rq db2 w2 = (db3, w2, res) \<and>
        c_sagas db3 = c_sagas db2 \<and> c_wal db3 = c_wal db2 \<and> c_outbox db3 = c_outbox db2 \<and>
        (res = Inr ''deduped'' \<or> (\<exists>m. res = Inl (IdemError m)))))"
proof -
  let ?e = "derive_request_event_id ol (rq_saga rq) (rq_correlation_id rq)"
  let ?db1 = "db\<lparr>processed_events := insert ?e (processed_events db), pg_clock := Suc (Suc (pg_clock db))\<rparr>"
  have "process_request eff ol ul rq db w = (?db1, w, Inl (PgError msg))"
    using check_first [OF recorded unseen] begin_fails
    by (simp add: process_request_def is_already_processed_def run_saga_def pg_exec_def)
  moreover have "\<exists>db3 res. process_request eff ol ul rq db2 w2 = (db3, w2, res) \<and>
        c_sagas db3 = c_sagas db2 \<and> c_wal db3 = c_wal db2 \<and> c_outbox db3 = c_outbox db2 \<and>
        (res = Inr ''deduped'' \<or> (\<exists>m. res = Inl (IdemError m)))"
    if "processed_events ?db1 \<subseteq> processed_events db2" for db2 w2
    using that
    by (auto simp: process_request_def pg_check_and_record_def pg_exec_def insert_processed_sql_def
        is_already_processed_def split: option.splits)
  ultimately show ?thesis
    by (intro exI [of _ ?db1]) simp
qed

theorem failed_request_is_lost_witness:
  "\<exists>db1 db3 res. process_request sample_effects sample_uuids sample_uuids (sample_request ''cleanup.workspace'')
     (sample_consumer_db (\<lambda>n. if n = 1 then Some ''down'' else None)) () = (db1, (), Inl (PgError ''down'')) \<and>
   process_request sample_effects sample_uuids sample_uuids (sample_request ''cleanup.workspace'') db1 () =
     (db3, (), res) \<and> c_sagas db3 = Map.empty \<and> (res = Inr ''deduped'' \<or> (\<exists>m. res = Inl (IdemError m)))"
proof -
  let ?db = "sample_consumer_db (\<lambda>n. if n = 1 then Some ''down'' else None)"
    and ?rq = "sample_request ''cleanup.workspace''"
  let ?run = "process_request sample_effects sample_uuids sample_uuids ?rq"
  have "derive_request_event_id sample_uuids (rq_saga ?rq) (rq_correlation_id ?rq) \<notin> processed_events ?db"
    "pg_fault ?db (pg_clock ?db) = None" "pg_fault ?db (Suc (pg_clock ?db)) = Some ''down''"
    "c_sagas ?db = Map.empty"
    by (simp_all add: sample_consumer_db_def)
  from failed_request_is_lost [OF this(1-3), of sample_effects sample_uuids "()"] this(4)
  show ?thesis by fastforce
qed

text \<open>
  A request of an unknown saga type is recorded as processed and answered
  \<open>failed_or_compensated\<close>, but its saga is left \<open>running\<close>: the dispatcher's error does not go through
  the runner, so the committed row is a fresh running one, no step failure or abort is published,
  and (the request being recorded) no redelivery will ever finish it.
\<close>

theorem unknown_saga_left_running:
  fixes w :: 'w and eff :: "'w effects"
  assumes nf: "no_faults db" and empty: "c_outbox db = Map.empty" and new: "c_sagas db (rq_saga_id rq) = None"
    and kind: "\<not> is_known_saga (rq_saga rq)"
    and unseen: "derive_request_event_id ol (rq_saga rq) (rq_correlation_id rq) \<notin> processed_events db"
  shows "\<exists>db' row. process_request eff ol ul rq db w = (db', w, Inr ''failed_or_compensated'') \<and>
    c_sagas db' (rq_saga_id rq) = Some row \<and> sr_status row = ''running'' \<and> sr_completed_steps row = [] \<and>
    c_wal db' = c_wal db \<and>
    derive_request_event_id ol (rq_saga rq) (rq_correlation_id rq) \<in> processed_events db'"
proof -
  let ?e = "derive_request_event_id ol (rq_saga rq) (rq_correlation_id rq)"
  define db1 where "db1 = db\<lparr>processed_events := insert ?e (processed_events db), pg_clock := Suc (Suc (pg_clock db))\<rparr>"
  have fine: "pg_fault db n = None" if "pg_clock db \<le> n" for n
    using nf that by (simp add: no_faults_def)
  have tx: "no_faults (tx_of db1)" "outbox_events (tx_of db1) = Map.empty" "saga_state (tx_of db1) (rq_saga_id rq) = None"
    using nf empty new by (simp_all add: no_faults_def db1_def)
  obtain r :: "'w saga_runner" where r: "saga_start (tx_of db1) (rq_saga_id rq) (rq_saga rq) = (r_tx r, Inr r)"
    "quiet r" "r_saga_id r = rq_saga_id rq" "wal (r_tx r) = c_wal db"
    "saga_row_of r = Some \<lparr>sr_name = rq_saga rq, sr_status = ''running'', sr_current_step = None,
       sr_completed_steps = [], sr_step_outputs = Map.empty, sr_failed_step = None\<rparr>"
    using quiet_start [OF tx, of "rq_saga rq"] by (auto simp: db1_def)
  have other: "\<exists>err. dispatch_saga eff ul (rq_saga rq) input r w = (r, w, Some err)" for input
    using kind by (simp add: dispatch_saga_def is_known_saga_def known_saga_types_def)
  have quiet: "pg_fault (r_tx r) (pg_clock (r_tx r)) = None"
    using r(2) by (simp add: quiet_def no_faults_def)
  have "run_saga eff ul rq (db1\<lparr>pg_clock := Suc (pg_clock db)\<rparr>) w =
      ((commit_tx (r_tx r) (after_tx (r_tx r) db1))\<lparr>pg_clock := Suc (pg_clock (r_tx r))\<rparr>, w,
       Inr ''failed_or_compensated'')"
    using fine r(1) other [of "rq_input rq"] quiet
    by (auto simp: run_saga_def pg_exec_def after_tx_def commit_tx_def db1_def)
  then have "process_request eff ol ul rq db w =
      ((commit_tx (r_tx r) (after_tx (r_tx r) db1))\<lparr>pg_clock := Suc (pg_clock (r_tx r))\<rparr>, w,
       Inr ''failed_or_compensated'')"
    using check_first [OF fine [OF order_refl] unseen]
    by (simp add: process_request_def is_already_processed_def db1_def)
  then show ?thesis
    using r(3-5) by (simp add: commit_tx_def after_tx_def saga_row_of_def db1_def)
qed

theorem unknown_saga_left_running_witness:
  "\<exists>db' row. process_request sample_effects sample_uuids sample_uuids (sample_request ''nope'')
     (sample_consumer_db (\<lambda>_. None)) () = (db', (), Inr ''failed_or_compensated'') \<and>
     c_sagas db' 9 = Some row \<and> sr_status row = ''running''"
proof -
  let ?db = "sample_consumer_db (\<lambda>_. None)" and ?rq = "sample_request ''nope''"
  have "no_faults ?db" "c_outbox ?db = Map.empty" "c_sagas ?db (rq_saga_id ?rq) = None"
    "\<not> is_known_saga (rq_saga ?rq)" "rq_saga_id ?rq = 9"
    "derive_request_event_id sample_uuids (rq_saga ?rq) (rq_correlation_id ?rq) \<notin> processed_events ?db"
    by (simp_all add: sample_consumer_db_def no_faults_def sample_request_def is_known_saga_def known_saga_types_def)
  then show ?thesis
    using unknown_saga_left_running [of ?db ?rq sample_uuids sample_effects sample_uuids "()"] by auto
qed

end
