(* ===== verification/Dag.thy ===== *)
theory Dag
  imports Prelude "HOL-Library.List_Lexorder" "HOL-Library.Char_ord"
begin

text \<open>
  The pipeline planner of \<^verbatim>\<open>pipeline-build-service/internal/domain/engine/dag.go\<close>: Kahn's algorithm as
  a stack (\<^verbatim>\<open>topologicalSort\<close>) and in waves (\<^verbatim>\<open>executionStages\<close>), and the nodes reachable from a start
  node. The adjacency map is the list of edges in the order they are appended, read per source; the
  in-degree map is a function, its keys being the node ids. Strings are ordered bytewise, as
  \<^verbatim>\<open>sort.Strings\<close> does, so the map iteration order does not matter.
\<close>

section \<open>Definitions\<close>

record pipeline_node =
  pn_id :: string
  pn_depends_on :: "string list"

type_synonym edge = "string \<times> string"

text \<open>The pairs \<open>(dep, id)\<close> in the order of the nested loops.\<close>

definition node_edges :: "pipeline_node list \<Rightarrow> edge list" where
  "node_edges nodes = concat (map (\<lambda>n. map (\<lambda>dep. (dep, pn_id n)) (pn_depends_on n)) nodes)"

definition adjacent :: "edge list \<Rightarrow> string \<Rightarrow> string list" where
  "adjacent es u = map snd (filter (\<lambda>e. fst e = u) es)"

definition in_degree :: "edge list \<Rightarrow> string \<Rightarrow> int" where
  "in_degree es x = int (length (filter (\<lambda>e. snd e = x) es))"

definition node_ids :: "pipeline_node list \<Rightarrow> string list" where
  "node_ids nodes = remdups (map pn_id nodes)"

text \<open>The loop over the neighbours: decrement, and append those that reach zero.\<close>

fun relax :: "string list \<Rightarrow> (string \<Rightarrow> int) \<Rightarrow> string list \<Rightarrow> (string \<Rightarrow> int) \<times> string list" where
  "relax [] deg q = (deg, q)"
| "relax (x # xs) deg q =
     (let d = deg x - 1 in relax xs (deg(x := d)) (if d = 0 then q @ [x] else q))"

text \<open>Every round of a Kahn loop makes this smaller.\<close>

definition kahn_measure :: "edge list \<Rightarrow> (string \<Rightarrow> int) \<Rightarrow> string list \<Rightarrow> nat" where
  "kahn_measure es deg q = (\<Sum>x \<in> snd ` set es. nat (deg x)) + length q"

lemma relax_measure:
  assumes "finite F" and "set xs \<subseteq> F"
  shows "(\<Sum>x \<in> F. nat (fst (relax xs deg q) x)) + length (snd (relax xs deg q)) \<le> (\<Sum>x \<in> F. nat (deg x)) + length q"
  using assms(2)
proof (induction xs arbitrary: deg q)
  case Nil
  then show ?case by simp
next
  case (Cons x xs)
  define deg1 where "deg1 = deg(x := deg x - 1)"
  define q1 where "q1 = (if deg x - 1 = 0 then q @ [x] else q)"
  have x: "x \<in> F" and xs: "set xs \<subseteq> F"
    using Cons.prems by auto
  have step: "relax (x # xs) deg q = relax xs deg1 q1"
    by (simp add: Let_def deg1_def q1_def)
  have rest: "(\<Sum>y \<in> F - {x}. nat (deg1 y)) = (\<Sum>y \<in> F - {x}. nat (deg y))"
    by (rule sum.cong) (auto simp: deg1_def)
  have "(\<Sum>y \<in> F. nat (deg1 y)) + length q1 \<le> (\<Sum>y \<in> F. nat (deg y)) + length q"
    unfolding sum.remove [OF assms(1) x] rest by (auto simp: deg1_def q1_def)
  with Cons.IH [OF xs, of deg1 q1] show ?case
    unfolding step by linarith
qed

lemma adjacent_subset: "set (adjacent es u) \<subseteq> snd ` set es"
  by (auto simp: adjacent_def)

function kahn_loop :: "edge list \<Rightarrow> string list \<Rightarrow> (string \<Rightarrow> int) \<Rightarrow> string list \<Rightarrow> string list" where
  "kahn_loop es queue deg order =
     (if queue = [] then order
      else (case relax (adjacent es (last queue)) deg (butlast queue) of
              (deg', queue') \<Rightarrow> kahn_loop es queue' deg' (order @ [last queue])))"
  by pat_completeness auto
termination
proof (relation "measure (\<lambda>(es, q, deg, order). kahn_measure es deg q)", goal_cases)
  case 1
  then show ?case by simp
next
  case (2 es queue deg order deg' queue')
  then have "(deg', queue') = relax (adjacent es (last queue)) deg (butlast queue)"
    by simp
  then have "kahn_measure es deg' queue' \<le> kahn_measure es deg (butlast queue)"
    using relax_measure [OF _ adjacent_subset, of es "last queue" deg "butlast queue"]
    by (metis List.finite_set finite_imageI fst_conv kahn_measure_def snd_conv)
  moreover have "kahn_measure es deg (butlast queue) < kahn_measure es deg queue"
    using 2(1) by (simp add: kahn_measure_def)
  ultimately show ?case by simp
qed

declare kahn_loop.simps [simp del]

definition cycle_detected :: string where
  "cycle_detected = ''cycle detected in pipeline DAG''"

definition start_not_found :: "string \<Rightarrow> string" where
  "start_not_found start = ''start node '' @ [CHR 39] @ start @ [CHR 39] @ '' not found''"

definition topological_sort :: "pipeline_node list \<Rightarrow> string + string list" where
  "topological_sort nodes =
     (let es = node_edges nodes;
          queue = sort (filter (\<lambda>x. in_degree es x = 0) (node_ids nodes));
          order = kahn_loop es queue (in_degree es) []
      in if length order \<noteq> length nodes then Inl cycle_detected else Inr order)"

text \<open>
  \<^verbatim>\<open>reachableNodes\<close>: a depth-first search with an explicit stack. Only an id not seen before pushes, so
  the ids not yet seen, and then the stack, get smaller.
\<close>

definition unseen :: "edge list \<Rightarrow> string list \<Rightarrow> string set \<Rightarrow> nat" where
  "unseen es stack seen = card ((set stack \<union> snd ` set es) - seen)"

function reach_loop :: "edge list \<Rightarrow> string list \<Rightarrow> string list \<Rightarrow> string list" where
  "reach_loop es stack seen =
     (if stack = [] then seen
      else if last stack \<in> set seen then reach_loop es (butlast stack) seen
      else reach_loop es (butlast stack @ adjacent es (last stack)) (last stack # seen))"
  by pat_completeness auto
termination
proof (relation "inv_image (less_than <*lex*> less_than) (\<lambda>(es, stack, seen). (unseen es stack (set seen), length stack))",
    goal_cases)
  case 1
  show ?case by (intro wf_inv_image wf_lex_prod wf_less_than)
next
  case (2 es stack seen)
  then have "set (butlast stack) \<union> snd ` set es - set seen \<subseteq> set stack \<union> snd ` set es - set seen"
    by (auto dest: in_set_butlastD)
  then have "unseen es (butlast stack) (set seen) \<le> unseen es stack (set seen)"
    unfolding unseen_def by (intro card_mono) auto
  then show ?case
    using 2(1) by (auto simp: le_less)
next
  case (3 es stack seen)
  let ?A = "set stack \<union> snd ` set es - set seen"
  let ?B = "set (butlast stack @ adjacent es (last stack)) \<union> snd ` set es - set (last stack # seen)"
  have "last stack \<in> ?A" "?B \<subseteq> ?A - {last stack}"
    using 3 adjacent_subset [of es "last stack"] by (auto dest: in_set_butlastD)
  then have "card ?B < card ?A"
    by (meson card_Diff1_less card_mono finite_Diff finite_UnI finite_imageI List.finite_set le_less_trans)
  then show ?case
    by (simp add: unseen_def)
qed

declare reach_loop.simps [simp del]

definition reachable_nodes :: "pipeline_node list \<Rightarrow> string \<Rightarrow> string set" where
  "reachable_nodes nodes start = set (reach_loop (node_edges nodes) [start] [])"

definition execution_order :: "pipeline_node list \<Rightarrow> string option \<Rightarrow> string + string list" where
  "execution_order nodes start_from =
     (case topological_sort nodes of
        Inl err \<Rightarrow> Inl err
      | Inr order \<Rightarrow>
          (case start_from of
             None \<Rightarrow> Inr order
           | Some start \<Rightarrow>
               if start \<notin> pn_id ` set nodes then Inl (start_not_found start)
               else Inr (filter (\<lambda>i. i \<in> reachable_nodes nodes start) order)))"

text \<open>One wave: the frontier in order, with the nodes it frees collected for the next.\<close>

fun wave :: "edge list \<Rightarrow> string list \<Rightarrow> (string \<Rightarrow> int) \<Rightarrow> string list \<Rightarrow> (string \<Rightarrow> int) \<times> string list" where
  "wave es [] deg next = (deg, next)"
| "wave es (u # us) deg next =
     (case relax (adjacent es u) deg next of (deg', next') \<Rightarrow> wave es us deg' next')"

lemma wave_relax: "wave es us deg next = relax (concat (map (adjacent es) us)) deg next"
proof (induction us arbitrary: deg "next")
  case (Cons u us)
  have "relax (xs @ ys) deg q = (case relax xs deg q of (deg', q') \<Rightarrow> relax ys deg' q')" for xs ys deg q
    by (induction xs arbitrary: deg q) (auto simp: Let_def)
  with Cons show ?case
    by (auto split: prod.splits)
qed simp

function stage_loop :: "edge list \<Rightarrow> string list \<Rightarrow> (string \<Rightarrow> int) \<Rightarrow> string list list \<Rightarrow> string list list" where
  "stage_loop es frontier deg stages =
     (if frontier = [] then stages
      else (case wave es frontier deg [] of
              (deg', next) \<Rightarrow> stage_loop es (sort next) deg' (stages @ [frontier])))"
  by pat_completeness auto
termination
proof (relation "measure (\<lambda>(es, q, deg, order). kahn_measure es deg q)", goal_cases)
  case 1
  then show ?case by simp
next
  case (2 es frontier deg stages deg' "next")
  then have "(deg', next) = relax (concat (map (adjacent es) frontier)) deg []"
    by (simp add: wave_relax)
  moreover have "set (concat (map (adjacent es) frontier)) \<subseteq> snd ` set es"
    using adjacent_subset by fastforce
  ultimately have "kahn_measure es deg' next \<le> kahn_measure es deg []"
    using relax_measure [of "snd ` set es" "concat (map (adjacent es) frontier)" deg "[]"]
    by (metis List.finite_set finite_imageI fst_conv kahn_measure_def snd_conv)
  moreover have "kahn_measure es deg' (sort next) = kahn_measure es deg' next"
    by (simp add: kahn_measure_def)
  moreover have "kahn_measure es deg [] < kahn_measure es deg frontier"
    using 2(1) by (simp add: kahn_measure_def)
  ultimately show ?case by simp
qed

declare stage_loop.simps [simp del]

text \<open>The edges and ids among the chosen nodes, as the second half of \<^verbatim>\<open>executionStages\<close> builds them.\<close>

definition chosen_edges :: "pipeline_node list \<Rightarrow> string set \<Rightarrow> edge list" where
  "chosen_edges nodes reachable =
     filter (\<lambda>(dep, i). dep \<in> reachable) (node_edges (filter (\<lambda>n. pn_id n \<in> reachable) nodes))"

definition chosen_ids :: "pipeline_node list \<Rightarrow> string set \<Rightarrow> string list" where
  "chosen_ids nodes reachable = node_ids (filter (\<lambda>n. pn_id n \<in> reachable) nodes)"

definition plan_stages :: "pipeline_node list \<Rightarrow> string set \<Rightarrow> string + string list list" where
  "plan_stages nodes reachable =
     (let es = chosen_edges nodes reachable;
          frontier = sort (filter (\<lambda>x. in_degree es x = 0) (chosen_ids nodes reachable));
          stages = stage_loop es frontier (in_degree es) []
      in if length (concat stages) \<noteq> card reachable then Inl cycle_detected else Inr stages)"

definition execution_stages :: "pipeline_node list \<Rightarrow> string option \<Rightarrow> string + string list list" where
  "execution_stages nodes start_from =
     (case start_from of
        Some start \<Rightarrow>
          if start \<notin> pn_id ` set nodes then Inl (start_not_found start)
          else plan_stages nodes (reachable_nodes nodes start)
      | None \<Rightarrow> plan_stages nodes (pn_id ` set nodes))"

end
