(* ===== verification/Dag_Proofs.thy ===== *)
theory Dag_Proofs
  imports Dag
begin

text \<open>
  Correctness of the pipeline planner: the stack version returns a topological order exactly for a
  graph with distinct ids, known dependencies and no cycle; the wave version returns the levels of
  the chosen part of the graph, and an error exactly if that part has a cycle.
\<close>

section \<open>Pending edges\<close>

text \<open>The edges into \<open>x\<close> whose source is not done yet: what the in-degree map holds.\<close>

definition pend :: "edge list \<Rightarrow> string set \<Rightarrow> string \<Rightarrow> int" where
  "pend es P x = int (length (filter (\<lambda>e. snd e = x \<and> fst e \<notin> P) es))"

lemma in_degree_pend: "in_degree es = pend es {}"
  by (simp add: in_degree_def pend_def fun_eq_iff)

lemma pend_nonneg [simp]: "0 \<le> pend es P x"
  by (simp add: pend_def)

lemma pend_0_iff: "pend es P x = 0 \<longleftrightarrow> (\<forall>u. (u, x) \<in> set es \<longrightarrow> u \<in> P)"
  by (force simp: pend_def filter_empty_conv)

lemma count_adjacent: "count_list (adjacent es u) x = length (filter (\<lambda>e. snd e = x \<and> fst e = u) es)"
  by (induction es) (auto simp: adjacent_def)

lemma pend_insert:
  "u \<notin> P \<Longrightarrow> pend es (insert u P) x = pend es P x - int (count_list (adjacent es u) x)"
  unfolding count_adjacent by (induction es) (auto simp: pend_def)

lemma pend_union:
  "distinct us \<Longrightarrow> set us \<inter> P = {} \<Longrightarrow>
   pend es (P \<union> set us) x = pend es P x - int (count_list (concat (map (adjacent es) us)) x)"
proof (induction us arbitrary: P)
  case Nil
  then show ?case by simp
next
  case (Cons u us)
  have "pend es (insert u P \<union> set us) x = pend es (insert u P) x - int (count_list (concat (map (adjacent es) us)) x)"
    using Cons.prems by (intro Cons.IH) auto
  also have "pend es (insert u P) x = pend es P x - int (count_list (adjacent es u) x)"
    using Cons.prems by (intro pend_insert) simp
  finally show ?case by (simp add: count_list_append)
qed

lemma set_adjacent: "x \<in> set (adjacent es u) \<longleftrightarrow> (u, x) \<in> set es"
  by (force simp: adjacent_def)

text \<open>The neighbours loop, when no degree goes below zero.\<close>

lemma relax_spec:
  assumes "\<And>x. int (count_list xs x) \<le> deg x"
  shows "\<exists>zs. relax xs deg q = (\<lambda>x. deg x - int (count_list xs x), q @ zs) \<and> distinct zs \<and>
    set zs = {x \<in> set xs. deg x = int (count_list xs x)}"
  using assms
proof (induction xs arbitrary: deg q)
  case Nil
  then show ?case by auto
next
  case (Cons x xs)
  define deg1 where "deg1 = deg(x := deg x - 1)"
  have le: "int (count_list xs y) \<le> deg1 y" for y
    using Cons.prems [of y] by (simp add: deg1_def split: if_splits)
  have eq: "(\<lambda>y. deg1 y - int (count_list xs y)) = (\<lambda>y. deg y - int (count_list (x # xs) y))"
    by (auto simp: deg1_def fun_eq_iff)
  show ?case
  proof (cases "deg x - 1 = 0")
    case True
    then have "count_list xs x = 0"
      using Cons.prems [of x] by simp
    then have x: "x \<notin> set xs"
      by (simp add: count_list_0_iff)
    obtain zs where zs: "relax xs deg1 (q @ [x]) = (\<lambda>y. deg1 y - int (count_list xs y), (q @ [x]) @ zs)"
      "distinct zs" "set zs = {y \<in> set xs. deg1 y = int (count_list xs y)}"
      using Cons.IH [of deg1 "q @ [x]"] le by blast
    have "relax (x # xs) deg q = (\<lambda>y. deg y - int (count_list (x # xs) y), q @ x # zs)"
      using zs(1) True eq by (simp add: Let_def deg1_def)
    moreover have "set (x # zs) = {y \<in> set (x # xs). deg y = int (count_list (x # xs) y)}"
    proof (rule set_eqI)
      fix y
      show "y \<in> set (x # zs) \<longleftrightarrow> y \<in> {y \<in> set (x # xs). deg y = int (count_list (x # xs) y)}"
        unfolding list.set zs(3) using True x \<open>count_list xs x = 0\<close>
        by (cases "y = x") (simp_all add: deg1_def)
    qed
    moreover have "distinct (x # zs)"
      using zs(2,3) x by simp
    ultimately show ?thesis by blast
  next
    case False
    obtain zs where zs: "relax xs deg1 q = (\<lambda>y. deg1 y - int (count_list xs y), q @ zs)"
      "distinct zs" "set zs = {y \<in> set xs. deg1 y = int (count_list xs y)}"
      using Cons.IH [of deg1 q] le by blast
    have "relax (x # xs) deg q = (\<lambda>y. deg y - int (count_list (x # xs) y), q @ zs)"
      using zs(1) False eq by (simp add: Let_def deg1_def)
    moreover have "set zs = {y \<in> set (x # xs). deg y = int (count_list (x # xs) y)}"
    proof (rule set_eqI)
      fix y
      show "y \<in> set zs \<longleftrightarrow> y \<in> {y \<in> set (x # xs). deg y = int (count_list (x # xs) y)}"
      proof (cases "y = x")
        case True
        with False show ?thesis
          unfolding zs(3) by (cases "x \<in> set xs") (auto simp: deg1_def)
      qed (simp add: zs(3) deg1_def)
    qed
    ultimately show ?thesis using zs(2) by blast
  qed
qed

text \<open>Finishing the nodes \<open>us\<close> after the nodes \<open>P\<close>.\<close>

lemma relax_pend:
  assumes "distinct us" and "set us \<inter> P = {}"
  shows "\<exists>zs. relax (concat (map (adjacent es) us)) (pend es P) q = (pend es (P \<union> set us), q @ zs) \<and> distinct zs \<and>
    set zs = {x. (\<exists>u \<in> set us. (u, x) \<in> set es) \<and> pend es (P \<union> set us) x = 0}"
proof -
  let ?xs = "concat (map (adjacent es) us)"
  have eq: "pend es (P \<union> set us) x = pend es P x - int (count_list ?xs x)" for x
    using pend_union [OF assms] .
  have "int (count_list ?xs x) \<le> pend es P x" for x
    using eq [of x] pend_nonneg [of es "P \<union> set us" x] by linarith
  then obtain zs where "relax ?xs (pend es P) q = (\<lambda>x. pend es P x - int (count_list ?xs x), q @ zs)"
    "distinct zs" "set zs = {x \<in> set ?xs. pend es P x = int (count_list ?xs x)}"
    using relax_spec [of ?xs "pend es P" q] by blast
  then show ?thesis
    by (intro exI [of _ zs]) (auto simp: eq set_adjacent)
qed

section \<open>The stack version\<close>

text \<open>Every source of an edge comes before its target.\<close>

definition ordered :: "edge list \<Rightarrow> string list \<Rightarrow> bool" where
  "ordered es order \<longleftrightarrow> (\<forall>xs x ys. order = xs @ x # ys \<longrightarrow> (\<forall>u. (u, x) \<in> set es \<longrightarrow> u \<in> set xs))"

lemma ordered_Nil [simp]: "ordered es []"
  by (simp add: ordered_def)

lemma ordered_snoc:
  "ordered es order \<Longrightarrow> (\<And>u. (u, x) \<in> set es \<Longrightarrow> u \<in> set order) \<Longrightarrow> ordered es (order @ [x])"
  unfolding ordered_def
proof (intro allI impI)
  fix xs y ys u
  assume ord: "\<forall>xs x ys. order = xs @ x # ys \<longrightarrow> (\<forall>u. (u, x) \<in> set es \<longrightarrow> u \<in> set xs)"
    and last: "\<And>u. (u, x) \<in> set es \<Longrightarrow> u \<in> set order"
    and split: "order @ [x] = xs @ y # ys" and e: "(u, y) \<in> set es"
  show "u \<in> set xs"
  proof (cases ys rule: rev_cases)
    case Nil
    with split last e show ?thesis by auto
  next
    case (snoc zs z)
    with split have "order = xs @ y # zs" by simp
    with ord e show ?thesis by blast
  qed
qed

definition kahn_inv :: "edge list \<Rightarrow> string set \<Rightarrow> string list \<Rightarrow> (string \<Rightarrow> int) \<Rightarrow> string list \<Rightarrow> bool" where
  "kahn_inv es ids queue deg order \<longleftrightarrow>
     deg = pend es (set order) \<and> distinct (order @ queue) \<and>
     set (order @ queue) = {x \<in> ids. pend es (set order) x = 0} \<and> ordered es order"

lemma kahn_inv_step:
  assumes inv: "kahn_inv es ids queue deg order" and ne: "queue \<noteq> []" and tgt: "snd ` set es \<subseteq> ids"
    and step: "relax (adjacent es (last queue)) deg (butlast queue) = (deg', queue')"
  shows "kahn_inv es ids queue' deg' (order @ [last queue])"
proof -
  let ?u = "last queue" and ?P = "set order"
  have deg: "deg = pend es ?P" and dist: "distinct (order @ queue)"
    and set: "set (order @ queue) = {x \<in> ids. pend es ?P x = 0}" and ord: "ordered es order"
    using inv by (simp_all add: kahn_inv_def)
  have q: "queue = butlast queue @ [?u]"
    using ne by simp
  have "?u \<in> set queue"
    using ne by simp
  then have u: "?u \<notin> ?P" "?u \<in> ids" "pend es ?P ?u = 0"
    using dist set by (auto simp: set_eq_iff)
  obtain zs where zs: "relax (adjacent es ?u) deg (butlast queue) = (pend es (insert ?u ?P), butlast queue @ zs)"
    "distinct zs" "set zs = {x. (?u, x) \<in> set es \<and> pend es (insert ?u ?P) x = 0}"
    using relax_pend [of "[?u]" ?P es "butlast queue"] u(1) by (auto simp: deg)
  have mono: "pend es ?P x = 0 \<Longrightarrow> pend es (insert ?u ?P) x = 0" for x
    by (auto simp: pend_0_iff)
  have split: "set (order @ queue) = set order \<union> {?u} \<union> set (butlast queue)"
    by (subst q) auto
  have disj: "set zs \<inter> set (order @ queue) = {}"
    using u(1) unfolding set zs(3) by (auto simp: pend_0_iff)
  have "set (order @ [?u] @ butlast queue @ zs) = {x \<in> ids. pend es (insert ?u ?P) x = 0}"
  proof -
    have "x \<in> set zs \<or> pend es ?P x = 0" if "pend es (insert ?u ?P) x = 0" for x
      using that unfolding zs(3) by (auto simp: pend_0_iff)
    moreover have "set zs \<subseteq> {x \<in> ids. pend es (insert ?u ?P) x = 0}"
      using tgt unfolding zs(3) by force
    moreover have "set (order @ [?u] @ butlast queue @ zs) = {x \<in> ids. pend es ?P x = 0} \<union> set zs"
      unfolding set [symmetric] split by auto
    ultimately show ?thesis
      using mono by blast
  qed
  moreover have "distinct (order @ [?u] @ butlast queue @ zs)"
  proof -
    have "distinct (order @ butlast queue @ [?u])"
      using dist q by metis
    then show ?thesis
      using disj zs(2) unfolding split by auto
  qed
  moreover have "ordered es (order @ [?u])"
    using ord u(3) by (intro ordered_snoc) (auto simp: pend_0_iff)
  moreover have "deg' = pend es (insert ?u ?P)" "queue' = butlast queue @ zs"
    using step zs(1) by simp_all
  ultimately show ?thesis
    unfolding kahn_inv_def by simp
qed

lemma kahn_loop_result:
  assumes "kahn_inv es ids queue deg order" and "snd ` set es \<subseteq> ids"
  shows "kahn_inv es ids [] (pend es (set (kahn_loop es queue deg order))) (kahn_loop es queue deg order)"
  using assms
proof (induction es queue deg order rule: kahn_loop.induct)
  case (1 es queue deg order)
  show ?case
  proof (cases "queue = []")
    case True
    with 1 show ?thesis
      by (simp add: kahn_loop.simps kahn_inv_def)
  next
    case False
    obtain deg' queue' where step: "relax (adjacent es (last queue)) deg (butlast queue) = (deg', queue')"
      by fastforce
    have "kahn_loop es queue deg order = kahn_loop es queue' deg' (order @ [last queue])"
      using False step by (simp add: kahn_loop.simps [of es queue])
    then show ?thesis
      using "1.IH" [OF False step [symmetric] kahn_inv_step [OF "1.prems"(1) False "1.prems"(2) step] "1.prems"(2)]
      by simp
  qed
qed

lemma set_node_ids [simp]: "set (node_ids nodes) = pn_id ` set nodes"
  by (simp add: node_ids_def)

lemma node_edges_iff: "(u, x) \<in> set (node_edges nodes) \<longleftrightarrow> (\<exists>n \<in> set nodes. pn_id n = x \<and> u \<in> set (pn_depends_on n))"
  by (force simp: node_edges_def)

lemma node_edges_target: "snd ` set (node_edges nodes) \<subseteq> pn_id ` set nodes"
  by (force simp: node_edges_def)

text \<open>An order that respects the edges and holds all their targets rules out a cycle.\<close>

lemma ordered_acyclic:
  assumes ord: "ordered es order" and tgt: "snd ` set es \<subseteq> set order"
  shows "fst ` set es \<subseteq> set order \<and> acyclic (set es)"
proof -
  let ?idx = "\<lambda>x. length (takeWhile (\<lambda>y. y \<noteq> x) order)"
  have split: "\<exists>xs ys. order = xs @ x # ys \<and> x \<notin> set xs" if "x \<in> set order" for x
    using that by (rule split_list_first)
  have before: "u \<in> set order \<and> ?idx u < ?idx x" if "(u, x) \<in> set es" for u x
  proof -
    have "x \<in> set order"
      using that tgt by force
    then obtain xs ys where xs: "order = xs @ x # ys" "x \<notin> set xs"
      using split by blast
    then have u: "u \<in> set xs"
      using ord that unfolding ordered_def by blast
    have "?idx x = length xs"
      unfolding xs(1) using xs(2) by (subst takeWhile_append2) auto
    moreover have "?idx u < length xs"
    proof -
      have "takeWhile (\<lambda>y. y \<noteq> u) order = takeWhile (\<lambda>y. y \<noteq> u) xs"
        unfolding xs(1) using u by (simp add: takeWhile_append1)
      moreover have "length (takeWhile (\<lambda>y. y \<noteq> u) xs) < length xs"
        using u by (induction xs) auto
      ultimately show ?thesis by simp
    qed
    ultimately show ?thesis
      using u xs(1) by simp
  qed
  have "acyclic ((set es)\<inverse>)"
    by (rule acyclicI_order [of _ ?idx]) (use before in auto)
  then have "acyclic (set es)"
    by simp
  with before show ?thesis by fastforce
qed

text \<open>Without a cycle, some node of a nonempty set has no edge from the set.\<close>

lemma acyclic_source:
  assumes "acyclic (set es)" and "R \<noteq> {}"
  shows "\<exists>x \<in> R. \<forall>u. (u, x) \<in> set es \<longrightarrow> u \<notin> R"
proof -
  have "wf (set es)"
    using assms(1) by (simp add: finite_acyclic_wf)
  with assms(2) obtain x where "x \<in> R" "\<And>u. (u, x) \<in> set es \<Longrightarrow> u \<notin> R"
    by (metis ex_in_conv wfE_min)
  then show ?thesis by blast
qed

lemma kahn_inv_covers:
  assumes inv: "kahn_inv es ids [] deg order" and known: "fst ` set es \<subseteq> ids" and acyc: "acyclic (set es)"
  shows "set order = ids"
proof (rule ccontr)
  have set: "set order = {x \<in> ids. pend es (set order) x = 0}"
    using inv by (simp add: kahn_inv_def)
  have sub: "set order \<subseteq> ids"
    by (subst set) blast
  assume "set order \<noteq> ids"
  with sub have "ids - set order \<noteq> {}"
    by blast
  from acyclic_source [OF acyc this]
  obtain x where x: "x \<in> ids - set order" "\<forall>u. (u, x) \<in> set es \<longrightarrow> u \<notin> ids - set order"
    by (elim bexE)
  have "u \<in> set order" if "(u, x) \<in> set es" for u
  proof -
    have "u \<in> ids"
      using known that by force
    with x(2) that show ?thesis by simp
  qed
  then have "pend es (set order) x = 0"
    by (simp add: pend_0_iff)
  with x(1) have "x \<in> set order"
    by (subst set) simp
  with x(1) show False by simp
qed

section \<open>The wave version\<close>

lemma ordered_append:
  "ordered es order \<Longrightarrow> (\<And>x u. x \<in> set xs \<Longrightarrow> (u, x) \<in> set es \<Longrightarrow> u \<in> set order) \<Longrightarrow> ordered es (order @ xs)"
proof (induction xs rule: rev_induct)
  case (snoc x xs)
  have "ordered es (order @ xs)"
    by (rule snoc.IH [OF snoc.prems(1)]) (use snoc.prems(2) in auto)
  then have "ordered es ((order @ xs) @ [x])"
    by (rule ordered_snoc) (use snoc.prems(2) [of x] in auto)
  then show ?case by simp
qed simp

text \<open>Each stage is nonempty and sorted, and holds nodes that wait exactly for the stages before.\<close>

definition levels :: "edge list \<Rightarrow> string list list \<Rightarrow> bool" where
  "levels es stages \<longleftrightarrow>
     (\<forall>k < length stages. stages ! k \<noteq> [] \<and> sorted (stages ! k) \<and>
        (\<forall>x \<in> set (stages ! k). (\<forall>u. (u, x) \<in> set es \<longrightarrow> u \<in> set (concat (take k stages))) \<and>
           (0 < k \<longrightarrow> (\<exists>u \<in> set (stages ! (k - 1)). (u, x) \<in> set es))))"

definition stage_inv ::
  "edge list \<Rightarrow> string set \<Rightarrow> string list \<Rightarrow> (string \<Rightarrow> int) \<Rightarrow> string list list \<Rightarrow> bool" where
  "stage_inv es ids frontier deg stages \<longleftrightarrow>
     deg = pend es (set (concat stages)) \<and> distinct (concat stages @ frontier) \<and> sorted frontier \<and>
     set (concat stages @ frontier) = {x \<in> ids. pend es (set (concat stages)) x = 0} \<and>
     (stages \<noteq> [] \<longrightarrow> (\<forall>x \<in> set frontier. \<exists>u \<in> set (last stages). (u, x) \<in> set es)) \<and>
     ordered es (concat stages) \<and> levels es stages"

lemma levels_snoc:
  assumes lev: "levels es stages" and "frontier \<noteq> []" and "sorted frontier"
    and ready: "\<And>x u. x \<in> set frontier \<Longrightarrow> (u, x) \<in> set es \<Longrightarrow> u \<in> set (concat stages)"
    and tight: "\<And>x. stages \<noteq> [] \<Longrightarrow> x \<in> set frontier \<Longrightarrow> \<exists>u \<in> set (last stages). (u, x) \<in> set es"
  shows "levels es (stages @ [frontier])"
  unfolding levels_def
proof (intro allI impI)
  fix k assume k: "k < length (stages @ [frontier])"
  let ?st = "stages @ [frontier]"
  show "?st ! k \<noteq> [] \<and> sorted (?st ! k) \<and>
    (\<forall>x \<in> set (?st ! k). (\<forall>u. (u, x) \<in> set es \<longrightarrow> u \<in> set (concat (take k ?st))) \<and>
       (0 < k \<longrightarrow> (\<exists>u \<in> set (?st ! (k - 1)). (u, x) \<in> set es)))"
  proof (cases "k < length stages")
    case True
    then have "?st ! k = stages ! k" "take k ?st = take k stages" "?st ! (k - 1) = stages ! (k - 1)"
      by (simp_all add: nth_append less_imp_diff_less)
    with lev True show ?thesis
      unfolding levels_def by metis
  next
    case False
    with k have k': "k = length stages" by simp
    then have "?st ! k = frontier" "take k ?st = stages" "0 < k \<longrightarrow> ?st ! (k - 1) = last stages \<and> stages \<noteq> []"
      by (auto simp: nth_append last_conv_nth)
    with assms show ?thesis by auto
  qed
qed

lemma stage_inv_step:
  assumes inv: "stage_inv es ids frontier deg stages" and ne: "frontier \<noteq> []" and tgt: "snd ` set es \<subseteq> ids"
    and step: "wave es frontier deg [] = (deg', next)"
  shows "stage_inv es ids (sort next) deg' (stages @ [frontier])"
proof -
  let ?P = "set (concat stages)" and ?Q = "set (concat stages) \<union> set frontier"
  have deg: "deg = pend es ?P" and dist: "distinct (concat stages @ frontier)" and srt: "sorted frontier"
    and set: "?Q = {x \<in> ids. pend es ?P x = 0}"
    and tight: "stages \<noteq> [] \<longrightarrow> (\<forall>x \<in> set frontier. \<exists>u \<in> set (last stages). (u, x) \<in> set es)"
    and ord: "ordered es (concat stages)" and lev: "levels es stages"
    using inv by (simp_all add: stage_inv_def)
  have disj: "set frontier \<inter> ?P = {}" "distinct frontier"
    using dist by auto
  obtain zs where zs: "wave es frontier deg [] = (pend es ?Q, zs)" "distinct zs"
    "set zs = {x. (\<exists>u \<in> set frontier. (u, x) \<in> set es) \<and> pend es ?Q x = 0}"
    using relax_pend [OF disj(2,1), of es "[]"] by (auto simp: wave_relax deg)
  have eqs: "deg' = pend es ?Q" "next = zs"
    using step zs(1) by simp_all
  have ready: "u \<in> ?P" if "x \<in> set frontier" "(u, x) \<in> set es" for x u
  proof -
    have "x \<in> {x \<in> ids. pend es ?P x = 0}"
      unfolding set [symmetric] using that(1) by simp
    with that(2) show ?thesis by (simp add: pend_0_iff)
  qed
  have mono: "pend es ?P x = 0 \<Longrightarrow> pend es ?Q x = 0" for x
    by (auto simp: pend_0_iff)
  have new: "x \<notin> ?Q" if "x \<in> set zs" for x
    using that disj(1) unfolding set zs(3) by (auto simp: pend_0_iff)
  have cover: "x \<in> set zs \<or> pend es ?P x = 0" if "pend es ?Q x = 0" for x
    using that unfolding zs(3) by (auto simp: pend_0_iff)
  have "set zs \<subseteq> ids"
    using tgt unfolding zs(3) by force
  then have "?Q \<union> set zs = {x \<in> ids. pend es ?Q x = 0}"
    using cover mono unfolding set zs(3) by blast
  moreover have "distinct (concat (stages @ [frontier]) @ sort next)"
    using dist new zs(2) by (auto simp: eqs)
  moreover have "ordered es (concat (stages @ [frontier]))"
    using ordered_append [OF ord ready] by simp
  moreover have "levels es (stages @ [frontier])"
    using tight by (intro levels_snoc [OF lev ne srt]) (auto dest: ready)
  moreover have "\<forall>x \<in> set (sort next). \<exists>u \<in> set (last (stages @ [frontier])). (u, x) \<in> set es"
    by (simp add: eqs zs(3))
  ultimately show ?thesis
    unfolding stage_inv_def by (simp add: eqs Un_assoc)
qed

lemma stage_loop_result:
  assumes "stage_inv es ids frontier deg stages" and "snd ` set es \<subseteq> ids"
  shows "stage_inv es ids [] (pend es (set (concat (stage_loop es frontier deg stages)))) (stage_loop es frontier deg stages)"
  using assms
proof (induction es frontier deg stages rule: stage_loop.induct)
  case (1 es frontier deg stages)
  show ?case
  proof (cases "frontier = []")
    case True
    with 1 show ?thesis
      by (simp add: stage_loop.simps stage_inv_def)
  next
    case False
    obtain deg' "next" where step: "wave es frontier deg [] = (deg', next)"
      by fastforce
    have "stage_loop es frontier deg stages = stage_loop es (sort next) deg' (stages @ [frontier])"
      using False step by (simp add: stage_loop.simps [of es frontier])
    then show ?thesis
      using "1.IH" [OF False step [symmetric] stage_inv_step [OF "1.prems"(1) False "1.prems"(2) step] "1.prems"(2)]
      by simp
  qed
qed

lemma stage_inv_kahn:
  "stage_inv es ids [] deg stages \<Longrightarrow> kahn_inv es ids [] deg (concat stages)"
  by (simp add: stage_inv_def kahn_inv_def)

section \<open>Reachability\<close>

lemma reach_loop_result:
  assumes "set stack \<union> set seen \<subseteq> (set es)\<^sup>* `` {s}" and "s \<in> set stack \<union> set seen"
    and "\<And>u x. u \<in> set seen \<Longrightarrow> (u, x) \<in> set es \<Longrightarrow> x \<in> set stack \<union> set seen"
  shows "set (reach_loop es stack seen) = (set es)\<^sup>* `` {s}"
  using assms
proof (induction es stack seen rule: reach_loop.induct)
  case (1 es stack seen)
  show ?case
  proof (cases "stack = []")
    case True
    have "x \<in> set seen" if "(s, x) \<in> (set es)\<^sup>*" for x
      using that by (induction rule: rtrancl_induct) (use "1.prems"(2,3) True in auto)
    with True "1.prems"(1) show ?thesis
      by (auto simp: reach_loop.simps)
  next
    case False
    then have split: "set stack = insert (last stack) (set (butlast stack))"
      by (metis append_butlast_last_id list.simps(15) rotate1.simps(2) set_rotate1)
    show ?thesis
    proof (cases "last stack \<in> set seen")
      case True
      have "set (reach_loop es (butlast stack) seen) = (set es)\<^sup>* `` {s}"
        by (rule "1.IH"(1) [OF False True]) (use "1.prems" split True in auto)
      with False True show ?thesis by (simp add: reach_loop.simps [of es stack])
    next
      case new: False
      have "last stack \<in> (set es)\<^sup>* `` {s}"
        using "1.prems"(1) split by auto
      then have "set (adjacent es (last stack)) \<subseteq> (set es)\<^sup>* `` {s}"
        by (auto simp: set_adjacent intro: rtrancl.rtrancl_into_rtrancl)
      then have "set (reach_loop es (butlast stack @ adjacent es (last stack)) (last stack # seen)) = (set es)\<^sup>* `` {s}"
        by (intro "1.IH"(2) [OF False new]) (use "1.prems" split in \<open>auto simp: set_adjacent\<close>)
      with False new show ?thesis by (simp add: reach_loop.simps [of es stack])
    qed
  qed
qed

lemma reachable_nodes_eq: "reachable_nodes nodes s = (set (node_edges nodes))\<^sup>* `` {s}"
  unfolding reachable_nodes_def by (rule reach_loop_result) auto

section \<open>The sort and the stages\<close>

lemma initial_kahn:
  "kahn_inv es ids (sort (filter (\<lambda>x. in_degree es x = 0) xs)) (in_degree es) []" if "distinct xs" "set xs = ids"
  using that by (auto simp: kahn_inv_def in_degree_pend)

lemma topological_sort_inv:
  assumes "order = kahn_loop (node_edges nodes)
      (sort (filter (\<lambda>x. in_degree (node_edges nodes) x = 0) (node_ids nodes))) (in_degree (node_edges nodes)) []"
  shows "kahn_inv (node_edges nodes) (pn_id ` set nodes) [] (pend (node_edges nodes) (set order)) order"
  unfolding assms
  by (rule kahn_loop_result [OF initial_kahn node_edges_target]) (simp_all add: node_ids_def)

lemma topological_sort_core:
  "if distinct (map pn_id nodes) \<and> fst ` set (node_edges nodes) \<subseteq> pn_id ` set nodes \<and>
      acyclic (set (node_edges nodes))
   then \<exists>order. topological_sort nodes = Inr order \<and> distinct order \<and> set order = pn_id ` set nodes \<and>
      ordered (node_edges nodes) order
   else topological_sort nodes = Inl cycle_detected"
proof -
  define es where "es = node_edges nodes"
  define order where "order = kahn_loop es (sort (filter (\<lambda>x. in_degree es x = 0) (node_ids nodes))) (in_degree es) []"
  have inv: "kahn_inv es (pn_id ` set nodes) [] (pend es (set order)) order"
    using topological_sort_inv [of order nodes] by (simp add: es_def order_def)
  then have dist: "distinct order" and set: "set order = {x \<in> pn_id ` set nodes. pend es (set order) x = 0}"
    and ord: "ordered es order"
    by (simp_all add: kahn_inv_def)
  have sub: "set order \<subseteq> pn_id ` set nodes"
    by (subst set) blast
  have run: "topological_sort nodes = (if length order \<noteq> length nodes then Inl cycle_detected else Inr order)"
    by (simp add: topological_sort_def Let_def es_def order_def)
  have len: "length order = card (set order)"
    using dist by (simp add: distinct_card)
  have card: "card (pn_id ` set nodes) \<le> length nodes"
    by (metis card_length list.set_map length_map)
  show ?thesis
  proof (cases "distinct (map pn_id nodes) \<and> fst ` set es \<subseteq> pn_id ` set nodes \<and> acyclic (set es)")
    case True
    then have cover: "set order = pn_id ` set nodes"
      using kahn_inv_covers [OF inv] by blast
    have "card (pn_id ` set nodes) = length nodes"
      using True by (metis distinct_card length_map list.set_map)
    with cover len have "length order = length nodes" by simp
    with True run dist cover ord show ?thesis
      by (simp add: es_def)
  next
    case False
    have "length order \<noteq> length nodes"
    proof
      assume l: "length order = length nodes"
      then have cover: "set order = pn_id ` set nodes"
        using sub card len by (metis List.finite_set card_subset_eq finite_imageI le_antisym card_mono)
      with l len have "card (set (map pn_id nodes)) = length (map pn_id nodes)"
        by simp
      then have "distinct (map pn_id nodes)"
        by (rule card_distinct)
      moreover have "snd ` set es \<subseteq> set order"
        using node_edges_target cover by (simp add: es_def)
      ultimately show False
        using False ordered_acyclic [OF ord] cover by blast
    qed
    with False run show ?thesis
      by (simp add: es_def)
  qed
qed

text \<open>The part of the graph that a start node selects.\<close>

definition chosen_nodes :: "pipeline_node list \<Rightarrow> string option \<Rightarrow> string set" where
  "chosen_nodes nodes start_from =
     (case start_from of None \<Rightarrow> pn_id ` set nodes | Some s \<Rightarrow> (set (node_edges nodes))\<^sup>* `` {s})"

lemma chosen_nodes_subset:
  assumes "start_from = None \<or> (\<exists>s \<in> pn_id ` set nodes. start_from = Some s)"
  shows "chosen_nodes nodes start_from \<subseteq> pn_id ` set nodes"
proof (cases start_from)
  case (Some s)
  have "x \<in> pn_id ` set nodes" if "(s, x) \<in> (set (node_edges nodes))\<^sup>*" for x
    using that
  proof (cases rule: rtranclE)
    case base
    with assms Some show ?thesis by auto
  next
    case (step y)
    have "snd (y, x) \<in> snd ` set (node_edges nodes)"
      using step(2) by (rule imageI)
    with node_edges_target show ?thesis by auto
  qed
  with Some show ?thesis
    by (auto simp: chosen_nodes_def)
qed (simp add: chosen_nodes_def)

lemma set_chosen_edges: "set (chosen_edges nodes R) = {(u, x) \<in> set (node_edges nodes). u \<in> R \<and> x \<in> R}"
  by (auto simp: chosen_edges_def node_edges_def)

lemma plan_stages_core:
  assumes R: "R \<subseteq> pn_id ` set nodes"
  shows "if acyclic {(u, x) \<in> set (node_edges nodes). u \<in> R \<and> x \<in> R}
    then \<exists>stages. plan_stages nodes R = Inr stages \<and> distinct (concat stages) \<and> set (concat stages) = R \<and>
      levels (chosen_edges nodes R) stages
    else plan_stages nodes R = Inl cycle_detected"
proof -
  define es where "es = chosen_edges nodes R"
  define ids where "ids = chosen_ids nodes R"
  define stages where "stages = stage_loop es (sort (filter (\<lambda>x. in_degree es x = 0) ids)) (in_degree es) []"
  have ids: "distinct ids" "set ids = R"
    using R by (auto simp: ids_def chosen_ids_def node_ids_def)
  have es: "set es = {(u, x) \<in> set (node_edges nodes). u \<in> R \<and> x \<in> R}"
    by (simp add: es_def set_chosen_edges)
  have tgt: "snd ` set es \<subseteq> R" and src: "fst ` set es \<subseteq> R"
    by (auto simp: es)
  have "stage_inv es R (sort (filter (\<lambda>x. in_degree es x = 0) ids)) (in_degree es) []"
    using ids by (auto simp: stage_inv_def in_degree_pend levels_def)
  then have inv: "stage_inv es R [] (pend es (set (concat stages))) stages"
    unfolding stages_def by (rule stage_loop_result [OF _ tgt])
  then have lev: "levels es stages" and dist: "distinct (concat stages)" and ord: "ordered es (concat stages)"
    and set: "set (concat stages) = {x \<in> R. pend es (set (concat stages)) x = 0}"
    by (simp_all add: stage_inv_def)
  have sub: "set (concat stages) \<subseteq> R"
    by (subst set) blast
  have fin: "finite R"
    using R by (rule finite_subset) simp
  have len: "length (concat stages) = card (set (concat stages))"
    using dist by (simp only: distinct_card)
  have run: "plan_stages nodes R = (if length (concat stages) \<noteq> card R then Inl cycle_detected else Inr stages)"
    unfolding plan_stages_def Let_def es_def [symmetric] ids_def [symmetric] stages_def [symmetric] ..
  show ?thesis
  proof (cases "acyclic (set es)")
    case True
    have "set (concat stages) = R"
      using kahn_inv_covers [OF stage_inv_kahn [OF inv] src True] .
    with run len dist lev True show ?thesis
      unfolding es [symmetric] es_def by simp
  next
    case False
    have "length (concat stages) \<noteq> card R"
    proof
      assume "length (concat stages) = card R"
      then have "set (concat stages) = R"
        using sub fin len by (metis card_subset_eq)
      then show False
        using False ordered_acyclic [OF ord] tgt by blast
    qed
    with run False show ?thesis
      unfolding es [symmetric] by simp
  qed
qed

lemma execution_stages_core:
  assumes "start_from = None \<or> (\<exists>s \<in> pn_id ` set nodes. start_from = Some s)"
  shows "execution_stages nodes start_from = plan_stages nodes (chosen_nodes nodes start_from)"
  using assms by (auto simp: execution_stages_def chosen_nodes_def reachable_nodes_eq)

section \<open>Properties\<close>

text \<open>
  C10. Kahn's sort is correct and complete. It returns an order exactly if the node ids are distinct,
  every dependency is the id of a node, and the dependencies have no cycle; the order then lists
  every node once, each after all its dependencies. Otherwise the answer is the error
  "cycle detected in pipeline DAG" (also when the fault is an unknown dependency or a repeated id).
\<close>

theorem topological_sort_correct:
  "if distinct (map pn_id nodes) \<and> fst ` set (node_edges nodes) \<subseteq> pn_id ` set nodes \<and>
      acyclic (set (node_edges nodes))
   then \<exists>order. topological_sort nodes = Inr order \<and> distinct order \<and> set order = pn_id ` set nodes \<and>
      ordered (node_edges nodes) order
   else topological_sort nodes = Inl cycle_detected"
  using topological_sort_core [of nodes] .

text \<open>
  The stages are the levels of the chosen part of the graph: all nodes, or those that depend,
  directly or not, on the start node. If that part has no cycle, every chosen node is in exactly one
  stage; a node's chosen dependencies are all in earlier stages, and (from the second stage on) one
  of them is in the stage just before, so no node waits longer than it has to; each stage is
  nonempty and sorted. If the part has a cycle, the answer is the cycle error.
\<close>

theorem execution_stages_levels:
  assumes "start_from = None \<or> (\<exists>s \<in> pn_id ` set nodes. start_from = Some s)"
  shows "if acyclic {(u, x) \<in> set (node_edges nodes). u \<in> chosen_nodes nodes start_from \<and> x \<in> chosen_nodes nodes start_from}
    then \<exists>stages. execution_stages nodes start_from = Inr stages \<and> distinct (concat stages) \<and>
      set (concat stages) = chosen_nodes nodes start_from \<and>
      levels (chosen_edges nodes (chosen_nodes nodes start_from)) stages
    else execution_stages nodes start_from = Inl cycle_detected"
  unfolding execution_stages_core [OF assms]
  by (rule plan_stages_core [OF chosen_nodes_subset [OF assms]])

definition diamond :: "pipeline_node list" where
  "diamond = [\<lparr>pn_id = ''d'', pn_depends_on = [''b'', ''c'']\<rparr>, \<lparr>pn_id = ''b'', pn_depends_on = [''a'']\<rparr>,
     \<lparr>pn_id = ''c'', pn_depends_on = [''a'']\<rparr>, \<lparr>pn_id = ''a'', pn_depends_on = []\<rparr>]"

lemma diamond_acyclic: "acyclic {(u, x) \<in> set (node_edges diamond). u \<in> R \<and> x \<in> R}"
proof -
  have "acyclic ((set (node_edges diamond))\<inverse>)"
    by (rule acyclicI_order [of _ "\<lambda>x. if x = ''a'' then 0 else if x = ''d'' then 2 else (1 :: nat)"])
       (auto simp: node_edges_def diamond_def)
  then show ?thesis
    by (rule acyclic_subset [OF acyclic_converse [THEN iffD1]]) auto
qed

theorem execution_stages_levels_witness:
  "\<exists>stages. execution_stages diamond None = Inr stages \<and> set (concat stages) = {''a'', ''b'', ''c'', ''d''}"
proof -
  have "chosen_nodes diamond None = {''a'', ''b'', ''c'', ''d''}"
    by (auto simp: chosen_nodes_def diamond_def)
  with execution_stages_levels [of None diamond] diamond_acyclic [of "chosen_nodes diamond None"]
  show ?thesis by auto
qed

text \<open>
  The two planners disagree on a dependency that is no node of the pipeline: with distinct ids and
  no cycle, the sequential one refuses the pipeline with the cycle error, while the distributed one
  drops the dependency and plans every node.
\<close>

theorem unknown_dependency_splits_planners:
  assumes "distinct (map pn_id nodes)" and acyc: "acyclic (set (node_edges nodes))"
    and unknown: "n \<in> set nodes" "dep \<in> set (pn_depends_on n)" "dep \<notin> pn_id ` set nodes"
  shows "execution_order nodes None = Inl cycle_detected \<and>
    (\<exists>stages. execution_stages nodes None = Inr stages \<and> set (concat stages) = pn_id ` set nodes)"
proof -
  have "(dep, pn_id n) \<in> set (node_edges nodes)"
    using unknown(1,2) by (auto simp: node_edges_iff)
  then have "\<not> fst ` set (node_edges nodes) \<subseteq> pn_id ` set nodes"
    using unknown(3) by force
  then have "topological_sort nodes = Inl cycle_detected"
    using topological_sort_core [of nodes] by presburger
  moreover have "acyclic {(u, x) \<in> set (node_edges nodes). u \<in> R \<and> x \<in> R}" for R
    using acyc by (rule acyclic_subset) auto
  then have "\<exists>stages. plan_stages nodes (pn_id ` set nodes) = Inr stages \<and> set (concat stages) = pn_id ` set nodes"
    using plan_stages_core [of "pn_id ` set nodes" nodes] by auto
  ultimately show ?thesis
    by (simp add: execution_order_def execution_stages_def)
qed

theorem unknown_dependency_splits_planners_witness:
  "execution_order [\<lparr>pn_id = ''b'', pn_depends_on = [''a'']\<rparr>] None = Inl cycle_detected \<and>
   (\<exists>stages. execution_stages [\<lparr>pn_id = ''b'', pn_depends_on = [''a'']\<rparr>] None = Inr stages)"
proof -
  let ?nodes = "[\<lparr>pn_id = ''b'', pn_depends_on = [''a'']\<rparr>]"
  have "acyclic ((set (node_edges ?nodes))\<inverse>)"
    by (rule acyclicI_order [of _ "\<lambda>x. if x = ''a'' then 0 else (1 :: nat)"]) (auto simp: node_edges_def)
  then have "acyclic (set (node_edges ?nodes))" by simp
  moreover have "distinct (map pn_id ?nodes)" by simp
  ultimately show ?thesis
    using unknown_dependency_splits_planners [of ?nodes "hd ?nodes" "''a''"] by auto
qed

end
