(* ===== verification/Cron.thy ===== *)
theory Cron
  imports Prelude
begin

text \<open>
  The cron library \<^verbatim>\<open>libs/scheduling-cron\<close>, first part: value sets and schedules (\<^verbatim>\<open>schedule.go\<close>) and
  the parser (\<^verbatim>\<open>parser.go\<close>). Field values are \<^verbatim>\<open>uint32\<close>, modelled as naturals; the one addition that can
  wrap is written out. A schedule here is without its time zone, which the evaluator takes apart.
\<close>

section \<open>Value sets\<close>

record value_set =
  vs_values :: "nat list"
  vs_star :: bool

definition star_set :: value_set where
  "star_set = \<lparr>vs_values = [], vs_star = True\<rparr>"

text \<open>The loop of \<^verbatim>\<open>dedupSorted\<close>: a value is kept when it differs from the last one kept.\<close>

fun dedup_sorted :: "nat list \<Rightarrow> nat list" where
  "dedup_sorted [] = []"
| "dedup_sorted (x # xs) = foldl (\<lambda>out v. if v = last out then out else out @ [v]) [x] xs"

definition from_values :: "nat list \<Rightarrow> value_set" where
  "from_values values = \<lparr>vs_values = dedup_sorted (sort values), vs_star = False\<rparr>"

text \<open>\<^verbatim>\<open>Values\<close>: the listed values, none for the wildcard.\<close>

definition vs_list :: "value_set \<Rightarrow> nat list" where
  "vs_list v = (if vs_star v then [] else vs_values v)"

text \<open>\<^verbatim>\<open>sort.Search\<close> finds the first value that is large enough.\<close>

definition vs_contains :: "value_set \<Rightarrow> nat \<Rightarrow> bool" where
  "vs_contains v value \<longleftrightarrow>
     vs_star v \<or> (case find (\<lambda>c. value \<le> c) (vs_values v) of None \<Rightarrow> False | Some c \<Rightarrow> c = value)"

definition next_at_or_after :: "value_set \<Rightarrow> nat \<Rightarrow> nat \<Rightarrow> nat option" where
  "next_at_or_after v value max_incl =
     (if vs_star v then (if value \<le> max_incl then Some value else None)
      else find (\<lambda>c. value \<le> c \<and> c \<le> max_incl) (vs_values v))"

definition vs_first :: "value_set \<Rightarrow> nat \<Rightarrow> nat \<Rightarrow> nat option" where
  "vs_first v min_incl max_incl =
     (if vs_star v then Some min_incl else find (\<lambda>c. min_incl \<le> c \<and> c \<le> max_incl) (vs_values v))"

section \<open>Schedules\<close>

datatype cron_flavor = Unix5 | Quartz6

datatype day_of_month = DomStar | DomSet value_set | DomLast

datatype day_of_week = DowStar | DowSet value_set | DowLast nat | DowNth nat nat

record cron_schedule =
  cs_flavor :: cron_flavor
  cs_seconds :: value_set
  cs_minutes :: value_set
  cs_hours :: value_set
  cs_dom :: day_of_month
  cs_months :: value_set
  cs_dow :: day_of_week

section \<open>The parser\<close>

datatype cron_error =
    WrongFieldCount nat nat
  | InvalidValue string string string
  | OutOfRange string nat nat nat
  | InvalidStep string
  | DisallowedSpecial char string

definition cron_error_message :: "cron_error \<Rightarrow> string" where
  "cron_error_message e =
     (case e of
        WrongFieldCount expected found \<Rightarrow>
          ''cron expression must have '' @ show_nat expected @ '' fields, found '' @ show_nat found
      | InvalidValue field v reason \<Rightarrow>
          ''invalid value '' @ [CHR 0x27] @ v @ [CHR 0x27] @ '' in '' @ field @ '' field: '' @ reason
      | OutOfRange field v mn mx \<Rightarrow>
          ''value '' @ show_nat v @ '' is out of range '' @ show_nat mn @ ''..='' @ show_nat mx @
          '' for '' @ field
      | InvalidStep field \<Rightarrow> ''step value must be greater than zero in '' @ field
      | DisallowedSpecial c field \<Rightarrow>
          [CHR 0x27, c, CHR 0x27] @ '' is not allowed in the '' @ field @ '' field'')"

type_synonym aliases = "(string \<times> nat) list"

definition month_aliases :: aliases where
  "month_aliases = [(''JAN'', 1), (''FEB'', 2), (''MAR'', 3), (''APR'', 4), (''MAY'', 5), (''JUN'', 6),
     (''JUL'', 7), (''AUG'', 8), (''SEP'', 9), (''OCT'', 10), (''NOV'', 11), (''DEC'', 12)]"

definition day_of_week_aliases :: aliases where
  "day_of_week_aliases = [(''SUN'', 0), (''MON'', 1), (''TUE'', 2), (''WED'', 3), (''THU'', 4), (''FRI'', 5),
     (''SAT'', 6)]"

definition parse_int_or_alias :: "string \<Rightarrow> string \<Rightarrow> nat \<Rightarrow> nat \<Rightarrow> aliases \<Rightarrow> cron_error + nat" where
  "parse_int_or_alias raw field mn mx aliases =
     (let raw_trim = trim_space raw in
      if raw_trim = [] then Inl (InvalidValue field raw ''empty integer'')
      else (case find (\<lambda>(name, value). equal_fold name raw_trim) aliases of
              Some (name, value) \<Rightarrow> Inr value
            | None \<Rightarrow>
                (case parse_uint 32 raw_trim of
                   None \<Rightarrow> Inl (InvalidValue field raw ''not a valid integer or alias'')
                 | Some v \<Rightarrow> if v < mn \<or> mx < v then Inl (OutOfRange field v mn mx) else Inr v)))"

text \<open>The loop \<^verbatim>\<open>for value := start; value <= end; value += step\<close>, which stops before the sum wraps.\<close>

function expand_range :: "nat \<Rightarrow> nat \<Rightarrow> nat \<Rightarrow> nat list" where
  "expand_range value end_v step =
     (if end_v < value \<or> step = 0 then []
      else if 2 ^ 32 \<le> value + step then [value]
      else value # expand_range (value + step) end_v step)"
  by pat_completeness auto
termination
  by (relation "measure (\<lambda>(v, e, s). Suc e - v)") auto

declare expand_range.simps [simp del]

text \<open>The text before and after the first slash; without one the step is 1.\<close>

definition split_step :: "string \<Rightarrow> string \<Rightarrow> cron_error + string \<times> nat" where
  "split_step component field =
     (case index_of (CHR ''/'') component of
        None \<Rightarrow> Inr (component, 1)
      | Some i \<Rightarrow>
          (case parse_uint 32 (drop (Suc i) component) of
             None \<Rightarrow> Inl (InvalidValue field (drop (Suc i) component) ''step must be a non-negative integer'')
           | Some n \<Rightarrow> if n = 0 then Inl (InvalidStep field) else Inr (take i component, n)))"

definition range_bounds ::
  "string \<Rightarrow> nat \<Rightarrow> string \<Rightarrow> nat \<Rightarrow> nat \<Rightarrow> aliases \<Rightarrow> cron_error + nat \<times> nat" where
  "range_bounds range_part step field mn mx aliases =
     (if range_part = ''*'' then Inr (mn, mx)
      else (case index_of (CHR ''-'') range_part of
              Some dash \<Rightarrow>
                and_then (parse_int_or_alias (take dash range_part) field mn mx aliases) (\<lambda>fv.
                and_then (parse_int_or_alias (drop (Suc dash) range_part) field mn mx aliases) (\<lambda>tv.
                  Inr (fv, tv)))
            | None \<Rightarrow>
                and_then (parse_int_or_alias range_part field mn mx aliases) (\<lambda>v.
                  Inr (if step \<noteq> 1 then (v, mx) else (v, v)))))"

definition expand_component ::
  "string \<Rightarrow> string \<Rightarrow> nat \<Rightarrow> nat \<Rightarrow> aliases \<Rightarrow> cron_error + nat list" where
  "expand_component component field mn mx aliases =
     (if component = [] then Inl (InvalidValue field component ''empty component'')
      else and_then (split_step component field) (\<lambda>(range_part, step).
           and_then (range_bounds range_part step field mn mx aliases) (\<lambda>(start, end_v).
             if end_v < start then
               Inl (InvalidValue field component ''range start is greater than range end'')
             else if start < mn \<or> mx < end_v then
               Inl (OutOfRange field (if mn \<le> start then end_v else start) mn mx)
             else Inr (expand_range start end_v step))))"

fun expand_components ::
  "string list \<Rightarrow> string \<Rightarrow> nat \<Rightarrow> nat \<Rightarrow> aliases \<Rightarrow> cron_error + nat list" where
  "expand_components [] field mn mx aliases = Inr []"
| "expand_components (c # cs) field mn mx aliases =
     and_then (expand_component c field mn mx aliases) (\<lambda>vs.
     and_then (expand_components cs field mn mx aliases) (\<lambda>ws. Inr (vs @ ws)))"

definition parse_value_set ::
  "string \<Rightarrow> string \<Rightarrow> nat \<Rightarrow> nat \<Rightarrow> aliases \<Rightarrow> cron_error + value_set" where
  "parse_value_set raw field mn mx aliases =
     (if raw = ''*'' then Inr star_set
      else and_then (expand_components (split_on (CHR '','') raw) field mn mx aliases) (\<lambda>vs.
             Inr (from_values vs)))"

definition parse_month_field :: "string \<Rightarrow> cron_error + value_set" where
  "parse_month_field raw = parse_value_set raw ''month'' 1 12 month_aliases"

definition parse_day_of_month :: "string \<Rightarrow> cron_error + day_of_month" where
  "parse_day_of_month raw =
     (if raw = ''*'' then Inr DomStar
      else if equal_fold raw ''L'' then Inr DomLast
      else if CHR ''#'' \<in> set raw \<or> CHR ''L'' \<in> set (to_upper raw) then
        Inl (DisallowedSpecial (CHR ''#'') ''day-of-month'')
      else and_then (parse_value_set raw ''day-of-month'' 1 31 []) (\<lambda>vs. Inr (DomSet vs)))"

definition normalise_weekday :: "nat \<Rightarrow> nat" where
  "normalise_weekday v = (if v = 7 then 0 else v)"

definition normalise_weekday_set :: "value_set \<Rightarrow> value_set" where
  "normalise_weekday_set vs =
     (if vs_star vs then vs else from_values (map normalise_weekday (vs_values vs)))"

definition parse_day_of_week :: "string \<Rightarrow> cron_error + day_of_week" where
  "parse_day_of_week raw =
     (if raw = ''*'' then Inr DowStar
      else if equal_fold raw ''L'' then Inr (DowSet (from_values [6]))
      else if has_suffix (to_upper raw) ''L'' then
        and_then (parse_int_or_alias (butlast raw) ''day-of-week'' 0 7 day_of_week_aliases) (\<lambda>v.
          Inr (DowLast (normalise_weekday v)))
      else (case index_of (CHR ''#'') raw of
              Some i \<Rightarrow>
                and_then (parse_int_or_alias (take i raw) ''day-of-week'' 0 7 day_of_week_aliases) (\<lambda>weekday.
                  (case parse_uint 32 (trim_space (drop (Suc i) raw)) of
                     None \<Rightarrow> Inl (InvalidValue ''day-of-week'' (drop (Suc i) raw)
                                     (''occurrence after '' @ [CHR 0x27, CHR ''#'', CHR 0x27] @ '' must be an integer''))
                   | Some occ \<Rightarrow>
                       if occ < 1 \<or> 5 < occ then Inl (OutOfRange ''day-of-week-occurrence'' occ 1 5)
                       else Inr (DowNth (normalise_weekday weekday) occ)))
            | None \<Rightarrow>
                and_then (parse_value_set raw ''day-of-week'' 0 7 day_of_week_aliases) (\<lambda>vs.
                  Inr (DowSet (normalise_weekday_set vs)))))"

definition parse_cron :: "string \<Rightarrow> cron_flavor \<Rightarrow> cron_error + cron_schedule" where
  "parse_cron expr flavor =
     (let parts = Prelude.fields (trim_space expr);
          expected = (case flavor of Unix5 \<Rightarrow> 5 | Quartz6 \<Rightarrow> 6);
          idx = (case flavor of Unix5 \<Rightarrow> 0 | Quartz6 \<Rightarrow> 1)
      in if length parts \<noteq> expected then Inl (WrongFieldCount expected (length parts))
         else
           and_then (case flavor of Quartz6 \<Rightarrow> parse_value_set (parts ! 0) ''seconds'' 0 59 []
                                  | Unix5 \<Rightarrow> Inr (from_values [0])) (\<lambda>seconds.
           and_then (parse_value_set (parts ! idx) ''minutes'' 0 59 []) (\<lambda>minutes.
           and_then (parse_value_set (parts ! (idx + 1)) ''hours'' 0 23 []) (\<lambda>hours.
           and_then (parse_day_of_month (parts ! (idx + 2))) (\<lambda>dom.
           and_then (parse_month_field (parts ! (idx + 3))) (\<lambda>months.
           and_then (parse_day_of_week (parts ! (idx + 4))) (\<lambda>dow.
             Inr \<lparr>cs_flavor = flavor, cs_seconds = seconds, cs_minutes = minutes, cs_hours = hours,
                  cs_dom = dom, cs_months = months, cs_dow = dow\<rparr>)))))))"

section \<open>Lemmas on value sets\<close>

definition vs_ok :: "nat \<Rightarrow> nat \<Rightarrow> value_set \<Rightarrow> bool" where
  "vs_ok mn mx v \<longleftrightarrow> sorted (vs_values v) \<and> distinct (vs_values v) \<and> (\<forall>x \<in> set (vs_values v). mn \<le> x \<and> x \<le> mx) \<and>
     (vs_star v \<longrightarrow> vs_values v = []) \<and> (\<not> vs_star v \<longrightarrow> vs_values v \<noteq> [])"

definition vs_set :: "value_set \<Rightarrow> nat \<Rightarrow> nat \<Rightarrow> nat set" where
  "vs_set v mn mx = (if vs_star v then {mn..mx} else set (vs_values v))"

lemma find_sorted:
  "sorted xs \<Longrightarrow> find (\<lambda>c. x \<le> c) xs = Some y \<Longrightarrow> (y = x \<longleftrightarrow> x \<in> set xs) \<and> y \<in> set xs \<and> x \<le> y \<and> (\<forall>c \<in> set xs. x \<le> c \<longrightarrow> y \<le> c)"
  by (induction xs) (auto split: if_splits)

lemma vs_contains_iff:
  assumes "vs_ok mn mx v" and "mn \<le> x" and "x \<le> mx"
  shows "vs_contains v x \<longleftrightarrow> x \<in> vs_set v mn mx"
proof (cases "vs_star v")
  case True
  with assms show ?thesis by (simp add: vs_contains_def vs_set_def)
next
  case False
  have sorted: "sorted (vs_values v)"
    using assms(1) by (simp add: vs_ok_def)
  show ?thesis
  proof (cases "find (\<lambda>c. x \<le> c) (vs_values v)")
    case None
    then have "x \<notin> set (vs_values v)"
      by (auto simp: find_None_iff)
    with None False show ?thesis by (simp add: vs_contains_def vs_set_def)
  next
    case (Some y)
    with False find_sorted [OF sorted Some] show ?thesis
      by (simp add: vs_contains_def vs_set_def)
  qed
qed

lemma distinct_remdups_adj: "sorted xs \<Longrightarrow> distinct (remdups_adj xs)" for xs :: "nat list"
proof (induction xs rule: remdups_adj.induct)
  case (3 x y xs)
  then show ?case
    by (auto simp: order.antisym)
qed simp_all

lemma dedup_sorted_foldl:
  "foldl (\<lambda>out v. if v = last out then out else out @ [v]) (out @ [x]) xs = out @ remdups_adj (x # xs)"
proof (induction xs arbitrary: out x)
  case (Cons y ys)
  show ?case
    using Cons [of out x] Cons [of "out @ [x]" y] by (cases "x = y") simp_all
qed simp

lemma dedup_sorted_eq: "dedup_sorted xs = remdups_adj xs"
  using dedup_sorted_foldl [of "[]"] by (cases xs) simp_all

lemma set_from_values [simp]: "set (vs_values (from_values xs)) = set xs" "\<not> vs_star (from_values xs)"
  by (simp_all add: from_values_def dedup_sorted_eq)

lemma from_values_ok:
  assumes "xs \<noteq> []" and "\<And>x. x \<in> set xs \<Longrightarrow> mn \<le> x \<and> x \<le> mx"
  shows "vs_ok mn mx (from_values xs)"
proof -
  have "remdups_adj (sort xs) \<noteq> []"
    using assms(1) by (metis set_empty set_sort remdups_adj_set)
  with assms show ?thesis
    by (simp add: vs_ok_def from_values_def dedup_sorted_eq distinct_remdups_adj)
qed

lemma star_set_ok [simp]: "vs_ok mn mx star_set"
  by (simp add: vs_ok_def star_set_def)

section \<open>What the parser accepts is well-formed\<close>

definition dom_ok :: "day_of_month \<Rightarrow> bool" where
  "dom_ok d \<longleftrightarrow> (case d of DomSet vs \<Rightarrow> vs_ok 1 31 vs | _ \<Rightarrow> True)"

definition dow_ok :: "day_of_week \<Rightarrow> bool" where
  "dow_ok d \<longleftrightarrow> (case d of DowStar \<Rightarrow> True | DowSet vs \<Rightarrow> vs_ok 0 6 vs | DowLast w \<Rightarrow> w \<le> 6
                  | DowNth w n \<Rightarrow> w \<le> 6 \<and> 1 \<le> n \<and> n \<le> 5)"

definition schedule_ok :: "cron_schedule \<Rightarrow> bool" where
  "schedule_ok s \<longleftrightarrow>
     vs_ok 0 59 (cs_seconds s) \<and> vs_ok 0 59 (cs_minutes s) \<and> vs_ok 0 23 (cs_hours s) \<and>
     dom_ok (cs_dom s) \<and> vs_ok 1 12 (cs_months s) \<and> dow_ok (cs_dow s) \<and>
     (cs_flavor s = Unix5 \<longrightarrow> vs_values (cs_seconds s) = [0] \<and> \<not> vs_star (cs_seconds s))"

definition aliases_in :: "nat \<Rightarrow> nat \<Rightarrow> aliases \<Rightarrow> bool" where
  "aliases_in mn mx as \<longleftrightarrow> (\<forall>(name, value) \<in> set as. mn \<le> value \<and> value \<le> mx)"

lemma aliases_in_range [simp]:
  "aliases_in mn mx []" "aliases_in 1 12 month_aliases" "aliases_in 0 7 day_of_week_aliases"
  by (simp_all add: aliases_in_def month_aliases_def day_of_week_aliases_def)

lemma and_then_Inr_iff: "and_then r f = Inr y \<longleftrightarrow> (\<exists>x. r = Inr x \<and> f x = Inr y)"
  by (cases r) simp_all

lemma parse_int_or_alias_range:
  assumes "parse_int_or_alias raw field mn mx as = Inr v" and "aliases_in mn mx as"
  shows "mn \<le> v \<and> v \<le> mx"
proof (cases "find (\<lambda>(name, value). equal_fold name (trim_space raw)) as")
  case None
  with assms(1) show ?thesis
    by (auto simp: parse_int_or_alias_def Let_def split: if_splits option.splits)
next
  case (Some a)
  then have "a \<in> set as"
    by (metis (no_types, lifting) find_Some_iff nth_mem)
  with Some assms show ?thesis
    by (cases a) (auto simp: parse_int_or_alias_def Let_def aliases_in_def split: if_splits)
qed

lemma expand_range_member: "v \<in> set (expand_range a e k) \<Longrightarrow> a \<le> v \<and> v \<le> e"
proof (induction a e k rule: expand_range.induct)
  case (1 a e k)
  from 1(2) have "v \<in> set (if e < a \<or> k = 0 then [] else if 2 ^ 32 \<le> a + k then [a]
      else a # expand_range (a + k) e k)"
    by (subst (asm) expand_range.simps)
  with 1(1) show ?case
    by (fastforce split: if_splits)
qed

lemma expand_range_nonempty: "a \<le> e \<Longrightarrow> k \<noteq> 0 \<Longrightarrow> expand_range a e k \<noteq> []"
  by (subst expand_range.simps) simp

text \<open>Below the wrap-around the loop lists every value of the range at a multiple of the step.\<close>

lemma expand_range_set:
  "0 < k \<Longrightarrow> e < 2 ^ 32 \<Longrightarrow> set (expand_range a e k) = {v. a \<le> v \<and> v \<le> e \<and> k dvd v - a}"
proof (induction a e k rule: expand_range.induct)
  case (1 a e k)
  have split: "{v. a \<le> v \<and> v \<le> e \<and> k dvd v - a} =
    insert a {v. a + k \<le> v \<and> v \<le> e \<and> k dvd v - (a + k)}" if "a \<le> e"
  proof (intro set_eqI iffI)
    fix v
    assume v: "v \<in> {v. a \<le> v \<and> v \<le> e \<and> k dvd v - a}"
    show "v \<in> insert a {v. a + k \<le> v \<and> v \<le> e \<and> k dvd v - (a + k)}"
    proof (cases "v = a")
      case False
      with v have "k \<le> v - a" and "k dvd v - (a + k)"
        by (auto intro: dvd_imp_le dvd_diff_nat simp flip: diff_diff_left)
      with v show ?thesis
        by auto
    qed simp
  next
    fix v
    assume "v \<in> insert a {v. a + k \<le> v \<and> v \<le> e \<and> k dvd v - (a + k)}"
    moreover have "k dvd v - a" if "a + k \<le> v" and "k dvd v - (a + k)"
    proof -
      have "v - a = (v - (a + k)) + k"
        using that(1) by simp
      with that(2) show ?thesis by simp
    qed
    ultimately show "v \<in> {v. a \<le> v \<and> v \<le> e \<and> k dvd v - a}"
      using that by auto
  qed
  show ?case
  proof (cases "e < a")
    case True
    then show ?thesis by (subst expand_range.simps) auto
  next
    case False
    show ?thesis
    proof (cases "2 ^ 32 \<le> a + k")
      case True
      with False 1(2,3) split show ?thesis
        by (subst expand_range.simps) auto
    next
      case small: False
      with False 1 split show ?thesis
        by (subst expand_range.simps) auto
    qed
  qed
qed

lemma split_step_pos: "split_step c field = Inr (r, k) \<Longrightarrow> 0 < k"
  by (auto simp: split_step_def split: option.splits if_splits)

lemma expand_component_ok:
  assumes "expand_component c field mn mx as = Inr vs" and "aliases_in mn mx as"
  shows "vs \<noteq> [] \<and> (\<forall>v \<in> set vs. mn \<le> v \<and> v \<le> mx)"
proof -
  obtain r k a e where step: "split_step c field = Inr (r, k)"
    and bounds: "\<not> e < a" "\<not> (a < mn \<or> mx < e)" and vs: "vs = expand_range a e k"
    using assms(1)
    by (auto simp: expand_component_def and_then_Inr_iff split: if_splits)
  have "0 < k"
    using split_step_pos [OF step] .
  with bounds vs expand_range_nonempty [of a e k] expand_range_member [of _ a e k] show ?thesis
    by fastforce
qed

lemma expand_components_ok:
  "expand_components cs field mn mx as = Inr vs \<Longrightarrow> aliases_in mn mx as \<Longrightarrow>
   (cs \<noteq> [] \<longrightarrow> vs \<noteq> []) \<and> (\<forall>v \<in> set vs. mn \<le> v \<and> v \<le> mx)"
proof (induction cs arbitrary: vs)
  case (Cons c cs)
  then obtain us ws where "expand_component c field mn mx as = Inr us"
    and "expand_components cs field mn mx as = Inr ws" and "vs = us @ ws"
    by (auto simp: and_then_Inr_iff)
  with Cons expand_component_ok [of c field mn mx as us] show ?case
    by auto
qed simp

lemma parse_value_set_ok:
  assumes "parse_value_set raw field mn mx as = Inr vs" and "aliases_in mn mx as"
  shows "vs_ok mn mx vs"
proof (cases "raw = ''*''")
  case True
  with assms(1) show ?thesis by (auto simp: parse_value_set_def)
next
  case False
  with assms(1) obtain xs where "expand_components (split_on (CHR '','') raw) field mn mx as = Inr xs"
    and "vs = from_values xs"
    by (auto simp: parse_value_set_def and_then_Inr_iff)
  with expand_components_ok [of "split_on (CHR '','') raw" field mn mx as xs] assms(2)
  show ?thesis by (auto intro: from_values_ok)
qed

lemma normalise_weekday_range: "v \<le> 7 \<Longrightarrow> normalise_weekday v \<le> 6"
  by (simp add: normalise_weekday_def)

lemma normalise_weekday_set_ok:
  assumes "vs_ok 0 7 vs"
  shows "vs_ok 0 6 (normalise_weekday_set vs)"
proof (cases "vs_star vs")
  case True
  with assms show ?thesis by (simp add: normalise_weekday_set_def vs_ok_def)
next
  case False
  with assms have "vs_values vs \<noteq> []" and "\<And>x. x \<in> set (vs_values vs) \<Longrightarrow> x \<le> 7"
    by (auto simp: vs_ok_def)
  with False show ?thesis
    by (auto simp: normalise_weekday_set_def intro!: from_values_ok normalise_weekday_range)
qed

lemma parse_day_of_month_ok: "parse_day_of_month raw = Inr d \<Longrightarrow> dom_ok d"
  by (auto simp: parse_day_of_month_def dom_ok_def and_then_Inr_iff split: if_splits
      dest: parse_value_set_ok)

lemma parse_day_of_week_ok: "parse_day_of_week raw = Inr d \<Longrightarrow> dow_ok d"
  by (auto simp: parse_day_of_week_def dow_ok_def and_then_Inr_iff Let_def split: if_splits option.splits
      dest!: parse_int_or_alias_range parse_value_set_ok
      intro!: normalise_weekday_range normalise_weekday_set_ok from_values_ok)

lemma parse_month_field_ok: "parse_month_field raw = Inr vs \<Longrightarrow> vs_ok 1 12 vs"
  unfolding parse_month_field_def by (rule parse_value_set_ok) (assumption, rule aliases_in_range)

lemma zero_seconds_ok: "vs_ok 0 59 (from_values [0])" "vs_values (from_values [0]) = [0]"
  by (simp_all add: from_values_def vs_ok_def)

lemma parse_cron_ok_core: "parse_cron expr flavor = Inr s \<Longrightarrow> schedule_ok s"
  using parse_month_field_ok parse_day_of_month_ok parse_day_of_week_ok
  by (auto simp: parse_cron_def Let_def and_then_Inr_iff schedule_ok_def zero_seconds_ok
      split: if_splits cron_flavor.splits dest!: parse_value_set_ok)

text \<open>
  C11. Whatever text \<^verbatim>\<open>ParseCron\<close> accepts becomes a well-formed schedule: every field's set is the
  wildcard or a non-empty, strictly sorted list of values inside the field's range, Sunday is only ever 0,
  a weekday occurrence is between 1 and 5, and a five-field schedule fires at second 0 only.
\<close>

theorem parse_cron_well_formed:
  "parse_cron expr flavor = Inr s \<Longrightarrow> schedule_ok s \<and> cs_flavor s = flavor"
  using parse_cron_ok_core [of expr flavor s]
  by (auto simp: parse_cron_def Let_def and_then_Inr_iff split: if_splits)

lemmas parse_cron_eval = char_of_def bit_Suc_0_iff parse_value_set_def parse_month_field_def parse_day_of_month_def
  parse_day_of_week_def expand_component_def split_step_def range_bounds_def parse_int_or_alias_def
  expand_range.simps star_set_def from_values_def normalise_weekday_set_def normalise_weekday_def
  month_aliases_def day_of_week_aliases_def fields.simps trim_space_def trim_left_def is_space_def
  equal_fold_def to_lower_def to_lower_char_def to_upper_def to_upper_char_def index_of_def
  parse_uint_def is_digit_def digits_val_def digit_val_def has_suffix_def has_prefix_def

lemma parse_cron_well_formed_witness:
  "\<exists>s. parse_cron ''*/20 9-17/4 L JAN-MAR,dec 5#2'' Unix5 = Inr s \<and> schedule_ok s \<and>
     vs_values (cs_minutes s) = [0, 20, 40] \<and> vs_values (cs_hours s) = [9, 13, 17] \<and>
     vs_values (cs_months s) = [1, 2, 3, 12] \<and> cs_dow s = DowNth 5 2"
proof -
  have "parse_cron ''*/20 9-17/4 L JAN-MAR,dec 5#2'' Unix5 =
    Inr \<lparr>cs_flavor = Unix5, cs_seconds = \<lparr>vs_values = [0], vs_star = False\<rparr>,
         cs_minutes = \<lparr>vs_values = [0, 20, 40], vs_star = False\<rparr>,
         cs_hours = \<lparr>vs_values = [9, 13, 17], vs_star = False\<rparr>, cs_dom = DomLast,
         cs_months = \<lparr>vs_values = [1, 2, 3, 12], vs_star = False\<rparr>, cs_dow = DowNth 5 2\<rparr>"
    by (simp add: parse_cron_def parse_cron_eval)
  from parse_cron_well_formed [OF this] this show ?thesis by simp
qed

section \<open>Reading a range back\<close>

definition range_text :: "nat \<Rightarrow> nat \<Rightarrow> nat \<Rightarrow> string" where
  "range_text a b k = show_nat a @ CHR ''-'' # show_nat b @ CHR ''/'' # show_nat k"

lemma parse_int_show_nat:
  "mn \<le> n \<Longrightarrow> n \<le> mx \<Longrightarrow> n < 2 ^ 32 \<Longrightarrow> parse_int_or_alias (show_nat n) field mn mx [] = Inr n"
  using show_nat_digits [of n] by (simp add: parse_int_or_alias_def)

lemma index_of_append: "c \<notin> set s \<Longrightarrow> index_of c (s @ c # t) = Some (length s)"
  by (auto simp: index_of_def takeWhile_append)

lemma range_text_chars:
  "CHR '','' \<notin> set (range_text a b k)" "range_text a b k \<noteq> []" "range_text a b k \<noteq> ''*''"
proof -
  show "CHR '','' \<notin> set (range_text a b k)"
    by (simp add: range_text_def show_nat_no_char is_digit_def)
  show "range_text a b k \<noteq> []"
    by (simp add: range_text_def)
  show "range_text a b k \<noteq> ''*''"
    using show_nat_digits [of a] by (cases "show_nat a") (auto simp: range_text_def is_digit_def)
qed

lemma range_text_split:
  assumes "0 < k" and "k < 2 ^ 32"
  shows "split_step (range_text a b k) field = Inr (show_nat a @ CHR ''-'' # show_nat b, k)"
proof -
  have "index_of (CHR ''/'') ((show_nat a @ CHR ''-'' # show_nat b) @ CHR ''/'' # show_nat k) =
    Some (length (show_nat a @ CHR ''-'' # show_nat b))"
    by (rule index_of_append) (simp add: show_nat_no_char is_digit_def)
  with assms show ?thesis
    by (simp add: split_step_def range_text_def)
qed

lemma range_text_bounds:
  assumes "mn \<le> a" and "a \<le> b" and "b \<le> mx" and "mx < 2 ^ 32"
  shows "range_bounds (show_nat a @ CHR ''-'' # show_nat b) k field mn mx [] = Inr (a, b)"
proof -
  have dash: "index_of (CHR ''-'') (show_nat a @ CHR ''-'' # show_nat b) = Some (length (show_nat a))"
    by (rule index_of_append) (simp add: show_nat_no_char is_digit_def)
  have "show_nat a @ CHR ''-'' # show_nat b \<noteq> ''*''"
    using show_nat_digits [of a] by (cases "show_nat a") auto
  with dash assms parse_int_show_nat [of mn a mx field] parse_int_show_nat [of mn b mx field]
  show ?thesis by (simp add: range_bounds_def)
qed

text \<open>
  Round trip of the range syntax: the text \<open>a-b/k\<close>, for any bounds inside the field's range and any
  positive step, is read as exactly the values of the range at a multiple of the step from its start.
\<close>

theorem range_text_round_trip:
  assumes "mn \<le> a" and "a \<le> b" and "b \<le> mx" and "mx < 2 ^ 32" and "0 < k" and "k < 2 ^ 32"
  shows "\<exists>vs. parse_value_set (range_text a b k) field mn mx [] = Inr vs \<and>
    vs_set vs mn mx = {v. a \<le> v \<and> v \<le> b \<and> k dvd v - a}"
proof -
  have "expand_component (range_text a b k) field mn mx [] = Inr (expand_range a b k)"
    using assms range_text_chars [of a b k]
    by (simp add: expand_component_def range_text_split range_text_bounds)
  with assms range_text_chars [of a b k] show ?thesis
    by (simp add: parse_value_set_def split_on_single vs_set_def expand_range_set)
qed

lemma range_text_round_trip_witness:
  "range_text 5 50 15 = ''5-50/15'' \<and>
   (\<exists>vs. parse_value_set (range_text 5 50 15) ''minutes'' 0 59 [] = Inr vs \<and>
     vs_set vs 0 59 = {v. 5 \<le> v \<and> v \<le> 50 \<and> 15 dvd v - 5})"
proof
  show "range_text 5 50 15 = ''5-50/15''"
    by code_simp
qed (rule range_text_round_trip; simp)

end
