(* ===== verification/Cron_Calendar.thy ===== *)
theory Cron_Calendar
  imports Main
begin

text \<open>
  The part of Go's \<^verbatim>\<open>time\<close> package the cron evaluator uses, on wall-clock times without a zone: a time is
  the number of seconds since 0001-01-01 00:00:00 of the proleptic Gregorian calendar (the zero
  \<^verbatim>\<open>time.Time\<close>, a Monday). \<open>date\<close> is \<^verbatim>\<open>time.Date(..., time.UTC)\<close>, the other functions are the methods of
  \<^verbatim>\<open>time.Time\<close> of the same name.
\<close>

lemma div_less_iff: "0 < b \<Longrightarrow> a div b < c \<longleftrightarrow> a < c * b" for a b c :: int
proof
  assume b: "0 < b" and less: "a div b < c"
  then have "(a div b + 1) * b \<le> c * b"
    by (intro mult_right_mono) auto
  then have "a div b * b + b \<le> c * b"
    by (simp add: distrib_right)
  with div_mult_mod_eq [of a b] pos_mod_bound [OF b, of a] show "a < c * b"
    by linarith
next
  assume b: "0 < b" and less: "a < c * b"
  then have "a div b * b < c * b"
    using div_mult_mod_eq [of a b] pos_mod_sign [OF b, of a] by linarith
  with b show "a div b < c" by simp
qed

section \<open>Years and months\<close>

definition year_start :: "int \<Rightarrow> int" where
  "year_start y = 365 * (y - 1) + (y - 1) div 4 - (y - 1) div 100 + (y - 1) div 400"

definition leap :: "int \<Rightarrow> bool" where
  "leap y \<longleftrightarrow> 4 dvd y \<and> (\<not> 100 dvd y \<or> 400 dvd y)"

text \<open>Days before the month number \<open>m\<close> (from 0) of a common year.\<close>

definition days_before :: "int \<Rightarrow> int" where
  "days_before m =
     (if m \<le> 0 then 0 else if m = 1 then 31 else if m = 2 then 59 else if m = 3 then 90
      else if m = 4 then 120 else if m = 5 then 151 else if m = 6 then 181 else if m = 7 then 212
      else if m = 8 then 243 else if m = 9 then 273 else if m = 10 then 304 else 334)"

text \<open>The first day of month number \<open>k\<close>, counted from January of year 1.\<close>

definition month_start :: "int \<Rightarrow> int" where
  "month_start k =
     year_start (k div 12 + 1) + days_before (k mod 12) +
     (if 2 \<le> k mod 12 \<and> leap (k div 12 + 1) then 1 else 0)"

lemma year_start_Suc: "year_start (y + 1) = year_start y + (if leap y then 366 else 365)"
proof -
  have div_succ: "(y :: int) div n = (y - 1) div n + (if n dvd y then 1 else 0)" if "n > 0" for n
  proof (cases "n dvd y")
    case True
    then obtain q where "y = n * q" ..
    moreover have "(n * q - 1) div n = q - 1"
      by (rule int_div_pos_eq [where r = "n - 1"]) (use that in \<open>auto simp: algebra_simps\<close>)
    ultimately show ?thesis
      using that by simp
  next
    case False
    have "0 < y mod n"
      using that False by (simp add: dvd_eq_mod_eq_0 order_le_neq_trans)
    moreover have "y - 1 = n * (y div n) + (y mod n - 1)"
      by simp
    moreover have "y mod n - 1 < n"
      using pos_mod_bound [OF that, of y] by linarith
    ultimately have "(y - 1) div n = y div n"
      by (intro int_div_pos_eq) auto
    with False show ?thesis by simp
  qed
  have dvds: "100 dvd y \<Longrightarrow> 4 dvd y" "400 dvd y \<Longrightarrow> 100 dvd y"
    by (auto elim: dvd_trans [rotated])
  obtain a b c where abc: "(y - 1) div 4 = a" "(y - 1) div 100 = b" "(y - 1) div 400 = c"
    by simp
  have "y div 4 = a + (if 4 dvd y then 1 else 0)" "y div 100 = b + (if 100 dvd y then 1 else 0)"
    "y div 400 = c + (if 400 dvd y then 1 else 0)"
    using div_succ [of 4] div_succ [of 100] div_succ [of 400] abc by simp_all
  then have "year_start (y + 1) = 365 * y + (a + (if 4 dvd y then 1 else 0)) -
    (b + (if 100 dvd y then 1 else 0)) + (c + (if 400 dvd y then 1 else 0))"
    by (simp add: year_start_def)
  moreover have "year_start y = 365 * (y - 1) + a - b + c"
    using abc by (simp add: year_start_def)
  moreover obtain p q r where "p = (4 dvd y)" "q = (100 dvd y)" "r = (400 dvd y)"
    by simp
  moreover have "leap y = (4 dvd y \<and> (\<not> 100 dvd y \<or> 400 dvd y))"
    by (rule leap_def)
  ultimately show ?thesis
    using dvds by (cases p; cases q; cases r) simp_all
qed

definition month_length :: "int \<Rightarrow> int" where
  "month_length k =
     (if k mod 12 = 1 then if leap (k div 12 + 1) then 29 else 28
      else if k mod 12 \<in> {3, 5, 8, 10} then 30 else 31)"

lemma month_start_Suc: "month_start (k + 1) = month_start k + month_length k"
proof -
  obtain y m where ym: "k div 12 = y" "k mod 12 = m" and m: "0 \<le> m" "m < 12" and k: "k = 12 * y + m"
    using that [of "k div 12" "k mod 12"] by simp
  have suc: "(k + 1) div 12 = (if m = 11 then y + 1 else y)" "(k + 1) mod 12 = (if m = 11 then 0 else m + 1)"
  proof -
    have "k + 1 = (if m = 11 then 0 else m + 1) + (if m = 11 then y + 1 else y) * 12"
      by (simp add: k)
    moreover have "(if m = 11 then 0 else m + 1) mod 12 = (if m = 11 then 0 else m + 1)"
      "(if m = 11 then 0 else m + 1) div 12 = 0"
      using m by simp_all
    ultimately show "(k + 1) div 12 = (if m = 11 then y + 1 else y)"
      "(k + 1) mod 12 = (if m = 11 then 0 else m + 1)"
      by (simp_all only: div_mult_self1 mod_mult_self1)
  qed
  have len: "month_length k = (if m = 1 then if leap (y + 1) then 29 else 28
      else if m \<in> {3, 5, 8, 10} then 30 else 31)"
    by (simp add: month_length_def ym)
  have start: "month_start k = year_start (y + 1) + days_before m + (if 2 \<le> m \<and> leap (y + 1) then 1 else 0)"
    by (simp add: month_start_def ym)
  show ?thesis
  proof (cases "m = 11")
    case True
    then show ?thesis
      using year_start_Suc [of "y + 1"]
      by (simp add: start len month_start_def [of "k + 1"] suc days_before_def)
  next
    case False
    then have next_start: "month_start (k + 1) = year_start (y + 1) + days_before (m + 1) +
      (if 2 \<le> m + 1 \<and> leap (y + 1) then 1 else 0)"
      by (simp add: month_start_def [of "k + 1"] suc)
    have "m \<in> {0, 1, 2, 3, 4, 5, 6, 7, 8, 9, 10}"
      using m False unfolding insert_iff empty_iff by presburger
    then show ?thesis
      unfolding next_start start len by (auto simp: days_before_def)
  qed
qed

lemma month_length_bounds: "28 \<le> month_length k \<and> month_length k \<le> 31"
  by (simp add: month_length_def)

lemma month_start_mono: "j \<le> k \<Longrightarrow> month_start j + 28 * (k - j) \<le> month_start k"
proof (induction k rule: int_ge_induct)
  case (step i)
  with month_length_bounds [of i] month_start_Suc [of i] show ?case
    by arith
qed simp

lemma month_start_less_iff [simp]: "month_start j < month_start k \<longleftrightarrow> j < k"
  using month_start_mono [of j k] month_start_mono [of k j] by (cases "j < k") auto

lemma month_start_le_iff [simp]: "month_start j \<le> month_start k \<longleftrightarrow> j \<le> k"
  using month_start_less_iff [of k j] by linarith

lemma month_start_year: "month_start (12 * y) = year_start (y + 1)"
  by (simp add: month_start_def days_before_def)

section \<open>The month of a day\<close>

text \<open>The last month that starts no later than day \<open>d\<close>, searched upwards from a lower bound.\<close>

function month_from :: "int \<Rightarrow> int \<Rightarrow> int" where
  "month_from k d = (if month_start (k + 1) \<le> d then month_from (k + 1) d else k)"
  by pat_completeness auto
termination
proof (relation "measure (\<lambda>(k, d). nat (d - month_start k))")
  fix k d :: int
  assume "month_start (k + 1) \<le> d"
  moreover have "month_start k < month_start (k + 1)"
    unfolding month_start_less_iff by simp
  ultimately show "((k + 1, d), (k, d)) \<in> measure (\<lambda>(k, d). nat (d - month_start k))"
    by (simp del: month_start_less_iff)
qed simp

declare month_from.simps [simp del]

definition month_index :: "int \<Rightarrow> int" where
  "month_index d = month_from (12 * min (d div 366) (d div 365)) d"

lemma month_from_bounds:
  "month_start k \<le> d \<Longrightarrow> month_start (month_from k d) \<le> d \<and> d < month_start (month_from k d + 1)"
proof (induction k d rule: month_from.induct)
  case (1 k d)
  then show ?case
    by (subst (1 2) month_from.simps) (auto simp: not_le)
qed

lemma year_start_le: "year_start (min (d div 366) (d div 365) + 1) \<le> d"
proof -
  define y where "y = min (d div 366) (d div 365)"
  have le: "366 * y \<le> d" "365 * y \<le> d"
    unfolding y_def by linarith+
  have y: "year_start (y + 1) = 365 * y + y div 4 - y div 100 + y div 400"
    by (simp add: year_start_def)
  show ?thesis
  proof (cases "0 \<le> y")
    case True
    have "y div 4 - y div 100 + y div 400 \<le> y"
      using True by linarith
    with y le show ?thesis
      unfolding y_def by linarith
  next
    case False
    have "y div 4 - y div 100 + y div 400 \<le> 0"
      using False by linarith
    with y le show ?thesis
      unfolding y_def by linarith
  qed
qed

lemma month_index_bounds:
  "month_start (month_index d) \<le> d" "d < month_start (month_index d + 1)"
  using month_from_bounds [of "12 * min (d div 366) (d div 365)" d] year_start_le [of d]
  by (simp_all add: month_index_def month_start_year)

lemma month_index_eq:
  assumes "month_start k \<le> d" and "d < month_start (k + 1)"
  shows "month_index d = k"
proof -
  have "month_start k < month_start (month_index d + 1)"
    using assms(1) month_index_bounds(2) [of d] by linarith
  moreover have "month_start (month_index d) < month_start (k + 1)"
    using assms(2) month_index_bounds(1) [of d] by linarith
  ultimately show ?thesis
    unfolding month_start_less_iff by linarith
qed

lemma month_index_start [simp]: "month_index (month_start k) = k"
  by (rule month_index_eq) simp_all

lemma month_index_le_iff: "month_index d < k \<longleftrightarrow> d < month_start k"
proof
  assume "month_index d < k"
  then have "month_start (month_index d + 1) \<le> month_start k"
    by simp
  with month_index_bounds(2) [of d] show "d < month_start k" by linarith
next
  assume "d < month_start k"
  with month_index_bounds(1) [of d] have "month_start (month_index d) < month_start k"
    by linarith
  then show "month_index d < k" by simp
qed

lemma month_index_ge_iff: "k \<le> month_index d \<longleftrightarrow> month_start k \<le> d"
  using month_index_le_iff [of d k] by linarith

section \<open>The fields of a wall-clock time\<close>

definition year :: "int \<Rightarrow> int" where
  "year n = month_index (n div 86400) div 12 + 1"

definition month :: "int \<Rightarrow> int" where
  "month n = month_index (n div 86400) mod 12 + 1"

definition mday :: "int \<Rightarrow> int" where
  "mday n = n div 86400 - month_start (month_index (n div 86400)) + 1"

definition hour :: "int \<Rightarrow> int" where
  "hour n = n mod 86400 div 3600"

definition minute :: "int \<Rightarrow> int" where
  "minute n = n mod 3600 div 60"

definition second :: "int \<Rightarrow> int" where
  "second n = n mod 60"

definition weekday :: "int \<Rightarrow> int" where
  "weekday n = (n div 86400 + 1) mod 7"

text \<open>\<^verbatim>\<open>time.Date\<close> normalises what is out of range.\<close>

definition date :: "int \<Rightarrow> int \<Rightarrow> int \<Rightarrow> int \<Rightarrow> int \<Rightarrow> int \<Rightarrow> int" where
  "date y mo d h mi s = (month_start (12 * (y - 1) + (mo - 1)) + (d - 1)) * 86400 + h * 3600 + mi * 60 + s"

text \<open>\<^verbatim>\<open>AddDate(0, 0, days)\<close>.\<close>

definition add_days :: "int \<Rightarrow> int \<Rightarrow> int" where
  "add_days n days = date (year n) (month n) (mday n + days) (hour n) (minute n) (second n)"

lemma date_same_day:
  "date (year n) (month n) (mday n + k) h mi s = (n div 86400 + k) * 86400 + h * 3600 + mi * 60 + s"
  by (simp add: date_def year_def month_def mday_def)

lemma date_same_day_0:
  "date (year n) (month n) (mday n) h mi s = (n div 86400) * 86400 + h * 3600 + mi * 60 + s"
  using date_same_day [of n 0] by simp

lemma seconds_of_day: "n mod 86400 = hour n * 3600 + minute n * 60 + second (n :: int)"
proof -
  have "n mod 86400 mod 3600 = n mod 3600" "n mod 3600 mod 60 = n mod 60"
    by (simp_all add: mod_mod_cancel)
  with div_mult_mod_eq [of "n mod 86400" 3600] div_mult_mod_eq [of "n mod 3600" 60] show ?thesis
    unfolding hour_def minute_def second_def by linarith
qed

lemma date_fields: "date (year n) (month n) (mday n) (hour n) (minute n) (second n) = n"
  using seconds_of_day [of n] div_mult_mod_eq [of n 86400] by (simp add: date_same_day_0)

lemma add_days: "add_days n k = n + k * 86400"
  using seconds_of_day [of n] div_mult_mod_eq [of n 86400]
  unfolding add_days_def date_same_day by (simp add: distrib_right)

lemma field_bounds:
  "0 \<le> hour n" "hour n \<le> 23" "0 \<le> minute n" "minute n \<le> 59" "0 \<le> second n" "second n \<le> 59"
  "1 \<le> month n" "month n \<le> 12" "1 \<le> mday n" "mday n \<le> 31" "0 \<le> weekday n" "weekday n \<le> 6"
proof -
  have div_bounds: "0 \<le> a div b \<and> a div b \<le> c - 1" if "0 \<le> a" "a < c * b" "0 < b" for a b c :: int
    using that by (simp add: pos_imp_zdiv_nonneg_iff div_less_iff)
  show "0 \<le> hour n" "hour n \<le> 23"
    using div_bounds [of "n mod 86400" 24 3600] by (simp_all add: hour_def)
  show "0 \<le> minute n" "minute n \<le> 59"
    using div_bounds [of "n mod 3600" 60 60] by (simp_all add: minute_def)
  have mod_bounds: "0 \<le> a mod b \<and> a mod b \<le> b - 1" if "0 < b" for a b :: int
    using that by simp
  show "0 \<le> second n" "second n \<le> 59"
    using mod_bounds [of 60 n] by (simp_all add: second_def)
  show "0 \<le> weekday n" "weekday n \<le> 6"
    using mod_bounds [of 7 "n div 86400 + 1"] by (simp_all add: weekday_def)
  show "1 \<le> month n" "month n \<le> 12"
    unfolding month_def by presburger+
  show "1 \<le> mday n"
    using month_index_bounds(1) [of "n div 86400"] by (simp add: mday_def)
  show "mday n \<le> 31"
    using month_index_bounds(2) [of "n div 86400"] month_length_bounds [of "month_index (n div 86400)"]
    by (simp add: mday_def month_start_Suc)
qed

lemma year_le_iff: "year n \<le> y \<longleftrightarrow> n < month_start (12 * y) * 86400"
proof -
  have "year n \<le> y \<longleftrightarrow> month_index (n div 86400) div 12 < y"
    unfolding year_def by (rule add1_zle_eq)
  also have "\<dots> \<longleftrightarrow> month_index (n div 86400) < 12 * y"
    by (simp add: div_less_iff mult.commute)
  also have "\<dots> \<longleftrightarrow> n div 86400 < month_start (12 * y)"
    by (rule month_index_le_iff)
  also have "\<dots> \<longleftrightarrow> n < month_start (12 * y) * 86400"
    by (simp add: div_less_iff)
  finally show ?thesis .
qed

lemma year_mono: "m \<le> n \<Longrightarrow> year m \<le> year n"
  using year_le_iff [of n "year n"] year_le_iff [of m "year n"] by simp

end
