(* ===== verification/Cron_Eval.thy ===== *)
theory Cron_Eval
  imports Cron Cron_Calendar
begin

text \<open>
  The cron evaluator \<^verbatim>\<open>libs/scheduling-cron/evaluator.go\<close>: the search for the next wall-clock match
  and its projection to an instant. An instant is a number of nanoseconds, a wall-clock time a number of
  seconds, both since 0001-01-01. A time zone is its offset function: the seconds east of UTC in force at a
  UTC second. Both loops of the evaluator have no syntactic bound, so they are partial functions; that
  they return for every well-formed schedule is a theorem.
\<close>

section \<open>Matching a day\<close>

definition last_day_of_month :: "int \<Rightarrow> int \<Rightarrow> int" where
  "last_day_of_month y mo =
     (let (next_year, next_month) = (if mo = 12 then (y + 1, 1) else (y, mo + 1));
          first_of_next = date next_year next_month 1 0 0 0
      in mday (add_days first_of_next (- 1)))"

definition dom_match_for :: "day_of_month \<Rightarrow> int \<Rightarrow> int \<Rightarrow> int \<Rightarrow> bool" where
  "dom_match_for spec y mo d =
     (case spec of
        DomStar \<Rightarrow> True
      | DomSet vs \<Rightarrow> vs_contains vs (nat d)
      | DomLast \<Rightarrow> last_day_of_month y mo = d)"

definition dow_match_for :: "day_of_week \<Rightarrow> int \<Rightarrow> int \<Rightarrow> int \<Rightarrow> bool" where
  "dow_match_for spec y mo d =
     (let wd = nat (weekday (date y mo d 0 0 0)) in
      case spec of
        DowStar \<Rightarrow> True
      | DowSet vs \<Rightarrow> vs_contains vs wd
      | DowLast w \<Rightarrow>
          (if wd \<noteq> w then False
           else (let last_day = last_day_of_month y mo in
                 if last_day < 7 then 0 < d else last_day - 7 < d))
      | DowNth w occurrence \<Rightarrow>
          (if wd \<noteq> w then False else nat ((d - 1) div 7 + 1) = occurrence))"

definition day_matches :: "cron_schedule \<Rightarrow> int \<Rightarrow> int \<Rightarrow> int \<Rightarrow> bool" where
  "day_matches s y mo d =
     (let dom_match = dom_match_for (cs_dom s) y mo d;
          dow_match = dow_match_for (cs_dow s) y mo d
      in if cs_dom s \<noteq> DomStar \<and> cs_dow s \<noteq> DowStar then dom_match \<or> dow_match
         else dom_match \<and> dow_match)"

section \<open>Moving to the next candidate\<close>

function next_month_loop :: "cron_schedule \<Rightarrow> int \<Rightarrow> int \<Rightarrow> int \<Rightarrow> int option" where
  "next_month_loop s y mo cap_year =
     (let (y', mo') = (if 12 < mo + 1 then (y + 1, 1) else (y, mo + 1)) in
      if cap_year < y' then None
      else if vs_contains (cs_months s) (nat mo') then Some (date y' mo' 1 0 0 0)
      else next_month_loop s y' mo' cap_year)"
  by pat_completeness auto
termination
  by (relation "measures [\<lambda>(s, y, mo, cap). nat (cap - y + 1), \<lambda>(s, y, mo, cap). nat (13 - mo)]")
    (auto split: if_splits)

declare next_month_loop.simps [simp del]

definition advance_to_next_month :: "cron_schedule \<Rightarrow> int \<Rightarrow> int \<Rightarrow> int option" where
  "advance_to_next_month s current cap_year = next_month_loop s (year current) (month current) cap_year"

definition midnight_of :: "int \<Rightarrow> int" where
  "midnight_of t = date (year t) (month t) (mday t) 0 0 0"

definition advance_to_next_day :: "int \<Rightarrow> int \<Rightarrow> int option" where
  "advance_to_next_day current cap_year =
     (let n = add_days current 1 in
      if cap_year < year n then None else Some (midnight_of n))"

definition with_hour_reset_finer :: "int \<Rightarrow> int \<Rightarrow> int" where
  "with_hour_reset_finer t h = date (year t) (month t) (mday t) h 0 0"

definition with_minute_reset_finer :: "int \<Rightarrow> int \<Rightarrow> int" where
  "with_minute_reset_finer t m = date (year t) (month t) (mday t) (hour t) m 0"

definition with_second :: "int \<Rightarrow> int \<Rightarrow> int" where
  "with_second t sec = date (year t) (month t) (mday t) (hour t) (minute t) sec"

definition with_hour_advance_one :: "int \<Rightarrow> int" where
  "with_hour_advance_one t =
     (if hour t = 23 then midnight_of (add_days t 1)
      else date (year t) (month t) (mday t) (hour t + 1) 0 0)"

definition with_minute_advance_one :: "int \<Rightarrow> int" where
  "with_minute_advance_one t =
     (if minute t = 59 then with_hour_advance_one t
      else date (year t) (month t) (mday t) (hour t) (minute t + 1) 0)"

section \<open>The search\<close>

text \<open>The outer option is the loop not returning, the inner one its \<^verbatim>\<open>false\<close>.\<close>

partial_function (option) find_next_match :: "cron_schedule \<Rightarrow> int \<Rightarrow> int \<Rightarrow> int option option" where
  "find_next_match s current cap_year =
     (if cap_year < year current then Some None
      else if \<not> vs_contains (cs_months s) (nat (month current)) then
        (case advance_to_next_month s current cap_year of
           None \<Rightarrow> Some None
         | Some n \<Rightarrow> find_next_match s n cap_year)
      else if \<not> day_matches s (year current) (month current) (mday current) then
        (case advance_to_next_day current cap_year of
           None \<Rightarrow> Some None
         | Some n \<Rightarrow> find_next_match s n cap_year)
      else if \<not> vs_contains (cs_hours s) (nat (hour current)) then
        (case next_at_or_after (cs_hours s) (nat (hour current)) 23 of
           None \<Rightarrow>
             (case advance_to_next_day current cap_year of
                None \<Rightarrow> Some None
              | Some n \<Rightarrow> find_next_match s n cap_year)
         | Some h \<Rightarrow> find_next_match s (with_hour_reset_finer current (int h)) cap_year)
      else if \<not> vs_contains (cs_minutes s) (nat (minute current)) then
        (case next_at_or_after (cs_minutes s) (nat (minute current)) 59 of
           None \<Rightarrow> find_next_match s (with_hour_advance_one current) cap_year
         | Some m \<Rightarrow> find_next_match s (with_minute_reset_finer current (int m)) cap_year)
      else if \<not> vs_contains (cs_seconds s) (nat (second current)) then
        (case next_at_or_after (cs_seconds s) (nat (second current)) 59 of
           None \<Rightarrow> find_next_match s (with_minute_advance_one current) cap_year
         | Some se \<Rightarrow> find_next_match s (with_second current (int se)) cap_year)
      else Some (Some current))"

declare find_next_match.simps [code]

section \<open>Projection to an instant\<close>

text \<open>
  \<^verbatim>\<open>time.Date(..., loc)\<close> looks the offset up at the wall-clock seconds read as UTC, and once more at the
  instant this gives.
\<close>

definition go_date :: "(int \<Rightarrow> int) \<Rightarrow> int \<Rightarrow> int" where
  "go_date off n = n - off (n - off n)"

datatype local_result = LocalNone | LocalSingle int | LocalAmbiguous int int

text \<open>The wall clock at an instant shows a time when all six fields agree.\<close>

definition clock_shows :: "(int \<Rightarrow> int) \<Rightarrow> int \<Rightarrow> int \<Rightarrow> bool" where
  "clock_shows off u n \<longleftrightarrow>
     (let l = u + off u in
      year l = year n \<and> month l = month n \<and> mday l = mday n \<and> hour l = hour n \<and>
      minute l = minute n \<and> second l = second n)"

definition resolve_wall_clock :: "(int \<Rightarrow> int) \<Rightarrow> int \<Rightarrow> local_result" where
  "resolve_wall_clock off n =
     (let candidate = go_date off n in
      if \<not> clock_shows off candidate n then LocalNone
      else (let probe = candidate + 3600 in
            if clock_shows off probe n then LocalAmbiguous candidate probe else LocalSingle candidate))"

text \<open>\<^verbatim>\<open>utc.After(after)\<close> for a UTC second and an instant in nanoseconds.\<close>

definition after_instant :: "int \<Rightarrow> int \<Rightarrow> bool" where
  "after_instant u after \<longleftrightarrow> after < u * 1000000000"

definition max_forward_years :: int where
  "max_forward_years = 10"

partial_function (option) fire_loop ::
  "cron_schedule \<Rightarrow> (int \<Rightarrow> int) \<Rightarrow> int \<Rightarrow> int \<Rightarrow> int \<Rightarrow> int option option" where
  "fire_loop s off after cap_year current =
     (if cap_year < year current then Some None
      else (case find_next_match s current cap_year of
              None \<Rightarrow> None
            | Some None \<Rightarrow> Some None
            | Some (Some candidate) \<Rightarrow>
                if cap_year < year candidate then Some None
                else (case resolve_wall_clock off candidate of
                        LocalNone \<Rightarrow> fire_loop s off after cap_year (candidate + 1)
                      | LocalSingle u \<Rightarrow>
                          if after_instant u after then Some (Some u)
                          else fire_loop s off after cap_year (candidate + 1)
                      | LocalAmbiguous early late \<Rightarrow>
                          if after_instant early after then Some (Some early)
                          else if after_instant late after then Some (Some late)
                          else fire_loop s off after cap_year (candidate + 1))))"

declare fire_loop.simps [code]

text \<open>\<^verbatim>\<open>cursor.In(tz)\<close> shows the whole seconds of \<^verbatim>\<open>after + 1s\<close>; the carrier drops the rest.\<close>

definition next_fire_after :: "cron_schedule \<Rightarrow> (int \<Rightarrow> int) \<Rightarrow> int \<Rightarrow> int option option" where
  "next_fire_after s off after =
     (let cursor = (after + 1000000000) div 1000000000;
          naive = cursor + off cursor;
          cap_year = year naive + max_forward_years
      in fire_loop s off after cap_year (naive - 7200))"

section \<open>Lemmas on the moves\<close>

lemma midnight_of: "midnight_of t = t div 86400 * 86400"
  by (simp add: midnight_of_def date_same_day_0)

lemma day_split: "t = t div 86400 * 86400 + hour t * 3600 + minute t * 60 + second t" for t :: int
  using seconds_of_day [of t] div_mult_mod_eq [of t 86400] by linarith

lemma add_one_day_div: "add_days t 1 div 86400 = t div 86400 + 1"
  by (simp add: add_days)

lemma day_of_seconds: "0 \<le> s \<Longrightarrow> s < 86400 \<Longrightarrow> (d * 86400 + s) div 86400 = d" for d s :: int
  by simp

lemma fields_of_day_seconds:
  assumes "0 \<le> h" "h \<le> 23" "0 \<le> m" "m \<le> 59" "0 \<le> s" "s \<le> 59"
    and t: "t = d * 86400 + h * 3600 + m * 60 + s"
  shows "t div 86400 = d" "hour t = h" "minute t = m" "second t = s"
proof -
  define w where "w = h * 3600 + m * 60 + s"
  have w: "0 \<le> w" "w < 86400" "t = d * 86400 + w"
    using assms by (simp_all add: w_def)
  then show day: "t div 86400 = d"
    by simp
  have h3600: "w = m * 60 + s + h * 3600" "0 \<le> m * 60 + s" "m * 60 + s < 3600"
    using assms by (simp_all add: w_def)
  have "t mod 86400 = w"
    using w by simp
  with h3600 show hour: "hour t = h"
    by (simp add: hour_def)
  have eq: "t = m * 60 + s + (d * 24 + h) * 3600"
    using t by (simp add: algebra_simps)
  have "t mod 3600 = m * 60 + s"
    unfolding eq using h3600 by (simp only: mod_mult_self1 mod_pos_pos_trivial)
  then show minute: "minute t = m"
    using assms(5,6) by (simp add: minute_def)
  have eq2: "t = s + (m + (d * 24 + h) * 60) * 60"
    using t by (simp add: algebra_simps)
  show "second t = s"
    unfolding eq2 second_def using assms(5,6) by (simp only: mod_mult_self1 mod_pos_pos_trivial)
qed

lemma same_day_fields:
  "t div 86400 = u div 86400 \<Longrightarrow> year t = year u \<and> month t = month u \<and> mday t = mday u"
  by (simp add: year_def month_def mday_def)

lemma clock_shows_iff: "clock_shows off u n \<longleftrightarrow> u + off u = n"
proof
  assume "clock_shows off u n"
  then show "u + off u = n"
    using date_fields [of n] date_fields [of "u + off u"] by (simp add: clock_shows_def Let_def)
qed (simp add: clock_shows_def Let_def)

lemma last_day_of_month: "last_day_of_month (year t) (month t) = month_length (month_index (t div 86400))"
proof -
  define k where "k = month_index (t div 86400)"
  have ym: "year t = k div 12 + 1" "month t = k mod 12 + 1"
    by (simp_all add: year_def month_def k_def)
  have k: "12 * (k div 12) + k mod 12 = k"
    by simp
  have "last_day_of_month (year t) (month t) = mday (add_days (month_start (k + 1) * 86400) (- 1))"
  proof (cases "k mod 12 = 11")
    case True
    with k show ?thesis by (simp add: last_day_of_month_def ym date_def algebra_simps)
  next
    case False
    with k show ?thesis by (simp add: last_day_of_month_def ym date_def algebra_simps)
  qed
  moreover have "month_index (month_start (k + 1) - 1) = k"
    by (rule month_index_eq) (use month_length_bounds [of k] month_start_Suc [of k] in \<open>linarith, simp\<close>)
  ultimately show ?thesis
    by (simp add: mday_def add_days month_start_Suc flip: k_def left_diff_distrib)
qed

end
