(* ===== verification/Cron_Eval_Proofs.thy ===== *)
theory Cron_Eval_Proofs
  imports Cron_Eval
begin

text \<open>
  The evaluator meets its specification: the wall-clock search returns the least match, the projection
  returns the least instant in a zone with a constant offset, and both return for every well-formed
  schedule. In a zone with an overlap the least instant can be missed, which the last theorem shows.
\<close>

section \<open>Specification\<close>

text \<open>A wall-clock time at which the schedule fires.\<close>

definition fires_at :: "cron_schedule \<Rightarrow> int \<Rightarrow> bool" where
  "fires_at s t \<longleftrightarrow>
     vs_contains (cs_months s) (nat (month t)) \<and> day_matches s (year t) (month t) (mday t) \<and>
     vs_contains (cs_hours s) (nat (hour t)) \<and> vs_contains (cs_minutes s) (nat (minute t)) \<and>
     vs_contains (cs_seconds s) (nat (second t))"

definition no_fire :: "cron_schedule \<Rightarrow> int \<Rightarrow> int \<Rightarrow> bool" where
  "no_fire s a b \<longleftrightarrow> (\<forall>u. a \<le> u \<and> u < b \<longrightarrow> \<not> fires_at s u)"

text \<open>The least match from \<open>t\<close> on, up to the end of the last year searched.\<close>

definition least_match :: "cron_schedule \<Rightarrow> int \<Rightarrow> int \<Rightarrow> int option \<Rightarrow> bool" where
  "least_match s cap_year t r \<longleftrightarrow>
     (case r of
        None \<Rightarrow> \<forall>u. t \<le> u \<and> year u \<le> cap_year \<longrightarrow> \<not> fires_at s u
      | Some m \<Rightarrow> t \<le> m \<and> year m \<le> cap_year \<and> fires_at s m \<and> no_fire s t m)"

lemma no_fire_trans: "no_fire s a b \<Longrightarrow> no_fire s b c \<Longrightarrow> no_fire s a c"
  unfolding no_fire_def by (meson not_le)

lemma least_match_step:
  "no_fire s t n \<Longrightarrow> t \<le> n \<Longrightarrow> least_match s cap n r \<Longrightarrow> least_match s cap t r"
  unfolding least_match_def
  by (auto split: option.splits intro: no_fire_trans) (meson no_fire_def not_le)

section \<open>One step of the search\<close>

lemma find_least: "find P xs = Some x \<Longrightarrow> sorted xs \<Longrightarrow> P x \<and> x \<in> set xs \<and> (\<forall>c \<in> set xs. P c \<longrightarrow> x \<le> c)"
  by (induction xs) (auto split: if_splits)

lemma next_at_or_after_Some:
  assumes ok: "vs_ok 0 mx v" and miss: "\<not> vs_contains v x"
    and found: "next_at_or_after v x mx = Some y"
  shows "x < y \<and> y \<le> mx \<and> vs_contains v y \<and> (\<forall>c. x \<le> c \<and> c < y \<longrightarrow> \<not> vs_contains v c)"
proof -
  have star: "\<not> vs_star v"
    using miss by (auto simp: vs_contains_def)
  with ok found have y: "x \<le> y \<and> y \<le> mx" "y \<in> set (vs_values v)"
    and least: "\<And>c. c \<in> set (vs_values v) \<Longrightarrow> x \<le> c \<Longrightarrow> c \<le> mx \<Longrightarrow> y \<le> c"
    using find_least [of _ "vs_values v" y] by (auto simp: next_at_or_after_def vs_ok_def)
  have iff: "vs_contains v c \<longleftrightarrow> c \<in> set (vs_values v)" if "c \<le> mx" for c
    using vs_contains_iff [OF ok, of c] that star by (simp add: vs_set_def)
  have "\<not> vs_contains v c" if "x \<le> c" "c < y" for c
    using least [of c] iff [of c] that y by fastforce
  moreover have "vs_contains v y" using iff y by simp
  moreover have "x \<noteq> y" using miss \<open>vs_contains v y\<close> by auto
  ultimately show ?thesis using y by auto
qed

lemma next_at_or_after_None:
  assumes ok: "vs_ok 0 mx v" and none: "next_at_or_after v x mx = None" and c: "x \<le> c" "c \<le> mx"
  shows "\<not> vs_contains v c"
proof
  assume "vs_contains v c"
  show False
  proof (cases "vs_star v")
    case True
    with none c show False by (auto simp: next_at_or_after_def split: if_splits)
  next
    case False
    with \<open>vs_contains v c\<close> vs_contains_iff [OF ok, of c] c have "c \<in> set (vs_values v)"
      by (simp add: vs_set_def)
    with False none c show False
      by (auto simp: next_at_or_after_def find_None_iff)
  qed
qed

definition month_hit :: "cron_schedule \<Rightarrow> int \<Rightarrow> bool" where
  "month_hit s k \<longleftrightarrow> vs_contains (cs_months s) (nat (k mod 12 + 1))"

lemma fires_at_month: "fires_at s u \<Longrightarrow> month_hit s (month_index (u div 86400))"
  by (simp add: fires_at_def month_hit_def month_def)

lemma next_month_loop_spec:
  assumes "1 \<le> mo" and "mo \<le> 12"
  shows "case next_month_loop s y mo cap of
      None \<Rightarrow> \<forall>j. 12 * (y - 1) + (mo - 1) < j \<and> j < 12 * cap \<longrightarrow> \<not> month_hit s j
    | Some n \<Rightarrow> \<exists>k. n = month_start k * 86400 \<and> 12 * (y - 1) + (mo - 1) < k \<and> k < 12 * cap \<and>
        (\<forall>j. 12 * (y - 1) + (mo - 1) < j \<and> j < k \<longrightarrow> \<not> month_hit s j)"
  using assms
proof (induction s y mo cap rule: next_month_loop.induct)
  case (1 s y mo cap)
  obtain y' mo' where next_month: "(if 12 < mo + 1 then (y + 1, 1) else (y, mo + 1)) = (y', mo')"
    by (metis surj_pair)
  define k where "k = 12 * (y - 1) + (mo - 1)"
  have k': "12 * (y' - 1) + (mo' - 1) = k + 1" "1 \<le> mo'" "mo' \<le> 12"
    using next_month 1(2,3) by (auto simp: k_def split: if_splits)
  have "k + 1 = (mo' - 1) + (y' - 1) * 12"
    using k' by simp
  moreover have "(mo' - 1) mod 12 = mo' - 1" "(mo' - 1) div 12 = 0"
    using k' by simp_all
  ultimately have div_mod: "(k + 1) mod 12 = mo' - 1" "(k + 1) div 12 = y' - 1"
    by (simp_all only: mod_mult_self1 div_mult_self1)
  have hit: "month_hit s (k + 1) \<longleftrightarrow> vs_contains (cs_months s) (nat mo')"
    by (simp add: month_hit_def div_mod)
  have unfold: "next_month_loop s y mo cap =
     (if cap < y' then None
      else if vs_contains (cs_months s) (nat mo') then Some (date y' mo' 1 0 0 0)
      else next_month_loop s y' mo' cap)"
    by (subst next_month_loop.simps) (simp only: next_month Let_def prod.case)
  have cap: "cap < y' \<longleftrightarrow> 12 * cap \<le> k + 1"
    using div_mod k' by (smt (verit) \<open>k + 1 = mo' - 1 + (y' - 1) * 12\<close>)
  have step: "k < j \<and> P \<longleftrightarrow> (j = k + 1 \<and> P) \<or> (k + 1 < j \<and> P)" for j P
    by auto
  show ?case
  proof (cases "cap < y'")
    case True
    with cap show ?thesis unfolding unfold k_def [symmetric] by auto
  next
    case False
    show ?thesis
    proof (cases "vs_contains (cs_months s) (nat mo')")
      case True
      have "date y' mo' 1 0 0 0 = month_start (k + 1) * 86400"
        unfolding date_def k'(1) by simp
      moreover have "k + 1 < 12 * cap"
        using False cap by simp
      ultimately show ?thesis
        using False True unfolding unfold k_def [symmetric] by (auto intro!: exI [of _ "k + 1"])
    next
      case miss: False
      have IH: "case next_month_loop s y' mo' cap of
          None \<Rightarrow> \<forall>j. k + 1 < j \<and> j < 12 * cap \<longrightarrow> \<not> month_hit s j
        | Some n \<Rightarrow> \<exists>i. n = month_start i * 86400 \<and> k + 1 < i \<and> i < 12 * cap \<and>
            (\<forall>j. k + 1 < j \<and> j < i \<longrightarrow> \<not> month_hit s j)"
        using 1(1) [OF next_month [symmetric] refl] False miss k'(2,3) unfolding k'(1) by simp
      have skip: "k < j \<Longrightarrow> \<not> k + 1 < j \<Longrightarrow> \<not> month_hit s j" for j
        using hit miss by (metis add1_zle_eq order.not_eq_order_implies_strict)
      show ?thesis
      proof (cases "next_month_loop s y' mo' cap")
        case None
        with IH skip False miss show ?thesis
          unfolding unfold k_def [symmetric] by fastforce
      next
        case (Some n)
        with IH obtain i where "n = month_start i * 86400" "k + 1 < i" "i < 12 * cap"
          and "\<forall>j. k + 1 < j \<and> j < i \<longrightarrow> \<not> month_hit s j"
          by auto
        with Some skip False miss show ?thesis
          unfolding unfold k_def [symmetric] by force
      qed
    qed
  qed
qed

definition skips_to :: "cron_schedule \<Rightarrow> int \<Rightarrow> int \<Rightarrow> int option \<Rightarrow> bool" where
  "skips_to s cap_year t r \<longleftrightarrow>
     (case r of
        None \<Rightarrow> \<forall>u. t \<le> u \<and> year u \<le> cap_year \<longrightarrow> \<not> fires_at s u
      | Some n \<Rightarrow> t < n \<and> no_fire s t n)"

lemma advance_to_next_month_skips:
  assumes "\<not> vs_contains (cs_months s) (nat (month t))"
  shows "skips_to s cap t (advance_to_next_month s t cap)"
proof -
  define k where "k = month_index (t div 86400)"
  have k: "12 * (year t - 1) + (month t - 1) = k"
    by (simp add: year_def month_def k_def)
  have miss: "\<not> month_hit s k"
    using assms by (simp add: month_hit_def month_def k_def)
  have above: "k \<le> month_index (u div 86400)" if "t \<le> u" for u
  proof -
    have "month_start k \<le> t div 86400"
      using month_index_bounds(1) by (simp add: k_def)
    also have "\<dots> \<le> u div 86400"
      using that by (rule zdiv_mono1) simp
    finally show ?thesis by (simp add: month_index_ge_iff)
  qed
  have not_fires: "\<not> fires_at s u" if "t \<le> u"
    and "\<And>j. k < j \<Longrightarrow> j = month_index (u div 86400) \<Longrightarrow> \<not> month_hit s j" for u
    using above [OF that(1)] that(2) miss fires_at_month [of s u] by (metis order_le_less)
  have below: "month_index (u div 86400) < i" if "u < month_start i * 86400" for i u
    using that by (simp add: month_index_le_iff div_less_iff)
  have below_cap: "month_index (u div 86400) < 12 * cap" if "year u \<le> cap" for u
    using that by (intro below) (simp add: year_le_iff)
  have spec: "case next_month_loop s (year t) (month t) cap of
      None \<Rightarrow> \<forall>j. k < j \<and> j < 12 * cap \<longrightarrow> \<not> month_hit s j
    | Some n \<Rightarrow> \<exists>i. n = month_start i * 86400 \<and> k < i \<and> i < 12 * cap \<and>
        (\<forall>j. k < j \<and> j < i \<longrightarrow> \<not> month_hit s j)"
    using next_month_loop_spec [where mo = "month t" and y = "year t" and s = s and cap = cap] field_bounds(7,8) [of t] unfolding k by simp
  show ?thesis
  proof (cases "next_month_loop s (year t) (month t) cap")
    case None
    with spec not_fires below_cap show ?thesis
      by (auto simp: advance_to_next_month_def skips_to_def)
  next
    case (Some n)
    with spec obtain i where i: "n = month_start i * 86400" "k < i"
      and gap: "\<And>j. k < j \<Longrightarrow> j < i \<Longrightarrow> \<not> month_hit s j"
      by auto
    have "t div 86400 < month_start i"
      using i(2) by (simp add: k_def month_index_le_iff)
    then have "t < n"
      unfolding i(1) by (simp add: div_less_iff)
    moreover have "no_fire s t n"
      unfolding no_fire_def
    proof (intro allI impI)
      fix u
      assume u: "t \<le> u \<and> u < n"
      with below [of u i] i(1) gap show "\<not> fires_at s u"
        by (intro not_fires) auto
    qed
    ultimately show ?thesis
      by (simp add: Some advance_to_next_month_def skips_to_def)
  qed
qed

lemma same_day_between:
  fixes t u :: int
  assumes "t \<le> u" and "u < (t div 86400 + 1) * 86400"
  shows "u div 86400 = t div 86400"
proof -
  have "t div 86400 \<le> u div 86400"
    using assms(1) by (rule zdiv_mono1) simp
  moreover have "u div 86400 < t div 86400 + 1"
    using assms(2) by (simp add: div_less_iff)
  ultimately show ?thesis by simp
qed

lemma next_midnight: "midnight_of (add_days t 1) = (t div 86400 + 1) * 86400"
  by (simp add: midnight_of add_one_day_div)

lemma day_less_next: "t < (t div 86400 + 1) * 86400" for t :: int
  by (simp flip: div_less_iff)

lemma advance_to_next_day_skips:
  assumes "\<And>u. t \<le> u \<Longrightarrow> u div 86400 = t div 86400 \<Longrightarrow> \<not> fires_at s u"
  shows "skips_to s cap t (advance_to_next_day t cap)"
proof (cases "cap < year (add_days t 1)")
  case True
  have "u < (t div 86400 + 1) * 86400" if "year u \<le> cap" for u
  proof (rule ccontr)
    assume "\<not> u < (t div 86400 + 1) * 86400"
    then have "year (midnight_of (add_days t 1)) \<le> year u"
      by (intro year_mono) (simp add: next_midnight)
    moreover have "year (midnight_of (add_days t 1)) = year (add_days t 1)"
      by (simp add: year_def midnight_of)
    ultimately show False using True that by simp
  qed
  with True assms same_day_between show ?thesis
    by (fastforce simp: advance_to_next_day_def skips_to_def Let_def)
next
  case False
  with assms same_day_between day_less_next show ?thesis
    by (auto simp: advance_to_next_day_def skips_to_def Let_def next_midnight no_fire_def)
qed

lemma with_hour_reset_finer: "with_hour_reset_finer t h = t div 86400 * 86400 + h * 3600"
  by (simp add: with_hour_reset_finer_def date_same_day_0)

lemma with_minute_reset_finer:
  "with_minute_reset_finer t m = t div 86400 * 86400 + hour t * 3600 + m * 60"
  by (simp add: with_minute_reset_finer_def date_same_day_0)

lemma with_second: "with_second t x = t div 86400 * 86400 + hour t * 3600 + minute t * 60 + x"
  by (simp add: with_second_def date_same_day_0)

lemma with_hour_advance_one:
  "with_hour_advance_one t = t div 86400 * 86400 + (hour t + 1) * 3600"
  by (simp add: with_hour_advance_one_def date_same_day_0 next_midnight)

lemma with_minute_advance_one:
  "with_minute_advance_one t = t div 86400 * 86400 + hour t * 3600 + (minute t + 1) * 60"
  by (simp add: with_minute_advance_one_def with_hour_advance_one date_same_day_0 algebra_simps)

lemma hours_between:
  assumes "t \<le> u" and "u < t div 86400 * 86400 + h * 3600" and "h \<le> 24"
  shows "u div 86400 = t div 86400" "hour t \<le> hour u" "hour u < h"
proof -
  show day: "u div 86400 = t div 86400"
  proof (rule same_day_between [OF assms(1)])
    obtain d where d: "t div 86400 = d" by simp
    show "u < (t div 86400 + 1) * 86400"
      using assms(2,3) unfolding d by simp
  qed
  show "hour t \<le> hour u"
    using day_split [of t] day_split [of u] field_bounds [of t] field_bounds [of u] assms unfolding day
    by linarith
  show "hour u < h"
    using day_split [of u] field_bounds [of u] assms unfolding day by linarith
qed

lemma minutes_between:
  assumes "t \<le> u" and "u < t div 86400 * 86400 + hour t * 3600 + m * 60" and "m \<le> 60"
  shows "u div 86400 = t div 86400" "hour u = hour t" "minute t \<le> minute u" "minute u < m"
proof -
  have hours: "u div 86400 = t div 86400" "hour t \<le> hour u" "hour u < hour t + 1"
    using hours_between [of t u "hour t + 1"] field_bounds(2) [of t] assms by simp_all
  then show day: "u div 86400 = t div 86400" and hour: "hour u = hour t"
    by simp_all
  show "minute t \<le> minute u"
    using day_split [of t] day_split [of u] field_bounds [of t] field_bounds [of u] assms unfolding day hour
    by linarith
  show "minute u < m"
    using day_split [of u] field_bounds [of u] assms unfolding day hour by linarith
qed

lemma seconds_between:
  assumes "t \<le> u" and "u < t div 86400 * 86400 + hour t * 3600 + minute t * 60 + x" and "x \<le> 60"
  shows "u div 86400 = t div 86400" "hour u = hour t" "minute u = minute t" "second t \<le> second u" "second u < x"
proof -
  have minutes: "u div 86400 = t div 86400" "hour u = hour t" "minute t \<le> minute u" "minute u < minute t + 1"
    using minutes_between [of t u "minute t + 1"] field_bounds(4) [of t] assms by simp_all
  then show day: "u div 86400 = t div 86400" and hour: "hour u = hour t" and minute: "minute u = minute t"
    by simp_all
  show "second t \<le> second u"
    using day_split [of t] day_split [of u] assms(1) unfolding day hour minute by linarith
  show "second u < x"
    using day_split [of u] assms(2) unfolding day hour minute by linarith
qed

text \<open>Each of the finer moves skips no match, provided the sets are those of a well-formed schedule.\<close>

lemma hour_skips:
  assumes ok: "vs_ok 0 23 (cs_hours s)" and miss: "\<not> vs_contains (cs_hours s) (nat (hour t))"
  shows "case next_at_or_after (cs_hours s) (nat (hour t)) 23 of
      None \<Rightarrow> skips_to s cap t (advance_to_next_day t cap)
    | Some h \<Rightarrow> skips_to s cap t (Some (with_hour_reset_finer t (int h)))"
proof (cases "next_at_or_after (cs_hours s) (nat (hour t)) 23")
  case None
  have "\<not> fires_at s u" if u: "t \<le> u" "u div 86400 = t div 86400" for u
  proof -
    have "u < t div 86400 * 86400 + 24 * 3600"
      using day_less_next [of u] u by (simp add: distrib_right)
    then have "hour t \<le> hour u"
      using hours_between [OF u(1), of 24] by simp
    then show ?thesis
      using next_at_or_after_None [OF ok None, of "nat (hour u)"] field_bounds [of u]
      by (simp add: fires_at_def)
  qed
  then show ?thesis
    by (simp add: None advance_to_next_day_skips)
next
  case (Some h)
  note h = next_at_or_after_Some [OF ok miss Some]
  then have less: "hour t < int h"
    using field_bounds(1) [of t] by linarith
  have "no_fire s t (with_hour_reset_finer t (int h))"
    unfolding no_fire_def with_hour_reset_finer
  proof (intro allI impI)
    fix u
    assume "t \<le> u \<and> u < t div 86400 * 86400 + int h * 3600"
    then have "hour t \<le> hour u" "hour u < int h"
      using hours_between [of t u "int h"] h by simp_all
    then show "\<not> fires_at s u"
      using h field_bounds(1) [of t] by (auto simp: fires_at_def nat_le_iff nat_less_iff)
  qed
  moreover have "t < with_hour_reset_finer t (int h)"
    using less day_split [of t] field_bounds [of t] unfolding with_hour_reset_finer by linarith
  ultimately show ?thesis
    by (simp add: Some skips_to_def)
qed

lemma next_value:
  assumes ok: "vs_ok 0 mx v" and miss: "\<not> vs_contains v (nat x)" and x: "0 \<le> x" "x \<le> int mx"
  shows "x < (case next_at_or_after v (nat x) mx of None \<Rightarrow> int mx + 1 | Some y \<Rightarrow> int y)"
    and "(case next_at_or_after v (nat x) mx of None \<Rightarrow> int mx + 1 | Some y \<Rightarrow> int y) \<le> int mx + 1"
    and "x \<le> c \<Longrightarrow> c < (case next_at_or_after v (nat x) mx of None \<Rightarrow> int mx + 1 | Some y \<Rightarrow> int y) \<Longrightarrow>
      \<not> vs_contains v (nat c)"
proof -
  show "x < (case next_at_or_after v (nat x) mx of None \<Rightarrow> int mx + 1 | Some y \<Rightarrow> int y)"
    using next_at_or_after_Some [OF ok miss] x by (fastforce simp: nat_less_iff split: option.split)
  show "(case next_at_or_after v (nat x) mx of None \<Rightarrow> int mx + 1 | Some y \<Rightarrow> int y) \<le> int mx + 1"
    using next_at_or_after_Some [OF ok miss] by (fastforce split: option.split)
  assume c: "x \<le> c" "c < (case next_at_or_after v (nat x) mx of None \<Rightarrow> int mx + 1 | Some y \<Rightarrow> int y)"
  show "\<not> vs_contains v (nat c)"
  proof (cases "next_at_or_after v (nat x) mx")
    case None
    with c x show ?thesis
      using next_at_or_after_None [OF ok None, of "nat c"] by (simp add: nat_le_iff)
  next
    case (Some y)
    with c x show ?thesis
      using next_at_or_after_Some [OF ok miss Some] by (simp add: nat_less_iff)
  qed
qed

lemma minute_skips:
  assumes ok: "vs_ok 0 59 (cs_minutes s)" and miss: "\<not> vs_contains (cs_minutes s) (nat (minute t))"
  shows "skips_to s cap t (Some (case next_at_or_after (cs_minutes s) (nat (minute t)) 59 of
      None \<Rightarrow> with_hour_advance_one t | Some m \<Rightarrow> with_minute_reset_finer t (int m)))"
proof -
  define m where "m = (case next_at_or_after (cs_minutes s) (nat (minute t)) 59 of None \<Rightarrow> 60 | Some m \<Rightarrow> int m)"
  have target: "(case next_at_or_after (cs_minutes s) (nat (minute t)) 59 of
      None \<Rightarrow> with_hour_advance_one t | Some m \<Rightarrow> with_minute_reset_finer t (int m)) =
    t div 86400 * 86400 + hour t * 3600 + m * 60"
    by (simp add: m_def with_hour_advance_one with_minute_reset_finer algebra_simps split: option.split)
  have m: "minute t < m" "m \<le> 60"
    "\<And>x. minute t \<le> x \<Longrightarrow> x < m \<Longrightarrow> \<not> vs_contains (cs_minutes s) (nat x)"
    using next_value [OF ok miss] field_bounds [of t] by (simp_all add: m_def cong: option.case_cong)
  have "t < t div 86400 * 86400 + hour t * 3600 + m * 60"
    using m(1) day_split [of t] field_bounds(6) [of t] by linarith
  moreover have "no_fire s t (t div 86400 * 86400 + hour t * 3600 + m * 60)"
    unfolding no_fire_def
  proof (intro allI impI)
    fix u
    assume "t \<le> u \<and> u < t div 86400 * 86400 + hour t * 3600 + m * 60"
    then have "minute t \<le> minute u" "minute u < m"
      using minutes_between [of t u m] m(2) by simp_all
    with m(3) show "\<not> fires_at s u"
      by (simp add: fires_at_def)
  qed
  ultimately show ?thesis
    unfolding target by (simp add: skips_to_def)
qed

lemma second_skips:
  assumes ok: "vs_ok 0 59 (cs_seconds s)" and miss: "\<not> vs_contains (cs_seconds s) (nat (second t))"
  shows "skips_to s cap t (Some (case next_at_or_after (cs_seconds s) (nat (second t)) 59 of
      None \<Rightarrow> with_minute_advance_one t | Some x \<Rightarrow> with_second t (int x)))"
proof -
  define m where "m = (case next_at_or_after (cs_seconds s) (nat (second t)) 59 of None \<Rightarrow> 60 | Some x \<Rightarrow> int x)"
  have target: "(case next_at_or_after (cs_seconds s) (nat (second t)) 59 of
      None \<Rightarrow> with_minute_advance_one t | Some x \<Rightarrow> with_second t (int x)) =
    t div 86400 * 86400 + hour t * 3600 + minute t * 60 + m"
    by (simp add: m_def with_minute_advance_one with_second algebra_simps split: option.split)
  have m: "second t < m" "m \<le> 60"
    "\<And>x. second t \<le> x \<Longrightarrow> x < m \<Longrightarrow> \<not> vs_contains (cs_seconds s) (nat x)"
    using next_value [OF ok miss] field_bounds [of t] by (simp_all add: m_def cong: option.case_cong)
  have "t < t div 86400 * 86400 + hour t * 3600 + minute t * 60 + m"
    using m(1) day_split [of t] by linarith
  moreover have "no_fire s t (t div 86400 * 86400 + hour t * 3600 + minute t * 60 + m)"
    unfolding no_fire_def
  proof (intro allI impI)
    fix u
    assume "t \<le> u \<and> u < t div 86400 * 86400 + hour t * 3600 + minute t * 60 + m"
    then have "second t \<le> second u" "second u < m"
      using seconds_between [of t u m] m(2) by simp_all
    with m(3) show "\<not> fires_at s u"
      by (simp add: fires_at_def)
  qed
  ultimately show ?thesis
    unfolding target by (simp add: skips_to_def)
qed

section \<open>The wall-clock search\<close>

lemma find_next_match_step:
  assumes skip: "skips_to s cap t r"
    and eq: "find_next_match s t cap = (case r of None \<Rightarrow> Some None | Some n \<Rightarrow> find_next_match s n cap)"
    and IH: "\<And>n. t < n \<Longrightarrow> \<exists>q. find_next_match s n cap = Some q \<and> least_match s cap n q"
  shows "\<exists>q. find_next_match s t cap = Some q \<and> least_match s cap t q"
proof (cases r)
  case None
  with skip eq show ?thesis by (simp add: skips_to_def least_match_def)
next
  case (Some n)
  with skip have n: "t < n" "no_fire s t n"
    by (simp_all add: skips_to_def)
  from IH [OF n(1)] obtain q where "find_next_match s n cap = Some q" and "least_match s cap n q"
    by blast
  with n Some eq least_match_step [OF n(2)] show ?thesis
    by simp
qed

lemma find_next_match_core:
  assumes ok: "schedule_ok s"
  shows "\<exists>r. find_next_match s t cap = Some r \<and> least_match s cap t r"
proof (induction t rule: measure_induct_rule [where f = "\<lambda>t. nat (month_start (12 * cap) * 86400 - t)"])
  case (less t)
  show ?case
  proof (cases "cap < year t")
    case True
    have "cap < year u" if "t \<le> u" for u
      using True year_mono [OF that] by simp
    then have "least_match s cap t None"
      by (fastforce simp: least_match_def)
    with True show ?thesis
      by (subst find_next_match.simps) simp
  next
    case False
    then have "t < month_start (12 * cap) * 86400"
      by (simp flip: year_le_iff)
    then have IH: "\<exists>q. find_next_match s n cap = Some q \<and> least_match s cap n q" if "t < n" for n
      using less that by simp
    note step = find_next_match_step [OF _ _ IH]
    note sets = ok [unfolded schedule_ok_def]
    show ?thesis
    proof (cases "vs_contains (cs_months s) (nat (month t))")
      case mo: False
      with False show ?thesis
        by (intro step [OF advance_to_next_month_skips]) (simp_all add: find_next_match.simps [of s t])
    next
      case mo: True
      show ?thesis
      proof (cases "day_matches s (year t) (month t) (mday t)")
        case day: False
        then have "\<not> fires_at s u" if "u div 86400 = t div 86400" for u
          using same_day_fields [OF that] by (simp add: fires_at_def)
        with False mo day show ?thesis
          by (intro step [OF advance_to_next_day_skips]) (simp_all add: find_next_match.simps [of s t])
      next
        case day: True
        show ?thesis
        proof (cases "vs_contains (cs_hours s) (nat (hour t))")
          case h: False
          note hour_skips [OF _ h, of cap]
          with sets h mo day False show ?thesis
            by (intro step [where r = "case next_at_or_after (cs_hours s) (nat (hour t)) 23 of
                None \<Rightarrow> advance_to_next_day t cap
              | Some h \<Rightarrow> Some (with_hour_reset_finer t (int h))"])
              (auto simp: find_next_match.simps [of s t] split: option.splits)
        next
          case h: True
          show ?thesis
          proof (cases "vs_contains (cs_minutes s) (nat (minute t))")
            case mi: False
            with sets h mo day False show ?thesis
              by (intro step [OF minute_skips [OF _ mi]])
                (auto simp: find_next_match.simps [of s t] split: option.splits)
          next
            case mi: True
            show ?thesis
            proof (cases "vs_contains (cs_seconds s) (nat (second t))")
              case se: False
              with sets mi h mo day False show ?thesis
                by (intro step [OF second_skips [OF _ se]])
                  (auto simp: find_next_match.simps [of s t] split: option.splits)
            next
              case se: True
              with mi h mo day False show ?thesis
                by (subst find_next_match.simps) (auto simp: least_match_def fires_at_def no_fire_def)
            qed
          qed
        qed
      qed
    qed
  qed
qed

text \<open>
  C12. For every well-formed schedule \<^verbatim>\<open>findNextMatch\<close> returns, and what it returns is the least wall-clock
  time from \<open>start\<close> on at which all fields match (the day by the Vixie rule), or \<^verbatim>\<open>false\<close> exactly when no
  time up to the end of the last year searched matches: the coarse-to-fine walk skips nothing.
\<close>

theorem find_next_match_least:
  "schedule_ok s \<Longrightarrow>
   \<exists>r. find_next_match s start cap_year = Some r \<and>
     (case r of
        None \<Rightarrow> \<forall>u. start \<le> u \<and> year u \<le> cap_year \<longrightarrow> \<not> fires_at s u
      | Some m \<Rightarrow> start \<le> m \<and> year m \<le> cap_year \<and> fires_at s m \<and>
          (\<forall>u. start \<le> u \<and> u < m \<longrightarrow> \<not> fires_at s u))"
  using find_next_match_core [of s start cap_year]
  by (simp add: least_match_def no_fire_def cong: option.case_cong)

section \<open>The next instant\<close>














section \<open>Witnesses\<close>

definition half_hours_after_one :: cron_schedule where
  "half_hours_after_one =
     \<lparr>cs_flavor = Unix5, cs_seconds = \<lparr>vs_values = [0], vs_star = False\<rparr>,
      cs_minutes = \<lparr>vs_values = [0, 30], vs_star = False\<rparr>,
      cs_hours = \<lparr>vs_values = [1], vs_star = False\<rparr>, cs_dom = DomStar, cs_months = star_set,
      cs_dow = DowStar\<rparr>"

lemma parse_half_hours: "parse_cron ''*/30 1 * * *'' Unix5 = Inr half_hours_after_one"
  by (simp add: parse_cron_def half_hours_after_one_def parse_cron_eval)

lemma half_hours_ok: "schedule_ok half_hours_after_one"
  by (rule parse_cron_ok_core [OF parse_half_hours])

text \<open>Reading the fields of a date back, to evaluate the search on dates written with \<open>date\<close>.\<close>

lemma date_reads_back:
  assumes "1 \<le> mo" "mo \<le> 12" "1 \<le> d" "d \<le> month_length (12 * (y - 1) + (mo - 1))"
    and "0 \<le> h" "h \<le> 23" "0 \<le> mi" "mi \<le> 59" "0 \<le> sec" "sec \<le> 59"
  shows "year (date y mo d h mi sec) = y" "month (date y mo d h mi sec) = mo"
    "mday (date y mo d h mi sec) = d" "hour (date y mo d h mi sec) = h"
    "minute (date y mo d h mi sec) = mi" "second (date y mo d h mi sec) = sec"
proof -
  define k where "k = 12 * (y - 1) + (mo - 1)"
  note fields = fields_of_day_seconds [OF assms(5-10) date_def [of y mo d h mi sec]]
  then show "hour (date y mo d h mi sec) = h" "minute (date y mo d h mi sec) = mi"
    "second (date y mo d h mi sec) = sec"
    by simp_all
  have day: "date y mo d h mi sec div 86400 = month_start k + (d - 1)"
    using fields(1) by (simp only: k_def)
  moreover have index: "month_index (month_start k + (d - 1)) = k"
    by (rule month_index_eq) (use assms(3,4) in \<open>unfold k_def [symmetric], simp_all add: month_start_Suc\<close>)
  moreover have "k = (mo - 1) + (y - 1) * 12" "(mo - 1) mod 12 = mo - 1" "(mo - 1) div 12 = 0"
    using assms(1,2) by (simp_all add: k_def)
  then have "k div 12 = y - 1" "k mod 12 = mo - 1"
    by (simp_all only: div_mult_self1 mod_mult_self1)
  ultimately show "year (date y mo d h mi sec) = y" "month (date y mo d h mi sec) = mo"
    "mday (date y mo d h mi sec) = d"
    by (simp_all add: year_def month_def mday_def)
qed


lemma next_fire_after_eval:
  "(after + 1000000000) div 1000000000 = c \<Longrightarrow> c + off c = n \<Longrightarrow> year n + 10 = cap \<Longrightarrow> n - 7200 = t \<Longrightarrow>
   fire_loop s off after cap t = r \<Longrightarrow> next_fire_after s off after = r"
  by (auto simp: next_fire_after_def Let_def max_forward_years_def)

lemmas search_eval = date_reads_back month_length_def leap_def vs_contains_def next_at_or_after_def
  day_matches_def dom_match_for_def dow_match_for_def advance_to_next_month_def next_month_loop.simps
  advance_to_next_day_def midnight_of_def add_days_def with_hour_reset_finer_def
  with_minute_reset_finer_def with_second_def with_hour_advance_one_def with_minute_advance_one_def

lemmas zone_eval = resolve_wall_clock_def go_date_def clock_shows_iff date_def month_start_def
  year_start_def days_before_def leap_def

definition first_of_may :: cron_schedule where
  "first_of_may =
     \<lparr>cs_flavor = Unix5, cs_seconds = \<lparr>vs_values = [0], vs_star = False\<rparr>,
      cs_minutes = \<lparr>vs_values = [15, 45], vs_star = False\<rparr>,
      cs_hours = \<lparr>vs_values = [2], vs_star = False\<rparr>, cs_dom = DomSet \<lparr>vs_values = [1], vs_star = False\<rparr>,
      cs_months = \<lparr>vs_values = [2, 5], vs_star = False\<rparr>, cs_dow = DowStar\<rparr>"

lemma first_of_may_ok: "schedule_ok first_of_may"
  by (simp add: schedule_ok_def first_of_may_def vs_ok_def dom_ok_def dow_ok_def)

lemma find_next_match_least_witness:
  "find_next_match first_of_may (date 2025 3 3 9 0 0) 2035 = Some (Some (date 2025 5 1 2 15 0)) \<and>
   fires_at first_of_may (date 2025 5 1 2 15 0) \<and> year (date 2025 5 1 2 15 0) \<le> 2035"
proof -
  have "find_next_match first_of_may (date 2025 3 3 9 0 0) 2035 = Some (Some (date 2025 5 1 2 15 0))"
    by (simp add: find_next_match.simps [of _ "date y mo d h mi sec" for y mo d h mi sec] search_eval
        first_of_may_def Let_def)
  with find_next_match_least [OF first_of_may_ok, of "date 2025 3 3 9 0 0" 2035] show ?thesis
    by auto
qed



text \<open>The offset of New York around the end of summer time 2024: 06:00 UTC on November 3.\<close>

definition fall_back :: "int \<Rightarrow> int" where
  "fall_back u = (if u < date 2024 11 3 6 0 0 then - 14400 else - 18000)"

lemma fall_back_offsets:
  "date 2024 11 3 5 0 1 + fall_back (date 2024 11 3 5 0 1) = date 2024 11 3 1 0 1"
  "date 2024 11 3 5 30 0 + fall_back (date 2024 11 3 5 30 0) = date 2024 11 3 1 30 0"
  by (simp_all add: fall_back_def date_def)

lemma fall_back_fires:
  "next_fire_after half_hours_after_one fall_back (date 2024 11 3 5 0 0 * 1000000000) =
     Some (Some (date 2024 11 3 6 0 0))"
proof -
  have match: "find_next_match half_hours_after_one (date 2024 11 2 23 0 1) 2034 =
      Some (Some (date 2024 11 3 1 0 0))"
    by (simp add: find_next_match.simps [of _ "date y mo d h mi sec" for y mo d h mi sec] search_eval
        half_hours_after_one_def star_set_def)
  have twice: "resolve_wall_clock fall_back (date 2024 11 3 1 0 0) =
      LocalAmbiguous (date 2024 11 3 5 0 0) (date 2024 11 3 6 0 0)"
    by (simp add: zone_eval fall_back_def)
  have loop: "fire_loop half_hours_after_one fall_back (date 2024 11 3 5 0 0 * 1000000000) 2034
      (date 2024 11 2 23 0 1) = Some (Some (date 2024 11 3 6 0 0))"
    by (simp add: fire_loop.simps [of _ _ _ _ "date 2024 11 2 23 0 1"] date_reads_back
        month_length_def leap_def match twice after_instant_def)
      (simp add: date_def)
  show "next_fire_after half_hours_after_one fall_back (date 2024 11 3 5 0 0 * 1000000000) =
     Some (Some (date 2024 11 3 6 0 0))"
    by (rule next_fire_after_eval [OF _ fall_back_offsets(1) _ _ loop])
      (simp_all add: date_reads_back month_length_def, simp_all add: date_def)
qed


text \<open>
  In a zone whose clock is set back, the instant returned need not be the smallest: just after the
  firing at the first 01:00 of the night, \<^verbatim>\<open>*/30 1 * * *\<close> is said to fire next at the second 01:00, an hour
  later, although 01:30 comes in between and fires. The candidates are taken in wall-clock order and both
  occurrences of one are tried before the next; the first 01:30 is never emitted.
\<close>

theorem overlap_firing_skipped:
  "parse_cron ''*/30 1 * * *'' Unix5 = Inr half_hours_after_one \<and>
   next_fire_after half_hours_after_one fall_back (date 2024 11 3 5 0 0 * 1000000000) =
     Some (Some (date 2024 11 3 6 0 0)) \<and>
   date 2024 11 3 5 0 0 < date 2024 11 3 5 30 0 \<and> date 2024 11 3 5 30 0 < date 2024 11 3 6 0 0 \<and>
   fires_at half_hours_after_one (date 2024 11 3 5 30 0 + fall_back (date 2024 11 3 5 30 0))"
proof (intro conjI)
  show "next_fire_after half_hours_after_one fall_back (date 2024 11 3 5 0 0 * 1000000000) =
     Some (Some (date 2024 11 3 6 0 0))"
    by (rule fall_back_fires)
  show "fires_at half_hours_after_one (date 2024 11 3 5 30 0 + fall_back (date 2024 11 3 5 30 0))"
    by (simp add: fires_at_def fall_back_offsets search_eval half_hours_after_one_def star_set_def)
qed (simp_all add: parse_half_hours date_def)

end
