(* ===== verification/Pipeline_Plan.thy ===== *)
theory Pipeline_Plan
  imports Prelude
begin

text \<open>
  Pipeline plans, \<^verbatim>\<open>libs/pipeline-plan\<close>: the operator graph (\<^verbatim>\<open>plan.go\<close>, \<^verbatim>\<open>ops.go\<close>) and its validator
  (\<^verbatim>\<open>validate.go\<close>). A kind is a string, since a plan read from JSON may name any; the optional
  configurations are options. The validator loops over a Go map when it looks for configurations of other
  kinds; the order of that loop is an argument here, one per operator.
\<close>

section \<open>Kinds\<close>

definition kind_read_table :: string where "kind_read_table = ''read_table''"
definition kind_filter :: string where "kind_filter = ''filter''"
definition kind_project :: string where "kind_project = ''project''"
definition kind_rename :: string where "kind_rename = ''rename''"
definition kind_cast :: string where "kind_cast = ''cast''"
definition kind_aggregate :: string where "kind_aggregate = ''aggregate''"
definition kind_union :: string where "kind_union = ''union''"
definition kind_limit :: string where "kind_limit = ''limit''"
definition kind_write_table :: string where "kind_write_table = ''write_table''"

definition all_kinds :: "string list" where
  "all_kinds = [kind_read_table, kind_filter, kind_project, kind_rename, kind_cast, kind_aggregate,
     kind_union, kind_limit, kind_write_table]"

definition is_kind :: "string \<Rightarrow> bool" where
  "is_kind k \<longleftrightarrow> k \<in> set all_kinds"

lemmas kind_names = kind_read_table_def kind_filter_def kind_project_def kind_rename_def kind_cast_def
  kind_aggregate_def kind_union_def kind_limit_def kind_write_table_def

section \<open>Operators\<close>

record read_table =
  rt_catalog :: string
  rt_namespace :: string
  rt_table :: string

record filter_op =
  fl_expr :: string

record project_column =
  pc_name :: string
  pc_expr :: string

record column_pair =
  cp_from :: string
  cp_to :: string

record column_cast =
  cc_column :: string
  cc_to_kind :: string

record aggregation_func =
  af_function :: string
  af_source_column :: string
  af_target_column :: string

record aggregate =
  ag_group_by :: "string list"
  ag_aggregations :: "aggregation_func list"

record write_table =
  wt_catalog :: string
  wt_namespace :: string
  wt_table :: string
  wt_mode :: string

text \<open>The configuration of \<^verbatim>\<open>project\<close>, \<^verbatim>\<open>rename\<close> and \<^verbatim>\<open>cast\<close> is one list, of \<^verbatim>\<open>limit\<close> one 64-bit number.\<close>

record op =
  op_id :: string
  op_kind :: string
  op_inputs :: "string list"
  op_read_table :: "read_table option"
  op_filter :: "filter_op option"
  op_project :: "project_column list option"
  op_rename :: "column_pair list option"
  op_cast :: "column_cast list option"
  op_aggregate :: "aggregate option"
  op_union :: "unit option"
  op_limit :: "int option"
  op_write_table :: "write_table option"

record plan =
  pl_pipeline_id :: string
  pl_run_id :: string
  pl_ops :: "op list"

definition op_source :: "op \<Rightarrow> bool" where
  "op_source x \<longleftrightarrow> op_kind x = kind_read_table"

definition op_terminal :: "op \<Rightarrow> bool" where
  "op_terminal x \<longleftrightarrow> op_kind x = kind_write_table"

definition passthrough :: "project_column \<Rightarrow> bool" where
  "passthrough c \<longleftrightarrow> pc_expr c = []"

definition read_fully_qualified :: "read_table \<Rightarrow> string" where
  "read_fully_qualified r = rt_catalog r @ ''.'' @ rt_namespace r @ ''.'' @ rt_table r"

definition write_fully_qualified :: "write_table \<Rightarrow> string" where
  "write_fully_qualified w = wt_catalog w @ ''.'' @ wt_namespace w @ ''.'' @ wt_table w"

definition count_name :: string where "count_name = ''count''"

definition all_aggregations :: "string list" where
  "all_aggregations = [''sum'', count_name, ''count_distinct'', ''avg'', ''stddev'', ''min'', ''max'']"

definition is_aggregation :: "string \<Rightarrow> bool" where
  "is_aggregation name \<longleftrightarrow> name \<in> set all_aggregations"

definition write_modes :: "string list" where
  "write_modes = [''create_or_replace'', ''append'']"

definition is_write_mode :: "string \<Rightarrow> bool" where
  "is_write_mode m \<longleftrightarrow> m \<in> set write_modes"

section \<open>Findings of the validator\<close>

datatype finding_message =
    EmptyPlan
  | EmptyId nat
  | DuplicateId
  | UnknownKind string
  | ConfigMissing
  | ConfigPopulated string
  | SourceHasInputs
  | UnionNeedsTwo
  | OneInput string nat
  | UnknownInput string
  | SelfReference
  | MustNotBeEmpty
  | AtLeastOneColumn
  | AtLeastOneMapping
  | AtLeastOneCast
  | AtLeastOneAggregation
  | DuplicateColumn string
  | FromToEmpty
  | TargetKindEmpty
  | UnknownFunction string
  | RequiresSource string
  | TargetColumnEmpty
  | DuplicateTarget string
  | DuplicateGroupKey string
  | LimitNotPositive
  | UnknownMode string
  | NoSource
  | NoTerminal
  | CycleDetected

record validation_error =
  ve_op_id :: string
  ve_field :: string
  ve_message :: finding_message

definition finding_text :: "finding_message \<Rightarrow> string" where
  "finding_text m =
     (case m of
        EmptyPlan \<Rightarrow> ''plan has no ops''
      | EmptyId i \<Rightarrow> ''op at index '' @ show_nat i @ '' has empty id''
      | DuplicateId \<Rightarrow> ''duplicate op id''
      | UnknownKind k \<Rightarrow> ''unknown kind '' @ go_quote k
      | ConfigMissing \<Rightarrow> ''config for declared kind is missing''
      | ConfigPopulated k \<Rightarrow> ''config for non-declared kind '' @ go_quote k @ '' is populated''
      | SourceHasInputs \<Rightarrow> ''source op must have zero inputs''
      | UnionNeedsTwo \<Rightarrow> ''union requires at least two inputs''
      | OneInput k n \<Rightarrow> ''kind '' @ go_quote k @ '' requires exactly one input, got '' @ show_nat n
      | UnknownInput i \<Rightarrow> ''references unknown op id '' @ go_quote i
      | SelfReference \<Rightarrow> ''self-reference''
      | MustNotBeEmpty \<Rightarrow> ''must be non-empty''
      | AtLeastOneColumn \<Rightarrow> ''must list at least one column''
      | AtLeastOneMapping \<Rightarrow> ''must list at least one mapping''
      | AtLeastOneCast \<Rightarrow> ''must list at least one cast''
      | AtLeastOneAggregation \<Rightarrow> ''must list at least one aggregation''
      | DuplicateColumn c \<Rightarrow> ''duplicate column name '' @ go_quote c
      | FromToEmpty \<Rightarrow> ''from and to must be non-empty''
      | TargetKindEmpty \<Rightarrow> ''target type kind must be non-empty''
      | UnknownFunction f \<Rightarrow> ''unknown function '' @ go_quote f
      | RequiresSource f \<Rightarrow> ''function '' @ go_quote f @ '' requires source_column''
      | TargetColumnEmpty \<Rightarrow> ''target_column must be non-empty''
      | DuplicateTarget t \<Rightarrow> ''duplicate target column '' @ go_quote t
      | DuplicateGroupKey g \<Rightarrow> ''duplicate group key '' @ go_quote g
      | LimitNotPositive \<Rightarrow> ''must be > 0''
      | UnknownMode w \<Rightarrow> ''unknown mode '' @ go_quote w
      | NoSource \<Rightarrow> ''plan has no source op (read_table)''
      | NoTerminal \<Rightarrow> ''plan has no terminal op (write_table)''
      | CycleDetected \<Rightarrow> ''cycle detected'')"

definition validation_error_text :: "validation_error \<Rightarrow> string" where
  "validation_error_text e =
     (if ve_op_id e \<noteq> [] \<and> ve_field e \<noteq> [] then
        ''op '' @ go_quote (ve_op_id e) @ '' field '' @ go_quote (ve_field e) @ '': '' @ finding_text (ve_message e)
      else if ve_op_id e \<noteq> [] then ''op '' @ go_quote (ve_op_id e) @ '': '' @ finding_text (ve_message e)
      else finding_text (ve_message e))"

definition validation_errors_text :: "validation_error list \<Rightarrow> string" where
  "validation_errors_text es = join_with ''; '' (map validation_error_text es)"

text \<open>The sentinel a finding wraps: \<^verbatim>\<open>ErrEmptyPlan\<close> for the empty plan, nothing otherwise.\<close>

definition wraps_empty_plan :: "validation_error \<Rightarrow> bool" where
  "wraps_empty_plan e \<longleftrightarrow> ve_message e = EmptyPlan"

abbreviation found :: "string \<Rightarrow> string \<Rightarrow> finding_message \<Rightarrow> validation_error" where
  "found i f m \<equiv> \<lparr>ve_op_id = i, ve_field = f, ve_message = m\<rparr>"

definition blank :: "string \<Rightarrow> bool" where
  "blank s \<longleftrightarrow> trim_space s = []"

section \<open>The checks\<close>

text \<open>The \<^verbatim>\<open>present\<close> map.\<close>

definition present :: "op \<Rightarrow> string \<Rightarrow> bool" where
  "present x k \<longleftrightarrow>
     (if k = kind_read_table then op_read_table x \<noteq> None
      else if k = kind_filter then op_filter x \<noteq> None
      else if k = kind_project then op_project x \<noteq> None
      else if k = kind_rename then op_rename x \<noteq> None
      else if k = kind_cast then op_cast x \<noteq> None
      else if k = kind_aggregate then op_aggregate x \<noteq> None
      else if k = kind_union then op_union x \<noteq> None
      else if k = kind_limit then op_limit x \<noteq> None
      else if k = kind_write_table then op_write_table x \<noteq> None
      else False)"

definition validate_kind_and_config :: "string list \<Rightarrow> op \<Rightarrow> validation_error list" where
  "validate_kind_and_config order x =
     (if \<not> is_kind (op_kind x) then [found (op_id x) ''kind'' (UnknownKind (op_kind x))]
      else (if \<not> present x (op_kind x) then [found (op_id x) (op_kind x) ConfigMissing] else []) @
           map (\<lambda>k. found (op_id x) k (ConfigPopulated k)) (filter (\<lambda>k. present x k \<and> k \<noteq> op_kind x) order))"

text \<open>The keys of the \<^verbatim>\<open>ids\<close> map with the index of each, newest first.\<close>

type_synonym id_index = "(string \<times> nat) list"

definition known_id :: "id_index \<Rightarrow> string \<Rightarrow> bool" where
  "known_id ids i \<longleftrightarrow> map_of ids i \<noteq> None"

definition inputs_field :: string where "inputs_field = ''inputs''"

fun validate_references :: "string \<Rightarrow> id_index \<Rightarrow> string list \<Rightarrow> validation_error list" where
  "validate_references i ids [] = []"
| "validate_references i ids (x # xs) =
     (if \<not> known_id ids x then [found i inputs_field (UnknownInput x)] else []) @
     (if x = i then [found i inputs_field SelfReference] else []) @
     validate_references i ids xs"

definition validate_inputs :: "op \<Rightarrow> id_index \<Rightarrow> validation_error list" where
  "validate_inputs x ids =
     (if op_source x then
        (if op_inputs x \<noteq> [] then [found (op_id x) inputs_field SourceHasInputs] else [])
      else if op_kind x = kind_union then
        (if length (op_inputs x) < 2 then [found (op_id x) inputs_field UnionNeedsTwo] else [])
      else
        (if length (op_inputs x) \<noteq> 1 then
           [found (op_id x) inputs_field (OneInput (op_kind x) (length (op_inputs x)))]
         else [])) @
     validate_references (op_id x) ids (op_inputs x)"

definition must_non_empty :: "string \<Rightarrow> string \<Rightarrow> string \<Rightarrow> validation_error list" where
  "must_non_empty i field v = (if blank v then [found i field MustNotBeEmpty] else [])"

text \<open>A field with an index, \<^verbatim>\<open>project.columns[3].name\<close>.\<close>

definition indexed :: "string \<Rightarrow> nat \<Rightarrow> string \<Rightarrow> string" where
  "indexed prefix n suffix = prefix @ CHR ''['' # show_nat n @ CHR '']'' # suffix"

fun check_columns :: "string \<Rightarrow> nat \<Rightarrow> string list \<Rightarrow> project_column list \<Rightarrow> validation_error list" where
  "check_columns i n seen [] = []"
| "check_columns i n seen (c # cs) =
     (if blank (pc_name c) then
        found i (indexed ''project.columns'' n ''.name'') MustNotBeEmpty # check_columns i (Suc n) seen cs
      else
        (if pc_name c \<in> set seen then
           [found i (indexed ''project.columns'' n ''.name'') (DuplicateColumn (pc_name c))]
         else []) @ check_columns i (Suc n) (pc_name c # seen) cs)"

fun check_mapping :: "string \<Rightarrow> nat \<Rightarrow> column_pair list \<Rightarrow> validation_error list" where
  "check_mapping i n [] = []"
| "check_mapping i n (m # ms) =
     (if blank (cp_from m) \<or> blank (cp_to m) then [found i (indexed ''rename.mapping'' n []) FromToEmpty] else []) @
     check_mapping i (Suc n) ms"

fun check_casts :: "string \<Rightarrow> nat \<Rightarrow> column_cast list \<Rightarrow> validation_error list" where
  "check_casts i n [] = []"
| "check_casts i n (c # cs) =
     (if blank (cc_column c) then [found i (indexed ''cast.casts'' n ''.column'') MustNotBeEmpty] else []) @
     (if cc_to_kind c = [] then [found i (indexed ''cast.casts'' n ''.to.kind'') TargetKindEmpty] else []) @
     check_casts i (Suc n) cs"

fun check_aggregations :: "string \<Rightarrow> nat \<Rightarrow> string list \<Rightarrow> aggregation_func list \<Rightarrow> validation_error list" where
  "check_aggregations i n targets [] = []"
| "check_aggregations i n targets (a # as) =
     (if \<not> is_aggregation (af_function a) then
        [found i (indexed ''aggregate.aggregations'' n ''.function'') (UnknownFunction (af_function a))]
      else []) @
     (if af_function a \<noteq> count_name \<and> blank (af_source_column a) then
        [found i (indexed ''aggregate.aggregations'' n ''.source_column'') (RequiresSource (af_function a))]
      else []) @
     (if blank (af_target_column a) then
        found i (indexed ''aggregate.aggregations'' n ''.target_column'') TargetColumnEmpty #
        check_aggregations i (Suc n) targets as
      else
        (if af_target_column a \<in> set targets then
           [found i (indexed ''aggregate.aggregations'' n ''.target_column'') (DuplicateTarget (af_target_column a))]
         else []) @ check_aggregations i (Suc n) (af_target_column a # targets) as)"

fun check_group_keys :: "string \<Rightarrow> nat \<Rightarrow> string list \<Rightarrow> string list \<Rightarrow> validation_error list" where
  "check_group_keys i n keys [] = []"
| "check_group_keys i n keys (g # gs) =
     (if blank g then
        found i (indexed ''aggregate.group_by'' n []) MustNotBeEmpty # check_group_keys i (Suc n) keys gs
      else
        (if g \<in> set keys then [found i (indexed ''aggregate.group_by'' n []) (DuplicateGroupKey g)] else []) @
        check_group_keys i (Suc n) (g # keys) gs)"

text \<open>The switch over the kind; a missing configuration has been reported already.\<close>

definition validate_op_invariants :: "op \<Rightarrow> validation_error list" where
  "validate_op_invariants x =
     (if op_kind x = kind_read_table then
        (case op_read_table x of None \<Rightarrow> []
         | Some r \<Rightarrow>
             must_non_empty (op_id x) ''read_table.catalog'' (rt_catalog r) @
             must_non_empty (op_id x) ''read_table.namespace'' (rt_namespace r) @
             must_non_empty (op_id x) ''read_table.table'' (rt_table r))
      else if op_kind x = kind_filter then
        (case op_filter x of None \<Rightarrow> [] | Some f \<Rightarrow> must_non_empty (op_id x) ''filter.expr'' (fl_expr f))
      else if op_kind x = kind_project then
        (case op_project x of None \<Rightarrow> []
         | Some cs \<Rightarrow>
             (if cs = [] then [found (op_id x) ''project.columns'' AtLeastOneColumn] else []) @
             check_columns (op_id x) 0 [] cs)
      else if op_kind x = kind_rename then
        (case op_rename x of None \<Rightarrow> []
         | Some ms \<Rightarrow>
             (if ms = [] then [found (op_id x) ''rename.mapping'' AtLeastOneMapping] else []) @
             check_mapping (op_id x) 0 ms)
      else if op_kind x = kind_cast then
        (case op_cast x of None \<Rightarrow> []
         | Some cs \<Rightarrow>
             (if cs = [] then [found (op_id x) ''cast.casts'' AtLeastOneCast] else []) @
             check_casts (op_id x) 0 cs)
      else if op_kind x = kind_aggregate then
        (case op_aggregate x of None \<Rightarrow> []
         | Some a \<Rightarrow>
             (if ag_aggregations a = [] then
                [found (op_id x) ''aggregate.aggregations'' AtLeastOneAggregation] else []) @
             check_aggregations (op_id x) 0 [] (ag_aggregations a) @
             check_group_keys (op_id x) 0 [] (ag_group_by a))
      else if op_kind x = kind_limit then
        (case op_limit x of None \<Rightarrow> []
         | Some n \<Rightarrow> if n \<le> 0 then [found (op_id x) ''limit.n'' LimitNotPositive] else [])
      else if op_kind x = kind_write_table then
        (case op_write_table x of None \<Rightarrow> []
         | Some w \<Rightarrow>
             must_non_empty (op_id x) ''write_table.catalog'' (wt_catalog w) @
             must_non_empty (op_id x) ''write_table.namespace'' (wt_namespace w) @
             must_non_empty (op_id x) ''write_table.table'' (wt_table w) @
             (if \<not> is_write_mode (wt_mode w) then
                [found (op_id x) ''write_table.mode'' (UnknownMode (wt_mode w))] else []))
      else [])"

section \<open>The cycle search\<close>

datatype colour = White | Gray | Black

type_synonym colours = "string \<Rightarrow> colour"

definition op_at :: "op list \<Rightarrow> id_index \<Rightarrow> string \<Rightarrow> op" where
  "op_at ops ids i = ops ! (case map_of ids i of None \<Rightarrow> 0 | Some n \<Rightarrow> n)"

definition whites :: "id_index \<Rightarrow> colours \<Rightarrow> nat" where
  "whites ids col = card {i. known_id ids i \<and> col i = White}"

text \<open>
  \<^verbatim>\<open>visit\<close> and its loop over the inputs. The colours are threaded through; the result is the id found, or the
  empty string.
\<close>

function visit :: "op list \<Rightarrow> id_index \<Rightarrow> colours \<Rightarrow> string \<Rightarrow> string \<times> colours"
  and visit_inputs :: "op list \<Rightarrow> id_index \<Rightarrow> colours \<Rightarrow> string list \<Rightarrow> string \<times> colours" where
  "visit ops ids col i =
     (if col i = Gray then (i, col)
      else if col i = Black then ([], col)
      else (case visit_inputs ops ids (col(i := Gray)) (op_inputs (op_at ops ids i)) of
              (c, col') \<Rightarrow> if c \<noteq> [] then (c, col') else ([], col'(i := Black))))"
| "visit_inputs ops ids col [] = ([], col)"
| "visit_inputs ops ids col (x # xs) =
     (if \<not> known_id ids x then visit_inputs ops ids col xs
      else (case visit ops ids col x of
              (c, col') \<Rightarrow> if c \<noteq> [] then (c, col') else visit_inputs ops ids col' xs))"
  by pat_completeness auto

lemma finite_known: "finite {i. known_id ids i \<and> P i}"
proof (rule finite_subset)
  show "{i. known_id ids i \<and> P i} \<subseteq> fst ` set ids"
    by (auto simp: known_id_def map_of_eq_None_iff)
qed simp

text \<open>No call makes a node white again; this bounds the nested recursion.\<close>

lemma visit_whites:
  "(visit_visit_inputs_dom (Inl (ops, ids, col, i)) \<Longrightarrow> \<forall>j. snd (visit ops ids col i) j = White \<longrightarrow> col j = White)"
  "(visit_visit_inputs_dom (Inr (ops, ids, col, xs)) \<Longrightarrow> \<forall>j. snd (visit_inputs ops ids col xs) j = White \<longrightarrow> col j = White)"
proof (induction ops ids col i and ops ids col xs rule: visit_visit_inputs.pinduct)
  case (1 ops ids col i)
  show ?case
  proof (cases "col i = White")
    case True
    obtain c col' where r: "visit_inputs ops ids (col(i := Gray)) (op_inputs (op_at ops ids i)) = (c, col')"
      by fastforce
    have "\<forall>j. col' j = White \<longrightarrow> (col(i := Gray)) j = White"
      using 1(2) True r by (simp del: fun_upd_apply)
    then have "\<forall>j. col' j = White \<longrightarrow> col j = White"
      by (metis colour.distinct(1) fun_upd_apply)
    then show ?thesis
      by (simp add: visit.psimps [OF 1(1)] True r)
  next
    case False
    then show ?thesis
      by (cases "col i") (simp_all add: visit.psimps [OF 1(1)])
  qed
next
  case (2 ops ids col)
  then show ?case by (simp add: visit_inputs.psimps)
next
  case (3 ops ids col x xs)
  obtain c col' where r: "visit ops ids col x = (c, col')"
    by fastforce
  show ?case
  proof (cases "known_id ids x")
    case True
    with 3(3) r have "\<forall>j. col' j = White \<longrightarrow> col j = White"
      by simp
    moreover have "\<forall>j. snd (visit_inputs ops ids col' xs) j = White \<longrightarrow> col' j = White" if "c = []"
      using 3(4) True r that by simp
    ultimately show ?thesis
      using True by (simp add: visit_inputs.psimps(2) [OF 3(1)] r)
  next
    case False
    with 3(2) show ?thesis
      by (simp add: visit_inputs.psimps(2) [OF 3(1)])
  qed
qed

lemma whites_mono:
  assumes "\<And>j. col' j = White \<Longrightarrow> col j = White"
  shows "whites ids col' \<le> whites ids col"
  unfolding whites_def by (rule card_mono [OF finite_known]) (use assms in auto)

lemma whites_mark:
  assumes "col i = White" and "c \<noteq> White"
  shows "whites ids (col(i := c)) + (if known_id ids i then 1 else 0) \<le> whites ids col"
proof (cases "known_id ids i")
  case True
  define W where "W = {j. known_id ids j \<and> col j = White}"
  have "{j. known_id ids j \<and> (col(i := c)) j = White} = W - {i}"
    using assms(2) by (auto simp: W_def)
  moreover have "card (W - {i}) < card W"
    by (rule card_Diff1_less) (simp_all add: W_def finite_known True assms(1))
  ultimately show ?thesis
    using True by (simp add: whites_def flip: W_def)
next
  case False
  with assms(2) show ?thesis
    by (auto intro!: whites_mono split: if_splits)
qed

termination visit
proof (relation "measures [
    \<lambda>x. case x of Inl (ops, ids, col, i) \<Rightarrow> whites ids col | Inr (ops, ids, col, xs) \<Rightarrow> whites ids col,
    \<lambda>x. case x of Inl (ops, ids, col, i) \<Rightarrow> if known_id ids i then 1 else 3 | Inr _ \<Rightarrow> 2,
    \<lambda>x. case x of Inl _ \<Rightarrow> 0 | Inr (ops, ids, col, xs) \<Rightarrow> length xs]", goal_cases)
  case 1
  show ?case by simp
next
  case (2 ops ids col i)
  then have "col i = White"
    by (cases "col i") simp_all
  then show ?case
    using whites_mark [of col i Gray ids] by (auto split: if_splits)
next
  case (3 ops ids col x xs)
  then show ?case by simp
next
  case (4 ops ids col x xs)
  then show ?case by simp
next
  case (5 ops ids col x xs c col')
  then have "visit ops ids col x = (c, col')"
    by simp
  with visit_whites(1) [of ops ids col x] 5 have "whites ids col' \<le> whites ids col"
    by (intro whites_mono) (metis snd_conv)
  then show ?case by (auto simp: le_less)
qed

declare visit.simps [simp del]

text \<open>The outer loop of \<^verbatim>\<open>findCycle\<close>.\<close>

fun find_cycle_from :: "op list \<Rightarrow> id_index \<Rightarrow> colours \<Rightarrow> op list \<Rightarrow> string" where
  "find_cycle_from ops ids col [] = []"
| "find_cycle_from ops ids col (x # xs) =
     (if col (op_id x) \<noteq> White then find_cycle_from ops ids col xs
      else (case visit ops ids col (op_id x) of
              (c, col') \<Rightarrow> if c \<noteq> [] then c else find_cycle_from ops ids col' xs))"

definition find_cycle :: "op list \<Rightarrow> id_index \<Rightarrow> string" where
  "find_cycle ops ids = find_cycle_from ops ids (\<lambda>_. White) ops"

section \<open>The validator\<close>

text \<open>The first loop: the index of the ids, and the findings on missing and repeated ids.\<close>

fun index_ids :: "nat \<Rightarrow> id_index \<Rightarrow> op list \<Rightarrow> id_index \<times> validation_error list" where
  "index_ids n ids [] = (ids, [])"
| "index_ids n ids (x # xs) =
     (if blank (op_id x) then
        (case index_ids (Suc n) ids xs of (ids', es) \<Rightarrow> (ids', found [] ''id'' (EmptyId n) # es))
      else if known_id ids (op_id x) then
        (case index_ids (Suc n) ids xs of (ids', es) \<Rightarrow> (ids', found (op_id x) ''id'' DuplicateId # es))
      else index_ids (Suc n) ((op_id x, n) # ids) xs)"

definition validate_op :: "string list \<Rightarrow> id_index \<Rightarrow> op \<Rightarrow> validation_error list" where
  "validate_op order ids x =
     (if \<not> known_id ids (op_id x) then []
      else validate_kind_and_config order x @ validate_inputs x ids @ validate_op_invariants x)"

fun validate_ops :: "(nat \<Rightarrow> string list) \<Rightarrow> id_index \<Rightarrow> nat \<Rightarrow> op list \<Rightarrow> validation_error list" where
  "validate_ops order ids n [] = []"
| "validate_ops order ids n (x # xs) = validate_op (order n) ids x @ validate_ops order ids (Suc n) xs"

definition validate :: "(nat \<Rightarrow> string list) \<Rightarrow> plan \<Rightarrow> validation_error list" where
  "validate order p =
     (if pl_ops p = [] then [found [] [] EmptyPlan]
      else
        (let (ids, es) = index_ids 0 [] (pl_ops p);
             known_ops = filter (\<lambda>x. known_id ids (op_id x)) (pl_ops p);
             es = es @ validate_ops order ids 0 (pl_ops p) @
               (if \<not> list_ex op_source known_ops then [found [] [] NoSource] else []) @
               (if \<not> list_ex op_terminal known_ops then [found [] [] NoTerminal] else []);
             cycle = (if es = [] then find_cycle (pl_ops p) ids else [])
         in es @ (if cycle \<noteq> [] then [found cycle [] CycleDetected] else [])))"

end
