(* ===== verification/Pipeline_Plan_Proofs.thy ===== *)
theory Pipeline_Plan_Proofs
  imports Pipeline_Plan "HOL-Library.Multiset"
begin

text \<open>
  The validator accepts exactly the well-formed plans: the depth-first search answers with an id exactly
  when the inputs form a cycle, and each of the other checks is equivalent to a condition on the plan.
\<close>

section \<open>The cycle search\<close>

text \<open>The graph searched: an edge from an operator to each known input.\<close>

definition input_edges :: "op list \<Rightarrow> id_index \<Rightarrow> (string \<times> string) set" where
  "input_edges ops ids =
     {(a, b). known_id ids a \<and> b \<in> set (op_inputs (op_at ops ids a)) \<and> known_id ids b}"

text \<open>Black nodes are closed under inputs and lie on no cycle.\<close>

definition black_ok :: "op list \<Rightarrow> id_index \<Rightarrow> colours \<Rightarrow> bool" where
  "black_ok ops ids col \<longleftrightarrow>
     (\<forall>a b. col a = Black \<longrightarrow> (a, b) \<in> input_edges ops ids \<longrightarrow> col b = Black) \<and>
     (\<forall>a. col a = Black \<longrightarrow> (a, a) \<notin> (input_edges ops ids)\<^sup>+)"

text \<open>Every gray node other than the current one leads to it.\<close>

definition gray_path :: "op list \<Rightarrow> id_index \<Rightarrow> colours \<Rightarrow> string \<Rightarrow> bool" where
  "gray_path ops ids col i \<longleftrightarrow> (\<forall>g. col g = Gray \<longrightarrow> (g, i) \<in> (input_edges ops ids)\<^sup>+)"

definition settled :: "colours \<Rightarrow> colours \<Rightarrow> bool" where
  "settled col col' \<longleftrightarrow> (\<forall>j. (col' j = Gray \<longleftrightarrow> col j = Gray) \<and> (col j = Black \<longrightarrow> col' j = Black))"

definition searched ::
  "op list \<Rightarrow> id_index \<Rightarrow> colours \<Rightarrow> string list \<Rightarrow> string \<times> colours \<Rightarrow> bool" where
  "searched ops ids col is r \<longleftrightarrow>
     (if fst r \<noteq> [] then (fst r, fst r) \<in> (input_edges ops ids)\<^sup>+
      else black_ok ops ids (snd r) \<and> settled col (snd r) \<and>
        (\<forall>i \<in> set is. known_id ids i \<longrightarrow> snd r i = Black))"

lemma settled_refl [simp]: "settled col col"
  by (simp add: settled_def)

lemma settled_trans: "settled a b \<Longrightarrow> settled b c \<Longrightarrow> settled a c"
  by (simp add: settled_def)

lemma black_closed:
  "(a, b) \<in> (input_edges ops ids)\<^sup>+ \<Longrightarrow> black_ok ops ids col \<Longrightarrow> col a = Black \<Longrightarrow> col b = Black"
  by (induction rule: trancl_induct) (auto simp: black_ok_def)

text \<open>A node may be blackened once its inputs are black.\<close>

lemma blacken:
  assumes ok: "black_ok ops ids col" and gray: "col i = Gray"
    and black: "\<And>b. (i, b) \<in> input_edges ops ids \<Longrightarrow> col b = Black"
  shows "black_ok ops ids (col(i := Black))"
  unfolding black_ok_def
proof (intro conjI allI impI)
  fix a b
  assume "(col(i := Black)) a = Black" and "(a, b) \<in> input_edges ops ids"
  then show "(col(i := Black)) b = Black"
    using ok black by (cases "a = i") (auto simp: black_ok_def)
next
  fix a
  assume a: "(col(i := Black)) a = Black"
  show "(a, a) \<notin> (input_edges ops ids)\<^sup>+"
  proof (cases "a = i")
    case True
    show ?thesis
    proof
      assume "(a, a) \<in> (input_edges ops ids)\<^sup>+"
      with True obtain b where "(i, b) \<in> input_edges ops ids" and "(b, i) \<in> (input_edges ops ids)\<^sup>*"
        by (metis tranclD)
      with black have "col b = Black" by blast
      with gray have "b \<noteq> i" by auto
      with \<open>(b, i) \<in> (input_edges ops ids)\<^sup>*\<close> have "(b, i) \<in> (input_edges ops ids)\<^sup>+"
        by (simp add: rtrancl_eq_or_trancl)
      with black_closed [OF _ ok] \<open>col b = Black\<close> gray show False by fastforce
    qed
  next
    case False
    with a ok show ?thesis by (simp add: black_ok_def)
  qed
qed

lemma visit_searched:
  "known_id ids i \<Longrightarrow> i \<noteq> [] \<Longrightarrow> black_ok ops ids col \<Longrightarrow> gray_path ops ids col i \<Longrightarrow>
   (\<And>j. known_id ids j \<Longrightarrow> j \<noteq> []) \<Longrightarrow> searched ops ids col [i] (visit ops ids col i)"
  "black_ok ops ids col \<Longrightarrow> (\<And>x. x \<in> set xs \<Longrightarrow> known_id ids x \<Longrightarrow> gray_path ops ids col x) \<Longrightarrow>
   (\<And>j. known_id ids j \<Longrightarrow> j \<noteq> []) \<Longrightarrow> searched ops ids col xs (visit_inputs ops ids col xs)"
proof (induction ops ids col i and ops ids col xs rule: visit_visit_inputs.induct)
  case (1 ops ids col i)
  let ?E = "input_edges ops ids"
  let ?xs = "op_inputs (op_at ops ids i)"
  show ?case
  proof (cases "col i")
    case Gray
    with 1(3,5) show ?thesis
      by (simp add: visit.simps searched_def gray_path_def)
  next
    case Black
    with 1(4) show ?thesis
      by (simp add: visit.simps searched_def)
  next
    case White
    obtain c col' where r: "visit_inputs ops ids (col(i := Gray)) ?xs = (c, col')"
      by fastforce
    have marked: "black_ok ops ids (col(i := Gray))"
      using 1(4) White by (auto simp: black_ok_def)
    have path: "gray_path ops ids (col(i := Gray)) x" if "x \<in> set ?xs" "known_id ids x" for x
    proof -
      have "(i, x) \<in> ?E"
        using that 1(2) by (simp add: input_edges_def)
      then show ?thesis
        using 1(5) by (auto simp: gray_path_def intro: trancl_into_trancl)
    qed
    have spec: "searched ops ids (col(i := Gray)) ?xs (c, col')"
      using 1(1) [OF _ _ marked path 1(6)] White unfolding r by (simp del: fun_upd_apply)
    show ?thesis
    proof (cases "c = []")
      case False
      with spec White r show ?thesis by (simp add: visit.simps searched_def)
    next
      case True
      with spec have ok: "black_ok ops ids col'" and settled: "settled (col(i := Gray)) col'"
        and black: "\<And>b. b \<in> set ?xs \<Longrightarrow> known_id ids b \<Longrightarrow> col' b = Black"
        by (simp_all add: searched_def)
      have gray: "col' i = Gray"
        using settled by (simp add: settled_def)
      have "black_ok ops ids (col'(i := Black))"
        using black by (intro blacken [OF ok gray]) (simp add: input_edges_def)
      moreover have "settled col (col'(i := Black))"
        using settled White by (auto simp: settled_def split: if_splits)
      ultimately show ?thesis
        using True White r by (simp add: visit.simps searched_def)
    qed
  qed
next
  case (2 ops ids col)
  then show ?case by (simp add: searched_def)
next
  case (3 ops ids col x xs)
  show ?case
  proof (cases "known_id ids x")
    case False
    with 3 show ?thesis by (simp add: searched_def)
  next
    case True
    obtain c col' where r: "visit ops ids col x = (c, col')"
      by fastforce
    have spec: "searched ops ids col [x] (c, col')"
      using 3(2) [OF _ True] True 3(4-6) r by simp
    show ?thesis
    proof (cases "c = []")
      case False
      with spec True r show ?thesis by (simp add: searched_def)
    next
      case c: True
      with spec True have ok: "black_ok ops ids col'" and settled: "settled col col'" and black: "col' x = Black"
        by (simp_all add: searched_def)
      have "gray_path ops ids col' y" if "y \<in> set xs" "known_id ids y" for y
        using 3(5) [of y] that settled by (auto simp: gray_path_def settled_def)
      then have rest: "searched ops ids col' xs (visit_inputs ops ids col' xs)"
        using 3(3) [OF _ r [symmetric]] True c ok 3(6) by simp
      show ?thesis
      proof (cases "fst (visit_inputs ops ids col' xs) = []")
        case True
        with rest have "black_ok ops ids (snd (visit_inputs ops ids col' xs))"
          and later: "settled col' (snd (visit_inputs ops ids col' xs))"
          and "\<forall>i \<in> set xs. known_id ids i \<longrightarrow> snd (visit_inputs ops ids col' xs) i = Black"
          by (simp_all add: searched_def)
        moreover have "snd (visit_inputs ops ids col' xs) x = Black"
          using later black by (simp add: settled_def)
        ultimately show ?thesis
          using \<open>known_id ids x\<close> r c True settled_trans [OF settled later] by (simp add: searched_def)
      next
        case False
        with rest \<open>known_id ids x\<close> r c show ?thesis by (simp add: searched_def)
      qed
    qed
  qed
qed

lemma find_cycle_from_searched:
  assumes "black_ok ops ids col" and "\<And>j. col j \<noteq> Gray" and ids: "\<And>j. known_id ids j \<Longrightarrow> j \<noteq> []"
    and "\<And>x. x \<in> set xs \<Longrightarrow> known_id ids (op_id x)"
  shows "if find_cycle_from ops ids col xs \<noteq> [] then \<exists>c. (c, c) \<in> (input_edges ops ids)\<^sup>+
    else \<exists>col'. black_ok ops ids col' \<and> settled col col' \<and> (\<forall>x \<in> set xs. col' (op_id x) = Black)"
  using assms
proof (induction xs arbitrary: col)
  case Nil
  then show ?case by (auto intro: exI [of _ col])
next
  case (Cons x xs)
  show ?case
  proof (cases "col (op_id x) = White")
    case False
    with Cons.prems(2) [of "op_id x"] have black: "col (op_id x) = Black"
      by (cases "col (op_id x)") simp_all
    show ?thesis
    proof (cases "find_cycle_from ops ids col xs = []")
      case True
      with Cons.IH [OF Cons.prems(1-3)] Cons.prems(4) obtain col' where "black_ok ops ids col'"
        and "settled col col'" and "\<forall>y \<in> set xs. col' (op_id y) = Black"
        by auto
      with True False black show ?thesis
        by (auto intro!: exI [of _ col'] simp: settled_def)
    next
      case cycle: False
      with Cons.IH [OF Cons.prems(1-3)] Cons.prems(4) False show ?thesis
        by simp
    qed
  next
    case True
    obtain c col' where r: "visit ops ids col (op_id x) = (c, col')"
      by fastforce
    have known: "known_id ids (op_id x)"
      using Cons.prems(4) by simp
    have spec: "searched ops ids col [op_id x] (c, col')"
      using visit_searched(1) [OF known ids [OF known] Cons.prems(1) _ ids] Cons.prems(2) r
      by (simp add: gray_path_def)
    show ?thesis
    proof (cases "c = []")
      case False
      with spec True r show ?thesis by (auto simp: searched_def)
    next
      case c: True
      with spec known have ok: "black_ok ops ids col'" and settled: "settled col col'"
        and black: "col' (op_id x) = Black"
        by (simp_all add: searched_def)
      have "col' j \<noteq> Gray" for j
        using settled Cons.prems(2) by (simp add: settled_def)
      from Cons.IH [OF ok this ids] Cons.prems(4)
      have IH: "if find_cycle_from ops ids col' xs \<noteq> [] then \<exists>c. (c, c) \<in> (input_edges ops ids)\<^sup>+
        else \<exists>col''. black_ok ops ids col'' \<and> settled col' col'' \<and> (\<forall>y \<in> set xs. col'' (op_id y) = Black)"
        by simp
      show ?thesis
      proof (cases "find_cycle_from ops ids col' xs = []")
        case True
        with IH obtain col'' where "black_ok ops ids col''" "settled col' col''"
          "\<forall>y \<in> set xs. col'' (op_id y) = Black"
          by auto
        with \<open>col (op_id x) = White\<close> r c settled black True show ?thesis
          by (auto intro!: exI [of _ col''] intro: settled_trans simp: settled_def)
      next
        case False
        with IH \<open>col (op_id x) = White\<close> r c show ?thesis by auto
      qed
    qed
  qed
qed

lemma find_cycle_iff:
  assumes ids: "\<And>j. known_id ids j \<longleftrightarrow> j \<in> op_id ` set ops" and nonempty: "\<And>j. known_id ids j \<Longrightarrow> j \<noteq> []"
  shows "find_cycle ops ids = [] \<longleftrightarrow> acyclic (input_edges ops ids)"
proof -
  have start: "black_ok ops ids (\<lambda>_. White)"
    by (simp add: black_ok_def)
  have spec: "if find_cycle ops ids \<noteq> [] then \<exists>c. (c, c) \<in> (input_edges ops ids)\<^sup>+
    else \<exists>col'. black_ok ops ids col' \<and> (\<forall>x \<in> set ops. col' (op_id x) = Black)"
    using find_cycle_from_searched [OF start _ nonempty, of ops] ids
    by (auto simp: find_cycle_def split: if_splits)
  show ?thesis
  proof
    assume "find_cycle ops ids = []"
    with spec obtain col' where ok: "black_ok ops ids col'" and black: "\<forall>x \<in> set ops. col' (op_id x) = Black"
      by auto
    show "acyclic (input_edges ops ids)"
      unfolding acyclic_def
    proof (intro allI notI)
      fix a
      assume cycle: "(a, a) \<in> (input_edges ops ids)\<^sup>+"
      then obtain b where "(a, b) \<in> input_edges ops ids"
        by (meson tranclD)
      with ids black have "col' a = Black"
        by (auto simp: input_edges_def)
      with ok cycle show False by (simp add: black_ok_def)
    qed
  next
    assume "acyclic (input_edges ops ids)"
    with spec show "find_cycle ops ids = []"
      by (auto simp: acyclic_def split: if_splits)
  qed
qed

section \<open>Well-formed plans\<close>

definition inputs_ok :: "string set \<Rightarrow> op \<Rightarrow> bool" where
  "inputs_ok ids x \<longleftrightarrow>
     (if op_source x then op_inputs x = []
      else if op_kind x = kind_union then 2 \<le> length (op_inputs x)
      else length (op_inputs x) = 1) \<and>
     set (op_inputs x) \<subseteq> ids \<and> op_id x \<notin> set (op_inputs x)"

definition columns_ok :: "project_column list \<Rightarrow> bool" where
  "columns_ok cs \<longleftrightarrow> cs \<noteq> [] \<and> (\<forall>c \<in> set cs. \<not> blank (pc_name c)) \<and> distinct (map pc_name cs)"

definition mapping_ok :: "column_pair list \<Rightarrow> bool" where
  "mapping_ok ms \<longleftrightarrow> ms \<noteq> [] \<and> (\<forall>m \<in> set ms. \<not> blank (cp_from m) \<and> \<not> blank (cp_to m))"

definition casts_ok :: "column_cast list \<Rightarrow> bool" where
  "casts_ok cs \<longleftrightarrow> cs \<noteq> [] \<and> (\<forall>c \<in> set cs. \<not> blank (cc_column c) \<and> cc_to_kind c \<noteq> [])"

definition aggregate_ok :: "aggregate \<Rightarrow> bool" where
  "aggregate_ok a \<longleftrightarrow>
     ag_aggregations a \<noteq> [] \<and>
     (\<forall>f \<in> set (ag_aggregations a). is_aggregation (af_function f) \<and>
        (af_function f \<noteq> count_name \<longrightarrow> \<not> blank (af_source_column f)) \<and> \<not> blank (af_target_column f)) \<and>
     distinct (map af_target_column (ag_aggregations a)) \<and>
     (\<forall>g \<in> set (ag_group_by a). \<not> blank g) \<and> distinct (ag_group_by a)"

definition all_holds :: "('a \<Rightarrow> bool) \<Rightarrow> 'a option \<Rightarrow> bool" where
  "all_holds P v \<longleftrightarrow> (case v of None \<Rightarrow> True | Some x \<Rightarrow> P x)"

definition config_ok :: "op \<Rightarrow> bool" where
  "config_ok x \<longleftrightarrow>
     all_holds (\<lambda>r. \<not> blank (rt_catalog r) \<and> \<not> blank (rt_namespace r) \<and> \<not> blank (rt_table r)) (op_read_table x) \<and>
     all_holds (\<lambda>f. \<not> blank (fl_expr f)) (op_filter x) \<and> all_holds columns_ok (op_project x) \<and>
     all_holds mapping_ok (op_rename x) \<and> all_holds casts_ok (op_cast x) \<and>
     all_holds aggregate_ok (op_aggregate x) \<and> all_holds (\<lambda>n. 0 < n) (op_limit x) \<and>
     all_holds (\<lambda>w. \<not> blank (wt_catalog w) \<and> \<not> blank (wt_namespace w) \<and> \<not> blank (wt_table w) \<and>
       is_write_mode (wt_mode w)) (op_write_table x)"

definition op_ok :: "string set \<Rightarrow> op \<Rightarrow> bool" where
  "op_ok ids x \<longleftrightarrow>
     is_kind (op_kind x) \<and> (\<forall>k \<in> set all_kinds. present x k \<longleftrightarrow> k = op_kind x) \<and>
     inputs_ok ids x \<and> config_ok x"

definition plan_edges :: "op list \<Rightarrow> (string \<times> string) set" where
  "plan_edges ops = {(a, b). \<exists>x \<in> set ops. op_id x = a \<and> b \<in> set (op_inputs x)}"

definition well_formed_plan :: "plan \<Rightarrow> bool" where
  "well_formed_plan p \<longleftrightarrow>
     pl_ops p \<noteq> [] \<and> (\<forall>x \<in> set (pl_ops p). \<not> blank (op_id x)) \<and> distinct (map op_id (pl_ops p)) \<and>
     (\<forall>x \<in> set (pl_ops p). op_ok (op_id ` set (pl_ops p)) x) \<and>
     (\<exists>x \<in> set (pl_ops p). op_source x) \<and> (\<exists>x \<in> set (pl_ops p). op_terminal x) \<and>
     acyclic (plan_edges (pl_ops p))"

section \<open>Each check against its condition\<close>

lemma all_holds_simps [simp]: "all_holds P None" "all_holds P (Some x) \<longleftrightarrow> P x"
  by (simp_all add: all_holds_def)

lemma check_columns_iff:
  "check_columns i n seen cs = [] \<longleftrightarrow>
     (\<forall>c \<in> set cs. \<not> blank (pc_name c)) \<and> distinct (map pc_name cs) \<and> pc_name ` set cs \<inter> set seen = {}"
  by (induction i n seen cs rule: check_columns.induct) auto

lemma check_mapping_iff:
  "check_mapping i n ms = [] \<longleftrightarrow> (\<forall>m \<in> set ms. \<not> blank (cp_from m) \<and> \<not> blank (cp_to m))"
  by (induction i n ms rule: check_mapping.induct) auto

lemma check_casts_iff:
  "check_casts i n cs = [] \<longleftrightarrow> (\<forall>c \<in> set cs. \<not> blank (cc_column c) \<and> cc_to_kind c \<noteq> [])"
  by (induction i n cs rule: check_casts.induct) auto

lemma check_aggregations_iff:
  "check_aggregations i n targets as = [] \<longleftrightarrow>
     (\<forall>f \<in> set as. is_aggregation (af_function f) \<and>
        (af_function f \<noteq> count_name \<longrightarrow> \<not> blank (af_source_column f)) \<and> \<not> blank (af_target_column f)) \<and>
     distinct (map af_target_column as) \<and> af_target_column ` set as \<inter> set targets = {}"
  by (induction i n targets as rule: check_aggregations.induct) auto

lemma check_group_keys_iff:
  "check_group_keys i n keys gs = [] \<longleftrightarrow>
     (\<forall>g \<in> set gs. \<not> blank g) \<and> distinct gs \<and> set gs \<inter> set keys = {}"
  by (induction i n keys gs rule: check_group_keys.induct) auto

lemma must_non_empty_iff [simp]: "must_non_empty i f v = [] \<longleftrightarrow> \<not> blank v"
  by (simp add: must_non_empty_def)

lemma validate_references_iff:
  "validate_references i ids xs = [] \<longleftrightarrow> (\<forall>x \<in> set xs. known_id ids x) \<and> i \<notin> set xs"
  by (induction xs) auto

lemma validate_inputs_iff:
  "validate_inputs x ids = [] \<longleftrightarrow> inputs_ok {i. known_id ids i} x"
  by (auto simp: validate_inputs_def inputs_ok_def validate_references_iff not_less)

lemma validate_kind_iff:
  assumes "set order = set all_kinds"
  shows "validate_kind_and_config order x = [] \<longleftrightarrow>
    is_kind (op_kind x) \<and> (\<forall>k \<in> set all_kinds. present x k \<longleftrightarrow> k = op_kind x)"
  using assms by (auto simp: validate_kind_and_config_def is_kind_def filter_empty_conv)

lemma kinds_distinct: "distinct all_kinds"
  by (simp add: all_kinds_def kind_names)

text \<open>The configurations present are those of the declared kind, so only its check matters.\<close>

lemma present_iff:
  "present x kind_read_table \<longleftrightarrow> op_read_table x \<noteq> None" "present x kind_filter \<longleftrightarrow> op_filter x \<noteq> None"
  "present x kind_project \<longleftrightarrow> op_project x \<noteq> None" "present x kind_rename \<longleftrightarrow> op_rename x \<noteq> None"
  "present x kind_cast \<longleftrightarrow> op_cast x \<noteq> None" "present x kind_aggregate \<longleftrightarrow> op_aggregate x \<noteq> None"
  "present x kind_union \<longleftrightarrow> op_union x \<noteq> None" "present x kind_limit \<longleftrightarrow> op_limit x \<noteq> None"
  "present x kind_write_table \<longleftrightarrow> op_write_table x \<noteq> None"
  by (simp_all add: present_def kind_names)

lemma kind_neqs:
  "kind_read_table \<noteq> kind_filter" "kind_read_table \<noteq> kind_project" "kind_read_table \<noteq> kind_rename"
  "kind_read_table \<noteq> kind_cast" "kind_read_table \<noteq> kind_aggregate" "kind_read_table \<noteq> kind_union"
  "kind_read_table \<noteq> kind_limit" "kind_read_table \<noteq> kind_write_table"
  "kind_filter \<noteq> kind_project" "kind_filter \<noteq> kind_rename" "kind_filter \<noteq> kind_cast"
  "kind_filter \<noteq> kind_aggregate" "kind_filter \<noteq> kind_union" "kind_filter \<noteq> kind_limit"
  "kind_filter \<noteq> kind_write_table" "kind_project \<noteq> kind_rename" "kind_project \<noteq> kind_cast"
  "kind_project \<noteq> kind_aggregate" "kind_project \<noteq> kind_union" "kind_project \<noteq> kind_limit"
  "kind_project \<noteq> kind_write_table" "kind_rename \<noteq> kind_cast" "kind_rename \<noteq> kind_aggregate"
  "kind_rename \<noteq> kind_union" "kind_rename \<noteq> kind_limit" "kind_rename \<noteq> kind_write_table"
  "kind_cast \<noteq> kind_aggregate" "kind_cast \<noteq> kind_union" "kind_cast \<noteq> kind_limit"
  "kind_cast \<noteq> kind_write_table" "kind_aggregate \<noteq> kind_union" "kind_aggregate \<noteq> kind_limit"
  "kind_aggregate \<noteq> kind_write_table" "kind_union \<noteq> kind_limit" "kind_union \<noteq> kind_write_table"
  "kind_limit \<noteq> kind_write_table"
  by (simp_all add: kind_names)

lemma validate_op_invariants_iff:
  assumes "is_kind (op_kind x)" and "\<forall>k \<in> set all_kinds. present x k \<longleftrightarrow> k = op_kind x"
  shows "validate_op_invariants x = [] \<longleftrightarrow> config_ok x"
proof -
  have absent: "k \<in> set all_kinds \<Longrightarrow> k \<noteq> op_kind x \<Longrightarrow> \<not> present x k" for k
    using assms(2) by blast
  consider "op_kind x = kind_read_table" | "op_kind x = kind_filter" | "op_kind x = kind_project"
    | "op_kind x = kind_rename" | "op_kind x = kind_cast" | "op_kind x = kind_aggregate"
    | "op_kind x = kind_union" | "op_kind x = kind_limit" | "op_kind x = kind_write_table"
    using assms(1) by (auto simp: is_kind_def all_kinds_def)
  then show ?thesis
    by cases (insert absent [of kind_read_table] absent [of kind_filter] absent [of kind_project]
        absent [of kind_rename] absent [of kind_cast] absent [of kind_aggregate] absent [of kind_union]
        absent [of kind_limit] absent [of kind_write_table],
      simp_all add: present_iff all_kinds_def kind_neqs kind_neqs [symmetric] validate_op_invariants_def
        config_ok_def columns_ok_def mapping_ok_def casts_ok_def aggregate_ok_def check_columns_iff
        check_mapping_iff check_casts_iff check_aggregations_iff check_group_keys_iff
        split: option.split, (auto simp: not_le)?)
qed

lemma index_ids_spec:
  assumes "index_ids n ids xs = (ids', es)"
  shows "(known_id ids' j \<longleftrightarrow> known_id ids j \<or> (\<exists>x \<in> set xs. op_id x = j \<and> \<not> blank j)) \<and>
    (es = [] \<longleftrightarrow> (\<forall>x \<in> set xs. \<not> blank (op_id x) \<and> \<not> known_id ids (op_id x)) \<and> distinct (map op_id xs))"
  using assms
proof (induction n ids xs arbitrary: es rule: index_ids.induct)
  case (1 n ids)
  then show ?case by simp
next
  case (2 n ids x xs)
  have known: "known_id ((op_id x, n) # ids) i \<longleftrightarrow> i = op_id x \<or> known_id ids i" for i
    by (simp add: known_id_def)
  show ?case
  proof (cases "blank (op_id x)")
    case True
    with 2(4) obtain es' where "index_ids (Suc n) ids xs = (ids', es')" "es \<noteq> []"
      by (auto split: prod.splits)
    with 2(1) [OF True] True show ?thesis by auto
  next
    case nonblank: False
    show ?thesis
    proof (cases "known_id ids (op_id x)")
      case True
      with nonblank 2(4) obtain es' where "index_ids (Suc n) ids xs = (ids', es')" "es \<noteq> []"
        by (auto split: prod.splits)
      with 2(2) [OF nonblank True] nonblank True show ?thesis by auto
    next
      case False
      with nonblank 2(4) have step: "index_ids (Suc n) ((op_id x, n) # ids) xs = (ids', es)"
        by simp
      have all: "(\<forall>y \<in> set xs. \<not> blank (op_id y) \<and> (op_id y \<noteq> op_id x \<and> \<not> known_id ids (op_id y))) \<longleftrightarrow>
        (\<forall>y \<in> set xs. \<not> blank (op_id y) \<and> \<not> known_id ids (op_id y)) \<and> op_id x \<notin> op_id ` set xs"
        by (metis (no_types, lifting) image_iff)
      have ex: "(\<exists>y \<in> set (x # xs). op_id y = j \<and> \<not> blank j) \<longleftrightarrow> j = op_id x \<or> (\<exists>y \<in> set xs. op_id y = j \<and> \<not> blank j)"
        using nonblank by auto
      show ?thesis
        using 2(3) [OF nonblank False step] nonblank False
        unfolding known ex by (simp add: all) blast
    qed
  qed
qed

text \<open>Once the ids are unique, the index leads from an id to its operator.\<close>

lemma index_ids_at:
  assumes "index_ids n ids xs = (ids', [])" and "k < length xs"
  shows "map_of ids' (op_id (xs ! k)) = Some (n + k)"
  using assms
proof (induction n ids xs arbitrary: k rule: index_ids.induct)
  case (2 n ids x xs)
  then have step: "\<not> blank (op_id x)" "\<not> known_id ids (op_id x)"
    "index_ids (Suc n) ((op_id x, n) # ids) xs = (ids', [])"
    by (auto split: if_splits prod.splits)
  show ?case
  proof (cases k)
    case (Suc j)
    with 2(3) [OF step(1,2,3), of j] 2(5) show ?thesis by simp
  next
    case 0
    have "map_of ids' i = map_of ids i"
      if "index_ids m ids ys = (ids', [])" "known_id ids i" for m ids ids' ys i
      using that
    proof (induction m ids ys rule: index_ids.induct)
      case (2 m ids y ys)
      then show ?case
        by (auto simp: known_id_def split: if_splits prod.splits)
    qed simp
    from this [OF step(3), of "op_id x"] 0 show ?thesis
      by (simp add: known_id_def)
  qed
qed simp

lemma input_edges_eq:
  assumes "index_ids 0 [] ops = (ids, [])" and known: "\<And>j. known_id ids j \<longleftrightarrow> j \<in> op_id ` set ops"
    and refs: "\<forall>x \<in> set ops. set (op_inputs x) \<subseteq> op_id ` set ops"
  shows "input_edges ops ids = plan_edges ops"
proof -
  have at: "op_at ops ids (op_id (ops ! k)) = ops ! k" if "k < length ops" for k
    using index_ids_at [OF assms(1) that] by (simp add: op_at_def)
  have at_op: "op_at ops ids (op_id x) = x" if "x \<in> set ops" for x
    using at that by (auto simp: in_set_conv_nth)
  show ?thesis
    using known refs at_op by (fastforce simp: input_edges_def plan_edges_def)
qed

lemma validate_ops_iff:
  assumes "\<And>i. set (order i) = set all_kinds" and "\<And>j. known_id ids j \<longleftrightarrow> j \<in> I"
    and "\<forall>x \<in> set xs. op_id x \<in> I"
  shows "validate_ops order ids n xs = [] \<longleftrightarrow> (\<forall>x \<in> set xs. op_ok I x)"
  using assms(3)
proof (induction xs arbitrary: n)
  case (Cons x xs)
  have "{i. known_id ids i} = I"
    using assms(2) by auto
  with Cons assms(1,2) show ?case
    by (auto simp: validate_op_def op_ok_def validate_kind_iff validate_inputs_iff validate_op_invariants_iff)
qed simp

text \<open>The findings before the cycle search.\<close>

definition structural_findings :: "(nat \<Rightarrow> string list) \<Rightarrow> plan \<Rightarrow> id_index \<Rightarrow> validation_error list \<Rightarrow> validation_error list" where
  "structural_findings order p ids es =
     es @ validate_ops order ids 0 (pl_ops p) @
     (if \<not> list_ex op_source (filter (\<lambda>x. known_id ids (op_id x)) (pl_ops p)) then [found [] [] NoSource] else []) @
     (if \<not> list_ex op_terminal (filter (\<lambda>x. known_id ids (op_id x)) (pl_ops p)) then [found [] [] NoTerminal] else [])"

lemma validate_unfold:
  assumes "index_ids 0 [] (pl_ops p) = (ids, es)" and "pl_ops p \<noteq> []"
  shows "validate order p =
    (if structural_findings order p ids es \<noteq> [] then structural_findings order p ids es
     else if find_cycle (pl_ops p) ids \<noteq> [] then [found (find_cycle (pl_ops p) ids) [] CycleDetected] else [])"
  using assms(2) unfolding validate_def assms(1) Let_def prod.case structural_findings_def [symmetric]
  by simp

text \<open>
  C14. \<^verbatim>\<open>Validate\<close> is sound and complete for the documented rules: it finds nothing exactly when the plan
  has operators with unique non-blank ids, every operator has a known kind, exactly the configuration of
  that kind with its own conditions met, the right number of inputs, all of them other operators of the
  plan, there are a source and a terminal operator, and the inputs form no cycle. The order in which the map
  of configurations is traversed does not matter.
\<close>

theorem validate_iff_well_formed:
  assumes "\<And>i. set (order i) = set all_kinds"
  shows "validate order p = [] \<longleftrightarrow> well_formed_plan p"
proof (cases "pl_ops p = []")
  case True
  then show ?thesis by (simp add: validate_def well_formed_plan_def)
next
  case False
  let ?ops = "pl_ops p"
  let ?I = "op_id ` set ?ops"
  obtain ids es where index: "index_ids 0 [] ?ops = (ids, es)"
    by fastforce
  have spec: "es = [] \<longleftrightarrow> (\<forall>x \<in> set ?ops. \<not> blank (op_id x)) \<and> distinct (map op_id ?ops)"
    "known_id ids j \<longleftrightarrow> (\<exists>x \<in> set ?ops. op_id x = j \<and> \<not> blank j)" for j
    using index_ids_spec [OF index] by (auto simp: known_id_def)
  show ?thesis
  proof (cases "es = []")
    case False
    with spec(1) \<open>?ops \<noteq> []\<close> show ?thesis
      by (auto simp: validate_unfold [OF index] structural_findings_def well_formed_plan_def)
  next
    case True
    have known: "known_id ids j \<longleftrightarrow> j \<in> ?I" for j
      using spec True by auto
    have nonempty: "j \<noteq> []" if "known_id ids j" for j
      using spec(2) that by (auto simp: blank_def trim_space_def trim_left_def)
    have all_known: "filter (\<lambda>x. known_id ids (op_id x)) ?ops = ?ops"
      by (simp add: filter_id_conv known)
    have ops: "validate_ops order ids 0 ?ops = [] \<longleftrightarrow> (\<forall>x \<in> set ?ops. op_ok ?I x)"
      using validate_ops_iff [OF assms known] by simp
    have cycle: "find_cycle ?ops ids = [] \<longleftrightarrow> acyclic (plan_edges ?ops)" if "\<forall>x \<in> set ?ops. op_ok ?I x"
    proof -
      have "\<forall>x \<in> set ?ops. set (op_inputs x) \<subseteq> ?I"
        using that by (simp add: op_ok_def inputs_ok_def)
      with input_edges_eq [of ?ops ids] index True known have "input_edges ?ops ids = plan_edges ?ops"
        by simp
      with find_cycle_iff [OF known nonempty] show ?thesis by simp
    qed
    show ?thesis
      using \<open>?ops \<noteq> []\<close> True spec(1) ops cycle
      by (auto simp: validate_unfold [OF index] structural_findings_def well_formed_plan_def all_known list_ex_iff)
  qed
qed

definition blank_op :: op where
  "blank_op =
     \<lparr>op_id = [], op_kind = [], op_inputs = [], op_read_table = None, op_filter = None, op_project = None,
      op_rename = None, op_cast = None, op_aggregate = None, op_union = None, op_limit = None,
      op_write_table = None\<rparr>"

text \<open>A plan that reads, keeps ten rows and writes.\<close>

definition sample_plan :: plan where
  "sample_plan =
     \<lparr>pl_pipeline_id = ''p'', pl_run_id = ''r'', pl_ops =
       [blank_op\<lparr>op_id := ''w'', op_kind := kind_write_table, op_inputs := [''l''],
          op_write_table := Some \<lparr>wt_catalog = ''c'', wt_namespace = ''n'', wt_table = ''t'', wt_mode = ''append''\<rparr>\<rparr>,
        blank_op\<lparr>op_id := ''l'', op_kind := kind_limit, op_inputs := [''s''], op_limit := Some 10\<rparr>,
        blank_op\<lparr>op_id := ''s'', op_kind := kind_read_table,
          op_read_table := Some \<lparr>rt_catalog = ''c'', rt_namespace = ''n'', rt_table = ''u''\<rparr>\<rparr>]\<rparr>"

lemma validate_iff_well_formed_witness:
  "validate (\<lambda>_. all_kinds) sample_plan = [] \<and> well_formed_plan sample_plan"
proof -
  have "validate (\<lambda>_. all_kinds) sample_plan = []"
    by code_simp
  with validate_iff_well_formed [of "\<lambda>_. all_kinds" sample_plan] show ?thesis by simp
qed

text \<open>
  The order in which Go happens to traverse the map of configurations changes only the order of the
  findings: \<^verbatim>\<open>Validate\<close> reports the same findings, each as often, under any two orders.
\<close>

theorem validate_order_independent:
  assumes "\<And>i. mset (order i) = mset (order' i)"
  shows "mset (validate order p) = mset (validate order' p)"
proof (cases "pl_ops p = []")
  case True
  then show ?thesis by (simp add: validate_def)
next
  case False
  obtain ids es where index: "index_ids 0 [] (pl_ops p) = (ids, es)"
    by fastforce
  have "mset (validate_op (order i) ids x) = mset (validate_op (order' i) ids x)" for i x
    using assms by (simp add: validate_op_def validate_kind_and_config_def)
  then have "mset (validate_ops order ids n xs) = mset (validate_ops order' ids n xs)" for n xs
    by (induction xs arbitrary: n) simp_all
  then have *: "mset (structural_findings order p ids es) = mset (structural_findings order' p ids es)"
    by (simp add: structural_findings_def)
  then have "structural_findings order p ids es = [] \<longleftrightarrow> structural_findings order' p ids es = []"
    by (metis mset_zero_iff)
  with * show ?thesis
    by (simp add: validate_unfold [OF index False])
qed

text \<open>A plan whose only operator declares no kind and carries two configurations.\<close>

definition stray_plan :: plan where
  "stray_plan =
     \<lparr>pl_pipeline_id = ''p'', pl_run_id = ''r'', pl_ops =
       [blank_op\<lparr>op_id := ''x'', op_kind := kind_union, op_filter := Some \<lparr>fl_expr = ''e''\<rparr>,
          op_limit := Some 1\<rparr>]\<rparr>"

lemma validate_order_independent_witness:
  "mset (validate (\<lambda>_. all_kinds) stray_plan) = mset (validate (\<lambda>_. rev all_kinds) stray_plan) \<and>
   length (validate (\<lambda>_. all_kinds) stray_plan) = 6"
proof
  show "mset (validate (\<lambda>_. all_kinds) stray_plan) = mset (validate (\<lambda>_. rev all_kinds) stray_plan)"
    by (rule validate_order_independent) simp
  show "length (validate (\<lambda>_. all_kinds) stray_plan) = 6"
    by code_simp
qed

end
