(* ===== verification/Expr_Types.thy ===== *)
theory Expr_Types
  imports Json
begin

text \<open>
  The type lattice of the pipeline expression language, \<^verbatim>\<open>libs/pipeline-expression/types.go\<close>. A
  \<^verbatim>\<open>PipelineType\<close> has one of eleven kinds; an array may lack its inner type (the nil pointer). A value
  with another kind string, such as the zero value, is \<open>TOther\<close>.
\<close>

section \<open>Types\<close>

datatype ptype =
    TBoolean
  | TInteger
  | TLong
  | TDouble
  | TDecimal
  | TString
  | TDate
  | TTimestamp
  | TGeometry
  | TArray "ptype option"
  | TStruct "(string \<times> ptype) list"
  | TOther string

fun is_numeric :: "ptype \<Rightarrow> bool" where
  "is_numeric TInteger = True"
| "is_numeric TLong = True"
| "is_numeric TDouble = True"
| "is_numeric TDecimal = True"
| "is_numeric _ = False"

definition is_textual :: "ptype \<Rightarrow> bool" where
  "is_textual t \<longleftrightarrow> t = TString"

definition is_temporal :: "ptype \<Rightarrow> bool" where
  "is_temporal t \<longleftrightarrow> t = TDate \<or> t = TTimestamp"

text \<open>\<^verbatim>\<open>Equal\<close> recurses through arrays and, field by field, through structs.\<close>

fun type_equal :: "ptype \<Rightarrow> ptype \<Rightarrow> bool"
  and fields_equal :: "(string \<times> ptype) list \<Rightarrow> (string \<times> ptype) list \<Rightarrow> bool" where
  "type_equal TBoolean u \<longleftrightarrow> u = TBoolean"
| "type_equal TInteger u \<longleftrightarrow> u = TInteger"
| "type_equal TLong u \<longleftrightarrow> u = TLong"
| "type_equal TDouble u \<longleftrightarrow> u = TDouble"
| "type_equal TDecimal u \<longleftrightarrow> u = TDecimal"
| "type_equal TString u \<longleftrightarrow> u = TString"
| "type_equal TDate u \<longleftrightarrow> u = TDate"
| "type_equal TTimestamp u \<longleftrightarrow> u = TTimestamp"
| "type_equal TGeometry u \<longleftrightarrow> u = TGeometry"
| "type_equal (TOther k) u \<longleftrightarrow> u = TOther k"
| "type_equal (TArray None) u \<longleftrightarrow> u = TArray None"
| "type_equal (TArray (Some t)) u \<longleftrightarrow> (case u of TArray (Some u') \<Rightarrow> type_equal t u' | _ \<Rightarrow> False)"
| "type_equal (TStruct fs) u \<longleftrightarrow>
     (case u of TStruct gs \<Rightarrow> length fs = length gs \<and> fields_equal fs gs | _ \<Rightarrow> False)"
| "fields_equal [] gs \<longleftrightarrow> True"
| "fields_equal ((n, t) # fs) gs \<longleftrightarrow>
     (case gs of [] \<Rightarrow> False | (m, u) # gs' \<Rightarrow> n = m \<and> type_equal t u \<and> fields_equal fs gs')"

fun numeric_rank :: "ptype \<Rightarrow> nat option" where
  "numeric_rank TInteger = Some 0"
| "numeric_rank TLong = Some 1"
| "numeric_rank TDouble = Some 2"
| "numeric_rank TDecimal = Some 3"
| "numeric_rank _ = None"

function can_promote :: "ptype \<Rightarrow> ptype \<Rightarrow> bool" where
  "can_promote t u \<longleftrightarrow>
     (if type_equal t u then True
      else (case (numeric_rank t, numeric_rank u) of
              (Some a, Some b) \<Rightarrow> a \<le> b
            | _ \<Rightarrow>
                if t = TDate \<and> u = TTimestamp then True
                else (case (t, u) of
                        (TArray (Some t'), TArray (Some u')) \<Rightarrow> can_promote t' u'
                      | _ \<Rightarrow> False)))"
  by pat_completeness auto
termination can_promote
  by (relation "measure (\<lambda>(t, u). size t)") auto

declare can_promote.simps [simp del]

function promote :: "ptype \<Rightarrow> ptype \<Rightarrow> ptype option" where
  "promote t u =
     (if type_equal t u then Some t
      else (case (numeric_rank t, numeric_rank u) of
              (Some a, Some b) \<Rightarrow> Some (if b \<le> a then t else u)
            | _ \<Rightarrow>
                if t = TDate \<and> u = TTimestamp \<or> t = TTimestamp \<and> u = TDate then Some TTimestamp
                else (case (t, u) of
                        (TArray (Some t'), TArray (Some u')) \<Rightarrow>
                          (case promote t' u' of None \<Rightarrow> None | Some i \<Rightarrow> Some (TArray (Some i)))
                      | _ \<Rightarrow> None)))"
  by pat_completeness auto
termination promote
  by (relation "measure (\<lambda>(t, u). size t)") auto

declare promote.simps [simp del]

section \<open>The wire format\<close>

definition kind_field :: string where "kind_field = ''kind''"
definition inner_field :: string where "inner_field = ''inner''"
definition fields_field :: string where "fields_field = ''fields''"

definition missing_inner :: string where
  "missing_inner = ''pipelineexpression: ARRAY type missing inner''"

text \<open>The \<^verbatim>\<open>Kind\<close> constants.\<close>

fun kind_name :: "ptype \<Rightarrow> string" where
  "kind_name TBoolean = ''BOOLEAN''"
| "kind_name TInteger = ''INTEGER''"
| "kind_name TLong = ''LONG''"
| "kind_name TDouble = ''DOUBLE''"
| "kind_name TDecimal = ''DECIMAL''"
| "kind_name TString = ''STRING''"
| "kind_name TDate = ''DATE''"
| "kind_name TTimestamp = ''TIMESTAMP''"
| "kind_name TGeometry = ''GEOMETRY''"
| "kind_name (TArray _) = ''ARRAY''"
| "kind_name (TStruct _) = ''STRUCT''"
| "kind_name (TOther k) = k"

fun marshal_type :: "ptype \<Rightarrow> string + json"
  and marshal_fields :: "(string \<times> ptype) list \<Rightarrow> string + json list" where
  "marshal_type (TArray None) = Inl missing_inner"
| "marshal_type (TArray (Some t)) =
     and_then (marshal_type t) (\<lambda>j. Inr (JObj [(kind_field, JStr ''ARRAY''), (inner_field, j)]))"
| "marshal_type (TStruct fs) =
     and_then (marshal_fields fs) (\<lambda>js. Inr (JObj [(kind_field, JStr ''STRUCT''), (fields_field, JArr js)]))"
| "marshal_type t = Inr (JObj [(kind_field, JStr (kind_name t))])"
| "marshal_fields [] = Inr []"
| "marshal_fields ((n, t) # fs) =
     and_then (marshal_type t) (\<lambda>j. and_then (marshal_fields fs) (\<lambda>js. Inr (JArr [JStr n, j] # js)))"

text \<open>The kinds without a payload.\<close>

definition plain_types :: "ptype list" where
  "plain_types = [TBoolean, TInteger, TLong, TDouble, TDecimal, TString, TDate, TTimestamp, TGeometry]"

definition unknown_kind_text :: "string \<Rightarrow> string" where
  "unknown_kind_text k = ''pipelineexpression: unknown PipelineType kind '' @ CHR 0x22 # k @ [CHR 0x22]"

text \<open>An array of two raw messages: missing items stay empty, further items are dropped.\<close>

fun dec_pair :: "json \<Rightarrow> string + json option \<times> json option" where
  "dec_pair (JArr []) = Inr (None, None)"
| "dec_pair (JArr [a]) = Inr (Some a, None)"
| "dec_pair (JArr (a # b # _)) = Inr (Some a, Some b)"
| "dec_pair JNull = Inr (None, None)"
| "dec_pair _ = Inl wrong_kind"

definition unexpected_end :: string where
  "unexpected_end = ''unexpected end of JSON input''"

lemma and_then_cong [fundef_cong]:
  "r = r' \<Longrightarrow> (\<And>x. r' = Inr x \<Longrightarrow> f x = g x) \<Longrightarrow> and_then r f = and_then r' g"
  by (cases r') simp_all

lemma dec_obj_size: "dec_obj j = Inr kvs \<Longrightarrow> (k, v) \<in> set kvs \<Longrightarrow> size v < size j"
  using size_list_estimation' [of "(k, v)" kvs "size v" "size_prod (\<lambda>_. 0) size"]
  by (cases j) auto

lemma json_field_size:
  assumes "dec_obj j = Inr kvs" and "json_field k kvs \<noteq> JNull"
  shows "size (json_field k kvs) < size j"
proof -
  obtain v where "map_of (rev kvs) k = Some v" and v: "json_field k kvs = v"
    using assms(2) by (auto simp: json_field_def split: option.splits)
  then have "(k, v) \<in> set kvs"
    by (auto dest: map_of_SomeD)
  with dec_obj_size [OF assms(1)] v show ?thesis by simp
qed

fun has_field :: "string \<Rightarrow> (string \<times> json) list \<Rightarrow> bool" where
  "has_field k kvs = (k \<in> fst ` set kvs)"

text \<open>
  A missing inner type leaves the zero value for \<^verbatim>\<open>ArrayOf\<close> to wrap; an explicit null is decoded like any
  document and refused for its empty kind.
\<close>

function unmarshal_type :: "json \<Rightarrow> string + ptype"
  and unmarshal_fields :: "json list \<Rightarrow> string + (string \<times> ptype) list" where
  "unmarshal_type j =
     and_then (dec_obj j) (\<lambda>kvs.
     and_then (dec_str (json_field kind_field kvs)) (\<lambda>kind.
       case find (\<lambda>t. kind_name t = kind) plain_types of
         Some t \<Rightarrow> Inr t
       | None \<Rightarrow>
           if kind = ''ARRAY'' then
             (if \<not> has_field inner_field kvs then Inr (TArray (Some (TOther [])))
              else if json_field inner_field kvs = JNull then Inl (unknown_kind_text [])
              else and_then (unmarshal_type (json_field inner_field kvs)) (\<lambda>t. Inr (TArray (Some t))))
           else if kind = ''STRUCT'' then
             (case json_field fields_field kvs of
                JNull \<Rightarrow> Inr (TStruct [])
              | JArr js \<Rightarrow> and_then (unmarshal_fields js) (\<lambda>fs. Inr (TStruct fs))
              | _ \<Rightarrow> Inl wrong_kind)
           else Inl (unknown_kind_text kind)))"
| "unmarshal_fields [] = Inr []"
| "unmarshal_fields (j # js) =
     and_then (dec_pair j) (\<lambda>(a, b).
     and_then (case a of None \<Rightarrow> Inl unexpected_end | Some a' \<Rightarrow> dec_str a') (\<lambda>name.
     and_then (case b of None \<Rightarrow> Inl unexpected_end | Some b' \<Rightarrow> unmarshal_type b') (\<lambda>t.
     and_then (unmarshal_fields js) (\<lambda>fs. Inr ((name, t) # fs)))))"
  by pat_completeness auto
termination unmarshal_type
proof (relation "measure (\<lambda>x. case x of Inl j \<Rightarrow> size j | Inr js \<Rightarrow> size_list size js)", goal_cases)
  case 1
  show ?case by simp
next
  case (2 j kvs kind)
  then show ?case
    using json_field_size [of j kvs inner_field] by simp
next
  case (3 j kvs kind js)
  then have "size (json_field fields_field kvs) < size j"
    by (intro json_field_size) simp_all
  with 3 show ?case by simp
next
  case (4 j js ab a b name b')
  then have "size b' < size j"
    by (cases j rule: dec_pair.cases) auto
  then show ?case by simp
next
  case (5 j js)
  then show ?case by simp
qed

declare unmarshal_type.simps [simp del]

section \<open>Names\<close>

fun type_name :: "ptype \<Rightarrow> string" and field_names :: "(string \<times> ptype) list \<Rightarrow> string list" where
  "type_name TBoolean = ''Boolean''"
| "type_name TInteger = ''Integer''"
| "type_name TLong = ''Long''"
| "type_name TDouble = ''Double''"
| "type_name TDecimal = ''Decimal''"
| "type_name TString = ''String''"
| "type_name TDate = ''Date''"
| "type_name TTimestamp = ''Timestamp''"
| "type_name TGeometry = ''Geometry''"
| "type_name (TOther _) = []"
| "type_name (TArray None) = ''Array<?>''"
| "type_name (TArray (Some t)) = ''Array<'' @ type_name t @ ''>''"
| "type_name (TStruct fs) = ''Struct<'' @ join_with '', '' (field_names fs) @ ''>''"
| "field_names [] = []"
| "field_names ((n, t) # fs) = (n @ '': '' @ type_name t) # field_names fs"

end
