(* ===== verification/Expr_Types_Proofs.thy ===== *)
theory Expr_Types_Proofs
  imports Expr_Types
begin

text \<open>
  Promotion is a partial order with least upper bounds, and the wire format of types is read back.
\<close>

section \<open>Promotion\<close>

lemma type_equal_iff [simp]: "type_equal t u \<longleftrightarrow> t = u"
  and fields_equal_iff: "length fs = length gs \<Longrightarrow> fields_equal fs gs \<longleftrightarrow> fs = gs"
  by (induction t u and fs gs rule: type_equal_fields_equal.induct)
    (auto split: ptype.splits option.splits list.splits)

lemma numeric_rank_inj: "numeric_rank t = Some a \<Longrightarrow> numeric_rank u = Some a \<Longrightarrow> t = u"
  by (cases t; cases u) auto

lemma numeric_rank_array [simp]: "numeric_rank (TArray x) = None"
  by (cases x) simp_all

lemma can_promote_iff:
  "can_promote t u \<longleftrightarrow>
     t = u \<or> (\<exists>a b. numeric_rank t = Some a \<and> numeric_rank u = Some b \<and> a \<le> b) \<or>
     t = TDate \<and> u = TTimestamp \<or>
     (\<exists>t' u'. t = TArray (Some t') \<and> u = TArray (Some u') \<and> can_promote t' u')"
  by (subst can_promote.simps) (auto split: option.splits ptype.splits)

lemma can_promote_refl [simp]: "can_promote t t"
  by (simp add: can_promote_iff [of t t])

lemma can_promote_array [simp]:
  "can_promote (TArray (Some t)) u \<longleftrightarrow> (\<exists>u'. u = TArray (Some u') \<and> can_promote t u')"
  "can_promote t (TArray (Some u)) \<longleftrightarrow> (\<exists>t'. t = TArray (Some t') \<and> can_promote t' u)"
  by (auto simp: can_promote_iff [of "TArray (Some t)" u] can_promote_iff [of t "TArray (Some u)"])

text \<open>Induction through matching array types.\<close>

lemma array_induct:
  assumes "\<And>t u. (\<And>t' u'. t = TArray (Some t') \<Longrightarrow> u = TArray (Some u') \<Longrightarrow> P t' u') \<Longrightarrow> P t u"
  shows "P t u"
proof (induction t arbitrary: u rule: measure_induct_rule [where f = size])
  case (less t)
  show ?case
  proof (rule assms)
    fix t' u'
    assume "t = TArray (Some t')"
    then have "size t' < size t" by simp
    then show "P t' u'" by (rule less)
  qed
qed

lemma can_promote_trans: "can_promote t u \<Longrightarrow> can_promote u v \<Longrightarrow> can_promote t v"
proof (induction t u arbitrary: v rule: array_induct)
  case (1 t u)
  show ?case
  proof (cases "\<exists>t' u'. t = TArray (Some t') \<and> u = TArray (Some u') \<and> t \<noteq> u")
    case True
    then obtain t' u' where tu: "t = TArray (Some t')" "u = TArray (Some u')" "t \<noteq> u"
      by blast
    with 1(3) obtain v' where "v = TArray (Some v')" "can_promote u' v'"
      using can_promote_array(1) by blast
    with tu 1(1) [OF tu(1,2)] 1(2) show ?thesis by simp
  next
    case False
    with 1(2) consider "t = u" | a b where "numeric_rank t = Some a" "numeric_rank u = Some b" "a \<le> b"
      | "t = TDate" "u = TTimestamp"
      by (auto simp: can_promote_iff [of t u])
    then show ?thesis
    proof cases
      case 2
      with 1(3) show ?thesis
        by (auto simp: can_promote_iff [of u v] can_promote_iff [of t v])
    qed (use 1(3) in \<open>auto simp: can_promote_iff [of TTimestamp v] can_promote_iff [of TDate v]
        can_promote_iff [of TDate TTimestamp]\<close>)
  qed
qed

lemma can_promote_antisym: "can_promote t u \<Longrightarrow> can_promote u t \<Longrightarrow> t = u"
proof (induction t u rule: array_induct)
  case (1 t u)
  show ?case
  proof (cases "\<exists>t' u'. t = TArray (Some t') \<and> u = TArray (Some u') \<and> t \<noteq> u")
    case True
    then obtain t' u' where "t = TArray (Some t')" "u = TArray (Some u')" "t \<noteq> u"
      by blast
    with 1(1) [of t' u'] 1(2,3) show ?thesis by simp
  next
    case False
    with 1(2,3) show ?thesis
      by (auto simp: can_promote_iff [of t u] can_promote_iff [of u t] dest: numeric_rank_inj)
  qed
qed

lemma promote_cases:
  "promote t u =
     (if t = u then Some t
      else if numeric_rank t \<noteq> None \<and> numeric_rank u \<noteq> None then
        Some (if the (numeric_rank u) \<le> the (numeric_rank t) then t else u)
      else if t = TDate \<and> u = TTimestamp \<or> t = TTimestamp \<and> u = TDate then Some TTimestamp
      else (case (t, u) of
              (TArray (Some t'), TArray (Some u')) \<Rightarrow> map_option (\<lambda>i. TArray (Some i)) (promote t' u')
            | _ \<Rightarrow> None))"
  by (subst promote.simps) (auto split: option.splits ptype.splits)

lemma promote_core:
  "case promote t u of
     None \<Rightarrow> \<nexists>w. can_promote t w \<and> can_promote u w
   | Some v \<Rightarrow> can_promote t v \<and> can_promote u v \<and> {w. can_promote t w \<and> can_promote u w} = {w. can_promote v w}"
proof (induction t u rule: array_induct)
  case (1 t u)
  consider (eq) "t = u" | (num) a b where "t \<noteq> u" "numeric_rank t = Some a" "numeric_rank u = Some b"
    | (time) "t = TDate \<and> u = TTimestamp \<or> t = TTimestamp \<and> u = TDate"
    | (arr) t' u' where "t \<noteq> u" "t = TArray (Some t')" "u = TArray (Some u')"
    | (none) "t \<noteq> u" "numeric_rank t = None \<or> numeric_rank u = None"
        "\<not> (t = TDate \<and> u = TTimestamp \<or> t = TTimestamp \<and> u = TDate)"
        "\<nexists>t' u'. t = TArray (Some t') \<and> u = TArray (Some u')"
    by (metis option.exhaust)
  then show ?case
  proof cases
    case eq
    have "promote u u = Some u"
      by (subst promote_cases) simp
    with eq show ?thesis by simp
  next
    case num
    then have "can_promote t u \<longleftrightarrow> a \<le> b" "can_promote u t \<longleftrightarrow> b \<le> a"
      by (auto simp: can_promote_iff [of t u] can_promote_iff [of u t])
    with num show ?thesis
      by (auto simp: promote_cases [of t u] intro: can_promote_trans)
  next
    case time
    then show ?thesis
      by (auto simp: promote_cases [of t u] can_promote_iff [of TDate] can_promote_iff [of TTimestamp])
  next
    case arr
    have IH: "case promote t' u' of
       None \<Rightarrow> \<nexists>w. can_promote t' w \<and> can_promote u' w
     | Some v \<Rightarrow> can_promote t' v \<and> can_promote u' v \<and> {w. can_promote t' w \<and> can_promote u' w} = {w. can_promote v w}"
      using 1 [OF arr(2,3)] .
    show ?thesis
    proof (cases "promote t' u'")
      case None
      have "promote t u = None"
        using arr(1) None unfolding arr(2,3) by (subst promote_cases) simp
      with IH None arr show ?thesis by auto
    next
      case (Some v)
      with IH have v: "can_promote t' v" "can_promote u' v"
        "\<And>w. can_promote t' w \<and> can_promote u' w \<longleftrightarrow> can_promote v w"
        by auto
      have "promote t u = Some (TArray (Some v))"
        using arr(1) Some unfolding arr(2,3) by (subst promote_cases) simp
      with arr v(1,2) show ?thesis
        by (auto simp flip: v(3))
    qed
  next
    case none
    then have "promote t u = None"
      by (auto simp: promote_cases [of t u] split: ptype.splits option.splits)
    moreover have "\<not> (can_promote t w \<and> can_promote u w)" for w
      using none by (auto simp: can_promote_iff [of t w] can_promote_iff [of u w] dest: numeric_rank_inj)
    ultimately show ?thesis by simp
  qed
qed

text \<open>Comparable types and their common supertypes, for the scalar types.\<close>

lemma boolean_promotes_only_to_itself:
  "can_promote TBoolean t \<longleftrightarrow> t = TBoolean" "can_promote t TBoolean \<longleftrightarrow> t = TBoolean"
  by (cases t; auto simp: can_promote_iff [of TBoolean] can_promote_iff [of _ TBoolean])+

text \<open>
  C15. \<^verbatim>\<open>CanPromote\<close> is a partial order on the types and \<^verbatim>\<open>Promote\<close> computes the least upper bounds in it: a
  type it returns can be reached from both sides and from it every other common supertype can be reached,
  and it fails only when there is no common supertype at all. The numeric types form the chain integer,
  long, double, decimal; a boolean is comparable to no other type, so it has no common supertype with a
  number, although the comment of the type puts it below the integers.
\<close>

theorem promote_least_upper_bound:
  "reflp can_promote \<and> antisymp can_promote \<and> transp can_promote \<and>
   (case promote t u of
      None \<Rightarrow> \<nexists>w. can_promote t w \<and> can_promote u w
    | Some v \<Rightarrow> can_promote t v \<and> can_promote u v \<and>
        {w. can_promote t w \<and> can_promote u w} = {w. can_promote v w}) \<and>
   can_promote TInteger TLong \<and> can_promote TLong TDouble \<and> can_promote TDouble TDecimal \<and>
   {t. can_promote TBoolean t \<or> can_promote t TBoolean} = {TBoolean} \<and> promote TBoolean TInteger = None"
proof -
  have "promote TBoolean TInteger = None"
    using promote_core [of TBoolean TInteger] boolean_promotes_only_to_itself can_promote_iff [of TInteger]
    by (auto split: option.splits)
  moreover have "reflp can_promote" "antisymp can_promote" "transp can_promote"
    by (auto intro: reflpI antisympI transpI can_promote_antisym can_promote_trans)
  moreover have "can_promote TInteger TLong" "can_promote TLong TDouble" "can_promote TDouble TDecimal"
    by (simp_all add: can_promote_iff [of TInteger] can_promote_iff [of TLong] can_promote_iff [of TDouble])
  ultimately show ?thesis
    using promote_core [of t u] by (simp add: boolean_promotes_only_to_itself)
qed

section \<open>The wire format\<close>

text \<open>Types built by the constructors: no array without inner type, no other kinds.\<close>

fun complete_type :: "ptype \<Rightarrow> bool" where
  "complete_type (TArray None) = False"
| "complete_type (TArray (Some t)) = complete_type t"
| "complete_type (TStruct fs) = list_all (\<lambda>(n, t). complete_type t) fs"
| "complete_type (TOther _) = False"
| "complete_type _ = True"

lemma json_fields [simp]:
  "json_field k [] = JNull"
  "json_field kind_field [(kind_field, a), (inner_field, b)] = a"
  "json_field inner_field [(kind_field, a), (inner_field, b)] = b"
  "json_field kind_field [(kind_field, a), (fields_field, b)] = a"
  "json_field fields_field [(kind_field, a), (fields_field, b)] = b"
  "json_field kind_field [(kind_field, a)] = a"
  "has_field inner_field [(kind_field, a), (inner_field, b)]"
  by (simp_all add: json_field_def kind_field_def inner_field_def fields_field_def)

lemma plain_kinds: "list_all (\<lambda>t. find (\<lambda>u. kind_name u = kind_name t) plain_types = Some t) plain_types"
  by code_simp

lemma plain_kind: "t \<in> set plain_types \<Longrightarrow> find (\<lambda>u. kind_name u = kind_name t) plain_types = Some t"
  using plain_kinds by (simp add: list_all_iff)

lemma container_kinds:
  "find (\<lambda>u. kind_name u = ''ARRAY'') plain_types = None"
  "find (\<lambda>u. kind_name u = ''STRUCT'') plain_types = None"
  by code_simp+

lemma unmarshal_plain:
  assumes "t \<in> set plain_types"
  shows "unmarshal_type (JObj [(kind_field, JStr (kind_name t))]) = Inr t"
  by (subst unmarshal_type.simps) (simp add: plain_kind [OF assms])

lemma plain_in [simp]: "t \<in> set plain_types \<longleftrightarrow> t \<notin> range TArray \<and> t \<notin> range TStruct \<and> t \<notin> range TOther"
  by (cases t) (auto simp: plain_types_def)

lemmas unmarshal_plain_simps =
  unmarshal_plain [of TBoolean, simplified kind_name.simps]
  unmarshal_plain [of TInteger, simplified kind_name.simps]
  unmarshal_plain [of TLong, simplified kind_name.simps]
  unmarshal_plain [of TDouble, simplified kind_name.simps]
  unmarshal_plain [of TDecimal, simplified kind_name.simps]
  unmarshal_plain [of TString, simplified kind_name.simps]
  unmarshal_plain [of TDate, simplified kind_name.simps]
  unmarshal_plain [of TTimestamp, simplified kind_name.simps]
  unmarshal_plain [of TGeometry, simplified kind_name.simps]

lemma marshal_not_null: "marshal_type t = Inr j \<Longrightarrow> j \<noteq> JNull"
  by (elim marshal_type.elims) (auto simp: and_then_def split: sum.splits)

lemma type_round_trip_core:
  "complete_type t \<Longrightarrow> \<exists>j. marshal_type t = Inr j \<and> unmarshal_type j = Inr t"
  "list_all (\<lambda>(n, t). complete_type t) fs \<Longrightarrow> \<exists>js. marshal_fields fs = Inr js \<and> unmarshal_fields js = Inr fs"
proof (induction t and fs rule: marshal_type_marshal_fields.induct)
  case (2 t)
  then obtain j where "marshal_type t = Inr j" "unmarshal_type j = Inr t"
    by auto
  with marshal_not_null [of t j] show ?case
    by (simp add: unmarshal_type.simps(1) [of "JObj _"] container_kinds)
next
  case (3 fs)
  then obtain js where "marshal_fields fs = Inr js" "unmarshal_fields js = Inr fs"
    by auto
  then show ?case
    by (simp add: unmarshal_type.simps(1) [of "JObj _"] container_kinds)
next
  case (6 n t fs)
  then obtain j js where "marshal_type t = Inr j" "unmarshal_type j = Inr t" "marshal_fields fs = Inr js"
    "unmarshal_fields js = Inr fs"
    by auto
  then show ?case
    by (simp add: unmarshal_type.simps)
qed (simp_all add: unmarshal_plain_simps image_iff)

text \<open>
  Every type the constructors build is written as JSON and read back unchanged, through any nesting of
  arrays and structs.
\<close>

theorem type_round_trip:
  "complete_type t \<Longrightarrow> \<exists>j. marshal_type t = Inr j \<and> unmarshal_type j = Inr t"
  by (rule type_round_trip_core)

lemma type_round_trip_witness:
  "\<exists>j. marshal_type (TArray (Some (TStruct [(''a'', TDate), (''b'', TArray (Some TLong))]))) = Inr j \<and>
     unmarshal_type j = Inr (TArray (Some (TStruct [(''a'', TDate), (''b'', TArray (Some TLong))])))"
  by (rule type_round_trip) simp

text \<open>
  The decoder accepts an array type without its inner type and makes it an array of the zero type, which
  is written back as a document the decoder refuses.
\<close>

theorem array_without_inner_accepted:
  "unmarshal_type (JObj [(kind_field, JStr ''ARRAY'')]) = Inr (TArray (Some (TOther []))) \<and>
   (\<exists>j. marshal_type (TArray (Some (TOther []))) = Inr j \<and> unmarshal_type j = Inl (unknown_kind_text []))"
proof
  show "unmarshal_type (JObj [(kind_field, JStr ''ARRAY'')]) = Inr (TArray (Some (TOther [])))"
    by (subst unmarshal_type.simps) (simp add: container_kinds, simp add: kind_field_def inner_field_def)
  have "unmarshal_type (JObj [(kind_field, JStr [])]) = Inl (unknown_kind_text [])"
    by (subst unmarshal_type.simps) (simp add: plain_types_def)
  then show "\<exists>j. marshal_type (TArray (Some (TOther []))) = Inr j \<and> unmarshal_type j = Inl (unknown_kind_text [])"
    by (simp add: unmarshal_type.simps(1) [of "JObj [(kind_field, JStr ''ARRAY''), (inner_field, j)]" for j] container_kinds)
qed

end
