(* ===== verification/Float64.thy ===== *)
theory Float64
  imports Prelude
begin

text \<open>
  The 64-bit floating-point numbers of Go, and signed 64-bit integers. HOL has no IEEE arithmetic: the numbers
  have some type \<open>'d\<close>, and the arithmetic of the machine and the functions of \<^verbatim>\<open>math\<close> and \<^verbatim>\<open>strconv\<close> that
  the modelled code calls are the fields of a record, a parameter of the definitions that use them. Nothing is
  assumed of them.
\<close>

record 'd float64 =
  fl_parse :: "string \<Rightarrow> 'd option"
  fl_const :: "string \<Rightarrow> 'd"
  fl_of_int :: "64 word \<Rightarrow> 'd"
  fl_to_int :: "'d \<Rightarrow> 64 word"
  fl_neg :: "'d \<Rightarrow> 'd"
  fl_abs :: "'d \<Rightarrow> 'd"
  fl_add :: "'d \<Rightarrow> 'd \<Rightarrow> 'd"
  fl_sub :: "'d \<Rightarrow> 'd \<Rightarrow> 'd"
  fl_mul :: "'d \<Rightarrow> 'd \<Rightarrow> 'd"
  fl_div :: "'d \<Rightarrow> 'd \<Rightarrow> 'd"
  fl_less :: "'d \<Rightarrow> 'd \<Rightarrow> bool"
  fl_eq :: "'d \<Rightarrow> 'd \<Rightarrow> bool"
  fl_is_nan :: "'d \<Rightarrow> bool"
  fl_is_inf :: "'d \<Rightarrow> bool"
  fl_trunc :: "'d \<Rightarrow> 'd"
  fl_sin :: "'d \<Rightarrow> 'd"
  fl_cos :: "'d \<Rightarrow> 'd"
  fl_sqrt :: "'d \<Rightarrow> 'd"
  fl_atan2 :: "'d \<Rightarrow> 'd \<Rightarrow> 'd"
  fl_format_f :: "'d \<Rightarrow> string"
  fl_format_g :: "'d \<Rightarrow> string"
  fl_format_12g :: "'d \<Rightarrow> string"

text \<open>\<^verbatim>\<open><=\<close> and \<^verbatim>\<open>>=\<close>, false for a NaN.\<close>

definition fl_le :: "'d float64 \<Rightarrow> 'd \<Rightarrow> 'd \<Rightarrow> bool" where
  "fl_le fl a b \<longleftrightarrow> fl_less fl a b \<or> fl_eq fl a b"

text \<open>\<^verbatim>\<open>%d\<close> of a signed 64-bit number.\<close>

definition show_int64 :: "64 word \<Rightarrow> string" where
  "show_int64 w = (if sint w < 0 then CHR ''-'' # show_nat (nat (- sint w)) else show_nat (nat (sint w)))"

text \<open>\<^verbatim>\<open>strconv.ParseInt(s, 10, 64)\<close>.\<close>

definition parse_int64 :: "string \<Rightarrow> 64 word option" where
  "parse_int64 s =
     (case s of
        [] \<Rightarrow> None
      | c # cs \<Rightarrow>
          if c = CHR ''-'' then
            (if cs \<noteq> [] \<and> list_all is_digit cs \<and> digits_val cs \<le> 2 ^ 63
             then Some (- of_nat (digits_val cs)) else None)
          else map_option of_nat (parse_uint 63 (if c = CHR ''+'' then cs else s)))"

text \<open>Division of signed numbers truncates; the least number by minus one wraps around.\<close>

definition go_quot :: "64 word \<Rightarrow> 64 word \<Rightarrow> 64 word" where
  "go_quot a b =
     (let q = \<bar>sint a\<bar> div \<bar>sint b\<bar> in word_of_int (if (sint a < 0) = (sint b < 0) then q else - q))"

text \<open>An instance for examples: the whole numbers, the transcendental functions left out.\<close>

definition int_float :: "int float64" where
  "int_float =
     \<lparr>fl_parse = (\<lambda>s. map_option sint (parse_int64 s)), fl_const = (\<lambda>_. 1), fl_of_int = sint,
      fl_to_int = word_of_int, fl_neg = uminus, fl_abs = abs, fl_add = (+), fl_sub = (-), fl_mul = (*),
      fl_div = (div), fl_less = (<), fl_eq = (=), fl_is_nan = (\<lambda>_. False), fl_is_inf = (\<lambda>_. False),
      fl_trunc = id, fl_sin = id, fl_cos = id, fl_sqrt = id, fl_atan2 = (\<lambda>a _. a),
      fl_format_f = (\<lambda>n. show_int64 (word_of_int n)), fl_format_g = (\<lambda>n. show_int64 (word_of_int n)),
      fl_format_12g = (\<lambda>n. show_int64 (word_of_int n))\<rparr>"

end
