(* ===== verification/Expr_Parser.thy ===== *)
theory Expr_Parser
  imports Float64
begin

text \<open>
  The lexer, the parser and the printer of the pipeline expression language,
  \<^verbatim>\<open>libs/pipeline-expression/parser.go\<close>. The parser reads a list of tokens; the position in the slice is the
  list of tokens still to be read. Its methods call one another through the parenthesised expressions and the
  arguments of a call: a level gets the parser of whole expressions as an argument, and the fuel of
  \<open>parse_expr\<close> counts the nesting. Each loop has the number of tokens left as its fuel. That the fuel is enough
  is a theorem.

  Double literals have some type \<open>'d\<close> of 64-bit floating-point numbers (theory Float64).
\<close>

section \<open>Expressions\<close>

datatype 'd literal =
    LitBool bool
  | LitInteger "64 word"
  | LitDouble 'd
  | LitString string
  | LitNull

datatype unary_op = UnaryNeg | UnaryNot

datatype binary_op =
    BinaryAdd | BinarySub | BinaryMul | BinaryDiv
  | BinaryEq | BinaryNotEq | BinaryLt | BinaryLte | BinaryGt | BinaryGte
  | BinaryAnd | BinaryOr

datatype 'd expr =
    ExprLit "'d literal"
  | ExprColumn string
  | ExprCall string "'d expr list"
  | ExprUnary unary_op "'d expr"
  | ExprBinary binary_op "'d expr" "'d expr"

definition is_comparison :: "binary_op \<Rightarrow> bool" where
  "is_comparison op \<longleftrightarrow> op \<in> {BinaryEq, BinaryNotEq, BinaryLt, BinaryLte, BinaryGt, BinaryGte}"

definition is_logical :: "binary_op \<Rightarrow> bool" where
  "is_logical op \<longleftrightarrow> op = BinaryAnd \<or> op = BinaryOr"

fun binary_op_name :: "binary_op \<Rightarrow> string" where
  "binary_op_name BinaryAdd = ''Add''"
| "binary_op_name BinarySub = ''Sub''"
| "binary_op_name BinaryMul = ''Mul''"
| "binary_op_name BinaryDiv = ''Div''"
| "binary_op_name BinaryEq = ''Eq''"
| "binary_op_name BinaryNotEq = ''NotEq''"
| "binary_op_name BinaryLt = ''Lt''"
| "binary_op_name BinaryLte = ''Lte''"
| "binary_op_name BinaryGt = ''Gt''"
| "binary_op_name BinaryGte = ''Gte''"
| "binary_op_name BinaryAnd = ''And''"
| "binary_op_name BinaryOr = ''Or''"

section \<open>Errors and tokens\<close>

datatype parse_error =
    UnexpectedEof
  | Unexpected string string nat
  | InvalidNumber string
  | UnterminatedString

definition parse_error_text :: "parse_error \<Rightarrow> string" where
  "parse_error_text e =
     (case e of
        UnexpectedEof \<Rightarrow> ''unexpected end of input''
      | Unexpected found expected offset \<Rightarrow>
          ''unexpected token '' @ [CHR 0x27] @ found @ [CHR 0x27] @ '' at offset '' @ show_nat offset @
          '', expected '' @ expected
      | InvalidNumber n \<Rightarrow> ''invalid numeric literal '' @ [CHR 0x27] @ n @ [CHR 0x27]
      | UnterminatedString \<Rightarrow> ''unterminated string literal'')"

datatype tok =
    TIdent string
  | TNumber string
  | TStr string
  | TLParen | TRParen | TComma | TPlus | TMinus | TStar | TSlash
  | TEq | TNotEq | TLt | TLte | TGt | TGte

type_synonym token = "tok \<times> nat"

fun go_debug_fmt :: "tok \<Rightarrow> string" where
  "go_debug_fmt (TIdent s) = ''Ident('' @ go_quote s @ '')''"
| "go_debug_fmt (TNumber s) = ''Number('' @ go_quote s @ '')''"
| "go_debug_fmt (TStr s) = ''String('' @ go_quote s @ '')''"
| "go_debug_fmt TLParen = ''LParen''"
| "go_debug_fmt TRParen = ''RParen''"
| "go_debug_fmt TComma = ''Comma''"
| "go_debug_fmt TPlus = ''Plus''"
| "go_debug_fmt TMinus = ''Minus''"
| "go_debug_fmt TStar = ''Star''"
| "go_debug_fmt TSlash = ''Slash''"
| "go_debug_fmt TEq = ''Eq''"
| "go_debug_fmt TNotEq = ''NotEq''"
| "go_debug_fmt TLt = ''Lt''"
| "go_debug_fmt TLte = ''Lte''"
| "go_debug_fmt TGt = ''Gt''"
| "go_debug_fmt TGte = ''Gte''"

section \<open>The lexer\<close>

definition is_alpha :: "char \<Rightarrow> bool" where
  "is_alpha c \<longleftrightarrow> (let n = (of_char c :: nat) in 97 \<le> n \<and> n \<le> 122 \<or> 65 \<le> n \<and> n \<le> 90)"

definition is_alphanumeric :: "char \<Rightarrow> bool" where
  "is_alphanumeric c \<longleftrightarrow> is_alpha c \<or> is_digit c"

definition number_char :: "char \<Rightarrow> bool" where
  "number_char c \<longleftrightarrow> is_digit c \<or> c = CHR ''.''"

definition ident_char :: "char \<Rightarrow> bool" where
  "ident_char c \<longleftrightarrow> is_alphanumeric c \<or> c = CHR ''_''"

text \<open>\<^verbatim>\<open>string(rune(b))\<close>: the UTF-8 encoding of the code point.\<close>

definition rune_string :: "char \<Rightarrow> string" where
  "rune_string c =
     (let n = (of_char c :: nat) in
      if n < 128 then [c] else [char_of (192 + n div 64), char_of (128 + n mod 64)])"

definition skip_ws :: "string \<Rightarrow> string" where
  "skip_ws s = dropWhile is_space s"

text \<open>The tokens of one byte.\<close>

definition simple_token :: "char \<Rightarrow> tok option" where
  "simple_token b =
     (if b = CHR ''('' then Some TLParen
      else if b = CHR '')'' then Some TRParen
      else if b = CHR '','' then Some TComma
      else if b = CHR ''+'' then Some TPlus
      else if b = CHR ''-'' then Some TMinus
      else if b = CHR ''*'' then Some TStar
      else if b = CHR ''/'' then Some TSlash
      else if b = CHR ''='' then Some TEq
      else None)"

text \<open>Skip an equals sign, if there is one.\<close>

definition then_equals :: "string \<Rightarrow> string option" where
  "then_equals s = (case s of c # cs \<Rightarrow> if c = CHR ''='' then Some cs else None | [] \<Rightarrow> None)"

text \<open>
  One token from the bytes left: nothing at the end, an error, or the token with the bytes after it. The
  offset is the distance from the end of the input, of length \<open>n\<close>.
\<close>

definition next_token :: "nat \<Rightarrow> string \<Rightarrow> parse_error + (token \<times> string) option" where
  "next_token n s =
     (let rest = skip_ws s; start = n - length rest in
      case rest of
        [] \<Rightarrow> Inr None
      | b # bs \<Rightarrow>
          (case simple_token b of
             Some t \<Rightarrow> Inr (Some ((t, start), bs))
           | None \<Rightarrow>
               if b = CHR ''!'' then
                 (case then_equals bs of
                    Some cs \<Rightarrow> Inr (Some ((TNotEq, start), cs))
                  | None \<Rightarrow> Inl (Unexpected ''!'' ''!='' start))
               else if b = CHR ''<'' then
                 (case then_equals bs of
                    Some cs \<Rightarrow> Inr (Some ((TLte, start), cs))
                  | None \<Rightarrow> Inr (Some ((TLt, start), bs)))
               else if b = CHR ''>'' then
                 (case then_equals bs of
                    Some cs \<Rightarrow> Inr (Some ((TGte, start), cs))
                  | None \<Rightarrow> Inr (Some ((TGt, start), bs)))
               else if b = CHR 0x27 \<or> b = CHR 0x22 then
                 (case dropWhile (\<lambda>c. c \<noteq> b) bs of
                    [] \<Rightarrow> Inl UnterminatedString
                  | _ # after \<Rightarrow> Inr (Some ((TStr (takeWhile (\<lambda>c. c \<noteq> b) bs), start), after)))
               else if number_char b then
                 Inr (Some ((TNumber (takeWhile number_char rest), start), dropWhile number_char rest))
               else if is_alpha b \<or> b = CHR ''_'' then
                 Inr (Some ((TIdent (takeWhile ident_char rest), start), dropWhile ident_char rest))
               else Inl (Unexpected (rune_string b) ''expression token'' start)))"

lemma then_equals_shorter: "then_equals s = Some s' \<Longrightarrow> length s' < Suc (length s)"
  by (auto simp: then_equals_def split: list.splits if_splits)

lemma next_token_shorter:
  assumes "next_token n s = Inr (Some (t, s'))"
  shows "length s' < length s"
proof -
  have skip: "length (skip_ws s) \<le> length s"
    by (simp add: skip_ws_def length_dropWhile_le)
  have drop: "length (dropWhile P (b # bs)) < Suc (length bs)" if "P b" for P and b :: char and bs
    using that length_dropWhile_le [of P bs] by simp
  have quoted: "length cs < Suc (length bs)" if "dropWhile P bs = c # cs" for P and c :: char and bs cs
    using length_dropWhile_le [of P bs] that by simp
  have ident: "is_alpha b \<Longrightarrow> ident_char b" for b
    by (simp add: ident_char_def is_alphanumeric_def)
  obtain b bs where rest: "skip_ws s = b # bs"
    using assms by (cases "skip_ws s") (simp_all add: next_token_def)
  have "length s' < Suc (length bs)"
  proof (cases "simple_token b")
    case (Some t)
    with assms rest show ?thesis by (simp add: next_token_def)
  next
    case None
    note step = assms [unfolded next_token_def Let_def rest list.case None option.case]
    consider "b = CHR ''!''" | "b = CHR ''<''" | "b = CHR ''>''" | "b = CHR 0x27 \<or> b = CHR 0x22"
      | (num) "b \<noteq> CHR ''!''" "b \<noteq> CHR ''<''" "b \<noteq> CHR ''>''" "\<not> (b = CHR 0x27 \<or> b = CHR 0x22)" "number_char b"
      | (id) "b \<noteq> CHR ''!''" "b \<noteq> CHR ''<''" "b \<noteq> CHR ''>''" "\<not> (b = CHR 0x27 \<or> b = CHR 0x22)"
        "\<not> number_char b" "is_alpha b \<or> b = CHR ''_''"
      | (bad) "b \<noteq> CHR ''!''" "b \<noteq> CHR ''<''" "b \<noteq> CHR ''>''" "\<not> (b = CHR 0x27 \<or> b = CHR 0x22)"
        "\<not> number_char b" "\<not> (is_alpha b \<or> b = CHR ''_'')"
      by blast
    then show ?thesis
    proof cases
      case 4
      with step quoted show ?thesis
        by (elim disjE) (auto split: list.splits)
    next
      case num
      with step drop [of number_char b bs] show ?thesis by simp
    next
      case id
      have "ident_char b"
        using id(6) ident by (auto simp: ident_char_def)
      with step id drop [of ident_char b bs] show ?thesis by simp
    next
      case bad
      with step show ?thesis by simp
    qed (use step then_equals_shorter in \<open>auto split: option.splits\<close>)
  qed
  with skip rest show ?thesis by simp
qed

text \<open>The loop of \<^verbatim>\<open>ParseExpr\<close> that collects the tokens.\<close>

function lex_all :: "nat \<Rightarrow> string \<Rightarrow> parse_error + token list" where
  "lex_all n s =
     (case next_token n s of
        Inl e \<Rightarrow> Inl e
      | Inr None \<Rightarrow> Inr []
      | Inr (Some (t, s')) \<Rightarrow> and_then (lex_all n s') (\<lambda>ts. Inr (t # ts)))"
  by pat_completeness auto
termination lex_all
  by (relation "measure (\<lambda>(n, s). length s)") (auto simp: next_token_shorter)

declare lex_all.simps [simp del]

section \<open>The parser\<close>

text \<open>Out of fuel, an error, or the expression with the tokens left.\<close>

type_synonym 'd parsed = "(parse_error + 'd expr \<times> token list) option"

definition peek_offset :: "token list \<Rightarrow> nat" where
  "peek_offset ts = (case ts of [] \<Rightarrow> 0 | t # _ \<Rightarrow> snd t)"

definition on_parsed :: "'d parsed \<Rightarrow> ('d expr \<Rightarrow> token list \<Rightarrow> 'd parsed) \<Rightarrow> 'd parsed" where
  "on_parsed r f =
     (case r of None \<Rightarrow> None | Some (Inl e) \<Rightarrow> Some (Inl e) | Some (Inr (x, ts)) \<Rightarrow> f x ts)"

definition expect :: "tok \<Rightarrow> string \<Rightarrow> token list \<Rightarrow> parse_error + token list" where
  "expect kind label ts =
     (case ts of
        [] \<Rightarrow> Inl UnexpectedEof
      | (t, _) # rest \<Rightarrow>
          if t \<noteq> kind then Inl (Unexpected (go_debug_fmt t) label (peek_offset rest)) else Inr rest)"

text \<open>The arguments of a call, from the first one on.\<close>

fun parse_args :: "(token list \<Rightarrow> 'd parsed) \<Rightarrow> nat \<Rightarrow> token list \<Rightarrow> (parse_error + 'd expr list \<times> token list) option" where
  "parse_args expr 0 ts = None"
| "parse_args expr (Suc n) ts =
     (case expr ts of
        None \<Rightarrow> None
      | Some (Inl e) \<Rightarrow> Some (Inl e)
      | Some (Inr (x, rest)) \<Rightarrow>
          (case rest of
             (TComma, _) # rest' \<Rightarrow>
               (case parse_args expr n rest' of
                  None \<Rightarrow> None
                | Some (Inl e) \<Rightarrow> Some (Inl e)
                | Some (Inr (xs, rest'')) \<Rightarrow> Some (Inr (x # xs, rest'')))
           | _ \<Rightarrow> Some (Inr ([x], rest))))"

definition parse_number :: "'d float64 \<Rightarrow> string \<Rightarrow> parse_error + 'd literal" where
  "parse_number fl n =
     (if CHR ''.'' \<in> set n then
        (case fl_parse fl n of None \<Rightarrow> Inl (InvalidNumber n) | Some v \<Rightarrow> Inr (LitDouble v))
      else
        (case parse_uint 63 n of None \<Rightarrow> Inl (InvalidNumber n) | Some v \<Rightarrow> Inr (LitInteger (of_nat v))))"

definition parse_primary :: "'d float64 \<Rightarrow> (token list \<Rightarrow> 'd parsed) \<Rightarrow> token list \<Rightarrow> 'd parsed" where
  "parse_primary fl expr ts =
     (case ts of
        [] \<Rightarrow> Some (Inl UnexpectedEof)
      | (TLParen, _) # rest \<Rightarrow>
          on_parsed (expr rest) (\<lambda>inner rest'.
            (case expect TRParen '')'' rest' of
               Inl e \<Rightarrow> Some (Inl e)
             | Inr rest'' \<Rightarrow> Some (Inr (inner, rest''))))
      | (TNumber n, _) # rest \<Rightarrow>
          (case parse_number fl n of
             Inl e \<Rightarrow> Some (Inl e)
           | Inr l \<Rightarrow> Some (Inr (ExprLit l, rest)))
      | (TStr s, _) # rest \<Rightarrow> Some (Inr (ExprLit (LitString s), rest))
      | (TIdent name, _) # rest \<Rightarrow>
          if equal_fold name ''true'' then Some (Inr (ExprLit (LitBool True), rest))
          else if equal_fold name ''false'' then Some (Inr (ExprLit (LitBool False), rest))
          else if equal_fold name ''null'' then Some (Inr (ExprLit LitNull, rest))
          else (case rest of
                  (TLParen, _) # rest1 \<Rightarrow>
                    (case rest1 of
                       (TRParen, _) # rest2 \<Rightarrow> Some (Inr (ExprCall name [], rest2))
                     | _ \<Rightarrow>
                         (case parse_args expr (Suc (length rest1)) rest1 of
                            None \<Rightarrow> None
                          | Some (Inl e) \<Rightarrow> Some (Inl e)
                          | Some (Inr (args, rest2)) \<Rightarrow>
                              (case expect TRParen '')'' rest2 of
                                 Inl e \<Rightarrow> Some (Inl e)
                               | Inr rest3 \<Rightarrow> Some (Inr (ExprCall name args, rest3)))))
                | _ \<Rightarrow> Some (Inr (ExprColumn name, rest)))
      | (t, offset) # _ \<Rightarrow> Some (Inl (Unexpected (go_debug_fmt t) ''primary expression'' offset)))"

fun parse_unary :: "'d float64 \<Rightarrow> (token list \<Rightarrow> 'd parsed) \<Rightarrow> token list \<Rightarrow> 'd parsed" where
  "parse_unary fl expr ((TMinus, i) # ts) =
     on_parsed (parse_unary fl expr ts) (\<lambda>inner rest. Some (Inr (ExprUnary UnaryNeg inner, rest)))"
| "parse_unary fl expr ((TIdent s, i) # ts) =
     (if equal_fold s ''not'' then
        on_parsed (parse_unary fl expr ts) (\<lambda>inner rest. Some (Inr (ExprUnary UnaryNot inner, rest)))
      else parse_primary fl expr ((TIdent s, i) # ts))"
| "parse_unary fl expr ts = parse_primary fl expr ts"

text \<open>A loop that reads operators of one level and operands of the next, to the left.\<close>

fun binary_loop ::
  "(tok \<Rightarrow> binary_op option) \<Rightarrow> (token list \<Rightarrow> 'd parsed) \<Rightarrow> nat \<Rightarrow> 'd expr \<Rightarrow> token list \<Rightarrow> 'd parsed" where
  "binary_loop op_of sub n left [] = Some (Inr (left, []))"
| "binary_loop op_of sub n left (t # ts) =
     (case op_of (fst t) of
        None \<Rightarrow> Some (Inr (left, t # ts))
      | Some op \<Rightarrow>
          (case n of
             0 \<Rightarrow> None
           | Suc m \<Rightarrow>
               on_parsed (sub ts) (\<lambda>right rest. binary_loop op_of sub m (ExprBinary op left right) rest)))"

fun mul_op :: "tok \<Rightarrow> binary_op option" where
  "mul_op TStar = Some BinaryMul"
| "mul_op TSlash = Some BinaryDiv"
| "mul_op _ = None"

fun add_op :: "tok \<Rightarrow> binary_op option" where
  "add_op TPlus = Some BinaryAdd"
| "add_op TMinus = Some BinarySub"
| "add_op _ = None"

fun cmp_op :: "tok \<Rightarrow> binary_op option" where
  "cmp_op TEq = Some BinaryEq"
| "cmp_op TNotEq = Some BinaryNotEq"
| "cmp_op TLt = Some BinaryLt"
| "cmp_op TLte = Some BinaryLte"
| "cmp_op TGt = Some BinaryGt"
| "cmp_op TGte = Some BinaryGte"
| "cmp_op _ = None"

fun and_op :: "tok \<Rightarrow> binary_op option" where
  "and_op (TIdent s) = (if equal_fold s ''and'' then Some BinaryAnd else None)"
| "and_op _ = None"

fun or_op :: "tok \<Rightarrow> binary_op option" where
  "or_op (TIdent s) = (if equal_fold s ''or'' then Some BinaryOr else None)"
| "or_op _ = None"

definition parse_mul :: "'d float64 \<Rightarrow> (token list \<Rightarrow> 'd parsed) \<Rightarrow> token list \<Rightarrow> 'd parsed" where
  "parse_mul fl expr ts =
     on_parsed (parse_unary fl expr ts) (\<lambda>left rest.
       binary_loop mul_op (parse_unary fl expr) (length rest) left rest)"

definition parse_add :: "'d float64 \<Rightarrow> (token list \<Rightarrow> 'd parsed) \<Rightarrow> token list \<Rightarrow> 'd parsed" where
  "parse_add fl expr ts =
     on_parsed (parse_mul fl expr ts) (\<lambda>left rest.
       binary_loop add_op (parse_mul fl expr) (length rest) left rest)"

text \<open>Comparisons do not chain: at most one operator is read.\<close>

definition parse_cmp :: "'d float64 \<Rightarrow> (token list \<Rightarrow> 'd parsed) \<Rightarrow> token list \<Rightarrow> 'd parsed" where
  "parse_cmp fl expr ts =
     on_parsed (parse_add fl expr ts) (\<lambda>left rest.
       (case rest of
          [] \<Rightarrow> Some (Inr (left, rest))
        | t # rest' \<Rightarrow>
            (case cmp_op (fst t) of
               None \<Rightarrow> Some (Inr (left, rest))
             | Some op \<Rightarrow>
                 on_parsed (parse_add fl expr rest') (\<lambda>right rest''.
                   Some (Inr (ExprBinary op left right, rest''))))))"

definition parse_and :: "'d float64 \<Rightarrow> (token list \<Rightarrow> 'd parsed) \<Rightarrow> token list \<Rightarrow> 'd parsed" where
  "parse_and fl expr ts =
     on_parsed (parse_cmp fl expr ts) (\<lambda>left rest.
       binary_loop and_op (parse_cmp fl expr) (length rest) left rest)"

definition parse_or :: "'d float64 \<Rightarrow> (token list \<Rightarrow> 'd parsed) \<Rightarrow> token list \<Rightarrow> 'd parsed" where
  "parse_or fl expr ts =
     on_parsed (parse_and fl expr ts) (\<lambda>left rest.
       binary_loop or_op (parse_and fl expr) (length rest) left rest)"

fun parse_expr :: "'d float64 \<Rightarrow> nat \<Rightarrow> token list \<Rightarrow> 'd parsed" where
  "parse_expr fl 0 ts = None"
| "parse_expr fl (Suc n) ts = parse_or fl (parse_expr fl n) ts"

definition parse_text :: "'d float64 \<Rightarrow> string \<Rightarrow> (parse_error + 'd expr) option" where
  "parse_text fl input =
     (case lex_all (length input) input of
        Inl e \<Rightarrow> Some (Inl e)
      | Inr ts \<Rightarrow>
          (case parse_expr fl (Suc (length ts)) ts of
             None \<Rightarrow> None
           | Some (Inl e) \<Rightarrow> Some (Inl e)
           | Some (Inr (e, [])) \<Rightarrow> Some (Inr e)
           | Some (Inr (e, (t, offset) # _)) \<Rightarrow>
               Some (Inl (Unexpected (go_debug_fmt t) ''end of expression'' offset))))"

section \<open>The printer\<close>

definition has_fractional :: "'d float64 \<Rightarrow> 'd \<Rightarrow> bool" where
  "has_fractional fl d \<longleftrightarrow>
     \<not> fl_eq fl (fl_sub fl d (fl_of_int fl (fl_to_int fl d))) (fl_of_int fl 0)"

definition format_rust_float :: "'d float64 \<Rightarrow> 'd \<Rightarrow> string" where
  "format_rust_float fl d =
     (if fl_eq fl d (fl_of_int fl (fl_to_int fl d)) \<and> \<not> has_fractional fl d then fl_format_f fl d
      else fl_format_g fl d)"

fun write_literal :: "'d float64 \<Rightarrow> 'd literal \<Rightarrow> string" where
  "write_literal fl (LitBool b) = (if b then ''true'' else ''false'')"
| "write_literal fl (LitInteger i) = show_int64 i"
| "write_literal fl (LitDouble d) = format_rust_float fl d"
| "write_literal fl (LitString s) = CHR 0x27 # s @ [CHR 0x27]"
| "write_literal fl LitNull = ''null''"

fun unary_symbol :: "unary_op \<Rightarrow> string" where
  "unary_symbol UnaryNeg = ''-''"
| "unary_symbol UnaryNot = ''not ''"

fun binary_symbol :: "binary_op \<Rightarrow> string" where
  "binary_symbol BinaryAdd = ''+''"
| "binary_symbol BinarySub = ''-''"
| "binary_symbol BinaryMul = ''*''"
| "binary_symbol BinaryDiv = ''/''"
| "binary_symbol BinaryEq = ''=''"
| "binary_symbol BinaryNotEq = ''!=''"
| "binary_symbol BinaryLt = ''<''"
| "binary_symbol BinaryLte = ''<=''"
| "binary_symbol BinaryGt = ''>''"
| "binary_symbol BinaryGte = ''>=''"
| "binary_symbol BinaryAnd = ''and''"
| "binary_symbol BinaryOr = ''or''"

fun write_expr :: "'d float64 \<Rightarrow> 'd expr \<Rightarrow> string" where
  "write_expr fl (ExprLit l) = write_literal fl l"
| "write_expr fl (ExprColumn name) = name"
| "write_expr fl (ExprCall name args) =
     name @ CHR ''('' # join_with '', '' (map (write_expr fl) args) @ '')''"
| "write_expr fl (ExprUnary op e) = unary_symbol op @ write_expr fl e"
| "write_expr fl (ExprBinary op l r) =
     CHR ''('' # write_expr fl l @ CHR '' '' # binary_symbol op @ CHR '' '' # write_expr fl r @ '')''"

end
