(* ===== verification/Expr_Parser_Proofs.thy ===== *)
theory Expr_Parser_Proofs
  imports Expr_Parser
begin

text \<open>
  The parser always returns, what it returns is well-formed, and what the printer writes is parsed back.
\<close>

section \<open>Tokens and expressions that can occur\<close>

definition ident_name :: "string \<Rightarrow> bool" where
  "ident_name s \<longleftrightarrow> s \<noteq> [] \<and> list_all ident_char s \<and> \<not> number_char (hd s)"

definition reserved :: "string \<Rightarrow> bool" where
  "reserved s \<longleftrightarrow>
     equal_fold s ''true'' \<or> equal_fold s ''false'' \<or> equal_fold s ''null'' \<or> equal_fold s ''not''"

definition plain_name :: "string \<Rightarrow> bool" where
  "plain_name s \<longleftrightarrow> ident_name s \<and> \<not> reserved s"

fun tok_ok :: "tok \<Rightarrow> bool" where
  "tok_ok (TIdent s) = ident_name s"
| "tok_ok _ = True"

definition tokens_ok :: "token list \<Rightarrow> bool" where
  "tokens_ok ts \<longleftrightarrow> list_all (\<lambda>t. tok_ok (fst t)) ts"

lemma tokens_ok_simps [simp]: "tokens_ok []" "tokens_ok (t # ts) \<longleftrightarrow> tok_ok (fst t) \<and> tokens_ok ts"
  by (simp_all add: tokens_ok_def)

fun wf_expr :: "'d expr \<Rightarrow> bool" where
  "wf_expr (ExprLit (LitInteger i)) = (0 \<le> sint i)"
| "wf_expr (ExprLit _) = True"
| "wf_expr (ExprColumn n) = plain_name n"
| "wf_expr (ExprCall n args) = (plain_name n \<and> list_all wf_expr args)"
| "wf_expr (ExprUnary op e) = wf_expr e"
| "wf_expr (ExprBinary op l r) = (wf_expr l \<and> wf_expr r)"

lemma next_token_ok:
  assumes "next_token n s = Inr (Some (t, s'))"
  shows "tok_ok (fst t)"
proof -
  obtain b bs where rest: "skip_ws s = b # bs"
    using assms by (cases "skip_ws s") (simp_all add: next_token_def)
  show ?thesis
  proof (cases "simple_token b")
    case (Some x)
    with assms rest show ?thesis
      by (auto simp: next_token_def simple_token_def split: if_splits)
  next
    case None
    note step = assms [unfolded next_token_def Let_def rest list.case None option.case]
    show ?thesis
    proof (cases "fst t")
      case (TIdent x)
      have x: "x = takeWhile ident_char (b # bs) \<and> \<not> number_char b \<and> (is_alpha b \<or> b = CHR ''_'')"
      proof (cases "b = CHR ''!'' \<or> b = CHR ''<'' \<or> b = CHR ''>''")
        case True
        with step TIdent show ?thesis
          by (elim disjE) (auto split: option.splits)
      next
        case False
        note step = step [simplified False [simplified, THEN conjunct1]
          False [simplified, THEN conjunct2, THEN conjunct1] False [simplified, THEN conjunct2, THEN conjunct2] if_False]
        show ?thesis
        proof (cases "b = CHR 0x27 \<or> b = CHR 0x22")
          case True
          with step TIdent show ?thesis by (auto split: list.splits)
        next
          case False
          with step TIdent show ?thesis
            by (cases "number_char b"; cases "is_alpha b \<or> b = CHR ''_''") auto
        qed
      qed
      then have "ident_char b"
        by (auto simp: ident_char_def is_alphanumeric_def)
      with x TIdent show ?thesis
        by (auto simp: ident_name_def list_all_iff dest: set_takeWhileD)
    qed simp_all
  qed
qed

lemma lex_all_ok: "lex_all n s = Inr ts \<Longrightarrow> tokens_ok ts"
proof (induction n s arbitrary: ts rule: lex_all.induct)
  case (1 n s)
  show ?case
  proof (cases "next_token n s")
    case (Inr r)
    show ?thesis
    proof (cases r)
      case None
      with Inr 1(2) show ?thesis by (subst (asm) lex_all.simps) simp
    next
      case (Some p)
      then obtain t s' where p: "r = Some (t, s')"
        by (cases p) simp
      with Inr 1(2) obtain ts' where "lex_all n s' = Inr ts'" "ts = t # ts'"
        by (subst (asm) lex_all.simps) (auto simp: and_then_def split: sum.splits)
      with 1(1) [OF Inr p refl] next_token_ok [of n s t s'] Inr p show ?thesis
        by simp
    qed
  qed (use 1(2) in \<open>simp add: lex_all.simps\<close>)
qed

section \<open>The parser returns well-formed expressions\<close>

text \<open>What a parser does with fewer than \<open>m\<close> tokens: it returns, and a result leaves fewer tokens.\<close>

definition parses :: "nat \<Rightarrow> (token list \<Rightarrow> 'd parsed) \<Rightarrow> bool" where
  "parses m p \<longleftrightarrow>
     (\<forall>ts. tokens_ok ts \<and> length ts < m \<longrightarrow>
        (case p ts of
           None \<Rightarrow> False
         | Some (Inl e) \<Rightarrow> True
         | Some (Inr (x, rest)) \<Rightarrow> tokens_ok rest \<and> length rest < length ts \<and> wf_expr x))"

lemma parsesD:
  assumes "parses m p" and "tokens_ok ts" and "length ts < m"
  obtains (error) e where "p ts = Some (Inl e)"
    | (ok) x rest where "p ts = Some (Inr (x, rest))" "tokens_ok rest" "length rest < length ts" "wf_expr x"
proof (cases "p ts")
  case (Some r)
  with assms error ok show ?thesis
    unfolding parses_def by (cases r) force+
qed (use assms in \<open>force simp: parses_def\<close>)

lemma parsesI:
  assumes "\<And>ts. tokens_ok ts \<Longrightarrow> length ts < m \<Longrightarrow>
    (\<exists>e. p ts = Some (Inl e)) \<or>
    (\<exists>x rest. p ts = Some (Inr (x, rest)) \<and> tokens_ok rest \<and> length rest < length ts \<and> wf_expr x)"
  shows "parses m p"
  unfolding parses_def using assms by (fastforce split: option.splits sum.splits)

lemma parses_mono: "parses m p \<Longrightarrow> k \<le> m \<Longrightarrow> parses k p"
  by (simp add: parses_def)

lemma expect_cases:
  assumes "tokens_ok ts"
  obtains (error) e where "expect k l ts = Inl e"
    | (ok) rest where "expect k l ts = Inr rest" "tokens_ok rest" "length rest < length ts"
proof (cases ts)
  case (Cons t rest)
  with assms ok [of rest] error show ?thesis
    by (cases "fst t = k") (auto simp: expect_def split_beta)
qed (use error in \<open>simp add: expect_def\<close>)

lemma parse_args_ok:
  assumes "parses m expr"
  shows "tokens_ok ts \<Longrightarrow> length ts < m \<Longrightarrow> length ts < n \<Longrightarrow>
    (\<exists>e. parse_args expr n ts = Some (Inl e)) \<or>
    (\<exists>xs rest. parse_args expr n ts = Some (Inr (xs, rest)) \<and> tokens_ok rest \<and> length rest < length ts \<and>
       list_all wf_expr xs)"
proof (induction n arbitrary: ts)
  case (Suc n)
  from assms Suc.prems(1,2) show ?case
  proof (cases rule: parsesD)
    case (ok x rest)
    show ?thesis
    proof (cases "\<exists>i rest'. rest = (TComma, i) # rest'")
      case True
      then obtain i rest' where rest: "rest = (TComma, i) # rest'" by blast
      with ok Suc.prems Suc.IH [of rest'] show ?thesis by force
    next
      case False
      then have "parse_args expr (Suc n) ts = Some (Inr ([x], rest))"
        using ok(1) by (auto split: list.splits tok.splits)
      with ok show ?thesis by simp
    qed
  qed simp
qed simp

lemma sint_of_nat: "v < 2 ^ 63 \<Longrightarrow> sint (of_nat v :: 64 word) = int v"
  by (simp add: signed_of_nat signed_take_bit_int_eq_self_iff)

lemma parse_number_ok:
  "(\<exists>e. parse_number fl n = Inl e) \<or> (\<exists>l. parse_number fl n = Inr l \<and> wf_expr (ExprLit l))"
  by (auto simp: parse_number_def parse_uint_def sint_of_nat split: option.split)

lemma parse_primary_ok:
  assumes "parses m expr" and ts: "tokens_ok ts" "length ts < Suc m"
    and "\<And>s i rest. ts = (TIdent s, i) # rest \<Longrightarrow> \<not> equal_fold s ''not''"
  shows "(\<exists>e. parse_primary fl expr ts = Some (Inl e)) \<or>
    (\<exists>x rest. parse_primary fl expr ts = Some (Inr (x, rest)) \<and> tokens_ok rest \<and> length rest < length ts \<and> wf_expr x)"
proof (cases ts)
  case Nil
  then show ?thesis by (simp add: parse_primary_def)
next
  case (Cons t rest)
  obtain k i where t: "t = (k, i)"
    by (cases t)
  have rest: "tokens_ok rest" "length rest < m"
    using Cons ts by simp_all
  show ?thesis
  proof (cases k)
    case TLParen
    from assms(1) rest show ?thesis
    proof (cases rule: parsesD)
      case (ok x rest')
      from ok(2) show ?thesis
        by (cases rule: expect_cases [of rest' TRParen "'')''"])
          (use ok Cons t TLParen in \<open>auto simp: parse_primary_def on_parsed_def\<close>)
    qed (simp add: Cons t TLParen parse_primary_def on_parsed_def)
  next
    case (TNumber s)
    with Cons t rest parse_number_ok [of fl s] show ?thesis
      by (auto simp: parse_primary_def)
  next
    case (TIdent s)
    have name: "plain_name s" if "\<not> equal_fold s ''true''" "\<not> equal_fold s ''false''" "\<not> equal_fold s ''null''"
      using that assms(4) [of s i rest] ts Cons t TIdent by (simp add: plain_name_def reserved_def)
    show ?thesis
    proof (cases "equal_fold s ''true'' \<or> equal_fold s ''false'' \<or> equal_fold s ''null''")
      case True
      with Cons t TIdent rest show ?thesis by (auto simp: parse_primary_def)
    next
      case False
      then have name: "plain_name s" using name by blast
      show ?thesis
      proof (cases "\<exists>j rest1. rest = (TLParen, j) # rest1")
        case no_call: False
        then have "parse_primary fl expr ts = Some (Inr (ExprColumn s, rest))"
          using False Cons t TIdent by (auto simp: parse_primary_def split: list.splits tok.splits)
        with name rest Cons show ?thesis by simp
      next
        case True
        then obtain j rest1 where rest1: "rest = (TLParen, j) # rest1" by blast
        show ?thesis
        proof (cases "\<exists>j' rest2. rest1 = (TRParen, j') # rest2")
          case True
          then obtain j' rest2 where "rest1 = (TRParen, j') # rest2" by blast
          with False Cons t TIdent rest rest1 name show ?thesis
            by (simp add: parse_primary_def)
        next
          case args: False
          have eq: "parse_primary fl expr ts =
            (case parse_args expr (Suc (length rest1)) rest1 of
               None \<Rightarrow> None
             | Some (Inl e) \<Rightarrow> Some (Inl e)
             | Some (Inr (args, rest2)) \<Rightarrow>
                 (case expect TRParen '')'' rest2 of
                    Inl e \<Rightarrow> Some (Inl e)
                  | Inr rest3 \<Rightarrow> Some (Inr (ExprCall s args, rest3))))"
            using args False Cons t TIdent rest1
            by (cases rest1; cases "fst (hd rest1)") (auto simp: parse_primary_def simp del: parse_args.simps)
          have "tokens_ok rest1" "length rest1 < m"
            using rest rest1 by simp_all
          from parse_args_ok [OF assms(1) this lessI] show ?thesis
          proof (elim disjE exE conjE)
            fix e
            assume "parse_args expr (Suc (length rest1)) rest1 = Some (Inl e)"
            then show ?thesis unfolding eq by simp
          next
            fix xs rest2
            assume *: "parse_args expr (Suc (length rest1)) rest1 = Some (Inr (xs, rest2))" "tokens_ok rest2"
              "length rest2 < length rest1" "list_all wf_expr xs"
            from *(2) show ?thesis
              by (cases rule: expect_cases [of rest2 TRParen "'')''"])
                (use * name Cons rest1 eq in \<open>auto simp del: parse_args.simps\<close>)
          qed
        qed
      qed
    qed
  qed (use Cons t rest in \<open>auto simp: parse_primary_def\<close>)
qed

lemma parse_unary_ok:
  assumes "parses m expr"
  shows "parses (Suc m) (parse_unary fl expr)"
proof (rule parsesI)
  fix ts
  assume "tokens_ok ts" and "length ts < Suc m"
  then show "(\<exists>e. parse_unary fl expr ts = Some (Inl e)) \<or>
    (\<exists>x rest. parse_unary fl expr ts = Some (Inr (x, rest)) \<and> tokens_ok rest \<and> length rest < length ts \<and> wf_expr x)"
  proof (induction ts)
    case Nil
    then show ?case by (simp add: parse_primary_def)
  next
    case (Cons t ts)
    obtain k i where t: "t = (k, i)"
      by (cases t)
    have IH: "(\<exists>e. parse_unary fl expr ts = Some (Inl e)) \<or>
      (\<exists>x rest. parse_unary fl expr ts = Some (Inr (x, rest)) \<and> tokens_ok rest \<and> length rest < length ts \<and> wf_expr x)"
      using Cons by simp
    show ?case
    proof (cases "k = TMinus \<or> (\<exists>s. k = TIdent s \<and> equal_fold s ''not'')")
      case True
      with IH t show ?thesis by (auto simp: on_parsed_def)
    next
      case False
      then have "parse_unary fl expr (t # ts) = parse_primary fl expr (t # ts)"
        using t by (cases k) auto
      with parse_primary_ok [OF assms Cons.prems, of fl] False t show ?thesis
        by auto
    qed
  qed
qed

lemma binary_loop_ok:
  assumes "parses m sub"
  shows "wf_expr l \<Longrightarrow> tokens_ok ts \<Longrightarrow> length ts \<le> m \<Longrightarrow> length ts \<le> n \<Longrightarrow>
    (\<exists>e. binary_loop op_of sub n l ts = Some (Inl e)) \<or>
    (\<exists>x rest. binary_loop op_of sub n l ts = Some (Inr (x, rest)) \<and> tokens_ok rest \<and> length rest \<le> length ts \<and>
       wf_expr x)"
proof (induction n arbitrary: l ts)
  case 0
  then show ?case by simp
next
  case (Suc n)
  show ?case
  proof (cases ts)
    case (Cons t ts')
    show ?thesis
    proof (cases "op_of (fst t)")
      case (Some op)
      have "tokens_ok ts'" "length ts' < m"
        using Suc.prems Cons by simp_all
      with assms show ?thesis
      proof (cases rule: parsesD)
        case (ok x rest)
        have "wf_expr (ExprBinary op l x)" "length rest \<le> m" "length rest \<le> n"
          using ok Suc.prems Cons by simp_all
        from Suc.IH [OF this(1) ok(2) this(2,3)] ok Cons Some show ?thesis
          by (auto simp: on_parsed_def)
      qed (simp add: Cons Some on_parsed_def)
    qed (use Cons Suc.prems in simp)
  qed (use Suc.prems in simp)
qed

lemma binary_level_ok:
  assumes "parses (Suc m) sub"
  shows "parses (Suc m) (\<lambda>ts. on_parsed (sub ts) (\<lambda>left rest. binary_loop op_of sub (length rest) left rest))"
proof (rule parsesI)
  fix ts
  assume ts: "tokens_ok ts" "length ts < Suc m"
  with assms show "(\<exists>e. on_parsed (sub ts) (\<lambda>left rest. binary_loop op_of sub (length rest) left rest) = Some (Inl e)) \<or>
    (\<exists>x rest. on_parsed (sub ts) (\<lambda>left rest. binary_loop op_of sub (length rest) left rest) = Some (Inr (x, rest)) \<and>
       tokens_ok rest \<and> length rest < length ts \<and> wf_expr x)"
  proof (cases rule: parsesD)
    case (ok x rest)
    have "length rest \<le> Suc m"
      using ok ts by simp
    from binary_loop_ok [OF assms ok(4,2) this order_refl, of op_of] ok show ?thesis
      by (fastforce simp: on_parsed_def)
  qed (simp add: on_parsed_def)
qed

lemma parse_cmp_ok:
  assumes "parses (Suc m) (parse_add fl expr)"
  shows "parses (Suc m) (parse_cmp fl expr)"
proof (rule parsesI)
  fix ts
  assume ts: "tokens_ok ts" "length ts < Suc m"
  with assms show "(\<exists>e. parse_cmp fl expr ts = Some (Inl e)) \<or>
    (\<exists>x rest. parse_cmp fl expr ts = Some (Inr (x, rest)) \<and> tokens_ok rest \<and> length rest < length ts \<and> wf_expr x)"
  proof (cases rule: parsesD)
    case left: (ok x rest)
    show ?thesis
    proof (cases "\<exists>t rest' op. rest = t # rest' \<and> cmp_op (fst t) = Some op")
      case True
      then obtain t rest' op where rest: "rest = t # rest'" "cmp_op (fst t) = Some op" by blast
      have "tokens_ok rest'" "length rest' < Suc m"
        using left rest ts by simp_all
      with assms show ?thesis
        by (cases rule: parsesD) (use left rest in \<open>auto simp: parse_cmp_def on_parsed_def\<close>)
    next
      case False
      with left show ?thesis
        by (cases rest) (auto simp: parse_cmp_def on_parsed_def)
    qed
  qed (simp add: parse_cmp_def on_parsed_def)
qed

lemma parse_or_ok:
  assumes "parses m expr"
  shows "parses (Suc m) (parse_or fl expr)"
proof -
  have "parses (Suc m) (parse_mul fl expr)"
    using binary_level_ok [OF parse_unary_ok [OF assms]] by (simp add: parse_mul_def [abs_def])
  then have "parses (Suc m) (parse_add fl expr)"
    using binary_level_ok by (simp add: parse_add_def [abs_def])
  then have "parses (Suc m) (parse_and fl expr)"
    using binary_level_ok [OF parse_cmp_ok] by (simp add: parse_and_def [abs_def])
  then show ?thesis
    using binary_level_ok by (simp add: parse_or_def [abs_def])
qed

lemma parse_expr_ok: "parses n (parse_expr fl n)"
proof (induction n)
  case 0
  show ?case by (simp add: parses_def)
next
  case (Suc n)
  then have "parses (Suc n) (parse_or fl (parse_expr fl n))"
    by (rule parse_or_ok)
  then show ?case by (simp add: parses_def)
qed

lemma parse_text_cases:
  obtains (error) e where "parse_text fl s = Some (Inl e)"
    | (ok) x where "parse_text fl s = Some (Inr x)" "wf_expr x"
proof (cases "lex_all (length s) s")
  case (Inl e)
  with error show ?thesis by (simp add: parse_text_def)
next
  case (Inr ts)
  from parse_expr_ok [of "Suc (length ts)" fl] lex_all_ok [OF Inr] lessI show ?thesis
  proof (cases rule: parsesD)
    case (error e)
    then show ?thesis
      using that(1) Inr by (simp add: parse_text_def)
  next
    case (ok x rest)
    then show ?thesis
      using Inr that by (cases rest) (auto simp: parse_text_def split: prod.splits)
  qed
qed

section \<open>Properties\<close>

text \<open>
  ParseExpr always returns: on every byte string, nested however deeply, it gives one of its errors or an
  expression, and never runs past the tokens. Every expression it returns is well-formed: column and function
  names are identifiers other than the reserved words (in any case), integer literals are not negative (the
  sign is a unary operator) and fit in 63 bits.
\<close>

theorem parse_text_total:
  "(\<exists>e. parse_text fl s = Some (Inl e)) \<or> (\<exists>x. parse_text fl s = Some (Inr x) \<and> wf_expr x)"
  by (cases rule: parse_text_cases [of fl s]) simp_all

end
