(* ===== verification/Expr_Round_Trip.thy ===== *)
theory Expr_Round_Trip
  imports Expr_Parser_Proofs
begin

text \<open>
  What the printer of expressions writes is parsed back: first the bytes are lexed to the tokens of the
  expression, then the tokens are parsed level by level.
\<close>

section \<open>The tokens of an expression\<close>

fun literal_token :: "'d float64 \<Rightarrow> 'd literal \<Rightarrow> tok" where
  "literal_token fl (LitBool b) = TIdent (if b then ''true'' else ''false'')"
| "literal_token fl (LitInteger i) = TNumber (show_nat (nat (sint i)))"
| "literal_token fl (LitDouble d) = TNumber (format_rust_float fl d)"
| "literal_token fl (LitString s) = TStr s"
| "literal_token fl LitNull = TIdent ''null''"

fun unary_token :: "unary_op \<Rightarrow> tok" where
  "unary_token UnaryNeg = TMinus"
| "unary_token UnaryNot = TIdent ''not''"

fun binary_token :: "binary_op \<Rightarrow> tok" where
  "binary_token BinaryAdd = TPlus"
| "binary_token BinarySub = TMinus"
| "binary_token BinaryMul = TStar"
| "binary_token BinaryDiv = TSlash"
| "binary_token BinaryEq = TEq"
| "binary_token BinaryNotEq = TNotEq"
| "binary_token BinaryLt = TLt"
| "binary_token BinaryLte = TLte"
| "binary_token BinaryGt = TGt"
| "binary_token BinaryGte = TGte"
| "binary_token BinaryAnd = TIdent ''and''"
| "binary_token BinaryOr = TIdent ''or''"

text \<open>The arguments of a call, with commas between them.\<close>

fun with_commas :: "tok list list \<Rightarrow> tok list" where
  "with_commas [] = []"
| "with_commas [x] = x"
| "with_commas (x # y # ys) = x @ TComma # with_commas (y # ys)"

fun toks :: "'d float64 \<Rightarrow> 'd expr \<Rightarrow> tok list" where
  "toks fl (ExprLit l) = [literal_token fl l]"
| "toks fl (ExprColumn n) = [TIdent n]"
| "toks fl (ExprCall n args) = TIdent n # TLParen # with_commas (map (toks fl) args) @ [TRParen]"
| "toks fl (ExprUnary op e) = unary_token op # toks fl e"
| "toks fl (ExprBinary op l r) = TLParen # toks fl l @ binary_token op # toks fl r @ [TRParen]"

text \<open>
  The literals that are printed readably: no quote in a string, and a double is written as digits with a dot
  that are read as the same number.
\<close>

fun printable :: "'d float64 \<Rightarrow> 'd expr \<Rightarrow> bool" where
  "printable fl (ExprLit l) =
     (case l of
        LitString s \<Rightarrow> CHR 0x27 \<notin> set s
      | LitDouble d \<Rightarrow>
          list_all number_char (format_rust_float fl d) \<and> CHR ''.'' \<in> set (format_rust_float fl d) \<and>
          fl_parse fl (format_rust_float fl d) = Some d
      | _ \<Rightarrow> True)"
| "printable fl (ExprColumn n) = True"
| "printable fl (ExprCall n args) = list_all (printable fl) args"
| "printable fl (ExprUnary op e) = printable fl e"
| "printable fl (ExprBinary op l r) = (printable fl l \<and> printable fl r)"

section \<open>Lexing the printed text\<close>

definition lexes :: "nat \<Rightarrow> string \<Rightarrow> tok list \<Rightarrow> bool" where
  "lexes n s ts \<longleftrightarrow> (\<exists>tts. lex_all n s = Inr tts \<and> map fst tts = ts)"

lemma lexes_Nil [simp]: "lexes n [] []"
  by (simp add: lexes_def lex_all.simps next_token_def skip_ws_def)

lemma lexes_step:
  assumes "next_token n s = Inr (Some ((t, i), s'))" and "lexes n s' ts"
  shows "lexes n s (t # ts)"
  using assms unfolding lexes_def by (subst lex_all.simps) auto

lemma lexes_space: "lexes n s ts \<Longrightarrow> lexes n (CHR '' '' # s) ts"
  unfolding lexes_def
  by (subst lex_all.simps, subst (asm) lex_all.simps) (simp add: next_token_def skip_ws_def is_space_def)

lemma skip_ws_no_space [simp]: "\<not> is_space c \<Longrightarrow> skip_ws (c # s) = c # s"
  by (simp add: skip_ws_def)

lemma simple_token_no_space: "simple_token b = Some t \<Longrightarrow> \<not> is_space b"
  by (auto simp: simple_token_def is_space_def split: if_splits)

lemma lexes_simple: "simple_token b = Some t \<Longrightarrow> lexes n s ts \<Longrightarrow> lexes n (b # s) (t # ts)"
  by (rule lexes_step) (simp_all add: next_token_def simple_token_no_space)

text \<open>A byte that ends a name or a number.\<close>

definition ends :: "string \<Rightarrow> bool" where
  "ends s \<longleftrightarrow> (case s of [] \<Rightarrow> True | c # _ \<Rightarrow> \<not> ident_char c \<and> \<not> number_char c)"

lemma ends_simps [simp]:
  "ends []" "ends (CHR '' '' # s)" "ends (CHR '')'' # s)" "ends (CHR '','' # s)" "ends (CHR ''('' # s)"
  by (simp_all add: ends_def ident_char_def number_char_def is_alphanumeric_def is_alpha_def is_digit_def)

lemma takeWhile_ends:
  "list_all P x \<Longrightarrow> (s = [] \<or> \<not> P (hd s)) \<Longrightarrow> takeWhile P (x @ s) = x \<and> dropWhile P (x @ s) = s"
  by (induction x) (auto simp: takeWhile_eq_Nil_iff dropWhile_eq_self_iff)

lemma ends_ident: "ends s \<Longrightarrow> s = [] \<or> \<not> ident_char (hd s)"
  and ends_number: "ends s \<Longrightarrow> s = [] \<or> \<not> number_char (hd s)"
  by (cases s; simp add: ends_def)+

lemma ident_char_facts:
  assumes "ident_char c"
  shows "simple_token c = None" "\<not> is_space c" "c \<noteq> CHR ''!''" "c \<noteq> CHR ''<''" "c \<noteq> CHR ''>''"
    "\<not> (c = CHR 0x27 \<or> c = CHR 0x22)"
    "\<not> number_char c \<Longrightarrow> is_alpha c \<or> c = CHR ''_''"
  using assms
  by (auto simp: ident_char_def is_alphanumeric_def is_alpha_def is_digit_def simple_token_def is_space_def
      number_char_def split: if_splits)

lemma number_char_facts:
  assumes "number_char c"
  shows "simple_token c = None" "\<not> is_space c" "c \<noteq> CHR ''!''" "c \<noteq> CHR ''<''" "c \<noteq> CHR ''>''"
    "\<not> (c = CHR 0x27 \<or> c = CHR 0x22)"
  using assms
  by (auto simp: is_digit_def simple_token_def is_space_def number_char_def split: if_splits)

lemma lexes_ident:
  assumes "ident_name x" and "ends s" and "lexes n s ts"
  shows "lexes n (x @ s) (TIdent x # ts)"
proof -
  obtain c x' where x: "x = c # x'" "ident_char c" "\<not> number_char c" "list_all ident_char x"
    using assms(1) by (cases x) (auto simp: ident_name_def)
  have "next_token n (x @ s) = Inr (Some ((TIdent x, n - length (x @ s)), s))"
    using takeWhile_ends [OF x(4) ends_ident [OF assms(2)]] x(1,3) ident_char_facts [OF x(2)]
    by (simp add: next_token_def del: takeWhile.simps dropWhile.simps)
  with assms(3) show ?thesis
    by (rule lexes_step [rotated])
qed

lemma lexes_number:
  assumes "x \<noteq> []" "list_all number_char x" and "ends s" and "lexes n s ts"
  shows "lexes n (x @ s) (TNumber x # ts)"
proof -
  obtain c x' where x: "x = c # x'" "number_char c"
    using assms(1,2) by (cases x) auto
  have "next_token n (x @ s) = Inr (Some ((TNumber x, n - length (x @ s)), s))"
    using takeWhile_ends [OF assms(2) ends_number [OF assms(3)]] x number_char_facts [OF x(2)]
    by (simp add: next_token_def del: takeWhile.simps dropWhile.simps)
  with assms(4) show ?thesis
    by (rule lexes_step [rotated])
qed

lemma lexes_string:
  assumes "CHR 0x27 \<notin> set x" and "lexes n s ts"
  shows "lexes n (CHR 0x27 # x @ CHR 0x27 # s) (TStr x # ts)"
proof -
  have "takeWhile (\<lambda>c. c \<noteq> CHR 0x27) (x @ CHR 0x27 # s) = x \<and>
      dropWhile (\<lambda>c. c \<noteq> CHR 0x27) (x @ CHR 0x27 # s) = CHR 0x27 # s"
    using assms(1) by (induction x) auto
  then have "next_token n (CHR 0x27 # x @ CHR 0x27 # s) =
      Inr (Some ((TStr x, n - length (CHR 0x27 # x @ CHR 0x27 # s)), s))"
    by (simp add: next_token_def simple_token_def is_space_def)
  with assms(2) show ?thesis
    by (rule lexes_step [rotated])
qed

lemma lexes_binary:
  assumes "lexes n s ts"
  shows "lexes n (binary_symbol op @ CHR '' '' # s) (binary_token op # ts)"
proof -
  have sp: "lexes n (CHR '' '' # s) ts"
    using assms by (rule lexes_space)
  have word: "ident_name ''and''" "ident_name ''or''"
    by (simp_all add: ident_name_def ident_char_def is_alphanumeric_def is_alpha_def number_char_def is_digit_def)
  show ?thesis
    by (cases op)
      (use sp lexes_ident [OF word(1) _ sp] lexes_ident [OF word(2) _ sp] in
        \<open>auto intro!: lexes_simple lexes_step [OF _ sp] simp: simple_token_def next_token_def is_space_def
          then_equals_def\<close>)
qed

lemma with_commas_lexes:
  assumes "\<And>e s ts. e \<in> set es \<Longrightarrow> ends s \<Longrightarrow> lexes n s ts \<Longrightarrow> lexes n (w e @ s) (tk e @ ts)"
    and "ends s" and "lexes n s ts"
  shows "lexes n (join_with '', '' (map w es) @ s) (with_commas (map tk es) @ ts)"
  using assms(1)
proof (induction es rule: induct_list012)
  case 1
  then show ?case using assms(3) by simp
next
  case (2 e)
  then show ?case using assms(2,3) by simp
next
  case (3 e f es)
  let ?rest = "join_with '', '' (map w (f # es)) @ s"
  have "lexes n ?rest (with_commas (map tk (f # es)) @ ts)"
    using 3 by simp
  then have "lexes n (CHR '','' # CHR '' '' # ?rest) (TComma # with_commas (map tk (f # es)) @ ts)"
    by (intro lexes_simple lexes_space) (simp_all add: simple_token_def)
  with 3(3) [of e "CHR '','' # CHR '' '' # ?rest"] show ?case
    by simp
qed

lemma lexes_words:
  "ident_name ''true''" "ident_name ''false''" "ident_name ''null''" "ident_name ''not''"
  by (simp_all add: ident_name_def ident_char_def is_alphanumeric_def is_alpha_def number_char_def is_digit_def)

lemma show_nat_number: "show_nat k \<noteq> []" "list_all number_char (show_nat k)"
  using show_nat_digits [of k] by (auto simp: number_char_def list_all_iff)

lemma lexes_literal:
  assumes "wf_expr (ExprLit l)" "printable fl (ExprLit l)" and "ends s" and "lexes n s ts"
  shows "lexes n (write_literal fl l @ s) (literal_token fl l # ts)"
proof (cases l)
  case (LitInteger i)
  then show ?thesis
    using assms lexes_number [OF show_nat_number assms(3,4)] by (simp add: show_int64_def)
next
  case (LitDouble d)
  then have "format_rust_float fl d \<noteq> []" "list_all number_char (format_rust_float fl d)"
    using assms(2) by auto
  from lexes_number [OF this assms(3,4)] LitDouble show ?thesis by simp
next
  case (LitString x)
  with assms(2,4) show ?thesis using lexes_string [of x n s ts] by simp
qed (use assms lexes_words [THEN lexes_ident, of s n ts] in simp_all)

lemma lexes_expr:
  "wf_expr e \<Longrightarrow> printable fl e \<Longrightarrow> ends s \<Longrightarrow> lexes n s ts \<Longrightarrow>
    lexes n (write_expr fl e @ s) (toks fl e @ ts)"
proof (induction e arbitrary: s ts rule: write_expr.induct [case_names lit column call un bin])
  case (lit fl l)
  then show ?case by (simp add: lexes_literal)
next
  case (column fl name)
  then show ?case by (simp add: lexes_ident plain_name_def)
next
  case (call fl name args)
  have close: "lexes n (CHR '')'' # s) (TRParen # ts)"
    using call.prems(4) by (rule lexes_simple [rotated]) (simp add: simple_token_def)
  have "lexes n (join_with '', '' (map (write_expr fl) args) @ CHR '')'' # s)
      (with_commas (map (toks fl) args) @ TRParen # ts)"
    by (rule with_commas_lexes [OF _ _ close])
      (use call.prems in \<open>auto simp: list_all_iff intro!: call.IH\<close>)
  then have "lexes n (CHR ''('' # join_with '', '' (map (write_expr fl) args) @ CHR '')'' # s)
      (TLParen # with_commas (map (toks fl) args) @ TRParen # ts)"
    by (rule lexes_simple [rotated]) (simp add: simple_token_def)
  from lexes_ident [OF _ _ this, of name] call.prems show ?case
    by (simp add: plain_name_def)
next
  case (un fl op e)
  then have e: "lexes n (write_expr fl e @ s) (toks fl e @ ts)" by simp
  show ?case
  proof (cases op)
    case UnaryNeg
    from lexes_simple [OF _ e, of "CHR ''-''" TMinus] UnaryNeg show ?thesis
      by (simp add: simple_token_def)
  next
    case UnaryNot
    from lexes_ident [OF lexes_words(4) _ lexes_space [OF e]] UnaryNot show ?thesis
      by simp
  qed
next
  case (bin fl op l r)
  let ?r = "write_expr fl r @ CHR '')'' # s"
  have "lexes n (CHR '')'' # s) (TRParen # ts)"
    using bin.prems(4) by (rule lexes_simple [rotated]) (simp add: simple_token_def)
  then have "lexes n ?r (toks fl r @ TRParen # ts)"
    using bin by simp
  then have "lexes n (CHR '' '' # binary_symbol op @ CHR '' '' # ?r) (binary_token op # toks fl r @ TRParen # ts)"
    by (intro lexes_space lexes_binary)
  then have "lexes n (write_expr fl l @ CHR '' '' # binary_symbol op @ CHR '' '' # ?r)
      (toks fl l @ binary_token op # toks fl r @ TRParen # ts)"
    using bin by simp
  then have "lexes n (CHR ''('' # write_expr fl l @ CHR '' '' # binary_symbol op @ CHR '' '' # ?r)
      (TLParen # toks fl l @ binary_token op # toks fl r @ TRParen # ts)"
    by (rule lexes_simple [rotated]) (simp add: simple_token_def)
  then show ?case by simp
qed

section \<open>Parsing the tokens\<close>

text \<open>The tokens left end an operand, and end an expression.\<close>

definition no_call :: "token list \<Rightarrow> bool" where
  "no_call ts \<longleftrightarrow> (case ts of [] \<Rightarrow> True | t # _ \<Rightarrow> fst t \<noteq> TLParen)"

definition closed :: "token list \<Rightarrow> bool" where
  "closed ts \<longleftrightarrow> (case ts of [] \<Rightarrow> True | t # _ \<Rightarrow> fst t = TRParen \<or> fst t = TComma)"

lemma closed_no_call: "closed ts \<Longrightarrow> no_call ts"
  by (cases ts) (auto simp: closed_def no_call_def)

lemma binary_loop_closed:
  assumes "closed rest" and "op_of TRParen = None" "op_of TComma = None"
  shows "binary_loop op_of sub n l rest = Some (Inr (l, rest))"
  using assms by (cases rest) (auto simp: closed_def)

lemma and_or [simp]:
  "equal_fold ''and'' ''and''" "equal_fold ''or'' ''or''" "\<not> equal_fold ''or'' ''and''" "\<not> equal_fold ''and'' ''or''"
  by (simp_all add: equal_fold_def to_lower_def to_lower_char_def char_of_def bit_Suc_0_iff)

lemma parse_or_single:
  assumes "parse_unary fl expr ts = Some (Inr (e, rest))" and "closed rest"
  shows "parse_or fl expr ts = Some (Inr (e, rest))"
proof -
  have loop: "binary_loop op_of sub n l rest = Some (Inr (l, rest))"
    if "op_of \<in> {mul_op, add_op, and_op, or_op}" for op_of and sub :: "token list \<Rightarrow> 'a parsed" and n l
    using that by (intro binary_loop_closed [OF assms(2)]) auto
  have "parse_cmp fl expr ts = Some (Inr (e, rest))"
    using assms loop
    by (cases rest) (auto simp: parse_cmp_def parse_add_def parse_mul_def on_parsed_def closed_def)
  then show ?thesis
    using loop by (simp add: parse_or_def parse_and_def on_parsed_def)
qed

lemma parse_or_binary:
  assumes left: "parse_unary fl expr ts = Some (Inr (l, (binary_token op, i) # ts'))"
    and right: "parse_unary fl expr ts' = Some (Inr (r, rest))" and "closed rest"
  shows "parse_or fl expr ts = Some (Inr (ExprBinary op l r, rest))"
proof -
  have loop: "binary_loop op_of sub n x rest = Some (Inr (x, rest))"
    if "op_of \<in> {mul_op, add_op, and_op, or_op}" for op_of and sub :: "token list \<Rightarrow> 'a parsed" and n x
    using that by (intro binary_loop_closed [OF assms(3)]) auto
  have cmp: "(case rest of [] \<Rightarrow> Some (Inr (x, rest)) | t # rest' \<Rightarrow> (case cmp_op (fst t) of
      None \<Rightarrow> Some (Inr (x, rest)) | Some op \<Rightarrow> f op rest')) = Some (Inr (x, rest))" for x f
    using assms(3) by (cases rest) (auto simp: closed_def)
  note defs = parse_or_def parse_and_def parse_cmp_def parse_add_def parse_mul_def on_parsed_def
  show ?thesis
    by (cases op) (use left right in \<open>simp_all add: defs loop cmp\<close>)
qed

lemma parse_number_show:
  "0 \<le> sint i \<Longrightarrow> parse_number fl (show_nat (nat (sint i))) = Inr (LitInteger i)"
proof -
  assume i: "0 \<le> sint i"
  have "nat (sint i) < 2 ^ 63"
    using sint_lt [of i] i by simp
  with i show ?thesis
    by (simp add: parse_number_def show_nat_no_char is_digit_def)
qed

lemma reserved_words [simp]:
  "equal_fold ''true'' ''true''" "equal_fold ''false'' ''false''" "equal_fold ''null'' ''null''"
  "equal_fold ''not'' ''not''" "\<not> equal_fold ''true'' ''not''" "\<not> equal_fold ''false'' ''not''"
  "\<not> equal_fold ''null'' ''not''" "\<not> equal_fold ''false'' ''true''" "\<not> equal_fold ''null'' ''true''"
  "\<not> equal_fold ''null'' ''false''"
  by (simp_all add: equal_fold_def to_lower_def to_lower_char_def char_of_def bit_Suc_0_iff)

lemma map_fst_append:
  assumes "map fst a = xs @ ys"
  obtains b c where "a = b @ c" "map fst b = xs" "map fst c = ys"
  using assms by (metis append_eq_map_conv)

lemma map_fst_Cons:
  assumes "map fst a = x # xs"
  obtains i b where "a = (x, i) # b" "map fst b = xs"
  using assms by (cases a) auto

lemma toks_start: "toks fl e \<noteq> [] \<and> hd (toks fl e) \<noteq> TRParen"
proof (cases e)
  case (ExprLit l)
  then show ?thesis by (cases l) simp_all
next
  case (ExprUnary op x)
  then show ?thesis by (cases op) simp_all
qed simp_all

lemma with_commas_length: "e \<in> set es \<Longrightarrow> length (f e) \<le> length (with_commas (map f es))"
  by (induction es rule: induct_list012) auto

text \<open>A parser of whole expressions reads the tokens of \<open>e\<close>.\<close>

definition reads :: "(token list \<Rightarrow> 'd parsed) \<Rightarrow> tok list \<Rightarrow> 'd expr \<Rightarrow> bool" where
  "reads p ts e \<longleftrightarrow> (\<forall>a rest. map fst a = ts \<and> closed rest \<longrightarrow> p (a @ rest) = Some (Inr (e, rest)))"

lemma parse_args_reads:
  assumes "\<And>e. e \<in> set es \<Longrightarrow> reads p (tk e) e" and "es \<noteq> []" and "length es \<le> n"
    and "map fst a = with_commas (map tk es)" and "rest = (TRParen, i) # rest'"
  shows "parse_args p n (a @ rest) = Some (Inr (es, rest))"
  using assms(1-4)
proof (induction es arbitrary: a n rule: induct_list012)
  case (2 e)
  moreover have "closed rest"
    using assms(5) by (simp add: closed_def)
  ultimately have "p (a @ rest) = Some (Inr (e, rest))"
    by (simp add: reads_def)
  with 2 assms(5) show ?case by (cases n) simp_all
next
  case (3 e f es)
  obtain m where n: "n = Suc m"
    using 3(5) by (cases n) simp_all
  obtain b c where a: "a = b @ c" "map fst b = tk e" "map fst c = TComma # with_commas (map tk (f # es))"
    using map_fst_append [of a "tk e"] 3(6) by auto
  obtain j d where c: "c = (TComma, j) # d" "map fst d = with_commas (map tk (f # es))"
    using map_fst_Cons a(3) by metis
  have "parse_args p m (d @ rest) = Some (Inr (f # es, rest))"
    by (rule 3(2)) (use 3(3,5) c n in auto)
  moreover have "p (b @ c @ rest) = Some (Inr (e, c @ rest))"
    using 3(3) [of e] a(2) c(1) by (simp add: reads_def closed_def)
  ultimately show ?case
    using a c n by simp
qed simp

lemma parse_call:
  assumes "plain_name f" and "\<And>e. e \<in> set es \<Longrightarrow> reads p (tk e) e"
    and "\<And>e. e \<in> set es \<Longrightarrow> tk e \<noteq> [] \<and> hd (tk e) \<noteq> TRParen"
    and a: "map fst a = with_commas (map tk es)"
  shows "parse_primary fl p ((TIdent f, i) # (TLParen, j) # a @ (TRParen, k) # rest) = Some (Inr (ExprCall f es, rest))"
proof -
  have f: "\<not> equal_fold f ''true''" "\<not> equal_fold f ''false''" "\<not> equal_fold f ''null''"
    using assms(1) by (simp_all add: plain_name_def reserved_def)
  show ?thesis
  proof (cases "es = []")
    case True
    with a f show ?thesis by (simp add: parse_primary_def)
  next
    case False
    then obtain e es' where es: "es = e # es'"
      by (cases es) auto
    have "length es \<le> length a"
    proof -
      have "length es \<le> length (with_commas (map tk es))"
        using assms(3)
      proof (induction es rule: induct_list012)
        case (2 x)
        then show ?case by (cases "tk x") auto
      qed auto
      with a show ?thesis by (metis length_map)
    qed
    then have args: "parse_args p (Suc (length (a @ (TRParen, k) # rest))) (a @ (TRParen, k) # rest) =
        Some (Inr (es, (TRParen, k) # rest))"
      by (intro parse_args_reads [OF assms(2) False _ a refl]) simp_all
    obtain t a' where "a = t # a'" "fst t \<noteq> TRParen"
    proof -
      have "with_commas (map tk es) \<noteq> [] \<and> hd (with_commas (map tk es)) = hd (tk e)"
        using assms(3) [of e] es by (cases es') auto
      then have "map fst a \<noteq> [] \<and> hd (map fst a) \<noteq> TRParen"
        using a assms(3) [of e] es by simp
      with that show thesis
        by (cases a) auto
    qed
    with args f show ?thesis
      by (cases t; cases "fst t") (auto simp: parse_primary_def expect_def simp del: parse_args.simps)
  qed
qed

lemma parse_unary_reads:
  "wf_expr e \<Longrightarrow> printable fl e \<Longrightarrow> map fst a = toks fl e \<Longrightarrow> no_call rest \<Longrightarrow> length a \<le> n \<Longrightarrow>
    parse_unary fl (parse_expr fl n) (a @ rest) = Some (Inr (e, rest))"
proof (induction e arbitrary: a rest n rule: toks.induct [case_names lit column call un bin])
  case (lit fl l)
  then obtain i where "a = [(literal_token fl l, i)]" by auto
  then show ?case
    using lit.prems
    by (cases l) (auto simp: parse_primary_def parse_number_show, auto simp: parse_number_def)
next
  case (column fl name)
  then obtain i where "a = [(TIdent name, i)]" by auto
  then show ?case
    using column.prems
    by (cases rest; cases "fst (hd rest)")
      (auto simp: parse_primary_def plain_name_def reserved_def no_call_def)
next
  case (call fl name args)
  from call.prems(3) obtain i j k b where
    a: "a = (TIdent name, i) # (TLParen, j) # b @ [(TRParen, k)]" "map fst b = with_commas (map (toks fl) args)"
    by (auto elim!: map_fst_Cons map_fst_append)
  have reads: "reads (parse_expr fl n) (toks fl e) e" if "e \<in> set args" for e
    unfolding reads_def
  proof (intro allI impI, elim conjE)
    fix c rest :: "token list"
    assume c: "map fst c = toks fl e" "closed rest"
    have "length c \<le> length b"
      using with_commas_length [OF that, of "toks fl"] arg_cong [OF c(1), of length] arg_cong [OF a(2), of length]
      by simp
    then have "length c \<le> n - 1" "n = Suc (n - 1)"
      using call.prems(5) a(1) by simp_all
    moreover from this have "parse_unary fl (parse_expr fl (n - 1)) (c @ rest) = Some (Inr (e, rest))"
      using call.IH [OF that _ _ c(1) closed_no_call [OF c(2)]] call.prems(1,2) that by (simp add: list_all_iff)
    ultimately show "parse_expr fl n (c @ rest) = Some (Inr (e, rest))"
      using parse_or_single [OF _ c(2)] by (metis parse_expr.simps(2))
  qed
  have "\<not> equal_fold name ''not''"
    using call.prems(1) by (simp add: plain_name_def reserved_def)
  with a parse_call [OF _ reads toks_start [of fl] a(2), of name fl i j k rest] call.prems(1) show ?case
    by simp
next
  case (un fl op e)
  from un.prems(3) obtain i b where a: "a = (unary_token op, i) # b" "map fst b = toks fl e"
    by (auto elim!: map_fst_Cons)
  then have "parse_unary fl (parse_expr fl n) (b @ rest) = Some (Inr (e, rest))"
    using un.prems by (intro un.IH) simp_all
  then show ?case
    using a by (cases op) (simp_all add: on_parsed_def)
next
  case (bin fl op l r)
  from bin.prems(3) obtain i b j c k where
    a: "a = (TLParen, i) # b @ (binary_token op, j) # c @ [(TRParen, k)]" "map fst b = toks fl l"
    "map fst c = toks fl r"
    by (auto elim!: map_fst_Cons map_fst_append)
  obtain m where n: "n = Suc m" "length b \<le> m" "length c \<le> m"
    using bin.prems(5) a(1) by (cases n) simp_all
  let ?close = "(TRParen, k) # rest"
  have "parse_unary fl (parse_expr fl m) (b @ (binary_token op, j) # c @ ?close) =
      Some (Inr (l, (binary_token op, j) # c @ ?close))"
    using bin.prems a n by (intro bin.IH) (cases op; simp add: no_call_def)+
  moreover have "parse_unary fl (parse_expr fl m) (c @ ?close) = Some (Inr (r, ?close))"
    using bin.prems a n by (intro bin.IH) (simp_all add: no_call_def)
  ultimately have "parse_or fl (parse_expr fl m) (b @ (binary_token op, j) # c @ ?close) =
      Some (Inr (ExprBinary op l r, ?close))"
    by (rule parse_or_binary) (simp add: closed_def)
  then show ?case
    using a n(1) by (simp add: parse_primary_def on_parsed_def expect_def)
qed

section \<open>Properties\<close>

text \<open>
  C16. Every well-formed expression the printer can write readably is parsed back to itself from its printed
  text: precedence, associativity, operators, names and literals all survive.
\<close>

theorem expr_round_trip:
  assumes "wf_expr e" and "printable fl e"
  shows "parse_text fl (write_expr fl e) = Some (Inr e)"
proof -
  have "lexes (length (write_expr fl e)) (write_expr fl e @ []) (toks fl e @ [])"
    by (rule lexes_expr [OF assms]) simp_all
  then obtain a where a: "lex_all (length (write_expr fl e)) (write_expr fl e) = Inr a" "map fst a = toks fl e"
    by (auto simp: lexes_def)
  have "parse_unary fl (parse_expr fl (length a)) (a @ []) = Some (Inr (e, []))"
    by (rule parse_unary_reads [OF assms a(2)]) (simp_all add: no_call_def)
  then have "parse_or fl (parse_expr fl (length a)) a = Some (Inr (e, []))"
    by (intro parse_or_single) (simp_all add: closed_def)
  with a(1) show ?thesis
    by (simp add: parse_text_def)
qed

text \<open>Numbers written as text, with their texts as values.\<close>

definition text_float :: "string float64" where
  "text_float =
     \<lparr>fl_parse = Some, fl_const = id, fl_of_int = show_int64, fl_to_int = (\<lambda>_. 0), fl_neg = id, fl_abs = id,
      fl_add = (\<lambda>a _. a), fl_sub = (\<lambda>a _. a), fl_mul = (\<lambda>a _. a), fl_div = (\<lambda>a _. a),
      fl_less = (\<lambda>_ _. False), fl_eq = (=), fl_is_nan = (\<lambda>_. False), fl_is_inf = (\<lambda>_. False),
      fl_trunc = id, fl_sin = id, fl_cos = id, fl_sqrt = id, fl_atan2 = (\<lambda>a _. a), fl_format_f = id,
      fl_format_g = id, fl_format_12g = id\<rparr>"

theorem expr_round_trip_witness:
  "parse_text text_float ''((not f(x, 'a b', 2.5) and (x <= 10)) or -(x * null))'' =
     Some (Inr (ExprBinary BinaryOr
       (ExprBinary BinaryAnd
         (ExprUnary UnaryNot (ExprCall ''f'' [ExprColumn ''x'', ExprLit (LitString ''a b''), ExprLit (LitDouble ''2.5'')]))
         (ExprBinary BinaryLte (ExprColumn ''x'') (ExprLit (LitInteger 10))))
       (ExprUnary UnaryNeg (ExprBinary BinaryMul (ExprColumn ''x'') (ExprLit LitNull)))))"
  (is "parse_text _ ?s = Some (Inr ?e)")
proof -
  have digits: "show_nat 10 = ''10''" "show_int64 0 = ''0''"
    by (simp_all add: show_int64_def show_nat.simps char_of_def bit_Suc_0_iff)
  have "plain_name ''x''" "plain_name ''f''"
    by (simp_all add: plain_name_def ident_name_def reserved_def equal_fold_def to_lower_def to_lower_char_def
        ident_char_def is_alphanumeric_def is_alpha_def number_char_def is_digit_def char_of_def bit_Suc_0_iff)
  then have "wf_expr ?e"
    by simp
  moreover have "printable text_float ?e"
    by (simp add: text_float_def format_rust_float_def has_fractional_def number_char_def is_digit_def
        digits)
  ultimately have "parse_text text_float (write_expr text_float ?e) = Some (Inr ?e)"
    by (rule expr_round_trip)
  moreover have "write_expr text_float ?e = ?s"
    by (simp add: text_float_def format_rust_float_def has_fractional_def show_int64_def digits)
  ultimately show ?thesis by argo
qed

end
