(* ===== verification/Expr_Infer.thy ===== *)
theory Expr_Infer
  imports Expr_Types Expr_Parser
begin

text \<open>
  The function catalogue and the type checker of the pipeline expression language,
  \<^verbatim>\<open>libs/pipeline-expression/catalog.go\<close> and \<^verbatim>\<open>infer.go\<close>. The checker appends every error it meets to a
  slice; here each function returns its errors, in that order. The \<^verbatim>\<open>ok\<close> flag beside a type is an option.
\<close>

section \<open>The catalogue\<close>

datatype param_constraint =
    ParamExactly ptype
  | ParamPromotable ptype
  | ParamNumeric
  | ParamTextual
  | ParamTemporal
  | ParamAny

datatype result_rule =
    ResultFixed ptype
  | ResultPromoteOf "int list"
  | ResultTypeFromStringArg int

record scalar_signature =
  sig_name :: string
  sig_params :: "param_constraint list"
  sig_result :: result_rule

definition string_helpers :: "string list" where
  "string_helpers = [''title_case'', ''lower'', ''upper'', ''trim'', ''clean_string'']"

definition numeric_helpers :: "string list" where
  "numeric_helpers = [''abs'', ''floor'', ''ceil'', ''round'']"

definition haversine_helpers :: "string list" where
  "haversine_helpers = [''haversine_meters'', ''haversine_km'', ''haversine_miles'']"

definition scalar_signature_for :: "string \<Rightarrow> scalar_signature option" where
  "scalar_signature_for name =
     (let n = to_lower name;
          sig = (\<lambda>ps r. Some \<lparr>sig_name = n, sig_params = ps, sig_result = r\<rparr>)
      in if n \<in> set string_helpers then sig [ParamTextual] (ResultFixed TString)
         else if n = ''concat'' then sig [ParamTextual, ParamTextual] (ResultFixed TString)
         else if n \<in> set numeric_helpers then sig [ParamNumeric] (ResultPromoteOf [0])
         else if n \<in> set haversine_helpers then
           sig [ParamNumeric, ParamNumeric, ParamNumeric, ParamNumeric] (ResultFixed TDouble)
         else if n = ''haversine_distance'' then
           sig [ParamNumeric, ParamNumeric, ParamNumeric, ParamNumeric, ParamTextual] (ResultFixed TDouble)
         else if n = ''to_date'' then sig [ParamTextual] (ResultFixed TDate)
         else if n = ''to_timestamp'' then sig [ParamTextual] (ResultFixed TTimestamp)
         else if n = ''cast'' then sig [ParamAny, ParamExactly TString] (ResultTypeFromStringArg 1)
         else if n = ''is_null'' \<or> n = ''is_not_null'' then sig [ParamAny] (ResultFixed TBoolean)
         else if n = ''geom_within'' then
           sig [ParamExactly TGeometry, ParamExactly TGeometry] (ResultFixed TBoolean)
         else None)"

text \<open>The transforms, with the bounds on their inputs.\<close>

record transform_signature =
  ts_name :: string
  ts_min_inputs :: nat
  ts_max_inputs :: nat
  ts_required :: "string list"

definition max_inputs_unbounded :: nat where
  "max_inputs_unbounded = 2 ^ 63 - 1"

definition transforms :: "transform_signature list" where
  "transforms =
     [\<lparr>ts_name = ''cast'', ts_min_inputs = 1, ts_max_inputs = 1, ts_required = [''columns'']\<rparr>,
      \<lparr>ts_name = ''title_case'', ts_min_inputs = 1, ts_max_inputs = 1, ts_required = [''columns'']\<rparr>,
      \<lparr>ts_name = ''clean_string'', ts_min_inputs = 1, ts_max_inputs = 1, ts_required = [''columns'']\<rparr>,
      \<lparr>ts_name = ''filter'', ts_min_inputs = 1, ts_max_inputs = 1, ts_required = [''predicate'']\<rparr>,
      \<lparr>ts_name = ''join'', ts_min_inputs = 2, ts_max_inputs = 2, ts_required = [''how'', ''on'']\<rparr>,
      \<lparr>ts_name = ''union'', ts_min_inputs = 2, ts_max_inputs = max_inputs_unbounded, ts_required = []\<rparr>,
      \<lparr>ts_name = ''group_by'', ts_min_inputs = 1, ts_max_inputs = 1, ts_required = [''keys'', ''aggregations'']\<rparr>,
      \<lparr>ts_name = ''window'', ts_min_inputs = 1, ts_max_inputs = 1, ts_required = [''partition_by'', ''order_by'']\<rparr>,
      \<lparr>ts_name = ''pivot'', ts_min_inputs = 1, ts_max_inputs = 1,
       ts_required = [''pivot_column'', ''value_column'']\<rparr>]"

definition transform_signature_for :: "string \<Rightarrow> transform_signature option" where
  "transform_signature_for name = find (\<lambda>t. ts_name t = to_lower name) transforms"

text \<open>The literals of \<^verbatim>\<open>cast\<close>; arrays nest.\<close>

function parse_type_literal :: "string \<Rightarrow> ptype option" where
  "parse_type_literal literal =
     (let upper = to_upper (trim_space literal) in
      case find (\<lambda>t. kind_name t = upper) plain_types of
        Some t \<Rightarrow> Some t
      | None \<Rightarrow>
          if has_prefix upper ''ARRAY<'' \<and> has_suffix upper ''>'' then
            (case parse_type_literal (take (length upper - 1 - 6) (drop 6 upper)) of
               None \<Rightarrow> None
             | Some t \<Rightarrow> Some (TArray (Some t)))
          else None)"
  by pat_completeness auto

lemma length_trim_space: "length (trim_space s) \<le> length s"
  using length_dropWhile_le [of is_space s] length_dropWhile_le [of is_space "rev (trim_left s)"]
  by (simp add: trim_space_def trim_left_def)

termination parse_type_literal
proof (relation "measure length")
  fix literal upper
  assume upper: "upper = to_upper (trim_space literal)" and "has_prefix upper ''ARRAY<'' \<and> has_suffix upper ''>''"
  then have "length (take (length ''ARRAY<'') upper) = length ''ARRAY<''"
    by (simp only: has_prefix_def)
  then have "6 \<le> length upper"
    by simp
  moreover have "length upper \<le> length literal"
    using upper length_trim_space [of literal] by (simp add: to_upper_def)
  ultimately show "(take (length upper - 1 - 6) (drop 6 upper), literal) \<in> measure length"
    by simp
qed simp

declare parse_type_literal.simps [simp del]

section \<open>Environments and errors\<close>

type_synonym column_env = "string \<Rightarrow> ptype option"

definition new_column_env :: column_env where
  "new_column_env = Map.empty"

text \<open>\<^verbatim>\<open>With\<close> copies and \<^verbatim>\<open>Insert\<close> updates in place: the same map.\<close>

definition env_with :: "column_env \<Rightarrow> string \<Rightarrow> ptype \<Rightarrow> column_env" where
  "env_with env name ty = env(name \<mapsto> ty)"

definition env_lookup :: "column_env \<Rightarrow> string \<Rightarrow> ptype option" where
  "env_lookup env name = env name"

datatype type_error =
    TypeErrUnknownColumn string
  | TypeErrUnknownFunction string
  | TypeErrArity string nat nat
  | TypeErrArgType string int string string
  | TypeErrBinaryOp string string string
  | TypeErrUnaryOp string string
  | TypeErrInvalidCastTarget string

definition quoted :: "string \<Rightarrow> string" where
  "quoted s = CHR 0x27 # s @ [CHR 0x27]"

definition show_int :: "int \<Rightarrow> string" where
  "show_int i = (if i < 0 then CHR ''-'' # show_nat (nat (- i)) else show_nat (nat i))"

fun type_error_text :: "type_error \<Rightarrow> string" where
  "type_error_text (TypeErrUnknownColumn n) = ''unknown column '' @ quoted n"
| "type_error_text (TypeErrUnknownFunction n) = ''unknown function '' @ quoted n"
| "type_error_text (TypeErrArity n e g) =
     ''function '' @ quoted n @ '' expects '' @ show_nat e @ '' args, got '' @ show_nat g"
| "type_error_text (TypeErrArgType n i e g) =
     ''function '' @ quoted n @ '' arg '' @ show_int i @ '': expected '' @ e @ '', got '' @ g"
| "type_error_text (TypeErrBinaryOp op l r) =
     ''operator '' @ quoted op @ '' is not defined for '' @ l @ '' and '' @ r"
| "type_error_text (TypeErrUnaryOp op t) = ''operator '' @ quoted op @ '' is not defined for '' @ t"
| "type_error_text (TypeErrInvalidCastTarget t) =
     ''cast target literal must be a known type, got '' @ quoted t"

definition kind_detail :: "string \<Rightarrow> json \<Rightarrow> json" where
  "kind_detail k d = JObj [(''kind'', JStr k), (''detail'', d)]"

fun type_error_json :: "type_error \<Rightarrow> json" where
  "type_error_json (TypeErrUnknownColumn n) = kind_detail ''UnknownColumn'' (JStr n)"
| "type_error_json (TypeErrUnknownFunction n) = kind_detail ''UnknownFunction'' (JStr n)"
| "type_error_json (TypeErrInvalidCastTarget t) = kind_detail ''InvalidCastTarget'' (JStr t)"
| "type_error_json (TypeErrArity n e g) =
     kind_detail ''Arity'' (JObj [(''name'', JStr n), (''expected'', JNum (int e)), (''got'', JNum (int g))])"
| "type_error_json (TypeErrArgType n i e g) =
     kind_detail ''ArgType''
       (JObj [(''name'', JStr n), (''index'', JNum i), (''expected'', JStr e), (''got'', JStr g)])"
| "type_error_json (TypeErrBinaryOp op l r) =
     kind_detail ''BinaryOp'' (JObj [(''op'', JStr op), (''left'', JStr l), (''right'', JStr r)])"
| "type_error_json (TypeErrUnaryOp op t) =
     kind_detail ''UnaryOp'' (JObj [(''op'', JStr op), (''ty'', JStr t)])"

section \<open>The checker\<close>

type_synonym inferred = "ptype option \<times> type_error list"

fun lit_type :: "'d literal \<Rightarrow> ptype" where
  "lit_type (LitBool _) = TBoolean"
| "lit_type (LitInteger _) = TInteger"
| "lit_type (LitDouble _) = TDouble"
| "lit_type (LitString _) = TString"
| "lit_type LitNull = TString"

fun check_constraint :: "string \<Rightarrow> int \<Rightarrow> ptype \<Rightarrow> param_constraint \<Rightarrow> type_error list" where
  "check_constraint name index actual ParamAny = []"
| "check_constraint name index actual (ParamExactly t) =
     (if \<not> type_equal actual t then [TypeErrArgType name index (type_name t) (type_name actual)] else [])"
| "check_constraint name index actual (ParamPromotable t) =
     (if \<not> can_promote actual t
      then [TypeErrArgType name index (''promotable to '' @ type_name t) (type_name actual)] else [])"
| "check_constraint name index actual ParamNumeric =
     (if \<not> is_numeric actual then [TypeErrArgType name index ''numeric'' (type_name actual)] else [])"
| "check_constraint name index actual ParamTextual =
     (if \<not> is_textual actual then [TypeErrArgType name index ''string'' (type_name actual)] else [])"
| "check_constraint name index actual ParamTemporal =
     (if \<not> is_temporal actual then [TypeErrArgType name index ''date or timestamp'' (type_name actual)] else [])"

definition type_unary :: "unary_op \<Rightarrow> ptype \<Rightarrow> inferred" where
  "type_unary op inner =
     (case op of
        UnaryNeg \<Rightarrow>
          if is_numeric inner then (Some inner, []) else (None, [TypeErrUnaryOp ''-'' (type_name inner)])
      | UnaryNot \<Rightarrow>
          if inner = TBoolean then (Some TBoolean, []) else (None, [TypeErrUnaryOp ''not'' (type_name inner)]))"

definition type_binary :: "binary_op \<Rightarrow> ptype \<Rightarrow> ptype \<Rightarrow> inferred" where
  "type_binary op l r =
     (let err = (None, [TypeErrBinaryOp (binary_op_name op) (type_name l) (type_name r)]) in
      if is_logical op then (if l = TBoolean \<and> r = TBoolean then (Some TBoolean, []) else err)
      else if is_comparison op then
        (if is_numeric l \<and> is_numeric r \<or> is_textual l \<and> is_textual r \<or> is_temporal l \<and> is_temporal r \<or>
            type_equal l r
         then (Some TBoolean, []) else err)
      else if is_numeric l \<and> is_numeric r then (promote l r, [])
      else if op = BinaryAdd \<and> is_textual l \<and> is_textual r then (Some TString, [])
      else err)"

text \<open>The least upper bound of the arguments a rule lists; arguments without a type are left out.\<close>

definition arg_at :: "'a option list \<Rightarrow> int \<Rightarrow> 'a option" where
  "arg_at tys i = (if i < 0 \<or> int (length tys) \<le> i then None else tys ! nat i)"

fun promote_args :: "ptype option list \<Rightarrow> int list \<Rightarrow> ptype option \<Rightarrow> ptype option" where
  "promote_args tys [] out = out"
| "promote_args tys (i # is) out =
     (case arg_at tys i of
        None \<Rightarrow> promote_args tys is out
      | Some t \<Rightarrow>
          (case out of
             None \<Rightarrow> promote_args tys is (Some t)
           | Some u \<Rightarrow>
               (case promote u t of
                  None \<Rightarrow> None
                | Some v \<Rightarrow> promote_args tys is (Some v))))"

definition not_a_literal :: "string \<Rightarrow> int \<Rightarrow> type_error" where
  "not_a_literal name i = TypeErrArgType name i ''STRING literal'' ''expression''"

fun apply_rule :: "string \<Rightarrow> 'd expr list \<Rightarrow> ptype option list \<Rightarrow> result_rule \<Rightarrow> inferred" where
  "apply_rule name args tys (ResultFixed t) = (Some t, [])"
| "apply_rule name args tys (ResultPromoteOf is) = (promote_args tys is None, [])"
| "apply_rule name args tys (ResultTypeFromStringArg i) =
     (if i < 0 \<or> int (length args) \<le> i then (None, [not_a_literal name i])
      else (case args ! nat i of
              ExprLit (LitString s) \<Rightarrow>
                (case parse_type_literal s of
                   None \<Rightarrow> (None, [TypeErrInvalidCastTarget s])
                 | Some t \<Rightarrow> (Some t, []))
            | _ \<Rightarrow> (None, [not_a_literal name i])))"

text \<open>The arguments of a call are checked in order, each against its constraint.\<close>

fun check_args :: "string \<Rightarrow> int \<Rightarrow> inferred list \<Rightarrow> param_constraint list \<Rightarrow> type_error list" where
  "check_args name i ((t, es) # rs) (c # cs) =
     es @ (case t of None \<Rightarrow> [] | Some t' \<Rightarrow> check_constraint name i t' c) @ check_args name (i + 1) rs cs"
| "check_args name i _ _ = []"

definition infer_call :: "string \<Rightarrow> 'd expr list \<Rightarrow> inferred list \<Rightarrow> inferred" where
  "infer_call name args rs =
     (case scalar_signature_for name of
        None \<Rightarrow> (None, [TypeErrUnknownFunction name])
      | Some sig \<Rightarrow>
          if length args \<noteq> length (sig_params sig)
          then (None, [TypeErrArity name (length (sig_params sig)) (length args)])
          else (case apply_rule name args (map fst rs) (sig_result sig) of
                  (t, es) \<Rightarrow> (t, check_args name 0 rs (sig_params sig) @ es)))"

fun infer_inner :: "column_env \<Rightarrow> 'd expr \<Rightarrow> inferred" where
  "infer_inner env (ExprLit l) = (Some (lit_type l), [])"
| "infer_inner env (ExprColumn n) =
     (case env_lookup env n of None \<Rightarrow> (None, [TypeErrUnknownColumn n]) | Some t \<Rightarrow> (Some t, []))"
| "infer_inner env (ExprUnary op e) =
     (case infer_inner env e of
        (None, es) \<Rightarrow> (None, es)
      | (Some t, es) \<Rightarrow> (case type_unary op t of (r, es') \<Rightarrow> (r, es @ es')))"
| "infer_inner env (ExprBinary op l r) =
     (case (infer_inner env l, infer_inner env r) of
        ((Some t, es), (Some u, fs)) \<Rightarrow> (case type_binary op t u of (v, gs) \<Rightarrow> (v, es @ fs @ gs))
      | ((_, es), (_, fs)) \<Rightarrow> (None, es @ fs))"
| "infer_inner env (ExprCall name args) = infer_call name args (map (infer_inner env) args)"

definition infer_expr :: "'d expr \<Rightarrow> column_env \<Rightarrow> type_error list + ptype" where
  "infer_expr e env =
     (case infer_inner env e of
        (t, errs) \<Rightarrow>
          if errs \<noteq> [] then Inl errs
          else (case t of None \<Rightarrow> Inr TString | Some t' \<Rightarrow> Inr t'))"

end
