(* ===== verification/Geo_Distance.thy ===== *)
theory Geo_Distance
  imports Float64
begin

text \<open>
  Distances on the earth, \<^verbatim>\<open>libs/geospatial-core/distance.go\<close>, with the checks of \<^verbatim>\<open>types.go\<close> and the formula of
  \<^verbatim>\<open>gpx.go\<close>. The arithmetic is that of the record of floating-point operations, in the order of the code.
\<close>

datatype distance_unit = DistanceUnitMeters | DistanceUnitKilometers | DistanceUnitMiles

definition parse_distance_unit :: "string \<Rightarrow> string + distance_unit" where
  "parse_distance_unit value =
     (let u = to_lower (trim_space value) in
      if u \<in> {'''', ''m'', ''meter'', ''meters'', ''metre'', ''metres''} then Inr DistanceUnitMeters
      else if u \<in> {''km'', ''kilometer'', ''kilometers'', ''kilometre'', ''kilometres''}
      then Inr DistanceUnitKilometers
      else if u \<in> {''mi'', ''mile'', ''miles''} then Inr DistanceUnitMiles
      else Inl (''unsupported distance unit '' @ go_quote value @ '': expected meters, km, or miles''))"

definition finite_float :: "'d float64 \<Rightarrow> 'd \<Rightarrow> bool" where
  "finite_float fl d \<longleftrightarrow> \<not> fl_is_nan fl d \<and> \<not> fl_is_inf fl d"

definition validate_latitude_longitude :: "'d float64 \<Rightarrow> 'd \<Rightarrow> 'd \<Rightarrow> string option" where
  "validate_latitude_longitude fl lat lon =
     (if \<not> finite_float fl lat \<or> \<not> finite_float fl lon then
        Some ''latitude and longitude must be finite numbers''
      else if fl_less fl lat (fl_of_int fl (- 90)) \<or> fl_less fl (fl_of_int fl 90) lat then
        Some (''latitude '' @ fl_format_12g fl lat @ '' out of range [-90, 90]'')
      else if fl_less fl lon (fl_of_int fl (- 180)) \<or> fl_less fl (fl_of_int fl 180) lon then
        Some (''longitude '' @ fl_format_12g fl lon @ '' out of range [-180, 180]'')
      else None)"

definition degrees_to_radians :: "'d float64 \<Rightarrow> 'd \<Rightarrow> 'd" where
  "degrees_to_radians fl v =
     fl_div fl (fl_mul fl v (fl_const fl ''3.14159265358979323846264338327950288419716939937510582097494459''))
       (fl_of_int fl 180)"

text \<open>The constant \<^verbatim>\<open>earthRadiusM * 2\<close> is folded by the compiler.\<close>

definition haversine_meters :: "'d float64 \<Rightarrow> 'd \<Rightarrow> 'd \<Rightarrow> 'd \<Rightarrow> 'd \<Rightarrow> 'd" where
  "haversine_meters fl lat1 lon1 lat2 lon2 =
     (let lat1_rad = degrees_to_radians fl lat1; lat2_rad = degrees_to_radians fl lat2;
          d_lat = degrees_to_radians fl (fl_sub fl lat2 lat1);
          d_lon = degrees_to_radians fl (fl_sub fl lon2 lon1);
          sin_lat = fl_sin fl (fl_div fl d_lat (fl_of_int fl 2));
          sin_lon = fl_sin fl (fl_div fl d_lon (fl_of_int fl 2));
          a = fl_add fl (fl_mul fl sin_lat sin_lat)
                (fl_mul fl (fl_mul fl (fl_mul fl (fl_cos fl lat1_rad) (fl_cos fl lat2_rad)) sin_lon) sin_lon)
      in fl_mul fl (fl_const fl ''12742017.6'')
           (fl_atan2 fl (fl_sqrt fl a) (fl_sqrt fl (fl_sub fl (fl_of_int fl 1) a))))"

definition haversine_distance ::
  "'d float64 \<Rightarrow> 'd \<Rightarrow> 'd \<Rightarrow> 'd \<Rightarrow> 'd \<Rightarrow> string \<Rightarrow> string + 'd" where
  "haversine_distance fl lat1 lon1 lat2 lon2 unit =
     (case validate_latitude_longitude fl lat1 lon1 of
        Some err \<Rightarrow> Inl (''invalid start coordinate: '' @ err)
      | None \<Rightarrow>
          (case validate_latitude_longitude fl lat2 lon2 of
             Some err \<Rightarrow> Inl (''invalid end coordinate: '' @ err)
           | None \<Rightarrow>
               and_then (parse_distance_unit unit) (\<lambda>u.
                 let meters = haversine_meters fl lat1 lon1 lat2 lon2 in
                 case u of
                   DistanceUnitMeters \<Rightarrow> Inr meters
                 | DistanceUnitKilometers \<Rightarrow> Inr (fl_div fl meters (fl_of_int fl 1000))
                 | DistanceUnitMiles \<Rightarrow> Inr (fl_mul fl meters (fl_const fl ''0.000621371192237334'')))))"

end
