(* ===== verification/Expr_Eval.thy ===== *)
theory Expr_Eval
  imports Expr_Infer Geo_Distance
begin

text \<open>
  The row evaluator of the pipeline expression language, \<^verbatim>\<open>libs/pipeline-expression/eval.go\<close>. Integers are 64
  bits wide and wrap around; doubles are those of the record of floating-point operations.
\<close>

section \<open>Values\<close>

datatype 'd eval_value =
    EvalBool bool
  | EvalInt "64 word"
  | EvalDouble 'd
  | EvalString string
  | EvalNull

fun eval_equal :: "'d float64 \<Rightarrow> 'd eval_value \<Rightarrow> 'd eval_value \<Rightarrow> bool" where
  "eval_equal fl (EvalBool a) (EvalBool b) = (a = b)"
| "eval_equal fl (EvalInt a) (EvalInt b) = (a = b)"
| "eval_equal fl (EvalDouble a) (EvalDouble b) = fl_eq fl a b"
| "eval_equal fl (EvalString a) (EvalString b) = (a = b)"
| "eval_equal fl EvalNull EvalNull = True"
| "eval_equal fl _ _ = False"

text \<open>
  A raw JSON message, as far as the evaluator looks into it: a number keeps its bytes. \<open>RawInvalid\<close> is an
  empty message or one that does not parse.
\<close>

datatype raw_json =
    RawInvalid
  | RawNull
  | RawBool bool
  | RawNumber string
  | RawString string
  | RawCompound

type_synonym row = "string \<Rightarrow> raw_json option"

definition looks_like_float_json :: "string \<Rightarrow> bool" where
  "looks_like_float_json raw \<longleftrightarrow> (\<exists>b\<in>set raw. b \<in> {CHR ''.'', CHR ''e'', CHR ''E''})"

definition min_int64 :: "64 word" where "min_int64 = 2 ^ 63"
definition max_int64 :: "64 word" where "max_int64 = 2 ^ 63 - 1"

definition from_number :: "'d float64 \<Rightarrow> string \<Rightarrow> 'd eval_value" where
  "from_number fl raw =
     (case fl_parse fl raw of
        None \<Rightarrow> EvalNull
      | Some v \<Rightarrow>
          if fl_eq fl v (fl_trunc fl v) \<and> fl_le fl (fl_of_int fl min_int64) v \<and>
             fl_le fl v (fl_of_int fl max_int64) \<and> \<not> looks_like_float_json raw
          then EvalInt (fl_to_int fl v) else EvalDouble v)"

fun eval_value_from_json :: "'d float64 \<Rightarrow> raw_json \<Rightarrow> 'd eval_value" where
  "eval_value_from_json fl (RawBool b) = EvalBool b"
| "eval_value_from_json fl (RawNumber n) = from_number fl n"
| "eval_value_from_json fl (RawString s) = EvalString s"
| "eval_value_from_json fl RawNull = EvalNull"
| "eval_value_from_json fl RawCompound = EvalNull"
| "eval_value_from_json fl RawInvalid = EvalNull"

fun eval_to_json :: "'d float64 \<Rightarrow> 'd eval_value \<Rightarrow> raw_json" where
  "eval_to_json fl (EvalBool b) = RawBool b"
| "eval_to_json fl (EvalInt i) = RawNumber (show_int64 i)"
| "eval_to_json fl (EvalDouble d) =
     (if fl_is_nan fl d \<or> fl_is_inf fl d then RawNull else RawNumber (fl_format_g fl d))"
| "eval_to_json fl (EvalString s) = RawString s"
| "eval_to_json fl EvalNull = RawNull"

fun type_hint :: "'d eval_value \<Rightarrow> ptype" where
  "type_hint (EvalBool _) = TBoolean"
| "type_hint (EvalInt _) = TInteger"
| "type_hint (EvalDouble _) = TDouble"
| "type_hint (EvalString _) = TString"
| "type_hint EvalNull = TString"

fun type_hint_debug :: "ptype \<Rightarrow> string" and fields_debug :: "(string \<times> ptype) list \<Rightarrow> string list" where
  "type_hint_debug (TArray None) = ''Array { inner: ? }''"
| "type_hint_debug (TArray (Some t)) = ''Array { inner: '' @ type_hint_debug t @ '' }''"
| "type_hint_debug (TStruct fs) = ''Struct { fields: ['' @ join_with '', '' (fields_debug fs) @ ''] }''"
| "type_hint_debug t = type_name t"
| "fields_debug [] = []"
| "fields_debug ((n, t) # fs) = (''('' @ go_quote n @ '', '' @ type_hint_debug t @ '')'') # fields_debug fs"

definition hint :: "'d eval_value \<Rightarrow> string" where
  "hint v = type_hint_debug (type_hint v)"

section \<open>Errors\<close>

datatype eval_error =
    EvalErrUnknownColumn string
  | EvalErrUnknownFunction string
  | EvalErrArity string nat nat
  | EvalErrTypeMismatch string

fun eval_error_text :: "eval_error \<Rightarrow> string" where
  "eval_error_text (EvalErrUnknownColumn n) = ''unknown column '' @ quoted n"
| "eval_error_text (EvalErrUnknownFunction n) = ''unknown function '' @ quoted n"
| "eval_error_text (EvalErrArity n e g) =
     ''function '' @ quoted n @ '' expects '' @ show_nat e @ '' args, got '' @ show_nat g"
| "eval_error_text (EvalErrTypeMismatch m) = m"

type_synonym 'd evaled = "eval_error + 'd eval_value"

definition type_mismatch_op :: "string \<Rightarrow> 'd eval_value \<Rightarrow> 'd eval_value \<Rightarrow> eval_error" where
  "type_mismatch_op op l r =
     EvalErrTypeMismatch (''operator '' @ quoted op @ '' not defined for '' @ hint l @ '' and '' @ hint r)"

section \<open>Operators\<close>

fun eval_lit :: "'d literal \<Rightarrow> 'd eval_value" where
  "eval_lit (LitBool b) = EvalBool b"
| "eval_lit (LitInteger i) = EvalInt i"
| "eval_lit (LitDouble d) = EvalDouble d"
| "eval_lit (LitString s) = EvalString s"
| "eval_lit LitNull = EvalNull"

fun eval_unary :: "'d float64 \<Rightarrow> unary_op \<Rightarrow> 'd eval_value \<Rightarrow> 'd evaled" where
  "eval_unary fl UnaryNeg v =
     (case v of
        EvalInt i \<Rightarrow> Inr (EvalInt (- i))
      | EvalDouble d \<Rightarrow> Inr (EvalDouble (fl_neg fl d))
      | _ \<Rightarrow> Inl (EvalErrTypeMismatch (''unary '' @ quoted ''-'' @ '' not defined for '' @ hint v)))"
| "eval_unary fl UnaryNot v =
     (case v of
        EvalBool b \<Rightarrow> Inr (EvalBool (\<not> b))
      | _ \<Rightarrow> Inl (EvalErrTypeMismatch (''unary '' @ quoted ''not'' @ '' not defined for '' @ hint v)))"

definition arith ::
  "'d float64 \<Rightarrow> 'd eval_value \<Rightarrow> 'd eval_value \<Rightarrow> (64 word \<Rightarrow> 64 word \<Rightarrow> 64 word) \<Rightarrow> ('d \<Rightarrow> 'd \<Rightarrow> 'd) \<Rightarrow> string \<Rightarrow>
   'd evaled" where
  "arith fl l r f_int f_double op =
     (case (l, r) of
        (EvalInt a, EvalInt b) \<Rightarrow> Inr (EvalInt (f_int a b))
      | (EvalInt a, EvalDouble b) \<Rightarrow> Inr (EvalDouble (f_double (fl_of_int fl a) b))
      | (EvalDouble a, EvalInt b) \<Rightarrow> Inr (EvalDouble (f_double a (fl_of_int fl b)))
      | (EvalDouble a, EvalDouble b) \<Rightarrow> Inr (EvalDouble (f_double a b))
      | _ \<Rightarrow> Inl (type_mismatch_op op l r))"

definition arith_add :: "'d float64 \<Rightarrow> 'd eval_value \<Rightarrow> 'd eval_value \<Rightarrow> 'd evaled" where
  "arith_add fl l r =
     (case (l, r) of
        (EvalString a, EvalString b) \<Rightarrow> Inr (EvalString (a @ b))
      | _ \<Rightarrow> arith fl l r (+) (fl_add fl) ''+'')"

text \<open>A division by zero of the same kind is null; the guard keeps the integer division from panicking.\<close>

definition arith_div :: "'d float64 \<Rightarrow> 'd eval_value \<Rightarrow> 'd eval_value \<Rightarrow> 'd evaled" where
  "arith_div fl l r =
     (if (case (l, r) of
            (EvalInt _, EvalInt b) \<Rightarrow> b = 0
          | (EvalDouble _, EvalDouble b) \<Rightarrow> fl_eq fl b (fl_of_int fl 0)
          | _ \<Rightarrow> False)
      then Inr EvalNull
      else arith fl l r go_quot (fl_div fl) ''/'')"

definition cmp_int64 :: "64 word \<Rightarrow> 64 word \<Rightarrow> int" where
  "cmp_int64 a b = (if sint a < sint b then - 1 else if sint b < sint a then 1 else 0)"

definition cmp_bool :: "bool \<Rightarrow> bool \<Rightarrow> int" where
  "cmp_bool a b = (if \<not> a \<and> b then - 1 else if a \<and> \<not> b then 1 else 0)"

definition f64_cmp :: "'d float64 \<Rightarrow> 'd \<Rightarrow> 'd \<Rightarrow> eval_error + int" where
  "f64_cmp fl a b =
     (if fl_is_nan fl a \<or> fl_is_nan fl b then Inl (EvalErrTypeMismatch ''NaN comparison'')
      else Inr (if fl_less fl a b then - 1 else if fl_less fl b a then 1 else 0))"

text \<open>\<^verbatim>\<open>strings.Compare\<close>: byte by byte.\<close>

fun compare_strings :: "string \<Rightarrow> string \<Rightarrow> int" where
  "compare_strings [] [] = 0"
| "compare_strings [] (_ # _) = - 1"
| "compare_strings (_ # _) [] = 1"
| "compare_strings (a # as) (b # bs) =
     (let m = (of_char a :: nat); n = of_char b in
      if m < n then - 1 else if n < m then 1 else compare_strings as bs)"

definition compare_values :: "'d float64 \<Rightarrow> 'd eval_value \<Rightarrow> 'd eval_value \<Rightarrow> eval_error + int" where
  "compare_values fl l r =
     (case (l, r) of
        (EvalInt a, EvalInt b) \<Rightarrow> Inr (cmp_int64 a b)
      | (EvalInt a, EvalDouble b) \<Rightarrow> f64_cmp fl (fl_of_int fl a) b
      | (EvalDouble a, EvalInt b) \<Rightarrow> f64_cmp fl a (fl_of_int fl b)
      | (EvalDouble a, EvalDouble b) \<Rightarrow> f64_cmp fl a b
      | (EvalString a, EvalString b) \<Rightarrow> Inr (compare_strings a b)
      | (EvalBool a, EvalBool b) \<Rightarrow> Inr (cmp_bool a b)
      | (EvalNull, _) \<Rightarrow> Inr 0
      | (_, EvalNull) \<Rightarrow> Inr 0
      | _ \<Rightarrow> Inl (type_mismatch_op ''compare'' l r))"

definition f64_epsilon :: "'d float64 \<Rightarrow> 'd" where
  "f64_epsilon fl = fl_const fl ''2.220446049250313e-16''"

definition value_eq :: "'d float64 \<Rightarrow> 'd eval_value \<Rightarrow> 'd eval_value \<Rightarrow> bool" where
  "value_eq fl l r =
     (case (l, r) of
        (EvalInt a, EvalDouble b) \<Rightarrow> fl_less fl (fl_abs fl (fl_sub fl (fl_of_int fl a) b)) (f64_epsilon fl)
      | (EvalDouble a, EvalInt b) \<Rightarrow> fl_less fl (fl_abs fl (fl_sub fl a (fl_of_int fl b))) (f64_epsilon fl)
      | _ \<Rightarrow> eval_equal fl l r)"

definition eval_compare ::
  "'d float64 \<Rightarrow> (int \<Rightarrow> bool) \<Rightarrow> 'd eval_value \<Rightarrow> 'd eval_value \<Rightarrow> 'd evaled" where
  "eval_compare fl p l r = and_then (compare_values fl l r) (\<lambda>ord. Inr (EvalBool (p ord)))"

definition eval_logical ::
  "(bool \<Rightarrow> bool \<Rightarrow> bool) \<Rightarrow> string \<Rightarrow> 'd eval_value \<Rightarrow> 'd eval_value \<Rightarrow> 'd evaled" where
  "eval_logical f op l r =
     (case (l, r) of
        (EvalBool a, EvalBool b) \<Rightarrow> Inr (EvalBool (f a b))
      | _ \<Rightarrow> Inl (type_mismatch_op op l r))"

fun eval_binary :: "'d float64 \<Rightarrow> binary_op \<Rightarrow> 'd eval_value \<Rightarrow> 'd eval_value \<Rightarrow> 'd evaled" where
  "eval_binary fl BinaryAnd l r = eval_logical (\<and>) ''and'' l r"
| "eval_binary fl BinaryOr l r = eval_logical (\<or>) ''or'' l r"
| "eval_binary fl BinaryEq l r = Inr (EvalBool (value_eq fl l r))"
| "eval_binary fl BinaryNotEq l r = Inr (EvalBool (\<not> value_eq fl l r))"
| "eval_binary fl BinaryLt l r = eval_compare fl (\<lambda>n. n < 0) l r"
| "eval_binary fl BinaryLte l r = eval_compare fl (\<lambda>n. n \<le> 0) l r"
| "eval_binary fl BinaryGt l r = eval_compare fl (\<lambda>n. 0 < n) l r"
| "eval_binary fl BinaryGte l r = eval_compare fl (\<lambda>n. 0 \<le> n) l r"
| "eval_binary fl BinaryAdd l r = arith_add fl l r"
| "eval_binary fl BinarySub l r = arith fl l r (-) (fl_sub fl) ''-''"
| "eval_binary fl BinaryMul l r = arith fl l r (*) (fl_mul fl) ''*''"
| "eval_binary fl BinaryDiv l r = arith_div fl l r"

section \<open>Functions\<close>

fun title_loop :: "bool \<Rightarrow> string \<Rightarrow> string" where
  "title_loop prev_alpha [] = []"
| "title_loop prev_alpha (c # cs) =
     (if is_alpha c then (if prev_alpha then to_lower_char c else to_upper_char c) # title_loop True cs
      else c # title_loop False cs)"

definition to_title_case :: "string \<Rightarrow> string" where
  "to_title_case s = title_loop False s"

definition clean_string :: "string \<Rightarrow> string" where
  "clean_string s = join_with '' '' (Prelude.fields s)"

definition cannot_cast :: "string \<Rightarrow> string \<Rightarrow> eval_error" where
  "cannot_cast s target = EvalErrTypeMismatch (''cannot cast '' @ quoted s @ '' to '' @ target)"

text \<open>What \<^verbatim>\<open>castValue\<close> does when no case of the switch returns.\<close>

definition cast_rest :: "'d eval_value \<Rightarrow> string \<Rightarrow> 'd evaled" where
  "cast_rest v upper =
     (if v = EvalNull then Inr EvalNull
      else Inl (EvalErrTypeMismatch (''cannot cast '' @ hint v @ '' to '' @ upper)))"

definition cast_to_int :: "'d float64 \<Rightarrow> 'd eval_value \<Rightarrow> string \<Rightarrow> 'd evaled" where
  "cast_to_int fl v upper =
     (case v of
        EvalInt i \<Rightarrow> Inr v
      | EvalDouble d \<Rightarrow> Inr (EvalInt (fl_to_int fl d))
      | EvalString s \<Rightarrow>
          (case parse_int64 s of None \<Rightarrow> Inl (cannot_cast s upper) | Some i \<Rightarrow> Inr (EvalInt i))
      | _ \<Rightarrow> cast_rest v upper)"

definition cast_value :: "'d float64 \<Rightarrow> 'd eval_value \<Rightarrow> string \<Rightarrow> 'd evaled" where
  "cast_value fl v target =
     (let upper = to_upper (trim_space target) in
      if upper = ''STRING'' then
        (case v of
           EvalString _ \<Rightarrow> Inr v
         | EvalInt i \<Rightarrow> Inr (EvalString (show_int64 i))
         | EvalDouble d \<Rightarrow> Inr (EvalString (fl_format_g fl d))
         | EvalBool b \<Rightarrow> Inr (EvalString (if b then ''true'' else ''false''))
         | EvalNull \<Rightarrow> Inr (EvalString []))
      else if upper = ''INTEGER'' \<or> upper = ''LONG'' then cast_to_int fl v upper
      else if upper = ''DOUBLE'' \<or> upper = ''DECIMAL'' then
        (case v of
           EvalInt i \<Rightarrow> Inr (EvalDouble (fl_of_int fl i))
         | EvalDouble _ \<Rightarrow> Inr v
         | EvalString s \<Rightarrow>
             (case fl_parse fl s of None \<Rightarrow> Inl (cannot_cast s ''DOUBLE'') | Some d \<Rightarrow> Inr (EvalDouble d))
         | _ \<Rightarrow> cast_rest v upper)
      else if upper = ''BOOLEAN'' then
        (case v of
           EvalBool _ \<Rightarrow> Inr v
         | EvalString s \<Rightarrow>
             if to_lower s = ''true'' then Inr (EvalBool True)
             else if to_lower s = ''false'' then Inr (EvalBool False)
             else Inl (cannot_cast s ''BOOLEAN'')
         | _ \<Rightarrow> cast_rest v upper)
      else cast_rest v upper)"

text \<open>
  A call evaluates only the arguments its function uses, and the first error ends it. The results of all
  arguments are handed over; those a branch does not look at have no effect.
\<close>

definition need_arity :: "string \<Rightarrow> 'a list \<Rightarrow> nat \<Rightarrow> 'd evaled \<Rightarrow> 'd evaled" where
  "need_arity name args n r =
     (if length args \<noteq> n then Inl (EvalErrArity name n (length args)) else r)"

definition unary_string :: "string \<Rightarrow> 'd evaled list \<Rightarrow> (string \<Rightarrow> string) \<Rightarrow> 'd evaled" where
  "unary_string name rs f =
     need_arity name rs 1
       (and_then (rs ! 0) (\<lambda>v.
          case v of
            EvalString s \<Rightarrow> Inr (EvalString (f s))
          | EvalNull \<Rightarrow> Inr EvalNull
          | _ \<Rightarrow> Inl (EvalErrTypeMismatch (name @ '' expects String, got '' @ hint v))))"

text \<open>A coordinate, or nothing for a null.\<close>

definition numeric_float_arg :: "'d float64 \<Rightarrow> string \<Rightarrow> nat \<Rightarrow> 'd evaled \<Rightarrow> eval_error + 'd option" where
  "numeric_float_arg fl name index r =
     and_then r (\<lambda>v.
       case v of
         EvalInt i \<Rightarrow> Inr (Some (fl_of_int fl i))
       | EvalDouble d \<Rightarrow> Inr (Some d)
       | EvalNull \<Rightarrow> Inr None
       | _ \<Rightarrow> Inl (EvalErrTypeMismatch
                (name @ '' expects numeric coordinate at argument '' @ show_nat (index + 1) @ '', got '' @ hint v)))"

text \<open>The loop over the four coordinates: an error or a null ends it.\<close>

fun haversine_coords :: "'d float64 \<Rightarrow> string \<Rightarrow> nat \<Rightarrow> 'd evaled list \<Rightarrow> eval_error + 'd list option" where
  "haversine_coords fl name i [] = Inr (Some [])"
| "haversine_coords fl name i (r # rs) =
     and_then (numeric_float_arg fl name i r) (\<lambda>x.
       case x of
         None \<Rightarrow> Inr None
       | Some d \<Rightarrow> and_then (haversine_coords fl name (i + 1) rs) (\<lambda>ds. Inr (map_option ((#) d) ds)))"

definition haversine_unit :: "string \<Rightarrow> string \<Rightarrow> 'd evaled list \<Rightarrow> eval_error + string option" where
  "haversine_unit name fixed rs =
     (if fixed \<noteq> [] then Inr (Some fixed)
      else and_then (rs ! 4) (\<lambda>v.
        case v of
          EvalString s \<Rightarrow> Inr (Some s)
        | EvalNull \<Rightarrow> Inr None
        | _ \<Rightarrow> Inl (EvalErrTypeMismatch (name @ '' expects unit String, got '' @ hint v))))"

definition eval_haversine_distance :: "'d float64 \<Rightarrow> string \<Rightarrow> 'd evaled list \<Rightarrow> string \<Rightarrow> 'd evaled" where
  "eval_haversine_distance fl name rs fixed =
     need_arity name rs (if fixed = [] then 5 else 4)
       (and_then (haversine_coords fl name 0 (take 4 rs)) (\<lambda>coords.
          case coords of
            None \<Rightarrow> Inr EvalNull
          | Some cs \<Rightarrow>
              and_then (haversine_unit name fixed rs) (\<lambda>unit.
                case unit of
                  None \<Rightarrow> Inr EvalNull
                | Some u \<Rightarrow>
                    (case haversine_distance fl (cs ! 0) (cs ! 1) (cs ! 2) (cs ! 3) u of
                       Inl msg \<Rightarrow> Inl (EvalErrTypeMismatch msg)
                     | Inr d \<Rightarrow> Inr (EvalDouble d)))))"

definition eval_concat :: "string \<Rightarrow> 'd evaled list \<Rightarrow> 'd evaled" where
  "eval_concat name rs =
     need_arity name rs 2
       (and_then (rs ! 0) (\<lambda>a. and_then (rs ! 1) (\<lambda>b.
          case (a, b) of
            (EvalString s, EvalString t) \<Rightarrow> Inr (EvalString (s @ t))
          | _ \<Rightarrow> Inl (EvalErrTypeMismatch ''concat expects two strings''))))"

definition eval_abs :: "'d float64 \<Rightarrow> string \<Rightarrow> 'd evaled list \<Rightarrow> 'd evaled" where
  "eval_abs fl name rs =
     need_arity name rs 1
       (and_then (rs ! 0) (\<lambda>v.
          case v of
            EvalInt i \<Rightarrow> Inr (EvalInt (if sint i < 0 then - i else i))
          | EvalDouble d \<Rightarrow> Inr (EvalDouble (fl_abs fl d))
          | _ \<Rightarrow> Inl (EvalErrTypeMismatch (''abs expects numeric, got '' @ hint v))))"

definition cast_target_text :: string where
  "cast_target_text = ''cast target must be a String literal''"

definition eval_cast :: "'d float64 \<Rightarrow> string \<Rightarrow> 'd expr list \<Rightarrow> 'd evaled list \<Rightarrow> 'd evaled" where
  "eval_cast fl name args rs =
     need_arity name args 2
       (and_then (rs ! 0) (\<lambda>v.
          case args ! 1 of
            ExprLit (LitString target) \<Rightarrow> cast_value fl v target
          | _ \<Rightarrow> Inl (EvalErrTypeMismatch cast_target_text)))"

definition eval_call :: "'d float64 \<Rightarrow> string \<Rightarrow> 'd expr list \<Rightarrow> 'd evaled list \<Rightarrow> 'd evaled" where
  "eval_call fl name args rs =
     (let n = to_lower name in
      if n = ''is_null'' then
        need_arity name args 1 (and_then (rs ! 0) (\<lambda>v. Inr (EvalBool (v = EvalNull))))
      else if n = ''is_not_null'' then
        need_arity name args 1 (and_then (rs ! 0) (\<lambda>v. Inr (EvalBool (v \<noteq> EvalNull))))
      else if n = ''title_case'' then
        need_arity name args 1
          (and_then (rs ! 0) (\<lambda>v.
             case v of
               EvalString s \<Rightarrow> Inr (EvalString (to_title_case s))
             | EvalNull \<Rightarrow> Inr EvalNull
             | _ \<Rightarrow> Inl (EvalErrTypeMismatch (''title_case expects String, got '' @ hint v))))
      else if n = ''lower'' then unary_string name rs to_lower
      else if n = ''upper'' then unary_string name rs to_upper
      else if n = ''trim'' then unary_string name rs trim_space
      else if n = ''clean_string'' then unary_string name rs clean_string
      else if n = ''concat'' then eval_concat name rs
      else if n = ''abs'' then eval_abs fl name rs
      else if n = ''haversine_meters'' then eval_haversine_distance fl name rs ''meters''
      else if n = ''haversine_km'' then eval_haversine_distance fl name rs ''km''
      else if n = ''haversine_miles'' then eval_haversine_distance fl name rs ''miles''
      else if n = ''haversine_distance'' then eval_haversine_distance fl name rs []
      else if n = ''cast'' then eval_cast fl name args rs
      else Inl (EvalErrUnknownFunction name))"

fun eval_expr :: "'d float64 \<Rightarrow> row \<Rightarrow> 'd expr \<Rightarrow> 'd evaled" where
  "eval_expr fl row (ExprLit l) = Inr (eval_lit l)"
| "eval_expr fl row (ExprColumn n) =
     (case row n of
        None \<Rightarrow> Inl (EvalErrUnknownColumn n)
      | Some raw \<Rightarrow> Inr (eval_value_from_json fl raw))"
| "eval_expr fl row (ExprUnary op e) = and_then (eval_expr fl row e) (eval_unary fl op)"
| "eval_expr fl row (ExprBinary op l r) =
     and_then (eval_expr fl row l) (\<lambda>a. and_then (eval_expr fl row r) (\<lambda>b. eval_binary fl op a b))"
| "eval_expr fl row (ExprCall name args) = eval_call fl name args (map (eval_expr fl row) args)"

end
