(* ===== verification/Expr_Soundness.thy ===== *)
theory Expr_Soundness
  imports Expr_Eval Expr_Types_Proofs
begin

text \<open>
  The type checker against the evaluator: what an accepted expression can do at run time, when it cannot fail,
  and where the two disagree.
\<close>

section \<open>Values of a type\<close>

text \<open>
  A number column may hold integers or doubles, unless its type is integral; dates, timestamps and geometries
  travel as strings, arrays and structures are read as null.
\<close>

fun conforms :: "ptype \<Rightarrow> 'd eval_value \<Rightarrow> bool" where
  "conforms t EvalNull = True"
| "conforms t (EvalBool _) = (t = TBoolean)"
| "conforms t (EvalInt _) = is_numeric t"
| "conforms t (EvalDouble _) = (t = TDouble \<or> t = TDecimal)"
| "conforms t (EvalString _) = (t \<in> {TString, TDate, TTimestamp, TGeometry})"

definition row_conforms :: "'d float64 \<Rightarrow> column_env \<Rightarrow> row \<Rightarrow> bool" where
  "row_conforms fl env row \<longleftrightarrow>
     (\<forall>n t. env n = Some t \<longrightarrow> (\<exists>raw. row n = Some raw \<and> conforms t (eval_value_from_json fl raw)))"

definition unimplemented :: "string list" where
  "unimplemented = [''floor'', ''ceil'', ''round'', ''to_date'', ''to_timestamp'', ''geom_within'']"

fun runtime_error :: "eval_error \<Rightarrow> bool" where
  "runtime_error (EvalErrTypeMismatch _) = True"
| "runtime_error (EvalErrUnknownFunction n) = (to_lower n \<in> set unimplemented)"
| "runtime_error _ = False"

definition outcome_ok :: "ptype \<Rightarrow> 'd evaled \<Rightarrow> bool" where
  "outcome_ok t r \<longleftrightarrow> (case r of Inl e \<Rightarrow> runtime_error e | Inr v \<Rightarrow> conforms t v)"

lemma outcome_ok_simps [simp]:
  "outcome_ok t (Inl e) = runtime_error e" "outcome_ok t (Inr v) = conforms t v"
  by (simp_all add: outcome_ok_def)

text \<open>A result followed by the rest of a computation.\<close>

lemma outcome_ok_then:
  "outcome_ok t r \<Longrightarrow> (\<And>v. r = Inr v \<Longrightarrow> conforms t v \<Longrightarrow> outcome_ok u (f v)) \<Longrightarrow> outcome_ok u (and_then r f)"
  by (cases r) (simp_all add: and_then_def)

section \<open>Preservation\<close>

lemma numeric_double: "is_numeric t \<Longrightarrow> conforms t (EvalInt i)"
  by simp

lemma promote_numeric:
  assumes "is_numeric l" "is_numeric r"
  obtains t where "promote l r = Some t" "is_numeric t"
    "l = TDouble \<or> l = TDecimal \<or> r = TDouble \<or> r = TDecimal \<Longrightarrow> t = TDouble \<or> t = TDecimal"
  using assms by (cases l; cases r) (simp_all add: promote.simps)

lemma arith_ok:
  assumes "is_numeric l" "is_numeric r" "promote l r = Some t" "conforms l a" "conforms r b"
  shows "outcome_ok t (arith fl a b f g op)"
  using assms by (rule_tac promote_numeric [of l r]) (cases a; cases b; auto simp: arith_def type_mismatch_op_def)+

lemma eval_compare_ok: "outcome_ok TBoolean (eval_compare fl p a b)"
  by (cases a; cases b)
    (simp_all add: eval_compare_def compare_values_def f64_cmp_def type_mismatch_op_def)

lemma eval_logical_ok: "outcome_ok TBoolean (eval_logical f op a b)"
  by (cases a; cases b) (simp_all add: eval_logical_def type_mismatch_op_def)

lemma arith_add_ok:
  assumes "is_numeric l \<and> is_numeric r \<and> promote l r = Some t \<or> t = TString \<and> l = TString \<and> r = TString"
    and "conforms l a" "conforms r b"
  shows "outcome_ok t (arith_add fl a b)"
  using assms(1)
proof
  assume "is_numeric l \<and> is_numeric r \<and> promote l r = Some t"
  with assms(2,3) arith_ok [of l r t a b fl "(+)" "fl_add fl" "''+''"] show ?thesis
    by (cases a; cases b) (auto simp: arith_add_def)
next
  assume "t = TString \<and> l = TString \<and> r = TString"
  with assms(2,3) show ?thesis
    by (cases a; cases b) (simp_all add: arith_add_def arith_def type_mismatch_op_def)
qed

lemma arith_div_ok:
  assumes "is_numeric l" "is_numeric r" "promote l r = Some t" "conforms l a" "conforms r b"
  shows "outcome_ok t (arith_div fl a b)"
  using arith_ok [OF assms] by (simp add: arith_div_def)

lemma type_binary_ok:
  assumes "type_binary op l r = (res, [])"
  obtains t where "res = Some t"
    "\<And>a b. conforms l a \<Longrightarrow> conforms r b \<Longrightarrow> outcome_ok t (eval_binary fl op a b)"
proof (cases "is_logical op")
  case True
  with assms that [of TBoolean] show thesis
    by (cases op) (auto simp: type_binary_def is_logical_def eval_logical_ok split: if_splits)
next
  case False
  show thesis
  proof (cases "is_comparison op")
    case True
    with False assms that [of TBoolean] show thesis
      by (cases op) (auto simp: type_binary_def is_comparison_def eval_compare_ok split: if_splits)
  next
    case no_cmp: False
    show thesis
    proof (cases "is_numeric l \<and> is_numeric r")
      case True
      then obtain t where t: "promote l r = Some t" by (auto elim: promote_numeric)
      have "outcome_ok t (eval_binary fl op a b)" if "conforms l a" "conforms r b" for a b
        using False no_cmp True t that arith_add_ok [of l r t a b fl] arith_ok [of l r t a b fl]
          arith_div_ok [of l r t a b fl]
        by (cases op) (simp_all add: is_comparison_def is_logical_def)
      moreover have "res = Some t"
        using True False no_cmp t assms by (auto simp: type_binary_def)
      ultimately show thesis using that by blast
    next
      case no_num: False
      with False no_cmp assms have "op = BinaryAdd" "l = TString" "r = TString" "res = Some TString"
        by (auto simp: type_binary_def is_textual_def split: if_splits)
      have "outcome_ok TString (eval_binary fl op a b)" if "conforms l a" "conforms r b" for a b
        using that \<open>op = BinaryAdd\<close> \<open>l = TString\<close> \<open>r = TString\<close> arith_add_ok [of l r TString a b fl] by simp
      with \<open>res = Some TString\<close> that show thesis by blast
    qed
  qed
qed

lemma type_unary_ok:
  assumes "type_unary op t = (res, [])"
  obtains u where "res = Some u" "\<And>v. conforms t v \<Longrightarrow> outcome_ok u (eval_unary fl op v)"
proof (cases op)
  case UnaryNeg
  with assms have "res = Some t" "is_numeric t"
    by (auto simp: type_unary_def split: if_splits)
  moreover have "conforms t v \<Longrightarrow> outcome_ok t (eval_unary fl op v)" for v
    using UnaryNeg by (cases v) simp_all
  ultimately show thesis using that by blast
next
  case UnaryNot
  with assms have "res = Some TBoolean"
    by (auto simp: type_unary_def split: if_splits)
  moreover have "outcome_ok TBoolean (eval_unary fl op v)" for v
    using UnaryNot by (cases v) simp_all
  ultimately show thesis using that by blast
qed

section \<open>Calls\<close>

fun meets :: "ptype \<Rightarrow> param_constraint \<Rightarrow> bool" where
  "meets t ParamAny = True"
| "meets t (ParamExactly u) = (t = u)"
| "meets t (ParamPromotable u) = can_promote t u"
| "meets t ParamNumeric = is_numeric t"
| "meets t ParamTextual = (t = TString)"
| "meets t ParamTemporal = is_temporal t"

lemma check_constraint_meets: "check_constraint name i t c = [] \<longleftrightarrow> meets t c"
  by (cases c) (simp_all add: is_textual_def)

lemma check_args_meets:
  assumes "check_args name i rs cs = []" and "length rs = length cs"
  shows "list_all2 (\<lambda>(t, es) c. es = [] \<and> (\<forall>u. t = Some u \<longrightarrow> meets u c)) rs cs"
  using assms
  by (induction name i rs cs rule: check_args.induct)
    (auto simp: check_constraint_meets split: option.splits)

text \<open>The results of the arguments of a call, with their types.\<close>

definition args_ok :: "ptype list \<Rightarrow> param_constraint list \<Rightarrow> 'd evaled list \<Rightarrow> bool" where
  "args_ok ts cs rs \<longleftrightarrow> list_all2 meets ts cs \<and> list_all2 outcome_ok ts rs"

lemma args_ok_Cons:
  "args_ok ts (c # cs) rs \<longleftrightarrow>
     (\<exists>t ts' r rs'. ts = t # ts' \<and> rs = r # rs' \<and> meets t c \<and> outcome_ok t r \<and> args_ok ts' cs rs')"
  "args_ok ts [] rs \<longleftrightarrow> ts = [] \<and> rs = []"
  by (auto simp: args_ok_def list_all2_Cons1 list_all2_Cons2)

lemma unary_string_ok:
  "args_ok ts [ParamTextual] rs \<Longrightarrow> outcome_ok TString (unary_string name rs f)"
  by (auto simp: args_ok_Cons unary_string_def need_arity_def intro!: outcome_ok_then split: eval_value.split)

lemma eval_abs_ok:
  "args_ok ts [ParamNumeric] rs \<Longrightarrow> outcome_ok (hd ts) (eval_abs fl name rs)"
  by (auto simp: args_ok_Cons eval_abs_def need_arity_def intro!: outcome_ok_then split: eval_value.split)

lemma eval_concat_ok:
  "args_ok ts [ParamTextual, ParamTextual] rs \<Longrightarrow> outcome_ok TString (eval_concat name rs)"
  by (auto simp: args_ok_Cons eval_concat_def need_arity_def intro!: outcome_ok_then split: eval_value.split)

lemma cast_value_ok:
  assumes "parse_type_literal target = Some t"
  shows "outcome_ok t (cast_value fl v target)"
proof -
  let ?u = "to_upper (trim_space target)"
  have rest: "outcome_ok u (cast_rest v up)" for u up
    by (cases v) (simp_all add: cast_rest_def)
  have kinds: "t = TBoolean \<longleftrightarrow> ?u = ''BOOLEAN''" "t = TString \<longleftrightarrow> ?u = ''STRING''"
    "t = TInteger \<longleftrightarrow> ?u = ''INTEGER''" "t = TLong \<longleftrightarrow> ?u = ''LONG''" "t = TDouble \<longleftrightarrow> ?u = ''DOUBLE''"
    "t = TDecimal \<longleftrightarrow> ?u = ''DECIMAL''"
    using assms by (subst (asm) parse_type_literal.simps;
      auto simp: plain_types_def Let_def has_prefix_def split: if_splits option.splits)+
  show ?thesis
    using kinds rest
    by (cases v) (auto simp: cast_value_def cast_to_int_def cannot_cast_def split: option.split)
qed

lemma haversine_coords_ok:
  assumes "list_all2 outcome_ok ts rs"
  shows "(\<exists>e. haversine_coords fl name i rs = Inl e \<and> runtime_error e) \<or>
    haversine_coords fl name i rs = Inr None \<or>
    (\<exists>ds. haversine_coords fl name i rs = Inr (Some ds))"
  using assms
proof (induction ts rs arbitrary: i rule: list_all2_induct)
  case (Cons t ts r rs)
  have "(\<exists>e. numeric_float_arg fl name i r = Inl e \<and> runtime_error e) \<or>
      (\<exists>x. numeric_float_arg fl name i r = Inr x)"
    using Cons(1) by (cases r) (auto simp: numeric_float_arg_def split: eval_value.split)
  then show ?case
  proof (elim disjE exE conjE)
    fix x
    assume x: "numeric_float_arg fl name i r = Inr x"
    with Cons.IH [of "i + 1"] show ?thesis
      by (cases x) auto
  qed simp
qed simp

lemma eval_haversine_ok:
  assumes "list_all2 outcome_ok ts rs"
  shows "length rs = (if fixed = [] then 5 else 4) \<Longrightarrow> outcome_ok TDouble (eval_haversine_distance fl name rs fixed)"
proof -
  assume len: "length rs = (if fixed = [] then 5 else 4)"
  have unit: "(\<exists>e. haversine_unit name fixed rs = Inl e \<and> runtime_error e) \<or> (\<exists>x. haversine_unit name fixed rs = Inr x)"
  proof (cases "fixed = []")
    case True
    then have "outcome_ok (ts ! 4) (rs ! 4)"
      using assms len by (auto simp: list_all2_conv_all_nth)
    then show ?thesis
      using True by (cases "rs ! 4") (auto simp: haversine_unit_def split: eval_value.split)
  qed (simp add: haversine_unit_def)
  have "list_all2 outcome_ok (take 4 ts) (take 4 rs)"
    using assms by simp
  from haversine_coords_ok [OF this, of fl name 0] unit len show ?thesis
    by (auto simp: eval_haversine_distance_def need_arity_def split: option.split sum.split)
qed

lemma args_ok_length: "args_ok ts cs rs \<Longrightarrow> length rs = length cs \<and> length ts = length cs"
  using list_all2_lengthD [of meets ts cs] list_all2_lengthD [of outcome_ok ts rs]
  by (simp add: args_ok_def)

lemma eval_predicate_ok:
  "args_ok ts [c] rs \<Longrightarrow> outcome_ok TBoolean (need_arity name args 1 (and_then (rs ! 0) (\<lambda>v. Inr (EvalBool (p v)))))
   \<or> length args \<noteq> 1"
  by (auto simp: args_ok_Cons need_arity_def intro!: outcome_ok_then)

lemma title_case_ok:
  "args_ok ts [ParamTextual] rs \<Longrightarrow> length args = 1 \<Longrightarrow>
   outcome_ok TString (need_arity name args 1 (and_then (rs ! 0) (\<lambda>v.
     case v of EvalString s \<Rightarrow> Inr (EvalString (f s)) | EvalNull \<Rightarrow> Inr EvalNull
     | _ \<Rightarrow> Inl (EvalErrTypeMismatch (msg v)))))"
  by (auto simp: args_ok_Cons need_arity_def intro!: outcome_ok_then split: eval_value.split)

lemma eval_cast_ok:
  assumes "args_ok ts [ParamAny, ParamExactly TString] rs" and "length args = 2"
    and "apply_rule name args tys (ResultTypeFromStringArg 1) = (res, [])"
  obtains t where "res = Some t" "outcome_ok t (eval_cast fl name args rs)"
proof -
  from assms(2) obtain a b where args: "args = [a, b]"
    by (auto simp: length_Suc_conv numeral_2_eq_2)
  with assms(3) obtain s where b: "b = ExprLit (LitString s)"
    by (auto split: expr.splits literal.splits)
  with args assms(3) obtain t where s: "b = ExprLit (LitString s)" "parse_type_literal s = Some t" "res = Some t"
    by (cases "parse_type_literal s") auto
  from assms(1) have "outcome_ok t (eval_cast fl name args rs)"
    by (auto simp: args_ok_Cons eval_cast_def need_arity_def args s intro!: outcome_ok_then cast_value_ok)
  with s that show thesis by blast
qed

lemma call_ok:
  assumes sig: "scalar_signature_for name = Some sig" and args: "args_ok ts (sig_params sig) rs"
    and len: "length args = length (sig_params sig)"
    and res: "apply_rule name args (map Some ts) (sig_result sig) = (res, [])"
  shows "\<exists>t. res = Some t \<and> outcome_ok t (eval_call fl name args rs)"
proof -
  note names = string_helpers_def numeric_helpers_def haversine_helpers_def
  let ?n = "to_lower name"
  have unknown: "?n \<in> set unimplemented \<Longrightarrow> eval_call fl name args rs = Inl (EvalErrUnknownFunction name)"
    by (auto simp: eval_call_def unimplemented_def)
  have len_rs: "length rs = length args"
    using args_ok_length [OF args] len by simp
  consider (str) "?n \<in> set string_helpers" | (concat) "?n = ''concat''" | (num) "?n \<in> set numeric_helpers"
    | (hav) "?n \<in> set haversine_helpers" | (dist) "?n = ''haversine_distance''"
    | (temporal) "?n = ''to_date'' \<or> ?n = ''to_timestamp''" | (cast) "?n = ''cast''"
    | (pred) "?n = ''is_null'' \<or> ?n = ''is_not_null''" | (geo) "?n = ''geom_within''"
    using sig by (auto simp: scalar_signature_for_def Let_def split: if_splits)
  then show ?thesis
  proof cases
    case str
    then have "sig_params sig = [ParamTextual]" "sig_result sig = ResultFixed TString"
      using sig by (auto simp: scalar_signature_for_def Let_def)
    moreover have "outcome_ok TString (eval_call fl name args rs)"
      using str unary_string_ok [of ts rs name] title_case_ok [of ts rs args] args len calculation
      by (auto simp: names eval_call_def Let_def)
    ultimately show ?thesis using res by auto
  next
    case concat
    then have "sig_params sig = [ParamTextual, ParamTextual]" "sig_result sig = ResultFixed TString"
      using sig by (auto simp: scalar_signature_for_def names)
    with concat res args eval_concat_ok [of ts rs name] show ?thesis
      by (auto simp: eval_call_def)
  next
    case num
    then have sig': "sig_params sig = [ParamNumeric]" "sig_result sig = ResultPromoteOf [0]"
      using sig by (auto simp: scalar_signature_for_def names)
    with args obtain t r where t: "ts = [t]" "rs = [r]" by (auto simp: args_ok_Cons)
    then have "res = Some t" using res sig'(2) by (simp add: arg_at_def)
    moreover have "outcome_ok t (eval_call fl name args rs)"
    proof (cases "?n = ''abs''")
      case True
      with eval_abs_ok [of ts rs fl name] args sig'(1) t show ?thesis by (simp add: eval_call_def)
    next
      case False
      with num unknown show ?thesis by (auto simp: names unimplemented_def)
    qed
    ultimately show ?thesis by blast
  next
    case hav
    then have "sig_result sig = ResultFixed TDouble" "length (sig_params sig) = 4"
      using sig by (auto simp: scalar_signature_for_def names)
    with hav res args len_rs len eval_haversine_ok [of ts rs _ fl name] show ?thesis
      by (auto simp: names eval_call_def args_ok_def)
  next
    case dist
    then have "sig_result sig = ResultFixed TDouble" "length (sig_params sig) = 5"
      using sig by (auto simp: scalar_signature_for_def names)
    with dist res args len_rs len eval_haversine_ok [of ts rs "[]" fl name] show ?thesis
      by (auto simp: eval_call_def args_ok_def)
  next
    case temporal
    then have "\<exists>t. sig_result sig = ResultFixed t"
      using sig by (auto simp: scalar_signature_for_def names)
    with temporal unknown res show ?thesis by (auto simp: unimplemented_def)
  next
    case cast
    then have "sig_params sig = [ParamAny, ParamExactly TString]" "sig_result sig = ResultTypeFromStringArg 1"
      using sig by (auto simp: scalar_signature_for_def names)
    with args len res obtain t where "res = Some t" "outcome_ok t (eval_cast fl name args rs)"
      by (metis eval_cast_ok length_Cons list.size(3) numeral_2_eq_2 One_nat_def)
    with cast show ?thesis by (simp add: eval_call_def)
  next
    case pred
    then have "sig_params sig = [ParamAny]" "sig_result sig = ResultFixed TBoolean"
      using sig by (auto simp: scalar_signature_for_def names)
    with pred res args len eval_predicate_ok [of ts ParamAny rs name args] show ?thesis
      by (auto simp: eval_call_def)
  next
    case geo
    then have "\<exists>t. sig_result sig = ResultFixed t"
      using sig by (auto simp: scalar_signature_for_def names)
    with geo unknown res show ?thesis by (auto simp: unimplemented_def)
  qed
qed

section \<open>Whole expressions\<close>

lemma infer_call_args:
  assumes call: "infer_inner env (ExprCall name args) = (res, [])"
    and IH: "\<And>a r. a \<in> set args \<Longrightarrow> infer_inner env a = (r, []) \<Longrightarrow>
      \<exists>t. r = Some t \<and> outcome_ok t (eval_expr fl row a)"
  obtains sig ts where "scalar_signature_for name = Some sig" "length args = length (sig_params sig)"
    "args_ok ts (sig_params sig) (map (eval_expr fl row) args)"
    "apply_rule name args (map Some ts) (sig_result sig) = (res, [])"
    "\<forall>i<length args. infer_inner env (args ! i) = (Some (ts ! i), [])"
proof -
  let ?rs = "map (infer_inner env) args"
  from call obtain sig where sig: "scalar_signature_for name = Some sig"
    and len: "length args = length (sig_params sig)"
    and rule: "apply_rule name args (map fst ?rs) (sig_result sig) = (res, [])"
    and check: "check_args name 0 ?rs (sig_params sig) = []"
    by (auto simp: infer_call_def split: option.splits if_splits prod.splits)
  have all: "list_all2 (\<lambda>(t, es) c. es = [] \<and> (\<forall>u. t = Some u \<longrightarrow> meets u c)) ?rs (sig_params sig)"
    using check_args_meets [OF check] len by simp
  have arg: "\<exists>t. infer_inner env (args ! i) = (Some t, []) \<and> meets t (sig_params sig ! i) \<and>
      outcome_ok t (eval_expr fl row (args ! i))" if i: "i < length args" for i
  proof -
    obtain t' where t': "infer_inner env (args ! i) = (t', [])" "\<forall>u. t' = Some u \<longrightarrow> meets u (sig_params sig ! i)"
      using list_all2_nthD [OF all, of i] i by (auto split: prod.splits)
    with IH [of "args ! i" t'] i show ?thesis by auto
  qed
  define ts where "ts = map (the \<circ> fst \<circ> infer_inner env) args"
  then have len_ts: "length ts = length args" by simp
  have nth: "infer_inner env (args ! i) = (Some (ts ! i), []) \<and> meets (ts ! i) (sig_params sig ! i) \<and>
    outcome_ok (ts ! i) (eval_expr fl row (args ! i))" if i: "i < length args" for i
    using arg [OF i] i by (auto simp: ts_def)
  have "map fst ?rs = map Some ts"
    by (rule nth_equalityI) (simp_all add: len_ts nth)
  moreover have "args_ok ts (sig_params sig) (map (eval_expr fl row) args)"
    using nth len len_ts by (simp add: args_ok_def list_all2_conv_all_nth)
  ultimately show thesis
    using that [OF sig len, of ts] rule nth by simp
qed

lemma infer_inner_ok:
  assumes row: "row_conforms fl env row"
  shows "infer_inner env e = (res, []) \<Longrightarrow> \<exists>t. res = Some t \<and> outcome_ok t (eval_expr fl row e)"
proof (induction e arbitrary: res)
  case (ExprLit l)
  then show ?case by (cases l) auto
next
  case (ExprColumn n)
  then obtain t where "env n = Some t" "res = Some t"
    by (auto simp: env_lookup_def split: option.splits)
  with row show ?case
    unfolding row_conforms_def by fastforce
next
  case (ExprCall name args)
  then show ?case
    using call_ok by (elim infer_call_args [where fl = fl and row = row]) fastforce+
next
  case (ExprUnary op e)
  from ExprUnary.prems obtain r where r: "infer_inner env e = (r, [])"
    by (auto split: prod.splits option.splits)
  then obtain t where t: "infer_inner env e = (Some t, [])" "type_unary op t = (res, [])"
    using ExprUnary.IH [OF r] ExprUnary.prems by (auto split: prod.splits)
  with ExprUnary.IH have "outcome_ok t (eval_expr fl row e)" by blast
  with t(2) show ?case
    by (elim type_unary_ok [where fl = fl]) (auto intro: outcome_ok_then)
next
  case (ExprBinary op l r)
  from ExprBinary.prems obtain x y where r: "infer_inner env l = (x, [])" "infer_inner env r = (y, [])"
    by (auto split: prod.splits option.splits)
  then obtain t u where t: "infer_inner env l = (Some t, [])" "infer_inner env r = (Some u, [])"
    "type_binary op t u = (res, [])"
    using ExprBinary.IH(1) [OF r(1)] ExprBinary.IH(2) [OF r(2)] ExprBinary.prems by (auto split: prod.splits)
  with ExprBinary.IH have "outcome_ok t (eval_expr fl row l)" "outcome_ok u (eval_expr fl row r)" by blast+
  with t(3) show ?case
    by (elim type_binary_ok [where fl = fl]) (auto intro!: outcome_ok_then)
qed

lemma infer_expr_ok:
  "infer_expr e env = Inr t \<Longrightarrow> row_conforms fl env row \<Longrightarrow> outcome_ok t (eval_expr fl row e)"
  using infer_inner_ok [of fl env row e] by (auto simp: infer_expr_def split: prod.splits if_splits option.splits)

section \<open>Expressions that cannot fail\<close>

text \<open>
  No null literal, no division, and only functions without a failing case: such an expression fails on rows
  without nulls only when it compares a NaN.
\<close>

definition safe_functions :: "string list" where
  "safe_functions = string_helpers @ [''concat'', ''abs'', ''is_null'', ''is_not_null'']"

fun null_free :: "'d expr \<Rightarrow> bool" where
  "null_free (ExprLit l) = (case l of LitNull \<Rightarrow> False | _ \<Rightarrow> True)"
| "null_free (ExprColumn n) = True"
| "null_free (ExprCall name args) = (to_lower name \<in> set safe_functions \<and> list_all null_free args)"
| "null_free (ExprUnary op e) = null_free e"
| "null_free (ExprBinary op l r) = (op \<noteq> BinaryDiv \<and> null_free l \<and> null_free r)"

definition row_full :: "'d float64 \<Rightarrow> column_env \<Rightarrow> row \<Rightarrow> bool" where
  "row_full fl env row \<longleftrightarrow>
     (\<forall>n raw. env n \<noteq> None \<and> row n = Some raw \<longrightarrow> eval_value_from_json fl raw \<noteq> EvalNull)"

definition nan_comparison :: eval_error where
  "nan_comparison = EvalErrTypeMismatch ''NaN comparison''"

definition definite :: "'d evaled \<Rightarrow> bool" where
  "definite r \<longleftrightarrow> (case r of Inl e \<Rightarrow> e = nan_comparison | Inr v \<Rightarrow> v \<noteq> EvalNull)"

lemma definite_simps [simp]:
  "definite (Inl e) \<longleftrightarrow> e = nan_comparison" "definite (Inr v) \<longleftrightarrow> v \<noteq> EvalNull"
  by (simp_all add: definite_def)

lemma definite_then:
  "definite r \<Longrightarrow> (\<And>v. r = Inr v \<Longrightarrow> v \<noteq> EvalNull \<Longrightarrow> definite (f v)) \<Longrightarrow> definite (and_then r f)"
  by (cases r) (simp_all add: and_then_def)

lemma value_of_type:
  assumes "conforms t v" "v \<noteq> EvalNull"
  shows "is_numeric t \<Longrightarrow> (\<exists>i. v = EvalInt i) \<or> (\<exists>d. v = EvalDouble d)"
    and "t = TBoolean \<Longrightarrow> \<exists>b. v = EvalBool b"
    and "t \<in> {TString, TDate, TTimestamp} \<Longrightarrow> \<exists>s. v = EvalString s"
  using assms by (cases v; auto)+

lemma same_type_compare:
  "conforms t a \<Longrightarrow> conforms t b \<Longrightarrow> a \<noteq> EvalNull \<Longrightarrow> b \<noteq> EvalNull \<Longrightarrow> definite (eval_compare fl p a b)"
  by (cases a; cases b) (auto simp: eval_compare_def compare_values_def f64_cmp_def nan_comparison_def)

lemma numeric_compare:
  assumes "is_numeric t" "is_numeric u" "conforms t a" "conforms u b" "a \<noteq> EvalNull" "b \<noteq> EvalNull"
  shows "definite (eval_compare fl p a b)" "definite (arith fl a b f g op)"
  using value_of_type(1) [OF assms(3,5,1)] value_of_type(1) [OF assms(4,6,2)]
  by (auto simp: eval_compare_def compare_values_def f64_cmp_def nan_comparison_def arith_def)

lemma text_compare:
  assumes "t \<in> {TString, TDate, TTimestamp}" "u \<in> {TString, TDate, TTimestamp}" "conforms t a" "conforms u b"
    "a \<noteq> EvalNull" "b \<noteq> EvalNull"
  shows "definite (eval_compare fl p a b)" "definite (arith_add fl a b)"
  using value_of_type(3) [OF assms(3,5,1)] value_of_type(3) [OF assms(4,6,2)]
  by (auto simp: eval_compare_def compare_values_def arith_add_def)

lemma compare_definite:
  assumes "type_binary op l r = (Some t, [])" "is_comparison op" "conforms l a" "conforms r b"
    "a \<noteq> EvalNull" "b \<noteq> EvalNull"
  shows "definite (eval_compare fl p a b)"
proof -
  from assms(1,2) have "is_numeric l \<and> is_numeric r \<or> l = TString \<and> r = TString \<or>
      l \<in> {TDate, TTimestamp} \<and> r \<in> {TDate, TTimestamp} \<or> l = r"
    by (auto simp: type_binary_def is_comparison_def is_logical_def is_textual_def is_temporal_def split: if_splits)
  then show ?thesis
    using assms(3-6) numeric_compare(1) [of l r a b fl p] text_compare(1) [of l r a b fl p]
      same_type_compare [of l a b fl p]
    by blast
qed

lemma binary_definite:
  assumes "type_binary op l r = (Some t, [])" "op \<noteq> BinaryDiv" "conforms l a" "conforms r b"
    "a \<noteq> EvalNull" "b \<noteq> EvalNull"
  shows "definite (eval_binary fl op a b)"
proof -
  have arith: "is_numeric l \<and> is_numeric r \<or> op = BinaryAdd \<and> l = TString \<and> r = TString"
    if "\<not> is_comparison op" "\<not> is_logical op"
    using that assms(1) by (auto simp: type_binary_def is_textual_def split: if_splits)
  have logical: "l = TBoolean \<and> r = TBoolean" if "is_logical op"
    using that assms(1) by (auto simp: type_binary_def split: if_splits)
  have add: "definite (arith_add fl a b)" if "is_numeric l" "is_numeric r"
    using value_of_type(1) [OF assms(3,5) that(1)] value_of_type(1) [OF assms(4,6) that(2)]
    by (auto simp: arith_add_def arith_def)
  have log: "definite (eval_logical f name a b)" if "is_logical op" for f name
    using value_of_type(2) [OF assms(3,5)] value_of_type(2) [OF assms(4,6)] logical [OF that]
    by (auto simp: eval_logical_def)
  note compare = compare_definite [OF assms(1) _ assms(3-6), of fl]
  note number = numeric_compare(2) [OF _ _ assms(3-6), of fl]
  note textual = text_compare(2) [OF _ _ assms(3-6), of fl]
  show ?thesis
    using assms(2) compare number textual add log arith
    by (cases op) (auto simp: is_comparison_def is_logical_def)
qed

lemma unary_definite:
  assumes "type_unary op t = (Some u, [])" "conforms t v" "v \<noteq> EvalNull"
  shows "definite (eval_unary fl op v)"
  using assms by (cases op; cases v) (auto simp: type_unary_def split: if_splits)

lemma call_definite:
  assumes "to_lower name \<in> set safe_functions" "scalar_signature_for name = Some sig"
    and args: "args_ok ts (sig_params sig) rs" and "length args = length (sig_params sig)"
    and def: "list_all definite rs"
  shows "definite (eval_call fl name args rs)"
proof -
  note names = safe_functions_def string_helpers_def numeric_helpers_def haversine_helpers_def
  let ?n = "to_lower name"
  consider (str) "?n \<in> set string_helpers" | (concat) "?n = ''concat''" | (abs) "?n = ''abs''"
    | (pred) "?n = ''is_null'' \<or> ?n = ''is_not_null''"
    using assms(1) by (auto simp: safe_functions_def)
  then show ?thesis
  proof cases
    case str
    then have "sig_params sig = [ParamTextual]"
      using assms(2) by (auto simp: scalar_signature_for_def Let_def)
    with args obtain r where r: "rs = [r]" "outcome_ok TString r" "length args = 1"
      using assms(4) by (auto simp: args_ok_Cons)
    with def value_of_type(3) [of TString] show ?thesis
      using str by (cases r) (fastforce simp: names eval_call_def Let_def unary_string_def need_arity_def)+
  next
    case concat
    then have "sig_params sig = [ParamTextual, ParamTextual]"
      using assms(2) by (auto simp: scalar_signature_for_def names)
    with args obtain r1 r2 where r: "rs = [r1, r2]" "outcome_ok TString r1" "outcome_ok TString r2"
      by (auto simp: args_ok_Cons)
    with def value_of_type(3) [of TString] show ?thesis
      using concat by (cases r1; cases r2) (fastforce simp: eval_call_def eval_concat_def need_arity_def)+
  next
    case abs
    then have "sig_params sig = [ParamNumeric]"
      using assms(2) by (auto simp: scalar_signature_for_def names)
    with args obtain t r where r: "rs = [r]" "outcome_ok t r" "is_numeric t"
      by (auto simp: args_ok_Cons)
    with def value_of_type(1) [of t] show ?thesis
      using abs by (cases r) (fastforce simp: eval_call_def eval_abs_def need_arity_def)+
  next
    case pred
    then have "sig_params sig = [ParamAny]"
      using assms(2) by (auto simp: scalar_signature_for_def names)
    with args obtain r where r: "rs = [r]" "length args = 1"
      using assms(4) by (auto simp: args_ok_Cons)
    with def pred show ?thesis
      by (cases r) (auto simp: eval_call_def need_arity_def)
  qed
qed

lemma null_free_definite:
  assumes row: "row_conforms fl env row" and full: "row_full fl env row"
  shows "null_free e \<Longrightarrow> infer_inner env e = (res, []) \<Longrightarrow> definite (eval_expr fl row e)"
proof (induction e arbitrary: res)
  case (ExprLit l)
  then show ?case by (cases l) auto
next
  case (ExprColumn n)
  then obtain t where t: "env n = Some t"
    by (auto simp: env_lookup_def split: option.splits)
  with row obtain raw where "row n = Some raw"
    unfolding row_conforms_def by blast
  with t full show ?case
    by (auto simp: row_full_def)
next
  case (ExprCall name args)
  from ExprCall.prems(2) show ?case
  proof (rule infer_call_args [where fl = fl and row = row])
    fix a r
    assume "a \<in> set args" and "infer_inner env a = (r, [])"
    with infer_inner_ok [OF row] show "\<exists>t. r = Some t \<and> outcome_ok t (eval_expr fl row a)" by blast
  next
    fix sig ts
    assume sig: "scalar_signature_for name = Some sig" "length args = length (sig_params sig)"
      "args_ok ts (sig_params sig) (map (eval_expr fl row) args)"
      and nth: "\<forall>i<length args. infer_inner env (args ! i) = (Some (ts ! i), [])"
    have "list_all definite (map (eval_expr fl row) args)"
      using ExprCall.IH ExprCall.prems(1) nth by (auto simp: list_all_length)
    with call_definite [OF _ sig(1,3,2)] ExprCall.prems(1) show ?thesis by simp
  qed
next
  case (ExprUnary op e)
  from ExprUnary.prems obtain r where r: "infer_inner env e = (r, [])"
    by (auto split: prod.splits option.splits)
  from infer_inner_ok [OF row r] obtain t where t: "r = Some t" "outcome_ok t (eval_expr fl row e)"
    by blast
  with r ExprUnary.prems infer_inner_ok [OF row ExprUnary.prems(2)] obtain u where "type_unary op t = (Some u, [])"
    by (auto split: prod.splits)
  with unary_definite t(2) ExprUnary.IH [OF _ r] ExprUnary.prems(1) show ?case
    by (auto intro!: definite_then)
next
  case (ExprBinary op l r)
  from ExprBinary.prems obtain x y where r: "infer_inner env l = (x, [])" "infer_inner env r = (y, [])"
    by (auto split: prod.splits option.splits)
  from infer_inner_ok [OF row r(1)] infer_inner_ok [OF row r(2)]
  obtain t u where t: "x = Some t" "outcome_ok t (eval_expr fl row l)" "y = Some u" "outcome_ok u (eval_expr fl row r)"
    by blast
  with r ExprBinary.prems infer_inner_ok [OF row ExprBinary.prems(2)] obtain v where
    "type_binary op t u = (Some v, [])"
    by (auto split: prod.splits)
  with binary_definite [of op t u v _ _ fl] t(2,4) ExprBinary.IH(1) [OF _ r(1)] ExprBinary.IH(2) [OF _ r(2)]
    ExprBinary.prems(1)
  show ?case
    by (auto intro!: definite_then)
qed

section \<open>Properties\<close>

text \<open>
  C17. Type soundness: on a row that has every column of the environment with a value of its type (or null), an
  accepted expression yields a value of the inferred type or null. When it fails, it never fails with an unknown
  column or a wrong number of arguments: only with a type mismatch (a null or NaN operand, an unreadable cast), or
  for one of the six functions that the catalogue lists and the evaluator lacks.
\<close>

theorem type_soundness:
  assumes "infer_expr e env = Inr t" and "row_conforms fl env row"
  shows "case eval_expr fl row e of Inl err \<Rightarrow> runtime_error err | Inr v \<Rightarrow> conforms t v"
  using infer_expr_ok [OF assms] by (simp add: outcome_ok_def)

text \<open>
  C18. An accepted expression without null literals and divisions that calls only the string functions, abs and
  the null tests cannot fail on a row without nulls, except for comparing a NaN: it yields a value other than
  null, of the inferred type.
\<close>

theorem null_free_total:
  assumes "infer_expr e env = Inr t" and "null_free e" and "row_conforms fl env row" and "row_full fl env row"
  shows "(\<exists>v. eval_expr fl row e = Inr v \<and> v \<noteq> EvalNull \<and> conforms t v) \<or>
    eval_expr fl row e = Inl nan_comparison"
proof -
  from assms(1) obtain res where "infer_inner env e = (res, [])"
    by (auto simp: infer_expr_def split: prod.splits if_splits)
  from null_free_definite [OF assms(3,4,2) this] infer_expr_ok [OF assms(1,3)] show ?thesis
    by (cases "eval_expr fl row e") auto
qed

text \<open>
  The type checker accepts a function that the evaluator does not know exactly for floor, ceil, round,
  to_date, to_timestamp and geom_within (in any case): a call to one of them passes every check and then fails
  on the first row.
\<close>

theorem unimplemented_functions:
  "scalar_signature_for f \<noteq> None \<and> (\<forall>args rs. eval_call fl f args rs = Inl (EvalErrUnknownFunction f)) \<longleftrightarrow>
     to_lower f \<in> set unimplemented"
proof (intro iffI conjI allI, elim conjE)
  assume sig: "scalar_signature_for f \<noteq> None"
    and all: "\<forall>args rs. eval_call fl f args rs = Inl (EvalErrUnknownFunction f)"
  from all have "eval_call fl f [] [] = Inl (EvalErrUnknownFunction f)" by blast
  then show "to_lower f \<in> set unimplemented"
    using sig
    by (auto simp: eval_call_def unimplemented_def scalar_signature_for_def string_helpers_def numeric_helpers_def
        haversine_helpers_def need_arity_def unary_string_def eval_concat_def eval_abs_def eval_cast_def
        eval_haversine_distance_def Let_def split: if_splits)
qed (auto simp: unimplemented_def scalar_signature_for_def string_helpers_def numeric_helpers_def
    haversine_helpers_def eval_call_def)

text \<open>
  A quotient of two DOUBLE columns has the type DOUBLE, but when both cells happen to be written without a
  dot it is the truncated quotient of integers: 7 / 2 is 3, where 7.0 / 2 is 3.5.
\<close>

theorem double_division_truncates:
  assumes "row x = Some a" "eval_value_from_json fl a = EvalInt i"
    and "row y = Some b" "eval_value_from_json fl b = EvalInt j" and "j \<noteq> 0"
    and "env x = Some TDouble" "env y = Some TDouble"
  shows "infer_expr (ExprBinary BinaryDiv (ExprColumn x) (ExprColumn y)) env = Inr TDouble \<and>
    eval_expr fl row (ExprBinary BinaryDiv (ExprColumn x) (ExprColumn y)) = Inr (EvalInt (go_quot i j))"
  using assms
  by (simp add: infer_expr_def env_lookup_def type_binary_def is_logical_def is_comparison_def promote.simps
      arith_div_def arith_def)

section \<open>Witnesses\<close>

definition sample_env :: column_env where
  "sample_env = [''x'' \<mapsto> TDouble, ''y'' \<mapsto> TDouble, ''name'' \<mapsto> TString]"

definition sample_row :: row where
  "sample_row = [''x'' \<mapsto> RawNumber ''7'', ''y'' \<mapsto> RawNumber ''2'', ''name'' \<mapsto> RawString ''ada'']"

lemma sample_numbers:
  "eval_value_from_json int_float (RawNumber ''7'') = EvalInt 7"
  "eval_value_from_json int_float (RawNumber ''2'') = EvalInt 2"
  by (simp_all add: from_number_def int_float_def parse_int64_def parse_uint_def is_digit_def digits_val_def
      digit_val_def fl_le_def looks_like_float_json_def min_int64_def max_int64_def)

lemma sample_row_conforms: "row_conforms int_float sample_env sample_row"
  by (auto simp: row_conforms_def sample_env_def sample_row_def sample_numbers simp del: eval_value_from_json.simps(2)
      split: if_splits)

lemma sample_row_full: "row_full int_float sample_env sample_row"
  by (auto simp: row_full_def sample_env_def sample_row_def sample_numbers simp del: eval_value_from_json.simps(2)
      split: if_splits)

text \<open>\<^verbatim>\<open>upper(name) = 'ADA' and x - 2 * y > abs(2)\<close>.\<close>

definition sample_expr :: "int expr" where
  "sample_expr =
     ExprBinary BinaryAnd
       (ExprBinary BinaryEq (ExprCall ''upper'' [ExprColumn ''name'']) (ExprLit (LitString ''ADA'')))
       (ExprBinary BinaryGt
         (ExprBinary BinarySub (ExprColumn ''x'') (ExprBinary BinaryMul (ExprLit (LitInteger 2)) (ExprColumn ''y'')))
         (ExprCall ''abs'' [ExprLit (LitInteger 2)]))"

lemma sample_names: "to_lower ''upper'' = ''upper''" "to_lower ''abs'' = ''abs''" "to_upper ''ada'' = ''ADA''"
  by (simp_all add: to_lower_def to_lower_char_def to_upper_def to_upper_char_def char_of_def bit_Suc_0_iff)

lemma sample_typed: "infer_expr sample_expr sample_env = Inr TBoolean"
  by (simp add: sample_expr_def sample_env_def infer_expr_def infer_call_def scalar_signature_for_def sample_names
      string_helpers_def numeric_helpers_def env_lookup_def type_binary_def is_logical_def is_comparison_def
      is_textual_def arg_at_def promote.simps)

lemma sample_value: "eval_expr int_float sample_row sample_expr = Inr (EvalBool True)"
  by (simp add: sample_expr_def sample_row_def sample_numbers eval_call_def sample_names unary_string_def eval_abs_def
      need_arity_def value_eq_def eval_compare_def compare_values_def cmp_int64_def eval_logical_def arith_def
      del: eval_value_from_json.simps(2))

theorem type_soundness_witness:
  "eval_expr int_float sample_row sample_expr = Inr (EvalBool True) \<and> conforms TBoolean (EvalBool True)"
  using type_soundness [OF sample_typed sample_row_conforms] sample_value by simp

theorem null_free_total_witness:
  "(\<exists>v. eval_expr int_float sample_row sample_expr = Inr v \<and> v \<noteq> EvalNull \<and> conforms TBoolean v) \<or>
   eval_expr int_float sample_row sample_expr = Inl nan_comparison"
proof (rule null_free_total [OF sample_typed _ sample_row_conforms sample_row_full])
  show "null_free sample_expr"
    by (simp add: sample_expr_def safe_functions_def string_helpers_def sample_names)
qed

theorem double_division_truncates_witness:
  "infer_expr (ExprBinary BinaryDiv (ExprColumn ''x'') (ExprColumn ''y'')) sample_env = Inr TDouble \<and>
   eval_expr int_float sample_row (ExprBinary BinaryDiv (ExprColumn ''x'') (ExprColumn ''y'')) = Inr (EvalInt 3)"
proof -
  have "go_quot 7 2 = 3"
    by (simp add: go_quot_def)
  moreover have "infer_expr (ExprBinary BinaryDiv (ExprColumn ''x'') (ExprColumn ''y'')) sample_env = Inr TDouble \<and>
    eval_expr int_float sample_row (ExprBinary BinaryDiv (ExprColumn ''x'') (ExprColumn ''y'')) =
      Inr (EvalInt (go_quot 7 2))"
    by (rule double_division_truncates [where a = "RawNumber ''7''" and b = "RawNumber ''2''"]) (simp_all add: sample_row_def sample_env_def sample_numbers
        del: eval_value_from_json.simps(2))
  ultimately show ?thesis by simp
qed

end
