(* ===== verification/Pipeline_Graph.thy ===== *)
theory Pipeline_Graph
  imports Json "HOL-Library.List_Lexorder" "HOL-Library.Char_ord"
begin

text \<open>
  The logic graph of the pipeline builder and its structural validator, \<^verbatim>\<open>libs/pipeline-expression/graph.go\<close>. The
  search for a cycle is the code's iterative one: a stack of frames (a node and the number of its inputs looked
  at), colours 0, 1, 2, and the parents of the nodes pushed; a map that has no entry reads as the zero value.
\<close>

section \<open>The graph\<close>

definition node_dataset_input :: string where "node_dataset_input = ''dataset_input''"
definition node_dataset_output :: string where "node_dataset_output = ''dataset_output''"
definition node_media_set_input :: string where "node_media_set_input = ''media_set_input''"
definition node_media_set_output :: string where "node_media_set_output = ''media_set_output''"
definition node_virtual_table_output :: string where "node_virtual_table_output = ''virtual_table_output''"
definition node_ontology_object_output :: string where
  "node_ontology_object_output = ''ontology_object_output''"

definition all_node_kinds :: "string list" where
  "all_node_kinds =
     [node_dataset_input, node_dataset_output, node_media_set_input, node_media_set_output,
      node_virtual_table_output, node_ontology_object_output,
      ''filter'', ''select'', ''derived_column'', ''cast'', ''media_transform'',
      ''join'', ''union'', ''intersect'', ''except'', ''geo_join'',
      ''aggregate'', ''aggregate_over_window'', ''project_over_window'',
      ''pivot'', ''unpivot'',
      ''sort'', ''rank'',
      ''checkpoint'']"

definition kind_is_known :: "string \<Rightarrow> bool" where
  "kind_is_known k \<longleftrightarrow> k \<in> set all_node_kinds"

definition kind_is_output :: "string \<Rightarrow> bool" where
  "kind_is_output k \<longleftrightarrow>
     k \<in> {node_dataset_output, node_media_set_output, node_virtual_table_output, node_ontology_object_output}"

definition kind_is_input :: "string \<Rightarrow> bool" where
  "kind_is_input k \<longleftrightarrow> k \<in> {node_dataset_input, node_media_set_input}"

definition all_join_kinds :: "string list" where
  "all_join_kinds =
     [''inner'', ''left'', ''right'', ''outer'', ''anti'', ''semi'', ''cross'', ''knn'', ''lookup'']"

definition join_kind_is_known :: "string \<Rightarrow> bool" where
  "join_kind_is_known j \<longleftrightarrow> j \<in> set all_join_kinds"

text \<open>Positions are a hint for the editor and carry no logic.\<close>

record graph_node =
  nd_id :: string
  nd_kind :: string
  nd_inputs :: "string list"
  nd_config :: "json option"
  nd_display_name :: string

record graph_edge =
  ed_from :: string
  ed_from_port :: string
  ed_to :: string
  ed_to_port :: string

record graph =
  gr_version :: string
  gr_nodes :: "graph_node list"
  gr_edges :: "graph_edge list"

definition unmarshal_config :: "graph_node \<Rightarrow> (json \<Rightarrow> string + 'c) \<Rightarrow> string + 'c" where
  "unmarshal_config n decode =
     (case nd_config n of
        None \<Rightarrow> Inl (''node '' @ nd_id n @ '': missing config for kind '' @ nd_kind n)
      | Some j \<Rightarrow>
          (case decode j of
             Inl err \<Rightarrow> Inl (''node '' @ nd_id n @ '': decode '' @ nd_kind n @ '' config: '' @ err)
           | Inr cfg \<Rightarrow> Inr cfg))"

section \<open>The search for a cycle\<close>

type_synonym graph_colours = "string \<Rightarrow> nat"
type_synonym graph_parents = "string \<Rightarrow> string"

text \<open>The map from ids to nodes: of several nodes with one id the last counts.\<close>

definition inputs_of :: "graph_node list \<Rightarrow> string \<Rightarrow> string list" where
  "inputs_of ns i =
     (case map_of (rev (map (\<lambda>n. (nd_id n, n)) ns)) i of None \<Rightarrow> [] | Some n \<Rightarrow> nd_inputs n)"

text \<open>The loop that walks up the parents.\<close>

partial_function (option) rebuild ::
  "graph_parents \<Rightarrow> string \<Rightarrow> string \<Rightarrow> string list \<Rightarrow> string list option" where
  "rebuild par next_id cur path =
     (if par cur \<noteq> [] \<and> par cur \<noteq> next_id then rebuild par next_id (par cur) (path @ [par cur])
      else Some path)"

declare rebuild.simps [code]

lemma inputs_of_subset: "set (inputs_of ns i) \<subseteq> set (concat (map nd_inputs ns))"
proof (cases "map_of (rev (map (\<lambda>n. (nd_id n, n)) ns)) i")
  case (Some n)
  then have "n \<in> set ns"
    by (auto dest!: map_of_SomeD)
  with Some show ?thesis by (auto simp: inputs_of_def)
qed (simp add: inputs_of_def)

text \<open>The stack has its top first.\<close>

function dfs_loop ::
  "graph_node list \<Rightarrow> (string \<times> nat) list \<Rightarrow> graph_colours \<Rightarrow> graph_parents \<Rightarrow>
   (string list option \<times> graph_colours \<times> graph_parents) option" where
  "dfs_loop ns [] col par = Some (None, col, par)"
| "dfs_loop ns ((i, cursor) # stack) col par =
     (if length (inputs_of ns i) \<le> cursor then dfs_loop ns stack (col(i := 2)) par
      else
        let next_id = inputs_of ns i ! cursor; stack' = (i, Suc cursor) # stack in
        if col next_id = 0 then
          dfs_loop ns ((next_id, 0) # stack') (col(next_id := 1)) (par(next_id := i))
        else if col next_id = 1 then
          (case rebuild par next_id i [next_id, i] of
             None \<Rightarrow> None
           | Some path \<Rightarrow> Some (Some (rev (path @ [next_id])), col, par))
        else dfs_loop ns stack' col par)"
  by pat_completeness auto

text \<open>Each step leaves an unvisited id behind, or looks at one more input of a frame.\<close>

definition unvisited :: "graph_node list \<Rightarrow> graph_colours \<Rightarrow> nat" where
  "unvisited ns col = card {i \<in> set (concat (map nd_inputs ns)). col i = 0}"

definition inputs_left :: "graph_node list \<Rightarrow> (string \<times> nat) list \<Rightarrow> nat" where
  "inputs_left ns stack = (\<Sum>(i, cursor) \<leftarrow> stack. Suc (length (inputs_of ns i) - cursor))"

lemma unvisited_le: "c \<noteq> 0 \<Longrightarrow> unvisited ns (col(i := c)) \<le> unvisited ns col"
  unfolding unvisited_def by (rule card_mono) auto

lemma unvisited_less:
  assumes "x \<in> set (concat (map nd_inputs ns))" "col x = 0"
  shows "unvisited ns (col(x := 1)) < unvisited ns col"
  unfolding unvisited_def using assms by (intro psubset_card_mono) auto

termination dfs_loop
proof (relation "(\<lambda>(ns, stack, col, par). unvisited ns col) <*mlex*> measure (\<lambda>(ns, stack, col, par). inputs_left ns stack)",
    goal_cases)
  case 1
  show ?case by (rule wf_mlex) simp
next
  case (2 ns i cursor stack col par)
  show ?case
    using unvisited_le [of 2 ns col i] by (intro mlex_leq) (auto simp: inputs_left_def)
next
  case (3 ns i cursor stack col par next_id stack')
  then have "next_id \<in> set (concat (map nd_inputs ns))"
    using inputs_of_subset [of ns i] nth_mem [of cursor "inputs_of ns i"] by (simp add: subset_iff)
  with 3 unvisited_less [of next_id ns col] show ?case
    by (intro mlex_less) simp
next
  case (4 ns i cursor stack col par next_id stack')
  then show ?case
    by (intro mlex_leq) (auto simp: inputs_left_def)
qed

declare dfs_loop.simps(2) [simp del]

definition dfs_cycle ::
  "string \<Rightarrow> graph_node list \<Rightarrow> graph_colours \<Rightarrow> graph_parents \<Rightarrow>
   (string list option \<times> graph_colours \<times> graph_parents) option" where
  "dfs_cycle start ns col par = dfs_loop ns [(start, 0)] (col(start := 1)) par"

fun detect_from ::
  "graph_node list \<Rightarrow> string list \<Rightarrow> graph_colours \<Rightarrow> graph_parents \<Rightarrow> string list option option" where
  "detect_from ns [] col par = Some None"
| "detect_from ns (start # ids) col par =
     (if col start \<noteq> 0 then detect_from ns ids col par
      else (case dfs_cycle start ns col par of
              None \<Rightarrow> None
            | Some (Some path, _, _) \<Rightarrow> Some (Some path)
            | Some (None, col', par') \<Rightarrow> detect_from ns ids col' par'))"

definition detect_cycle :: "graph_node list \<Rightarrow> string list option option" where
  "detect_cycle ns = detect_from ns (sort (map nd_id ns)) (\<lambda>_. 0) (\<lambda>_. [])"

section \<open>The validator\<close>

record graph_error =
  ge_node :: string
  ge_message :: string

definition graph_error_text :: "graph_error \<Rightarrow> string" where
  "graph_error_text e = (if ge_node e = [] then ge_message e else ge_node e @ '': '' @ ge_message e)"

abbreviation graph_problem :: "string \<Rightarrow> string \<Rightarrow> graph_error" where
  "graph_problem i m \<equiv> \<lparr>ge_node = i, ge_message = m\<rparr>"

text \<open>The checks of one node whose id is not blank.\<close>

definition node_problems :: "graph_node \<Rightarrow> graph_error list" where
  "node_problems n =
     (if \<not> kind_is_known (nd_kind n) then [graph_problem (nd_id n) (''unknown kind '' @ go_quote (nd_kind n))]
      else
        (if kind_is_input (nd_kind n) \<and> nd_inputs n \<noteq> [] then
           [graph_problem (nd_id n) ''input nodes cannot have Inputs''] else []) @
        (if \<not> kind_is_input (nd_kind n) \<and> \<not> kind_is_output (nd_kind n) \<and> nd_inputs n = [] then
           [graph_problem (nd_id n) ''transform nodes require at least one input''] else []) @
        (if kind_is_output (nd_kind n) \<and> nd_inputs n = [] then
           [graph_problem (nd_id n) ''output nodes require exactly one input''] else []))"

text \<open>The loop over the nodes, with their ids seen so far.\<close>

fun check_nodes :: "nat \<Rightarrow> string list \<Rightarrow> graph_node list \<Rightarrow> graph_error list \<times> string list" where
  "check_nodes i seen [] = ([], seen)"
| "check_nodes i seen (n # ns) =
     (if trim_space (nd_id n) = [] then
        (case check_nodes (Suc i) seen ns of
           (errs, seen') \<Rightarrow> (graph_problem [] (''node['' @ show_nat i @ ''] has empty id'') # errs, seen'))
      else
        (case check_nodes (Suc i) (nd_id n # seen) ns of
           (errs, seen') \<Rightarrow>
             ((if nd_id n \<in> set seen then [graph_problem (nd_id n) ''duplicate id''] else []) @
              node_problems n @ errs, seen')))"

definition check_inputs :: "string list \<Rightarrow> graph_node \<Rightarrow> graph_error list" where
  "check_inputs seen n =
     map (\<lambda>j. graph_problem (nd_id n) (''unknown input reference '' @ go_quote j))
       (filter (\<lambda>j. j \<notin> set seen) (nd_inputs n))"

fun check_edges :: "nat \<Rightarrow> string list \<Rightarrow> graph_edge list \<Rightarrow> graph_error list" where
  "check_edges i seen [] = []"
| "check_edges i seen (e # es) =
     (if ed_from e \<notin> set seen then
        [graph_problem [] (''edge['' @ show_nat i @ '']: unknown from-node '' @ go_quote (ed_from e))] else []) @
     (if ed_to e \<notin> set seen then
        [graph_problem [] (''edge['' @ show_nat i @ '']: unknown to-node '' @ go_quote (ed_to e))] else []) @
     check_edges (Suc i) seen es"

definition validate_graph :: "graph \<Rightarrow> graph_error list option" where
  "validate_graph g =
     (if gr_nodes g = [] then Some [graph_problem [] ''graph has no nodes'']
      else
        (case check_nodes 0 [] (gr_nodes g) of
           (errs, seen) \<Rightarrow>
             (case detect_cycle (gr_nodes g) of
                None \<Rightarrow> None
              | Some c \<Rightarrow>
                  Some (errs @ concat (map (check_inputs seen) (gr_nodes g)) @ check_edges 0 seen (gr_edges g) @
                    (case c of
                       None \<Rightarrow> []
                     | Some path \<Rightarrow> [graph_problem [] (''cycle detected: '' @ join_with arrow path)])))))"

end
