(* ===== verification/Pipeline_Graph_Proofs.thy ===== *)
theory Pipeline_Graph_Proofs
  imports Pipeline_Graph
begin

text \<open>
  The iterative search finds a cycle exactly when there is one, the path it reports is a cycle of the graph, and
  the validator accepts exactly the well-formed graphs.
\<close>

section \<open>The invariant of the search\<close>

definition reads_from :: "graph_node list \<Rightarrow> (string \<times> string) set" where
  "reads_from ns = {(i, j). j \<in> set (inputs_of ns i)}"

lemma reads_from_iff [simp]: "(i, j) \<in> reads_from ns \<longleftrightarrow> j \<in> set (inputs_of ns i)"
  by (simp add: reads_from_def)

text \<open>Each frame below was left at the input above it, and the parents follow the stack.\<close>

fun linked :: "graph_node list \<Rightarrow> graph_parents \<Rightarrow> (string \<times> nat) list \<Rightarrow> bool" where
  "linked ns par [] = True"
| "linked ns par [(i, c)] = (par i = [])"
| "linked ns par ((i, c) # (j, d) # st) =
     (0 < d \<and> d \<le> length (inputs_of ns j) \<and> inputs_of ns j ! (d - 1) = i \<and> par i = j \<and>
      linked ns par ((j, d) # st))"

definition scanned :: "graph_node list \<Rightarrow> graph_colours \<Rightarrow> string \<Rightarrow> nat \<Rightarrow> bool" where
  "scanned ns col i c \<longleftrightarrow> (\<forall>m < c. m < length (inputs_of ns i) \<longrightarrow> col (inputs_of ns i ! m) = 2)"

definition frames_scanned :: "graph_node list \<Rightarrow> graph_colours \<Rightarrow> (string \<times> nat) list \<Rightarrow> bool" where
  "frames_scanned ns col st \<longleftrightarrow>
     (case st of [] \<Rightarrow> True | (i, c) # st' \<Rightarrow> scanned ns col i c \<and> (\<forall>(j, d) \<in> set st'. scanned ns col j (d - 1)))"

definition black_done :: "graph_node list \<Rightarrow> graph_colours \<Rightarrow> bool" where
  "black_done ns col \<longleftrightarrow>
     (\<forall>x. col x = 2 \<longrightarrow> (\<forall>y \<in> set (inputs_of ns x). col y = 2)) \<and>
     acyclic {(x, y). col x = 2 \<and> (x, y) \<in> reads_from ns}"

definition dfs_inv :: "graph_node list \<Rightarrow> (string \<times> nat) list \<Rightarrow> graph_colours \<Rightarrow> graph_parents \<Rightarrow> bool" where
  "dfs_inv ns st col par \<longleftrightarrow>
     (\<forall>x. col x = 1 \<longleftrightarrow> x \<in> fst ` set st) \<and> (\<forall>x. col x \<le> 2) \<and> distinct (map fst st) \<and>
     linked ns par st \<and> frames_scanned ns col st \<and> black_done ns col \<and> (\<forall>x. par x \<noteq> [] \<longrightarrow> col x \<noteq> 0)"

lemma scanned_upd: "scanned ns col i c \<Longrightarrow> col x \<noteq> 2 \<or> v = 2 \<Longrightarrow> scanned ns (col(x := v)) i c"
  by (auto simp: scanned_def)

lemma black_done_grey:
  assumes "black_done ns col" "col x = 0"
  shows "black_done ns (col(x := 1))"
proof -
  have "{(y, z). (col(x := 1)) y = 2 \<and> (y, z) \<in> reads_from ns} = {(y, z). col y = 2 \<and> (y, z) \<in> reads_from ns}"
    using assms(2) by (auto split: if_splits)
  with assms show ?thesis unfolding black_done_def by auto
qed

lemma black_done_black:
  assumes "black_done ns col" "col x = 1" and inputs: "\<forall>y \<in> set (inputs_of ns x). col y = 2"
  shows "black_done ns (col(x := 2))"
proof -
  let ?B = "{(y, z). col y = 2 \<and> (y, z) \<in> reads_from ns}"
  let ?N = "{(y, z). (col(x := 2)) y = 2 \<and> (y, z) \<in> reads_from ns}"
  have closed: "\<forall>y. col y = 2 \<longrightarrow> (\<forall>z \<in> set (inputs_of ns y). col z = 2)" and acyc: "acyclic ?B"
    using assms(1) by (auto simp: black_done_def)
  have into: "col z = 2" if "(y, z) \<in> ?N\<^sup>+" for y z
    using that by (induction rule: trancl_induct) (use closed inputs in \<open>auto split: if_splits\<close>)
  have stays: "(y, z) \<in> ?B\<^sup>+" if "(y, z) \<in> ?N\<^sup>+" "col y = 2" for y z
    using that(1)
  proof (induction rule: trancl_induct)
    case (base z)
    with that(2) show ?case by auto
  next
    case (step z w)
    then have "(z, w) \<in> ?B" using into [of y z] by auto
    with step.IH show ?case by (rule trancl_into_trancl)
  qed
  have "acyclic ?N"
    unfolding acyclic_def
  proof (intro allI notI)
    fix y
    assume y: "(y, y) \<in> ?N\<^sup>+"
    with stays [OF y into [OF y]] acyc show False by (auto simp: acyclic_def)
  qed
  with closed inputs show ?thesis by (auto simp: black_done_def)
qed

lemma linked_tl: "linked ns par (f # st) \<Longrightarrow> linked ns par st \<or> st = []"
  by (cases f; cases st) auto

lemma linked_upd: "linked ns par st \<Longrightarrow> x \<notin> fst ` set st \<Longrightarrow> linked ns (par(x := i)) st"
  by (induction ns par st rule: linked.induct) auto

lemma linked_path: "linked ns par st \<Longrightarrow> successively (\<lambda>x y. (y, x) \<in> reads_from ns) (map fst st)"
proof (induction ns par st rule: linked.induct)
  case (3 ns par i c j d st)
  then have "inputs_of ns j ! (d - 1) \<in> set (inputs_of ns j)"
    by (intro nth_mem) auto
  with 3 show ?case by simp
qed simp_all

section \<open>The steps preserve it\<close>

lemma dfs_inv_pop:
  assumes inv: "dfs_inv ns ((i, c) # st) col par" and "length (inputs_of ns i) \<le> c"
  shows "dfs_inv ns st (col(i := 2)) par"
proof -
  have grey: "col i = 1" using inv by (simp add: dfs_inv_def)
  have "\<forall>y \<in> set (inputs_of ns i). col y = 2"
    using inv assms(2) by (auto simp: dfs_inv_def frames_scanned_def scanned_def in_set_conv_nth)
  then have black: "black_done ns (col(i := 2))"
    using inv grey by (intro black_done_black) (simp_all add: dfs_inv_def)
  have link: "linked ns par st"
    using inv linked_tl [of ns par "(i, c)" st] by (auto simp: dfs_inv_def)
  have frames: "frames_scanned ns (col(i := 2)) st"
  proof (cases st)
    case (Cons f st')
    obtain j d where f: "f = (j, d)" by (cases f)
    have link': "0 < d" "inputs_of ns j ! (d - 1) = i"
      using inv by (simp_all add: dfs_inv_def Cons f)
    have sc: "scanned ns col j (d - 1)" "\<forall>(k, e) \<in> set st'. scanned ns col k (e - 1)"
      using inv by (auto simp: dfs_inv_def frames_scanned_def Cons f)
    have "scanned ns (col(i := 2)) j d"
      using sc(1) link' unfolding scanned_def by (auto simp: less_Suc_eq dest!: less_imp_Suc_add [of 0 d])
    with sc(2) show ?thesis
      by (auto simp: frames_scanned_def Cons f intro: scanned_upd)
  qed (simp add: frames_scanned_def)
  show ?thesis
    using inv black link frames unfolding dfs_inv_def by (auto simp: image_iff)
qed

lemma scanned_Suc:
  "scanned ns col i c \<Longrightarrow> col (inputs_of ns i ! c) = 2 \<Longrightarrow> scanned ns col i (Suc c)"
  by (auto simp: scanned_def less_Suc_eq)

lemma dfs_inv_skip:
  assumes "dfs_inv ns ((i, c) # st) col par" "col (inputs_of ns i ! c) = 2"
  shows "dfs_inv ns ((i, Suc c) # st) col par"
proof -
  have "linked ns par ((i, Suc c) # st)"
    using assms(1) by (cases st) (auto simp: dfs_inv_def)
  with assms scanned_Suc [of ns col i c] show ?thesis
    by (simp add: dfs_inv_def frames_scanned_def)
qed

lemma dfs_inv_push:
  assumes inv: "dfs_inv ns ((i, c) # st) col par" and c: "c < length (inputs_of ns i)"
    and new: "col (inputs_of ns i ! c) = 0"
  shows "dfs_inv ns ((inputs_of ns i ! c, 0) # (i, Suc c) # st) (col(inputs_of ns i ! c := 1))
    (par(inputs_of ns i ! c := i))"
proof -
  let ?x = "inputs_of ns i ! c"
  have "col y = 1 \<longleftrightarrow> y \<in> fst ` set ((i, c) # st)" for y
    using inv unfolding dfs_inv_def by blast
  from this [of ?x] new have x: "?x \<notin> fst ` set ((i, c) # st)"
    by simp
  have "linked ns par ((i, Suc c) # st)"
    using inv by (cases st) (auto simp: dfs_inv_def)
  then have "linked ns (par(?x := i)) ((i, Suc c) # st)"
    using x by (intro linked_upd) auto
  then have link: "linked ns (par(?x := i)) ((?x, 0) # (i, Suc c) # st)"
    using c by simp
  have "scanned ns (col(?x := 1)) j d" if "scanned ns col j d" for j d
    using that new by (intro scanned_upd) auto
  then have frames: "frames_scanned ns (col(?x := 1)) ((?x, 0) # (i, Suc c) # st)"
    using inv by (auto simp: dfs_inv_def frames_scanned_def, auto simp: scanned_def)
  show ?thesis
    using inv link frames new x black_done_grey [of ns col ?x]
    unfolding dfs_inv_def by (auto simp: image_iff)
qed

section \<open>What the search returns\<close>

lemma rebuild_stack:
  "linked ns par ((i, c) # st) \<Longrightarrow>
   rebuild par x i path = Some (path @ takeWhile (\<lambda>y. y \<noteq> x \<and> y \<noteq> []) (map fst st))"
proof (induction st arbitrary: i c path)
  case Nil
  then show ?case by (simp add: rebuild.simps)
next
  case (Cons f st)
  obtain j d where f: "f = (j, d)" by (cases f)
  with Cons.prems have "par i = j" "linked ns par ((j, d) # st)" by simp_all
  with Cons.IH [of j d "path @ [j]"] f show ?case
    by (subst rebuild.simps) simp
qed

definition cycle_path :: "graph_node list \<Rightarrow> string list \<Rightarrow> bool" where
  "cycle_path ns p \<longleftrightarrow> 2 \<le> length p \<and> hd p = last p \<and> successively (\<lambda>x y. (x, y) \<in> reads_from ns) p"

lemma stack_reaches:
  "successively (\<lambda>x y. (y, x) \<in> R) (a # xs) \<Longrightarrow> b \<in> set (a # xs) \<Longrightarrow> (b, a) \<in> R\<^sup>*"
proof (induction xs arbitrary: a)
  case (Cons c xs)
  then show ?case
    by (cases "b = a") (auto intro: rtrancl_into_rtrancl)
qed simp

lemma back_edge_cyclic:
  assumes "linked ns par ((i, c) # st)" "x \<in> set (inputs_of ns i)" "x \<in> fst ` set ((i, c) # st)"
  shows "\<not> acyclic (reads_from ns)"
proof -
  have "(x, i) \<in> (reads_from ns)\<^sup>*"
    using stack_reaches [of "reads_from ns" i "map fst st" x] linked_path [OF assms(1)] assms(3) by simp
  moreover have "(i, x) \<in> reads_from ns"
    using assms(2) by simp
  ultimately have "(i, i) \<in> (reads_from ns)\<^sup>+"
    by (rule rtrancl_into_trancl2 [rotated])
  then show ?thesis by (auto simp: acyclic_def)
qed

lemma back_edge_path:
  assumes "linked ns par ((i, c) # st)" "x \<in> set (inputs_of ns i)" "x \<in> fst ` set st"
    and "[] \<notin> fst ` set st"
  shows "cycle_path ns (rev (x # i # takeWhile (\<lambda>y. y \<noteq> x \<and> y \<noteq> []) (map fst st) @ [x]))"
proof -
  let ?R = "\<lambda>x y. (y, x) \<in> reads_from ns"
  have same: "takeWhile (\<lambda>y. y \<noteq> x \<and> y \<noteq> []) (map fst st) = takeWhile (\<lambda>y. y \<noteq> x) (map fst st)"
    using assms(4) by (intro takeWhile_cong) (auto simp: image_iff)
  obtain pre post where split: "map fst st = pre @ x # post" "x \<notin> set pre"
    using assms(3) split_list_first [of x "map fst st"] by auto
  then have pre: "takeWhile (\<lambda>y. y \<noteq> x) (map fst st) = pre"
    by (auto simp: takeWhile_append)
  have "successively ?R (i # pre @ x # post)"
    using linked_path [OF assms(1)] split by simp
  then have "successively ?R ((i # pre @ [x]) @ post)"
    by simp
  then have "successively ?R (i # pre @ [x])"
    by (simp only: successively_append_iff)
  then have "successively ?R (x # i # pre @ [x])"
    using assms(2) by simp
  then show ?thesis
    unfolding same pre cycle_path_def successively_rev by simp
qed

text \<open>No empty id, and no node that reads its own output.\<close>

definition plain_inputs :: "graph_node list \<Rightarrow> bool" where
  "plain_inputs ns \<longleftrightarrow> (\<forall>n \<in> set ns. nd_id n \<noteq> [] \<and> [] \<notin> set (nd_inputs n) \<and> nd_id n \<notin> set (nd_inputs n))"

lemma inputs_of_node: "j \<in> set (inputs_of ns i) \<Longrightarrow> \<exists>n \<in> set ns. nd_id n = i \<and> j \<in> set (nd_inputs n)"
proof (cases "map_of (rev (map (\<lambda>n. (nd_id n, n)) ns)) i")
  case (Some n)
  then have "(i, n) \<in> set (rev (map (\<lambda>n. (nd_id n, n)) ns))"
    by (rule map_of_SomeD)
  moreover assume "j \<in> set (inputs_of ns i)"
  ultimately show ?thesis
    using Some by (auto simp: inputs_of_def)
qed (simp add: inputs_of_def)

definition search_result :: "graph_node list \<Rightarrow> graph_colours \<Rightarrow> (string list option \<times> graph_colours \<times> graph_parents) option \<Rightarrow> bool" where
  "search_result ns col res \<longleftrightarrow>
     (case res of
        None \<Rightarrow> False
      | Some (None, col', par') \<Rightarrow> dfs_inv ns [] col' par' \<and> (\<forall>x. col x \<noteq> 0 \<longrightarrow> col' x \<noteq> 0)
      | Some (Some path, _, _) \<Rightarrow> \<not> acyclic (reads_from ns) \<and> (plain_inputs ns \<longrightarrow> cycle_path ns path))"

lemma search_result_mono:
  "search_result ns col' res \<Longrightarrow> (\<And>x. col x \<noteq> 0 \<Longrightarrow> col' x \<noteq> 0) \<Longrightarrow> search_result ns col res"
  by (auto simp: search_result_def split: option.splits)

lemma dfs_loop_ok:
  "dfs_inv ns st col par \<Longrightarrow> (plain_inputs ns \<Longrightarrow> [] \<notin> fst ` set st) \<Longrightarrow>
   search_result ns col (dfs_loop ns st col par)"
proof (induction ns st col par rule: dfs_loop.induct)
  case (1 ns col par)
  then show ?case by (simp add: search_result_def)
next
  case (2 ns i c st col par)
  let ?x = "inputs_of ns i ! c"
  show ?case
  proof (cases "length (inputs_of ns i) \<le> c")
    case True
    have "search_result ns (col(i := 2)) (dfs_loop ns st (col(i := 2)) par)"
      using 2(1) [OF True dfs_inv_pop [OF 2(4) True]] 2(5) by (auto simp: fun_upd_def)
    then have "search_result ns col (dfs_loop ns st (col(i := 2)) par)"
      by (rule search_result_mono) simp
    then show ?thesis
      using True by (subst dfs_loop.simps(2)) simp
  next
    case False
    then have mem: "?x \<in> set (inputs_of ns i)" by simp
    have nonempty: "?x \<noteq> [] \<and> ?x \<noteq> i" if "plain_inputs ns"
      using that inputs_of_node [OF mem] by (auto simp: plain_inputs_def)
    have link: "linked ns par ((i, c) # st)"
      using 2(4) by (simp add: dfs_inv_def)
    have "col ?x \<le> 2"
      using 2(4) unfolding dfs_inv_def by blast
    then consider (new) "col ?x = 0" | (seen) "col ?x = 1" | (old) "col ?x = 2"
      by linarith
    then show ?thesis
    proof cases
      case new
      have "search_result ns (col(?x := 1))
          (dfs_loop ns ((?x, 0) # (i, Suc c) # st) (col(?x := 1)) (par(?x := i)))"
        by (rule 2(2) [OF False refl refl new dfs_inv_push [OF 2(4) _ new]]) (use False nonempty 2(5) in auto)
      then have "search_result ns col (dfs_loop ns ((?x, 0) # (i, Suc c) # st) (col(?x := 1)) (par(?x := i)))"
        by (rule search_result_mono) simp
      then show ?thesis
        using False new by (subst dfs_loop.simps(2)) (simp add: Let_def)
    next
      case seen
      then have grey: "?x \<in> fst ` set ((i, c) # st)"
        using 2(4) unfolding dfs_inv_def by blast
      have "cycle_path ns (rev (?x # i # takeWhile (\<lambda>y. y \<noteq> ?x \<and> y \<noteq> []) (map fst st) @ [?x]))"
        if "plain_inputs ns"
        using that nonempty grey 2(5) mem by (intro back_edge_path [OF link]) auto
      with back_edge_cyclic [OF link mem grey] rebuild_stack [OF link] show ?thesis
        using False seen by (subst dfs_loop.simps(2)) (simp add: search_result_def Let_def)
    next
      case old
      then show ?thesis
        using 2(3) [OF False refl refl _ _ dfs_inv_skip [OF 2(4) old]] False 2(5)
        by (subst dfs_loop.simps(2)) (simp add: Let_def)
    qed
  qed
qed

lemma dfs_inv_start:
  assumes "dfs_inv ns [] col par" "col start = 0"
  shows "dfs_inv ns [(start, 0)] (col(start := 1)) par"
proof -
  have "par start = []"
    using assms unfolding dfs_inv_def by blast
  with assms black_done_grey [of ns col start] show ?thesis
    by (auto simp: dfs_inv_def frames_scanned_def scanned_def)
qed

lemma inv_empty_black: "dfs_inv ns [] col par \<Longrightarrow> col x \<noteq> 0 \<Longrightarrow> col x = 2"
proof -
  assume "dfs_inv ns [] col par" "col x \<noteq> 0"
  then have "col x \<le> 2" "col x \<noteq> 1" "col x \<noteq> 0"
    by (auto simp: dfs_inv_def)
  then show ?thesis by linarith
qed

lemma detect_from_ok:
  assumes "\<And>i. plain_inputs ns \<Longrightarrow> i \<in> set ids \<Longrightarrow> i \<noteq> []"
  shows "dfs_inv ns [] col par \<Longrightarrow>
   (detect_from ns ids col par = Some None \<and>
     (\<exists>col'. black_done ns col' \<and> (\<forall>x. x \<in> set ids \<or> col x \<noteq> 0 \<longrightarrow> col' x = 2))) \<or>
   (\<exists>p. detect_from ns ids col par = Some (Some p) \<and> \<not> acyclic (reads_from ns) \<and>
     (plain_inputs ns \<longrightarrow> cycle_path ns p))"
  using assms
proof (induction ids arbitrary: col par)
  case Nil
  then show ?case
    using inv_empty_black [OF Nil(1)] by (auto simp: dfs_inv_def)
next
  case (Cons start ids)
  show ?case
  proof (cases "col start = 0")
    case True
    have "search_result ns (col(start := 1)) (dfs_cycle start ns col par)"
      unfolding dfs_cycle_def using Cons.prems(2) [of start]
      by (intro dfs_loop_ok dfs_inv_start [OF Cons.prems(1) True]) auto
    then obtain r col1 par1 where r: "dfs_cycle start ns col par = Some (r, col1, par1)"
      "search_result ns (col(start := 1)) (Some (r, col1, par1))"
      by (cases "dfs_cycle start ns col par") (auto simp: search_result_def)
    then consider (none) col' par' where "dfs_cycle start ns col par = Some (None, col', par')"
        "dfs_inv ns [] col' par'" "\<forall>x. (col(start := 1)) x \<noteq> 0 \<longrightarrow> col' x \<noteq> 0"
      | (cycle) p col' par' where "dfs_cycle start ns col par = Some (Some p, col', par')"
        "\<not> acyclic (reads_from ns)" "plain_inputs ns \<longrightarrow> cycle_path ns p"
      by (cases r) (fastforce simp: search_result_def)+
    then show ?thesis
    proof cases
      case none
      have keep: "col' x = 2" if "x = start \<or> col x \<noteq> 0" for x
        using none(3) that inv_empty_black [OF none(2)] by auto
      have "(detect_from ns ids col' par' = Some None \<and>
          (\<exists>c. black_done ns c \<and> (\<forall>x. x \<in> set ids \<or> col' x \<noteq> 0 \<longrightarrow> c x = 2))) \<or>
        (\<exists>p. detect_from ns ids col' par' = Some (Some p) \<and> \<not> acyclic (reads_from ns) \<and>
          (plain_inputs ns \<longrightarrow> cycle_path ns p))"
        using Cons.IH [OF none(2)] Cons.prems(2) by auto
      moreover have "detect_from ns (start # ids) col par = detect_from ns ids col' par'"
        using True none(1) by simp
      moreover have "x \<in> set (start # ids) \<or> col x \<noteq> 0 \<longrightarrow> x \<in> set ids \<or> col' x \<noteq> 0" for x
        using keep [of x] by auto
      ultimately show ?thesis by (metis (no_types, lifting))
    next
      case cycle
      with True show ?thesis by simp
    qed
  next
    case False
    have "(detect_from ns ids col par = Some None \<and>
        (\<exists>c. black_done ns c \<and> (\<forall>x. x \<in> set ids \<or> col x \<noteq> 0 \<longrightarrow> c x = 2))) \<or>
      (\<exists>p. detect_from ns ids col par = Some (Some p) \<and> \<not> acyclic (reads_from ns) \<and>
        (plain_inputs ns \<longrightarrow> cycle_path ns p))"
      using Cons.IH [OF Cons.prems(1)] Cons.prems(2) by auto
    with False show ?thesis by auto
  qed
qed

lemma dfs_inv_initial: "dfs_inv ns [] (\<lambda>_. 0) (\<lambda>_. [])"
  by (simp add: dfs_inv_def frames_scanned_def black_done_def wf_acyclic)

lemma black_done_acyclic:
  assumes "black_done ns col" "\<forall>n \<in> set ns. col (nd_id n) = 2"
  shows "acyclic (reads_from ns)"
proof -
  have "reads_from ns \<subseteq> {(x, y). col x = 2 \<and> (x, y) \<in> reads_from ns}"
    using inputs_of_node assms(2) by fastforce
  then show ?thesis
    using assms(1) acyclic_subset unfolding black_done_def by blast
qed

lemma detect_cycle_core:
  "(detect_cycle ns = Some None \<and> acyclic (reads_from ns)) \<or>
   (\<exists>p. detect_cycle ns = Some (Some p) \<and> \<not> acyclic (reads_from ns) \<and> (plain_inputs ns \<longrightarrow> cycle_path ns p))"
proof -
  have "i \<noteq> []" if "plain_inputs ns" "i \<in> set (sort (map nd_id ns))" for i
    using that by (auto simp: plain_inputs_def)
  from detect_from_ok [OF this dfs_inv_initial] show ?thesis
    unfolding detect_cycle_def using black_done_acyclic by fastforce
qed

section \<open>The validator\<close>

lemma check_nodes_seen:
  "set (snd (check_nodes i seen ns)) = set seen \<union> {nd_id n |n. n \<in> set ns \<and> trim_space (nd_id n) \<noteq> []}"
  by (induction i seen ns rule: check_nodes.induct) (auto split: prod.splits)

lemma check_nodes_none:
  "fst (check_nodes i seen ns) = [] \<longleftrightarrow>
     (\<forall>n \<in> set ns. trim_space (nd_id n) \<noteq> [] \<and> node_problems n = []) \<and> distinct (map nd_id ns) \<and>
     (\<forall>n \<in> set ns. nd_id n \<notin> set seen)"
  by (induction i seen ns rule: check_nodes.induct) (auto simp: image_iff split: prod.splits, metis)

definition node_shape_ok :: "graph_node \<Rightarrow> bool" where
  "node_shape_ok n \<longleftrightarrow>
     nd_kind n \<in> set all_node_kinds \<and>
     (if nd_kind n \<in> {''dataset_input'', ''media_set_input''} then nd_inputs n = [] else nd_inputs n \<noteq> [])"

lemma node_problems_none: "node_problems n = [] \<longleftrightarrow> node_shape_ok n"
proof -
  have "kind_is_output k \<Longrightarrow> \<not> kind_is_input k" for k
    by (auto simp: kind_is_output_def kind_is_input_def node_dataset_output_def node_media_set_output_def
        node_virtual_table_output_def node_ontology_object_output_def node_dataset_input_def node_media_set_input_def)
  then show ?thesis
    by (auto simp: node_problems_def node_shape_ok_def kind_is_known_def kind_is_input_def node_dataset_input_def
        node_media_set_input_def)
qed

lemma check_edges_none: "check_edges i seen es = [] \<longleftrightarrow> (\<forall>e \<in> set es. ed_from e \<in> set seen \<and> ed_to e \<in> set seen)"
  by (induction i seen es rule: check_edges.induct) auto

text \<open>The documented rules of a graph.\<close>

definition graph_well_formed :: "graph \<Rightarrow> bool" where
  "graph_well_formed g \<longleftrightarrow>
     gr_nodes g \<noteq> [] \<and>
     (\<forall>n \<in> set (gr_nodes g). trim_space (nd_id n) \<noteq> [] \<and> node_shape_ok n \<and>
        set (nd_inputs n) \<subseteq> nd_id ` set (gr_nodes g)) \<and>
     distinct (map nd_id (gr_nodes g)) \<and>
     (\<forall>e \<in> set (gr_edges g). ed_from e \<in> nd_id ` set (gr_nodes g) \<and> ed_to e \<in> nd_id ` set (gr_nodes g)) \<and>
     acyclic {(nd_id n, j) |n j. n \<in> set (gr_nodes g) \<and> j \<in> set (nd_inputs n)}"

lemma reads_from_distinct:
  assumes "distinct (map nd_id ns)"
  shows "reads_from ns = {(nd_id n, j) |n j. n \<in> set ns \<and> j \<in> set (nd_inputs n)}"
proof -
  have "inputs_of ns (nd_id n) = nd_inputs n" if "n \<in> set ns" for n
  proof -
    have "map_of (rev (map (\<lambda>n. (nd_id n, n)) ns)) (nd_id n) = Some n"
      using that assms by (intro map_of_is_SomeI) (auto simp: comp_def rev_map [symmetric])
    then show ?thesis by (simp add: inputs_of_def)
  qed
  then show ?thesis
    using inputs_of_node [of _ ns] by (fastforce simp: reads_from_def)
qed

lemma validate_graph_total: "validate_graph g \<noteq> None"
  using detect_cycle_core [of "gr_nodes g"] by (auto simp: validate_graph_def split: prod.split)

lemma validate_graph_core:
  "validate_graph g = Some [] \<longleftrightarrow> graph_well_formed g"
proof (cases "gr_nodes g = []")
  case False
  let ?ns = "gr_nodes g"
  obtain errs seen where c: "check_nodes 0 [] ?ns = (errs, seen)"
    by (cases "check_nodes 0 [] ?ns")
  have seen: "set seen = {nd_id n |n. n \<in> set ?ns \<and> trim_space (nd_id n) \<noteq> []}"
    using check_nodes_seen [of 0 "[]" ?ns] c by simp
  have errs: "errs = [] \<longleftrightarrow> (\<forall>n \<in> set ?ns. trim_space (nd_id n) \<noteq> [] \<and> node_shape_ok n) \<and> distinct (map nd_id ?ns)"
    using check_nodes_none [of 0 "[]" ?ns] c by (simp add: node_problems_none)
  have cyc: "detect_cycle ?ns = Some None \<longleftrightarrow> acyclic (reads_from ?ns)"
    using detect_cycle_core [of ?ns] by auto
  have "validate_graph g = Some [] \<longleftrightarrow>
      errs = [] \<and> (\<forall>n \<in> set ?ns. set (nd_inputs n) \<subseteq> set seen) \<and>
      (\<forall>e \<in> set (gr_edges g). ed_from e \<in> set seen \<and> ed_to e \<in> set seen) \<and> detect_cycle ?ns = Some None"
    using False c
    by (auto simp: validate_graph_def check_inputs_def check_edges_none filter_empty_conv split: option.splits)
  also have "\<dots> \<longleftrightarrow> graph_well_formed g"
  proof (cases "errs = []")
    case True
    then have "set seen = nd_id ` set ?ns"
      using seen errs by auto
    with True errs cyc reads_from_distinct [of ?ns] False show ?thesis
      by (auto simp: graph_well_formed_def)
  next
    case False
    with errs show ?thesis by (auto simp: graph_well_formed_def)
  qed
  finally show ?thesis .
qed (simp add: validate_graph_def graph_well_formed_def)

section \<open>Properties\<close>

text \<open>
  Validate always returns, and it finds no problem exactly with the well-formed graphs: some node, ids that are
  neither blank nor repeated, known kinds, no inputs for a source and at least one for every other node, inputs
  and edges that name nodes of the graph, and no cycle.
\<close>

theorem validate_graph_iff_well_formed:
  "validate_graph g \<noteq> None \<and> (validate_graph g = Some [] \<longleftrightarrow> graph_well_formed g)"
  using validate_graph_total validate_graph_core by blast

text \<open>
  The cycle that Validate reports is one: when ids are not empty and no node lists itself among its inputs, the
  search returns, with nothing exactly for an acyclic graph, and otherwise with a path along the inputs that
  ends where it starts.
\<close>

theorem detect_cycle_path:
  assumes "plain_inputs ns"
  shows "\<exists>r. detect_cycle ns = Some r \<and> (r = None \<longleftrightarrow> acyclic (reads_from ns)) \<and>
    (\<forall>p. r = Some p \<longrightarrow> cycle_path ns p)"
  using detect_cycle_core [of ns] assms by auto

text \<open>
  A node that reads its own output is reported with a path that is no path: a and b both read b, and the message is
  b, a, b, b, although b does not read a.
\<close>

definition self_reader :: "graph_node list" where
  "self_reader =
     [\<lparr>nd_id = ''a'', nd_kind = ''filter'', nd_inputs = [''b''], nd_config = None, nd_display_name = []\<rparr>,
      \<lparr>nd_id = ''b'', nd_kind = ''filter'', nd_inputs = [''b''], nd_config = None, nd_display_name = []\<rparr>]"

lemma self_cycle_misreported:
  "detect_cycle self_reader = Some (Some [''b'', ''a'', ''b'', ''b'']) \<and>
   \<not> cycle_path self_reader [''b'', ''a'', ''b'', ''b'']"
proof -
  have inputs: "inputs_of self_reader ''a'' = [''b'']" "inputs_of self_reader ''b'' = [''b'']"
    by (simp_all add: inputs_of_def self_reader_def)
  have "sort (map nd_id self_reader) = [''a'', ''b'']"
    by (simp add: self_reader_def less_eq_char_def)
  then have "detect_cycle self_reader = Some (Some [''b'', ''a'', ''b'', ''b''])"
    by (simp add: detect_cycle_def dfs_cycle_def dfs_loop.simps(2) inputs rebuild.simps Let_def)
  moreover have "\<not> cycle_path self_reader [''b'', ''a'', ''b'', ''b'']"
    by (simp add: cycle_path_def inputs)
  ultimately show ?thesis ..
qed

definition looping :: "graph_node list" where
  "looping =
     [\<lparr>nd_id = ''a'', nd_kind = ''filter'', nd_inputs = [''b''], nd_config = None, nd_display_name = []\<rparr>,
      \<lparr>nd_id = ''b'', nd_kind = ''filter'', nd_inputs = [''a''], nd_config = None, nd_display_name = []\<rparr>]"

theorem detect_cycle_path_witness:
  "\<exists>p. detect_cycle looping = Some (Some p) \<and> cycle_path looping p"
proof -
  have "plain_inputs looping"
    by (simp add: plain_inputs_def looping_def)
  moreover have "(''a'', ''a'') \<in> (reads_from looping)\<^sup>+"
    by (rule trancl_into_trancl [of _ "''b''"]) (auto simp: inputs_of_def looping_def)
  then have "\<not> acyclic (reads_from looping)"
    by (auto simp: acyclic_def)
  ultimately show ?thesis
    using detect_cycle_path [of looping] by auto
qed

end
