(* ===== verification/Auth_Claims.thy ===== *)
theory Auth_Claims
  imports Float64
begin

text \<open>
  The claims of an authenticated subject, \<^verbatim>\<open>libs/auth-middleware/claims.go\<close>, with the marking clearances of
  \<^verbatim>\<open>markings.go\<close> and the row-level context of \<^verbatim>\<open>rls.go\<close>. A nil \<^verbatim>\<open>*Claims\<close> is \<open>None\<close> where the code
  allows it. The free-form attributes are the decoded JSON object; an empty or malformed payload is the empty map.
\<close>

section \<open>Dynamic values\<close>

text \<open>What a Go \<^verbatim>\<open>any\<close> holds here: the results of \<^verbatim>\<open>encoding/json\<close> and the slices the code itself builds.\<close>

datatype 'd dyn =
    DNil
  | DBool bool
  | DInt "64 word"
  | DFloat 'd
  | DFloat32 'd
  | DNumber string
  | DStr string
  | DUuid uuid
  | DList "'d dyn list"
  | DStrs "string list"
  | DUuids "uuid list"
  | DInts "64 word list"
  | DFloats "'d list"
  | DMap "(string \<times> 'd dyn) list"

section \<open>Claims\<close>

record session_scope =
  ss_methods :: "string list"
  ss_paths :: "string list"
  ss_subjects :: "string list"
  ss_orgs :: "uuid list"
  ss_workspace :: "string option"
  ss_clearance :: "string option"
  ss_markings :: "string list"
  ss_views :: "uuid list"
  ss_consumer :: bool
  ss_guest_email :: "string option"
  ss_guest_name :: "string option"

record 'd claims =
  cl_sub :: uuid
  cl_iat :: int
  cl_exp :: int
  cl_iss :: "string option"
  cl_aud :: "string option"
  cl_jti :: uuid
  cl_email :: string
  cl_name :: string
  cl_roles :: "string list"
  cl_permissions :: "string list"
  cl_org :: "uuid option"
  cl_attributes :: "string \<Rightarrow> 'd dyn option"
  cl_auth_methods :: "string list"
  cl_token_use :: "string option"
  cl_api_key :: "uuid option"
  cl_session_kind :: "string option"
  cl_scope :: "session_scope option"

definition is_expired :: "int \<Rightarrow> 'd claims \<Rightarrow> bool" where
  "is_expired now c \<longleftrightarrow> cl_exp c < now"

definition admin_role :: string where
  "admin_role = ''admin''"

definition has_role :: "'d claims \<Rightarrow> string \<Rightarrow> bool" where
  "has_role c role \<longleftrightarrow> role \<in> set (cl_roles c)"

definition has_any_role :: "'d claims \<Rightarrow> string list \<Rightarrow> bool" where
  "has_any_role c roles \<longleftrightarrow> list_ex (has_role c) roles"

text \<open>The permission \<^verbatim>\<open>resource:*\<close>, when the key has a resource.\<close>

definition resource_wildcard :: "string \<Rightarrow> string" where
  "resource_wildcard permission =
     (case index_of (CHR '':'') permission of
        Some idx \<Rightarrow> if 0 < idx then take idx permission @ '':*'' else []
      | None \<Rightarrow> [])"

definition has_permission_key :: "'d claims \<Rightarrow> string \<Rightarrow> bool" where
  "has_permission_key c permission \<longleftrightarrow>
     has_role c admin_role \<or>
     list_ex (\<lambda>candidate.
        candidate = permission \<or> candidate = ''*:*'' \<or>
        resource_wildcard permission \<noteq> [] \<and> candidate = resource_wildcard permission) (cl_permissions c)"

definition has_permission :: "'d claims \<Rightarrow> string \<Rightarrow> string \<Rightarrow> bool" where
  "has_permission c resource action = has_permission_key c (resource @ '':'' @ action)"

definition is_guest_session :: "'d claims \<Rightarrow> bool" where
  "is_guest_session c \<longleftrightarrow>
     cl_session_kind c = Some ''guest_session'' \<or>
     (case cl_scope c of
        None \<Rightarrow> False
      | Some s \<Rightarrow> (case ss_guest_email s of None \<Rightarrow> False | Some e \<Rightarrow> e \<noteq> []))"

definition classification_clearance :: "'d claims \<Rightarrow> string option" where
  "classification_clearance c =
     (case (case cl_scope c of None \<Rightarrow> None | Some s \<Rightarrow> ss_clearance s) of
        Some v \<Rightarrow> Some v
      | None \<Rightarrow>
          (case cl_attributes c ''classification_clearance'' of
             Some (DStr v) \<Rightarrow> Some v
           | _ \<Rightarrow> None))"

definition has_active_marking_scope :: "'d claims option \<Rightarrow> bool" where
  "has_active_marking_scope c \<longleftrightarrow>
     (case c of None \<Rightarrow> False
      | Some c' \<Rightarrow> (case cl_scope c' of None \<Rightarrow> False | Some s \<Rightarrow> ss_markings s \<noteq> []))"

definition public_marking :: string where "public_marking = ''public''"
definition confidential_marking :: string where "confidential_marking = ''confidential''"
definition pii_marking :: string where "pii_marking = ''pii''"

text \<open>The cascade without a scope; a missing clearance reads as the empty string.\<close>

definition ladder_markings :: "'d claims \<Rightarrow> string list" where
  "ladder_markings c =
     (let clearance = (case classification_clearance c of None \<Rightarrow> [] | Some v \<Rightarrow> v) in
      if clearance = pii_marking then [public_marking, confidential_marking, pii_marking]
      else if clearance = confidential_marking then [public_marking, confidential_marking]
      else if clearance = public_marking then [public_marking]
      else if has_role c admin_role then [public_marking, confidential_marking, pii_marking]
      else [public_marking])"

definition allowed_markings :: "'d claims option \<Rightarrow> string list" where
  "allowed_markings c =
     (case c of
        None \<Rightarrow> []
      | Some c' \<Rightarrow>
          (case cl_scope c' of
             Some s \<Rightarrow> if ss_markings s \<noteq> [] then ss_markings s else ladder_markings c'
           | None \<Rightarrow> ladder_markings c'))"

definition allows_marking :: "'d claims option \<Rightarrow> string \<Rightarrow> bool" where
  "allows_marking c marking \<longleftrightarrow>
     (case c of
        None \<Rightarrow> False
      | Some c' \<Rightarrow>
          \<not> has_active_marking_scope c \<and> has_role c' admin_role \<or>
          list_ex (\<lambda>m. equal_fold m marking) (allowed_markings c))"

definition missing_allowed_markings :: "'d claims option \<Rightarrow> string list \<Rightarrow> string list" where
  "missing_allowed_markings c markings =
     filter (\<lambda>m. m \<noteq> [] \<and> \<not> allows_marking c m) (map trim_space markings)"

definition allows_all_markings :: "'d claims option \<Rightarrow> string list \<Rightarrow> bool" where
  "allows_all_markings c markings \<longleftrightarrow> missing_allowed_markings c markings = []"

text \<open>The allowlists of a session scope: without one, or with an empty one, everything is allowed.\<close>

definition scope_list :: "(session_scope \<Rightarrow> 'a list) \<Rightarrow> 'd claims \<Rightarrow> 'a list" where
  "scope_list f c = (case cl_scope c of None \<Rightarrow> [] | Some s \<Rightarrow> f s)"

definition allows_http_method :: "'d claims \<Rightarrow> string \<Rightarrow> bool" where
  "allows_http_method c m \<longleftrightarrow>
     scope_list ss_methods c = [] \<or> list_ex (\<lambda>a. equal_fold a m \<or> a = ''*'') (scope_list ss_methods c)"

definition allowed_org_ids :: "'d claims \<Rightarrow> uuid list" where
  "allowed_org_ids c =
     (if scope_list ss_orgs c \<noteq> [] then scope_list ss_orgs c
      else (case cl_org c of None \<Rightarrow> [] | Some i \<Rightarrow> [i]))"

definition allows_org_id :: "'d claims \<Rightarrow> uuid option \<Rightarrow> bool" where
  "allows_org_id c resource_org \<longleftrightarrow>
     has_role c admin_role \<or> allowed_org_ids c = [] \<or>
     (case resource_org of
        None \<Rightarrow> \<not> is_guest_session c
      | Some i \<Rightarrow> i \<in> set (allowed_org_ids c))"

definition allows_subject_id :: "'d claims \<Rightarrow> string option \<Rightarrow> bool" where
  "allows_subject_id c subject \<longleftrightarrow>
     scope_list ss_subjects c = [] \<or>
     (case subject of None \<Rightarrow> False | Some i \<Rightarrow> i \<in> set (scope_list ss_subjects c))"

definition attribute :: "'d claims \<Rightarrow> string \<Rightarrow> 'd dyn option" where
  "attribute c key = cl_attributes c key"

definition restricted_view_ids :: "'d claims \<Rightarrow> uuid list" where
  "restricted_view_ids c = scope_list ss_views c"

definition consumer_mode_enabled :: "'d claims \<Rightarrow> bool" where
  "consumer_mode_enabled c \<longleftrightarrow> (case cl_scope c of None \<Rightarrow> False | Some s \<Rightarrow> ss_consumer s)"

definition allows_path :: "'d claims \<Rightarrow> string \<Rightarrow> bool" where
  "allows_path c path \<longleftrightarrow>
     scope_list ss_paths c = [] \<or> list_ex (\<lambda>p. has_prefix path p) (scope_list ss_paths c)"

section \<open>Clearances\<close>

text \<open>The sets of ids and of names; \<open>resolve\<close> is the resolver the caller passes.\<close>

record clearances =
  cc_ids :: "uuid list"
  cc_names :: "string list"
  cc_admin :: bool

definition clearances_from_claims :: "'d claims \<Rightarrow> (string \<Rightarrow> uuid option) \<Rightarrow> clearances" where
  "clearances_from_claims c resolve =
     (let names = map to_lower (allowed_markings (Some c)) in
      \<lparr>cc_ids = List.map_filter resolve names, cc_names = names,
       cc_admin = has_role c admin_role \<and> \<not> has_active_marking_scope (Some c)\<rparr>)"

definition clearances_names_only :: "'d claims \<Rightarrow> clearances" where
  "clearances_names_only c =
     \<lparr>cc_ids = [], cc_names = map to_lower (allowed_markings (Some c)),
      cc_admin = has_role c admin_role \<and> \<not> has_active_marking_scope (Some c)\<rparr>"

definition clears_id :: "clearances \<Rightarrow> uuid \<Rightarrow> bool" where
  "clears_id cc i \<longleftrightarrow> cc_admin cc \<or> i \<in> set (cc_ids cc)"

definition clears_name :: "clearances \<Rightarrow> string \<Rightarrow> bool" where
  "clears_name cc n \<longleftrightarrow> cc_admin cc \<or> to_lower n \<in> set (cc_names cc)"

text \<open>The resolver built from a table: keys are lowered on insertion and on lookup.\<close>

definition static_resolver :: "(string \<times> uuid) list \<Rightarrow> string \<Rightarrow> uuid option" where
  "static_resolver entries name = map_of (rev (map (\<lambda>(k, v). (to_lower k, v)) entries)) (to_lower name)"

text \<open>The missing markings; none means that access is granted.\<close>

definition enforce_markings :: "uuid list \<Rightarrow> clearances \<Rightarrow> uuid list" where
  "enforce_markings effective cc =
     (if cc_admin cc then [] else filter (\<lambda>i. i \<notin> set (cc_ids cc)) effective)"

section \<open>The row-level context\<close>

record rls_context =
  rls_user :: uuid
  rls_org :: "uuid option"
  rls_roles :: "string list"
  rls_permissions :: "string list"

definition rls_from_claims :: "'d claims \<Rightarrow> rls_context" where
  "rls_from_claims c =
     \<lparr>rls_user = cl_sub c, rls_org = cl_org c, rls_roles = cl_roles c, rls_permissions = cl_permissions c\<rparr>"

definition rls_is_admin :: "rls_context \<Rightarrow> bool" where
  "rls_is_admin r \<longleftrightarrow> admin_role \<in> set (rls_roles r)"

definition rls_has_permission :: "rls_context \<Rightarrow> string \<Rightarrow> bool" where
  "rls_has_permission r permission \<longleftrightarrow> rls_is_admin r \<or> permission \<in> set (rls_permissions r)"

definition org_filter :: "(uuid \<Rightarrow> string) \<Rightarrow> rls_context \<Rightarrow> string \<Rightarrow> string" where
  "org_filter show_uuid r column =
     (if rls_is_admin r then ''TRUE''
      else (case rls_org r of
              Some i \<Rightarrow> column @ '' = '' @ [CHR 0x27] @ show_uuid i @ [CHR 0x27]
            | None \<Rightarrow> column @ '' IS NULL''))"

definition owner_or_org_filter :: "(uuid \<Rightarrow> string) \<Rightarrow> rls_context \<Rightarrow> string \<Rightarrow> string \<Rightarrow> string" where
  "owner_or_org_filter show_uuid r owner_column org_column =
     (let q = (\<lambda>i. [CHR 0x27] @ show_uuid i @ [CHR 0x27]) in
      if rls_is_admin r \<or> rls_has_permission r ''rows:all'' then ''TRUE''
      else (case rls_org r of
              Some i \<Rightarrow>
                ''('' @ owner_column @ '' = '' @ q (rls_user r) @ '' OR '' @ org_column @ '' = '' @ q i @ '')''
            | None \<Rightarrow> owner_column @ '' = '' @ q (rls_user r)))"

end
