(* ===== verification/Restricted_View.thy ===== *)
theory Restricted_View
  imports Auth_Claims "HOL-Library.List_Lexorder" "HOL-Library.Char_ord"
begin

text \<open>
  Restricted views, \<^verbatim>\<open>libs/restrictedview/policy.go\<close>: the policy, its comparison operators on dynamic values, the
  evaluation of one row with the gates that come before the granular rules, and the filters on rows and tables.

  The package \<^verbatim>\<open>google/uuid\<close> and the byte level of \<^verbatim>\<open>encoding/json\<close> are fields of the environment record \<open>rv_env\<close>,
  with the floating-point operations: \<open>rv_json_read\<close> yields the syntax tree of a document with its numbers as
  written (\<open>DNumber\<close>), from which the structs are decoded below. The \<^verbatim>\<open>error\<close> results of \<^verbatim>\<open>evalGroup\<close> and
  \<^verbatim>\<open>evalExpression\<close> are always nil in the code and are left out; nil and empty slices are one.
\<close>

section \<open>Environment and data\<close>

record 'd rv_env =
  rv_fl :: "'d float64"
  rv_uuid_parse :: "string \<Rightarrow> uuid option"
  rv_uuid_show :: "uuid \<Rightarrow> string"
  rv_json_read :: "string \<Rightarrow> 'd dyn option"
  rv_json_write :: "'d dyn \<Rightarrow> string option"

type_synonym 'd rv_row = "string \<Rightarrow> 'd dyn option"

record rv_policy =
  rp_id :: string
  rp_policy :: string
  rp_conditions :: string
  rp_row_filter :: "string option"
  rp_hidden :: "string list"
  rp_markings_cols :: "string list"
  rp_orgs :: "uuid list"
  rp_markings :: "string list"
  rp_consumer :: bool
  rp_guest :: bool

record rv_decision =
  rd_allowed :: bool
  rd_matched :: "string list"
  rd_reasons :: "string list"
  rd_hidden :: "string list"
  rd_views :: "string list"
  rd_runtime :: bool

record 'd policy_operand =
  po_kind :: string
  po_key :: string
  po_column :: string
  po_value_type :: string
  po_value :: "'d dyn"
  po_values :: "'d dyn list"

datatype 'd policy_expression =
  PolicyExpression string string string "'d policy_operand" "'d policy_operand" "'d policy_expression list"

record 'd policy_group =
  pg_id :: string
  pg_type :: string
  pg_operator :: string
  pg_children :: "'d policy_expression list"

record 'd granular_policy =
  gp_kind :: string
  gp_version :: "64 word"
  gp_root :: "'d policy_group"

section \<open>Dynamic values\<close>

text \<open>\<^verbatim>\<open>strconv.ParseBool\<close> and \<^verbatim>\<open>strconv.FormatBool\<close>.\<close>

definition parse_go_bool :: "string \<Rightarrow> bool option" where
  "parse_go_bool s =
     (if s \<in> {''1'', ''t'', ''T'', ''TRUE'', ''true'', ''True''} then Some True
      else if s \<in> {''0'', ''f'', ''F'', ''FALSE'', ''false'', ''False''} then Some False
      else None)"

definition format_bool :: "bool \<Rightarrow> string" where
  "format_bool b = (if b then ''true'' else ''false'')"

fun rv_numeric :: "'d rv_env \<Rightarrow> 'd dyn \<Rightarrow> 'd option" where
  "rv_numeric env (DInt n) = Some (fl_of_int (rv_fl env) n)"
| "rv_numeric env (DFloat f) = Some f"
| "rv_numeric env (DFloat32 f) = Some f"
| "rv_numeric env (DNumber s) = fl_parse (rv_fl env) s"
| "rv_numeric env (DStr s) = fl_parse (rv_fl env) s"
| "rv_numeric env _ = None"

fun bool_value :: "'d dyn \<Rightarrow> bool option" where
  "bool_value (DBool b) = Some b"
| "bool_value (DStr s) = parse_go_bool s"
| "bool_value _ = None"

fun scalar_string :: "'d rv_env \<Rightarrow> 'd dyn \<Rightarrow> string option" where
  "scalar_string env (DStr s) = Some s"
| "scalar_string env (DUuid u) = Some (rv_uuid_show env u)"
| "scalar_string env (DNumber s) = Some s"
| "scalar_string env (DInt n) = Some (show_int64 n)"
| "scalar_string env (DFloat f) = Some (fl_format_f (rv_fl env) f)"
| "scalar_string env (DBool b) = Some (format_bool b)"
| "scalar_string env _ = None"

fun as_slice :: "'d rv_env \<Rightarrow> 'd dyn \<Rightarrow> 'd dyn list" where
  "as_slice env DNil = []"
| "as_slice env (DList xs) = xs"
| "as_slice env (DStrs xs) = map DStr xs"
| "as_slice env (DUuids xs) = map (\<lambda>u. DStr (rv_uuid_show env u)) xs"
| "as_slice env (DInts xs) = map DInt xs"
| "as_slice env (DFloats xs) = map DFloat xs"
| "as_slice env x = [x]"

fun stringify_slice :: "'d rv_env \<Rightarrow> 'd dyn \<Rightarrow> string list" where
  "stringify_slice env DNil = []"
| "stringify_slice env (DStr s) = [s]"
| "stringify_slice env (DStrs xs) = xs"
| "stringify_slice env (DUuids xs) = map (rv_uuid_show env) xs"
| "stringify_slice env (DList xs) = List.map_filter (scalar_string env) xs"
| "stringify_slice env v = (case scalar_string env v of Some s \<Rightarrow> [s] | None \<Rightarrow> [])"

definition values_equal :: "'d rv_env \<Rightarrow> 'd dyn \<Rightarrow> 'd dyn \<Rightarrow> bool" where
  "values_equal env l r =
     (case (rv_numeric env l, rv_numeric env r) of
        (Some a, Some b) \<Rightarrow>
          fl_less (rv_fl env) (fl_abs (rv_fl env) (fl_sub (rv_fl env) a b)) (fl_const (rv_fl env) ''0.000000001'')
      | _ \<Rightarrow>
         (case (bool_value l, bool_value r) of
            (Some a, Some b) \<Rightarrow> a = b
          | _ \<Rightarrow>
             (case (scalar_string env l, scalar_string env r) of
                (Some a, Some b) \<Rightarrow> equal_fold a b
              | _ \<Rightarrow> False)))"

definition go_compare :: "string \<Rightarrow> string \<Rightarrow> int" where
  "go_compare a b = (if a < b then -1 else if a = b then 0 else 1)"

definition compare_ordered :: "'d rv_env \<Rightarrow> 'd dyn \<Rightarrow> 'd dyn \<Rightarrow> int" where
  "compare_ordered env l r =
     (case (rv_numeric env l, rv_numeric env r) of
        (Some a, Some b) \<Rightarrow>
          if fl_less (rv_fl env) b a then 1 else if fl_less (rv_fl env) a b then -1 else 0
      | _ \<Rightarrow>
         (case (scalar_string env l, scalar_string env r) of
            (Some a, Some b) \<Rightarrow> go_compare a b
          | _ \<Rightarrow> -1))"

definition value_in :: "'d rv_env \<Rightarrow> 'd dyn \<Rightarrow> 'd dyn \<Rightarrow> bool" where
  "value_in env l r \<longleftrightarrow> list_ex (values_equal env l) (as_slice env r)"

text \<open>\<^verbatim>\<open>strings.Contains\<close>.\<close>

definition contains_sub :: "string \<Rightarrow> string \<Rightarrow> bool" where
  "contains_sub s sub \<longleftrightarrow> list_ex (\<lambda>i. has_prefix (drop i s) sub) [0..<Suc (length s)]"

definition contains_value :: "'d rv_env \<Rightarrow> 'd dyn \<Rightarrow> 'd dyn \<Rightarrow> bool" where
  "contains_value env l r =
     (case (scalar_string env l, scalar_string env r) of
        (Some s, Some needle) \<Rightarrow> contains_sub s needle
      | _ \<Rightarrow>
          if as_slice env r \<noteq> [] then
            list_all (\<lambda>needle. list_ex (\<lambda>candidate. values_equal env candidate needle) (as_slice env l)) (as_slice env r)
          else list_ex (\<lambda>candidate. values_equal env candidate r) (as_slice env l))"

definition rv_intersects :: "'d rv_env \<Rightarrow> 'd dyn \<Rightarrow> 'd dyn \<Rightarrow> bool" where
  "rv_intersects env l r \<longleftrightarrow> list_ex (\<lambda>a. list_ex (values_equal env a) (as_slice env r)) (as_slice env l)"

definition rv_compare :: "'d rv_env \<Rightarrow> 'd dyn \<Rightarrow> 'd dyn \<Rightarrow> string \<Rightarrow> bool" where
  "rv_compare env l r operator =
     (let op = to_lower operator in
      if op \<in> {''equals'', ''='', ''==''} then values_equal env l r
      else if op \<in> {''not_equals'', ''!='', ''<>''} then \<not> values_equal env l r
      else if op \<in> {''greater_than'', ''>''} then 0 < compare_ordered env l r
      else if op \<in> {''greater_than_or_equal'', ''>=''} then 0 \<le> compare_ordered env l r
      else if op \<in> {''less_than'', ''<''} then compare_ordered env l r < 0
      else if op \<in> {''less_than_or_equal'', ''<=''} then compare_ordered env l r \<le> 0
      else if op = ''in'' then value_in env l r
      else if op = ''contains'' then contains_value env l r
      else if op = ''intersects'' then rv_intersects env l r
      else False)"

section \<open>Lists of names\<close>

text \<open>Trimmed, blank names dropped, the first of those that are equal up to case, sorted.\<close>

fun dedup_loop :: "string list \<Rightarrow> string list \<Rightarrow> string list" where
  "dedup_loop seen [] = []"
| "dedup_loop seen (v # vs) =
     (let value = trim_space v; key = to_lower value in
      if value = [] \<or> key \<in> set seen then dedup_loop seen vs
      else value # dedup_loop (key # seen) vs)"

definition dedup_strings :: "string list \<Rightarrow> string list" where
  "dedup_strings values = sort (dedup_loop [] values)"

definition string_set :: "string list \<Rightarrow> string list" where
  "string_set values = map to_lower (filter (\<lambda>v. v \<noteq> []) (map trim_space values))"

definition maybe_id :: "string \<Rightarrow> string list" where
  "maybe_id i = (if trim_space i = [] then [] else [i])"

definition first_non_empty :: "string list \<Rightarrow> string" where
  "first_non_empty values = (case find (\<lambda>v. trim_space v \<noteq> []) values of Some v \<Rightarrow> v | None \<Rightarrow> [])"

section \<open>The subject\<close>

definition user_group_ids :: "'d rv_env \<Rightarrow> 'd claims option \<Rightarrow> string list" where
  "user_group_ids env cs =
     (case cs of
        None \<Rightarrow> []
      | Some c \<Rightarrow>
          dedup_strings
            (concat (map (\<lambda>key. case attribute c key of None \<Rightarrow> [] | Some v \<Rightarrow> stringify_slice env v)
               [''group_ids'', ''groups'', ''group_memberships''])))"

definition claims_requirement_ids :: "'d rv_env \<Rightarrow> 'd claims option \<Rightarrow> string list" where
  "claims_requirement_ids env cs =
     (case cs of
        None \<Rightarrow> []
      | Some c \<Rightarrow> dedup_strings (allowed_markings cs @ map (rv_uuid_show env) (allowed_org_ids c)))"

definition operand_value :: "'d rv_env \<Rightarrow> 'd policy_operand \<Rightarrow> 'd claims option \<Rightarrow> 'd rv_row \<Rightarrow> 'd dyn" where
  "operand_value env op cs row =
     (let k = po_kind op in
      if k = ''column'' then (case row (po_column op) of None \<Rightarrow> DNil | Some v \<Rightarrow> v)
      else if k = ''user_attribute'' then
        (case cs of
           None \<Rightarrow> DNil
         | Some c \<Rightarrow>
             if po_key op = [] then DNil
             else (case attribute c (po_key op) of None \<Rightarrow> DNil | Some v \<Rightarrow> v))
      else if k = ''user_group_ids'' then DStrs (user_group_ids env cs)
      else if k \<in> {''user_marking_ids'', ''user_markings''} then
        (case cs of None \<Rightarrow> DNil | Some c \<Rightarrow> DStrs (allowed_markings cs))
      else if k \<in> {''user_marking_or_organization_ids'', ''user_requirement_ids''} then
        DStrs (claims_requirement_ids env cs)
      else if k = ''user_organization_id'' then
        (case cs of
           None \<Rightarrow> DNil
         | Some c \<Rightarrow> (case cl_org c of None \<Rightarrow> DNil | Some i \<Rightarrow> DStr (rv_uuid_show env i)))
      else if k = ''user_organization_ids'' then
        (case cs of None \<Rightarrow> DNil | Some c \<Rightarrow> DStrs (map (rv_uuid_show env) (allowed_org_ids c)))
      else if k = ''user_id'' then
        (case cs of None \<Rightarrow> DNil | Some c \<Rightarrow> DStr (rv_uuid_show env (cl_sub c)))
      else if k = ''constant'' then po_value op
      else if k = ''constant_array'' then DList (po_values op)
      else DNil)"

section \<open>Granular rules\<close>

definition group_operator :: "string \<Rightarrow> string" where
  "group_operator op = (if to_lower op = [] then ''and'' else to_lower op)"

text \<open>The two loops over the results of the children; a disjunction counts the matched rules.\<close>

definition eval_or :: "(bool \<times> string list) list \<Rightarrow> bool \<times> string list" where
  "eval_or results =
     (let matched = concat (map snd (filter fst results)) in (matched \<noteq> [], matched))"

fun eval_and :: "string list \<Rightarrow> (bool \<times> string list) list \<Rightarrow> bool \<times> string list" where
  "eval_and matched [] = (True, matched)"
| "eval_and matched ((ok, m) # results) =
     (if \<not> ok then (False, matched) else eval_and (matched @ m) results)"

definition eval_children :: "string \<Rightarrow> (bool \<times> string list) list \<Rightarrow> bool \<times> string list" where
  "eval_children op results =
     (if group_operator op = ''or'' then eval_or results else eval_and [] results)"

fun eval_expression :: "'d rv_env \<Rightarrow> 'd claims option \<Rightarrow> 'd rv_row \<Rightarrow> 'd policy_expression \<Rightarrow> bool \<times> string list" where
  "eval_expression env cs row (PolicyExpression i typ op l r children) =
     (if typ = ''group'' then eval_children op (map (eval_expression env cs row) children)
      else if rv_compare env (operand_value env l cs row) (operand_value env r cs row) op
      then (True, [first_non_empty [i, ''comparison'']])
      else (False, []))"

definition eval_group :: "'d rv_env \<Rightarrow> 'd claims option \<Rightarrow> 'd rv_row \<Rightarrow> 'd policy_group \<Rightarrow> bool \<times> string list" where
  "eval_group env cs row g = eval_children (pg_operator g) (map (eval_expression env cs row) (pg_children g))"

section \<open>Decoding the granular policy\<close>

text \<open>An \<^verbatim>\<open>any\<close> field: numbers become floating point, one out of range is left nil (and is an error).\<close>

fun to_any :: "'d float64 \<Rightarrow> 'd dyn \<Rightarrow> 'd dyn" where
  "to_any fl (DNumber s) = (case fl_parse fl s of Some f \<Rightarrow> DFloat f | None \<Rightarrow> DNil)"
| "to_any fl (DList xs) = DList (map (to_any fl) xs)"
| "to_any fl (DMap kvs) = DMap (map (\<lambda>(k, v). (k, to_any fl v)) kvs)"
| "to_any fl v = v"

fun any_ok :: "'d float64 \<Rightarrow> 'd dyn \<Rightarrow> bool" where
  "any_ok fl (DNumber s) \<longleftrightarrow> fl_parse fl s \<noteq> None"
| "any_ok fl (DList xs) \<longleftrightarrow> list_all (any_ok fl) xs"
| "any_ok fl (DMap kvs) \<longleftrightarrow> list_all (\<lambda>(k, v). any_ok fl v) kvs"
| "any_ok fl v \<longleftrightarrow> True"

text \<open>A member of an object; the last of several with one name counts. A missing or null member is the zero value.\<close>

definition member_of :: "string \<Rightarrow> (string \<times> 'd dyn) list \<Rightarrow> 'd dyn" where
  "member_of k kvs = (case map_of (rev kvs) k of None \<Rightarrow> DNil | Some v \<Rightarrow> v)"

fun str_of :: "'d dyn \<Rightarrow> string option" where
  "str_of DNil = Some []"
| "str_of (DStr s) = Some s"
| "str_of _ = None"

fun int_of :: "'d dyn \<Rightarrow> 64 word option" where
  "int_of DNil = Some 0"
| "int_of (DNumber s) = parse_int64 s"
| "int_of _ = None"

fun items_of :: "'d dyn \<Rightarrow> 'd dyn list option" where
  "items_of DNil = Some []"
| "items_of (DList xs) = Some xs"
| "items_of _ = None"

fun members_of :: "'d dyn \<Rightarrow> (string \<times> 'd dyn) list option" where
  "members_of DNil = Some []"
| "members_of (DMap kvs) = Some kvs"
| "members_of _ = None"

definition any_of :: "'d float64 \<Rightarrow> 'd dyn \<Rightarrow> 'd dyn option" where
  "any_of fl v = (if any_ok fl v then Some (to_any fl v) else None)"

text \<open>
  The members of an object that is decoded into a struct. A name that is not a field is taken for the first field that
  differs only in case. (The decoder merges repeated objects and lets a null leave a text alone; here the last member
  counts.)
\<close>

definition struct_field :: "string list \<Rightarrow> string \<Rightarrow> string option" where
  "struct_field names k = (if k \<in> set names then Some k else find (\<lambda>f. equal_fold f k) names)"

definition field_at :: "string list \<Rightarrow> string \<Rightarrow> (string \<times> 'd dyn) list \<Rightarrow> 'd dyn option" where
  "field_at names k kvs = map_option snd (find (\<lambda>(n, v). struct_field names n = Some k) (rev kvs))"

definition field_of :: "string list \<Rightarrow> string \<Rightarrow> (string \<times> 'd dyn) list \<Rightarrow> 'd dyn" where
  "field_of names k kvs = (case field_at names k kvs of None \<Rightarrow> DNil | Some v \<Rightarrow> v)"

definition operand_fields :: "string list" where
  "operand_fields = [''kind'', ''key'', ''column'', ''value_type'', ''value'', ''values'']"

definition expression_fields :: "string list" where
  "expression_fields = [''id'', ''type'', ''operator'', ''left'', ''right'', ''children'']"

definition group_fields :: "string list" where
  "group_fields = [''id'', ''type'', ''operator'', ''children'']"

definition granular_fields :: "string list" where
  "granular_fields = [''kind'', ''version'', ''root'']"

lemmas struct_defs = field_of_def field_at_def struct_field_def operand_fields_def expression_fields_def group_fields_def
  granular_fields_def equal_fold_def to_lower_def to_lower_char_def

definition dec_operand :: "'d float64 \<Rightarrow> 'd dyn \<Rightarrow> 'd policy_operand option" where
  "dec_operand fl doc =
     Option.bind (members_of doc) (\<lambda>kvs.
     Option.bind (str_of (field_of operand_fields ''kind'' kvs)) (\<lambda>kind.
     Option.bind (str_of (field_of operand_fields ''key'' kvs)) (\<lambda>key.
     Option.bind (str_of (field_of operand_fields ''column'' kvs)) (\<lambda>col.
     Option.bind (str_of (field_of operand_fields ''value_type'' kvs)) (\<lambda>vt.
     Option.bind (any_of fl (field_of operand_fields ''value'' kvs)) (\<lambda>v.
     Option.bind (items_of (field_of operand_fields ''values'' kvs)) (\<lambda>vs.
     Option.bind (those (map (any_of fl) vs)) (\<lambda>vs'.
       Some \<lparr>po_kind = kind, po_key = key, po_column = col, po_value_type = vt, po_value = v, po_values = vs'\<rparr>))))))))"

lemma size_member_of: "member_of k kvs \<noteq> DNil \<Longrightarrow> size (member_of k kvs) < size (DMap kvs)"
  by (auto simp: member_of_def split: option.splits dest!: map_of_SomeD
      intro!: le_imp_less_Suc size_list_estimation')

lemma size_field_of:
  assumes "field_of names k kvs \<noteq> DNil"
  shows "size (field_of names k kvs) < size (DMap kvs)"
proof -
  obtain n v where v: "find (\<lambda>(n, v). struct_field names n = Some k) (rev kvs) = Some (n, v)" "field_of names k kvs = v"
    using assms by (auto simp: field_of_def field_at_def split: option.splits)
  then have "(n, v) \<in> set kvs"
    using find_some [OF v(1)] by simp
  then show ?thesis
    by (auto simp: v(2) intro!: le_imp_less_Suc size_list_estimation')
qed

lemma size_items_of: "items_of v = Some xs \<Longrightarrow> x \<in> set xs \<Longrightarrow> size x < size v"
  by (cases v) (auto simp: less_Suc_eq_le intro: size_list_estimation')

lemma size_members_of: "members_of v = Some kvs \<Longrightarrow> kvs \<noteq> [] \<Longrightarrow> size (DMap kvs) = size v"
  by (cases v) auto

function dec_expression :: "'d float64 \<Rightarrow> 'd dyn \<Rightarrow> 'd policy_expression option" where
  "dec_expression fl doc =
     Option.bind (members_of doc) (\<lambda>kvs.
     Option.bind (str_of (field_of expression_fields ''id'' kvs)) (\<lambda>i.
     Option.bind (str_of (field_of expression_fields ''type'' kvs)) (\<lambda>typ.
     Option.bind (str_of (field_of expression_fields ''operator'' kvs)) (\<lambda>op.
     Option.bind (dec_operand fl (field_of expression_fields ''left'' kvs)) (\<lambda>l.
     Option.bind (dec_operand fl (field_of expression_fields ''right'' kvs)) (\<lambda>r.
     Option.bind (items_of (field_of expression_fields ''children'' kvs)) (\<lambda>docs.
     Option.bind (those (map (dec_expression fl) docs)) (\<lambda>children.
       Some (PolicyExpression i typ op l r children)))))))))"
  by pat_completeness auto

termination
proof (relation "measure (\<lambda>(fl, doc). size doc)")
  fix fl :: "'d float64" and doc :: "'d dyn" and kvs docs x
  assume kvs: "members_of doc = Some kvs" and docs: "items_of (field_of expression_fields ''children'' kvs) = Some docs"
    and x: "x \<in> set docs"
  have "size x < size (field_of expression_fields ''children'' kvs)"
    by (rule size_items_of [OF docs x])
  moreover have ne: "field_of expression_fields ''children'' kvs \<noteq> DNil"
    using docs x by auto
  ultimately have "size x < size (DMap kvs)"
    using size_field_of [OF ne] by linarith
  moreover have "kvs \<noteq> []"
    using ne by (auto simp: field_of_def field_at_def)
  ultimately show "((fl, x), (fl, doc)) \<in> measure (\<lambda>(fl, doc). size doc)"
    using size_members_of [OF kvs] by simp
qed simp

declare dec_expression.simps [simp del]

definition dec_group :: "'d float64 \<Rightarrow> 'd dyn \<Rightarrow> 'd policy_group option" where
  "dec_group fl doc =
     Option.bind (members_of doc) (\<lambda>kvs.
     Option.bind (str_of (field_of group_fields ''id'' kvs)) (\<lambda>i.
     Option.bind (str_of (field_of group_fields ''type'' kvs)) (\<lambda>typ.
     Option.bind (str_of (field_of group_fields ''operator'' kvs)) (\<lambda>op.
     Option.bind (items_of (field_of group_fields ''children'' kvs)) (\<lambda>docs.
     Option.bind (those (map (dec_expression fl) docs)) (\<lambda>children.
       Some \<lparr>pg_id = i, pg_type = typ, pg_operator = op, pg_children = children\<rparr>))))))"

definition dec_granular :: "'d float64 \<Rightarrow> 'd dyn \<Rightarrow> 'd granular_policy option" where
  "dec_granular fl doc =
     Option.bind (members_of doc) (\<lambda>kvs.
     Option.bind (str_of (field_of granular_fields ''kind'' kvs)) (\<lambda>kind.
     Option.bind (int_of (field_of granular_fields ''version'' kvs)) (\<lambda>version.
     Option.bind (dec_group fl (field_of granular_fields ''root'' kvs)) (\<lambda>root.
       Some \<lparr>gp_kind = kind, gp_version = version, gp_root = root\<rparr>))))"

text \<open>The first of the two documents that is a granular policy.\<close>

fun decode_granular_loop :: "'d rv_env \<Rightarrow> string list \<Rightarrow> 'd granular_policy option" where
  "decode_granular_loop env [] = None"
| "decode_granular_loop env (raw # raws) =
     (if raw = [] then decode_granular_loop env raws
      else (case Option.bind (rv_json_read env raw) (dec_granular (rv_fl env)) of
              None \<Rightarrow> decode_granular_loop env raws
            | Some gp \<Rightarrow>
                if gp_kind gp = ''granular_policy'' \<and> pg_type (gp_root gp) = ''group'' then Some gp
                else decode_granular_loop env raws))"

definition decode_granular_policy :: "'d rv_env \<Rightarrow> rv_policy \<Rightarrow> 'd granular_policy option" where
  "decode_granular_policy env p = decode_granular_loop env [rp_policy p, rp_conditions p]"

section \<open>Gates\<close>

definition uuid_set_contains :: "'d rv_env \<Rightarrow> uuid list \<Rightarrow> string \<Rightarrow> bool" where
  "uuid_set_contains env ids target \<longleftrightarrow>
     (case rv_uuid_parse env target of None \<Rightarrow> False | Some i \<Rightarrow> i \<in> set ids)"

definition orgs_intersect :: "uuid list \<Rightarrow> uuid list \<Rightarrow> bool" where
  "orgs_intersect ls rs \<longleftrightarrow> list_ex (\<lambda>l. l \<in> set rs) ls"

definition is_legacy_marking_name :: "string \<Rightarrow> bool" where
  "is_legacy_marking_name v \<longleftrightarrow> to_lower (trim_space v) \<in> {''public'', ''confidential'', ''pii''}"

definition is_valid_requirement_id :: "'d rv_env \<Rightarrow> string \<Rightarrow> bool" where
  "is_valid_requirement_id env value =
     (let v = trim_space value in
      v \<noteq> [] \<and> (rv_uuid_parse env v \<noteq> None \<or> is_legacy_marking_name v))"

definition default_marking_columns :: "string list" where
  "default_marking_columns =
     [''marking'', ''markings'', ''marking_id'', ''marking_ids'', ''required_markings'', ''data_markings'']"

definition row_markings :: "'d rv_env \<Rightarrow> rv_policy \<Rightarrow> 'd rv_row \<Rightarrow> string list \<times> string list" where
  "row_markings env p row =
     (let strict = rp_markings_cols p \<noteq> [];
          keys = (if strict then rp_markings_cols p else default_marking_columns);
          values = concat (map (\<lambda>key. case row key of None \<Rightarrow> [] | Some v \<Rightarrow> stringify_slice env v) keys);
          bad = (\<lambda>v. strict \<and> \<not> is_valid_requirement_id env v) in
      (dedup_strings (filter (\<lambda>v. \<not> bad v) values), dedup_strings (filter bad values)))"

definition first_uuid :: "'d rv_env \<Rightarrow> 'd rv_row \<Rightarrow> string list \<Rightarrow> uuid option" where
  "first_uuid env row keys =
     (case List.map_filter (rv_uuid_parse env)
             (concat (map (\<lambda>key. case row key of None \<Rightarrow> [] | Some v \<Rightarrow> stringify_slice env v) keys)) of
        [] \<Rightarrow> None
      | i # _ \<Rightarrow> Some i)"

definition satisfies_org_requirement :: "'d rv_env \<Rightarrow> 'd claims \<Rightarrow> string \<Rightarrow> bool" where
  "satisfies_org_requirement env c requirement \<longleftrightarrow>
     (case rv_uuid_parse env (trim_space requirement) of None \<Rightarrow> False | Some i \<Rightarrow> allows_org_id c (Some i))"

definition satisfies_row_requirement :: "'d rv_env \<Rightarrow> 'd claims \<Rightarrow> string \<Rightarrow> bool" where
  "satisfies_row_requirement env c requirement \<longleftrightarrow>
     allows_marking (Some c) requirement \<or> satisfies_org_requirement env c requirement"

definition scope_gate :: "'d rv_env \<Rightarrow> 'd claims \<Rightarrow> rv_policy \<Rightarrow> string list" where
  "scope_gate env c p =
     (if rp_id p \<noteq> [] \<and> \<not> has_role c admin_role \<and> restricted_view_ids c \<noteq> [] \<and>
         \<not> uuid_set_contains env (restricted_view_ids c) (rp_id p)
      then [''scoped session is not authorized for this restricted view''] else [])"

definition guest_gate :: "'d claims \<Rightarrow> rv_policy \<Rightarrow> string list" where
  "guest_gate c p =
     (if is_guest_session c \<and> \<not> rp_guest p
      then [''guest session is not allowed to read this restricted view''] else [])"

definition consumer_gate :: "'d claims \<Rightarrow> rv_policy \<Rightarrow> string list" where
  "consumer_gate c p =
     (if consumer_mode_enabled c \<and> \<not> rp_consumer p
      then [''consumer-mode scoped session is not allowed for this restricted view''] else [])"

definition org_gate :: "'d rv_env \<Rightarrow> 'd claims \<Rightarrow> rv_policy \<Rightarrow> 'd rv_row \<Rightarrow> string list" where
  "org_gate env c p row =
     (if rp_orgs p \<noteq> [] \<and> \<not> has_role c admin_role then
        (case first_uuid env row [''organization_id'', ''org_id''] of
           Some row_org \<Rightarrow>
             if row_org \<notin> set (rp_orgs p) \<or> \<not> allows_org_id c (Some row_org)
             then [''organization boundary denied this restricted view row''] else []
         | None \<Rightarrow>
             if \<not> orgs_intersect (allowed_org_ids c) (rp_orgs p)
             then [''subject organization scope does not intersect restricted view organizations''] else [])
      else [])"

text \<open>The markings of the row, or those of the policy when the row has none.\<close>

definition required_markings :: "'d rv_env \<Rightarrow> rv_policy \<Rightarrow> 'd rv_row \<Rightarrow> string list" where
  "required_markings env p row =
     (let required = fst (row_markings env p row) in if required = [] then rp_markings p else required)"

definition marking_reasons :: "'d rv_env \<Rightarrow> 'd claims \<Rightarrow> rv_policy \<Rightarrow> string \<Rightarrow> string list" where
  "marking_reasons env c p marking =
     (if rp_markings_cols p = [] \<and> string_set (rp_markings p) \<noteq> [] \<and>
         to_lower marking \<notin> set (string_set (rp_markings p)) \<and> \<not> satisfies_org_requirement env c marking
      then [''row marking '' @ go_quote marking @ '' is outside the restricted view marking allowlist'']
      else if \<not> satisfies_row_requirement env c marking
      then [''subject lacks row-level marking or organization membership '' @ go_quote marking]
      else [])"

definition marking_gate :: "'d rv_env \<Rightarrow> 'd claims \<Rightarrow> rv_policy \<Rightarrow> 'd rv_row \<Rightarrow> string list" where
  "marking_gate env c p row =
     map (\<lambda>v. ''row marking column contains invalid marking or organization ID '' @ go_quote v)
       (snd (row_markings env p row)) @
     concat (map (marking_reasons env c p) (required_markings env p row))"

definition runtime_gates :: "'d rv_env \<Rightarrow> 'd claims \<Rightarrow> rv_policy \<Rightarrow> 'd rv_row \<Rightarrow> string list" where
  "runtime_gates env c p row =
     scope_gate env c p @ guest_gate c p @ consumer_gate c p @ org_gate env c p row @ marking_gate env c p row"

section \<open>Rows\<close>

definition empty_decision :: "rv_policy \<Rightarrow> rv_decision" where
  "empty_decision p =
     \<lparr>rd_allowed = True, rd_matched = [], rd_reasons = [], rd_hidden = dedup_strings (rp_hidden p),
      rd_views = (if rp_id p = [] then [] else [rp_id p]), rd_runtime = False\<rparr>"

definition deny :: "string list \<Rightarrow> rv_decision \<Rightarrow> rv_decision" where
  "deny reasons d = d\<lparr>rd_allowed := False, rd_reasons := rd_reasons d @ reasons\<rparr>"

definition evaluate_row :: "'d rv_env \<Rightarrow> 'd claims option \<Rightarrow> rv_policy \<Rightarrow> 'd rv_row \<Rightarrow> rv_decision" where
  "evaluate_row env cs p row =
     (let d = empty_decision p in
      case cs of
        None \<Rightarrow> deny [''restricted view evaluation requires an authenticated subject''] d
      | Some c \<Rightarrow>
          (let reasons = runtime_gates env c p row in
           if reasons \<noteq> [] then deny reasons d
           else (case decode_granular_policy env p of
                   None \<Rightarrow> d
                 | Some gp \<Rightarrow>
                     if pg_children (gp_root gp) = [] then d
                     else (case eval_group env cs row (gp_root gp) of
                             (matches, matched) \<Rightarrow>
                               let d' = d\<lparr>rd_runtime := True, rd_matched := dedup_strings matched\<rparr> in
                               if matches then d'
                               else deny [''restricted view granular policy did not match this row''] d'))))"

definition redact_row :: "'d rv_row \<Rightarrow> string list \<Rightarrow> 'd rv_row" where
  "redact_row row hidden =
     (\<lambda>k. case row k of
            None \<Rightarrow> None
          | Some v \<Rightarrow> if to_lower k \<in> set (string_set hidden) then Some DNil else Some v)"

text \<open>The aggregate decision of the two filters: it stays allowed, the denied rows leave their reasons.\<close>

definition aggregate_step :: "rv_decision \<Rightarrow> rv_decision \<Rightarrow> rv_decision" where
  "aggregate_step agg d =
     agg\<lparr>rd_runtime := rd_runtime agg \<or> rd_runtime d, rd_matched := rd_matched agg @ rd_matched d,
         rd_reasons := (if rd_allowed d then rd_reasons agg else rd_reasons agg @ rd_reasons d)\<rparr>"

definition aggregate_close :: "rv_decision \<Rightarrow> rv_decision" where
  "aggregate_close agg =
     agg\<lparr>rd_matched := dedup_strings (rd_matched agg), rd_reasons := dedup_strings (rd_reasons agg)\<rparr>"

fun apply_rows_loop ::
  "'d rv_env \<Rightarrow> 'd claims option \<Rightarrow> rv_policy \<Rightarrow> 'd rv_row list \<Rightarrow> 'd rv_row list \<Rightarrow> rv_decision
    \<Rightarrow> 'd rv_row list \<times> rv_decision"
where
  "apply_rows_loop env cs p [] out agg = (out, aggregate_close agg)"
| "apply_rows_loop env cs p (row # rows) out agg =
     (let d = evaluate_row env cs p row; agg' = aggregate_step agg d in
      apply_rows_loop env cs p rows (if rd_allowed d then out @ [redact_row row (rp_hidden p)] else out) agg')"

definition apply_rows ::
  "'d rv_env \<Rightarrow> 'd claims option \<Rightarrow> rv_policy \<Rightarrow> 'd rv_row list \<Rightarrow> 'd rv_row list \<times> rv_decision" where
  "apply_rows env cs p rows = apply_rows_loop env cs p rows [] (empty_decision p)"

section \<open>Tables\<close>

text \<open>A cell is the text of a JSON value; one that is empty or no JSON reads as nil.\<close>

definition read_cell :: "'d rv_env \<Rightarrow> string \<Rightarrow> 'd dyn" where
  "read_cell env cell =
     (if cell = [] then DNil
      else (case rv_json_read env cell of None \<Rightarrow> DNil | Some doc \<Rightarrow> to_any (rv_fl env) doc))"

definition table_row :: "'d rv_env \<Rightarrow> string list \<Rightarrow> string list \<Rightarrow> 'd rv_row" where
  "table_row env columns row = map_of (rev (map (\<lambda>(col, cell). (col, read_cell env cell)) (zip columns row)))"

definition redact_cells :: "string list \<Rightarrow> string list \<Rightarrow> string list \<Rightarrow> string list" where
  "redact_cells hidden columns row =
     map (\<lambda>(i, cell). if i < length columns \<and> to_lower (columns ! i) \<in> set (string_set hidden) then ''null'' else cell)
       (zip [0..<length row] row)"

fun apply_table_loop ::
  "'d rv_env \<Rightarrow> 'd claims option \<Rightarrow> rv_policy \<Rightarrow> string list \<Rightarrow> string list list \<Rightarrow> string list list \<Rightarrow> rv_decision
    \<Rightarrow> string list list \<times> rv_decision"
where
  "apply_table_loop env cs p columns [] out agg = (out, aggregate_close agg)"
| "apply_table_loop env cs p columns (row # rows) out agg =
     (let d = evaluate_row env cs p (table_row env columns row); agg' = aggregate_step agg d in
      apply_table_loop env cs p columns rows
        (if rd_allowed d then out @ [redact_cells (rp_hidden p) columns row] else out) agg')"

definition apply_table_rows ::
  "'d rv_env \<Rightarrow> 'd claims option \<Rightarrow> rv_policy \<Rightarrow> string list \<Rightarrow> string list list \<Rightarrow> string list list \<times> rv_decision" where
  "apply_table_rows env cs p columns rows = apply_table_loop env cs p columns rows [] (empty_decision p)"

end
