(* ===== verification/Restricted_View_Sql.thy ===== *)
theory Restricted_View_Sql
  imports Restricted_View
begin

text \<open>
  The second half of \<^verbatim>\<open>libs/restrictedview/policy.go\<close>: where a policy comes from (gateway headers, the claims of
  the token), the compilation of the granular rules and the marking columns to an SQL predicate, the rewriting of a
  query, and the checks of a backing dataset's schema. A predicate that cannot be compiled is \<open>None\<close>.
\<close>

section \<open>Policies from headers and claims\<close>

definition split_csv :: "string \<Rightarrow> string list" where
  "split_csv raw = filter (\<lambda>p. p \<noteq> []) (map trim_space (split_on (CHR '','') raw))"

definition parse_header_bool :: "string \<Rightarrow> bool" where
  "parse_header_bool raw \<longleftrightarrow> equal_fold raw ''true'' \<or> raw = ''1'' \<or> equal_fold raw ''yes''"

definition policy_present :: "rv_policy \<Rightarrow> bool" where
  "policy_present p \<longleftrightarrow>
     rp_id p \<noteq> [] \<or> rp_policy p \<noteq> [] \<or> rp_hidden p \<noteq> [] \<or> rp_markings_cols p \<noteq> [] \<or> rp_orgs p \<noteq> [] \<or>
     rp_markings p \<noteq> [] \<or> rp_consumer p \<or> rp_guest p"

definition policy_from_headers :: "'d rv_env \<Rightarrow> (string \<Rightarrow> string) \<Rightarrow> rv_policy \<times> bool" where
  "policy_from_headers env get =
     (let p = \<lparr>rp_id = trim_space (get ''x-openfoundry-restricted-view-id''),
               rp_policy = trim_space (get ''x-openfoundry-restricted-view-policy''),
               rp_conditions = [], rp_row_filter = None,
               rp_hidden = split_csv (get ''x-openfoundry-restricted-view-hidden-columns''),
               rp_markings_cols = split_csv (get ''x-openfoundry-restricted-view-marking-columns''),
               rp_orgs = List.map_filter (rv_uuid_parse env)
                           (split_csv (get ''x-openfoundry-restricted-view-allowed-org-ids'')),
               rp_markings = split_csv (get ''x-openfoundry-restricted-view-allowed-markings''),
               rp_consumer = parse_header_bool (get ''x-openfoundry-restricted-view-consumer-mode-enabled''),
               rp_guest = parse_header_bool (get ''x-openfoundry-restricted-view-allow-guest-access'')\<rparr> in
      (p, policy_present p))"

definition string_attr :: "'d rv_env \<Rightarrow> 'd claims \<Rightarrow> string \<Rightarrow> string option" where
  "string_attr env c key =
     (case Option.bind (attribute c key) (scalar_string env) of
        None \<Rightarrow> None
      | Some s \<Rightarrow> if trim_space s = [] then None else Some (trim_space s))"

definition raw_json_attr :: "'d rv_env \<Rightarrow> 'd claims \<Rightarrow> string \<Rightarrow> string option" where
  "raw_json_attr env c key =
     (case attribute c key of
        None \<Rightarrow> None
      | Some (DStr x) \<Rightarrow> if trim_space x = [] then None else Some (trim_space x)
      | Some v \<Rightarrow> rv_json_write env v)"

definition string_slice_attr :: "'d rv_env \<Rightarrow> 'd claims \<Rightarrow> string \<Rightarrow> string list" where
  "string_slice_attr env c key =
     (case attribute c key of None \<Rightarrow> [] | Some v \<Rightarrow> dedup_strings (stringify_slice env v))"

definition uuid_slice_attr :: "'d rv_env \<Rightarrow> 'd claims \<Rightarrow> string \<Rightarrow> uuid list" where
  "uuid_slice_attr env c key = List.map_filter (rv_uuid_parse env) (string_slice_attr env c key)"

definition bool_attr :: "'d claims \<Rightarrow> string \<Rightarrow> bool" where
  "bool_attr c key = (case Option.bind (attribute c key) bool_value of None \<Rightarrow> False | Some b \<Rightarrow> b)"

definition zero_policy :: rv_policy where
  "zero_policy =
     \<lparr>rp_id = [], rp_policy = [], rp_conditions = [], rp_row_filter = None, rp_hidden = [], rp_markings_cols = [],
      rp_orgs = [], rp_markings = [], rp_consumer = False, rp_guest = False\<rparr>"

definition policy_from_claims :: "'d rv_env \<Rightarrow> 'd claims option \<Rightarrow> rv_policy \<times> bool" where
  "policy_from_claims env cs =
     (case cs of
        None \<Rightarrow> (zero_policy, False)
      | Some c \<Rightarrow>
          (let p = \<lparr>rp_id = (case string_attr env c ''restricted_view_id'' of None \<Rightarrow> [] | Some v \<Rightarrow> v),
                    rp_policy =
                      (case raw_json_attr env c ''restricted_view_policy'' of
                         Some raw \<Rightarrow> raw
                       | None \<Rightarrow> (case raw_json_attr env c ''restricted_view'' of Some raw \<Rightarrow> raw | None \<Rightarrow> [])),
                    rp_conditions = [], rp_row_filter = None,
                    rp_hidden = string_slice_attr env c ''restricted_view_hidden_columns'',
                    rp_markings_cols = string_slice_attr env c ''restricted_view_marking_columns'',
                    rp_orgs = uuid_slice_attr env c ''restricted_view_allowed_org_ids'',
                    rp_markings = string_slice_attr env c ''restricted_view_allowed_markings'',
                    rp_consumer = bool_attr c ''restricted_view_consumer_mode_enabled'',
                    rp_guest = bool_attr c ''restricted_view_allow_guest_access''\<rparr> in
           (p, policy_present p)))"

section \<open>SQL literals and columns\<close>

text \<open>\<^verbatim>\<open>strings.ReplaceAll(x, "'", "''")\<close>: every quote is doubled.\<close>

definition sql_escape :: "string \<Rightarrow> string" where
  "sql_escape s = concat (map (\<lambda>c. if c = CHR 0x27 then [CHR 0x27, CHR 0x27] else [c]) s)"

definition sql_number :: "'d rv_env \<Rightarrow> 'd dyn \<Rightarrow> string option" where
  "sql_number env v =
     (case rv_numeric env v of
        None \<Rightarrow> None
      | Some f \<Rightarrow>
          if fl_is_nan (rv_fl env) f \<or> fl_is_inf (rv_fl env) f then None else Some (fl_format_f (rv_fl env) f))"

fun sql_literal :: "'d rv_env \<Rightarrow> 'd dyn \<Rightarrow> string option" where
  "sql_literal env DNil = Some ''NULL''"
| "sql_literal env (DStr x) = Some (CHR 0x27 # sql_escape x @ [CHR 0x27])"
| "sql_literal env (DBool x) = Some (if x then ''TRUE'' else ''FALSE'')"
| "sql_literal env (DInt n) = sql_number env (DInt n)"
| "sql_literal env (DFloat f) = sql_number env (DFloat f)"
| "sql_literal env (DFloat32 f) = sql_number env (DFloat32 f)"
| "sql_literal env (DNumber s) = sql_number env (DNumber s)"
| "sql_literal env _ = None"

definition sql_literal_list :: "'d rv_env \<Rightarrow> 'd dyn \<Rightarrow> string option" where
  "sql_literal_list env v =
     (if as_slice env v = [] then None
      else map_option (join_with '', '') (those (map (sql_literal env) (as_slice env v))))"

definition is_letter_or_underscore :: "char \<Rightarrow> bool" where
  "is_letter_or_underscore c \<longleftrightarrow>
     (let n = (of_char c :: nat) in 65 \<le> n \<and> n \<le> 90 \<or> 97 \<le> n \<and> n \<le> 122 \<or> n = 95)"

text \<open>The regular expression \<^verbatim>\<open>^[A-Za-z_][A-Za-z0-9_]*$\<close>.\<close>

fun safe_sql_ident :: "string \<Rightarrow> bool" where
  "safe_sql_ident [] = False"
| "safe_sql_ident (c # cs) \<longleftrightarrow>
     is_letter_or_underscore c \<and> list_all (\<lambda>x. is_letter_or_underscore x \<or> is_digit x) cs"

definition dquote :: "string \<Rightarrow> string" where
  "dquote s = CHR 0x22 # s @ [CHR 0x22]"

definition sql_column :: "string \<Rightarrow> string \<Rightarrow> string \<Rightarrow> string option" where
  "sql_column kind column alias =
     (if kind \<noteq> ''column'' \<or> \<not> safe_sql_ident column then None
      else Some (if alias \<noteq> [] \<and> safe_sql_ident alias then dquote alias @ ''.'' @ dquote column else dquote column))"

section \<open>Compilation\<close>

definition reverse_operator :: "string \<Rightarrow> string" where
  "reverse_operator op =
     (if op = ''greater_than'' then ''less_than''
      else if op = ''greater_than_or_equal'' then ''less_than_or_equal''
      else if op = ''less_than'' then ''greater_than''
      else if op = ''less_than_or_equal'' then ''greater_than_or_equal''
      else if op = ''contains'' then ''contained_by''
      else op)"

definition no_row :: "'d rv_row" where "no_row = (\<lambda>_. None)"

definition sql_operator :: "'d rv_env \<Rightarrow> string \<Rightarrow> string \<Rightarrow> 'd dyn \<Rightarrow> string option" where
  "sql_operator env op col v =
     (if op = ''equals'' then map_option (\<lambda>lit. col @ '' = '' @ lit) (sql_literal env v)
      else if op = ''not_equals'' then map_option (\<lambda>lit. col @ '' <> '' @ lit) (sql_literal env v)
      else if op = ''greater_than'' then map_option (\<lambda>lit. col @ '' > '' @ lit) (sql_literal env v)
      else if op = ''greater_than_or_equal'' then map_option (\<lambda>lit. col @ '' >= '' @ lit) (sql_literal env v)
      else if op = ''less_than'' then map_option (\<lambda>lit. col @ '' < '' @ lit) (sql_literal env v)
      else if op = ''less_than_or_equal'' then map_option (\<lambda>lit. col @ '' <= '' @ lit) (sql_literal env v)
      else if op = ''in'' then map_option (\<lambda>l. col @ '' IN ('' @ l @ '')'') (sql_literal_list env v)
      else if op = ''contains'' then map_option (\<lambda>l. col @ '' @> ARRAY['' @ l @ '']'') (sql_literal_list env v)
      else if op \<in> {''contained_by'', ''is_contained_by'', ''subset''} then
        map_option (\<lambda>l. col @ '' <@ ARRAY['' @ l @ '']'') (sql_literal_list env v)
      else if op = ''intersects'' then map_option (\<lambda>l. col @ '' && ARRAY['' @ l @ '']'') (sql_literal_list env v)
      else None)"

text \<open>Exactly one side is a column; the operator turns around when it is the right one.\<close>

definition sql_comparison ::
  "'d rv_env \<Rightarrow> 'd claims option \<Rightarrow> string \<Rightarrow> 'd policy_operand \<Rightarrow> 'd policy_operand \<Rightarrow> string \<Rightarrow> string option" where
  "sql_comparison env cs alias l r operator =
     (case (sql_column (po_kind l) (po_column l) alias, sql_column (po_kind r) (po_column r) alias) of
        (Some col, None) \<Rightarrow> sql_operator env (to_lower operator) col (operand_value env r cs no_row)
      | (None, Some col) \<Rightarrow>
          sql_operator env (reverse_operator (to_lower operator)) col (operand_value env l cs no_row)
      | _ \<Rightarrow> None)"

definition sql_parens :: "string \<Rightarrow> string" where
  "sql_parens s = ''('' @ s @ '')''"

definition sql_connective :: "string \<Rightarrow> string" where
  "sql_connective op = (if to_upper op = ''OR'' then '' OR '' else '' AND '')"

definition sql_children :: "string \<Rightarrow> string option list \<Rightarrow> string option" where
  "sql_children op parts =
     (case those parts of
        None \<Rightarrow> None
      | Some ps \<Rightarrow>
          (let ps' = map sql_parens (filter (\<lambda>p. p \<noteq> []) ps) in
           if ps' = [] then None else Some (join_with (sql_connective op) ps')))"

fun sql_expression :: "'d rv_env \<Rightarrow> 'd claims option \<Rightarrow> string \<Rightarrow> 'd policy_expression \<Rightarrow> string option" where
  "sql_expression env cs alias (PolicyExpression i typ op l r children) =
     (if typ = ''group'' then sql_children op (map (sql_expression env cs alias) children)
      else sql_comparison env cs alias l r op)"

definition sql_group :: "'d rv_env \<Rightarrow> 'd claims option \<Rightarrow> string \<Rightarrow> 'd policy_group \<Rightarrow> string option" where
  "sql_group env cs alias g = sql_children (pg_operator g) (map (sql_expression env cs alias) (pg_children g))"

definition marking_column_part :: "'d rv_env \<Rightarrow> string list \<Rightarrow> string \<Rightarrow> string \<Rightarrow> string option" where
  "marking_column_part env values alias column =
     Option.bind (sql_column ''column'' column alias) (\<lambda>col.
       if values = [] then Some (col @ '' IS NULL OR cardinality('' @ col @ '') = 0'')
       else map_option (\<lambda>l. col @ '' IS NULL OR '' @ col @ '' <@ ARRAY['' @ l @ '']'')
              (sql_literal_list env (DStrs values)))"

definition sql_marking_columns_predicate ::
  "'d rv_env \<Rightarrow> 'd claims option \<Rightarrow> rv_policy \<Rightarrow> string \<Rightarrow> string option" where
  "sql_marking_columns_predicate env cs p alias =
     (if rp_markings_cols p = [] then Some []
      else if (case cs of None \<Rightarrow> False | Some c \<Rightarrow> has_role c admin_role) then Some ''TRUE''
      else map_option (\<lambda>parts. join_with '' AND '' (map sql_parens (filter (\<lambda>s. s \<noteq> []) parts)))
             (those (map (marking_column_part env (claims_requirement_ids env cs) alias) (rp_markings_cols p))))"

definition granular_part :: "'d rv_env \<Rightarrow> 'd claims option \<Rightarrow> rv_policy \<Rightarrow> string \<Rightarrow> string option" where
  "granular_part env cs p alias =
     (case decode_granular_policy env p of
        None \<Rightarrow> Some []
      | Some gp \<Rightarrow> if pg_children (gp_root gp) = [] then Some [] else sql_group env cs alias (gp_root gp))"

definition sql_predicate :: "'d rv_env \<Rightarrow> 'd claims option \<Rightarrow> rv_policy \<Rightarrow> string \<Rightarrow> string option" where
  "sql_predicate env cs p alias =
     (case granular_part env cs p alias of
        None \<Rightarrow> None
      | Some part \<Rightarrow>
          (case sql_marking_columns_predicate env cs p alias of
             None \<Rightarrow> None
           | Some markings \<Rightarrow>
               (let parts = map sql_parens (filter (\<lambda>s. s \<noteq> []) [part, markings]) in
                if parts = [] then None else Some (join_with '' AND '' parts))))"

section \<open>Rewriting a query\<close>

definition trim_suffix :: "string \<Rightarrow> string \<Rightarrow> string" where
  "trim_suffix s suffix = (if has_suffix s suffix then take (length s - length suffix) s else s)"

definition is_single_select :: "string \<Rightarrow> bool" where
  "is_single_select sql \<longleftrightarrow>
     has_prefix (to_lower sql) ''select '' \<and> CHR '';'' \<notin> set (trim_suffix sql '';'')"

definition sql_decision :: "rv_policy \<Rightarrow> string list \<Rightarrow> rv_decision" where
  "sql_decision p reasons =
     \<lparr>rd_allowed = (reasons = []), rd_matched = [], rd_reasons = reasons, rd_hidden = dedup_strings (rp_hidden p),
      rd_views = maybe_id (rp_id p), rd_runtime = True\<rparr>"

definition rewrite_sql :: "'d rv_env \<Rightarrow> string \<Rightarrow> 'd claims option \<Rightarrow> string \<times> rv_decision \<times> bool" where
  "rewrite_sql env sql cs =
     (case policy_from_claims env cs of
        (p, present) \<Rightarrow>
          if \<not> present then
            (sql, \<lparr>rd_allowed = True, rd_matched = [], rd_reasons = [], rd_hidden = [], rd_views = [],
                   rd_runtime = False\<rparr>, False)
          else
            (case sql_predicate env cs p [] of
               None \<Rightarrow>
                 (sql, sql_decision p (if rp_markings_cols p = [] then []
                    else [''restricted view marking columns require a compilable SQL predicate'']), False)
             | Some predicate \<Rightarrow>
                 (let trimmed = trim_space sql in
                  if \<not> is_single_select trimmed then
                    (sql, sql_decision p [''restricted view SQL rewriting only supports single SELECT statements''], False)
                  else
                    (''SELECT * FROM ('' @ trimmed @ '') AS openfoundry_restricted_view WHERE '' @ predicate,
                     sql_decision p [], True))))"

section \<open>Schemas\<close>

text \<open>Custom metadata keep their document; the types are upper-cased and the names trimmed when a field is read.\<close>

datatype 'd schema_field =
  SchemaField (sf_name: string) (sf_type: string) (sf_sub: "'d schema_field option") (sf_meta: "'d dyn option")
    (sf_classes: "string list")

definition typeclass_marking :: string where
  "typeclass_marking = ''marking_type.mandatory''"

fun type_classes_from_any :: "'d dyn list \<Rightarrow> string list" where
  "type_classes_from_any [] = []"
| "type_classes_from_any (v # vs) =
     (case v of
        DStr x \<Rightarrow> [x]
      | DMap kvs \<Rightarrow>
          concat (map (\<lambda>key. case member_of key kvs of DStr s \<Rightarrow> (if s \<noteq> [] then [s] else []) | _ \<Rightarrow> [])
            [''name'', ''kind''])
      | _ \<Rightarrow> []) @ type_classes_from_any vs"

definition schema_field_names :: "string list" where
  "schema_field_names = [''name'', ''type'', ''arraySubType'', ''arraySubtype'', ''customMetadata'', ''typeClasses'',
     ''type_classes'', ''typeclasses'']"

definition class_values :: "'d float64 \<Rightarrow> string \<Rightarrow> (string \<times> 'd dyn) list \<Rightarrow> 'd dyn list option" where
  "class_values fl key kvs = Option.bind (items_of (field_of schema_field_names key kvs)) (\<lambda>vs. those (map (any_of fl) vs))"

text \<open>\<^verbatim>\<open>arraySubType\<close> wins over \<^verbatim>\<open>arraySubtype\<close>; both must decode.\<close>

function dec_schema_field :: "'d float64 \<Rightarrow> 'd dyn \<Rightarrow> 'd schema_field option" where
  "dec_schema_field fl doc =
     Option.bind (members_of doc) (\<lambda>kvs.
     Option.bind (str_of (field_of schema_field_names ''name'' kvs)) (\<lambda>name.
     Option.bind (str_of (field_of schema_field_names ''type'' kvs)) (\<lambda>typ.
     Option.bind (if field_of schema_field_names ''arraySubType'' kvs = DNil then Some None
                  else map_option Some (dec_schema_field fl (field_of schema_field_names ''arraySubType'' kvs))) (\<lambda>sub1.
     Option.bind (if field_of schema_field_names ''arraySubtype'' kvs = DNil then Some None
                  else map_option Some (dec_schema_field fl (field_of schema_field_names ''arraySubtype'' kvs))) (\<lambda>sub2.
     Option.bind (class_values fl ''typeClasses'' kvs) (\<lambda>c1.
     Option.bind (class_values fl ''type_classes'' kvs) (\<lambda>c2.
     Option.bind (class_values fl ''typeclasses'' kvs) (\<lambda>c3.
       Some (SchemaField (trim_space name) (to_upper (trim_space typ)) (case sub1 of Some f \<Rightarrow> Some f | None \<Rightarrow> sub2)
         (field_at schema_field_names ''customMetadata'' kvs)
         (type_classes_from_any c1 @ type_classes_from_any c2 @ type_classes_from_any c3))))))))))"
  by pat_completeness auto
termination
proof (relation "measure (\<lambda>(fl, doc). size doc)")
  fix fl :: "'d float64" and doc :: "'d dyn" and kvs
  assume kvs: "members_of doc = Some kvs"
  have less: "size (field_of schema_field_names k kvs) < size doc" if "field_of schema_field_names k kvs \<noteq> DNil" for k
  proof -
    have "kvs \<noteq> []"
      using that by (auto simp: field_of_def field_at_def)
    then show ?thesis
      using size_field_of [OF that] size_members_of [OF kvs] by simp
  qed
  show "((fl, field_of schema_field_names ''arraySubType'' kvs), (fl, doc)) \<in> measure (\<lambda>(fl, doc). size doc)"
    if "field_of schema_field_names ''arraySubType'' kvs \<noteq> DNil"
    using less [OF that] by simp
  show "((fl, field_of schema_field_names ''arraySubtype'' kvs), (fl, doc)) \<in> measure (\<lambda>(fl, doc). size doc)"
    if "field_of schema_field_names ''arraySubtype'' kvs \<noteq> DNil"
    using less [OF that] by simp
qed simp

declare dec_schema_field.simps [simp del]

text \<open>\<open>None\<close>: there is no such member.\<close>

definition schema_fields_from_raw :: "'d float64 \<Rightarrow> 'd dyn option \<Rightarrow> (string + 'd schema_field list) option" where
  "schema_fields_from_raw fl raw =
     (case raw of
        None \<Rightarrow> None
      | Some doc \<Rightarrow>
          (case Option.bind (items_of doc) (\<lambda>docs. those (map (dec_schema_field fl) docs)) of
             None \<Rightarrow> Some (Inl ''schema fields must be an array'')
           | Some fs \<Rightarrow> Some (Inr fs)))"

definition schema_keys :: "'d float64 \<Rightarrow> (string \<times> 'd dyn) list \<Rightarrow> (string + 'd schema_field list) option" where
  "schema_keys fl kvs =
     (case schema_fields_from_raw fl (map_of (rev kvs) ''fields'') of
        Some r \<Rightarrow> Some r
      | None \<Rightarrow> schema_fields_from_raw fl (map_of (rev kvs) ''fieldSchemaList''))"

definition schema_from_json :: "'d rv_env \<Rightarrow> string \<Rightarrow> string + 'd schema_field list" where
  "schema_from_json env raw =
     (if raw = [] then Inr []
      else (case Option.bind (rv_json_read env raw) members_of of
              None \<Rightarrow> Inl ''backing_dataset_schema must be a JSON object''
            | Some root \<Rightarrow>
                (case schema_keys (rv_fl env) root of
                   Some r \<Rightarrow> r
                 | None \<Rightarrow>
                     (case map_of (rev root) ''schema'' of
                        None \<Rightarrow> Inl ''backing_dataset_schema must include fields or fieldSchemaList''
                      | Some doc \<Rightarrow>
                          (case members_of doc of
                             None \<Rightarrow> Inl ''backing_dataset_schema.schema must be an object''
                           | Some nested \<Rightarrow>
                               (case schema_keys (rv_fl env) nested of
                                  Some r \<Rightarrow> r
                                | None \<Rightarrow> Inl ''backing_dataset_schema must include fields or fieldSchemaList''))))))"

text \<open>The metadata are read as \<^verbatim>\<open>map[string]any\<close>; a class is a name or an object with a name or a kind.\<close>

definition meta_has_typeclass :: "'d rv_env \<Rightarrow> (string \<times> 'd dyn) list \<Rightarrow> string \<Rightarrow> bool" where
  "meta_has_typeclass env meta want \<longleftrightarrow>
     list_ex (\<lambda>key. case map_of (rev meta) key of
         None \<Rightarrow> False
       | Some raw \<Rightarrow>
           list_ex (\<lambda>v. equal_fold (trim_space v) want) (stringify_slice env raw) \<or>
           (case raw of
              DList entries \<Rightarrow>
                list_ex (\<lambda>e. case e of
                    DMap kvs \<Rightarrow>
                      list_ex (\<lambda>k. case member_of k kvs of DStr s \<Rightarrow> equal_fold (trim_space s) want | _ \<Rightarrow> False)
                        [''name'', ''kind'']
                  | _ \<Rightarrow> False) entries
            | _ \<Rightarrow> False))
       [''typeClasses'', ''type_classes'', ''typeclasses'']"

definition field_has_typeclass :: "'d rv_env \<Rightarrow> 'd schema_field \<Rightarrow> string \<Rightarrow> bool" where
  "field_has_typeclass env f want \<longleftrightarrow>
     list_ex (\<lambda>v. equal_fold (trim_space v) want) (sf_classes f) \<or>
     (case sf_meta f of
        None \<Rightarrow> False
      | Some doc \<Rightarrow>
          (case Option.bind (any_of (rv_fl env) doc) members_of of
             None \<Rightarrow> False
           | Some meta \<Rightarrow> meta_has_typeclass env meta want))"

definition marking_columns_from_schema :: "'d rv_env \<Rightarrow> 'd schema_field list \<Rightarrow> string list" where
  "marking_columns_from_schema env fs =
     dedup_strings (map sf_name (filter (\<lambda>f. field_has_typeclass env f typeclass_marking) fs))"

definition is_string_array :: "'d schema_field \<Rightarrow> bool" where
  "is_string_array f \<longleftrightarrow>
     to_upper (sf_type f) = ''ARRAY'' \<and>
     (case sf_sub f of None \<Rightarrow> False | Some sub \<Rightarrow> to_upper (sf_type sub) = ''STRING'')"

definition column_errors :: "'d schema_field list \<Rightarrow> string \<Rightarrow> string list" where
  "column_errors fs column =
     (case map_of (rev (map (\<lambda>f. (sf_name f, f)) fs)) column of
        None \<Rightarrow> [''marking column '' @ go_quote column @ '' does not exist in the backing dataset schema'']
      | Some f \<Rightarrow>
          if is_string_array f then [] else [''marking column '' @ go_quote column @ '' must be ARRAY<STRING>''])"

definition validate_marking_backed_schema :: "'d rv_env \<Rightarrow> 'd schema_field list \<Rightarrow> string list \<Rightarrow> string list" where
  "validate_marking_backed_schema env fs marking_columns =
     (let configured = dedup_strings marking_columns;
          columns = (if configured = [] then marking_columns_from_schema env fs else configured) in
      concat (map (column_errors fs) columns))"

end
