(* ===== verification/Restricted_View_Proofs.thy ===== *)
theory Restricted_View_Proofs
  imports Restricted_View_Sql
begin

text \<open>
  What restricted views promise: the reference semantics of a policy and its agreement with the evaluator, the
  filters on rows and tables, the SQL text that a policy compiles to, and the clearances of a scoped session.
\<close>

section \<open>Reference semantics of the rules\<close>

text \<open>A group is the conjunction or disjunction of its children, a comparison is one comparison.\<close>

fun sat :: "'d rv_env \<Rightarrow> 'd claims option \<Rightarrow> 'd rv_row \<Rightarrow> 'd policy_expression \<Rightarrow> bool" where
  "sat env cs row (PolicyExpression i typ op l r children) \<longleftrightarrow>
     (if typ = ''group'' then
        (if group_operator op = ''or'' then list_ex (sat env cs row) children else list_all (sat env cs row) children)
      else rv_compare env (operand_value env l cs row) (operand_value env r cs row) op)"

text \<open>No group without children.\<close>

fun no_empty_group :: "'d policy_expression \<Rightarrow> bool" where
  "no_empty_group (PolicyExpression i typ op l r children) \<longleftrightarrow>
     (typ = ''group'' \<longrightarrow> children \<noteq> [] \<and> list_all no_empty_group children)"

definition sat_group :: "'d rv_env \<Rightarrow> 'd claims option \<Rightarrow> 'd rv_row \<Rightarrow> 'd policy_group \<Rightarrow> bool" where
  "sat_group env cs row g \<longleftrightarrow>
     (if group_operator (pg_operator g) = ''or'' then list_ex (sat env cs row) (pg_children g)
      else list_all (sat env cs row) (pg_children g))"

lemma eval_or_iff: "fst (eval_or rs) \<longleftrightarrow> (\<exists>r \<in> set rs. fst r \<and> snd r \<noteq> [])"
  by (simp add: eval_or_def) (metis fst_conv snd_conv surj_pair)

lemma eval_or_matched: "fst (eval_or rs) \<Longrightarrow> snd (eval_or rs) \<noteq> []"
  by (simp add: eval_or_def)

lemma eval_and_iff: "fst (eval_and acc rs) \<longleftrightarrow> (\<forall>r \<in> set rs. fst r)"
proof (induction rs arbitrary: acc)
  case (Cons r rs)
  then show ?case by (cases r) simp
qed simp

lemma eval_and_matched: "fst (eval_and acc rs) \<Longrightarrow> snd (eval_and acc rs) = acc @ concat (map snd rs)"
  by (induction rs arbitrary: acc) (auto split: if_splits)

text \<open>What holds of the children's results holds of the group's.\<close>

lemma eval_children_iff:
  assumes rs: "\<forall>x \<in> set xs. (fst (f x) \<longleftrightarrow> P x) \<and> (fst (f x) \<longrightarrow> snd (f x) \<noteq> [])"
  shows "fst (eval_children op (map f xs)) \<longleftrightarrow> (if group_operator op = ''or'' then list_ex P xs else list_all P xs)"
    and "xs \<noteq> [] \<Longrightarrow> fst (eval_children op (map f xs)) \<Longrightarrow> snd (eval_children op (map f xs)) \<noteq> []"
proof -
  show "fst (eval_children op (map f xs)) \<longleftrightarrow> (if group_operator op = ''or'' then list_ex P xs else list_all P xs)"
    using rs by (auto simp: eval_children_def eval_or_iff eval_and_iff list_ex_iff list_all_iff)
  assume ne: "xs \<noteq> []" and ok: "fst (eval_children op (map f xs))"
  show "snd (eval_children op (map f xs)) \<noteq> []"
  proof (cases "group_operator op = ''or''")
    case True
    with ok show ?thesis
      using eval_or_matched [of "map f xs"] by (simp add: eval_children_def)
  next
    case False
    with ok have "fst (eval_and [] (map f xs))"
      by (simp add: eval_children_def)
    with ne rs False show ?thesis
      by (cases xs) (auto simp: eval_children_def eval_and_matched eval_and_iff)
  qed
qed

lemma eval_expression_sat:
  "no_empty_group e \<Longrightarrow>
     (fst (eval_expression env cs row e) \<longleftrightarrow> sat env cs row e) \<and>
     (fst (eval_expression env cs row e) \<longrightarrow> snd (eval_expression env cs row e) \<noteq> [])"
proof (induction e)
  case (PolicyExpression i kind opr l r children)
  show ?case
  proof (cases "kind = ''group''")
    case True
    with PolicyExpression.prems have ne: "children \<noteq> []" and all: "\<forall>e \<in> set children. no_empty_group e"
      by (auto simp: list_all_iff)
    have "\<forall>e \<in> set children.
            (fst (eval_expression env cs row e) \<longleftrightarrow> sat env cs row e) \<and>
            (fst (eval_expression env cs row e) \<longrightarrow> snd (eval_expression env cs row e) \<noteq> [])"
      using PolicyExpression.IH all by blast
    from eval_children_iff [OF this] ne True show ?thesis
      by simp
  next
    case False
    then show ?thesis by simp
  qed
qed

lemma eval_group_sat:
  assumes "list_all no_empty_group (pg_children g)"
  shows "fst (eval_group env cs row g) \<longleftrightarrow> sat_group env cs row g"
proof -
  have "\<forall>e \<in> set (pg_children g).
          (fst (eval_expression env cs row e) \<longleftrightarrow> sat env cs row e) \<and>
          (fst (eval_expression env cs row e) \<longrightarrow> snd (eval_expression env cs row e) \<noteq> [])"
  proof
    fix e assume "e \<in> set (pg_children g)"
    with assms have "no_empty_group e"
      by (simp add: list_all_iff)
    then show "(fst (eval_expression env cs row e) \<longleftrightarrow> sat env cs row e) \<and>
        (fst (eval_expression env cs row e) \<longrightarrow> snd (eval_expression env cs row e) \<noteq> [])"
      by (rule eval_expression_sat)
  qed
  from eval_children_iff(1) [OF this] show ?thesis
    by (simp add: eval_group_def sat_group_def)
qed

section \<open>Reference semantics of the gates\<close>

text \<open>A session restricted to some views, a guest and a consumer session need the view's consent.\<close>

definition session_admitted :: "'d rv_env \<Rightarrow> 'd claims \<Rightarrow> rv_policy \<Rightarrow> bool" where
  "session_admitted env c p \<longleftrightarrow>
     (rp_id p = [] \<or> has_role c admin_role \<or> restricted_view_ids c = [] \<or>
      (\<exists>i \<in> set (restricted_view_ids c). rv_uuid_parse env (rp_id p) = Some i)) \<and>
     (is_guest_session c \<longrightarrow> rp_guest p) \<and>
     (consumer_mode_enabled c \<longrightarrow> rp_consumer p)"

text \<open>The organization of the row is one of the view's and one of the subject's; without one, some must be shared.\<close>

definition org_admitted :: "'d rv_env \<Rightarrow> 'd claims \<Rightarrow> rv_policy \<Rightarrow> 'd rv_row \<Rightarrow> bool" where
  "org_admitted env c p row \<longleftrightarrow>
     rp_orgs p = [] \<or> has_role c admin_role \<or>
     (case first_uuid env row [''organization_id'', ''org_id''] of
        Some i \<Rightarrow> i \<in> set (rp_orgs p) \<and> allows_org_id c (Some i)
      | None \<Rightarrow> set (allowed_org_ids c) \<inter> set (rp_orgs p) \<noteq> {})"

text \<open>
  Every marking column holds valid ids, the subject satisfies every required marking, and without marking columns
  the view's list of markings bounds the row's.
\<close>

definition markings_admitted :: "'d rv_env \<Rightarrow> 'd claims \<Rightarrow> rv_policy \<Rightarrow> 'd rv_row \<Rightarrow> bool" where
  "markings_admitted env c p row \<longleftrightarrow>
     snd (row_markings env p row) = [] \<and>
     (\<forall>m \<in> set (required_markings env p row).
        satisfies_row_requirement env c m \<and>
        (rp_markings_cols p = [] \<and> string_set (rp_markings p) \<noteq> [] \<longrightarrow>
           to_lower m \<in> set (string_set (rp_markings p)) \<or> satisfies_org_requirement env c m))"

lemma scope_gate_iff:
  "scope_gate env c p @ guest_gate c p @ consumer_gate c p = [] \<longleftrightarrow> session_admitted env c p"
  by (auto simp: scope_gate_def guest_gate_def consumer_gate_def session_admitted_def uuid_set_contains_def
      split: option.splits)

lemma org_gate_iff: "org_gate env c p row = [] \<longleftrightarrow> org_admitted env c p row"
  by (auto simp: org_gate_def org_admitted_def orgs_intersect_def list_ex_iff split: option.splits)

lemma marking_reasons_iff:
  "marking_reasons env c p m = [] \<longleftrightarrow>
     satisfies_row_requirement env c m \<and>
     (rp_markings_cols p = [] \<and> string_set (rp_markings p) \<noteq> [] \<longrightarrow>
        to_lower m \<in> set (string_set (rp_markings p)) \<or> satisfies_org_requirement env c m)"
  by (auto simp: marking_reasons_def)

lemma marking_gate_iff: "marking_gate env c p row = [] \<longleftrightarrow> markings_admitted env c p row"
  by (auto simp: marking_gate_def markings_admitted_def marking_reasons_iff)

lemma runtime_gates_iff:
  "runtime_gates env c p row = [] \<longleftrightarrow>
     session_admitted env c p \<and> org_admitted env c p row \<and> markings_admitted env c p row"
  using scope_gate_iff [of env c p] by (auto simp: runtime_gates_def org_gate_iff marking_gate_iff)

text \<open>The rows a subject may read.\<close>

definition may_read :: "'d rv_env \<Rightarrow> 'd claims option \<Rightarrow> rv_policy \<Rightarrow> 'd rv_row \<Rightarrow> bool" where
  "may_read env cs p row \<longleftrightarrow>
     (case cs of
        None \<Rightarrow> False
      | Some c \<Rightarrow>
          session_admitted env c p \<and> org_admitted env c p row \<and> markings_admitted env c p row \<and>
          (case decode_granular_policy env p of
             None \<Rightarrow> True
           | Some gp \<Rightarrow> pg_children (gp_root gp) = [] \<or> sat_group env cs row (gp_root gp)))"

definition proper_policy :: "'d rv_env \<Rightarrow> rv_policy \<Rightarrow> bool" where
  "proper_policy env p \<longleftrightarrow>
     (case decode_granular_policy env p of
        None \<Rightarrow> True
      | Some gp \<Rightarrow> list_all no_empty_group (pg_children (gp_root gp)))"

lemma deny_simps [simp]:
  "rd_allowed (deny rs d) = False" "rd_reasons (deny rs d) = rd_reasons d @ rs"
  "rd_matched (deny rs d) = rd_matched d" "rd_hidden (deny rs d) = rd_hidden d"
  "rd_runtime (deny rs d) = rd_runtime d" "rd_views (deny rs d) = rd_views d"
  by (simp_all add: deny_def)

lemma empty_decision_simps [simp]:
  "rd_allowed (empty_decision p)" "rd_reasons (empty_decision p) = []" "rd_matched (empty_decision p) = []"
  "\<not> rd_runtime (empty_decision p)" "rd_hidden (empty_decision p) = dedup_strings (rp_hidden p)"
  by (simp_all add: empty_decision_def)

lemma evaluate_row_core:
  assumes "proper_policy env p"
  shows "rd_allowed (evaluate_row env cs p row) \<longleftrightarrow> may_read env cs p row"
proof (cases cs)
  case None
  then show ?thesis by (simp add: evaluate_row_def may_read_def)
next
  case (Some c)
  show ?thesis
  proof (cases "decode_granular_policy env p")
    case None
    with Some show ?thesis
      using runtime_gates_iff [of env c p row] by (auto simp: evaluate_row_def may_read_def)
  next
    case gp: (Some gp)
    with assms have "fst (eval_group env cs row (gp_root gp)) \<longleftrightarrow> sat_group env cs row (gp_root gp)"
      by (intro eval_group_sat) (simp add: proper_policy_def)
    with Some gp show ?thesis
      using runtime_gates_iff [of env c p row]
      by (cases "eval_group env cs row (gp_root gp)") (auto simp: evaluate_row_def may_read_def Let_def)
  qed
qed

lemma evaluate_row_reasons: "rd_allowed (evaluate_row env cs p row) \<longleftrightarrow> rd_reasons (evaluate_row env cs p row) = []"
  by (auto simp: evaluate_row_def Let_def split: option.splits prod.splits)

section \<open>The filters\<close>

lemma apply_rows_loop_fst:
  "fst (apply_rows_loop env cs p rows out agg) =
     out @ map (\<lambda>row. redact_row row (rp_hidden p)) (filter (\<lambda>row. rd_allowed (evaluate_row env cs p row)) rows)"
  by (induction rows arbitrary: out agg) (auto simp: Let_def)

lemma apply_table_loop_fst:
  "fst (apply_table_loop env cs p columns rows out agg) =
     out @ map (redact_cells (rp_hidden p) columns)
             (filter (\<lambda>row. rd_allowed (evaluate_row env cs p (table_row env columns row))) rows)"
  by (induction rows arbitrary: out agg) (auto simp: Let_def)

lemma redact_row_hidden:
  "to_lower k \<in> set (string_set hidden) \<Longrightarrow> redact_row row hidden k = None \<or> redact_row row hidden k = Some DNil"
  by (simp add: redact_row_def split: option.split)

lemma redact_row_shown: "to_lower k \<notin> set (string_set hidden) \<Longrightarrow> redact_row row hidden k = row k"
  by (simp add: redact_row_def split: option.split)

lemma redact_cells_nth:
  "i < length row \<Longrightarrow>
     redact_cells hidden columns row ! i =
       (if i < length columns \<and> to_lower (columns ! i) \<in> set (string_set hidden) then ''null'' else row ! i)"
  by (simp add: redact_cells_def)

lemma redact_cells_length [simp]: "length (redact_cells hidden columns row) = length row"
  by (simp add: redact_cells_def)

section \<open>SQL text\<close>

text \<open>
  A reader of SQL text: parentheses are counted outside literals and quoted names, a statement separator, the start
  of a comment and a closing parenthesis too many are errors.
\<close>

datatype sql_mode = Plain | InString | InName

definition scan_plain :: "nat \<Rightarrow> char \<Rightarrow> string \<Rightarrow> (sql_mode \<times> nat) option" where
  "scan_plain d c rest =
     (if c = CHR ''('' then Some (Plain, Suc d)
      else if c = CHR '')'' then (if d = 0 then None else Some (Plain, d - 1))
      else if c = CHR 0x27 then Some (InString, d)
      else if c = CHR 0x22 then Some (InName, d)
      else if c = CHR '';'' \<or> c = CHR ''/'' then None
      else if c = CHR ''-'' \<and> (rest = [] \<or> \<not> is_digit (hd rest)) then None
      else Some (Plain, d))"

fun sql_scan :: "sql_mode \<Rightarrow> nat \<Rightarrow> string \<Rightarrow> (sql_mode \<times> nat) option" where
  "sql_scan m d [] = Some (m, d)"
| "sql_scan Plain d (c # cs) = (case scan_plain d c cs of None \<Rightarrow> None | Some (m, d') \<Rightarrow> sql_scan m d' cs)"
| "sql_scan InString d (c # cs) = sql_scan (if c = CHR 0x27 then Plain else InString) d cs"
| "sql_scan InName d (c # cs) = sql_scan (if c = CHR 0x22 then Plain else InName) d cs"

lemma scan_plain_append: "scan_plain d c rest = Some r \<Longrightarrow> scan_plain d c (rest @ t) = Some r"
  by (cases rest) (auto simp: scan_plain_def split: if_splits)

text \<open>Text that leaves the reader where it was, at any depth of parentheses.\<close>

definition sql_closed :: "string \<Rightarrow> bool" where
  "sql_closed s \<longleftrightarrow> (\<forall>d. sql_scan Plain d s = Some (Plain, d))"

lemma sql_scan_append: "sql_scan m d s = Some (m', d') \<Longrightarrow> sql_scan m d (s @ t) = sql_scan m' d' t"
proof (induction m d s rule: sql_scan.induct)
  case (2 d c cs)
  then obtain m1 d1 where step: "scan_plain d c cs = Some (m1, d1)" and rest: "sql_scan m1 d1 cs = Some (m', d')"
    by (auto split: option.splits)
  from 2(1) [OF step refl rest] scan_plain_append [OF step] show ?case
    by simp
qed auto

lemma sql_closed_append: "sql_closed s \<Longrightarrow> sql_closed t \<Longrightarrow> sql_closed (s @ t)"
  unfolding sql_closed_def using sql_scan_append by metis

lemma sql_closed_parens:
  assumes "sql_closed s"
  shows "sql_closed (CHR ''('' # s @ '')'')"
  using assms sql_scan_append [of Plain "Suc d" s Plain "Suc d" "'')''" for d]
  by (simp add: sql_closed_def scan_plain_def)

lemma sql_closed_Nil: "sql_closed []"
  by (simp add: sql_closed_def)

lemma sql_closed_join: "sql_closed sep \<Longrightarrow> \<forall>x \<in> set xs. sql_closed x \<Longrightarrow> sql_closed (join_with sep xs)"
  by (induction sep xs rule: join_with.induct) (auto simp: sql_closed_Nil intro!: sql_closed_append)

lemma sql_scan_escape: "sql_scan InString d (sql_escape s @ [CHR 0x27]) = Some (Plain, d)"
  by (induction s) (simp_all add: sql_escape_def scan_plain_def)

lemma sql_scan_name: "CHR 0x22 \<notin> set s \<Longrightarrow> sql_scan InName d (s @ [CHR 0x22]) = Some (Plain, d)"
  by (induction s) auto

lemma safe_sql_ident_quote: "safe_sql_ident s \<Longrightarrow> CHR 0x22 \<notin> set s"
  by (cases s) (auto simp: list_all_iff is_letter_or_underscore_def is_digit_def)

lemma sql_closed_dquote: "safe_sql_ident s \<Longrightarrow> sql_closed (dquote s)"
  using sql_scan_name safe_sql_ident_quote by (simp add: sql_closed_def dquote_def scan_plain_def)

text \<open>How \<^verbatim>\<open>FormatFloat(f, 'f', -1, 64)\<close> writes a finite number: an optional sign, then digits and a point.\<close>

definition number_text :: "string \<Rightarrow> bool" where
  "number_text s \<longleftrightarrow>
     (let digits = (case s of [] \<Rightarrow> [] | c # cs \<Rightarrow> if c = CHR ''-'' then cs else s) in
      digits \<noteq> [] \<and> is_digit (hd digits) \<and> list_all (\<lambda>c. is_digit c \<or> c = CHR ''.'') digits)"

lemma sql_closed_digits: "list_all (\<lambda>c. is_digit c \<or> c = CHR ''.'') s \<Longrightarrow> sql_closed s"
proof (induction s)
  case Nil
  show ?case by (rule sql_closed_Nil)
next
  case (Cons c s)
  then have "c \<notin> {CHR ''('', CHR '')'', CHR 0x27, CHR 0x22, CHR '';'', CHR ''/'', CHR ''-''}"
    by (auto simp: is_digit_def)
  with Cons show ?case
    by (simp add: sql_closed_def scan_plain_def)
qed

lemma sql_closed_number: "number_text s \<Longrightarrow> sql_closed s"
proof (cases s)
  case (Cons c cs)
  assume s: "number_text s"
  show ?thesis
  proof (cases "c = CHR ''-''")
    case True
    with s Cons have "cs \<noteq> []" "is_digit (hd cs)" "list_all (\<lambda>c. is_digit c \<or> c = CHR ''.'') cs"
      by (simp_all add: number_text_def)
    moreover from this have "sql_closed cs"
      by (intro sql_closed_digits)
    ultimately show ?thesis
      using True Cons by (cases cs) (simp_all add: sql_closed_def scan_plain_def)
  next
    case False
    with s Cons show ?thesis
      by (intro sql_closed_digits) (simp add: number_text_def)
  qed
qed (simp add: number_text_def)

lemma sql_closed_string: "sql_closed (CHR 0x27 # sql_escape s @ [CHR 0x27])"
  using sql_scan_escape by (simp add: sql_closed_def scan_plain_def)

definition plain_text :: "string \<Rightarrow> bool" where
  "plain_text s \<longleftrightarrow>
     list_all (\<lambda>c. c \<notin> {CHR ''('', CHR '')'', CHR 0x27, CHR 0x22, CHR '';'', CHR ''/'', CHR ''-''}) s"

lemma sql_closed_constant: "plain_text s \<Longrightarrow> sql_closed s"
  by (induction s) (simp_all add: plain_text_def sql_closed_def scan_plain_def)

lemma sql_closed_constants:
  "sql_closed '' = ''" "sql_closed '' <> ''" "sql_closed '' > ''" "sql_closed '' >= ''" "sql_closed '' < ''"
  "sql_closed '' <= ''" "sql_closed '' IN ''" "sql_closed '' @> ARRAY[''" "sql_closed '' <@ ARRAY[''"
  "sql_closed '' && ARRAY[''" "sql_closed '']''" "sql_closed ''.''" "sql_closed '' AND ''" "sql_closed '' OR ''"
  "sql_closed '', ''" "sql_closed ''TRUE''" "sql_closed ''FALSE''" "sql_closed ''NULL''" "sql_closed '' = 0''"
  "sql_closed '' IS NULL OR cardinality''" "sql_closed '' IS NULL OR ''"
  by (intro sql_closed_constant; simp add: plain_text_def)+

definition formats_numbers :: "'d rv_env \<Rightarrow> bool" where
  "formats_numbers env \<longleftrightarrow>
     (\<forall>f. \<not> fl_is_nan (rv_fl env) f \<longrightarrow> \<not> fl_is_inf (rv_fl env) f \<longrightarrow> number_text (fl_format_f (rv_fl env) f))"

lemma sql_closed_sql_number: "formats_numbers env \<Longrightarrow> sql_number env v = Some lit \<Longrightarrow> sql_closed lit"
  by (auto simp: sql_number_def formats_numbers_def intro: sql_closed_number split: option.splits if_splits)

lemma sql_closed_literal: "formats_numbers env \<Longrightarrow> sql_literal env v = Some lit \<Longrightarrow> sql_closed lit"
  by (cases v) (auto intro: sql_closed_sql_number sql_closed_string sql_closed_constants split: if_splits)

lemma those_Some_set: "those xs = Some ys \<Longrightarrow> y \<in> set ys \<Longrightarrow> Some y \<in> set xs"
  by (induction xs arbitrary: ys) (auto split: option.splits)

lemma sql_closed_literal_list:
  assumes "formats_numbers env" "sql_literal_list env v = Some l"
  shows "sql_closed l"
proof -
  obtain parts where parts: "those (map (sql_literal env) (as_slice env v)) = Some parts"
    and l: "l = join_with '', '' parts"
    using assms by (auto simp: sql_literal_list_def split: if_splits)
  have "\<forall>x \<in> set parts. sql_closed x"
    using those_Some_set [OF parts] sql_closed_literal [OF assms(1)] by force
  then show ?thesis
    unfolding l by (intro sql_closed_join sql_closed_constants)
qed

lemma sql_closed_column: "sql_column kind column alias = Some col \<Longrightarrow> sql_closed col"
  by (auto simp: sql_column_def split: if_splits
      intro!: sql_closed_dquote sql_closed_append [OF _ sql_closed_append [OF sql_closed_constants(12)], simplified])

lemma sql_closed_list_in_parens: "sql_closed l \<Longrightarrow> sql_closed ('' IN ('' @ l @ '')'')"
  using sql_closed_append [OF sql_closed_constants(7) sql_closed_parens [of l]] by simp

lemma sql_closed_list_in_brackets: "sql_closed s \<Longrightarrow> sql_closed l \<Longrightarrow> sql_closed (s @ l @ '']'')"
  by (intro sql_closed_append sql_closed_constants)

lemma if_SomeE: "(if b then x else y) = Some s \<Longrightarrow> (x = Some s \<Longrightarrow> P) \<Longrightarrow> (y = Some s \<Longrightarrow> P) \<Longrightarrow> P"
  by (simp split: if_splits)

lemma map_SomeE: "map_option f x = Some s \<Longrightarrow> (\<And>l. x = Some l \<Longrightarrow> s = f l \<Longrightarrow> P) \<Longrightarrow> P"
  by auto

lemma sql_closed_operator:
  assumes env: "formats_numbers env" and col: "sql_closed col" and s: "sql_operator env opr col v = Some s"
  shows "sql_closed s"
proof -
  have lit: "sql_closed (col @ t @ lit)" if "sql_literal env v = Some lit" "sql_closed t" for t lit
    using that col sql_closed_literal [OF env that(1)] by (intro sql_closed_append)
  have lst: "sql_closed (col @ t @ l @ '']'')" if "sql_literal_list env v = Some l" "sql_closed t" for t l
    using that sql_closed_literal_list [OF env that(1)] by (intro sql_closed_append [OF col] sql_closed_list_in_brackets)
  have inn: "sql_closed (col @ '' IN ('' @ l @ '')'')" if "sql_literal_list env v = Some l" for l
    using sql_closed_append [OF col sql_closed_list_in_parens [OF sql_closed_literal_list [OF env that]]] by simp
  show ?thesis
    using s unfolding sql_operator_def
    by (elim if_SomeE map_SomeE; hypsubst?)
      (((rule inn, assumption) | (rule lst, assumption, rule sql_closed_constants)
        | (rule lit, assumption, rule sql_closed_constants) | simp)+)
qed

lemma sql_closed_comparison:
  "formats_numbers env \<Longrightarrow> sql_comparison env cs alias l r opr = Some s \<Longrightarrow> sql_closed s"
  by (auto simp: sql_comparison_def split: option.splits intro: sql_closed_operator sql_closed_column)

lemma sql_closed_children:
  assumes "\<forall>x \<in> set parts. \<forall>s. x = Some s \<longrightarrow> sql_closed s" and s: "sql_children opr parts = Some s"
  shows "sql_closed s"
proof -
  obtain ps where ps: "those parts = Some ps"
    and s: "s = join_with (sql_connective opr) (map sql_parens (filter (\<lambda>p. p \<noteq> []) ps))"
    using s by (auto simp: sql_children_def Let_def split: option.splits if_splits)
  have "\<forall>x \<in> set ps. sql_closed x"
    using those_Some_set [OF ps] assms(1) by blast
  then have "\<forall>x \<in> set (map sql_parens (filter (\<lambda>p. p \<noteq> []) ps)). sql_closed x"
    using sql_closed_parens by (auto simp: sql_parens_def)
  moreover have "sql_closed (sql_connective opr)"
    by (auto simp: sql_connective_def intro: sql_closed_constants)
  ultimately show ?thesis
    unfolding s by (intro sql_closed_join)
qed

lemma sql_closed_expression:
  "formats_numbers env \<Longrightarrow> sql_expression env cs alias e = Some s \<Longrightarrow> sql_closed s"
proof (induction e arbitrary: s)
  case (PolicyExpression i kind opr l r children)
  show ?case
  proof (cases "kind = ''group''")
    case True
    have "\<forall>x \<in> set (map (sql_expression env cs alias) children). \<forall>s. x = Some s \<longrightarrow> sql_closed s"
      using PolicyExpression.IH PolicyExpression.prems(1) by auto
    from sql_closed_children [OF this] True PolicyExpression.prems(2) show ?thesis
      by simp
  next
    case False
    with PolicyExpression.prems show ?thesis
      by (auto intro: sql_closed_comparison)
  qed
qed

lemma sql_closed_group: "formats_numbers env \<Longrightarrow> sql_group env cs alias g = Some s \<Longrightarrow> sql_closed s"
  unfolding sql_group_def by (erule sql_closed_children [rotated]) (auto intro: sql_closed_expression)

lemma sql_closed_granular: "formats_numbers env \<Longrightarrow> granular_part env cs p alias = Some s \<Longrightarrow> sql_closed s"
  by (auto simp: granular_part_def sql_closed_Nil intro: sql_closed_group split: option.splits if_splits)

lemma sql_closed_marking_column:
  assumes env: "formats_numbers env" and s: "marking_column_part env values alias column = Some s"
  shows "sql_closed s"
proof -
  obtain col where col: "sql_column ''column'' column alias = Some col"
    using s by (auto simp: marking_column_part_def split: bind_splits)
  note closed = sql_closed_column [OF col]
  show ?thesis
  proof (cases "values = []")
    case True
    have "sql_closed (col @ '' IS NULL OR cardinality'' @ (CHR ''('' # col @ '')'') @ '' = 0'')"
      by (intro sql_closed_append closed sql_closed_parens sql_closed_constants)
    with s col True show ?thesis
      by (simp add: marking_column_part_def)
  next
    case False
    with s col obtain l where l: "sql_literal_list env (DStrs values) = Some l"
      and eq: "s = col @ '' IS NULL OR '' @ col @ '' <@ ARRAY['' @ l @ '']''"
      by (auto simp: marking_column_part_def)
    show ?thesis
      unfolding eq using sql_closed_literal_list [OF env l]
      by (intro sql_closed_append closed sql_closed_list_in_brackets sql_closed_constants)
  qed
qed

lemma sql_closed_conjunction: "\<forall>x \<in> set parts. sql_closed x \<Longrightarrow>
    sql_closed (join_with '' AND '' (map sql_parens (filter (\<lambda>s. s \<noteq> []) parts)))"
  by (intro sql_closed_join sql_closed_constants) (use sql_closed_parens in \<open>auto simp: sql_parens_def\<close>)

lemma sql_closed_markings:
  assumes env: "formats_numbers env" and s: "sql_marking_columns_predicate env cs p alias = Some s"
  shows "sql_closed s"
proof -
  have "sql_closed (join_with '' AND '' (map sql_parens (filter (\<lambda>s. s \<noteq> []) parts)))"
    if "those (map (marking_column_part env ids alias) columns) = Some parts" for ids columns parts
    using those_Some_set [OF that] sql_closed_marking_column [OF env] by (intro sql_closed_conjunction) force
  then show ?thesis
    using s by (auto simp: sql_marking_columns_predicate_def sql_closed_Nil
        intro: sql_closed_constants split: if_splits option.splits)
qed

lemma sql_predicate_closed_core:
  assumes env: "formats_numbers env" and s: "sql_predicate env cs p alias = Some s"
  shows "sql_closed s \<and> s \<noteq> []"
proof -
  obtain part markings where pm: "granular_part env cs p alias = Some part"
      "sql_marking_columns_predicate env cs p alias = Some markings"
    and ne: "filter (\<lambda>s. s \<noteq> []) [part, markings] \<noteq> []"
    and s: "s = join_with '' AND '' (map sql_parens (filter (\<lambda>s. s \<noteq> []) [part, markings]))"
    using s by (auto simp: sql_predicate_def Let_def split: option.splits if_splits)
  have "sql_closed s"
    unfolding s using sql_closed_granular [OF env pm(1)] sql_closed_markings [OF env pm(2)]
    by (intro sql_closed_conjunction) simp
  moreover have "s \<noteq> []"
    using ne by (auto simp: s sql_parens_def split: if_splits)
  ultimately show ?thesis by blast
qed

end
