(* ===== verification/Restricted_View_Properties.thy ===== *)
theory Restricted_View_Properties
  imports Restricted_View_Proofs
begin

text \<open>
  The properties of restricted views and of scoped sessions, with an example policy and subject that meet their
  hypotheses.
\<close>

section \<open>An example\<close>

text \<open>Rows of the subject's region, or of a low level.\<close>

definition rv_sample_policy_doc :: "int dyn" where
  "rv_sample_policy_doc =
     DMap [(''kind'', DStr ''granular_policy''), (''version'', DNumber ''1''),
       (''root'', DMap [(''type'', DStr ''group''), (''operator'', DStr ''OR''), (''children'', DList
         [DMap [(''id'', DStr ''region''), (''type'', DStr ''comparison''), (''operator'', DStr ''equals''),
            (''left'', DMap [(''kind'', DStr ''column''), (''column'', DStr ''region'')]),
            (''right'', DMap [(''kind'', DStr ''user_attribute''), (''key'', DStr ''region'')])],
          DMap [(''id'', DStr ''level''), (''type'', DStr ''comparison''), (''operator'', DStr ''less_than''),
            (''left'', DMap [(''kind'', DStr ''column''), (''column'', DStr ''level'')]),
            (''right'', DMap [(''kind'', DStr ''constant''), (''value'', DNumber ''3'')])]])])]"

definition rv_sample_env :: "int rv_env" where
  "rv_sample_env =
     \<lparr>rv_fl = int_float, rv_uuid_parse = (\<lambda>s. if s = ''org-7'' then Some 7 else None), rv_uuid_show = (\<lambda>_. ''org-7''),
      rv_json_read = (\<lambda>s. if s = ''rules'' then Some rv_sample_policy_doc else None), rv_json_write = (\<lambda>_. None)\<rparr>"

definition rv_sample_policy :: rv_policy where
  "rv_sample_policy = zero_policy\<lparr>rp_policy := ''rules'', rp_hidden := ['' Salary ''], rp_orgs := [7]\<rparr>"

definition rv_sample_scope :: session_scope where
  "rv_sample_scope =
     \<lparr>ss_methods = [], ss_paths = [], ss_subjects = [], ss_orgs = [], ss_workspace = None, ss_clearance = None,
      ss_markings = [''public''], ss_views = [], ss_consumer = False, ss_guest_email = None, ss_guest_name = None\<rparr>"

definition rv_sample_claims :: "int claims" where
  "rv_sample_claims =
     \<lparr>cl_sub = 1, cl_iat = 0, cl_exp = 10, cl_iss = None, cl_aud = None, cl_jti = 2, cl_email = [], cl_name = [],
      cl_roles = [''viewer''], cl_permissions = [], cl_org = Some 7,
      cl_attributes = [''region'' \<mapsto> DStr ''EU''], cl_auth_methods = [], cl_token_use = None, cl_api_key = None,
      cl_session_kind = None, cl_scope = Some rv_sample_scope\<rparr>"

definition rv_sample_region :: "int policy_expression" where
  "rv_sample_region =
     PolicyExpression ''region'' ''comparison'' ''equals''
       \<lparr>po_kind = ''column'', po_key = [], po_column = ''region'', po_value_type = [], po_value = DNil, po_values = []\<rparr>
       \<lparr>po_kind = ''user_attribute'', po_key = ''region'', po_column = [], po_value_type = [], po_value = DNil,
        po_values = []\<rparr> []"

definition rv_sample_level :: "int policy_expression" where
  "rv_sample_level =
     PolicyExpression ''level'' ''comparison'' ''less_than''
       \<lparr>po_kind = ''column'', po_key = [], po_column = ''level'', po_value_type = [], po_value = DNil, po_values = []\<rparr>
       \<lparr>po_kind = ''constant'', po_key = [], po_column = [], po_value_type = [], po_value = DFloat 3, po_values = []\<rparr> []"

lemma parse_int64_digit:
  "parse_int64 ''1'' = Some 1" "parse_int64 ''3'' = Some 3"
  by (simp_all add: parse_int64_def parse_uint_def is_digit_def digits_val_def digit_val_def)

lemma rv_sample_decoded:
  "decode_granular_policy rv_sample_env rv_sample_policy =
     Some \<lparr>gp_kind = ''granular_policy'', gp_version = 1,
       gp_root = \<lparr>pg_id = [], pg_type = ''group'', pg_operator = ''OR'', pg_children = [rv_sample_region, rv_sample_level]\<rparr>\<rparr>"
  by (simp add: decode_granular_policy_def rv_sample_env_def rv_sample_policy_def zero_policy_def rv_sample_policy_doc_def
      dec_granular_def dec_group_def dec_expression.simps dec_operand_def struct_defs any_of_def int_float_def
      parse_int64_digit rv_sample_region_def rv_sample_level_def)

lemma rv_sample_proper: "proper_policy rv_sample_env rv_sample_policy"
  by (simp add: proper_policy_def rv_sample_decoded rv_sample_region_def rv_sample_level_def)

definition rv_sample_row :: "int rv_row" where
  "rv_sample_row = [''region'' \<mapsto> DStr ''eu'', ''level'' \<mapsto> DFloat 8, ''salary'' \<mapsto> DFloat 100]"

lemma rv_sample_session: "session_admitted rv_sample_env rv_sample_claims rv_sample_policy"
  by (simp add: session_admitted_def rv_sample_policy_def zero_policy_def rv_sample_claims_def rv_sample_scope_def
      is_guest_session_def consumer_mode_enabled_def)

lemma rv_sample_org: "org_admitted rv_sample_env rv_sample_claims rv_sample_policy rv_sample_row"
  by (simp add: org_admitted_def rv_sample_policy_def zero_policy_def rv_sample_claims_def rv_sample_scope_def
      has_role_def admin_role_def first_uuid_def rv_sample_row_def map_filter_simps allowed_org_ids_def scope_list_def)

lemma rv_sample_markings: "markings_admitted rv_sample_env rv_sample_claims rv_sample_policy rv_sample_row"
  by (simp add: markings_admitted_def row_markings_def default_marking_columns_def required_markings_def
      dedup_strings_def rv_sample_policy_def zero_policy_def rv_sample_row_def)

lemma rv_sample_equal: "values_equal rv_sample_env (DStr ''eu'') (DStr ''EU'')"
proof -
  have "to_lower ''EU'' = ''eu''" "to_lower ''eu'' = ''eu''"
    by code_simp+
  then show ?thesis
    by (simp add: values_equal_def rv_sample_env_def int_float_def parse_int64_def parse_uint_def is_digit_def
        parse_go_bool_def equal_fold_def)
qed

lemma rv_sample_region_sat: "sat rv_sample_env (Some rv_sample_claims) rv_sample_row rv_sample_region"
proof -
  have "to_lower ''equals'' = ''equals''"
    by code_simp
  then show ?thesis
    by (simp add: rv_sample_region_def rv_compare_def operand_value_def rv_sample_row_def rv_sample_claims_def
        attribute_def rv_sample_equal)
qed

lemma rv_sample_sat: "sat_group rv_sample_env (Some rv_sample_claims) rv_sample_row
    \<lparr>pg_id = [], pg_type = ''group'', pg_operator = ''OR'', pg_children = [rv_sample_region, rv_sample_level]\<rparr>"
proof -
  have "to_lower ''OR'' = ''or''"
    by code_simp
  then show ?thesis
    by (simp add: sat_group_def group_operator_def rv_sample_region_sat)
qed

lemma rv_sample_may_read: "may_read rv_sample_env (Some rv_sample_claims) rv_sample_policy rv_sample_row"
  by (simp add: may_read_def rv_sample_decoded rv_sample_session rv_sample_org rv_sample_markings rv_sample_sat)

section \<open>Reading rows\<close>

text \<open>
  C19. The evaluator decides exactly what the policy means: a row is allowed if and only if there is a subject whose
  session is admitted, whose organization is admitted for the row, who satisfies the row's markings, and the row
  satisfies the rules read as a Boolean formula (a group is the conjunction or disjunction of its children). This
  holds for policies without empty nested groups. The decision gives reasons exactly when it denies.
\<close>

theorem evaluate_row_iff_may_read:
  assumes "proper_policy env p"
  shows "(rd_allowed (evaluate_row env cs p row) \<longleftrightarrow> may_read env cs p row) \<and>
    (rd_reasons (evaluate_row env cs p row) = [] \<longleftrightarrow> may_read env cs p row)"
  using evaluate_row_core [OF assms] evaluate_row_reasons [of env cs p row] by blast

theorem evaluate_row_iff_may_read_witness:
  "rd_allowed (evaluate_row rv_sample_env (Some rv_sample_claims) rv_sample_policy rv_sample_row)"
  using evaluate_row_iff_may_read [OF rv_sample_proper] rv_sample_may_read by blast

text \<open>What a reader should get of a row: hidden columns, up to case and surrounding blanks, are nil.\<close>

definition hide_columns :: "string list \<Rightarrow> 'd rv_row \<Rightarrow> 'd rv_row" where
  "hide_columns hidden row =
     (\<lambda>k. if \<exists>h \<in> set hidden. trim_space h \<noteq> [] \<and> equal_fold (trim_space h) k
          then map_option (\<lambda>_. DNil) (row k) else row k)"

definition hide_cells :: "string list \<Rightarrow> string list \<Rightarrow> string list \<Rightarrow> string list" where
  "hide_cells hidden columns row =
     map (\<lambda>i. if i < length columns \<and>
                   (\<exists>h \<in> set hidden. trim_space h \<noteq> [] \<and> equal_fold (trim_space h) (columns ! i))
              then ''null'' else row ! i) [0..<length row]"

lemma string_set_iff:
  "to_lower k \<in> set (string_set hidden) \<longleftrightarrow>
     (\<exists>h \<in> set hidden. trim_space h \<noteq> [] \<and> equal_fold (trim_space h) k)"
  by (simp add: string_set_def equal_fold_def image_iff Bex_def) metis

lemma redact_row_hide: "redact_row row hidden = hide_columns hidden row"
  unfolding redact_row_def hide_columns_def string_set_iff [symmetric] by (auto split: option.split)

lemma redact_cells_hide: "redact_cells hidden columns row = hide_cells hidden columns row"
  unfolding hide_cells_def string_set_iff [symmetric] by (rule nth_equalityI) (simp_all add: redact_cells_nth)

text \<open>
  C20. The row filter returns exactly the readable rows, in order and with the hidden columns nil; the table filter
  does the same for rows of JSON cells, in which a hidden cell becomes the text null.
\<close>

theorem filters_return_readable_rows:
  assumes "proper_policy env p"
  shows "fst (apply_rows env cs p rows) = map (hide_columns (rp_hidden p)) (filter (may_read env cs p) rows) \<and>
    fst (apply_table_rows env cs p columns cells) =
      map (hide_cells (rp_hidden p) columns) (filter (\<lambda>row. may_read env cs p (table_row env columns row)) cells)"
  using evaluate_row_core [OF assms]
  by (simp add: apply_rows_def apply_rows_loop_fst apply_table_rows_def apply_table_loop_fst redact_row_hide
      redact_cells_hide)

theorem filters_return_readable_rows_witness:
  "fst (apply_rows rv_sample_env (Some rv_sample_claims) rv_sample_policy [rv_sample_row]) =
     [hide_columns ['' Salary ''] rv_sample_row]"
  using filters_return_readable_rows [OF rv_sample_proper, of "Some rv_sample_claims" "[rv_sample_row]" "[]" "[]"]
    rv_sample_may_read by (simp add: rv_sample_policy_def)

section \<open>SQL\<close>

text \<open>
  C21. Whatever the policy document, the attributes of the subject and the alias contain, the predicate compiled from
  them is closed SQL text: quotes and parentheses are balanced, and outside of literals and quoted names it contains
  no statement separator and no comment, so it cannot end the statement it is put into. It is never empty. Used of
  the number format: a finite number is written with digits, a point and a sign.
\<close>

theorem sql_predicate_closed:
  assumes "formats_numbers env" "sql_predicate env cs p alias = Some s"
  shows "sql_closed s \<and> s \<noteq> []"
  by (rule sql_predicate_closed_core [OF assms])

lemma number_text_digits:
  assumes "list_all is_digit s" "s \<noteq> []"
  shows "number_text s \<and> number_text (CHR ''-'' # s)"
proof -
  obtain c cs where s: "s = c # cs"
    using assms(2) by (cases s) auto
  have "list_all (\<lambda>c. is_digit c \<or> c = CHR ''.'') s"
    using assms(1) by (auto simp: list_all_iff)
  moreover have "c \<noteq> CHR ''-''" "is_digit c"
    using assms(1) by (auto simp: s is_digit_def)
  ultimately show ?thesis
    by (simp add: number_text_def s)
qed

lemma number_text_show_int64: "number_text (show_int64 w)"
  using number_text_digits show_nat_digits by (simp add: show_int64_def)

lemma rv_sample_formats: "formats_numbers rv_sample_env"
  by (simp add: formats_numbers_def rv_sample_env_def int_float_def number_text_show_int64)

text \<open>A subject whose region contains a quote and a separator.\<close>

definition rv_quote_claims :: "int claims" where
  "rv_quote_claims = rv_sample_claims\<lparr>cl_attributes := [''region'' \<mapsto> DStr (''x'' @ [CHR 0x27] @ ''; DROP'')]\<rparr>"

lemma rv_sample_fields [simp]:
  "rv_fl rv_sample_env = int_float" "rp_markings_cols rv_sample_policy = []"
  "cl_attributes rv_quote_claims = [''region'' \<mapsto> DStr (''x'' @ [CHR 0x27] @ ''; DROP'')]"
  by (simp_all add: rv_sample_env_def rv_sample_policy_def zero_policy_def rv_quote_claims_def)

lemma rv_sample_sql:
  "\<exists>s. sql_predicate rv_sample_env (Some rv_quote_claims) rv_sample_policy [] = Some s"
proof -
  have lower: "to_lower ''equals'' = ''equals''" "to_lower ''less_than'' = ''less_than''"
    by code_simp+
  have region: "\<exists>s. sql_expression rv_sample_env (Some rv_quote_claims) [] rv_sample_region = Some s \<and> s \<noteq> []"
    by (simp add: rv_sample_region_def sql_comparison_def sql_column_def is_letter_or_underscore_def is_digit_def
        sql_operator_def operand_value_def attribute_def lower)
  have level: "\<exists>s. sql_expression rv_sample_env (Some rv_quote_claims) [] rv_sample_level = Some s \<and> s \<noteq> []"
    by (simp add: rv_sample_level_def sql_comparison_def sql_column_def is_letter_or_underscore_def is_digit_def
        sql_operator_def operand_value_def sql_number_def lower) (simp add: int_float_def)
  obtain s where "granular_part rv_sample_env (Some rv_quote_claims) rv_sample_policy [] = Some s" "s \<noteq> []"
    using region level
    by (auto simp: granular_part_def rv_sample_decoded sql_group_def sql_children_def sql_parens_def)
  then show ?thesis
    by (simp add: sql_predicate_def sql_marking_columns_predicate_def)
qed

theorem sql_predicate_closed_witness:
  "\<exists>s. sql_predicate rv_sample_env (Some rv_quote_claims) rv_sample_policy [] = Some s \<and> sql_closed s"
  using rv_sample_sql sql_predicate_closed [OF rv_sample_formats] by blast

text \<open>
  How PostgreSQL reads a string literal after its opening quote (with standard conforming strings): two quotes stand
  for one, a single one ends the literal.
\<close>

fun read_sql_string :: "string \<Rightarrow> (string \<times> string) option" where
  "read_sql_string [] = None"
| "read_sql_string (c # cs) =
     (if c \<noteq> CHR 0x27 then map_option (\<lambda>(s, rest). (c # s, rest)) (read_sql_string cs)
      else (case cs of
              [] \<Rightarrow> Some ([], [])
            | c' # cs' \<Rightarrow>
                if c' = CHR 0x27 then map_option (\<lambda>(s, rest). (CHR 0x27 # s, rest)) (read_sql_string cs')
                else Some ([], cs)))"

lemma read_sql_escape:
  "rest = [] \<or> hd rest \<noteq> CHR 0x27 \<Longrightarrow> read_sql_string (sql_escape s @ CHR 0x27 # rest) = Some (s, rest)"
  by (induction s) (cases rest; simp add: sql_escape_def)+

text \<open>
  A string in a compiled predicate is read back by the database as exactly that string, whatever quotes it
  contains: the literal starts with a quote, and after it the reader returns the string and the text that follows.
\<close>

theorem sql_string_reads_back:
  assumes "rest = [] \<or> hd rest \<noteq> CHR 0x27"
  shows "\<exists>lit. sql_literal env (DStr x) = Some (CHR 0x27 # lit) \<and> read_sql_string (lit @ rest) = Some (x, rest)"
  using read_sql_escape [OF assms, of x] by simp

theorem sql_string_reads_back_witness:
  "\<exists>lit. sql_literal rv_sample_env (DStr [CHR 0x27, CHR '';'']) = Some (CHR 0x27 # lit) \<and>
     read_sql_string (lit @ '', 1'') = Some ([CHR 0x27, CHR '';''], '', 1'')"
  using sql_string_reads_back [of "'', 1''" rv_sample_env "[CHR 0x27, CHR '';'']"] by simp

text \<open>
  C22. A rule that the compiler does not know is enforced on rows but not on queries: a policy whose only rule is an
  equality written with the sign = instead of the word denies every row whose values differ, while a query under the
  same policy is run as it is, with an allowing decision. (The only caller of the rewriter goes on with the query.)
\<close>

theorem rewrite_sql_fails_open:
  assumes "policy_from_claims env cs = (p, True)" "rp_markings_cols p = []"
    and gp: "decode_granular_policy env p = Some gp"
    and rule: "pg_children (gp_root gp) = [PolicyExpression i kind ''='' l r []]" "kind \<noteq> ''group''"
  shows "fst (rewrite_sql env sql cs) = sql \<and> rd_allowed (fst (snd (rewrite_sql env sql cs))) \<and>
    (\<forall>row. \<not> values_equal env (operand_value env l cs row) (operand_value env r cs row) \<longrightarrow>
       \<not> rd_allowed (evaluate_row env cs p row))"
proof -
  have lower: "to_lower ''='' = ''=''" and reverse: "reverse_operator ''='' = ''=''"
    by code_simp+
  have "sql_comparison env cs [] l r ''='' = None"
    by (auto simp: sql_comparison_def sql_operator_def lower reverse split: option.splits)
  then have "sql_predicate env cs p [] = None"
    using rule by (simp add: sql_predicate_def granular_part_def gp sql_group_def sql_children_def)
  then have "fst (rewrite_sql env sql cs) = sql \<and> rd_allowed (fst (snd (rewrite_sql env sql cs)))"
    using assms(1,2) by (simp add: rewrite_sql_def sql_decision_def)
  moreover have "\<not> rd_allowed (evaluate_row env cs p row)"
    if ne: "\<not> values_equal env (operand_value env l cs row) (operand_value env r cs row)" for row
  proof -
    have "\<not> fst (eval_group env cs row (gp_root gp))"
      using rule ne lower by (simp add: eval_group_def eval_children_def eval_or_def rv_compare_def)
    then show ?thesis
      using rule by (cases "eval_group env cs row (gp_root gp)")
        (auto simp: evaluate_row_def gp Let_def split: option.splits)
  qed
  ultimately show ?thesis by blast
qed

text \<open>The same rule with the sign, in the token of a subject.\<close>

definition sign_policy_doc :: "int dyn" where
  "sign_policy_doc =
     DMap [(''kind'', DStr ''granular_policy''),
       (''root'', DMap [(''type'', DStr ''group''), (''children'', DList
         [DMap [(''type'', DStr ''comparison''), (''operator'', DStr ''=''),
            (''left'', DMap [(''kind'', DStr ''column''), (''column'', DStr ''region'')]),
            (''right'', DMap [(''kind'', DStr ''user_attribute''), (''key'', DStr ''region'')])]])])]"

definition sign_env :: "int rv_env" where
  "sign_env = rv_sample_env\<lparr>rv_json_read := (\<lambda>s. if s = ''rules'' then Some sign_policy_doc else None)\<rparr>"

definition sign_claims :: "int claims" where
  "sign_claims = rv_sample_claims\<lparr>cl_attributes := [''restricted_view_policy'' \<mapsto> DStr ''rules'']\<rparr>"

lemma sign_policy: "policy_from_claims sign_env (Some sign_claims) = (zero_policy\<lparr>rp_policy := ''rules''\<rparr>, True)"
  by (simp add: policy_from_claims_def sign_claims_def string_attr_def attribute_def raw_json_attr_def trim_space_def
      trim_left_def is_space_def string_slice_attr_def uuid_slice_attr_def bool_attr_def policy_present_def
      zero_policy_def map_filter_simps)

lemma sign_decoded:
  "decode_granular_policy sign_env (zero_policy\<lparr>rp_policy := ''rules''\<rparr>) =
     Some \<lparr>gp_kind = ''granular_policy'', gp_version = 0,
       gp_root = \<lparr>pg_id = [], pg_type = ''group'', pg_operator = [], pg_children =
         [PolicyExpression [] ''comparison'' ''=''
            \<lparr>po_kind = ''column'', po_key = [], po_column = ''region'', po_value_type = [], po_value = DNil, po_values = []\<rparr>
            \<lparr>po_kind = ''user_attribute'', po_key = ''region'', po_column = [], po_value_type = [], po_value = DNil,
             po_values = []\<rparr> []]\<rparr>\<rparr>"
  by (simp add: decode_granular_policy_def sign_env_def rv_sample_env_def zero_policy_def sign_policy_doc_def
      dec_granular_def dec_group_def dec_expression.simps dec_operand_def struct_defs any_of_def)

theorem rewrite_sql_fails_open_witness:
  "fst (rewrite_sql sign_env ''select * from t'' (Some sign_claims)) = ''select * from t'' \<and>
   \<not> rd_allowed (evaluate_row sign_env (Some sign_claims) (zero_policy\<lparr>rp_policy := ''rules''\<rparr>) Map.empty)"
  using rewrite_sql_fails_open [OF sign_policy _ sign_decoded, of "[]" "''comparison''" _ _ "''select * from t''"]
  by (simp add: zero_policy_def operand_value_def sign_claims_def attribute_def values_equal_def)

text \<open>A statement with its final semicolon passes the check and is put into the parentheses with it.\<close>

lemma rewrite_keeps_semicolon:
  assumes "policy_from_claims env cs = (p, True)" "sql_predicate env cs p [] = Some s"
  shows "fst (rewrite_sql env ''select 1;'' cs) =
    ''SELECT * FROM (select 1;) AS openfoundry_restricted_view WHERE '' @ s"
proof -
  have "trim_space ''select 1;'' = ''select 1;''" "is_single_select ''select 1;''"
    by code_simp+
  with assms show ?thesis
    by (simp add: rewrite_sql_def)
qed

section \<open>Missing values\<close>

text \<open>
  A value that is missing passes the rules that exclude large or particular values: a row that does not have the
  column of a less-than, less-or-equal or not-equals rule satisfies the rule, whatever it is compared with. (In SQL
  the same comparison with NULL is not true, so the two enforcement paths disagree.)
\<close>

theorem missing_column_passes:
  assumes "po_kind l = ''column''" "row (po_column l) = None" "kind \<noteq> ''group''"
    and "to_lower opr \<in> {''less_than'', ''<'', ''less_than_or_equal'', ''<='', ''not_equals'', ''!='', ''<>''}"
  shows "fst (eval_expression env cs row (PolicyExpression i kind opr l r children))"
proof -
  have "operand_value env l cs row = DNil"
    using assms(1,2) by (simp add: operand_value_def)
  moreover have "compare_ordered env DNil v = -1" "\<not> values_equal env DNil v" for v
    by (simp_all add: compare_ordered_def values_equal_def split: option.splits)
  ultimately show ?thesis
    using assms(3,4) by (auto simp: rv_compare_def)
qed

theorem missing_column_passes_witness:
  "fst (eval_expression rv_sample_env (Some rv_sample_claims) Map.empty rv_sample_level)"
proof -
  have "to_lower ''less_than'' = ''less_than''"
    by code_simp
  then show ?thesis
    unfolding rv_sample_level_def by (intro missing_column_passes) simp_all
qed

text \<open>A satisfied group without rules makes the disjunction it is in fail.\<close>

lemma empty_group_is_no_match:
  "sat env cs row (PolicyExpression i ''group'' ''or'' l r [PolicyExpression j ''group'' [] l r []]) \<and>
   \<not> fst (eval_expression env cs row (PolicyExpression i ''group'' ''or'' l r [PolicyExpression j ''group'' [] l r []]))"
proof -
  have "to_lower ''or'' = ''or''" "to_lower [] = []"
    by code_simp+
  then show ?thesis
    by (simp add: group_operator_def eval_children_def eval_or_def)
qed

section \<open>Scoped sessions\<close>

text \<open>
  An explicit list of markings in the session scope bounds the subject, an administrator included: the subject
  has a marking if and only if it is in the list (up to case), and a dataset passes the enforcement if and only if
  every one of its marking ids is the id of a listed name.
\<close>

theorem scoped_markings_bound:
  assumes "cl_scope c = Some s" "ss_markings s \<noteq> []"
  shows "(allows_marking (Some c) m \<longleftrightarrow> (\<exists>n \<in> set (ss_markings s). equal_fold n m)) \<and>
    (enforce_markings effective (clearances_from_claims c resolve) = [] \<longleftrightarrow>
       (\<forall>i \<in> set effective. \<exists>n \<in> set (ss_markings s). resolve (to_lower n) = Some i))"
proof -
  have scope: "has_active_marking_scope (Some c)" "allowed_markings (Some c) = ss_markings s"
    using assms by (simp_all add: has_active_marking_scope_def allowed_markings_def)
  have ids: "i \<in> set (List.map_filter resolve names) \<longleftrightarrow> (\<exists>n \<in> set names. resolve n = Some i)" for i names
    by (induction names) (auto simp: map_filter_simps split: option.splits)
  show ?thesis
    by (simp add: allows_marking_def scope list_ex_iff enforce_markings_def clearances_from_claims_def Let_def ids
        filter_empty_conv)
qed

theorem scoped_markings_bound_witness:
  "\<not> allows_marking (Some (rv_sample_claims\<lparr>cl_roles := [''admin'']\<rparr>)) ''pii''"
proof -
  have "to_lower ''public'' \<noteq> to_lower ''pii''"
    by code_simp
  then show ?thesis
    using scoped_markings_bound [of "rv_sample_claims\<lparr>cl_roles := [''admin'']\<rparr>" rv_sample_scope "''pii''"]
    by (simp add: rv_sample_claims_def rv_sample_scope_def equal_fold_def)
qed

text \<open>
  The row requirements of a restricted view do not respect that bound: a marking that is written as an id counts
  as satisfied for every administrator and every subject without an organization, because it is also tried as the id
  of an organization and such a subject may access every organization.
\<close>

lemma id_marking_ignores_scope:
  assumes "rv_uuid_parse env (trim_space m) = Some i" "has_role c admin_role \<or> allowed_org_ids c = []"
  shows "satisfies_row_requirement env c m"
  using assms by (auto simp: satisfies_row_requirement_def satisfies_org_requirement_def allows_org_id_def)

lemma id_marking_ignores_scope_example:
  "satisfies_row_requirement rv_sample_env (rv_sample_claims\<lparr>cl_roles := [''admin'']\<rparr>) ''org-7'' \<and>
   \<not> allows_marking (Some (rv_sample_claims\<lparr>cl_roles := [''admin'']\<rparr>)) ''org-7''"
proof -
  have "trim_space ''org-7'' = ''org-7''" "to_lower ''public'' \<noteq> to_lower ''org-7''"
    by code_simp+
  then show ?thesis
    using id_marking_ignores_scope [of rv_sample_env "''org-7''" 7 "rv_sample_claims\<lparr>cl_roles := [''admin'']\<rparr>"]
    by (simp add: rv_sample_env_def has_role_def admin_role_def allows_marking_def has_active_marking_scope_def
        allowed_markings_def rv_sample_claims_def rv_sample_scope_def equal_fold_def)
qed

end
