(* ===== verification/Build_Executor.thy ===== *)
theory Build_Executor
  imports Prelude "HOL-Library.List_Lexorder" "HOL-Library.Char_ord"
begin

text \<open>
  The build executor, \<^verbatim>\<open>pipeline-build-service/internal/domain/executor/executor.go\<close>: the execution graph and its
  checks, one node with its attempts, commits and rollbacks, and the scheduler that runs ready nodes in parallel.

  The runner, the committer, the transaction manager and the context are the code's interfaces: what they answer
  to one node is a record \<open>node_env\<close>, an argument of \<open>drive_node\<close>, and everything they are asked to do is an action
  of the trace. The scheduler is a step relation, one step for one pass through the loop: which node in flight
  answers first, what it answers and when the context is cancelled are free. The actions of a node enter the trace
  when its result is received; the interleaving of the traces of parallel nodes and the times of audit events are
  left out.
\<close>

section \<open>Data\<close>

datatype node_state = Waiting | RunPending | Running | AbortPending | Aborted | Failed | Completed

fun node_state_text :: "node_state \<Rightarrow> string" where
  "node_state_text Waiting = ''WAITING''"
| "node_state_text RunPending = ''RUN_PENDING''"
| "node_state_text Running = ''RUNNING''"
| "node_state_text AbortPending = ''ABORT_PENDING''"
| "node_state_text Aborted = ''ABORTED''"
| "node_state_text Failed = ''FAILED''"
| "node_state_text Completed = ''COMPLETED''"

definition node_terminal :: "node_state \<Rightarrow> bool" where
  "node_terminal s \<longleftrightarrow> s = Aborted \<or> s = Failed \<or> s = Completed"

datatype abort_policy = DependentOnly | AllNonDependent

text \<open>The executor reads the dataset of an output; the rest is passed to the committer.\<close>

record 'o output_tx =
  ot_dataset :: string
  ot_details :: 'o

text \<open>A value of the metadata: a string, nil, or another value with its text.\<close>

datatype meta_value = MetaString string | MetaNil | MetaOther string

type_synonym metadata = "string \<Rightarrow> meta_value option"

record 'o build_node =
  bn_id :: string
  bn_job :: uuid
  bn_deps :: "string list"
  bn_outputs :: "'o output_tx list"
  bn_max_attempts :: int
  bn_stale :: bool
  bn_metadata :: metadata

record 'o build_plan =
  bp_policy :: "abort_policy option"
  bp_parallelism :: int
  bp_max_attempts :: int
  bp_nodes :: "'o build_node list"

record node_result =
  nr_hash :: string
  nr_metadata :: metadata

record node_run =
  run_node :: string
  run_state :: node_state
  run_attempts :: nat
  run_reason :: string
  run_result :: node_result

record audit_event =
  ae_job :: uuid
  ae_node :: string
  ae_from :: string
  ae_to :: string
  ae_attempt :: nat
  ae_reason :: string
  ae_dataset :: string

datatype 'o exec_action =
    RunAttempt string nat
  | CommitOutput "'o output_tx"
  | AbortOutput "'o output_tx"
  | RecordAudit audit_event

definition no_result :: node_result where
  "no_result = \<lparr>nr_hash = [], nr_metadata = Map.empty\<rparr>"

section \<open>The execution graph\<close>

datatype graph_failure =
    EmptyNodeId
  | DuplicateNode string
  | MissingDependency string string
  | CycleDetected "string list"

fun graph_failure_text :: "graph_failure \<Rightarrow> string" where
  "graph_failure_text EmptyNodeId = ''executor node id cannot be empty''"
| "graph_failure_text (DuplicateNode i) = ''duplicate executor node: '' @ i"
| "graph_failure_text (MissingDependency i d) = ''executor node '' @ i @ '' depends on missing node '' @ d"
| "graph_failure_text (CycleDetected p) = ''cycle detected in executor DAG: '' @ join_with arrow p"

text \<open>The first loop: ids are present and fresh, dependencies are sorted.\<close>

fun collect_nodes :: "'o build_node list \<Rightarrow> 'o build_node list \<Rightarrow> graph_failure + 'o build_node list" where
  "collect_nodes acc [] = Inr acc"
| "collect_nodes acc (n # ns) =
     (if bn_id n = [] then Inl EmptyNodeId
      else if bn_id n \<in> set (map bn_id acc) then Inl (DuplicateNode (bn_id n))
      else collect_nodes (acc @ [n\<lparr>bn_deps := sort (bn_deps n)\<rparr>]) ns)"

definition node_at :: "'o build_node list \<Rightarrow> string \<Rightarrow> 'o build_node option" where
  "node_at nodes i = find (\<lambda>n. bn_id n = i) nodes"

definition deps_of :: "'o build_node list \<Rightarrow> string \<Rightarrow> string list" where
  "deps_of nodes i = (case node_at nodes i of None \<Rightarrow> [] | Some n \<Rightarrow> bn_deps n)"

definition first_missing :: "'o build_node list \<Rightarrow> graph_failure option" where
  "first_missing nodes =
     (case concat (map (\<lambda>n. map (\<lambda>d. (bn_id n, d)) (filter (\<lambda>d. d \<notin> set (map bn_id nodes)) (bn_deps n))) nodes) of
        [] \<Rightarrow> None
      | (i, d) # _ \<Rightarrow> Some (MissingDependency i d))"

text \<open>One entry for each mention of the node as a dependency.\<close>

definition dependents_of :: "'o build_node list \<Rightarrow> string \<Rightarrow> string list" where
  "dependents_of nodes d = sort (concat (map (\<lambda>n. map (\<lambda>_. bn_id n) (filter (\<lambda>x. x = d) (bn_deps n))) nodes))"

text \<open>
  The depth-first search: \<open>visited\<close> and \<open>path\<close> (the last node first) are the captured variables of the closure; a
  node on the path closes a cycle, which is returned from that node on. Only nodes of the graph are visited.
\<close>

definition unvisited :: "'o build_node list \<Rightarrow> string list \<Rightarrow> nat" where
  "unvisited nodes visited = card (set (map bn_id nodes) - set visited)"

function exec_dfs :: "'o build_node list \<Rightarrow> string list \<Rightarrow> string list \<Rightarrow> string \<Rightarrow> string list option \<times> string list"
  and exec_dfs_list ::
    "'o build_node list \<Rightarrow> string list \<Rightarrow> string list \<Rightarrow> string list \<Rightarrow> string list option \<times> string list" where
  "exec_dfs nodes visited path i =
     (if i \<in> set path then (Some (rev (i # takeWhile (\<lambda>x. x \<noteq> i) path @ [i])), visited)
      else if i \<in> set visited \<or> i \<notin> set (map bn_id nodes) then (None, visited)
      else exec_dfs_list nodes (i # visited) (i # path) (sort (deps_of nodes i)))"
| "exec_dfs_list nodes visited path [] = (None, visited)"
| "exec_dfs_list nodes visited path (d # ds) =
     (case exec_dfs nodes visited path d of
        (Some c, v) \<Rightarrow> (Some c, v)
      | (None, v) \<Rightarrow> exec_dfs_list nodes v path ds)"
  by pat_completeness auto

lemma exec_dfs_visited:
  "exec_dfs_exec_dfs_list_dom (Inl (nodes, visited, path, i)) \<Longrightarrow> set visited \<subseteq> set (snd (exec_dfs nodes visited path i))"
  "exec_dfs_exec_dfs_list_dom (Inr (nodes, visited, path, ds)) \<Longrightarrow>
     set visited \<subseteq> set (snd (exec_dfs_list nodes visited path ds))"
proof (induction nodes visited path i and nodes visited path ds rule: exec_dfs_exec_dfs_list.pinduct)
  case (1 nodes visited path i)
  show ?case
    using 1(2) by (auto simp: exec_dfs.psimps [OF 1(1)])
next
  case (2 nodes visited path)
  then show ?case by (simp add: exec_dfs_list.psimps)
next
  case (3 nodes visited path d ds)
  obtain c v where r: "exec_dfs nodes visited path d = (c, v)"
    by fastforce
  show ?case
    using 3(2) 3(3) [OF r [symmetric]] r by (auto simp: exec_dfs_list.psimps(2) [OF 3(1)] split: option.splits)
qed

termination exec_dfs
proof (relation "measures [
    \<lambda>x. case x of Inl (nodes, v, p, i) \<Rightarrow> unvisited nodes v | Inr (nodes, v, p, ds) \<Rightarrow> unvisited nodes v,
    \<lambda>x. case x of Inl _ \<Rightarrow> 0 | Inr (nodes, v, p, ds) \<Rightarrow> Suc (length ds)]", goal_cases)
  case 1
  show ?case by simp
next
  case (2 nodes visited path i)
  then have "set (map bn_id nodes) - set (i # visited) \<subset> set (map bn_id nodes) - set visited"
    by auto
  then have "unvisited nodes (i # visited) < unvisited nodes visited"
    unfolding unvisited_def by (intro psubset_card_mono) auto
  then show ?case by simp
next
  case (3 nodes visited path d ds)
  show ?case by simp
next
  case (4 nodes visited path d ds c v)
  then have "set visited \<subseteq> set v"
    using exec_dfs_visited(1) [of nodes visited path d] by (metis snd_conv)
  then have "unvisited nodes v \<le> unvisited nodes visited"
    unfolding unvisited_def by (intro card_mono) auto
  then show ?case by auto
qed

declare exec_dfs.simps [simp del]

fun exec_cycle_loop :: "'o build_node list \<Rightarrow> string list \<Rightarrow> 'o build_node list \<Rightarrow> string list option" where
  "exec_cycle_loop nodes visited [] = None"
| "exec_cycle_loop nodes visited (n # ns) =
     (case exec_dfs nodes visited [] (bn_id n) of
        (Some c, _) \<Rightarrow> Some c
      | (None, v) \<Rightarrow> exec_cycle_loop nodes v ns)"

definition exec_cycle :: "'o build_node list \<Rightarrow> string list option" where
  "exec_cycle nodes = exec_cycle_loop nodes [] nodes"

definition new_execution_graph :: "'o build_plan \<Rightarrow> graph_failure + 'o build_node list" where
  "new_execution_graph p =
     (case collect_nodes [] (bp_nodes p) of
        Inl e \<Rightarrow> Inl e
      | Inr collected \<Rightarrow>
          (let nodes = sort_key bn_id collected in
           case first_missing nodes of
             Some e \<Rightarrow> Inl e
           | None \<Rightarrow>
               (case exec_cycle nodes of Some c \<Rightarrow> Inl (CycleDetected c) | None \<Rightarrow> Inr nodes)))"

section \<open>One node\<close>

text \<open>
  What the interfaces answer to a node: the runner at each attempt, the committer and the transaction manager for
  each output by its position, and whether the context is cancelled at the head of an attempt (with the error), after
  a failed attempt, and after the last one.
\<close>

record node_env =
  ne_run :: "nat \<Rightarrow> string + node_result"
  ne_commit :: "nat \<Rightarrow> string option"
  ne_abort :: "nat \<Rightarrow> string option"
  ne_head :: "nat \<Rightarrow> string option"
  ne_after :: "nat \<Rightarrow> bool"
  ne_end :: bool

definition transition_record ::
  "'o build_node \<Rightarrow> node_state \<Rightarrow> node_state \<Rightarrow> nat \<Rightarrow> string \<Rightarrow> 'o exec_action" where
  "transition_record n from to k reason =
     RecordAudit \<lparr>ae_job = bn_job n, ae_node = bn_id n, ae_from = node_state_text from, ae_to = node_state_text to,
                  ae_attempt = k, ae_reason = reason, ae_dataset = []\<rparr>"

definition output_record :: "'o build_node \<Rightarrow> string \<Rightarrow> 'o output_tx \<Rightarrow> 'o exec_action" where
  "output_record n reason t =
     RecordAudit \<lparr>ae_job = bn_job n, ae_node = bn_id n, ae_from = [], ae_to = [], ae_attempt = 0,
                  ae_reason = reason, ae_dataset = ot_dataset t\<rparr>"

text \<open>The errors of the transaction manager are ignored here.\<close>

definition abort_outputs :: "'o build_node \<Rightarrow> string \<Rightarrow> 'o exec_action list" where
  "abort_outputs n reason =
     concat (map (\<lambda>t. [AbortOutput t, output_record n (''output aborted: '' @ reason) t]) (bn_outputs n))"

text \<open>The commits stop at the first error.\<close>

fun commit_loop ::
  "node_env \<Rightarrow> 'o build_node \<Rightarrow> nat \<Rightarrow> 'o output_tx list \<Rightarrow> string option \<times> string list \<times> 'o exec_action list" where
  "commit_loop env n pos [] = (None, [], [])"
| "commit_loop env n pos (t # ts) =
     (case ne_commit env pos of
        Some e \<Rightarrow> (Some (ot_dataset t @ '': '' @ e), [], [CommitOutput t])
      | None \<Rightarrow>
          (case commit_loop env n (Suc pos) ts of
             (r, committed, tr) \<Rightarrow>
               (r, ot_dataset t # committed, CommitOutput t # output_record n ''output committed'' t # tr)))"

definition rollback_errors :: "node_env \<Rightarrow> 'o output_tx list \<Rightarrow> string list" where
  "rollback_errors env ts =
     concat (map (\<lambda>(pos, t). case ne_abort env pos of None \<Rightarrow> [] | Some e \<Rightarrow> [ot_dataset t @ '': '' @ e])
       (zip [0..<length ts] ts))"

definition rollback :: "'o build_node \<Rightarrow> string list \<Rightarrow> 'o exec_action list" where
  "rollback n committed =
     concat (map (\<lambda>t. [AbortOutput t,
         output_record n (if ot_dataset t \<in> set committed then ''output rolled back'' else ''output aborted'') t])
       (bn_outputs n))"

definition commit_all_outputs :: "node_env \<Rightarrow> 'o build_node \<Rightarrow> string option \<times> 'o exec_action list" where
  "commit_all_outputs env n =
     (case commit_loop env n 0 (bn_outputs n) of
        (None, committed, tr) \<Rightarrow> (None, tr)
      | (Some e, committed, tr) \<Rightarrow>
          (let errors = rollback_errors env (bn_outputs n) in
           (Some (''multi-output commit failed: '' @ e @
                  (if errors = [] then [] else ''; rollback failed: '' @ join_with ''; '' errors)),
            tr @ rollback n committed)))"

definition metadata_string :: "metadata \<Rightarrow> string \<Rightarrow> string" where
  "metadata_string m key =
     (case m key of
        None \<Rightarrow> []
      | Some MetaNil \<Rightarrow> []
      | Some (MetaString v) \<Rightarrow> trim_space v
      | Some (MetaOther v) \<Rightarrow> trim_space v)"

definition stale_reason :: string where
  "stale_reason = ''ignored because fresh''"

definition drive_stale :: "'o build_node \<Rightarrow> node_run \<times> 'o exec_action list" where
  "drive_stale n =
     (let signature = metadata_string (bn_metadata n) ''staleness_signature'';
          m = [''ignored_reason'' \<mapsto> MetaString stale_reason] in
      (\<lparr>run_node = bn_id n, run_state = Completed, run_attempts = 0, run_reason = stale_reason,
        run_result = \<lparr>nr_hash = [], nr_metadata =
          (if signature = [] then m else m(''staleness_signature'' \<mapsto> MetaString signature))\<rparr>\<rparr>,
       abort_outputs n stale_reason @ [transition_record n Waiting Completed 0 stale_reason]))"

definition cancelled_reason :: string where
  "cancelled_reason = ''build cancelled''"

definition abort_run :: "'o build_node \<Rightarrow> nat \<Rightarrow> 'o exec_action list" where
  "abort_run n k =
     abort_outputs n cancelled_reason @
     [transition_record n Running AbortPending k cancelled_reason, transition_record n AbortPending Aborted k cancelled_reason]"

definition ended :: "'o build_node \<Rightarrow> node_state \<Rightarrow> nat \<Rightarrow> string \<Rightarrow> node_run" where
  "ended n s k reason =
     \<lparr>run_node = bn_id n, run_state = s, run_attempts = k, run_reason = reason, run_result = no_result\<rparr>"

text \<open>After the last attempt.\<close>

definition drive_exhausted :: "node_env \<Rightarrow> 'o build_node \<Rightarrow> nat \<Rightarrow> string option \<Rightarrow> node_run \<times> 'o exec_action list" where
  "drive_exhausted env n limit last_err =
     (if ne_end env then (ended n Aborted limit cancelled_reason, abort_run n limit)
      else (let reason = (case last_err of None \<Rightarrow> ''job failed'' | Some e \<Rightarrow> e) in
            (ended n Failed limit reason,
             abort_outputs n reason @ [transition_record n Running Failed limit reason])))"

text \<open>The loop over the attempts: \<open>left\<close> of them are left, \<open>k\<close> is the current one.\<close>

fun drive_attempts ::
  "node_env \<Rightarrow> 'o build_node \<Rightarrow> nat \<Rightarrow> nat \<Rightarrow> nat \<Rightarrow> string option \<Rightarrow> node_run \<times> 'o exec_action list" where
  "drive_attempts env n limit 0 k last_err = drive_exhausted env n limit last_err"
| "drive_attempts env n limit (Suc left) k last_err =
     (case ne_head env k of
        Some e \<Rightarrow> (ended n Aborted k e, abort_run n k)
      | None \<Rightarrow>
          (case ne_run env k of
             Inr res \<Rightarrow>
               (case commit_all_outputs env n of
                  (Some e, tr) \<Rightarrow>
                    (ended n Failed k e, RunAttempt (bn_id n) k # tr @ [transition_record n Running Failed k e])
                | (None, tr) \<Rightarrow>
                    ((ended n Completed k [])\<lparr>run_result := res\<rparr>,
                     RunAttempt (bn_id n) k # tr @ [transition_record n Running Completed k ''all outputs committed'']))
           | Inl e \<Rightarrow>
               (case drive_attempts env n limit left (Suc k) (Some e) of
                  (r, tr) \<Rightarrow>
                    (r, RunAttempt (bn_id n) k #
                        (if k < limit \<and> \<not> ne_after env k
                         then [RecordAudit \<lparr>ae_job = bn_job n, ae_node = bn_id n, ae_from = [], ae_to = [],
                                 ae_attempt = k, ae_reason = ''retry: '' @ e, ae_dataset = []\<rparr>]
                         else []) @ tr))))"

definition attempts_of :: "int \<Rightarrow> 'o build_node \<Rightarrow> nat" where
  "attempts_of plan_attempts n =
     (let m = (if bn_max_attempts n < 1 then plan_attempts else bn_max_attempts n) in nat (if m < 1 then 1 else m))"

definition drive_node :: "int \<Rightarrow> node_env \<Rightarrow> 'o build_node \<Rightarrow> node_run \<times> 'o exec_action list" where
  "drive_node plan_attempts env n =
     (if bn_stale n then drive_stale n
      else (case drive_attempts env n (attempts_of plan_attempts n) (attempts_of plan_attempts n) 1 None of
              (r, tr) \<Rightarrow>
                (r, transition_record n Waiting RunPending 0 ''dispatching'' #
                    transition_record n RunPending Running 0 ''running'' # tr)))"

section \<open>The failure cascade\<close>

fun push_children ::
  "string list \<Rightarrow> string list \<Rightarrow> string list \<Rightarrow> string list \<Rightarrow> string list \<times> string list \<times> string list" where
  "push_children [] visited found stack = (visited, found, stack)"
| "push_children (c # cs) visited found stack =
     (if c \<in> set visited then push_children cs visited found stack
      else push_children cs (c # visited) (found @ [c]) (c # stack))"

lemma push_children_spec:
  "push_children cs visited found stack = (v, f, s) \<Longrightarrow>
     set v = set visited \<union> set cs \<and> set f = set found \<union> (set cs - set visited) \<and>
     set s = set stack \<union> (set cs - set visited) \<and> length s = length stack + card (set cs - set visited)"
proof (induction cs visited found stack rule: push_children.induct)
  case (2 c cs visited found stack)
  show ?case
  proof (cases "c \<in> set visited")
    case True
    with 2 have "set (c # cs) - set visited = set cs - set visited" by auto
    with 2 True show ?thesis by auto
  next
    case False
    then have "set (c # cs) - set visited = insert c (set cs - set (c # visited))"
      by auto
    then have "card (set (c # cs) - set visited) = Suc (card (set cs - set (c # visited)))"
      by (simp only: card_insert_disjoint finite_Diff List.finite_set) simp
    with 2 False show ?thesis by auto
  qed
qed auto

text \<open>The top of the stack is the head of the list.\<close>

function cascade_loop :: "'o build_node list \<Rightarrow> string list \<Rightarrow> string list \<Rightarrow> string list \<Rightarrow> string list" where
  "cascade_loop nodes visited found [] = found"
| "cascade_loop nodes visited found (i # stack) =
     (case push_children (dependents_of nodes i) visited found stack of
        (v, f, s) \<Rightarrow> cascade_loop nodes v f s)"
  by pat_completeness auto

lemma dependents_of_known: "set (dependents_of nodes i) \<subseteq> set (map bn_id nodes)"
  by (auto simp: dependents_of_def)

termination cascade_loop
proof (relation "measure (\<lambda>(nodes, visited, found, stack). 2 * unvisited nodes visited + length stack)", goal_cases)
  case 1
  show ?case by simp
next
  case (2 nodes visited found i stack v w f s)
  let ?new = "set (dependents_of nodes i) - set visited"
  have spec: "set v = set visited \<union> set (dependents_of nodes i)" "length s = length stack + card ?new"
    using push_children_spec [of "dependents_of nodes i" visited found stack v f s] 2 by auto
  have "unvisited nodes visited = card ((set (map bn_id nodes) - set v) \<union> ?new)"
    unfolding unvisited_def using dependents_of_known [of nodes i] spec(1) by (intro arg_cong [where f = card]) auto
  also have "\<dots> = unvisited nodes v + card ?new"
    unfolding unvisited_def using spec(1) by (intro card_Un_disjoint) auto
  finally show ?case
    using spec(2) by simp
qed

definition compute_cascade ::
  "'o build_node list \<Rightarrow> string \<Rightarrow> abort_policy \<Rightarrow> string set \<Rightarrow> string list \<times> string list" where
  "compute_cascade nodes failed policy completed =
     (let dependents = sort (cascade_loop nodes [] [] [failed]) in
      (dependents,
       if policy = AllNonDependent
       then filter (\<lambda>i. i \<noteq> failed \<and> i \<notin> set dependents \<and> i \<notin> completed) (map bn_id nodes)
       else []))"

section \<open>The scheduler\<close>

record 'o exec_state =
  xs_state :: "string \<Rightarrow> node_state"
  xs_attempts :: "string \<Rightarrow> nat option"
  xs_reasons :: "string \<Rightarrow> string option"
  xs_results :: "string \<Rightarrow> node_result option"
  xs_remaining :: "string list"
  xs_flight :: "string list"
  xs_completed :: "string set"
  xs_failed :: "string set"
  xs_aborted :: "string set"
  xs_trace :: "'o exec_action list"
  xs_cancelled :: bool

definition exec_start :: "'o build_node list \<Rightarrow> 'o exec_state" where
  "exec_start nodes =
     \<lparr>xs_state = (\<lambda>_. Waiting), xs_attempts = Map.empty, xs_reasons = Map.empty, xs_results = Map.empty,
      xs_remaining = map bn_id nodes, xs_flight = [], xs_completed = {}, xs_failed = {}, xs_aborted = {},
      xs_trace = [], xs_cancelled = False\<rparr>"

definition remove_id :: "string \<Rightarrow> string list \<Rightarrow> string list" where
  "remove_id i ids = filter (\<lambda>x. x \<noteq> i) ids"

definition abort_node :: "'o build_node list \<Rightarrow> string \<Rightarrow> string \<Rightarrow> 'o exec_state \<Rightarrow> 'o exec_state" where
  "abort_node nodes reason i st =
     (case node_at nodes i of
        None \<Rightarrow> st
      | Some n \<Rightarrow>
          (let from = xs_state st i in
           if node_terminal from then st
           else st\<lparr>xs_trace := xs_trace st @
                     (if from = Waiting then [transition_record n Waiting Aborted 0 reason]
                      else [transition_record n from AbortPending 0 reason,
                            transition_record n AbortPending Aborted 0 reason]) @
                     abort_outputs n reason,
                   xs_state := (xs_state st)(i := Aborted), xs_aborted := insert i (xs_aborted st)\<rparr>))"

text \<open>\<^verbatim>\<open>abortNode\<close> and \<^verbatim>\<open>delete(remaining, id)\<close> for each of some nodes that are still remaining.\<close>

fun abort_remaining :: "'o build_node list \<Rightarrow> string \<Rightarrow> string list \<Rightarrow> 'o exec_state \<Rightarrow> 'o exec_state" where
  "abort_remaining nodes reason [] st = st"
| "abort_remaining nodes reason (i # is) st =
     abort_remaining nodes reason is
       (if i \<in> set (xs_remaining st)
        then (abort_node nodes reason i st)\<lparr>xs_remaining := remove_id i (xs_remaining st)\<rparr>
        else st)"

text \<open>
  The head of the loop when the context is cancelled. The code ranges over a map of the remaining nodes, so their
  audit events come in any order; here they come in the order of the list. The resulting states do not depend on it.
\<close>

definition cancel_build :: "'o build_node list \<Rightarrow> 'o exec_state \<Rightarrow> 'o exec_state" where
  "cancel_build nodes st =
     (let st' = abort_remaining nodes cancelled_reason (xs_remaining st) st in
      st'\<lparr>xs_state := (\<lambda>i. if i \<in> set (xs_flight st') then AbortPending else xs_state st' i), xs_cancelled := True\<rparr>)"

definition ready_nodes :: "'o build_node list \<Rightarrow> 'o exec_state \<Rightarrow> string list" where
  "ready_nodes nodes st = sort (filter (\<lambda>i. set (deps_of nodes i) \<subseteq> xs_completed st) (xs_remaining st))"

definition dependency_failed :: string where
  "dependency_failed = ''dependency failed''"

text \<open>
  Launching stops at the bound on nodes in flight, or where the cancellation of the context is seen: before the
  node at position \<open>cancel_at\<close>.
\<close>

fun launch_loop :: "nat \<Rightarrow> nat option \<Rightarrow> string list \<Rightarrow> 'o exec_state \<Rightarrow> 'o exec_state" where
  "launch_loop bound cancel_at [] st = st"
| "launch_loop bound cancel_at (i # is) st =
     (if cancel_at = Some 0 then st\<lparr>xs_cancelled := True\<rparr>
      else if bound \<le> length (xs_flight st) then st
      else launch_loop bound (map_option (\<lambda>k. k - 1) cancel_at) is
             (st\<lparr>xs_remaining := remove_id i (xs_remaining st), xs_flight := xs_flight st @ [i]\<rparr>))"

definition independent_reason :: string where
  "independent_reason = ''abort_policy=ALL_NON_DEPENDENT triggered by upstream failure''"

definition receive ::
  "'o build_node list \<Rightarrow> abort_policy \<Rightarrow> node_run \<times> 'o exec_action list \<Rightarrow> 'o exec_state \<Rightarrow> 'o exec_state" where
  "receive nodes policy r st =
     (let i = run_node (fst r);
          st1 = st\<lparr>xs_flight := remove_id i (xs_flight st), xs_attempts := (xs_attempts st)(i \<mapsto> run_attempts (fst r)),
                   xs_reasons := (if run_reason (fst r) = [] then xs_reasons st
                                  else (xs_reasons st)(i \<mapsto> run_reason (fst r))),
                   xs_results := (xs_results st)(i \<mapsto> run_result (fst r)),
                   xs_state := (xs_state st)(i := run_state (fst r)), xs_trace := xs_trace st @ snd r\<rparr> in
      if run_state (fst r) = Completed then st1\<lparr>xs_completed := insert i (xs_completed st1)\<rparr>
      else if run_state (fst r) = Failed then
        (case compute_cascade nodes i policy (xs_completed st1) of
           (dependents, independents) \<Rightarrow>
             abort_remaining nodes independent_reason independents
               (abort_remaining nodes dependency_failed dependents (st1\<lparr>xs_failed := insert i (xs_failed st1)\<rparr>)))
      else if run_state (fst r) = Aborted then st1\<lparr>xs_aborted := insert i (xs_aborted st1)\<rparr>
      else st1)"

definition exec_done :: "'o exec_state \<Rightarrow> bool" where
  "exec_done st \<longleftrightarrow> xs_remaining st = [] \<and> xs_flight st = []"

text \<open>
  One pass through the loop. The context may be found cancelled at the head, and stays cancelled; when no node is
  ready or in flight the rest is aborted and the loop is left; otherwise ready nodes are launched and, when some
  node is in flight, one of them answers. A node in flight answers that it was aborted only when the context is
  cancelled by then.
\<close>

definition pass_head :: "'o build_node list \<Rightarrow> bool \<Rightarrow> 'o exec_state \<Rightarrow> 'o exec_state" where
  "pass_head nodes cancelled st = (if cancelled then cancel_build nodes st else st)"

definition pass_launch :: "'o build_node list \<Rightarrow> nat \<Rightarrow> nat option \<Rightarrow> 'o exec_state \<Rightarrow> 'o exec_state" where
  "pass_launch nodes bound cancel_at st = launch_loop bound cancel_at (ready_nodes nodes st) st"

definition stuck :: "'o build_node list \<Rightarrow> 'o exec_state \<Rightarrow> bool" where
  "stuck nodes st \<longleftrightarrow> ready_nodes nodes st = [] \<and> xs_flight st = []"

inductive exec_step ::
  "'o build_node list \<Rightarrow> nat \<Rightarrow> int \<Rightarrow> abort_policy \<Rightarrow> 'o exec_state \<Rightarrow> 'o exec_state \<Rightarrow> bool"
  for nodes bound limit policy where
  exec_break:
    "\<not> exec_done st \<Longrightarrow> (xs_cancelled st \<longrightarrow> h) \<Longrightarrow> st1 = pass_head nodes h st \<Longrightarrow> stuck nodes st1 \<Longrightarrow>
     exec_step nodes bound limit policy st (abort_remaining nodes dependency_failed (xs_remaining st1) st1)"
| exec_idle:
    "\<not> exec_done st \<Longrightarrow> (xs_cancelled st \<longrightarrow> h) \<Longrightarrow> st1 = pass_head nodes h st \<Longrightarrow> \<not> stuck nodes st1 \<Longrightarrow>
     st2 = pass_launch nodes bound cancel_at st1 \<Longrightarrow> xs_flight st2 = [] \<Longrightarrow> exec_step nodes bound limit policy st st2"
| exec_receive:
    "\<not> exec_done st \<Longrightarrow> (xs_cancelled st \<longrightarrow> h) \<Longrightarrow> st1 = pass_head nodes h st \<Longrightarrow> \<not> stuck nodes st1 \<Longrightarrow>
     st2 = pass_launch nodes bound cancel_at st1 \<Longrightarrow> i \<in> set (xs_flight st2) \<Longrightarrow> node_at nodes i = Some n \<Longrightarrow>
     r = drive_node limit env n \<Longrightarrow> (xs_cancelled st2 \<or> run_state (fst r) = Aborted \<longrightarrow> c) \<Longrightarrow>
     st3 = (receive nodes policy r st2)\<lparr>xs_cancelled := c\<rparr> \<Longrightarrow> exec_step nodes bound limit policy st st3"

inductive exec_reachable ::
  "'o build_node list \<Rightarrow> nat \<Rightarrow> int \<Rightarrow> abort_policy \<Rightarrow> 'o exec_state \<Rightarrow> bool"
  for nodes bound limit policy where
  exec_init: "exec_reachable nodes bound limit policy (exec_start nodes)"
| exec_more:
    "exec_reachable nodes bound limit policy st \<Longrightarrow> exec_step nodes bound limit policy st st' \<Longrightarrow>
     exec_reachable nodes bound limit policy st'"

section \<open>The outcome\<close>

datatype build_final = FinalFailed | FinalAborted | FinalCompleted

record exec_outcome =
  oc_final :: build_final
  oc_completed :: nat
  oc_ignored :: nat
  oc_failed :: nat
  oc_aborted :: nat

definition count_nodes :: "('o build_node \<Rightarrow> bool) \<Rightarrow> 'o build_node list \<Rightarrow> nat" where
  "count_nodes P nodes = length (filter P nodes)"

definition exec_outcome_of :: "'o build_node list \<Rightarrow> 'o exec_state \<Rightarrow> exec_outcome" where
  "exec_outcome_of nodes st =
     (let failed = count_nodes (\<lambda>n. xs_state st (bn_id n) = Failed) nodes;
          aborted = count_nodes (\<lambda>n. xs_state st (bn_id n) \<in> {Aborted, AbortPending}) nodes in
      \<lparr>oc_final = (if 0 < failed then FinalFailed else if 0 < aborted then FinalAborted else FinalCompleted),
       oc_completed = count_nodes (\<lambda>n. xs_state st (bn_id n) = Completed \<and> \<not> bn_stale n) nodes,
       oc_ignored = count_nodes (\<lambda>n. xs_state st (bn_id n) = Completed \<and> bn_stale n) nodes,
       oc_failed = failed, oc_aborted = aborted\<rparr>)"

text \<open>The parameters of a plan, with their defaults.\<close>

definition plan_bound :: "'o build_plan \<Rightarrow> nat" where
  "plan_bound p = (if bp_parallelism p < 1 then 4 else nat (bp_parallelism p))"

definition plan_limit :: "'o build_plan \<Rightarrow> int" where
  "plan_limit p = (if bp_max_attempts p < 1 then 1 else bp_max_attempts p)"

definition plan_policy :: "'o build_plan \<Rightarrow> abort_policy" where
  "plan_policy p = (case bp_policy p of None \<Rightarrow> DependentOnly | Some policy \<Rightarrow> policy)"

text \<open>The results \<^verbatim>\<open>Execute\<close> can return.\<close>

inductive executes :: "'o build_plan \<Rightarrow> graph_failure + exec_outcome \<Rightarrow> bool" where
  executes_refused: "new_execution_graph p = Inl e \<Longrightarrow> executes p (Inl e)"
| executes_run:
    "new_execution_graph p = Inr nodes \<Longrightarrow>
     exec_reachable nodes (plan_bound p) (plan_limit p) (plan_policy p) st \<Longrightarrow> exec_done st \<Longrightarrow>
     executes p (Inr (exec_outcome_of nodes st))"

end
