(* ===== verification/Build_Executor_Proofs.thy ===== *)
theory Build_Executor_Proofs
  imports Build_Executor
begin

text \<open>
  The theorems of the build executor: which plans it accepts, what one node leaves behind, and the invariant of the
  scheduler with what follows of the outcome of a build.
\<close>

section \<open>The graph\<close>

definition dep_edges :: "'o build_node list \<Rightarrow> (string \<times> string) set" where
  "dep_edges nodes =
     {(a, b). a \<in> set (map bn_id nodes) \<and> b \<in> set (deps_of nodes a) \<and> b \<in> set (map bn_id nodes)}"

text \<open>A set of settled nodes: closed under edges, none of them on a cycle.\<close>

definition settled_set :: "(string \<times> string) set \<Rightarrow> string set \<Rightarrow> bool" where
  "settled_set E B \<longleftrightarrow> (\<forall>a \<in> B. \<forall>b. (a, b) \<in> E \<longrightarrow> b \<in> B) \<and> (\<forall>a \<in> B. (a, a) \<notin> E\<^sup>+)"

lemma settled_set_closed: "(a, b) \<in> E\<^sup>+ \<Longrightarrow> settled_set E B \<Longrightarrow> a \<in> B \<Longrightarrow> b \<in> B"
  by (induction rule: trancl_induct) (auto simp: settled_set_def)

lemma settled_set_insert:
  assumes ok: "settled_set E B" and new: "i \<notin> B" and succ: "\<And>b. (i, b) \<in> E \<Longrightarrow> b \<in> B"
  shows "settled_set E (insert i B)"
proof -
  have "(i, i) \<notin> E\<^sup>+"
  proof
    assume "(i, i) \<in> E\<^sup>+"
    then obtain b where "(i, b) \<in> E" and b: "(b, i) \<in> E\<^sup>*"
      by (metis tranclD)
    with succ have "b \<in> B" by blast
    with b new settled_set_closed [OF _ ok] show False
      by (metis rtranclD)
  qed
  with ok succ show ?thesis
    by (auto simp: settled_set_def)
qed

lemma settled_set_empty: "settled_set E {}"
  by (simp add: settled_set_def)

text \<open>A closed walk, first node repeated at the end.\<close>

definition is_cycle :: "(string \<times> string) set \<Rightarrow> string list \<Rightarrow> bool" where
  "is_cycle E c \<longleftrightarrow> 2 \<le> length c \<and> hd c = last c \<and> successively (\<lambda>a b. (a, b) \<in> E) c"

lemma walk_trancl:
  "successively (\<lambda>a b. (a, b) \<in> E) c \<Longrightarrow> 2 \<le> length c \<Longrightarrow> (hd c, last c) \<in> E\<^sup>+"
proof (induction c rule: induct_list012)
  case (3 x y zs)
  show ?case
  proof (cases "zs = []")
    case False
    with 3 have "(y, last (y # zs)) \<in> E\<^sup>+"
      by (cases zs) auto
    with 3 False show ?thesis
      by (auto intro: trancl_into_trancl2)
  qed (use 3 in auto)
qed auto

lemma is_cycle_trancl: "is_cycle E c \<Longrightarrow> \<exists>a. (a, a) \<in> E\<^sup>+"
  using walk_trancl by (metis is_cycle_def)

text \<open>The path, read from its end, is a walk; a node on it closes a cycle.\<close>

lemma path_cycle:
  assumes walk: "successively (\<lambda>a b. (b, a) \<in> E) (i # path)" and i: "i \<in> set path"
  shows "is_cycle E (rev (i # takeWhile (\<lambda>x. x \<noteq> i) path @ [i]))"
proof -
  obtain ys rest where split: "path = ys @ i # rest" "i \<notin> set ys"
    using split_list_first [OF i] by blast
  then have "takeWhile (\<lambda>x. x \<noteq> i) path = ys"
    by (auto simp: takeWhile_append intro: takeWhile_eq_all_conv [THEN iffD2])
  with split have path: "path = takeWhile (\<lambda>x. x \<noteq> i) path @ i # rest"
    by simp
  have "successively (\<lambda>a b. (b, a) \<in> E) ((i # takeWhile (\<lambda>x. x \<noteq> i) path @ [i]) @ rest)"
    using walk path by simp
  then have "successively (\<lambda>a b. (b, a) \<in> E) (i # takeWhile (\<lambda>x. x \<noteq> i) path @ [i])"
    unfolding successively_append_iff by blast
  then show ?thesis
    unfolding is_cycle_def successively_rev by (simp add: hd_rev last_rev)
qed

definition dfs_post ::
  "'o build_node list \<Rightarrow> string list \<Rightarrow> string list \<Rightarrow> string list \<Rightarrow> string list option \<times> string list \<Rightarrow> bool" where
  "dfs_post nodes visited path is r \<longleftrightarrow>
     (case fst r of
        Some c \<Rightarrow> is_cycle (dep_edges nodes) c
      | None \<Rightarrow>
          set visited \<subseteq> set (snd r) \<and> settled_set (dep_edges nodes) (set (snd r) - set path) \<and>
          set path \<inter> set (snd r) = set path \<inter> set visited \<and>
          (\<forall>i \<in> set is. i \<in> set (map bn_id nodes) \<longrightarrow> i \<in> set (snd r) - set path))"

lemma exec_dfs_post:
  "set path \<subseteq> set (map bn_id nodes) \<Longrightarrow> set path \<subseteq> set visited \<Longrightarrow> settled_set (dep_edges nodes) (set visited - set path) \<Longrightarrow>
     successively (\<lambda>a b. (b, a) \<in> dep_edges nodes) (i # path) \<Longrightarrow>
     dfs_post nodes visited path [i] (exec_dfs nodes visited path i)"
  "set path \<subseteq> set (map bn_id nodes) \<Longrightarrow> set path \<subseteq> set visited \<Longrightarrow> settled_set (dep_edges nodes) (set visited - set path) \<Longrightarrow>
     (\<And>d. d \<in> set ds \<Longrightarrow> d \<in> set (map bn_id nodes) \<Longrightarrow> successively (\<lambda>a b. (b, a) \<in> dep_edges nodes) (d # path)) \<Longrightarrow>
     dfs_post nodes visited path ds (exec_dfs_list nodes visited path ds)"
proof (induction nodes visited path i and nodes visited path ds rule: exec_dfs_exec_dfs_list.induct)
  case (1 nodes visited path i)
  let ?E = "dep_edges nodes"
  consider "i \<in> set path" | "i \<notin> set path" "i \<in> set visited \<or> i \<notin> set (map bn_id nodes)"
    | "i \<notin> set path" "i \<notin> set visited" "i \<in> set (map bn_id nodes)"
    by blast
  then show ?case
  proof cases
    case 1
    with path_cycle [OF \<open>successively _ (i # path)\<close>] show ?thesis
      by (simp add: exec_dfs.simps dfs_post_def)
  next
    case 2
    with \<open>settled_set _ _\<close> show ?thesis
      by (auto simp: exec_dfs.simps dfs_post_def)
  next
    case 3
    have walk: "successively (\<lambda>a b. (b, a) \<in> ?E) (d # i # path)"
      if "d \<in> set (sort (deps_of nodes i))" "d \<in> set (map bn_id nodes)" for d
      using that 3 \<open>successively _ (i # path)\<close> by (simp add: dep_edges_def)
    have same: "set (i # visited) - set (i # path) = set visited - set path"
      using 3 by auto
    have post: "dfs_post nodes (i # visited) (i # path) (sort (deps_of nodes i))
        (exec_dfs_list nodes (i # visited) (i # path) (sort (deps_of nodes i)))" (is "dfs_post _ _ _ _ ?r")
      using 3 "1.prems" walk by (intro "1.IH") (auto simp: same)
    show ?thesis
    proof (cases "fst ?r")
      case (Some c)
      with post 3 show ?thesis
        by (simp add: exec_dfs.simps dfs_post_def)
    next
      case None
      let ?B = "set (snd ?r) - set (i # path)"
      have ok: "settled_set ?E ?B" and sub: "set (i # visited) \<subseteq> set (snd ?r)"
        and fixed: "set (i # path) \<inter> set (snd ?r) = set (i # path) \<inter> set (i # visited)"
        and deps: "\<And>d. d \<in> set (deps_of nodes i) \<Longrightarrow> d \<in> set (map bn_id nodes) \<Longrightarrow> d \<in> ?B"
        using post None by (auto simp: dfs_post_def)
      have "settled_set ?E (insert i ?B)"
        using deps by (intro settled_set_insert [OF ok]) (auto simp: dep_edges_def)
      moreover have "insert i ?B = set (snd ?r) - set path"
        using 3 sub by auto
      ultimately show ?thesis
        using 3 None sub fixed by (auto simp: exec_dfs.simps dfs_post_def)
    qed
  qed
next
  case (2 nodes visited path)
  then show ?case by (simp add: dfs_post_def)
next
  case (3 nodes visited path d ds)
  obtain c v where r: "exec_dfs nodes visited path d = (c, v)"
    by fastforce
  show ?case
  proof (cases "d \<in> set (map bn_id nodes)")
    case True
    have post: "dfs_post nodes visited path [d] (c, v)"
      using "3.IH"(1) "3.prems" True r by simp
    show ?thesis
    proof (cases c)
      case (Some c')
      with post r show ?thesis by (simp add: dfs_post_def)
    next
      case None
      with post "3.prems" have v: "set path \<subseteq> set v" "settled_set (dep_edges nodes) (set v - set path)"
        by (auto simp: dfs_post_def)
      have "dfs_post nodes v path ds (exec_dfs_list nodes v path ds)"
        using "3.IH"(2) [OF r [symmetric]] None r v "3.prems"(1,4) by auto
      with post None r True show ?thesis
        by (auto simp: dfs_post_def split: option.splits)
    qed
  next
    case False
    then have "d \<notin> set path \<Longrightarrow> exec_dfs nodes visited path d = (None, visited)"
      by (simp add: exec_dfs.simps)
    moreover have "d \<notin> set path"
      using False "3.prems"(1) by blast
    ultimately show ?thesis
      using "3.IH"(2) "3.prems" r False by (auto simp: dfs_post_def split: option.splits)
  qed
qed

lemma exec_cycle_loop_post:
  "settled_set (dep_edges nodes) (set visited) \<Longrightarrow>
     (case exec_cycle_loop nodes visited ns of
        Some c \<Rightarrow> is_cycle (dep_edges nodes) c
      | None \<Rightarrow> \<exists>B. settled_set (dep_edges nodes) B \<and> set visited \<subseteq> B \<and>
                     (\<forall>n \<in> set ns. bn_id n \<in> set (map bn_id nodes) \<longrightarrow> bn_id n \<in> B))"
proof (induction nodes visited ns rule: exec_cycle_loop.induct)
  case (1 nodes visited)
  then show ?case by auto
next
  case (2 nodes visited n ns)
  obtain c v where r: "exec_dfs nodes visited [] (bn_id n) = (c, v)"
    by fastforce
  have post: "dfs_post nodes visited [] [bn_id n] (c, v)"
    unfolding r [symmetric] using 2(2) by (intro exec_dfs_post(1)) simp_all
  show ?case
  proof (cases c)
    case (Some c')
    with post r show ?thesis by (simp add: dfs_post_def)
  next
    case None
    with post have v: "set visited \<subseteq> set v" "settled_set (dep_edges nodes) (set v)"
      "bn_id n \<in> set (map bn_id nodes) \<longrightarrow> bn_id n \<in> set v"
      by (simp_all add: dfs_post_def)
    from 2(1) [OF r [symmetric] None v(2)] show ?thesis
      using None r v(1,3) by (auto split: option.splits)
  qed
qed

lemma dep_edges_known: "(a, b) \<in> (dep_edges nodes)\<^sup>+ \<Longrightarrow> a \<in> set (map bn_id nodes)"
  by (induction rule: converse_trancl_induct) (auto simp: dep_edges_def)

lemma exec_cycle_iff:
  "exec_cycle nodes = None \<longleftrightarrow> acyclic (dep_edges nodes)"
  "exec_cycle nodes = Some c \<Longrightarrow> is_cycle (dep_edges nodes) c"
proof -
  have "settled_set (dep_edges nodes) (set [])"
    by (simp add: settled_set_empty)
  note post = exec_cycle_loop_post [OF this, of nodes, folded exec_cycle_def]
  show cycle: "exec_cycle nodes = Some c \<Longrightarrow> is_cycle (dep_edges nodes) c" for c
    using post by simp
  show "exec_cycle nodes = None \<longleftrightarrow> acyclic (dep_edges nodes)"
  proof
    assume "exec_cycle nodes = None"
    then obtain B where "settled_set (dep_edges nodes) B" "set (map bn_id nodes) \<subseteq> B"
      using post by auto
    then show "acyclic (dep_edges nodes)"
      using dep_edges_known by (fastforce simp: acyclic_def settled_set_def)
  next
    assume "acyclic (dep_edges nodes)"
    then show "exec_cycle nodes = None"
      using cycle is_cycle_trancl by (cases "exec_cycle nodes") (auto simp: acyclic_def)
  qed
qed

lemma collect_nodes_iff:
  "distinct (map bn_id acc) \<Longrightarrow>
     (case collect_nodes acc ns of
        Inr r \<Rightarrow> r = acc @ map (\<lambda>n. n\<lparr>bn_deps := sort (bn_deps n)\<rparr>) ns \<and> (\<forall>n \<in> set ns. bn_id n \<noteq> []) \<and>
                 distinct (map bn_id acc @ map bn_id ns)
      | Inl e \<Rightarrow> \<not> ((\<forall>n \<in> set ns. bn_id n \<noteq> []) \<and> distinct (map bn_id acc @ map bn_id ns)))"
proof (induction acc ns rule: collect_nodes.induct)
  case (2 acc n ns)
  show ?case
  proof (cases "bn_id n = [] \<or> bn_id n \<in> set (map bn_id acc)")
    case False
    then have "case collect_nodes (acc @ [n\<lparr>bn_deps := sort (bn_deps n)\<rparr>]) ns of
        Inr r \<Rightarrow> r = (acc @ [n\<lparr>bn_deps := sort (bn_deps n)\<rparr>]) @ map (\<lambda>n. n\<lparr>bn_deps := sort (bn_deps n)\<rparr>) ns \<and>
          (\<forall>n \<in> set ns. bn_id n \<noteq> []) \<and> distinct (map bn_id (acc @ [n\<lparr>bn_deps := sort (bn_deps n)\<rparr>]) @ map bn_id ns)
      | Inl e \<Rightarrow> \<not> ((\<forall>n \<in> set ns. bn_id n \<noteq> []) \<and>
          distinct (map bn_id (acc @ [n\<lparr>bn_deps := sort (bn_deps n)\<rparr>]) @ map bn_id ns))"
      using 2(2) by (intro "2.IH") auto
    with False show ?thesis
      by (auto split: sum.splits)
  qed (auto split: sum.splits)
qed auto

lemma node_at_in: "distinct (map bn_id nodes) \<Longrightarrow> n \<in> set nodes \<Longrightarrow> node_at nodes (bn_id n) = Some n"
  unfolding node_at_def by (induction nodes) (auto simp: image_iff)

lemma node_at_Some: "node_at nodes i = Some n \<Longrightarrow> n \<in> set nodes \<and> bn_id n = i"
  by (auto simp: node_at_def find_Some_iff)

lemma deps_of_in: "distinct (map bn_id nodes) \<Longrightarrow> n \<in> set nodes \<Longrightarrow> deps_of nodes (bn_id n) = bn_deps n"
  by (simp add: deps_of_def node_at_in)

text \<open>The edges as the plan states them.\<close>

definition plan_edges :: "'o build_node list \<Rightarrow> (string \<times> string) set" where
  "plan_edges nodes = {(bn_id n, d) | n d. n \<in> set nodes \<and> d \<in> set (bn_deps n)}"

definition plan_ok :: "'o build_plan \<Rightarrow> bool" where
  "plan_ok p \<longleftrightarrow>
     (\<forall>n \<in> set (bp_nodes p). bn_id n \<noteq> [] \<and> set (bn_deps n) \<subseteq> bn_id ` set (bp_nodes p)) \<and>
     distinct (map bn_id (bp_nodes p)) \<and> acyclic (plan_edges (bp_nodes p))"

definition graph_nodes :: "'o build_plan \<Rightarrow> 'o build_node list" where
  "graph_nodes p = sort_key bn_id (map (\<lambda>n. n\<lparr>bn_deps := sort (bn_deps n)\<rparr>) (bp_nodes p))"

lemma first_missing_iff:
  "first_missing nodes = None \<longleftrightarrow> (\<forall>n \<in> set nodes. set (bn_deps n) \<subseteq> bn_id ` set nodes)"
proof -
  have "first_missing nodes = None \<longleftrightarrow>
      concat (map (\<lambda>n. map (\<lambda>d. (bn_id n, d)) (filter (\<lambda>d. d \<notin> set (map bn_id nodes)) (bn_deps n))) nodes) = []"
    unfolding first_missing_def by (simp split: list.splits del: concat_eq_Nil_conv)
  also have "\<dots> \<longleftrightarrow> (\<forall>n \<in> set nodes. set (bn_deps n) \<subseteq> bn_id ` set nodes)"
    by (auto simp: filter_empty_conv)
  finally show ?thesis .
qed

lemma distinct_map_insort_key:
  "distinct (map f (insort_key g x xs)) \<longleftrightarrow> f x \<notin> f ` set xs \<and> distinct (map f xs)"
  by (induction xs) (auto simp: set_insort_key)

lemma distinct_map_sort_key: "distinct (map f (sort_key g xs)) \<longleftrightarrow> distinct (map f xs)"
  by (induction xs) (simp_all add: distinct_map_insort_key)

lemma set_graph_nodes: "set (graph_nodes p) = (\<lambda>n. n\<lparr>bn_deps := sort (bn_deps n)\<rparr>) ` set (bp_nodes p)"
  by (simp add: graph_nodes_def)

lemma plan_edges_graph_nodes: "plan_edges (graph_nodes p) = plan_edges (bp_nodes p)"
proof -
  have edges: "plan_edges ns = (\<Union>n \<in> set ns. {bn_id n} \<times> set (bn_deps n))" for ns :: "'a build_node list"
    by (auto simp: plan_edges_def)
  show ?thesis
    unfolding edges set_graph_nodes by simp
qed

lemma dep_edges_plan_edges:
  assumes "distinct (map bn_id nodes)" "\<forall>n \<in> set nodes. set (bn_deps n) \<subseteq> bn_id ` set nodes"
  shows "dep_edges nodes = plan_edges nodes"
proof (intro equalityI subrelI)
  fix a b assume "(a, b) \<in> dep_edges nodes"
  then obtain n where "n \<in> set nodes" "bn_id n = a" "b \<in> set (deps_of nodes a)"
    by (auto simp: dep_edges_def)
  with deps_of_in [OF assms(1)] show "(a, b) \<in> plan_edges nodes"
    by (auto simp: plan_edges_def)
next
  fix a b assume "(a, b) \<in> plan_edges nodes"
  with assms(2) deps_of_in [OF assms(1)] show "(a, b) \<in> dep_edges nodes"
    by (auto simp: plan_edges_def dep_edges_def)
qed

lemma new_execution_graph_core:
  "(new_execution_graph p = Inr nodes \<longleftrightarrow> plan_ok p \<and> nodes = graph_nodes p) \<and>
   (new_execution_graph p = Inl (CycleDetected c) \<longrightarrow> is_cycle (plan_edges (bp_nodes p)) c)"
proof (cases "collect_nodes [] (bp_nodes p)")
  case (Inl e)
  then have "\<not> plan_ok p" "e \<noteq> CycleDetected c" for c
  proof -
    have "collect_nodes acc ns = Inl e \<Longrightarrow> e \<noteq> CycleDetected c" for acc ns
      by (induction acc ns rule: collect_nodes.induct) (auto split: if_splits)
    with Inl show "e \<noteq> CycleDetected c" by blast
    show "\<not> plan_ok p"
      using collect_nodes_iff [of "[]" "bp_nodes p"] Inl by (auto simp: plan_ok_def)
  qed
  with Inl show ?thesis
    by (auto simp: new_execution_graph_def)
next
  case (Inr r)
  then have r: "sort_key bn_id r = graph_nodes p" "\<forall>n \<in> set (bp_nodes p). bn_id n \<noteq> []"
    "distinct (map bn_id (bp_nodes p))"
    using collect_nodes_iff [of "[]" "bp_nodes p"] by (simp_all add: graph_nodes_def)
  have ids: "bn_id ` set (graph_nodes p) = bn_id ` set (bp_nodes p)"
    by (simp add: set_graph_nodes image_image)
  have dist: "distinct (map bn_id (graph_nodes p))"
    using r(3) by (simp add: graph_nodes_def distinct_map_sort_key comp_def)
  have missing: "first_missing (graph_nodes p) = None \<longleftrightarrow>
      (\<forall>n \<in> set (bp_nodes p). set (bn_deps n) \<subseteq> bn_id ` set (bp_nodes p))"
    unfolding first_missing_iff ids by (simp add: set_graph_nodes)
  show ?thesis
  proof (cases "first_missing (graph_nodes p)")
    case (Some e)
    then have "e \<noteq> CycleDetected c" for c
      by (auto simp: first_missing_def split: list.splits)
    with Some Inr r missing show ?thesis
      by (auto simp: new_execution_graph_def plan_ok_def)
  next
    case None
    then have "dep_edges (graph_nodes p) = plan_edges (bp_nodes p)"
      using dep_edges_plan_edges [OF dist] by (simp add: first_missing_iff plan_edges_graph_nodes)
    with None Inr r missing exec_cycle_iff [of "graph_nodes p"] show ?thesis
      by (auto simp: new_execution_graph_def plan_ok_def split: option.splits)
  qed
qed

section \<open>One node\<close>

text \<open>The outputs a trace commits, those it aborts, and the attempts it makes.\<close>

fun commits_of :: "'o exec_action list \<Rightarrow> 'o output_tx list" where
  "commits_of [] = []"
| "commits_of (CommitOutput t # tr) = t # commits_of tr"
| "commits_of (_ # tr) = commits_of tr"

fun aborts_of :: "'o exec_action list \<Rightarrow> 'o output_tx list" where
  "aborts_of [] = []"
| "aborts_of (AbortOutput t # tr) = t # aborts_of tr"
| "aborts_of (_ # tr) = aborts_of tr"

fun runs_of :: "'o exec_action list \<Rightarrow> nat list" where
  "runs_of [] = []"
| "runs_of (RunAttempt i k # tr) = k # runs_of tr"
| "runs_of (_ # tr) = runs_of tr"

lemma commits_of_append [simp]: "commits_of (a @ b) = commits_of a @ commits_of b"
  by (induction a rule: commits_of.induct) auto

lemma aborts_of_append [simp]: "aborts_of (a @ b) = aborts_of a @ aborts_of b"
  by (induction a rule: aborts_of.induct) auto

lemma runs_of_append [simp]: "runs_of (a @ b) = runs_of a @ runs_of b"
  by (induction a rule: runs_of.induct) auto

lemma trace_records [simp]:
  "commits_of (transition_record n a b k x # tr) = commits_of tr"
  "aborts_of (transition_record n a b k x # tr) = aborts_of tr"
  "runs_of (transition_record n a b k x # tr) = runs_of tr"
  "commits_of (output_record n x t # tr) = commits_of tr"
  "aborts_of (output_record n x t # tr) = aborts_of tr"
  "runs_of (output_record n x t # tr) = runs_of tr"
  by (simp_all add: transition_record_def output_record_def)

lemma abort_outputs_trace [simp]:
  "aborts_of (abort_outputs n reason) = bn_outputs n" "commits_of (abort_outputs n reason) = []"
  "runs_of (abort_outputs n reason) = []"
proof -
  have "aborts_of (concat (map (\<lambda>t. [AbortOutput t, output_record n x t]) ts)) = ts \<and>
      commits_of (concat (map (\<lambda>t. [AbortOutput t, output_record n x t]) ts)) = [] \<and>
      runs_of (concat (map (\<lambda>t. [AbortOutput t, output_record n x t]) ts)) = []" for x ts
    by (induction ts) simp_all
  then show "aborts_of (abort_outputs n reason) = bn_outputs n" "commits_of (abort_outputs n reason) = []"
    "runs_of (abort_outputs n reason) = []"
    by (simp_all add: abort_outputs_def)
qed

lemma rollback_trace [simp]:
  "aborts_of (rollback n committed) = bn_outputs n" "commits_of (rollback n committed) = []"
  "runs_of (rollback n committed) = []"
proof -
  have "aborts_of (concat (map (\<lambda>t. [AbortOutput t, output_record n (f t) t]) ts)) = ts \<and>
      commits_of (concat (map (\<lambda>t. [AbortOutput t, output_record n (f t) t]) ts)) = [] \<and>
      runs_of (concat (map (\<lambda>t. [AbortOutput t, output_record n (f t) t]) ts)) = []" for f ts
    by (induction ts) simp_all
  then show "aborts_of (rollback n committed) = bn_outputs n" "commits_of (rollback n committed) = []"
    "runs_of (rollback n committed) = []"
    by (simp_all add: rollback_def)
qed

lemma abort_run_trace [simp]:
  "aborts_of (abort_run n k) = bn_outputs n" "commits_of (abort_run n k) = []" "runs_of (abort_run n k) = []"
  by (simp_all add: abort_run_def)

lemma commit_loop_spec:
  "commit_loop env n pos ts = (r, committed, tr) \<Longrightarrow>
     aborts_of tr = [] \<and> runs_of tr = [] \<and>
     (r = None \<longleftrightarrow> (\<forall>i < length ts. ne_commit env (pos + i) = None)) \<and> (r = None \<longrightarrow> commits_of tr = ts)"
proof (induction ts arbitrary: pos r committed tr)
  case (Cons t ts)
  show ?case
  proof (cases "ne_commit env pos")
    case (Some e)
    with Cons.prems show ?thesis
      by (auto intro: exI [of _ 0])
  next
    case None
    obtain r' c' tr' where rest: "commit_loop env n (Suc pos) ts = (r', c', tr')"
      using prod_cases3 by blast
    have "(\<forall>i < length (t # ts). ne_commit env (pos + i) = None) \<longleftrightarrow>
        (\<forall>i < length ts. ne_commit env (Suc pos + i) = None)"
      using None by (auto simp: less_Suc_eq_0_disj)
    with Cons.IH [OF rest] Cons.prems None rest show ?thesis
      by auto
  qed
qed simp

text \<open>When a commit fails, every output is asked to abort, the committed ones too.\<close>

lemma commit_all_outputs_spec:
  assumes "commit_all_outputs env n = (r, tr)"
  shows "runs_of tr = [] \<and>
    (r = None \<longleftrightarrow> (\<forall>i < length (bn_outputs n). ne_commit env i = None)) \<and>
    (r = None \<longrightarrow> commits_of tr = bn_outputs n \<and> aborts_of tr = []) \<and>
    (r \<noteq> None \<longrightarrow> aborts_of tr = bn_outputs n)"
proof -
  obtain r' c' tr' where loop: "commit_loop env n 0 (bn_outputs n) = (r', c', tr')"
    using prod_cases3 by blast
  with assms commit_loop_spec [OF loop] show ?thesis
    by (cases r') (auto simp: commit_all_outputs_def Let_def)
qed

definition succeeds_at :: "node_env \<Rightarrow> 'o build_node \<Rightarrow> nat \<Rightarrow> nat \<Rightarrow> bool" where
  "succeeds_at env n k j \<longleftrightarrow>
     (\<forall>i < j. isl (ne_run env (k + i))) \<and> (\<forall>i \<le> j. ne_head env (k + i) = None) \<and> \<not> isl (ne_run env (k + j)) \<and>
     (\<forall>i < length (bn_outputs n). ne_commit env i = None)"

lemma succeeds_at_Suc:
  "succeeds_at env n k (Suc j) \<longleftrightarrow> isl (ne_run env k) \<and> ne_head env k = None \<and> succeeds_at env n (Suc k) j"
proof -
  have "(\<forall>i < Suc j. isl (ne_run env (k + i))) \<longleftrightarrow> isl (ne_run env k) \<and> (\<forall>i < j. isl (ne_run env (Suc k + i)))"
    by (auto simp: less_Suc_eq_0_disj)
  moreover have "(\<forall>i \<le> Suc j. ne_head env (k + i) = None) \<longleftrightarrow>
      ne_head env k = None \<and> (\<forall>i \<le> j. ne_head env (Suc k + i) = None)"
    by (metis (no_types, lifting) Suc_le_mono add.right_neutral add_Suc_shift le0 not0_implies_Suc)
  ultimately show ?thesis
    by (auto simp: succeeds_at_def)
qed

lemma drive_attempts_spec:
  "drive_attempts env n limit left k last_err = (r, tr) \<Longrightarrow>
     run_node r = bn_id n \<and> run_state r \<in> {Completed, Failed, Aborted} \<and> length (runs_of tr) \<le> left \<and>
     (run_state r = Completed \<longrightarrow> commits_of tr = bn_outputs n \<and> aborts_of tr = []) \<and>
     (run_state r \<noteq> Completed \<longrightarrow> aborts_of tr = bn_outputs n) \<and>
     (run_state r = Completed \<longleftrightarrow> (\<exists>j < left. succeeds_at env n k j))"
proof (induction left arbitrary: k last_err r tr)
  case 0
  then show ?case
    by (auto simp: drive_exhausted_def ended_def Let_def split: if_splits)
next
  case (Suc left)
  have split: "(\<exists>j < Suc left. succeeds_at env n k j) \<longleftrightarrow>
      succeeds_at env n k 0 \<or> (\<exists>j < left. succeeds_at env n k (Suc j))"
    by (auto simp: less_Suc_eq_0_disj)
  show ?case
  proof (cases "ne_head env k")
    case (Some e)
    then have "\<not> succeeds_at env n k j" for j
      by (cases j) (simp_all add: succeeds_at_Suc, simp add: succeeds_at_def)
    with Some Suc.prems show ?thesis
      by (auto simp: ended_def)
  next
    case None
    show ?thesis
    proof (cases "ne_run env k")
      case (Inl e)
      obtain r' tr' where rest: "drive_attempts env n limit left (Suc k) (Some e) = (r', tr')"
        by fastforce
      with Suc.IH [OF rest] Suc.prems None Inl show ?thesis
        unfolding split succeeds_at_Suc by (auto simp: succeeds_at_def [of env n k 0])
    next
      case (Inr res)
      obtain c tr' where commits: "commit_all_outputs env n = (c, tr')"
        by fastforce
      with commit_all_outputs_spec [OF commits] Suc.prems None Inr show ?thesis
        unfolding split succeeds_at_Suc by (cases c) (auto simp: ended_def succeeds_at_def [of env n k 0])
    qed
  qed
qed

lemma drive_stale_spec:
  "drive_stale n = (r, tr) \<Longrightarrow>
     run_node r = bn_id n \<and> run_state r = Completed \<and> runs_of tr = [] \<and> commits_of tr = [] \<and> aborts_of tr = bn_outputs n"
  by (auto simp: drive_stale_def Let_def)

lemma drive_node_spec:
  assumes "drive_node limit env n = (r, tr)"
  shows "run_node r = bn_id n \<and> run_state r \<in> {Completed, Failed, Aborted} \<and>
    length (runs_of tr) \<le> attempts_of limit n \<and>
    (run_state r = Completed \<and> \<not> bn_stale n \<longrightarrow> commits_of tr = bn_outputs n \<and> aborts_of tr = []) \<and>
    (run_state r \<noteq> Completed \<or> bn_stale n \<longrightarrow> aborts_of tr = bn_outputs n) \<and>
    (run_state r = Completed \<longleftrightarrow> bn_stale n \<or> (\<exists>j < attempts_of limit n. succeeds_at env n 1 j))"
proof (cases "bn_stale n")
  case True
  with assms drive_stale_spec [of n r tr] show ?thesis
    by (simp add: drive_node_def)
next
  case False
  obtain r' tr' where rest: "drive_attempts env n (attempts_of limit n) (attempts_of limit n) 1 None = (r', tr')"
    by fastforce
  with False assms drive_attempts_spec [OF rest] show ?thesis
    by (auto simp: drive_node_def)
qed

end
