(* ===== verification/Build_Executor_Scheduler.thy ===== *)
theory Build_Executor_Scheduler
  imports Build_Executor_Proofs
begin

text \<open>
  The scheduler of the build executor: the cascade finds exactly the nodes that depend on a failed one, an invariant
  of the reachable states, termination, and the outcome of a build in terms of its graph.
\<close>

section \<open>The cascade\<close>

lemma dependents_of_iff:
  assumes "distinct (map bn_id nodes)" "d \<in> set (map bn_id nodes)"
  shows "i \<in> set (dependents_of nodes d) \<longleftrightarrow> (i, d) \<in> dep_edges nodes"
proof
  assume "i \<in> set (dependents_of nodes d)"
  then obtain n where n: "n \<in> set nodes" "bn_id n = i" "d \<in> set (bn_deps n)"
    by (auto simp: dependents_of_def)
  with assms deps_of_in [OF assms(1) n(1)] show "(i, d) \<in> dep_edges nodes"
    by (auto simp: dep_edges_def)
next
  assume e: "(i, d) \<in> dep_edges nodes"
  then obtain n where n: "n \<in> set nodes" "bn_id n = i"
    by (auto simp: dep_edges_def)
  with e deps_of_in [OF assms(1) n(1)] show "i \<in> set (dependents_of nodes d)"
    by (auto simp: dependents_of_def dep_edges_def)
qed

text \<open>What is visited is what is found; only the stack may have unvisited dependents.\<close>

lemma cascade_loop_spec:
  "distinct (map bn_id nodes) \<Longrightarrow> set found = set visited \<Longrightarrow> insert f (set visited) \<subseteq> set (map bn_id nodes) \<Longrightarrow>
      set stack \<subseteq> insert f (set visited) \<Longrightarrow> set visited \<subseteq> {i. (i, f) \<in> (dep_edges nodes)\<^sup>+} \<Longrightarrow>
      (\<forall>x \<in> insert f (set visited). x \<notin> set stack \<longrightarrow> (\<forall>i. (i, x) \<in> dep_edges nodes \<longrightarrow> i \<in> set visited)) \<Longrightarrow>
      set (cascade_loop nodes visited found stack) = {i. (i, f) \<in> (dep_edges nodes)\<^sup>+}"
proof (induction nodes visited found stack rule: cascade_loop.induct)
  case (1 nodes visited found)
  have "i \<in> set visited" if "(i, f) \<in> (dep_edges nodes)\<^sup>+" for i
    using that by (induction rule: converse_trancl_induct) (use "1.prems"(6) in auto)
  with 1 show ?case by auto
next
  case (2 nodes visited found j stack)
  obtain v fd s where push: "push_children (dependents_of nodes j) visited found stack = (v, fd, s)"
    using prod_cases3 by blast
  have v: "set v = set visited \<union> set (dependents_of nodes j)"
    and fd: "set fd = set found \<union> (set (dependents_of nodes j) - set visited)"
    and s: "set s = set stack \<union> (set (dependents_of nodes j) - set visited)"
    using push_children_spec [OF push] by auto
  have j: "j \<in> insert f (set visited)"
    using 2 by auto
  then have known: "j \<in> set (map bn_id nodes)"
    using 2 by auto
  have children: "i \<in> set (dependents_of nodes j) \<longleftrightarrow> (i, j) \<in> dep_edges nodes" for i
    using dependents_of_iff [OF "2.prems"(1) known] .
  have "(i, f) \<in> (dep_edges nodes)\<^sup>+" if "i \<in> set (dependents_of nodes j)" for i
    using that j children "2.prems"(5) by (auto intro: trancl_into_trancl2)
  then have sub: "set v \<subseteq> {i. (i, f) \<in> (dep_edges nodes)\<^sup>+}"
    using "2.prems"(5) by (auto simp: v)
  have closed: "\<forall>x \<in> insert f (set v). x \<notin> set s \<longrightarrow> (\<forall>i. (i, x) \<in> dep_edges nodes \<longrightarrow> i \<in> set v)"
  proof (intro ballI impI allI)
    fix x i assume x: "x \<in> insert f (set v)" "x \<notin> set s" and i: "(i, x) \<in> dep_edges nodes"
    show "i \<in> set v"
    proof (cases "x = j")
      case True
      with i children show ?thesis by (simp add: v)
    next
      case False
      with x have "x \<in> insert f (set visited)" "x \<notin> set (j # stack)"
        by (auto simp: v s)
      with "2.prems"(6) i show ?thesis by (auto simp: v)
    qed
  qed
  have "set fd = set v" "insert f (set v) \<subseteq> set (map bn_id nodes)" "set s \<subseteq> insert f (set v)"
    using "2.prems" dependents_of_known [of nodes j] by (auto simp: v fd s)
  from "2.IH" [OF push [symmetric] refl "2.prems"(1) this sub closed] push show ?case
    by simp
qed

lemma compute_cascade_spec:
  assumes "distinct (map bn_id nodes)" "f \<in> set (map bn_id nodes)" "compute_cascade nodes f policy done = (ds, is)"
  shows "set ds = {i. (i, f) \<in> (dep_edges nodes)\<^sup>+}"
    and "set is = (if policy = AllNonDependent then {i \<in> set (map bn_id nodes). i \<noteq> f \<and> i \<notin> set ds \<and> i \<notin> done} else {})"
  using cascade_loop_spec [OF assms(1), of "[]" "[]" f "[f]"] assms(2,3) by (auto simp: compute_cascade_def Let_def)

section \<open>The invariant\<close>

text \<open>
  The state map says where a node is: remaining nodes are waiting, nodes in flight are waiting or about to be
  aborted, and the terminal states are the three sets. No more nodes than allowed are in flight, and a node that was
  started has all its dependencies completed. After a failure no remaining node depends on the failed one (none
  remains at all under the strict policy), and without a cancellation a node is aborted only for a failure.
\<close>

definition exec_zones :: "'o build_node list \<Rightarrow> 'o exec_state \<Rightarrow> bool" where
  "exec_zones nodes st \<longleftrightarrow>
     distinct (xs_remaining st) \<and> distinct (xs_flight st) \<and>
     (\<forall>i \<in> set (xs_remaining st). xs_state st i = Waiting \<and> i \<notin> set (xs_flight st)) \<and>
     (\<forall>i \<in> set (xs_flight st). xs_state st i \<in> {Waiting, AbortPending}) \<and>
     (\<forall>i. i \<in> xs_completed st \<longleftrightarrow> xs_state st i = Completed) \<and>
     (\<forall>i. i \<in> xs_failed st \<longleftrightarrow> xs_state st i = Failed) \<and>
     (\<forall>i. i \<in> xs_aborted st \<longleftrightarrow> xs_state st i = Aborted) \<and>
     set (map bn_id nodes) =
       set (xs_remaining st) \<union> set (xs_flight st) \<union> xs_completed st \<union> xs_failed st \<union> xs_aborted st"

definition exec_started :: "'o build_node list \<Rightarrow> nat \<Rightarrow> 'o exec_state \<Rightarrow> bool" where
  "exec_started nodes bound st \<longleftrightarrow>
     length (xs_flight st) \<le> bound \<and>
     (\<forall>i \<in> set (xs_flight st) \<union> xs_completed st \<union> xs_failed st. set (deps_of nodes i) \<subseteq> xs_completed st)"

definition exec_cascaded :: "'o build_node list \<Rightarrow> abort_policy \<Rightarrow> 'o exec_state \<Rightarrow> bool" where
  "exec_cascaded nodes policy st \<longleftrightarrow>
     (\<forall>f \<in> xs_failed st. \<forall>i \<in> set (xs_remaining st). policy \<noteq> AllNonDependent \<and> (i, f) \<notin> (dep_edges nodes)\<^sup>+) \<and>
     (\<not> xs_cancelled st \<longrightarrow>
        (\<forall>i \<in> xs_aborted st. \<exists>f \<in> xs_failed st. policy = AllNonDependent \<or> (i, f) \<in> (dep_edges nodes)\<^sup>+))"

definition exec_inv :: "'o build_node list \<Rightarrow> nat \<Rightarrow> abort_policy \<Rightarrow> 'o exec_state \<Rightarrow> bool" where
  "exec_inv nodes bound policy st \<longleftrightarrow>
     exec_zones nodes st \<and> exec_started nodes bound st \<and> exec_cascaded nodes policy st"

text \<open>What aborting some remaining nodes does.\<close>

lemma abort_node_waiting:
  assumes "node_at nodes i = Some n" "xs_state st i = Waiting"
  shows "xs_state (abort_node nodes reason i st) = (xs_state st)(i := Aborted)"
    and "xs_aborted (abort_node nodes reason i st) = insert i (xs_aborted st)"
    and "xs_flight (abort_node nodes reason i st) = xs_flight st"
    and "xs_completed (abort_node nodes reason i st) = xs_completed st"
    and "xs_failed (abort_node nodes reason i st) = xs_failed st"
    and "xs_cancelled (abort_node nodes reason i st) = xs_cancelled st"
  using assms by (simp_all add: abort_node_def node_terminal_def Let_def)

lemma node_at_known: "i \<in> set (map bn_id nodes) \<Longrightarrow> \<exists>n. node_at nodes i = Some n"
  by (cases "node_at nodes i") (auto simp: node_at_def find_None_iff)

lemma abort_remaining_spec:
  fixes st :: "'o exec_state"
  defines "hit \<equiv> \<lambda>is. set is \<inter> set (xs_remaining st)"
  shows "\<forall>i \<in> set (xs_remaining st). xs_state st i = Waiting \<and> i \<in> set (map bn_id nodes) \<Longrightarrow>
    xs_remaining (abort_remaining nodes reason is st) = filter (\<lambda>i. i \<notin> set is) (xs_remaining st) \<and>
    xs_state (abort_remaining nodes reason is st) = (\<lambda>i. if i \<in> hit is then Aborted else xs_state st i) \<and>
    xs_aborted (abort_remaining nodes reason is st) = hit is \<union> xs_aborted st \<and>
    xs_flight (abort_remaining nodes reason is st) = xs_flight st \<and>
    xs_completed (abort_remaining nodes reason is st) = xs_completed st \<and>
    xs_failed (abort_remaining nodes reason is st) = xs_failed st \<and>
    xs_cancelled (abort_remaining nodes reason is st) = xs_cancelled st"
  unfolding hit_def
proof (induction "is" arbitrary: st)
  case Nil
  show ?case by simp
next
  case (Cons i "is")
  show ?case
  proof (cases "i \<in> set (xs_remaining st)")
    case True
    with Cons.prems obtain n where n: "node_at nodes i = Some n" "xs_state st i = Waiting"
      using node_at_known by blast
    let ?st = "(abort_node nodes reason i st)\<lparr>xs_remaining := remove_id i (xs_remaining st)\<rparr>"
    have "\<forall>j \<in> set (xs_remaining ?st). xs_state ?st j = Waiting \<and> j \<in> set (map bn_id nodes)"
      using Cons.prems by (simp add: remove_id_def abort_node_waiting [OF n])
    note IH = Cons.IH [OF this]
    show ?thesis
      using IH True abort_node_waiting [OF n, of reason]
      by (auto simp: remove_id_def fun_eq_iff conj_commute)
  next
    case False
    with Cons.IH [OF Cons.prems] show ?thesis
      by (auto intro: filter_cong)
  qed
qed

lemma zones_remaining:
  "exec_zones nodes st \<Longrightarrow> \<forall>i \<in> set (xs_remaining st). xs_state st i = Waiting \<and> i \<in> set (map bn_id nodes)"
  by (auto simp: exec_zones_def)

lemma exec_zones_abort: "exec_zones nodes st \<Longrightarrow> exec_zones nodes (abort_remaining nodes reason is st)"
proof -
  assume zones: "exec_zones nodes st"
  let ?st = "abort_remaining nodes reason is st"
  have eqs: "xs_remaining ?st = filter (\<lambda>i. i \<notin> set is) (xs_remaining st)"
      "xs_state ?st = (\<lambda>i. if i \<in> set is \<inter> set (xs_remaining st) then Aborted else xs_state st i)"
      "xs_aborted ?st = set is \<inter> set (xs_remaining st) \<union> xs_aborted st" "xs_flight ?st = xs_flight st"
      "xs_completed ?st = xs_completed st" "xs_failed ?st = xs_failed st"
    using abort_remaining_spec [OF zones_remaining [OF zones], of reason "is"] by simp_all
  show ?thesis
    using zones unfolding exec_zones_def eqs by (intro conjI; auto)
qed

lemma exec_started_abort:
  "exec_zones nodes st \<Longrightarrow> exec_started nodes bound st \<Longrightarrow> exec_started nodes bound (abort_remaining nodes reason is st)"
  using abort_remaining_spec [OF zones_remaining, of nodes st reason "is"] by (simp add: exec_started_def)

lemma exec_inv_start: "distinct (map bn_id nodes) \<Longrightarrow> exec_inv nodes bound policy (exec_start nodes)"
  by (simp add: exec_inv_def exec_zones_def exec_started_def exec_cascaded_def exec_start_def)

lemma exec_inv_head:
  assumes "exec_inv nodes bound policy st"
  shows "exec_inv nodes bound policy (pass_head nodes h st)"
proof (cases h)
  case True
  let ?st = "abort_remaining nodes cancelled_reason (xs_remaining st) st"
  have inv: "exec_zones nodes st" "exec_started nodes bound st"
    using assms by (simp_all add: exec_inv_def)
  note spec = abort_remaining_spec [OF zones_remaining [OF inv(1)], of cancelled_reason "xs_remaining st"]
  have zones: "exec_zones nodes ?st" and started: "exec_started nodes bound ?st"
    using inv by (simp_all add: exec_zones_abort exec_started_abort)
  have "exec_zones nodes (cancel_build nodes st)"
    using zones spec by (auto simp: exec_zones_def cancel_build_def Let_def)
  moreover have "exec_started nodes bound (cancel_build nodes st)"
    using started by (simp add: exec_started_def cancel_build_def Let_def)
  moreover have "exec_cascaded nodes policy (cancel_build nodes st)"
    using spec by (simp add: exec_cascaded_def cancel_build_def Let_def)
  ultimately show ?thesis
    using True by (simp add: exec_inv_def pass_head_def)
next
  case False
  with assms show ?thesis by (simp add: pass_head_def)
qed

lemma launch_loop_spec:
  "length (xs_flight st) \<le> bound \<Longrightarrow>
   \<exists>ls. set ls \<subseteq> set is \<and> (distinct is \<longrightarrow> distinct ls) \<and>
     xs_remaining (launch_loop bound c is st) = filter (\<lambda>i. i \<notin> set ls) (xs_remaining st) \<and>
     xs_flight (launch_loop bound c is st) = xs_flight st @ ls \<and> length (xs_flight st @ ls) \<le> bound \<and>
     xs_state (launch_loop bound c is st) = xs_state st \<and> xs_completed (launch_loop bound c is st) = xs_completed st \<and>
     xs_failed (launch_loop bound c is st) = xs_failed st \<and> xs_aborted (launch_loop bound c is st) = xs_aborted st \<and>
     (xs_cancelled st \<longrightarrow> xs_cancelled (launch_loop bound c is st)) \<and>
     (ls = [] \<and> is \<noteq> [] \<and> length (xs_flight st) < bound \<longrightarrow> xs_cancelled (launch_loop bound c is st))"
proof (induction bound c "is" st rule: launch_loop.induct)
  case (1 bound c st)
  then show ?case by (intro exI [of _ "[]"]) simp
next
  case (2 bound c i "is" st)
  let ?st = "st\<lparr>xs_remaining := remove_id i (xs_remaining st), xs_flight := xs_flight st @ [i]\<rparr>"
  show ?case
  proof (cases "c = Some 0 \<or> bound \<le> length (xs_flight st)")
    case True
    with 2 show ?thesis by (intro exI [of _ "[]"]) auto
  next
    case False
    then obtain ls where ls: "set ls \<subseteq> set is" "distinct is \<longrightarrow> distinct ls"
        "xs_remaining (launch_loop bound (map_option (\<lambda>k. k - 1) c) is ?st) = filter (\<lambda>i. i \<notin> set ls) (xs_remaining ?st)"
        "xs_flight (launch_loop bound (map_option (\<lambda>k. k - 1) c) is ?st) = xs_flight ?st @ ls"
        "length (xs_flight ?st @ ls) \<le> bound"
        "xs_state (launch_loop bound (map_option (\<lambda>k. k - 1) c) is ?st) = xs_state ?st"
        "xs_completed (launch_loop bound (map_option (\<lambda>k. k - 1) c) is ?st) = xs_completed ?st"
        "xs_failed (launch_loop bound (map_option (\<lambda>k. k - 1) c) is ?st) = xs_failed ?st"
        "xs_aborted (launch_loop bound (map_option (\<lambda>k. k - 1) c) is ?st) = xs_aborted ?st"
        "xs_cancelled ?st \<longrightarrow> xs_cancelled (launch_loop bound (map_option (\<lambda>k. k - 1) c) is ?st)"
      using 2(1) by (auto simp: not_le)
    have same: "launch_loop bound c (i # is) st = launch_loop bound (map_option (\<lambda>k. k - 1) c) is ?st"
      using False by simp
    show ?thesis
      unfolding same using ls by (intro exI [of _ "i # ls"]) (auto simp: remove_id_def)
  qed
qed

lemma ready_nodes_iff:
  "i \<in> set (ready_nodes nodes st) \<longleftrightarrow> i \<in> set (xs_remaining st) \<and> set (deps_of nodes i) \<subseteq> xs_completed st"
  by (auto simp: ready_nodes_def)

lemma exec_inv_launch:
  assumes inv: "exec_inv nodes bound policy st"
  shows "exec_inv nodes bound policy (pass_launch nodes bound c st)"
proof -
  have zones: "exec_zones nodes st" and started: "exec_started nodes bound st" and casc: "exec_cascaded nodes policy st"
    using inv by (simp_all add: exec_inv_def)
  have flight: "length (xs_flight st) \<le> bound"
    using started by (simp add: exec_started_def)
  have "distinct (ready_nodes nodes st)"
    using zones by (simp add: ready_nodes_def exec_zones_def)
  then obtain ls where ls: "set ls \<subseteq> set (ready_nodes nodes st)" "distinct ls"
      "xs_remaining (pass_launch nodes bound c st) = filter (\<lambda>i. i \<notin> set ls) (xs_remaining st)"
      "xs_flight (pass_launch nodes bound c st) = xs_flight st @ ls" "length (xs_flight st @ ls) \<le> bound"
      "xs_state (pass_launch nodes bound c st) = xs_state st"
      "xs_completed (pass_launch nodes bound c st) = xs_completed st"
      "xs_failed (pass_launch nodes bound c st) = xs_failed st"
      "xs_aborted (pass_launch nodes bound c st) = xs_aborted st"
      "xs_cancelled st \<longrightarrow> xs_cancelled (pass_launch nodes bound c st)"
    using launch_loop_spec [OF flight, of "ready_nodes nodes st" c] unfolding pass_launch_def by blast
  have ready: "i \<in> set (xs_remaining st)" "set (deps_of nodes i) \<subseteq> xs_completed st" if "i \<in> set ls" for i
    using subsetD [OF ls(1) that] by (simp_all add: ready_nodes_iff)
  have "exec_zones nodes (pass_launch nodes bound c st)"
    using zones ready(1) ls(2) unfolding exec_zones_def ls(3,4,6-9) by (intro conjI; auto)
  moreover have "exec_started nodes bound (pass_launch nodes bound c st)"
    using started ready(2) ls(5) unfolding exec_started_def ls(3,4,6-9) by auto
  moreover have "exec_cascaded nodes policy (pass_launch nodes bound c st)"
    using casc ls(10) unfolding exec_cascaded_def ls(3,4,6-9) by auto
  ultimately show ?thesis
    by (simp add: exec_inv_def)
qed

text \<open>The state after a result was taken, before the cascade.\<close>

lemma exec_inv_settle:
  assumes inv: "exec_zones nodes st" "exec_started nodes bound st" and i: "i \<in> set (xs_flight st)"
    and st': "xs_remaining st' = xs_remaining st" "xs_flight st' = remove_id i (xs_flight st)"
      "xs_state st' = (xs_state st)(i := s)" "s \<in> {Completed, Failed, Aborted}"
      "xs_completed st' = (if s = Completed then insert i (xs_completed st) else xs_completed st)"
      "xs_failed st' = (if s = Failed then insert i (xs_failed st) else xs_failed st)"
      "xs_aborted st' = (if s = Aborted then insert i (xs_aborted st) else xs_aborted st)"
  shows "exec_zones nodes st' \<and> exec_started nodes bound st'"
proof
  have state: "xs_state st i \<in> {Waiting, AbortPending}" and out: "i \<notin> set (xs_remaining st)"
    using inv(1) i by (auto simp: exec_zones_def)
  then have new: "i \<notin> xs_completed st" "i \<notin> xs_failed st" "i \<notin> xs_aborted st"
    using inv(1) by (auto simp: exec_zones_def)
  show "exec_zones nodes st'"
    using inv(1) i st'(4) state out new unfolding exec_zones_def st'(1-3,5-7) remove_id_def
    by (intro conjI; auto split: if_splits)
  show "exec_started nodes bound st'"
    using inv(2) i st'(4) unfolding exec_started_def st'(1-3,5-7)
    by (auto simp: remove_id_def intro: le_trans [OF length_filter_le])
qed

lemma exec_inv_receive:
  assumes inv: "exec_inv nodes bound policy st" and dist: "distinct (map bn_id nodes)"
    and i: "i \<in> set (xs_flight st)" and r: "run_node r = i" "run_state r \<in> {Completed, Failed, Aborted}"
    and c: "xs_cancelled st \<or> run_state r = Aborted \<longrightarrow> c"
  shows "exec_inv nodes bound policy ((receive nodes policy (r, tr) st)\<lparr>xs_cancelled := c\<rparr>)"
    (is "exec_inv _ _ _ (?st\<lparr>xs_cancelled := c\<rparr>)")
proof -
  have zones: "exec_zones nodes st" and started: "exec_started nodes bound st" and casc: "exec_cascaded nodes policy st"
    using inv by (simp_all add: exec_inv_def)
  have transfer: "exec_inv nodes bound policy (st'\<lparr>xs_cancelled := c\<rparr>)"
    if "exec_zones nodes st' \<and> exec_started nodes bound st'" "exec_cascaded nodes policy (st'\<lparr>xs_cancelled := c\<rparr>)" for st'
    using that by (simp add: exec_inv_def exec_zones_def exec_started_def)
  define st1 where "st1 = st\<lparr>xs_flight := remove_id i (xs_flight st), xs_attempts := (xs_attempts st)(i \<mapsto> run_attempts r),
      xs_reasons := (if run_reason r = [] then xs_reasons st else (xs_reasons st)(i \<mapsto> run_reason r)),
      xs_results := (xs_results st)(i \<mapsto> run_result r), xs_state := (xs_state st)(i := run_state r),
      xs_trace := xs_trace st @ tr\<rparr>"
  have st1: "xs_remaining st1 = xs_remaining st" "xs_flight st1 = remove_id i (xs_flight st)"
      "xs_state st1 = (xs_state st)(i := run_state r)" "xs_completed st1 = xs_completed st"
      "xs_failed st1 = xs_failed st" "xs_aborted st1 = xs_aborted st" "xs_cancelled st1 = xs_cancelled st"
    by (simp_all add: st1_def)
  consider "run_state r = Completed" | "run_state r = Failed" | "run_state r = Aborted"
    using r(2) by auto
  then show ?thesis
  proof cases
    case 1
    then have "?st = st1\<lparr>xs_completed := insert i (xs_completed st1)\<rparr>"
      by (simp add: receive_def st1_def r(1) Let_def)
    moreover have "exec_cascaded nodes policy (st1\<lparr>xs_completed := insert i (xs_completed st1), xs_cancelled := c\<rparr>)"
      using casc c by (auto simp: exec_cascaded_def st1)
    ultimately show ?thesis
      using exec_inv_settle [OF zones started i, of ?st "run_state r"] 1 r(2) st1 by (intro transfer) simp_all
  next
    case 3
    then have "?st = st1\<lparr>xs_aborted := insert i (xs_aborted st1)\<rparr>"
      by (simp add: receive_def st1_def r(1) Let_def)
    moreover have "exec_cascaded nodes policy (st1\<lparr>xs_aborted := insert i (xs_aborted st1), xs_cancelled := c\<rparr>)"
      using casc c 3 by (auto simp: exec_cascaded_def st1)
    ultimately show ?thesis
      using exec_inv_settle [OF zones started i, of ?st "run_state r"] 3 r(2) st1 by (intro transfer) simp_all
  next
    case 2
    let ?st2 = "st1\<lparr>xs_failed := insert i (xs_failed st1)\<rparr>"
    have inv2: "exec_zones nodes ?st2 \<and> exec_started nodes bound ?st2"
      using exec_inv_settle [OF zones started i, of ?st2 "run_state r"] 2 r(2) st1 by simp
    obtain ds ind where cas: "compute_cascade nodes i policy (xs_completed st) = (ds, ind)"
      by fastforce
    have known: "i \<in> set (map bn_id nodes)"
      using zones i by (auto simp: exec_zones_def)
    note cascade = compute_cascade_spec [OF dist known cas]
    let ?st3 = "abort_remaining nodes dependency_failed ds ?st2"
    let ?st4 = "abort_remaining nodes independent_reason ind ?st3"
    have st: "?st = ?st4"
      using 2 cas by (simp add: receive_def st1_def r(1) Let_def)
    note spec3 = abort_remaining_spec [OF zones_remaining [OF conjunct1 [OF inv2]], of dependency_failed ds]
    have zones3: "exec_zones nodes ?st3"
      using inv2 exec_zones_abort by blast
    note spec4 = abort_remaining_spec [OF zones_remaining [OF zones3], of independent_reason ind]
    have "exec_zones nodes ?st4 \<and> exec_started nodes bound ?st4"
      using inv2 zones3 exec_zones_abort exec_started_abort by blast
    moreover have "exec_cascaded nodes policy (?st4\<lparr>xs_cancelled := c\<rparr>)"
    proof -
      have eqs: "xs_remaining ?st4 = filter (\<lambda>j. j \<notin> set ind) (filter (\<lambda>j. j \<notin> set ds) (xs_remaining st))"
          "xs_failed ?st4 = insert i (xs_failed st)"
          "xs_aborted ?st4 = set ind \<inter> (set (xs_remaining st) - set ds) \<union> (set ds \<inter> set (xs_remaining st) \<union> xs_aborted st)"
        using spec3 spec4 st1 by auto
      have rem: "j \<in> set (map bn_id nodes)" "j \<noteq> i" "j \<notin> xs_completed st" if "j \<in> set (xs_remaining st)" for j
        using that zones i by (auto simp: exec_zones_def)
      show ?thesis
        unfolding exec_cascaded_def
      proof (intro conjI)
        show "\<forall>f \<in> xs_failed (?st4\<lparr>xs_cancelled := c\<rparr>). \<forall>j \<in> set (xs_remaining (?st4\<lparr>xs_cancelled := c\<rparr>)).
            policy \<noteq> AllNonDependent \<and> (j, f) \<notin> (dep_edges nodes)\<^sup>+"
          using casc cascade rem by (auto simp: eqs exec_cascaded_def split: if_splits)
        show "\<not> xs_cancelled (?st4\<lparr>xs_cancelled := c\<rparr>) \<longrightarrow> (\<forall>j \<in> xs_aborted (?st4\<lparr>xs_cancelled := c\<rparr>).
            \<exists>f \<in> xs_failed (?st4\<lparr>xs_cancelled := c\<rparr>). policy = AllNonDependent \<or> (j, f) \<in> (dep_edges nodes)\<^sup>+)"
          using casc cascade c by (auto simp: eqs exec_cascaded_def split: if_splits)
      qed
    qed
    ultimately show ?thesis
      unfolding st by (rule transfer)
  qed
qed

section \<open>Steps\<close>

text \<open>Without a cancellation the loop is never left with nodes remaining: an acyclic graph has a ready node.\<close>

lemma stuck_remaining:
  assumes inv: "exec_inv nodes bound policy st" and acyclic: "acyclic (dep_edges nodes)"
    and known: "\<And>i. set (deps_of nodes i) \<subseteq> set (map bn_id nodes)"
    and stuck: "stuck nodes st" and live: "\<not> xs_cancelled st"
  shows "xs_remaining st = []"
proof (rule ccontr)
  assume "xs_remaining st \<noteq> []"
  have finite: "finite (dep_edges nodes)"
    by (rule finite_subset [of _ "set (map bn_id nodes) \<times> set (map bn_id nodes)"]) (auto simp: dep_edges_def)
  then have "wf ((dep_edges nodes)\<inverse>)"
    using acyclic by (intro finite_acyclic_wf_converse)
  then obtain i where i: "i \<in> set (xs_remaining st)"
    and min: "\<And>j. (j, i) \<in> (dep_edges nodes)\<inverse> \<Longrightarrow> j \<notin> set (xs_remaining st)"
    using \<open>xs_remaining st \<noteq> []\<close> by (metis wfE_min set_empty ex_in_conv)
  have flight: "xs_flight st = []" and not_ready: "\<not> set (deps_of nodes i) \<subseteq> xs_completed st"
    using stuck i ready_nodes_iff [of i nodes st] by (auto simp: stuck_def)
  then obtain d where d: "d \<in> set (deps_of nodes i)" "d \<notin> xs_completed st"
    by blast
  have zones: "exec_zones nodes st" and casc: "exec_cascaded nodes policy st"
    using inv by (simp_all add: exec_inv_def)
  have "i \<in> set (map bn_id nodes)"
    using zones i by (auto simp: exec_zones_def)
  with d known have edge: "(i, d) \<in> dep_edges nodes"
    by (auto simp: dep_edges_def)
  then have "d \<notin> set (xs_remaining st)"
    using min by blast
  moreover have "d \<notin> xs_failed st"
    using casc i edge by (auto simp: exec_cascaded_def)
  moreover have "d \<notin> xs_aborted st"
  proof
    assume "d \<in> xs_aborted st"
    then obtain f where f: "f \<in> xs_failed st" "policy = AllNonDependent \<or> (d, f) \<in> (dep_edges nodes)\<^sup>+"
      using casc live by (auto simp: exec_cascaded_def)
    with edge have "policy = AllNonDependent \<or> (i, f) \<in> (dep_edges nodes)\<^sup>+"
      by (auto intro: trancl_into_trancl2)
    with casc f(1) i show False
      by (auto simp: exec_cascaded_def)
  qed
  moreover have "d \<in> set (map bn_id nodes)"
    using d known by blast
  ultimately show False
    using zones d(2) flight by (auto simp: exec_zones_def)
qed

definition graph_ok :: "'o build_node list \<Rightarrow> bool" where
  "graph_ok nodes \<longleftrightarrow>
     distinct (map bn_id nodes) \<and> acyclic (dep_edges nodes) \<and> (\<forall>i. set (deps_of nodes i) \<subseteq> set (map bn_id nodes))"

lemma exec_inv_break:
  assumes inv: "exec_inv nodes bound policy st" and ok: "graph_ok nodes" and stuck: "stuck nodes st"
  shows "exec_inv nodes bound policy (abort_remaining nodes dependency_failed (xs_remaining st) st)"
proof -
  have zones: "exec_zones nodes st" "exec_started nodes bound st" and casc: "exec_cascaded nodes policy st"
    using inv by (simp_all add: exec_inv_def)
  note spec = abort_remaining_spec [OF zones_remaining [OF zones(1)], of dependency_failed "xs_remaining st"]
  have "xs_remaining st = []" if "\<not> xs_cancelled st"
    using stuck_remaining [OF inv _ _ stuck that] ok by (auto simp: graph_ok_def)
  then have "exec_cascaded nodes policy (abort_remaining nodes dependency_failed (xs_remaining st) st)"
    using casc spec by (auto simp: exec_cascaded_def)
  then show ?thesis
    using exec_zones_abort [OF zones(1)] exec_started_abort [OF zones] by (simp add: exec_inv_def)
qed

lemma exec_inv_step:
  "exec_step nodes bound limit policy st st' \<Longrightarrow> graph_ok nodes \<Longrightarrow> exec_inv nodes bound policy st \<Longrightarrow>
     exec_inv nodes bound policy st'"
proof (induction rule: exec_step.induct)
  case (exec_break st h st1)
  then show ?case
    using exec_inv_head exec_inv_break by blast
next
  case (exec_idle st h st1 st2 c)
  then show ?case
    using exec_inv_head exec_inv_launch by blast
next
  case (exec_receive st h st1 st2 cancel_at i n r env c st3)
  have inv: "exec_inv nodes bound policy st2"
    using exec_receive exec_inv_head exec_inv_launch by blast
  obtain run tr where run: "drive_node limit env n = (run, tr)"
    by fastforce
  have "run_node run = i" "run_state run \<in> {Completed, Failed, Aborted}"
    using drive_node_spec [OF run] node_at_Some exec_receive.hyps(7) by auto
  moreover have "xs_cancelled st2 \<or> run_state run = Aborted \<longrightarrow> c"
    using exec_receive.hyps(8,9) run by simp
  ultimately show ?case
    using exec_inv_receive [OF inv _ exec_receive.hyps(6)] exec_receive.prems(1) exec_receive.hyps(8,10) run
    by (simp add: graph_ok_def)
qed

lemma reachable_inv:
  "exec_reachable nodes bound limit policy st \<Longrightarrow> graph_ok nodes \<Longrightarrow> exec_inv nodes bound policy st"
  by (induction rule: exec_reachable.induct) (auto intro: exec_inv_start exec_inv_step simp: graph_ok_def)

text \<open>Every pass through the loop takes a node out, or notices the cancellation.\<close>

definition exec_measure :: "'o exec_state \<Rightarrow> nat" where
  "exec_measure st = 2 * (length (xs_remaining st) + length (xs_flight st)) + (if xs_cancelled st then 0 else 1)"

lemma abort_remaining_length: "length (xs_remaining (abort_remaining nodes reason is st)) \<le> length (xs_remaining st)"
proof (induction nodes reason "is" st rule: abort_remaining.induct)
  case (2 nodes reason i "is" st)
  then show ?case
    by (auto simp: remove_id_def intro: le_trans [OF _ length_filter_le])
qed simp

lemma abort_node_fields [simp]:
  "xs_flight (abort_node nodes reason i st) = xs_flight st" "xs_cancelled (abort_node nodes reason i st) = xs_cancelled st"
  "xs_remaining (abort_node nodes reason i st) = xs_remaining st"
  by (simp_all add: abort_node_def Let_def split: option.split)

lemma abort_remaining_fields [simp]:
  "xs_flight (abort_remaining nodes reason is st) = xs_flight st"
  "xs_cancelled (abort_remaining nodes reason is st) = xs_cancelled st"
  by (induction nodes reason "is" st rule: abort_remaining.induct) simp_all

lemma abort_all_remaining: "xs_remaining (abort_remaining nodes reason (xs_remaining st) st) = []"
proof -
  have "xs_remaining (abort_remaining nodes reason is st) = []" if "set (xs_remaining st) \<subseteq> set is" for "is"
    using that
  proof (induction nodes reason "is" st rule: abort_remaining.induct)
    case (2 nodes reason i "is" st)
    have "set (xs_remaining (if i \<in> set (xs_remaining st)
        then (abort_node nodes reason i st)\<lparr>xs_remaining := remove_id i (xs_remaining st)\<rparr> else st)) \<subseteq> set is"
      using 2(2) by (auto simp: remove_id_def)
    from 2(1) [OF this] show ?case by simp
  qed simp
  then show ?thesis by blast
qed

lemma pass_head_fields:
  "xs_flight (pass_head nodes h st) = xs_flight st"
  "length (xs_remaining (pass_head nodes h st)) \<le> length (xs_remaining st)"
  "xs_cancelled (pass_head nodes h st) \<longleftrightarrow> xs_cancelled st \<or> h"
  "h \<Longrightarrow> xs_remaining (pass_head nodes h st) = []"
  using abort_remaining_length
  by (auto simp: pass_head_def cancel_build_def Let_def abort_all_remaining)

lemma pass_launch_fields:
  assumes "length (xs_flight st) \<le> bound" "distinct (xs_remaining st)"
  shows "length (xs_remaining (pass_launch nodes bound c st)) + length (xs_flight (pass_launch nodes bound c st)) =
      length (xs_remaining st) + length (xs_flight st)"
    and "xs_cancelled st \<Longrightarrow> xs_cancelled (pass_launch nodes bound c st)"
    and "xs_flight (pass_launch nodes bound c st) = [] \<Longrightarrow> ready_nodes nodes st \<noteq> [] \<Longrightarrow> 0 < bound \<Longrightarrow>
      xs_cancelled (pass_launch nodes bound c st)"
proof -
  obtain ls where ls: "set ls \<subseteq> set (ready_nodes nodes st)" "distinct ls"
      "xs_remaining (pass_launch nodes bound c st) = filter (\<lambda>i. i \<notin> set ls) (xs_remaining st)"
      "xs_flight (pass_launch nodes bound c st) = xs_flight st @ ls"
      "xs_cancelled st \<longrightarrow> xs_cancelled (pass_launch nodes bound c st)"
      "ls = [] \<and> ready_nodes nodes st \<noteq> [] \<and> length (xs_flight st) < bound \<longrightarrow>
         xs_cancelled (pass_launch nodes bound c st)"
    using launch_loop_spec [OF assms(1), of "ready_nodes nodes st" c] assms(2)
    unfolding pass_launch_def by (auto simp: ready_nodes_def)
  have "set ls \<subseteq> set (xs_remaining st)"
    using ls(1) by (auto simp: ready_nodes_iff)
  then have "length (filter (\<lambda>i. i \<in> set ls) (xs_remaining st)) = length ls"
    using ls(2) assms(2) by (metis distinct_card distinct_filter inf.absorb_iff2 inter_set_filter set_filter Int_commute)
  then show "length (xs_remaining (pass_launch nodes bound c st)) + length (xs_flight (pass_launch nodes bound c st)) =
      length (xs_remaining st) + length (xs_flight st)"
    using sum_length_filter_compl [of "\<lambda>i. i \<in> set ls" "xs_remaining st"] by (simp add: ls(3,4))
  show "xs_cancelled st \<Longrightarrow> xs_cancelled (pass_launch nodes bound c st)"
    using ls(5) by blast
  show "xs_flight (pass_launch nodes bound c st) = [] \<Longrightarrow> ready_nodes nodes st \<noteq> [] \<Longrightarrow> 0 < bound \<Longrightarrow>
      xs_cancelled (pass_launch nodes bound c st)"
    using ls(4,6) by simp
qed

lemma receive_fields:
  assumes "run_node r = i"
  shows "xs_flight (receive nodes policy (r, tr) st) = remove_id i (xs_flight st)"
    and "length (xs_remaining (receive nodes policy (r, tr) st)) \<le> length (xs_remaining st)"
  using assms by (auto simp: receive_def Let_def split: prod.split intro!: le_trans [OF abort_remaining_length])

lemma exec_step_measure:
  assumes step: "exec_step nodes bound limit policy st st'" and inv: "exec_inv nodes bound policy st" and bound: "0 < bound"
  shows "exec_measure st' < exec_measure st"
  using step
proof cases
  case (exec_break h st1)
  have "xs_flight st = []"
    using exec_break(4,5) pass_head_fields(1) [of nodes h st] by (simp add: stuck_def)
  moreover from this have "xs_remaining st \<noteq> []"
    using exec_break(2) by (simp add: exec_done_def)
  ultimately show ?thesis
    using exec_break by (cases "xs_remaining st") (simp_all add: exec_measure_def abort_all_remaining pass_head_fields)
next
  case (exec_idle h st1 c)
  have inv1: "exec_inv nodes bound policy st1"
    using exec_idle exec_inv_head [OF inv] by blast
  then have pre: "length (xs_flight st1) \<le> bound" "distinct (xs_remaining st1)"
    by (auto simp: exec_inv_def exec_started_def exec_zones_def)
  note launch = pass_launch_fields [OF pre, where nodes = nodes and c = c]
  have "length (xs_flight st1) = 0"
    using launch_loop_spec [OF pre(1), of "ready_nodes nodes st1" c] exec_idle unfolding pass_launch_def by auto
  then have ready: "ready_nodes nodes st1 \<noteq> []"
    using exec_idle by (auto simp: stuck_def)
  then have "\<not> h"
    using pass_head_fields(4) [of h nodes st] exec_idle(3) by (auto simp: ready_nodes_def)
  then have "st1 = st" "\<not> xs_cancelled st" "xs_cancelled st'"
    using exec_idle launch(3) ready bound by (auto simp: pass_head_def)
  with launch(1) exec_idle show ?thesis
    by (simp add: exec_measure_def)
next
  case (exec_receive h st1 st2 c i n r env d)
  have inv1: "exec_inv nodes bound policy st1"
    using exec_receive exec_inv_head [OF inv] by blast
  then have pre: "length (xs_flight st1) \<le> bound" "distinct (xs_remaining st1)"
    by (auto simp: exec_inv_def exec_started_def exec_zones_def)
  note launch = pass_launch_fields [OF pre, where nodes = nodes and c = c]
  have sum: "length (xs_remaining st2) + length (xs_flight st2) \<le> length (xs_remaining st) + length (xs_flight st)"
    using launch(1) exec_receive pass_head_fields(1,2) [of nodes h st] by simp
  obtain run tr where r: "r = (run, tr)" by fastforce
  have run: "run_node run = i"
    using exec_receive r drive_node_spec [of limit env n run tr] node_at_Some by metis
  have "length (remove_id i (xs_flight st2)) < length (xs_flight st2)"
    using \<open>i \<in> set (xs_flight st2)\<close> length_filter_less [of i "xs_flight st2" "\<lambda>x. x \<noteq> i"]
    by (simp add: remove_id_def)
  then have "length (xs_remaining st') + length (xs_flight st') < length (xs_remaining st) + length (xs_flight st)"
    using receive_fields [OF run, of nodes policy tr st2] exec_receive r sum by simp
  moreover have "xs_cancelled st \<longrightarrow> xs_cancelled st'"
    using exec_receive launch(2) pass_head_fields(3) [of nodes h st] by auto
  ultimately show ?thesis
    by (simp add: exec_measure_def)
qed

lemma exec_progress:
  assumes inv: "exec_inv nodes bound policy st" and live: "\<not> exec_done st"
  shows "\<exists>st'. exec_step nodes bound limit policy st st'"
proof -
  let ?st1 = "pass_head nodes (xs_cancelled st) st"
  let ?st2 = "pass_launch nodes bound None ?st1"
  consider "stuck nodes ?st1" | "\<not> stuck nodes ?st1" "xs_flight ?st2 = []"
    | i where "\<not> stuck nodes ?st1" "i \<in> set (xs_flight ?st2)"
    by (metis ex_in_conv set_empty)
  then show ?thesis
  proof cases
    case 1
    then show ?thesis using exec_step.exec_break [OF live _ refl] by blast
  next
    case 2
    then show ?thesis using exec_step.exec_idle [OF live _ refl _ refl] by blast
  next
    case (3 i)
    have "exec_inv nodes bound policy ?st2"
      using exec_inv_head [OF inv] exec_inv_launch by blast
    then have "i \<in> set (map bn_id nodes)"
      using 3 by (auto simp: exec_inv_def exec_zones_def)
    then obtain n where "node_at nodes i = Some n"
      using node_at_known by blast
    then have "exec_step nodes bound limit policy st
        ((receive nodes policy (drive_node limit env n) ?st2)\<lparr>xs_cancelled := True\<rparr>)" for env
      using 3 by (intro exec_step.exec_receive [OF live _ refl _ refl _ _ refl _ refl]) simp_all
    then show ?thesis by blast
  qed
qed

lemma graph_ok_graph_nodes:
  assumes "new_execution_graph p = Inr nodes"
  shows "graph_ok nodes" "0 < plan_bound p" "nodes = graph_nodes p" "plan_ok p"
proof -
  have ok: "plan_ok p" and nodes: "nodes = graph_nodes p"
    using new_execution_graph_core [of p nodes] assms by auto
  have dist: "distinct (map bn_id nodes)"
    using ok by (simp add: nodes graph_nodes_def distinct_map_sort_key comp_def plan_ok_def)
  have ids: "bn_id ` set nodes = bn_id ` set (bp_nodes p)"
    by (simp add: nodes set_graph_nodes image_image)
  have deps: "\<forall>n \<in> set nodes. set (bn_deps n) \<subseteq> bn_id ` set nodes"
    unfolding ids using ok by (auto simp: nodes set_graph_nodes plan_ok_def)
  have "dep_edges nodes = plan_edges (bp_nodes p)"
    using dep_edges_plan_edges [OF dist deps] by (simp add: nodes plan_edges_graph_nodes)
  moreover have "set (deps_of nodes i) \<subseteq> set (map bn_id nodes)" for i
    using deps node_at_Some [of nodes i] by (auto simp: deps_of_def split: option.splits)
  ultimately show "graph_ok nodes"
    using ok dist by (simp add: graph_ok_def plan_ok_def)
  show "0 < plan_bound p" "nodes = graph_nodes p" "plan_ok p"
    using ok nodes by (simp_all add: plan_bound_def)
qed

end
