(* ===== verification/Build_Executor_Properties.thy ===== *)
theory Build_Executor_Properties
  imports Build_Executor_Scheduler
begin

text \<open>The properties of the build executor, and a build in which a node fails and its dependent is aborted.\<close>

section \<open>Plans and nodes\<close>

text \<open>
  C23. The executor accepts a plan exactly when the node ids are present and distinct, every dependency is a node of
  the plan and the dependencies are acyclic; it then works on the nodes in the order of their ids. A refusal for a
  cycle shows a cycle of the plan: a list of nodes that starts and ends with the same node and follows dependencies.
\<close>

theorem execution_graph_accepts:
  "case new_execution_graph p of
     Inr nodes \<Rightarrow> plan_ok p \<and> nodes = graph_nodes p
   | Inl (CycleDetected c) \<Rightarrow> \<not> plan_ok p \<and> is_cycle (plan_edges (bp_nodes p)) c
   | Inl _ \<Rightarrow> \<not> plan_ok p"
proof (cases "new_execution_graph p")
  case (Inl e)
  then have "\<not> plan_ok p"
    using new_execution_graph_core [of p "graph_nodes p"] by auto
  moreover have "e = CycleDetected c \<Longrightarrow> is_cycle (plan_edges (bp_nodes p)) c" for c
    using new_execution_graph_core [of p _ c] Inl by auto
  ultimately show ?thesis
    using Inl by (cases e) auto
next
  case (Inr nodes)
  with new_execution_graph_core [of p nodes] show ?thesis by auto
qed

text \<open>
  C24. A node is all or nothing. It completes exactly when it is fresh, or some allowed attempt succeeds (every earlier
  one failed, the context was not cancelled) and every commit succeeds. When it completes after running, its outputs
  are committed once each, in order, and none is aborted; in every other case (failure, cancellation, a commit that
  fails after others succeeded, a fresh node) every output is told to abort. The runner is called at most as often as
  the plan allows.
\<close>

theorem node_all_or_nothing:
  "run_node (fst (drive_node limit env n)) = bn_id n \<and>
   (run_state (fst (drive_node limit env n)) = Completed \<longleftrightarrow>
      bn_stale n \<or> (\<exists>j < attempts_of limit n. succeeds_at env n 1 j)) \<and>
   (if run_state (fst (drive_node limit env n)) = Completed \<and> \<not> bn_stale n
    then commits_of (snd (drive_node limit env n)) = bn_outputs n \<and> aborts_of (snd (drive_node limit env n)) = []
    else aborts_of (snd (drive_node limit env n)) = bn_outputs n) \<and>
   length (runs_of (snd (drive_node limit env n))) \<le> attempts_of limit n"
  using drive_node_spec [of limit env n] by (cases "drive_node limit env n") auto

section \<open>The scheduler\<close>

text \<open>
  C25. At every moment of a build no more nodes are in flight than the parallelism allows (four when the plan gives
  none), and a node was started only after all its dependencies completed: this holds of every node in flight,
  completed or failed.
\<close>

theorem executor_starts_in_order:
  assumes "new_execution_graph p = Inr nodes"
    and "exec_reachable nodes (plan_bound p) (plan_limit p) (plan_policy p) st"
  shows "length (xs_flight st) \<le> plan_bound p \<and>
    (\<forall>i \<in> set (xs_flight st) \<union> xs_completed st \<union> xs_failed st. set (deps_of nodes i) \<subseteq> xs_completed st)"
  using reachable_inv [OF assms(2) graph_ok_graph_nodes(1) [OF assms(1)]] by (simp add: exec_inv_def exec_started_def)

lemma steps_inv:
  assumes ok: "graph_ok nodes" and bound: "0 < bound"
  shows "(exec_step nodes bound limit policy ^^ k) (exec_start nodes) st \<Longrightarrow>
     exec_inv nodes bound policy st \<and> exec_measure st + k \<le> 2 * length nodes + 1"
proof (induction k arbitrary: st)
  case 0
  then show ?case
    using exec_inv_start ok by (auto simp: exec_measure_def exec_start_def graph_ok_def)
next
  case (Suc k)
  then obtain st1 where st1: "(exec_step nodes bound limit policy ^^ k) (exec_start nodes) st1"
    "exec_step nodes bound limit policy st1 st"
    by auto
  with Suc.IH [OF st1(1)] exec_inv_step [OF st1(2) ok] exec_step_measure [OF st1(2) _ bound] show ?case
    by fastforce
qed

text \<open>
  C26. A build ends, whatever fails and whenever it is cancelled: a run of the loop has at most twice as many passes as
  the plan has nodes, and one more; and as long as a node remains or is in flight there is a next pass (a node in
  flight answers).
\<close>

theorem executor_ends:
  assumes "new_execution_graph p = Inr nodes"
    and "(exec_step nodes (plan_bound p) (plan_limit p) (plan_policy p) ^^ k) (exec_start nodes) st"
  shows "k \<le> 2 * length nodes + 1 \<and>
    (exec_done st \<or> (\<exists>st'. exec_step nodes (plan_bound p) (plan_limit p) (plan_policy p) st st'))"
  using steps_inv [OF graph_ok_graph_nodes(1,2) [OF assms(1)] assms(2)] exec_progress [of nodes "plan_bound p"]
  by auto

lemma dep_edges_graph_nodes:
  assumes "new_execution_graph p = Inr nodes"
  shows "dep_edges nodes = plan_edges nodes"
proof (rule dep_edges_plan_edges)
  note ok = graph_ok_graph_nodes [OF assms]
  show "distinct (map bn_id nodes)"
    using ok(1) by (simp add: graph_ok_def)
  show "\<forall>n \<in> set nodes. set (bn_deps n) \<subseteq> bn_id ` set nodes"
  proof
    fix n assume "n \<in> set nodes"
    then have "deps_of nodes (bn_id n) = bn_deps n"
      using ok(1) by (intro deps_of_in) (auto simp: graph_ok_def)
    then show "set (bn_deps n) \<subseteq> bn_id ` set nodes"
      using ok(1) by (metis graph_ok_def set_map)
  qed
qed

lemma count_nodes_sum:
  assumes "\<forall>n \<in> set nodes. P n \<or> Q n \<or> R n \<or> S n" "\<forall>n. \<not> (P n \<and> (Q n \<or> R n \<or> S n)) \<and> \<not> (Q n \<and> (R n \<or> S n)) \<and> \<not> (R n \<and> S n)"
  shows "count_nodes P nodes + count_nodes Q nodes + count_nodes R nodes + count_nodes S nodes = length nodes"
  using assms(1)
proof (induction nodes)
  case (Cons n ns)
  then show ?case
    using assms(2) [rule_format, of n] by (auto simp: count_nodes_def)
qed (simp add: count_nodes_def)

lemma count_nodes_pos: "0 < count_nodes P nodes \<longleftrightarrow> (\<exists>n \<in> set nodes. P n)"
  by (auto simp: count_nodes_def filter_empty_conv)

lemma done_states:
  assumes inv: "exec_inv nodes bound policy st" and fin: "exec_done st"
  shows "\<forall>i \<in> set (map bn_id nodes). xs_state st i \<in> {Completed, Failed, Aborted}"
    and "i \<in> set (map bn_id nodes) \<Longrightarrow> xs_state st i \<noteq> Aborted \<Longrightarrow> (i, j) \<in> (dep_edges nodes)\<^sup>+ \<Longrightarrow> xs_state st j = Completed"
proof -
  have zones: "exec_zones nodes st" and started: "exec_started nodes bound st"
    using inv by (simp_all add: exec_inv_def)
  show states: "\<forall>i \<in> set (map bn_id nodes). xs_state st i \<in> {Completed, Failed, Aborted}"
    using zones fin by (auto simp: exec_zones_def exec_done_def)
  have step: "xs_state st j = Completed" if "(i, j) \<in> dep_edges nodes" "xs_state st i \<in> {Completed, Failed}" for i j
  proof -
    have "i \<in> xs_completed st \<union> xs_failed st"
      using that(2) zones by (auto simp: exec_zones_def)
    then have "j \<in> xs_completed st"
      using that(1) started by (auto simp: exec_started_def dep_edges_def)
    then show ?thesis
      using zones by (simp add: exec_zones_def)
  qed
  show "i \<in> set (map bn_id nodes) \<Longrightarrow> xs_state st i \<noteq> Aborted \<Longrightarrow> (i, j) \<in> (dep_edges nodes)\<^sup>+ \<Longrightarrow> xs_state st j = Completed"
  proof -
    assume i: "i \<in> set (map bn_id nodes)" "xs_state st i \<noteq> Aborted" and path: "(i, j) \<in> (dep_edges nodes)\<^sup>+"
    then have "xs_state st i \<in> {Completed, Failed}"
      using states by blast
    with path show "xs_state st j = Completed"
      by (induction rule: trancl_induct) (auto intro: step)
  qed
qed

text \<open>
  C27. The outcome of a build tells the truth: completed, ignored, failed and aborted nodes add up to the nodes of the
  plan; the build is failed exactly when a node failed, and completed exactly when all nodes completed; and whatever
  a node that was not aborted depends on, directly or not, is completed.
\<close>

theorem executor_outcome:
  assumes "new_execution_graph p = Inr nodes"
    and "exec_reachable nodes (plan_bound p) (plan_limit p) (plan_policy p) st" "exec_done st"
    and "oc = exec_outcome_of nodes st"
  shows "oc_completed oc + oc_ignored oc + oc_failed oc + oc_aborted oc = length nodes \<and>
    (oc_final oc = FinalFailed \<longleftrightarrow> (\<exists>n \<in> set nodes. xs_state st (bn_id n) = Failed)) \<and>
    (oc_final oc = FinalCompleted \<longleftrightarrow> (\<forall>n \<in> set nodes. xs_state st (bn_id n) = Completed)) \<and>
    (\<forall>i j. (i, j) \<in> (plan_edges nodes)\<^sup>+ \<longrightarrow> xs_state st i = Aborted \<or> xs_state st j = Completed)"
proof -
  note ok = graph_ok_graph_nodes [OF assms(1)]
  note inv = reachable_inv [OF assms(2) ok(1)]
  note states = done_states [OF inv assms(3)]
  have edges: "dep_edges nodes = plan_edges nodes"
    by (rule dep_edges_graph_nodes [OF assms(1)])
  have all: "xs_state st (bn_id n) \<in> {Completed, Failed, Aborted}" if "n \<in> set nodes" for n
    using states(1) that by simp
  have "oc_completed oc + oc_ignored oc + oc_failed oc + oc_aborted oc = length nodes"
    unfolding assms(4) exec_outcome_of_def Let_def exec_outcome.simps
    using all by (intro count_nodes_sum) auto
  moreover have "oc_final oc = FinalFailed \<longleftrightarrow> (\<exists>n \<in> set nodes. xs_state st (bn_id n) = Failed)"
    unfolding assms(4) exec_outcome_of_def Let_def exec_outcome.simps count_nodes_pos by simp
  moreover have "oc_final oc = FinalCompleted \<longleftrightarrow> (\<forall>n \<in> set nodes. xs_state st (bn_id n) = Completed)"
  proof -
    have "xs_state st (bn_id n) = Completed \<longleftrightarrow>
        xs_state st (bn_id n) \<noteq> Failed \<and> xs_state st (bn_id n) \<notin> {Aborted, AbortPending}" if "n \<in> set nodes" for n
      using all [OF that] by auto
    then show ?thesis
      unfolding assms(4) exec_outcome_of_def Let_def exec_outcome.simps count_nodes_pos
      by (auto split: if_splits)
  qed
  moreover have "xs_state st i = Aborted \<or> xs_state st j = Completed" if "(i, j) \<in> (plan_edges nodes)\<^sup>+" for i j
    using states(2) [of i j] that dep_edges_known [of i j nodes] by (auto simp: edges)
  ultimately show ?thesis by blast
qed

text \<open>
  C28. In a build that is not cancelled and runs under the policy DEPENDENT_ONLY, the aborted nodes are exactly those
  that depend, directly or not, on a failed node; all others complete or fail themselves.
\<close>

theorem executor_aborts_dependents:
  assumes "new_execution_graph p = Inr nodes" "plan_policy p = DependentOnly"
    and "exec_reachable nodes (plan_bound p) (plan_limit p) (plan_policy p) st" "exec_done st" "\<not> xs_cancelled st"
  shows "{bn_id n | n. n \<in> set nodes \<and> xs_state st (bn_id n) = Aborted} =
    {i. \<exists>n \<in> set nodes. xs_state st (bn_id n) = Failed \<and> (i, bn_id n) \<in> (plan_edges nodes)\<^sup>+}"
proof -
  note ok = graph_ok_graph_nodes [OF assms(1)]
  note inv = reachable_inv [OF assms(3) ok(1)]
  note states = done_states [OF inv assms(4)]
  have edges: "dep_edges nodes = plan_edges nodes"
    by (rule dep_edges_graph_nodes [OF assms(1)])
  have zones: "exec_zones nodes st" and casc: "exec_cascaded nodes DependentOnly st"
    using inv assms(2) by (simp_all add: exec_inv_def)
  show ?thesis
  proof (intro equalityI subsetI)
    fix i assume "i \<in> {bn_id n | n. n \<in> set nodes \<and> xs_state st (bn_id n) = Aborted}"
    then have "i \<in> xs_aborted st"
      using zones by (auto simp: exec_zones_def)
    then obtain f where f: "f \<in> xs_failed st" "(i, f) \<in> (plan_edges nodes)\<^sup>+"
      using casc assms(5) by (auto simp: exec_cascaded_def edges)
    then have "xs_state st f = Failed" "f \<in> set (map bn_id nodes)"
      using zones by (auto simp: exec_zones_def)
    with f(2) show "i \<in> {i. \<exists>n \<in> set nodes. xs_state st (bn_id n) = Failed \<and> (i, bn_id n) \<in> (plan_edges nodes)\<^sup>+}"
      by auto
  next
    fix i assume "i \<in> {i. \<exists>n \<in> set nodes. xs_state st (bn_id n) = Failed \<and> (i, bn_id n) \<in> (plan_edges nodes)\<^sup>+}"
    then obtain n where n: "n \<in> set nodes" "xs_state st (bn_id n) = Failed" "(i, bn_id n) \<in> (dep_edges nodes)\<^sup>+"
      by (auto simp: edges)
    then have "i \<in> set (map bn_id nodes)"
      by (intro dep_edges_known)
    moreover from this n have "xs_state st i = Aborted"
      using states(2) [OF _ _ n(3)] by auto
    ultimately show "i \<in> {bn_id n | n. n \<in> set nodes \<and> xs_state st (bn_id n) = Aborted}"
      by auto
  qed
qed

section \<open>A build\<close>

text \<open>Two nodes: \<open>a\<close>, whose runner fails, and \<open>b\<close>, which depends on it.\<close>

definition demo_node :: "string \<Rightarrow> string list \<Rightarrow> unit build_node" where
  "demo_node i deps =
     \<lparr>bn_id = i, bn_job = 1, bn_deps = deps, bn_outputs = [], bn_max_attempts = 1, bn_stale = False,
      bn_metadata = Map.empty\<rparr>"

definition demo_nodes :: "unit build_node list" where
  "demo_nodes = [demo_node ''a'' [], demo_node ''b'' [''a'']]"

definition demo_plan :: "unit build_plan" where
  "demo_plan = \<lparr>bp_policy = None, bp_parallelism = 0, bp_max_attempts = 0, bp_nodes = rev demo_nodes\<rparr>"

definition demo_env :: node_env where
  "demo_env = \<lparr>ne_run = (\<lambda>_. Inl ''no such table''), ne_commit = (\<lambda>_. None), ne_abort = (\<lambda>_. None),
     ne_head = (\<lambda>_. None), ne_after = (\<lambda>_. False), ne_end = False\<rparr>"

lemma demo_node_simps [simp]:
  "bn_id (demo_node i deps) = i" "bn_deps (demo_node i deps) = deps" "bn_outputs (demo_node i deps) = []"
  "bn_max_attempts (demo_node i deps) = 1" "\<not> bn_stale (demo_node i deps)"
  "(demo_node i deps)\<lparr>bn_deps := deps'\<rparr> = demo_node i deps'"
  by (simp_all add: demo_node_def)

lemma demo_plan_simps [simp]:
  "plan_bound demo_plan = 4" "plan_limit demo_plan = 1" "plan_policy demo_plan = DependentOnly"
  by (simp_all add: demo_plan_def plan_bound_def plan_limit_def plan_policy_def)

lemma demo_names: "(''a'' :: string) < ''b''" "(''a'' :: string) \<le> ''b''" "\<not> (''b'' :: string) \<le> ''a''"
  by code_simp+

lemma demo_graph: "new_execution_graph demo_plan = Inr demo_nodes"
  by (simp add: new_execution_graph_def demo_plan_def demo_nodes_def first_missing_def exec_cycle_def
      exec_dfs.simps deps_of_def node_at_def demo_names)

definition demo_end :: "unit exec_state" where
  "demo_end = receive demo_nodes DependentOnly (drive_node 1 demo_env (demo_node ''a'' []))
     (pass_launch demo_nodes 4 None (exec_start demo_nodes))"

lemma demo_launch:
  "pass_launch demo_nodes 4 None (exec_start demo_nodes) =
     (exec_start demo_nodes)\<lparr>xs_remaining := [''b''], xs_flight := [''a'']\<rparr>"
  by (simp add: pass_launch_def ready_nodes_def exec_start_def demo_nodes_def deps_of_def node_at_def remove_id_def)

lemma demo_result:
  "fst (drive_node 1 demo_env (demo_node ''a'' [])) = ended (demo_node ''a'' []) Failed 1 ''no such table''"
  by (simp add: drive_node_def attempts_of_def demo_env_def drive_exhausted_def Let_def)

lemma demo_cascade: "compute_cascade demo_nodes ''a'' DependentOnly {} = ([''b''], [])"
  by (simp add: compute_cascade_def demo_nodes_def dependents_of_def)

lemma demo_node_at:
  "node_at demo_nodes ''a'' = Some (demo_node ''a'' [])" "node_at demo_nodes ''b'' = Some (demo_node ''b'' [''a''])"
  by (simp_all add: node_at_def demo_nodes_def)

lemma demo_start:
  "xs_state (exec_start nodes) = (\<lambda>_. Waiting)" "xs_completed (exec_start nodes) = {}" "xs_failed (exec_start nodes) = {}"
  "xs_cancelled (exec_start nodes) = False" "xs_flight (exec_start nodes) = []"
  by (simp_all add: exec_start_def)

lemma demo_end_simps:
  "xs_cancelled demo_end = False" "xs_remaining demo_end = []" "xs_flight demo_end = []"
  "xs_state demo_end ''a'' = Failed" "xs_state demo_end ''b'' = Aborted" "xs_completed demo_end = {}"
  "xs_failed demo_end = {''a''}"
  unfolding demo_end_def demo_launch receive_def Let_def demo_result
  by (simp_all add: ended_def demo_start demo_cascade abort_node_def demo_node_at remove_id_def node_terminal_def)

lemma demo_step: "exec_step demo_nodes 4 1 DependentOnly (exec_start demo_nodes) demo_end"
proof (rule exec_receive [where h = False and c = False and i = "''a''" and cancel_at = None and env = demo_env])
  show "\<not> exec_done (exec_start demo_nodes)"
    by (simp add: exec_done_def exec_start_def demo_nodes_def)
  show "\<not> stuck demo_nodes (pass_head demo_nodes False (exec_start demo_nodes))"
    by (simp add: pass_head_def stuck_def ready_nodes_def exec_start_def demo_nodes_def deps_of_def node_at_def)
  show "demo_end = (receive demo_nodes DependentOnly (drive_node 1 demo_env (demo_node ''a'' []))
     (pass_launch demo_nodes 4 None (pass_head demo_nodes False (exec_start demo_nodes))))\<lparr>xs_cancelled := False\<rparr>"
    using demo_end_simps(1) by (simp add: pass_head_def flip: demo_end_def)
qed (auto simp: pass_head_def demo_launch demo_node_at demo_start demo_result ended_def)

lemma demo_reachable:
  "exec_reachable demo_nodes (plan_bound demo_plan) (plan_limit demo_plan) (plan_policy demo_plan) demo_end"
  using exec_more [OF exec_init demo_step] by simp

lemma demo_done: "exec_done demo_end"
  by (simp add: exec_done_def demo_end_simps)

lemma executor_starts_in_order_witness:
  "new_execution_graph demo_plan = Inr demo_nodes \<and> length (xs_flight demo_end) \<le> 4 \<and>
   set (deps_of demo_nodes ''a'') \<subseteq> xs_completed demo_end"
  using executor_starts_in_order [OF demo_graph demo_reachable] demo_graph by (simp add: demo_end_simps)

lemma executor_ends_witness:
  "(exec_step demo_nodes 4 1 DependentOnly ^^ 1) (exec_start demo_nodes) demo_end \<and> exec_done demo_end \<and>
   1 \<le> 2 * length demo_nodes + 1"
  using executor_ends [OF demo_graph, of 1 demo_end] demo_step demo_done unfolding relpowp_1 by simp

lemma executor_outcome_witness:
  "exec_outcome_of demo_nodes demo_end =
     \<lparr>oc_final = FinalFailed, oc_completed = 0, oc_ignored = 0, oc_failed = 1, oc_aborted = 1\<rparr> \<and>
   oc_final (exec_outcome_of demo_nodes demo_end) = FinalFailed"
proof -
  have out: "exec_outcome_of demo_nodes demo_end =
     \<lparr>oc_final = FinalFailed, oc_completed = 0, oc_ignored = 0, oc_failed = 1, oc_aborted = 1\<rparr>"
    by (simp add: exec_outcome_of_def count_nodes_def demo_nodes_def demo_end_simps)
  have "\<exists>n \<in> set demo_nodes. xs_state demo_end (bn_id n) = Failed"
    by (simp add: demo_nodes_def demo_end_simps)
  then show ?thesis
    using executor_outcome [OF demo_graph demo_reachable demo_done refl] out by blast
qed

lemma executor_aborts_dependents_witness:
  "(''b'', ''a'') \<in> (plan_edges demo_nodes)\<^sup>+ \<and> xs_state demo_end ''b'' = Aborted \<and> xs_state demo_end ''a'' = Failed \<and>
   {bn_id n | n. n \<in> set demo_nodes \<and> xs_state demo_end (bn_id n) = Aborted} =
   {i. \<exists>n \<in> set demo_nodes. xs_state demo_end (bn_id n) = Failed \<and> (i, bn_id n) \<in> (plan_edges demo_nodes)\<^sup>+}"
proof -
  have "(''b'', ''a'') \<in> plan_edges demo_nodes"
    unfolding plan_edges_def by (rule CollectI, rule exI [where x = "demo_node ''b'' [''a'']"]) (simp add: demo_nodes_def)
  then show ?thesis
    using executor_aborts_dependents [OF demo_graph _ demo_reachable demo_done]
    by (simp add: demo_end_simps r_into_trancl')
qed

end
