(* ===== verification/Abac.thy ===== *)
theory Abac
  imports Restricted_View
begin

text \<open>
  The attribute-based evaluator of \<^verbatim>\<open>authorization-policy-service\<close>: \<^verbatim>\<open>internal/domain/abac.go\<close> and
  \<^verbatim>\<open>access.go\<close>, with the two queries of \<^verbatim>\<open>internal/repo/repo.go\<close> that select the policies and the restricted
  views of a tenant.

  A context (subject or resource) is a map from keys to dynamic values. Its values are results of
  \<^verbatim>\<open>encoding/json\<close> and the typed slices the code puts there; an empty slice of the claims counts as nil. Where the
  code ranges over a map, the order is an argument. Logging, the metric and the caveat text are left out.
\<close>

section \<open>Markings\<close>

definition valid_markings :: "string list" where
  "valid_markings = [''public'', ''confidential'', ''pii'']"

definition validate_marking :: "string \<Rightarrow> string option" where
  "validate_marking m =
     (if m \<in> set valid_markings then None
      else Some (''invalid marking '' @ [CHR 0x27] @ m @ [CHR 0x27] @ '', valid markings: [public confidential pii]''))"

definition marking_rank :: "string \<Rightarrow> int" where
  "marking_rank m = (if m = ''public'' then 0 else if m = ''confidential'' then 1 else if m = ''pii'' then 2 else -1)"

fun dedup_sorted :: "string list \<Rightarrow> string list" where
  "dedup_sorted (x # y # ys) = (if x = y then dedup_sorted (y # ys) else x # dedup_sorted (y # ys))"
| "dedup_sorted xs = xs"

definition normalize_markings :: "string list \<Rightarrow> string + string list" where
  "normalize_markings values =
     (let out = dedup_sorted (sort (filter (\<lambda>v. v \<noteq> []) (map (\<lambda>v. to_lower (trim_space v)) values))) in
      case List.map_filter validate_marking out of [] \<Rightarrow> Inr out | e # _ \<Rightarrow> Inl e)"

fun max_marking_loop :: "int \<Rightarrow> string \<Rightarrow> string list \<Rightarrow> int \<times> string" where
  "max_marking_loop rank best [] = (rank, best)"
| "max_marking_loop rank best (v # vs) =
     (if rank < marking_rank v then max_marking_loop (marking_rank v) v vs else max_marking_loop rank best vs)"

definition max_marking :: "string list \<Rightarrow> string option" where
  "max_marking values = (case max_marking_loop (-1) [] values of (rank, best) \<Rightarrow> if rank < 0 then None else Some best)"

definition markings_for_clearance :: "string \<Rightarrow> string list" where
  "markings_for_clearance clearance =
     (let rank = (if marking_rank clearance < 0 then 0 else marking_rank clearance) in
      filter (\<lambda>m. marking_rank m \<le> rank) valid_markings)"

section \<open>Policies and views\<close>

record abac_policy =
  ap_id :: uuid
  ap_tenant :: uuid
  ap_effect :: string
  ap_resource :: string
  ap_action :: string
  ap_conditions :: string
  ap_row_filter :: "string option"
  ap_enabled :: bool
  ap_created :: instant

record abac_view =
  vw_id :: uuid
  vw_tenant :: uuid
  vw_name :: string
  vw_resource :: string
  vw_action :: string
  vw_conditions :: string
  vw_row_filter :: "string option"
  vw_hidden :: "string list"
  vw_marking_cols :: "string list"
  vw_orgs :: "uuid list"
  vw_markings :: "string list"
  vw_consumer :: bool
  vw_guest :: bool
  vw_enabled :: bool
  vw_created :: instant

definition row_applies :: "string \<Rightarrow> string \<Rightarrow> bool" where
  "row_applies pattern value \<longleftrightarrow> pattern = value \<or> pattern = ''*''"

definition list_enabled_policies :: "uuid \<Rightarrow> string \<Rightarrow> string \<Rightarrow> abac_policy list \<Rightarrow> abac_policy list" where
  "list_enabled_policies tenant resource action rows =
     sort_key ap_created (filter (\<lambda>p. ap_tenant p = tenant \<and> ap_enabled p \<and> row_applies (ap_resource p) resource \<and>
       row_applies (ap_action p) action) rows)"

definition list_enabled_views :: "uuid \<Rightarrow> string \<Rightarrow> string \<Rightarrow> abac_view list \<Rightarrow> abac_view list" where
  "list_enabled_views tenant resource action rows =
     sort_key vw_created (filter (\<lambda>v. vw_tenant v = tenant \<and> vw_enabled v \<and> row_applies (vw_resource v) resource \<and>
       row_applies (vw_action v) action) rows)"

definition view_policy :: "'d rv_env \<Rightarrow> abac_view \<Rightarrow> rv_policy" where
  "view_policy env v =
     \<lparr>rp_id = rv_uuid_show env (vw_id v), rp_policy = [], rp_conditions = vw_conditions v,
      rp_row_filter = vw_row_filter v, rp_hidden = vw_hidden v, rp_markings_cols = vw_marking_cols v,
      rp_orgs = vw_orgs v, rp_markings = vw_markings v, rp_consumer = vw_consumer v, rp_guest = vw_guest v\<rparr>"

section \<open>Contexts\<close>

text \<open>The attributes of the token come last and replace the built-in keys.\<close>

definition build_subject_context :: "'d rv_env \<Rightarrow> 'd claims \<Rightarrow> 'd rv_row" where
  "build_subject_context env c =
     [''user_id'' \<mapsto> DStr (rv_uuid_show env (cl_sub c)),
      ''organization_id'' \<mapsto> (case cl_org c of None \<Rightarrow> DNil | Some i \<Rightarrow> DStr (rv_uuid_show env i)),
      ''roles'' \<mapsto> DStrs (cl_roles c),
      ''permissions'' \<mapsto> DStrs (cl_permissions c),
      ''allowed_org_ids'' \<mapsto> DUuids (allowed_org_ids c),
      ''allowed_markings'' \<mapsto> DStrs (allowed_markings (Some c)),
      ''restricted_view_ids'' \<mapsto> DUuids (restricted_view_ids c),
      ''consumer_mode'' \<mapsto> DBool (consumer_mode_enabled c)] ++ cl_attributes c"

definition decode_attrs :: "'d rv_env \<Rightarrow> string \<Rightarrow> 'd rv_row" where
  "decode_attrs env raw =
     (case (if raw = [] then None else Option.bind (rv_json_read env raw) (any_of (rv_fl env))) of
        Some (DMap kvs) \<Rightarrow> map_of (rev kvs)
      | _ \<Rightarrow> Map.empty)"

fun resource_org_loop :: "'d rv_env \<Rightarrow> 'd rv_row \<Rightarrow> string list \<Rightarrow> uuid option" where
  "resource_org_loop env attrs [] = None"
| "resource_org_loop env attrs (k # ks) =
     (case attrs k of
        Some (DStr s) \<Rightarrow>
          (case rv_uuid_parse env s of Some i \<Rightarrow> Some i | None \<Rightarrow> resource_org_loop env attrs ks)
      | _ \<Rightarrow> resource_org_loop env attrs ks)"

definition resource_org_id :: "'d rv_env \<Rightarrow> 'd rv_row \<Rightarrow> uuid option" where
  "resource_org_id env attrs = resource_org_loop env attrs [''organization_id'', ''org_id'']"

fun resource_marking_loop :: "'d rv_row \<Rightarrow> string list \<Rightarrow> string option" where
  "resource_marking_loop attrs [] = None"
| "resource_marking_loop attrs (k # ks) =
     (case attrs k of
        Some (DStr s) \<Rightarrow>
          if 0 \<le> marking_rank (to_lower s) then Some (to_lower s) else resource_marking_loop attrs ks
      | _ \<Rightarrow> resource_marking_loop attrs ks)"

definition resource_marking :: "'d rv_row \<Rightarrow> string option" where
  "resource_marking attrs = resource_marking_loop attrs [''effective_marking'', ''marking'']"

section \<open>Conditions\<close>

text \<open>
  Two values are equal when \<^verbatim>\<open>json.Marshal\<close> writes them the same way: slices are arrays, a nil slice is null,
  the members of an object are written once each in the order of their names. An empty slice of texts or ids is taken
  for nil. (One that is empty and not nil, as the restricted view ids of a scope that names none, is written as
  \<^verbatim>\<open>[]\<close>; a condition that compares a claim with the literal null or \<^verbatim>\<open>[]\<close> can tell the two apart.)
\<close>

fun json_tree :: "'d rv_env \<Rightarrow> 'd dyn \<Rightarrow> 'd dyn" where
  "json_tree env (DUuid u) = DStr (rv_uuid_show env u)"
| "json_tree env (DStrs xs) = (if xs = [] then DNil else DList (map DStr xs))"
| "json_tree env (DUuids us) = (if us = [] then DNil else DList (map (\<lambda>u. DStr (rv_uuid_show env u)) us))"
| "json_tree env (DList xs) = DList (map (json_tree env) xs)"
| "json_tree env (DMap kvs) =
     (let m = map_of (rev (map (\<lambda>(k, v). (k, json_tree env v)) kvs)) in
      DMap (map (\<lambda>k. (k, the (m k))) (sort (remdups (map fst kvs)))))"
| "json_tree env v = v"

definition json_equal :: "'d rv_env \<Rightarrow> 'd dyn \<Rightarrow> 'd dyn \<Rightarrow> bool" where
  "json_equal env a b \<longleftrightarrow> json_tree env a = json_tree env b"

definition context_value :: "'d rv_row \<Rightarrow> string \<Rightarrow> 'd dyn" where
  "context_value ctx k = (case ctx k of None \<Rightarrow> DNil | Some v \<Rightarrow> v)"

fun list_items :: "'d dyn \<Rightarrow> 'd dyn list option" where
  "list_items (DList xs) = Some xs"
| "list_items _ = None"

definition value_matches :: "'d rv_env \<Rightarrow> 'd dyn \<Rightarrow> 'd dyn \<Rightarrow> 'd rv_row \<Rightarrow> bool" where
  "value_matches env actual expected other \<longleftrightarrow>
     (case expected of
        DStr e \<Rightarrow>
          if has_prefix e ''$other.'' then json_equal env actual (context_value other (drop 7 e))
          else json_equal env actual (DStr e)
      | DList candidates \<Rightarrow>
          (case list_items actual of
             Some items \<Rightarrow> list_ex (\<lambda>i. list_ex (json_equal env i) candidates) items
           | None \<Rightarrow> list_ex (json_equal env actual) candidates)
      | _ \<Rightarrow> json_equal env actual expected)"

definition match_selector :: "'d rv_env \<Rightarrow> 'd dyn option \<Rightarrow> 'd rv_row \<Rightarrow> 'd rv_row \<Rightarrow> bool" where
  "match_selector env selector ctx other \<longleftrightarrow>
     (case Option.bind selector (any_of (rv_fl env)) of
        Some (DMap kvs) \<Rightarrow>
          list_all (\<lambda>k. value_matches env (context_value ctx k) (the (map_of (rev kvs) k)) other) (map fst kvs)
      | _ \<Rightarrow> True)"

definition policy_matches :: "'d rv_env \<Rightarrow> string \<Rightarrow> 'd rv_row \<Rightarrow> 'd rv_row \<Rightarrow> bool" where
  "policy_matches env conditions subject resource \<longleftrightarrow>
     conditions = [] \<or>
     (case rv_json_read env conditions of
        Some DNil \<Rightarrow> True
      | Some (DMap root) \<Rightarrow>
          match_selector env (map_of (rev root) ''subject'') subject resource \<and>
          match_selector env (map_of (rev root) ''resource'') resource subject
      | _ \<Rightarrow> False)"

section \<open>Row filters\<close>

text \<open>\<^verbatim>\<open>strings.ReplaceAll\<close> with a token that is not empty.\<close>

function replace_all :: "string \<Rightarrow> string \<Rightarrow> string \<Rightarrow> string" where
  "replace_all token r [] = []"
| "replace_all token r (c # s) =
     (if token \<noteq> [] \<and> has_prefix (c # s) token then r @ replace_all token r (drop (length token) (c # s))
      else c # replace_all token r s)"
  by pat_completeness auto

termination replace_all
  by (relation "measure (\<lambda>(token, r, s). length s)") (auto simp: neq_Nil_conv)

definition filter_token :: "string \<Rightarrow> string \<Rightarrow> string" where
  "filter_token prefix k = ''{{'' @ prefix @ ''.'' @ k @ ''}}''"

text \<open>A value that \<^verbatim>\<open>json.Marshal\<close> refuses leaves its tokens in place; \<open>ks\<close> is the order of the keys.\<close>

definition filter_text :: "'d rv_env \<Rightarrow> 'd dyn \<Rightarrow> string option" where
  "filter_text env v =
     (case v of DNil \<Rightarrow> Some ''NULL'' | DStr s \<Rightarrow> Some s | _ \<Rightarrow> rv_json_write env v)"

fun replace_tokens :: "'d rv_env \<Rightarrow> string \<Rightarrow> 'd rv_row \<Rightarrow> string list \<Rightarrow> string \<Rightarrow> string" where
  "replace_tokens env prefix ctx [] input = input"
| "replace_tokens env prefix ctx (k # ks) input =
     replace_tokens env prefix ctx ks
       (case Option.bind (ctx k) (filter_text env) of
          None \<Rightarrow> input
        | Some r \<Rightarrow> replace_all (filter_token prefix k) r input)"

definition render_row_filter ::
  "'d rv_env \<Rightarrow> string list \<times> string list \<Rightarrow> string \<Rightarrow> 'd rv_row \<Rightarrow> 'd rv_row \<Rightarrow> string" where
  "render_row_filter env order template subject resource =
     replace_tokens env ''resource'' resource (snd order)
       (replace_tokens env ''subject'' subject (fst order) template)"

definition parens :: "string \<Rightarrow> string" where
  "parens s = ''('' @ s @ '')''"

definition join_with_or :: "string list \<Rightarrow> string" where
  "join_with_or filters = join_with '' OR '' (map parens filters)"

definition join_with_and :: "string list \<Rightarrow> string option" where
  "join_with_and filters =
     (case filter (\<lambda>f. f \<noteq> []) (map trim_space filters) of
        [] \<Rightarrow> None
      | [p] \<Rightarrow> Some p
      | ps \<Rightarrow> Some (join_with '' AND '' (map parens ps)))"

section \<open>The evaluation\<close>

record evaluation =
  er_allowed :: bool
  er_matched :: "uuid list"
  er_denied :: "uuid list"
  er_row_filter :: "string option"
  er_hidden :: "string list"
  er_views :: "uuid list"
  er_view_details :: "abac_view list"
  er_reasons :: "string list"
  er_orgs :: "uuid list"
  er_markings :: "string list"
  er_clearance :: "string option"
  er_consumer :: bool

definition rendered_filter ::
  "'d rv_env \<Rightarrow> string list \<times> string list \<Rightarrow> string option \<Rightarrow> 'd rv_row \<Rightarrow> 'd rv_row \<Rightarrow> string list" where
  "rendered_filter env order template subject resource =
     (case template of
        None \<Rightarrow> []
      | Some t \<Rightarrow>
          if t = [] then []
          else (let r = render_row_filter env order t subject resource in if r = [] then [] else [r]))"

definition boundary_reasons :: "'d claims \<Rightarrow> uuid option \<Rightarrow> string option \<Rightarrow> string list" where
  "boundary_reasons c org marking =
     (if \<not> has_role c ''admin'' \<and> \<not> allows_org_id c org
      then [''organization isolation boundary denied access''] else []) @
     (case marking of
        None \<Rightarrow> []
      | Some m \<Rightarrow>
          if allows_marking (Some c) m then []
          else [''classification boundary denied marking '' @ [CHR 0x27] @ m @ [CHR 0x27]])"

text \<open>The first loop: the ids of matching allow and deny policies, and the filters of the allow policies.\<close>

fun policy_loop ::
  "'d rv_env \<Rightarrow> (uuid \<Rightarrow> string list \<times> string list) \<Rightarrow> 'd rv_row \<Rightarrow> 'd rv_row \<Rightarrow> abac_policy list \<Rightarrow>
   uuid list \<times> uuid list \<times> string list" where
  "policy_loop env order subject resource [] = ([], [], [])"
| "policy_loop env order subject resource (p # ps) =
     (case policy_loop env order subject resource ps of
        (matched, denied, filters) \<Rightarrow>
          if \<not> policy_matches env (ap_conditions p) subject resource then (matched, denied, filters)
          else if equal_fold (ap_effect p) ''deny'' then (matched, ap_id p # denied, filters)
          else (ap_id p # matched, denied,
                rendered_filter env (order (ap_id p)) (ap_row_filter p) subject resource @ filters))"

text \<open>What a view does: it is skipped, it adds reasons to deny, or it matches.\<close>

datatype view_outcome = ViewSkipped | ViewRefused "string list" | ViewMatched

definition view_outcome_of ::
  "'d rv_env \<Rightarrow> 'd claims \<Rightarrow> 'd rv_row \<Rightarrow> 'd rv_row \<Rightarrow> uuid option \<Rightarrow> string option \<Rightarrow> abac_view \<Rightarrow> view_outcome" where
  "view_outcome_of env c subject resource org marking v =
     (if \<not> policy_matches env (vw_conditions v) subject resource then ViewSkipped
      else if \<not> has_role c ''admin'' \<and> restricted_view_ids c \<noteq> [] \<and> vw_id v \<notin> set (restricted_view_ids c)
      then ViewSkipped
      else if is_guest_session c \<and> \<not> vw_guest v then ViewSkipped
      else if vw_orgs v \<noteq> [] \<and> (case org of None \<Rightarrow> True | Some i \<Rightarrow> i \<notin> set (vw_orgs v)) then ViewSkipped
      else if vw_markings v \<noteq> [] \<and>
              \<not> list_ex (\<lambda>m. equal_fold m (case marking of None \<Rightarrow> ''public'' | Some x \<Rightarrow> x)) (vw_markings v)
      then ViewSkipped
      else (let d = evaluate_row env (Some c) (view_policy env v) resource in
            if rd_allowed d then ViewMatched else ViewRefused (rd_reasons d)))"

fun view_loop ::
  "'d rv_env \<Rightarrow> (uuid \<Rightarrow> string list \<times> string list) \<Rightarrow> 'd claims \<Rightarrow> 'd rv_row \<Rightarrow> 'd rv_row \<Rightarrow> uuid option \<Rightarrow>
   string option \<Rightarrow> abac_view list \<Rightarrow> abac_view list \<times> string list \<times> string list" where
  "view_loop env order c subject resource org marking [] = ([], [], [])"
| "view_loop env order c subject resource org marking (v # vs) =
     (case view_loop env order c subject resource org marking vs of
        (matched, reasons, filters) \<Rightarrow>
          (case view_outcome_of env c subject resource org marking v of
             ViewSkipped \<Rightarrow> (matched, reasons, filters)
           | ViewRefused r \<Rightarrow> (matched, r @ reasons, filters)
           | ViewMatched \<Rightarrow>
               (v # matched, reasons,
                rendered_filter env (order (vw_id v)) (vw_row_filter v) subject resource @ filters)))"

definition abac_decide ::
  "'d rv_env \<Rightarrow> (uuid \<Rightarrow> string list \<times> string list) \<Rightarrow> 'd claims \<Rightarrow> string \<Rightarrow> abac_policy list \<Rightarrow> abac_view list \<Rightarrow>
   evaluation" where
  "abac_decide env order c attributes policies views =
     (let subject = build_subject_context env c;
          resource = decode_attrs env attributes;
          org = resource_org_id env resource;
          marking = resource_marking resource in
      case policy_loop env order subject resource policies of
        (matched, denied, allow_filters) \<Rightarrow>
          (case view_loop env order c subject resource org marking views of
             (matched_views, view_reasons, view_filters) \<Rightarrow>
               (let reasons = boundary_reasons c org marking @ view_reasons;
                    controls = (policies \<noteq> [] \<or> views \<noteq> [] \<or> denied \<noteq> [] \<or> reasons \<noteq> []) in
                \<lparr>er_allowed = (denied = [] \<and> reasons = [] \<and>
                   (has_role c ''admin'' \<or> \<not> controls \<or> matched \<noteq> [] \<or> matched_views \<noteq> [])),
                 er_matched = matched, er_denied = denied,
                 er_row_filter = join_with_and [join_with_or allow_filters, join_with_or view_filters],
                 er_hidden = dedup_sorted (sort (concat (map vw_hidden matched_views))),
                 er_views = map vw_id matched_views, er_view_details = matched_views, er_reasons = reasons,
                 er_orgs = allowed_org_ids c, er_markings = allowed_markings (Some c),
                 er_clearance = classification_clearance c,
                 er_consumer = (consumer_mode_enabled c \<or> list_ex vw_consumer matched_views)\<rparr>)))"

definition abac_evaluate ::
  "'d rv_env \<Rightarrow> (uuid \<Rightarrow> string list \<times> string list) \<Rightarrow> abac_policy list \<Rightarrow> abac_view list \<Rightarrow> 'd claims \<Rightarrow> uuid \<Rightarrow>
   string \<Rightarrow> string \<Rightarrow> string \<Rightarrow> evaluation" where
  "abac_evaluate env order policy_rows view_rows c tenant resource action attributes =
     abac_decide env order c attributes (list_enabled_policies tenant resource action policy_rows)
       (list_enabled_views tenant resource action view_rows)"

end
