(* ===== verification/Abac_Properties.thy ===== *)
theory Abac_Properties
  imports Abac
begin

text \<open>
  The properties of the attribute-based evaluator: when access is allowed, what conditions on the roles do, and the
  cases in which a missing value, an unknown marking or a malformed selector counts as a match.
\<close>

section \<open>Markings\<close>

lemma dedup_sorted_set [simp]: "set (dedup_sorted xs) = set xs"
  by (induction xs rule: dedup_sorted.induct) auto

lemma dedup_sorted_sorted: "sorted xs \<Longrightarrow> sorted_wrt (<) (dedup_sorted xs)"
proof (induction xs rule: dedup_sorted.induct)
  case (1 x y ys)
  have "\<forall>z \<in> set (y # ys). x \<le> z"
    using 1(3) by simp
  then have "x \<noteq> y \<Longrightarrow> \<forall>z \<in> set (y # ys). x < z"
    using 1(3) by (auto simp: order.strict_iff_order)
  with 1 show ?case by auto
qed auto

lemma dedup_sorted_sort:
  "dedup_sorted (sort xs) = sorted_list_of_set (set (xs :: string list))"
  using dedup_sorted_sorted [of "sort xs"] sorted_list_of_set.idem_if_sorted_distinct [of "dedup_sorted (sort xs)"]
  by (simp add: strict_sorted_iff)

lemma validate_marking_iff: "validate_marking m = None \<longleftrightarrow> 0 \<le> marking_rank m"
  by (simp add: validate_marking_def valid_markings_def marking_rank_def)

lemma normalize_markings_ok:
  "normalize_markings values = Inr out \<Longrightarrow>
     out = sorted_list_of_set (set (filter (\<lambda>v. v \<noteq> []) (map (\<lambda>v. to_lower (trim_space v)) values))) \<and>
     set out \<subseteq> set valid_markings"
  unfolding normalize_markings_def Let_def dedup_sorted_sort
  by (auto split: list.splits if_splits simp: map_filter_def filter_empty_conv validate_marking_def) blast

lemma max_marking_loop_spec:
  "max_marking_loop rank best vs = (r, b) \<Longrightarrow>
     rank \<le> r \<and> (\<forall>v \<in> set vs. marking_rank v \<le> r) \<and> (r = rank \<and> b = best \<or> b \<in> set vs \<and> marking_rank b = r)"
proof (induction vs arbitrary: rank best)
  case (Cons v vs)
  show ?case
  proof (cases "rank < marking_rank v")
    case True
    with Cons.prems Cons.IH [of "marking_rank v" v] show ?thesis by auto
  next
    case False
    with Cons.prems Cons.IH [of rank best] show ?thesis by auto
  qed
qed simp

lemma max_marking_greatest:
  "max_marking vs = Some m \<Longrightarrow> m \<in> set vs \<and> (\<forall>v \<in> set vs. marking_rank v \<le> marking_rank m) \<and> 0 \<le> marking_rank m"
  using max_marking_loop_spec [of "-1" "[]" vs]
  by (fastforce simp: max_marking_def split: prod.splits if_splits)

text \<open>The two packages agree on what a clearance permits.\<close>

lemma markings_for_clearance_agrees:
  "cl_scope c = None \<Longrightarrow> classification_clearance c = Some l \<Longrightarrow> 0 \<le> marking_rank l \<Longrightarrow>
     allowed_markings (Some c) = markings_for_clearance l"
  by (auto simp: allowed_markings_def ladder_markings_def marking_rank_def markings_for_clearance_def
      valid_markings_def public_marking_def confidential_marking_def pii_marking_def split: if_splits)

section \<open>The loops\<close>

definition allow_matches :: "'d rv_env \<Rightarrow> 'd rv_row \<Rightarrow> 'd rv_row \<Rightarrow> abac_policy \<Rightarrow> bool" where
  "allow_matches env subject resource p \<longleftrightarrow>
     policy_matches env (ap_conditions p) subject resource \<and> \<not> equal_fold (ap_effect p) ''deny''"

definition deny_matches :: "'d rv_env \<Rightarrow> 'd rv_row \<Rightarrow> 'd rv_row \<Rightarrow> abac_policy \<Rightarrow> bool" where
  "deny_matches env subject resource p \<longleftrightarrow>
     policy_matches env (ap_conditions p) subject resource \<and> equal_fold (ap_effect p) ''deny''"

lemma policy_loop_filters:
  "policy_loop env order subject resource ps =
     (map ap_id (filter (allow_matches env subject resource) ps),
      map ap_id (filter (deny_matches env subject resource) ps),
      concat (map (\<lambda>p. rendered_filter env (order (ap_id p)) (ap_row_filter p) subject resource)
        (filter (allow_matches env subject resource) ps)))"
  by (induction ps) (auto simp: allow_matches_def deny_matches_def)

fun refusal :: "view_outcome \<Rightarrow> string list" where
  "refusal (ViewRefused r) = r"
| "refusal _ = []"

lemma view_loop_filters:
  "view_loop env order c subject resource org marking vs =
     (filter (\<lambda>v. view_outcome_of env c subject resource org marking v = ViewMatched) vs,
      concat (map (\<lambda>v. refusal (view_outcome_of env c subject resource org marking v)) vs),
      concat (map (\<lambda>v. rendered_filter env (order (vw_id v)) (vw_row_filter v) subject resource)
        (filter (\<lambda>v. view_outcome_of env c subject resource org marking v = ViewMatched) vs)))"
  by (induction vs) (auto split: view_outcome.splits)

lemma refused_reasons: "\<not> rd_allowed (evaluate_row env cs p row) \<Longrightarrow> rd_reasons (evaluate_row env cs p row) \<noteq> []"
  by (auto simp: evaluate_row_def deny_def empty_decision_def Let_def split: option.splits prod.splits if_splits)

lemma refusal_iff:
  "refusal (view_outcome_of env c subject resource org marking v) = [] \<longleftrightarrow>
     (\<forall>r. view_outcome_of env c subject resource org marking v \<noteq> ViewRefused r)"
  by (auto simp: view_outcome_of_def Let_def refused_reasons)

lemma boundary_reasons_iff:
  "boundary_reasons c org marking = [] \<longleftrightarrow>
     allows_org_id c org \<and> (\<forall>m. marking = Some m \<longrightarrow> allows_marking (Some c) m)"
  by (auto simp: boundary_reasons_def allows_org_id_def admin_role_def split: option.splits)

section \<open>The decision\<close>

text \<open>What the view does for this subject and this resource.\<close>

definition outcome_for :: "'d rv_env \<Rightarrow> 'd claims \<Rightarrow> string \<Rightarrow> abac_view \<Rightarrow> view_outcome" where
  "outcome_for env c attributes v =
     view_outcome_of env c (build_subject_context env c) (decode_attrs env attributes)
       (resource_org_id env (decode_attrs env attributes)) (resource_marking (decode_attrs env attributes)) v"

definition allows_for :: "'d rv_env \<Rightarrow> 'd claims \<Rightarrow> string \<Rightarrow> abac_policy \<Rightarrow> bool" where
  "allows_for env c attributes = allow_matches env (build_subject_context env c) (decode_attrs env attributes)"

definition denies_for :: "'d rv_env \<Rightarrow> 'd claims \<Rightarrow> string \<Rightarrow> abac_policy \<Rightarrow> bool" where
  "denies_for env c attributes = deny_matches env (build_subject_context env c) (decode_attrs env attributes)"

lemma abac_allowed_core:
  "er_allowed (abac_decide env order c attributes ps vs) \<longleftrightarrow>
     allows_org_id c (resource_org_id env (decode_attrs env attributes)) \<and>
     (\<forall>m. resource_marking (decode_attrs env attributes) = Some m \<longrightarrow> allows_marking (Some c) m) \<and>
     (\<forall>p \<in> set ps. \<not> denies_for env c attributes p) \<and>
     (\<forall>v \<in> set vs. \<forall>r. outcome_for env c attributes v \<noteq> ViewRefused r) \<and>
     (has_role c ''admin'' \<or> ps = [] \<and> vs = [] \<or> (\<exists>p \<in> set ps. allows_for env c attributes p) \<or>
      (\<exists>v \<in> set vs. outcome_for env c attributes v = ViewMatched))"
proof -
  let ?attrs = "decode_attrs env attributes"
  let ?reasons = "boundary_reasons c (resource_org_id env ?attrs) (resource_marking ?attrs) @
    concat (map (\<lambda>v. refusal (outcome_for env c attributes v)) vs)"
  have reasons: "?reasons = [] \<longleftrightarrow>
     allows_org_id c (resource_org_id env ?attrs) \<and>
     (\<forall>m. resource_marking ?attrs = Some m \<longrightarrow> allows_marking (Some c) m) \<and>
     (\<forall>v \<in> set vs. \<forall>r. outcome_for env c attributes v \<noteq> ViewRefused r)"
    by (simp only: append_is_Nil_conv boundary_reasons_iff concat_eq_Nil_conv set_map ball_simps
        refusal_iff outcome_for_def conj_assoc)
  have "er_allowed (abac_decide env order c attributes ps vs) \<longleftrightarrow>
     filter (denies_for env c attributes) ps = [] \<and> ?reasons = [] \<and>
     (has_role c ''admin'' \<or> \<not> (ps \<noteq> [] \<or> vs \<noteq> [] \<or> filter (denies_for env c attributes) ps \<noteq> [] \<or> ?reasons \<noteq> []) \<or>
      filter (allows_for env c attributes) ps \<noteq> [] \<or>
      filter (\<lambda>v. outcome_for env c attributes v = ViewMatched) vs \<noteq> [])"
    by (simp only: abac_decide_def policy_loop_filters view_loop_filters Let_def prod.case evaluation.simps
        map_is_Nil_conv allows_for_def denies_for_def outcome_for_def)
  then show ?thesis
    unfolding filter_empty_conv using reasons by blast
qed

text \<open>
  C29. The decision of the evaluator in terms of the rows. Access is allowed exactly when the organization and the
  marking of the resource admit the subject, no deny policy matches, no view refuses the resource, and the subject is
  an administrator, or there are no policies and views at all, or some allow policy or some view matches. The ids in
  the result are those of the matching rows, and the hidden columns are those of the matching views.
\<close>

theorem abac_decision:
  "(er_allowed (abac_decide env order c attributes ps vs) \<longleftrightarrow>
      allows_org_id c (resource_org_id env (decode_attrs env attributes)) \<and>
      (\<forall>m. resource_marking (decode_attrs env attributes) = Some m \<longrightarrow> allows_marking (Some c) m) \<and>
      (\<forall>p \<in> set ps. \<not> denies_for env c attributes p) \<and>
      (\<forall>v \<in> set vs. \<forall>r. outcome_for env c attributes v \<noteq> ViewRefused r) \<and>
      (has_role c ''admin'' \<or> ps = [] \<and> vs = [] \<or> (\<exists>p \<in> set ps. allows_for env c attributes p) \<or>
       (\<exists>v \<in> set vs. outcome_for env c attributes v = ViewMatched))) \<and>
   er_matched (abac_decide env order c attributes ps vs) = map ap_id (filter (allows_for env c attributes) ps) \<and>
   er_denied (abac_decide env order c attributes ps vs) = map ap_id (filter (denies_for env c attributes) ps) \<and>
   er_views (abac_decide env order c attributes ps vs) =
     map vw_id (filter (\<lambda>v. outcome_for env c attributes v = ViewMatched) vs) \<and>
   set (er_hidden (abac_decide env order c attributes ps vs)) =
     (\<Union>v \<in> {v \<in> set vs. outcome_for env c attributes v = ViewMatched}. set (vw_hidden v))"
proof (intro conjI)
  show "er_allowed (abac_decide env order c attributes ps vs) \<longleftrightarrow>
      allows_org_id c (resource_org_id env (decode_attrs env attributes)) \<and>
      (\<forall>m. resource_marking (decode_attrs env attributes) = Some m \<longrightarrow> allows_marking (Some c) m) \<and>
      (\<forall>p \<in> set ps. \<not> denies_for env c attributes p) \<and>
      (\<forall>v \<in> set vs. \<forall>r. outcome_for env c attributes v \<noteq> ViewRefused r) \<and>
      (has_role c ''admin'' \<or> ps = [] \<and> vs = [] \<or> (\<exists>p \<in> set ps. allows_for env c attributes p) \<or>
       (\<exists>v \<in> set vs. outcome_for env c attributes v = ViewMatched))"
    by (rule abac_allowed_core)
qed (simp_all add: abac_decide_def policy_loop_filters view_loop_filters Let_def allows_for_def denies_for_def
    outcome_for_def)

text \<open>Without rows for the tenant the boundaries alone decide: everything else is allowed.\<close>

lemma no_rows_allow:
  assumes "\<forall>p \<in> set policy_rows. ap_tenant p \<noteq> tenant" "\<forall>v \<in> set view_rows. vw_tenant v \<noteq> tenant"
  shows "er_allowed (abac_evaluate env order policy_rows view_rows c tenant resource action attributes) \<longleftrightarrow>
    boundary_reasons c (resource_org_id env (decode_attrs env attributes))
      (resource_marking (decode_attrs env attributes)) = []"
proof -
  have "list_enabled_policies tenant resource action policy_rows = []"
    "list_enabled_views tenant resource action view_rows = []"
    using assms by (simp_all add: list_enabled_policies_def list_enabled_views_def filter_empty_conv)
  then show ?thesis
    unfolding abac_evaluate_def abac_allowed_core boundary_reasons_iff by simp
qed

text \<open>A view that refuses the resource denies it to everyone, whatever else matches.\<close>

lemma refusing_view_denies:
  "v \<in> set vs \<Longrightarrow> outcome_for env c attributes v = ViewRefused r \<Longrightarrow>
     \<not> er_allowed (abac_decide env order c attributes ps vs)"
  unfolding abac_allowed_core by blast

text \<open>Rows of other tenants are without effect.\<close>

lemma filter_conj: "filter (\<lambda>x. P x \<and> Q x) xs = filter Q (filter P xs)"
  by (simp add: conj_commute)

lemma tenant_isolation:
  assumes "filter (\<lambda>p. ap_tenant p = tenant) rows = filter (\<lambda>p. ap_tenant p = tenant) rows'"
    "filter (\<lambda>v. vw_tenant v = tenant) views = filter (\<lambda>v. vw_tenant v = tenant) views'"
  shows "abac_evaluate env order rows views c tenant resource action attributes =
    abac_evaluate env order rows' views' c tenant resource action attributes"
  unfolding abac_evaluate_def list_enabled_policies_def list_enabled_views_def
    filter_conj [of "\<lambda>p. ap_tenant p = tenant"] filter_conj [of "\<lambda>v. vw_tenant v = tenant"] assms ..

section \<open>Conditions\<close>

text \<open>
  The roles in the context are a typed slice, and the comparison with a list of candidates takes the elements of a
  slice apart only when it is untyped: the whole slice is compared with every candidate.
\<close>

lemma typed_slice_matches_no_name:
  "\<not> value_matches env (DStrs xs) (DList (map DStr names)) other"
  by (auto simp: value_matches_def list_ex_iff json_equal_def)

lemma match_selector_False:
  assumes "map_of (rev sel) k = Some expected" "any_ok fl (DMap sel)" "fl = rv_fl env"
    and "\<not> value_matches env (context_value ctx k) (to_any fl expected) other"
  shows "\<not> match_selector env (Some (DMap sel)) ctx other"
proof -
  have "map_of (rev (map (\<lambda>(k, v). (k, to_any fl v)) sel)) k = Some (to_any fl expected)"
    using assms(1) by (simp add: map_of_map rev_map)
  moreover have "k \<in> fst ` set sel"
    using assms(1) map_of_SomeD by force
  ultimately show ?thesis
    using assms(2-4) by (auto simp: match_selector_def any_of_def list_all_iff intro!: bexI)
qed

text \<open>
  A condition that lists roles never matches. Whatever roles the subject has and whatever names the condition
  lists, a policy whose conditions ask for \<^verbatim>\<open>subject.roles\<close> to be among them does not match (unless an attribute of
  the token replaces the roles): an allow policy grants nothing, and a deny policy is without effect.
\<close>

theorem role_conditions_never_match:
  assumes "rv_json_read env (ap_conditions p) = Some (DMap root)"
    and "map_of (rev root) ''subject'' = Some (DMap sel)" "any_ok (rv_fl env) (DMap sel)"
    and "map_of (rev sel) ''roles'' = Some (DList (map DStr names))"
    and "cl_attributes c ''roles'' = None" "ap_conditions p \<noteq> []"
  shows "\<not> allows_for env c attributes p \<and> \<not> denies_for env c attributes p"
proof -
  have "context_value (build_subject_context env c) ''roles'' = DStrs (cl_roles c)"
    using assms(5) by (simp add: context_value_def build_subject_context_def map_add_def)
  then have "\<not> match_selector env (Some (DMap sel)) (build_subject_context env c) other" for other
    using typed_slice_matches_no_name
    by (intro match_selector_False [OF assms(4) assms(3) refl]) (simp add: comp_def)
  then have "\<not> policy_matches env (ap_conditions p) (build_subject_context env c) (decode_attrs env attributes)"
    using assms(1,2,6) by (simp add: policy_matches_def)
  then show ?thesis
    by (simp add: allows_for_def denies_for_def allow_matches_def deny_matches_def)
qed

text \<open>With the roles as an untyped slice, as in the tests of the code, the lists are intersected.\<close>

lemma untyped_slice_intersects:
  "value_matches env (DList (map DStr xs)) (DList (map DStr names)) other \<longleftrightarrow> set xs \<inter> set names \<noteq> {}"
  by (auto simp: value_matches_def list_ex_iff json_equal_def)

text \<open>Two missing values are equal: a comparison with a missing attribute of the other side matches a missing one.\<close>

lemma missing_equals_missing:
  "ctx k = None \<Longrightarrow> other k' = None \<Longrightarrow> value_matches env (context_value ctx k) (DStr (''$other.'' @ k')) other"
  by (simp add: value_matches_def has_prefix_def context_value_def json_equal_def)

text \<open>A selector that is not an object, or has a number out of range, matches everything.\<close>

lemma malformed_selector_matches:
  "(\<forall>kvs. selector \<noteq> Some (DMap kvs)) \<or> (\<exists>v. selector = Some v \<and> \<not> any_ok (rv_fl env) v) \<Longrightarrow>
     match_selector env selector ctx other"
proof -
  assume "(\<forall>kvs. selector \<noteq> Some (DMap kvs)) \<or> (\<exists>v. selector = Some v \<and> \<not> any_ok (rv_fl env) v)"
  moreover have "to_any fl v = DMap kvs \<Longrightarrow> \<exists>kvs'. v = DMap kvs'" for fl v kvs
    by (cases v) (auto split: option.splits)
  ultimately show ?thesis
    unfolding match_selector_def any_of_def by (cases selector) (fastforce split: dyn.splits)+
qed

text \<open>A resource with an unknown marking is treated as one without a marking.\<close>

lemma unknown_marking_unmarked:
  "attrs ''effective_marking'' = None \<Longrightarrow> attrs ''marking'' = Some (DStr m) \<Longrightarrow> marking_rank (to_lower m) < 0 \<Longrightarrow>
     resource_marking attrs = None"
  by (simp add: resource_marking_def)

section \<open>Row filters\<close>

lemma replace_all_absent: "(\<forall>n. \<not> has_prefix (drop n s) token) \<Longrightarrow> replace_all token r s = s"
proof (induction token r s rule: replace_all.induct)
  case (2 token r c s)
  have "\<not> has_prefix (c # s) token"
    using 2(3) [rule_format, of 0] by simp
  moreover have "\<forall>n. \<not> has_prefix (drop n s) token"
    using 2(3) [rule_format, of "Suc _"] by simp
  ultimately show ?case
    using 2(2) by simp
qed simp

text \<open>A value enters the filter as it is, quotes included.\<close>

lemma replace_all_token: "token \<noteq> [] \<Longrightarrow> replace_all token r (token @ s) = r @ replace_all token r s"
  by (cases token) (auto simp: has_prefix_def)

lemma raw_substitution:
  "replace_all (filter_token ''subject'' ''name'') v (filter_token ''subject'' ''name'' @ [CHR 0x27]) = v @ [CHR 0x27]"
  by (subst replace_all_token) (simp_all add: filter_token_def has_prefix_def)

text \<open>A value that looks like a token is replaced again, or not, with the order of the keys.\<close>

lemma replacement_depends_on_order:
  fixes env :: "'d rv_env"
  defines "ctx \<equiv> [''a'' \<mapsto> DStr ''{{subject.b}}'', ''b'' \<mapsto> DStr ''1''] :: 'd rv_row"
  shows "replace_tokens env ''subject'' ctx [''a'', ''b''] ''x = {{subject.a}}'' = ''x = 1''"
    and "replace_tokens env ''subject'' ctx [''b'', ''a''] ''x = {{subject.a}}'' = ''x = {{subject.b}}''"
  by (simp_all add: ctx_def filter_text_def filter_token_def has_prefix_def)

section \<open>A policy on a role\<close>

text \<open>A contractor, and a policy that denies access to contractors.\<close>

definition contractor :: "int claims" where
  "contractor =
     \<lparr>cl_sub = 1, cl_iat = 0, cl_exp = 10, cl_iss = None, cl_aud = None, cl_jti = 2, cl_email = [], cl_name = [],
      cl_roles = [''contractor''], cl_permissions = [], cl_org = Some 7, cl_attributes = Map.empty,
      cl_auth_methods = [], cl_token_use = None, cl_api_key = None, cl_session_kind = None, cl_scope = None\<rparr>"

definition role_condition :: "int dyn" where
  "role_condition = DMap [(''subject'', DMap [(''roles'', DList [DStr ''contractor''])])]"

definition abac_env :: "int rv_env" where
  "abac_env =
     \<lparr>rv_fl = int_float, rv_uuid_parse = (\<lambda>_. None), rv_uuid_show = (\<lambda>_. ''org-7''),
      rv_json_read = (\<lambda>s. if s = ''conditions'' then Some role_condition else None), rv_json_write = (\<lambda>_. None)\<rparr>"

definition deny_contractors :: abac_policy where
  "deny_contractors =
     \<lparr>ap_id = 5, ap_tenant = 7, ap_effect = ''deny'', ap_resource = ''*'', ap_action = ''*'', ap_conditions = ''conditions'',
      ap_row_filter = None, ap_enabled = True, ap_created = 0\<rparr>"

lemma role_conditions_never_match_witness:
  "has_role contractor ''contractor'' \<and> ap_effect deny_contractors = ''deny'' \<and>
   \<not> denies_for abac_env contractor [] deny_contractors"
proof -
  have "\<not> allows_for abac_env contractor [] deny_contractors \<and> \<not> denies_for abac_env contractor [] deny_contractors"
    by (rule role_conditions_never_match [where root = "[(''subject'', DMap [(''roles'', DList [DStr ''contractor''])])]"
          and sel = "[(''roles'', DList [DStr ''contractor''])]" and names = "[''contractor'']"])
      (simp_all add: abac_env_def deny_contractors_def contractor_def role_condition_def)
  then show ?thesis
    by (simp add: has_role_def contractor_def deny_contractors_def)
qed

definition allow_all :: abac_policy where
  "allow_all = deny_contractors\<lparr>ap_id := 6, ap_effect := ''allow'', ap_conditions := []\<rparr>"

lemma abac_decision_witness:
  "er_allowed (abac_decide abac_env (\<lambda>i. ([], [])) contractor [] [allow_all] []) \<and>
   er_matched (abac_decide abac_env (\<lambda>i. ([], [])) contractor [] [allow_all] []) = [6]"
proof -
  have attrs: "decode_attrs abac_env [] = Map.empty"
    by (simp add: decode_attrs_def)
  have "allows_org_id contractor (resource_org_id abac_env Map.empty)"
    by (simp add: allows_org_id_def resource_org_id_def is_guest_session_def contractor_def)
  moreover have "resource_marking (Map.empty :: int rv_row) = None"
    by (simp add: resource_marking_def)
  moreover have "allows_for abac_env contractor [] allow_all" "\<not> denies_for abac_env contractor [] allow_all"
    by (simp_all add: allows_for_def denies_for_def allow_matches_def deny_matches_def policy_matches_def allow_all_def
        deny_contractors_def equal_fold_def to_lower_def)
  ultimately show ?thesis
    using abac_decision [of abac_env "\<lambda>i. ([], [])" contractor "[]" "[allow_all]" "[]"] attrs
    by (simp add: allow_all_def)
qed

end
