(* ===== verification/Jwks.thy ===== *)
theory Jwks
  imports Pg_Tx Float64
begin

text \<open>
  The rotation of signing keys, \<^verbatim>\<open>identity-federation-service/internal/jwksrotation\<close>: \<^verbatim>\<open>types.go\<close>,
  \<^verbatim>\<open>jwksrotation.go\<close>, and the two stores \<^verbatim>\<open>pg_store.go\<close> and \<^verbatim>\<open>inmemory.go\<close>.

  The service works on the interface \<^verbatim>\<open>JwksKeyStore\<close>: a record of functions on the state of the store, here as in the
  code. What the transit client (Vault) answers to one operation is the record \<open>vault_env\<close>. The clock of the
  database server is a field of the store's state. Statements of the PostgreSQL store can fail at any point. The DDL
  of \<^verbatim>\<open>EnsureSchema\<close> and the columns \<^verbatim>\<open>created_at\<close> and \<^verbatim>\<open>updated_at\<close> are left out.
\<close>

section \<open>Types\<close>

record vault_key =
  vk_name :: string
  vk_version :: "32 word"

datatype jwks_status = JkActive | JkGrace | JkRetired

fun jwks_status_text :: "jwks_status \<Rightarrow> string" where
  "jwks_status_text JkActive = ''active''"
| "jwks_status_text JkGrace = ''grace''"
| "jwks_status_text JkRetired = ''retired''"

datatype jwks_error = JwksStore string | JwksState string | JwksVault string

fun jwks_error_text :: "jwks_error \<Rightarrow> string" where
  "jwks_error_text (JwksStore m) = ''jwks store error: '' @ m"
| "jwks_error_text (JwksState m) = ''jwks key state error: '' @ m"
| "jwks_error_text (JwksVault m) = ''vault transit error: '' @ m"

definition parse_jwks_status :: "string \<Rightarrow> jwks_error + jwks_status" where
  "parse_jwks_status v =
     (if v = ''active'' then Inr JkActive else if v = ''grace'' then Inr JkGrace
      else if v = ''retired'' then Inr JkRetired else Inl (JwksStore (''unknown JWKS key status '' @ v)))"

record jwks_record =
  jr_kid :: string
  jr_kty :: string
  jr_pem :: string
  jr_vault_name :: string
  jr_vault_version :: "32 word"
  jr_status :: jwks_status
  jr_activated :: instant
  jr_grace_started :: "instant option"
  jr_retire_after :: "instant option"
  jr_retired :: "instant option"

record jwk_entry =
  je_kid :: string
  je_kty :: string
  je_pem :: string
  je_use :: string
  je_status :: string

record public_key_entry =
  pk_kid :: string
  pk_kty :: string
  pk_pem :: string
  pk_activated :: instant

text \<open>Days are \<^verbatim>\<open>int64\<close>; the product with the nanoseconds of a day wraps.\<close>

record rotation_policy =
  rp_active_days :: "64 word"
  rp_grace_days :: "64 word"

definition asvs_l2_default :: rotation_policy where
  "asvs_l2_default = \<lparr>rp_active_days = 90, rp_grace_days = 14\<rparr>"

definition days :: "64 word \<Rightarrow> int" where
  "days d = sint (d * 86400000000000)"

definition rotate_and_retire :: "rotation_policy \<Rightarrow> instant \<Rightarrow> instant \<times> instant" where
  "rotate_and_retire p activated =
     (let rotate_at = activated + days (rp_active_days p) in (rotate_at, rotate_at + days (rp_grace_days p)))"

definition is_in_grace :: "rotation_policy \<Rightarrow> instant \<Rightarrow> instant \<Rightarrow> bool" where
  "is_in_grace p prev_activated now \<longleftrightarrow>
     (case rotate_and_retire p prev_activated of (rotate_at, retire_at) \<Rightarrow> \<not> now < rotate_at \<and> now < retire_at)"

definition vault_key_ref :: "jwks_record \<Rightarrow> vault_key" where
  "vault_key_ref r = \<lparr>vk_name = jr_vault_name r, vk_version = jr_vault_version r\<rparr>"

definition stable_kid :: "vault_key \<Rightarrow> string" where
  "stable_kid k = vk_name k @ ''-v'' @ show_nat (unat (vk_version k))"

definition build_jwks :: "public_key_entry \<Rightarrow> public_key_entry option \<Rightarrow> rotation_policy \<Rightarrow> instant \<Rightarrow> jwk_entry list" where
  "build_jwks active previous p now =
     \<lparr>je_kid = pk_kid active, je_kty = pk_kty active, je_pem = pk_pem active, je_use = ''sig'', je_status = ''active''\<rparr> #
     (case previous of
        None \<Rightarrow> []
      | Some k \<Rightarrow>
          if is_in_grace p (pk_activated k) now
          then [\<lparr>je_kid = pk_kid k, je_kty = pk_kty k, je_pem = pk_pem k, je_use = ''sig'', je_status = ''grace''\<rparr>]
          else [])"

definition jwk_from_record :: "jwks_record \<Rightarrow> string \<Rightarrow> jwk_entry" where
  "jwk_from_record r status =
     \<lparr>je_kid = jr_kid r, je_kty = jr_kty r, je_pem = jr_pem r, je_use = ''sig'', je_status = status\<rparr>"

definition build_jwks_from_records :: "jwks_record \<Rightarrow> jwks_record list \<Rightarrow> jwk_entry list" where
  "build_jwks_from_records active grace = jwk_from_record active ''active'' # map (\<lambda>r. jwk_from_record r ''grace'') grace"

section \<open>The interfaces\<close>

record 's jwks_store =
  st_active :: "'s \<Rightarrow> 's \<times> (jwks_error + jwks_record option)"
  st_grace :: "instant \<Rightarrow> 's \<Rightarrow> 's \<times> (jwks_error + jwks_record list)"
  st_seed :: "jwks_record \<Rightarrow> 's \<Rightarrow> 's \<times> jwks_error option"
  st_rotate :: "jwks_record \<Rightarrow> jwks_record \<Rightarrow> instant \<Rightarrow> 's \<Rightarrow> 's \<times> jwks_error option"
  st_rollback :: "jwks_record \<Rightarrow> jwks_record \<Rightarrow> instant \<Rightarrow> 's \<Rightarrow> 's \<times> jwks_error option"

record vault_env =
  tv_latest :: "string + vault_key"
  tv_rotate :: "string + vault_key"
  tv_pem :: "vault_key \<Rightarrow> string + string"
  tv_sign :: "vault_key \<Rightarrow> string \<Rightarrow> string + string"

section \<open>The service\<close>

definition record_from_vault_key :: "vault_key \<Rightarrow> string \<Rightarrow> instant \<Rightarrow> jwks_record" where
  "record_from_vault_key k pem activated =
     \<lparr>jr_kid = stable_kid k, jr_kty = ''RSA'', jr_pem = pem, jr_vault_name = vk_name k, jr_vault_version = vk_version k,
      jr_status = JkActive, jr_activated = activated, jr_grace_started = None, jr_retire_after = None, jr_retired = None\<rparr>"

definition ensure_seeded :: "'s jwks_store \<Rightarrow> vault_env \<Rightarrow> instant \<Rightarrow> 's \<Rightarrow> 's \<times> jwks_error option" where
  "ensure_seeded st vault now s =
     (case st_active st s of
        (s1, Inl e) \<Rightarrow> (s1, Some e)
      | (s1, Inr (Some r)) \<Rightarrow> (s1, None)
      | (s1, Inr None) \<Rightarrow>
          (case tv_latest vault of
             Inl m \<Rightarrow> (s1, Some (JwksVault m))
           | Inr key \<Rightarrow>
               (case tv_pem vault key of
                  Inl m \<Rightarrow> (s1, Some (JwksVault m))
                | Inr pem \<Rightarrow> st_seed st (record_from_vault_key key pem now) s1)))"

definition active_key :: "'s jwks_store \<Rightarrow> 's \<Rightarrow> 's \<times> (jwks_error + jwks_record)" where
  "active_key st s =
     (case st_active st s of
        (s1, Inl e) \<Rightarrow> (s1, Inl e)
      | (s1, Inr None) \<Rightarrow> (s1, Inl (JwksState ''no active JWKS key''))
      | (s1, Inr (Some r)) \<Rightarrow> (s1, Inr r))"

definition seeded_active :: "'s jwks_store \<Rightarrow> vault_env \<Rightarrow> instant \<Rightarrow> 's \<Rightarrow> 's \<times> (jwks_error + jwks_record)" where
  "seeded_active st vault now s =
     (case ensure_seeded st vault now s of
        (s1, Some e) \<Rightarrow> (s1, Inl e)
      | (s1, None) \<Rightarrow> active_key st s1)"

definition published_jwks ::
  "'s jwks_store \<Rightarrow> vault_env \<Rightarrow> instant \<Rightarrow> 's \<Rightarrow> 's \<times> (jwks_error + jwk_entry list)" where
  "published_jwks st vault now s =
     (case seeded_active st vault now s of
        (s1, Inl e) \<Rightarrow> (s1, Inl e)
      | (s1, Inr active) \<Rightarrow>
          (case st_grace st now s1 of
             (s2, Inl e) \<Rightarrow> (s2, Inl e)
           | (s2, Inr grace) \<Rightarrow> (s2, Inr (build_jwks_from_records active grace))))"

record rotation_outcome =
  ro_previous :: string
  ro_active :: string
  ro_grace_until :: instant

definition grace_until :: "rotation_policy \<Rightarrow> instant \<Rightarrow> instant" where
  "grace_until p now = now + days (rp_grace_days p)"

text \<open>A rotation reads the active key and creates the next one in Vault, then it writes both rows.\<close>

definition rotate_prepare ::
  "'s jwks_store \<Rightarrow> vault_env \<Rightarrow> instant \<Rightarrow> 's \<Rightarrow> 's \<times> (jwks_error + jwks_record \<times> jwks_record)" where
  "rotate_prepare st vault now s =
     (case seeded_active st vault now s of
        (s1, Inl e) \<Rightarrow> (s1, Inl e)
      | (s1, Inr previous) \<Rightarrow>
          (s1, case tv_rotate vault of
             Inl m \<Rightarrow> Inl (JwksVault m)
           | Inr next_ref \<Rightarrow>
               (case tv_pem vault next_ref of
                  Inl m \<Rightarrow> Inl (JwksVault m)
                | Inr pem \<Rightarrow> Inr (previous, record_from_vault_key next_ref pem now))))"

definition rotate_store ::
  "'s jwks_store \<Rightarrow> rotation_policy \<Rightarrow> instant \<Rightarrow> jwks_record \<times> jwks_record \<Rightarrow> 's \<Rightarrow> 's \<times> (jwks_error + rotation_outcome)" where
  "rotate_store st p now pn s =
     (case st_rotate st (fst pn) (snd pn) (grace_until p now) s of
        (s1, Some e) \<Rightarrow> (s1, Inl e)
      | (s1, None) \<Rightarrow>
          (s1, Inr \<lparr>ro_previous = jr_kid (fst pn), ro_active = jr_kid (snd pn), ro_grace_until = grace_until p now\<rparr>))"

definition rotate_key ::
  "'s jwks_store \<Rightarrow> rotation_policy \<Rightarrow> vault_env \<Rightarrow> instant \<Rightarrow> 's \<Rightarrow> 's \<times> (jwks_error + rotation_outcome)" where
  "rotate_key st p vault now s =
     (case rotate_prepare st vault now s of
        (s1, Inl e) \<Rightarrow> (s1, Inl e)
      | (s1, Inr pn) \<Rightarrow> rotate_store st p now pn s1)"

definition rollback_target :: "string option \<Rightarrow> jwks_record list \<Rightarrow> jwks_error + jwks_record" where
  "rollback_target target grace =
     (case target of
        Some kid \<Rightarrow>
          (case find (\<lambda>k. jr_kid k = kid) grace of
             None \<Rightarrow> Inl (JwksState (''rollback target '' @ kid @ '' is not in grace''))
           | Some k \<Rightarrow> Inr k)
      | None \<Rightarrow> (case grace of [] \<Rightarrow> Inl (JwksState ''no grace key to roll back to'') | k # _ \<Rightarrow> Inr k))"

record rollback_outcome =
  rb_restored :: string
  rb_demoted :: string
  rb_grace_until :: instant

definition rollback_key ::
  "'s jwks_store \<Rightarrow> rotation_policy \<Rightarrow> vault_env \<Rightarrow> string option \<Rightarrow> instant \<Rightarrow> 's \<Rightarrow>
   's \<times> (jwks_error + rollback_outcome)" where
  "rollback_key st p vault target now s =
     (case seeded_active st vault now s of
        (s1, Inl e) \<Rightarrow> (s1, Inl e)
      | (s1, Inr active) \<Rightarrow>
          (case st_grace st now s1 of
             (s2, Inl e) \<Rightarrow> (s2, Inl e)
           | (s2, Inr grace) \<Rightarrow>
               (case rollback_target target grace of
                  Inl e \<Rightarrow> (s2, Inl e)
                | Inr restored \<Rightarrow>
                    (case st_rollback st restored active (grace_until p now) s2 of
                       (s3, Some e) \<Rightarrow> (s3, Inl e)
                     | (s3, None) \<Rightarrow>
                         (s3, Inr \<lparr>rb_restored = jr_kid restored, rb_demoted = jr_kid active,
                                  rb_grace_until = grace_until p now\<rparr>)))))"

record signed_digest =
  sd_kid :: string
  sd_key :: vault_key
  sd_signature :: string

definition sign_active ::
  "'s jwks_store \<Rightarrow> vault_env \<Rightarrow> string \<Rightarrow> instant \<Rightarrow> 's \<Rightarrow> 's \<times> (jwks_error + signed_digest)" where
  "sign_active st vault digest now s =
     (case seeded_active st vault now s of
        (s1, Inl e) \<Rightarrow> (s1, Inl e)
      | (s1, Inr active) \<Rightarrow>
          (s1, case tv_sign vault (vault_key_ref active) digest of
             Inl m \<Rightarrow> Inl (JwksVault m)
           | Inr sig \<Rightarrow> Inr \<lparr>sd_kid = jr_kid active, sd_key = vault_key_ref active, sd_signature = sig\<rparr>))"

definition active_signing_key ::
  "'s jwks_store \<Rightarrow> vault_env \<Rightarrow> instant \<Rightarrow> 's \<Rightarrow> 's \<times> (jwks_error + string \<times> vault_key)" where
  "active_signing_key st vault now s =
     (case seeded_active st vault now s of
        (s1, Inl e) \<Rightarrow> (s1, Inl e)
      | (s1, Inr active) \<Rightarrow> (s1, Inr (jr_kid active, vault_key_ref active)))"

end
