(* ===== verification/Jwks_Stores.thy ===== *)
theory Jwks_Stores
  imports Jwks
begin

text \<open>
  The two stores of signing keys and their contract: the PostgreSQL table, a list of rows with distinct ids, and the
  map of the in-memory store, listed in the order in which a call ranges over it. \<open>key_store\<close> is the contract of the
  interface, over the table of ids with status, activation and expiry.
\<close>

section \<open>Statements\<close>

definition demote :: "instant \<Rightarrow> instant \<Rightarrow> jwks_record \<Rightarrow> jwks_record" where
  "demote db_now until r = r\<lparr>jr_status := JkGrace, jr_grace_started := Some db_now, jr_retire_after := Some until\<rparr>"

definition restore :: "jwks_record \<Rightarrow> jwks_record" where
  "restore r = r\<lparr>jr_status := JkActive, jr_grace_started := None, jr_retire_after := None, jr_retired := None\<rparr>"

definition promote_to :: "jwks_record \<Rightarrow> jwks_record \<Rightarrow> jwks_record" where
  "promote_to new r = (restore r)\<lparr>jr_pem := jr_pem new, jr_activated := jr_activated new\<rparr>"

definition reseed :: "jwks_record \<Rightarrow> jwks_record \<Rightarrow> jwks_record" where
  "reseed new r = r\<lparr>jr_pem := jr_pem new, jr_status := JkActive, jr_retired := None\<rparr>"

definition update_row :: "string \<Rightarrow> (jwks_record \<Rightarrow> jwks_record) \<Rightarrow> jwks_record list \<Rightarrow> jwks_record list" where
  "update_row kid f rows = map (\<lambda>r. if jr_kid r = kid then f r else r) rows"

definition upsert_row :: "jwks_record \<Rightarrow> (jwks_record \<Rightarrow> jwks_record) \<Rightarrow> jwks_record list \<Rightarrow> jwks_record list" where
  "upsert_row new f rows =
     (if jr_kid new \<in> set (map jr_kid rows) then update_row (jr_kid new) f rows else rows @ [restore new])"

definition by_activation :: "jwks_record list \<Rightarrow> jwks_record list" where
  "by_activation = sort_key (\<lambda>r. - jr_activated r)"

definition in_grace_at :: "instant \<Rightarrow> jwks_record \<Rightarrow> bool" where
  "in_grace_at now r \<longleftrightarrow> jr_status r = JkGrace \<and> (case jr_retire_after r of None \<Rightarrow> True | Some t \<Rightarrow> now < t)"

section \<open>PostgreSQL\<close>

record jwks_db = pg +
  jk_rows :: "jwks_record list"
  jk_now :: instant

text \<open>The version is an \<^verbatim>\<open>integer\<close> column: a negative one is refused when it is read.\<close>

definition scan_row :: "jwks_record \<Rightarrow> jwks_error + jwks_record" where
  "scan_row r =
     (if sint (jr_vault_version r) < 0 then Inl (JwksStore ''vault_key_version must be positive'') else Inr r)"

fun scan_rows :: "jwks_record list \<Rightarrow> jwks_error + jwks_record list" where
  "scan_rows [] = Inr []"
| "scan_rows (r # rs) = and_then (scan_row r) (\<lambda>r'. and_then (scan_rows rs) (\<lambda>rs'. Inr (r' # rs')))"

definition pg_active_key :: "jwks_db \<Rightarrow> jwks_db \<times> (jwks_error + jwks_record option)" where
  "pg_active_key db =
     (case pg_exec (\<lambda>db. (db, by_activation (filter (\<lambda>r. jr_status r = JkActive) (jk_rows db)))) db of
        (db', Inl m) \<Rightarrow> (db', Inl (JwksStore m))
      | (db', Inr []) \<Rightarrow> (db', Inr None)
      | (db', Inr (r # _)) \<Rightarrow> (db', and_then (scan_row r) (\<lambda>r'. Inr (Some r'))))"

definition pg_grace_keys :: "instant \<Rightarrow> jwks_db \<Rightarrow> jwks_db \<times> (jwks_error + jwks_record list)" where
  "pg_grace_keys now db =
     (case pg_exec (\<lambda>db. (db, by_activation (filter (in_grace_at now) (jk_rows db)))) db of
        (db', Inl m) \<Rightarrow> (db', Inl (JwksStore m))
      | (db', Inr rs) \<Rightarrow> (db', scan_rows rs))"

definition pg_upsert_seed :: "jwks_record \<Rightarrow> jwks_db \<Rightarrow> jwks_db \<times> jwks_error option" where
  "pg_upsert_seed new db =
     (case pg_exec (\<lambda>db. (db\<lparr>jk_rows := upsert_row new (reseed new) (jk_rows db)\<rparr>, ())) db of
        (db', Inl m) \<Rightarrow> (db', Some (JwksStore m))
      | (db', Inr _) \<Rightarrow> (db', None))"

text \<open>One transaction: begin, the statements, commit; after a failure the rows are as before.\<close>

fun tx_statements :: "(jwks_record list \<Rightarrow> jwks_record list) list \<Rightarrow> jwks_db \<Rightarrow> jwks_db \<times> string option" where
  "tx_statements [] db = (db, None)"
| "tx_statements (f # fs) db =
     (case pg_exec (\<lambda>db. (db\<lparr>jk_rows := f (jk_rows db)\<rparr>, ())) db of
        (db', Inl m) \<Rightarrow> (db', Some m)
      | (db', Inr _) \<Rightarrow> tx_statements fs db')"

definition pg_tx :: "(jwks_record list \<Rightarrow> jwks_record list) list \<Rightarrow> jwks_db \<Rightarrow> jwks_db \<times> jwks_error option" where
  "pg_tx fs db =
     (case tx_statements (id # fs @ [id]) db of
        (db', Some m) \<Rightarrow> (db'\<lparr>jk_rows := jk_rows db\<rparr>, Some (JwksStore m))
      | (db', None) \<Rightarrow> (db', None))"

definition pg_rotate_to ::
  "jwks_record \<Rightarrow> jwks_record \<Rightarrow> instant \<Rightarrow> jwks_db \<Rightarrow> jwks_db \<times> jwks_error option" where
  "pg_rotate_to previous new until db =
     pg_tx [update_row (jr_kid previous) (demote (jk_now db) until), upsert_row new (promote_to new)] db"

definition pg_rollback_to ::
  "jwks_record \<Rightarrow> jwks_record \<Rightarrow> instant \<Rightarrow> jwks_db \<Rightarrow> jwks_db \<times> jwks_error option" where
  "pg_rollback_to restored demoted until db =
     pg_tx [update_row (jr_kid demoted) (demote (jk_now db) until), update_row (jr_kid restored) restore] db"

definition pg_store :: "jwks_db jwks_store" where
  "pg_store =
     \<lparr>st_active = pg_active_key, st_grace = pg_grace_keys, st_seed = pg_upsert_seed, st_rotate = pg_rotate_to,
      st_rollback = pg_rollback_to\<rparr>"

section \<open>In memory\<close>

record jwks_memory =
  jm_rows :: "(string \<times> jwks_record) list"
  jm_now :: instant

definition zero_record :: jwks_record where
  "zero_record =
     \<lparr>jr_kid = [], jr_kty = [], jr_pem = [], jr_vault_name = [], jr_vault_version = 0, jr_status = JkRetired,
      jr_activated = 0, jr_grace_started = None, jr_retire_after = None, jr_retired = None\<rparr>"

definition mem_get :: "string \<Rightarrow> (string \<times> jwks_record) list \<Rightarrow> jwks_record" where
  "mem_get kid rows = (case map_of rows kid of None \<Rightarrow> zero_record | Some r \<Rightarrow> r)"

definition mem_put :: "string \<Rightarrow> jwks_record \<Rightarrow> (string \<times> jwks_record) list \<Rightarrow> (string \<times> jwks_record) list" where
  "mem_put kid r rows =
     (if kid \<in> set (map fst rows) then map (\<lambda>(k, v). (k, if k = kid then r else v)) rows else rows @ [(kid, r)])"

fun mem_best :: "jwks_record option \<Rightarrow> jwks_record list \<Rightarrow> jwks_record option" where
  "mem_best best [] = best"
| "mem_best best (r # rs) =
     (if jr_status r \<noteq> JkActive then mem_best best rs
      else (case best of
              None \<Rightarrow> mem_best (Some r) rs
            | Some b \<Rightarrow> mem_best (Some (if jr_activated b < jr_activated r then r else b)) rs))"

definition mem_active_key :: "jwks_memory \<Rightarrow> jwks_memory \<times> (jwks_error + jwks_record option)" where
  "mem_active_key s = (s, Inr (mem_best None (map snd (jm_rows s))))"

definition mem_grace_keys :: "instant \<Rightarrow> jwks_memory \<Rightarrow> jwks_memory \<times> (jwks_error + jwks_record list)" where
  "mem_grace_keys now s = (s, Inr (by_activation (filter (in_grace_at now) (map snd (jm_rows s)))))"

definition mem_upsert_seed :: "jwks_record \<Rightarrow> jwks_memory \<Rightarrow> jwks_memory \<times> jwks_error option" where
  "mem_upsert_seed new s =
     (s\<lparr>jm_rows :=
        (case map_of (jm_rows s) (jr_kid new) of
           Some r \<Rightarrow> mem_put (jr_kid new) (reseed new r) (jm_rows s)
         | None \<Rightarrow> mem_put (jr_kid new) (new\<lparr>jr_status := JkActive\<rparr>) (jm_rows s))\<rparr>, None)"

definition mem_demote :: "string \<Rightarrow> instant \<Rightarrow> jwks_memory \<Rightarrow> jwks_memory" where
  "mem_demote kid until s =
     s\<lparr>jm_rows := mem_put kid (demote (jm_now s) until (mem_get kid (jm_rows s))) (jm_rows s)\<rparr>"

definition mem_rotate_to ::
  "jwks_record \<Rightarrow> jwks_record \<Rightarrow> instant \<Rightarrow> jwks_memory \<Rightarrow> jwks_memory \<times> jwks_error option" where
  "mem_rotate_to previous new until s =
     (let s1 = mem_demote (jr_kid previous) until s in
      (s1\<lparr>jm_rows :=
         (case map_of (jm_rows s1) (jr_kid new) of
            Some r \<Rightarrow> mem_put (jr_kid new) (promote_to new r) (jm_rows s1)
          | None \<Rightarrow> mem_put (jr_kid new) (restore new) (jm_rows s1))\<rparr>, None))"

definition mem_rollback_to ::
  "jwks_record \<Rightarrow> jwks_record \<Rightarrow> instant \<Rightarrow> jwks_memory \<Rightarrow> jwks_memory \<times> jwks_error option" where
  "mem_rollback_to restored demoted until s =
     (let s1 = mem_demote (jr_kid demoted) until s in
      (s1\<lparr>jm_rows := mem_put (jr_kid restored) (restore (mem_get (jr_kid restored) (jm_rows s1))) (jm_rows s1)\<rparr>, None))"

definition mem_store :: "jwks_memory jwks_store" where
  "mem_store =
     \<lparr>st_active = mem_active_key, st_grace = mem_grace_keys, st_seed = mem_upsert_seed, st_rotate = mem_rotate_to,
      st_rollback = mem_rollback_to\<rparr>"

section \<open>The contract\<close>

text \<open>What matters of a key: its status, when it was activated and when it leaves the grace period.\<close>

type_synonym key_view = "jwks_status \<times> instant \<times> instant option"
type_synonym key_table = "string \<Rightarrow> key_view option"

definition view :: "jwks_record \<Rightarrow> key_view" where
  "view r = (jr_status r, jr_activated r, jr_retire_after r)"

definition is_active :: "key_table \<Rightarrow> string \<Rightarrow> bool" where
  "is_active t k \<longleftrightarrow> (\<exists>a u. t k = Some (JkActive, a, u))"

definition in_grace :: "key_table \<Rightarrow> instant \<Rightarrow> string \<Rightarrow> bool" where
  "in_grace t now k \<longleftrightarrow> (\<exists>a u. t k = Some (JkGrace, a, u) \<and> (case u of None \<Rightarrow> True | Some x \<Rightarrow> now < x))"

definition grace_view :: "instant \<Rightarrow> key_view option \<Rightarrow> key_view option" where
  "grace_view until v = map_option (\<lambda>(s, a, u). (JkGrace, a, Some until)) v"

definition active_view :: "key_view option \<Rightarrow> key_view option" where
  "active_view v = map_option (\<lambda>(s, a, u). (JkActive, a, None)) v"

definition seed_view :: "instant \<Rightarrow> key_view option \<Rightarrow> key_view option" where
  "seed_view now v = Some (case v of None \<Rightarrow> (JkActive, now, None) | Some (s, a, u) \<Rightarrow> (JkActive, a, u))"

definition active_answer :: "key_table \<Rightarrow> jwks_record option \<Rightarrow> bool" where
  "active_answer t answer \<longleftrightarrow>
     (case answer of
        None \<Rightarrow> \<forall>k. \<not> is_active t k
      | Some r \<Rightarrow> t (jr_kid r) = Some (view r) \<and> jr_status r = JkActive \<and>
          (\<forall>k b u. t k = Some (JkActive, b, u) \<longrightarrow> b \<le> jr_activated r))"

definition grace_answer :: "key_table \<Rightarrow> instant \<Rightarrow> jwks_record list \<Rightarrow> bool" where
  "grace_answer t now rs \<longleftrightarrow>
     jr_kid ` set rs = {k. in_grace t now k} \<and> (\<forall>r \<in> set rs. t (jr_kid r) = Some (view r))"

definition rotated :: "string \<Rightarrow> jwks_record \<Rightarrow> instant \<Rightarrow> key_table \<Rightarrow> key_table" where
  "rotated previous new until t =
     t(previous := grace_view until (t previous), jr_kid new \<mapsto> (JkActive, jr_activated new, None))"

definition rolled_back :: "string \<Rightarrow> string \<Rightarrow> instant \<Rightarrow> key_table \<Rightarrow> key_table" where
  "rolled_back restored demoted until t =
     t(demoted := grace_view until (t demoted), restored := active_view (t restored))"

definition seeded :: "jwks_record \<Rightarrow> key_table \<Rightarrow> key_table" where
  "seeded new t = t(jr_kid new := seed_view (jr_activated new) (t (jr_kid new)))"

text \<open>
  Every operation keeps the state well formed. A read answers from the table; a write changes the table as
  described, or not at all when it reports an error.
\<close>

locale key_store =
  fixes st :: "'s jwks_store" and tab :: "'s \<Rightarrow> key_table" and ok :: "'s \<Rightarrow> bool"
  assumes active_law: "ok s \<Longrightarrow> st_active st s = (s', ra) \<Longrightarrow>
      ok s' \<and> tab s' = tab s \<and> (\<forall>x. ra = Inr x \<longrightarrow> active_answer (tab s) x)"
    and grace_law: "ok s \<Longrightarrow> st_grace st now s = (s', rg) \<Longrightarrow>
      ok s' \<and> tab s' = tab s \<and> (\<forall>x. rg = Inr x \<longrightarrow> grace_answer (tab s) now x)"
    and seed_law: "ok s \<Longrightarrow> jr_retire_after new = None \<Longrightarrow> st_seed st new s = (s', e) \<Longrightarrow>
      ok s' \<and> tab s' = (if e = None then seeded new (tab s) else tab s)"
    and rotate_law: "ok s \<Longrightarrow> tab s (jr_kid previous) \<noteq> None \<Longrightarrow> st_rotate st previous new until s = (s', e) \<Longrightarrow>
      ok s' \<and> tab s' = (if e = None then rotated (jr_kid previous) new until (tab s) else tab s)"
    and rollback_law: "ok s \<Longrightarrow> tab s (jr_kid demoted) \<noteq> None \<Longrightarrow> tab s (jr_kid restored) \<noteq> None \<Longrightarrow>
      st_rollback st restored demoted until s = (s', e) \<Longrightarrow>
      ok s' \<and> tab s' = (if e = None then rolled_back (jr_kid restored) (jr_kid demoted) until (tab s) else tab s)"

section \<open>PostgreSQL keeps the contract\<close>

definition rows_table :: "jwks_record list \<Rightarrow> key_table" where
  "rows_table rows = map_of (map (\<lambda>r. (jr_kid r, view r)) rows)"

definition pg_table :: "jwks_db \<Rightarrow> key_table" where
  "pg_table db = rows_table (jk_rows db)"

definition pg_ok :: "jwks_db \<Rightarrow> bool" where
  "pg_ok db \<longleftrightarrow> distinct (map jr_kid (jk_rows db))"

lemma kid_updates [simp]:
  "jr_kid (demote n u r) = jr_kid r" "jr_kid (restore r) = jr_kid r" "jr_kid (promote_to x r) = jr_kid r"
  "jr_kid (reseed x r) = jr_kid r"
  by (simp_all add: demote_def restore_def promote_to_def reseed_def)

lemma view_updates [simp]:
  "Some (view (demote n u r)) = grace_view u (Some (view r))" "Some (view (restore r)) = active_view (Some (view r))"
  "view (promote_to x r) = (JkActive, jr_activated x, None)"
  by (simp_all add: demote_def restore_def promote_to_def view_def grace_view_def active_view_def)

lemma view_reseed: "Some (view (reseed x r)) = seed_view t (Some (view r))"
  by (simp add: reseed_def view_def seed_view_def)

lemma find_kid:
  "distinct (map jr_kid rows) \<Longrightarrow> find (\<lambda>r. jr_kid r = k) rows = Some r \<longleftrightarrow> r \<in> set rows \<and> jr_kid r = k"
  by (induction rows) (auto simp: image_iff)

lemma rows_table_find: "rows_table rows k = map_option view (find (\<lambda>r. jr_kid r = k) rows)"
  by (induction rows) (auto simp: rows_table_def)

lemma rows_table_Some:
  "distinct (map jr_kid rows) \<Longrightarrow> rows_table rows k = Some v \<longleftrightarrow> (\<exists>r \<in> set rows. jr_kid r = k \<and> v = view r)"
  using find_kid [of rows k] by (auto simp: rows_table_find)

lemma update_row_kids: "(\<And>r. jr_kid (f r) = jr_kid r) \<Longrightarrow> map jr_kid (update_row k f rows) = map jr_kid rows"
  by (simp add: update_row_def)

lemma find_update_row:
  "(\<And>r. jr_kid (f r) = jr_kid r) \<Longrightarrow>
     find (\<lambda>r. jr_kid r = x) (update_row k f rows) =
       (if x = k then map_option f (find (\<lambda>r. jr_kid r = x) rows) else find (\<lambda>r. jr_kid r = x) rows)"
  by (induction rows) (auto simp: update_row_def)

lemma rows_table_update:
  assumes "distinct (map jr_kid rows)" "\<And>r. jr_kid (f r) = jr_kid r"
  shows "distinct (map jr_kid (update_row k f rows))"
    and "rows_table (update_row k f rows) =
      (rows_table rows)(k := map_option view (map_option f (find (\<lambda>r. jr_kid r = k) rows)))"
  using assms by (auto simp: update_row_kids fun_eq_iff rows_table_find find_update_row)

lemma rows_table_view:
  assumes "distinct (map jr_kid rows)" "\<And>r. jr_kid (f r) = jr_kid r" "\<And>r. Some (view (f r)) = g (Some (view r))" "g None = None"
  shows "rows_table (update_row k f rows) = (rows_table rows)(k := g (rows_table rows k))"
  using rows_table_update(2) [OF assms(1,2), of k] assms(3,4)
  by (cases "find (\<lambda>r. jr_kid r = k) rows") (auto simp: rows_table_find)

lemma rows_table_upsert:
  assumes "distinct (map jr_kid rows)" "\<And>r. jr_kid (f r) = jr_kid r" "\<And>r. Some (view (f r)) = g (Some (view r))"
    "g None = Some (JkActive, jr_activated new, None)"
  shows "distinct (map jr_kid (upsert_row new f rows))"
    and "rows_table (upsert_row new f rows) = (rows_table rows)(jr_kid new := g (rows_table rows (jr_kid new)))"
proof -
  show "distinct (map jr_kid (upsert_row new f rows))"
    using rows_table_update(1) [OF assms(1,2)] assms(1) by (simp add: upsert_row_def)
  show "rows_table (upsert_row new f rows) = (rows_table rows)(jr_kid new := g (rows_table rows (jr_kid new)))"
  proof (cases "jr_kid new \<in> set (map jr_kid rows)")
    case True
    then obtain r where "r \<in> set rows" "jr_kid r = jr_kid new"
      by auto
    then have "find (\<lambda>r. jr_kid r = jr_kid new) rows = Some r"
      by (simp add: find_kid [OF assms(1)])
    with True rows_table_update(2) [OF assms(1,2), of "jr_kid new"] assms(3) show ?thesis
      by (simp add: upsert_row_def rows_table_find)
  next
    case False
    then have none: "rows_table rows (jr_kid new) = None"
      by (simp add: rows_table_def map_of_eq_None_iff image_image)
    have new: "view (restore new) = (JkActive, jr_activated new, None)"
      by (simp add: view_def restore_def)
    have "rows_table (rows @ [restore new]) = (rows_table rows)(jr_kid new \<mapsto> view (restore new))"
    proof
      fix k
      show "rows_table (rows @ [restore new]) k = ((rows_table rows)(jr_kid new \<mapsto> view (restore new))) k"
        using none by (simp add: rows_table_def map_add_def split: option.split)
    qed
    then show ?thesis
      using False assms(4) none by (simp add: upsert_row_def new)
  qed
qed

lemma by_activation_set [simp]: "set (by_activation rs) = set rs"
  by (simp add: by_activation_def)

lemma by_activation_head: "by_activation rs = r # rest \<Longrightarrow> x \<in> set rs \<Longrightarrow> jr_activated x \<le> jr_activated r"
  using sorted_sort_key [of "\<lambda>r. - jr_activated r" rs] set_sort [of "\<lambda>r. - jr_activated r" rs]
  by (auto simp: by_activation_def)

lemma active_answer_rows:
  assumes "distinct (map jr_kid rows)"
  shows "by_activation (filter (\<lambda>r. jr_status r = JkActive) rows) = [] \<Longrightarrow> active_answer (rows_table rows) None"
    and "by_activation (filter (\<lambda>r. jr_status r = JkActive) rows) = r # rest \<Longrightarrow> active_answer (rows_table rows) (Some r)"
proof -
  note row = rows_table_Some [OF assms]
  show "by_activation (filter (\<lambda>r. jr_status r = JkActive) rows) = [] \<Longrightarrow> active_answer (rows_table rows) None"
  proof -
    assume "by_activation (filter (\<lambda>r. jr_status r = JkActive) rows) = []"
    then have "set (filter (\<lambda>r. jr_status r = JkActive) rows) = {}"
      using by_activation_set [of "filter (\<lambda>r. jr_status r = JkActive) rows"] by simp
    then have "\<forall>r \<in> set rows. jr_status r \<noteq> JkActive"
      by auto
    then show ?thesis
      using row by (auto simp: active_answer_def is_active_def view_def)
  qed
  assume *: "by_activation (filter (\<lambda>r. jr_status r = JkActive) rows) = r # rest"
  then have "r \<in> set rows" "jr_status r = JkActive"
    using by_activation_set [of "filter (\<lambda>r. jr_status r = JkActive) rows"] by auto
  moreover have "x \<in> set rows \<Longrightarrow> jr_status x = JkActive \<Longrightarrow> jr_activated x \<le> jr_activated r" for x
    using by_activation_head [OF *] by simp
  ultimately show "active_answer (rows_table rows) (Some r)"
    using row by (auto simp: active_answer_def view_def)
qed

lemma scan_rows_id: "scan_rows rs = Inr xs \<Longrightarrow> xs = rs"
  by (induction rs arbitrary: xs) (auto simp: and_then_def scan_row_def split: sum.splits if_splits)

lemma grace_answer_rows:
  assumes "distinct (map jr_kid rows)"
  shows "grace_answer (rows_table rows) now (by_activation (filter (in_grace_at now) rows))"
  using rows_table_Some [OF assms]
  by (fastforce simp: grace_answer_def in_grace_def in_grace_at_def view_def image_iff)

lemma tx_statements_rows:
  "tx_statements fs db = (db', None) \<Longrightarrow> jk_rows db' = foldl (\<lambda>rows f. f rows) (jk_rows db) fs"
  by (induction fs db rule: tx_statements.induct) (auto simp: pg_exec_def split: option.splits)

lemma pg_tx_rows:
  "pg_tx fs db = (db', e) \<Longrightarrow>
     jk_rows db' = (if e = None then foldl (\<lambda>rows f. f rows) (jk_rows db) fs else jk_rows db)"
  using tx_statements_rows [of "id # fs @ [id]" db]
  by (auto simp: pg_tx_def split: prod.splits option.splits)

lemma pg_exec_rows:
  "pg_exec (\<lambda>db. (db, f db)) db = (db', r) \<Longrightarrow> jk_rows db' = jk_rows db \<and> (\<forall>x. r = Inr x \<longrightarrow> x = f db)"
  by (auto simp: pg_exec_def split: option.splits)

interpretation pg: key_store pg_store pg_table pg_ok
proof
  fix s s' ra
  assume "pg_ok s" "st_active pg_store s = (s', ra)"
  then show "pg_ok s' \<and> pg_table s' = pg_table s \<and> (\<forall>x. ra = Inr x \<longrightarrow> active_answer (pg_table s) x)"
    using active_answer_rows [of "jk_rows s"]
    by (auto simp: pg_store_def pg_active_key_def pg_ok_def pg_table_def and_then_def scan_row_def
        dest!: pg_exec_rows split: prod.splits sum.splits list.splits if_splits)
next
  fix s now s' rg
  assume "pg_ok s" "st_grace pg_store now s = (s', rg)"
  then show "pg_ok s' \<and> pg_table s' = pg_table s \<and> (\<forall>x. rg = Inr x \<longrightarrow> grace_answer (pg_table s) now x)"
    using grace_answer_rows [of "jk_rows s"]
    by (auto simp: pg_store_def pg_grace_keys_def pg_ok_def pg_table_def
        dest!: pg_exec_rows scan_rows_id split: prod.splits sum.splits)
next
  fix s :: jwks_db and new s' e
  assume ok: "pg_ok s" and "jr_retire_after new = None" and run: "st_seed pg_store new s = (s', e)"
  have rows: "jk_rows s' = (if e = None then upsert_row new (reseed new) (jk_rows s) else jk_rows s)"
    using run by (auto simp: pg_store_def pg_upsert_seed_def pg_exec_def split: option.splits)
  have d: "distinct (map jr_kid (jk_rows s))"
    using ok by (simp add: pg_ok_def)
  have none: "seed_view (jr_activated new) None = Some (JkActive, jr_activated new, None)"
    by (simp add: seed_view_def)
  show "pg_ok s' \<and> pg_table s' = (if e = None then seeded new (pg_table s) else pg_table s)"
    using rows rows_table_upsert [OF d kid_updates(4) view_reseed none] d
    by (simp add: pg_ok_def pg_table_def seeded_def)
next
  fix s :: jwks_db and previous new s' e until
  assume ok: "pg_ok s" and "pg_table s (jr_kid previous) \<noteq> None"
    and run: "st_rotate pg_store previous new until s = (s', e)"
  let ?demoted = "update_row (jr_kid previous) (demote (jk_now s) until) (jk_rows s)"
  have rows: "jk_rows s' = (if e = None then upsert_row new (promote_to new) ?demoted else jk_rows s)"
    using run by (simp add: pg_store_def pg_rotate_to_def pg_tx_rows)
  have d: "distinct (map jr_kid (jk_rows s))"
    using ok by (simp add: pg_ok_def)
  have d1: "distinct (map jr_kid ?demoted)"
    by (rule rows_table_update(1) [OF d]) simp
  have t1: "rows_table ?demoted = (rows_table (jk_rows s))(jr_kid previous := grace_view until (rows_table (jk_rows s) (jr_kid previous)))"
    by (rule rows_table_view [OF d]) (simp_all add: grace_view_def)
  show "pg_ok s' \<and> pg_table s' = (if e = None then rotated (jr_kid previous) new until (pg_table s) else pg_table s)"
    using rows_table_upsert [OF d1, of "promote_to new" "\<lambda>_. Some (JkActive, jr_activated new, None)" new] rows d t1
    by (simp add: pg_ok_def pg_table_def rotated_def)
next
  fix s :: jwks_db and demoted restored s' e until
  assume ok: "pg_ok s" and run: "st_rollback pg_store restored demoted until s = (s', e)"
  let ?demoted = "update_row (jr_kid demoted) (demote (jk_now s) until) (jk_rows s)"
  have rows: "jk_rows s' = (if e = None then update_row (jr_kid restored) restore ?demoted else jk_rows s)"
    using run by (simp add: pg_store_def pg_rollback_to_def pg_tx_rows)
  have d: "distinct (map jr_kid (jk_rows s))"
    using ok by (simp add: pg_ok_def)
  have d1: "distinct (map jr_kid ?demoted)"
    by (rule rows_table_update(1) [OF d]) simp
  have t1: "rows_table ?demoted = (rows_table (jk_rows s))(jr_kid demoted := grace_view until (rows_table (jk_rows s) (jr_kid demoted)))"
    by (rule rows_table_view [OF d]) (simp_all add: grace_view_def)
  have d2: "distinct (map jr_kid (update_row (jr_kid restored) restore ?demoted))"
    by (rule rows_table_update(1) [OF d1]) simp
  have t2: "rows_table (update_row (jr_kid restored) restore ?demoted) =
      (rows_table ?demoted)(jr_kid restored := active_view (rows_table ?demoted (jr_kid restored)))"
    by (rule rows_table_view [OF d1]) (simp_all add: active_view_def)
  show "pg_ok s' \<and> pg_table s' =
      (if e = None then rolled_back (jr_kid restored) (jr_kid demoted) until (pg_table s) else pg_table s)"
    using rows d d2 by (auto simp: pg_ok_def pg_table_def rolled_back_def t1 t2 active_view_def grace_view_def
        option.map_comp comp_def split_def)
qed

end
