(* ===== verification/Jwks_Memory.thy ===== *)
theory Jwks_Memory
  imports Jwks_Stores
begin

text \<open>The in-memory store of signing keys keeps the contract of the interface.\<close>

section \<open>The in-memory store keeps the contract\<close>

definition mem_table :: "jwks_memory \<Rightarrow> key_table" where
  "mem_table s = map_option view \<circ> map_of (jm_rows s)"

text \<open>The keys of the map are distinct, and every row has the id it is stored under.\<close>

definition mem_ok :: "jwks_memory \<Rightarrow> bool" where
  "mem_ok s \<longleftrightarrow> distinct (map fst (jm_rows s)) \<and> (\<forall>(k, r) \<in> set (jm_rows s). jr_kid r = k)"

lemma map_of_put: "map_of (mem_put k r rows) = (map_of rows)(k \<mapsto> r)"
proof (cases "k \<in> set (map fst rows)")
  case True
  have "map_of (map (\<lambda>(k', v). (k', if k' = k then r else v)) rows) x =
      (if x = k then map_option (\<lambda>_. r) (map_of rows x) else map_of rows x)" for x
    by (induction rows) auto
  moreover obtain v where "map_of rows k = Some v"
    using True by (metis map_of_eq_None_iff not_None_eq set_map)
  ultimately show ?thesis
    using True by (simp add: mem_put_def fun_eq_iff)
next
  case False
  then have "map_of rows k = None"
    by (simp add: map_of_eq_None_iff)
  with False show ?thesis
    by (auto simp: mem_put_def fun_eq_iff map_add_def split: option.split)
qed

lemma mem_ok_put:
  assumes ok: "mem_ok s" and r: "jr_kid r = k"
  shows "mem_ok (s\<lparr>jm_rows := mem_put k r (jm_rows s)\<rparr>)"
proof (cases "k \<in> set (map fst (jm_rows s))")
  case True
  have "map fst (map (\<lambda>(k', v). (k', if k' = k then r else v)) rows) = map fst rows" for rows
    by (induction rows) auto
  then have "distinct (map fst (map (\<lambda>(k', v). (k', if k' = k then r else v)) (jm_rows s)))"
    using ok by (simp only: mem_ok_def)
  moreover have "\<forall>(k', v) \<in> set (map (\<lambda>(k', v). (k', if k' = k then r else v)) (jm_rows s)). jr_kid v = k'"
    using ok r by (auto simp: mem_ok_def)
  moreover have "jm_rows (s\<lparr>jm_rows := x\<rparr>) = x" for x
    by simp
  ultimately show ?thesis
    using True by (simp only: mem_ok_def mem_put_def if_True)
next
  case False
  then show ?thesis
    using ok r by (auto simp: mem_ok_def mem_put_def)
qed

lemma mem_table_put:
  "mem_table (s\<lparr>jm_rows := mem_put k r (jm_rows s)\<rparr>) = (mem_table s)(k \<mapsto> view r)"
  by (auto simp: mem_table_def map_of_put)

lemma mem_table_Some:
  "mem_ok s \<Longrightarrow> mem_table s k = Some v \<longleftrightarrow> (\<exists>r \<in> set (map snd (jm_rows s)). jr_kid r = k \<and> v = view r)"
proof -
  assume ok: "mem_ok s"
  have "mem_table s k = Some v \<longleftrightarrow> (\<exists>r. map_of (jm_rows s) k = Some r \<and> v = view r)"
    by (auto simp: mem_table_def)
  also have "\<dots> \<longleftrightarrow> (\<exists>r. (k, r) \<in> set (jm_rows s) \<and> v = view r)"
    using ok by (simp add: mem_ok_def)
  also have "\<dots> \<longleftrightarrow> (\<exists>r \<in> set (map snd (jm_rows s)). jr_kid r = k \<and> v = view r)"
  proof
    assume "\<exists>r. (k, r) \<in> set (jm_rows s) \<and> v = view r"
    then obtain r where r: "(k, r) \<in> set (jm_rows s)" "v = view r" by blast
    then have "jr_kid r = k" "r \<in> set (map snd (jm_rows s))"
      using ok by (auto simp: mem_ok_def intro: image_eqI [where x = "(k, r)"])
    with r(2) show "\<exists>r \<in> set (map snd (jm_rows s)). jr_kid r = k \<and> v = view r" by blast
  next
    assume "\<exists>r \<in> set (map snd (jm_rows s)). jr_kid r = k \<and> v = view r"
    then obtain r k' where "(k', r) \<in> set (jm_rows s)" "jr_kid r = k" "v = view r" by auto
    moreover from this have "k' = k"
      using ok by (auto simp: mem_ok_def)
    ultimately show "\<exists>r. (k, r) \<in> set (jm_rows s) \<and> v = view r" by blast
  qed
  finally show ?thesis .
qed

lemma mem_best_spec:
  "mem_best best rs = res \<Longrightarrow> (\<forall>b. best = Some b \<longrightarrow> jr_status b = JkActive) \<Longrightarrow>
     (case res of
        None \<Rightarrow> best = None \<and> (\<forall>r \<in> set rs. jr_status r \<noteq> JkActive)
      | Some x \<Rightarrow> jr_status x = JkActive \<and> (best = Some x \<or> x \<in> set rs) \<and>
          (\<forall>r \<in> set rs. jr_status r = JkActive \<longrightarrow> jr_activated r \<le> jr_activated x) \<and>
          (\<forall>b. best = Some b \<longrightarrow> jr_activated b \<le> jr_activated x))"
proof (induction best rs rule: mem_best.induct)
  case (2 best r rs)
  show ?case
  proof (cases "jr_status r = JkActive")
    case False
    with 2 show ?thesis by (auto split: option.splits)
  next
    case active: True
    show ?thesis
    proof (cases best)
      case None
      with 2(2)[OF _ None] active 2(4) show ?thesis by (auto split: option.splits)
    next
      case (Some b)
      have b: "jr_status b = JkActive"
        using 2(5) Some by simp
      with 2(3)[OF _ Some] active 2(4) Some show ?thesis
        by (cases "jr_activated b < jr_activated r") (auto split: option.splits)
    qed
  qed
qed (auto split: option.splits)

lemma mem_get_view: "mem_table s k \<noteq> None \<Longrightarrow> Some (view (mem_get k (jm_rows s))) = mem_table s k"
  by (auto simp: mem_table_def mem_get_def)

lemma mem_get_kid: "mem_ok s \<Longrightarrow> mem_table s k \<noteq> None \<Longrightarrow> jr_kid (mem_get k (jm_rows s)) = k"
  by (auto simp: mem_table_def mem_get_def mem_ok_def dest!: map_of_SomeD)

lemma mem_demote_table:
  assumes "mem_ok s" "mem_table s k \<noteq> None"
  shows "mem_ok (mem_demote k until s)"
    and "mem_table (mem_demote k until s) = (mem_table s)(k := grace_view until (mem_table s k))"
proof -
  let ?r = "demote (jm_now s) until (mem_get k (jm_rows s))"
  have "jr_kid ?r = k" "Some (view ?r) = grace_view until (mem_table s k)"
    using mem_get_kid [OF assms] mem_get_view [OF assms(2)] by (simp_all only: kid_updates view_updates)
  then show "mem_ok (mem_demote k until s)"
    "mem_table (mem_demote k until s) = (mem_table s)(k := grace_view until (mem_table s k))"
    using mem_ok_put [OF assms(1)] by (simp_all only: mem_demote_def mem_table_put)
qed

lemma mem_active_answer: "mem_ok s \<Longrightarrow> active_answer (mem_table s) (mem_best None (map snd (jm_rows s)))"
  using mem_best_spec [of None "map snd (jm_rows s)", OF refl] mem_table_Some [of s]
  by (fastforce simp: active_answer_def is_active_def view_def split: option.splits)

lemma mem_grace_answer:
  "mem_ok s \<Longrightarrow> grace_answer (mem_table s) now (by_activation (filter (in_grace_at now) (map snd (jm_rows s))))"
  using mem_table_Some [of s]
  by (fastforce simp: grace_answer_def in_grace_def in_grace_at_def view_def image_iff)

interpretation mem: key_store mem_store mem_table mem_ok
proof
  fix s s' ra
  assume "mem_ok s" "st_active mem_store s = (s', ra)"
  then show "mem_ok s' \<and> mem_table s' = mem_table s \<and> (\<forall>x. ra = Inr x \<longrightarrow> active_answer (mem_table s) x)"
    using mem_active_answer [of s] by (auto simp: mem_store_def mem_active_key_def)
next
  fix s now s' rg
  assume "mem_ok s" "st_grace mem_store now s = (s', rg)"
  then show "mem_ok s' \<and> mem_table s' = mem_table s \<and> (\<forall>x. rg = Inr x \<longrightarrow> grace_answer (mem_table s) now x)"
    using mem_grace_answer [of s now] by (auto simp: mem_store_def mem_grace_keys_def)
next
  fix s new s' e
  assume ok: "mem_ok s" and new: "jr_retire_after new = None" and run: "st_seed mem_store new s = (s', e)"
  have seed: "mem_table s (jr_kid new) = map_option view (map_of (jm_rows s) (jr_kid new))"
    by (simp add: mem_table_def)
  show "mem_ok s' \<and> mem_table s' = (if e = None then seeded new (mem_table s) else mem_table s)"
  proof (cases "map_of (jm_rows s) (jr_kid new)")
    case None
    then have "s' = s\<lparr>jm_rows := mem_put (jr_kid new) (new\<lparr>jr_status := JkActive\<rparr>) (jm_rows s)\<rparr>" "e = None"
      using run by (simp_all add: mem_store_def mem_upsert_seed_def)
    then show ?thesis
      using mem_ok_put [OF ok, of "new\<lparr>jr_status := JkActive\<rparr>"] None new seed
      by (simp add: mem_table_put seeded_def seed_view_def view_def)
  next
    case (Some r)
    then have "s' = s\<lparr>jm_rows := mem_put (jr_kid new) (reseed new r) (jm_rows s)\<rparr>" "e = None"
      using run by (simp_all add: mem_store_def mem_upsert_seed_def)
    moreover have "jr_kid r = jr_kid new"
      using ok Some by (auto simp: mem_ok_def dest!: map_of_SomeD)
    ultimately show ?thesis
      using mem_ok_put [OF ok, of "reseed new r"] Some seed view_reseed [of new r "jr_activated new", symmetric]
      by (simp add: mem_table_put seeded_def)
  qed
next
  fix s previous new s' e until
  assume ok: "mem_ok s" and known: "mem_table s (jr_kid previous) \<noteq> None"
    and run: "st_rotate mem_store previous new until s = (s', e)"
  note d = mem_demote_table [OF ok known, of until]
  let ?s1 = "mem_demote (jr_kid previous) until s"
  obtain r where r: "s' = ?s1\<lparr>jm_rows := mem_put (jr_kid new) r (jm_rows ?s1)\<rparr>" "e = None" "jr_kid r = jr_kid new"
      "view r = (JkActive, jr_activated new, None)"
  proof (cases "map_of (jm_rows ?s1) (jr_kid new)")
    case None
    with run that [of "restore new"] show ?thesis
      by (simp add: mem_store_def mem_rotate_to_def Let_def) (simp add: view_def restore_def)
  next
    case (Some x)
    then have "jr_kid x = jr_kid new"
      using d(1) by (auto simp: mem_ok_def dest!: map_of_SomeD)
    with Some run that [of "promote_to new x"] show ?thesis
      by (simp add: mem_store_def mem_rotate_to_def Let_def)
  qed
  then show "mem_ok s' \<and> mem_table s' = (if e = None then rotated (jr_kid previous) new until (mem_table s) else mem_table s)"
    using mem_ok_put [OF d(1) r(3)] by (simp add: mem_table_put d(2) rotated_def)
next
  fix s demoted restored s' e until
  assume ok: "mem_ok s" and known: "mem_table s (jr_kid demoted) \<noteq> None" "mem_table s (jr_kid restored) \<noteq> None"
    and run: "st_rollback mem_store restored demoted until s = (s', e)"
  note d = mem_demote_table [OF ok known(1), of until]
  let ?s1 = "mem_demote (jr_kid demoted) until s"
  let ?r = "restore (mem_get (jr_kid restored) (jm_rows ?s1))"
  have s': "s' = ?s1\<lparr>jm_rows := mem_put (jr_kid restored) ?r (jm_rows ?s1)\<rparr>" "e = None"
    using run by (simp_all add: mem_store_def mem_rollback_to_def Let_def)
  have known1: "mem_table ?s1 (jr_kid restored) \<noteq> None"
    using known by (auto simp: d(2) grace_view_def)
  have "Some (view ?r) = active_view (mem_table s (jr_kid restored))"
    using mem_get_view [OF known1] known by (auto simp: d(2) grace_view_def active_view_def view_updates(2))
  then show "mem_ok s' \<and> mem_table s' =
      (if e = None then rolled_back (jr_kid restored) (jr_kid demoted) until (mem_table s) else mem_table s)"
    using mem_ok_put [OF d(1), of ?r] mem_get_kid [OF d(1) known1] s'
    by (simp add: mem_table_put d(2) rolled_back_def)
qed

end
