(* ===== verification/Jwks_Service.thy ===== *)
theory Jwks_Service
  imports Jwks_Memory
begin

text \<open>
  The rotation service over any store that keeps the contract: one key is active at a time as long as operations do
  not overlap, and a key that signs stays published for the grace period. Overlapping rotations break this.
\<close>

section \<open>Tables\<close>

definition at_most_one :: "key_table \<Rightarrow> bool" where
  "at_most_one t \<longleftrightarrow> (\<forall>k k'. is_active t k \<longrightarrow> is_active t k' \<longrightarrow> k = k')"

text \<open>Active, or in grace until \<open>x\<close> at least.\<close>

definition kept_until :: "key_table \<Rightarrow> instant \<Rightarrow> string \<Rightarrow> bool" where
  "kept_until t x k \<longleftrightarrow>
     is_active t k \<or> (\<exists>a u. t k = Some (JkGrace, a, u) \<and> (case u of None \<Rightarrow> True | Some y \<Rightarrow> x \<le> y))"

lemma is_active_rotated:
  "is_active (rotated previous new until t) k \<longleftrightarrow> k = jr_kid new \<or> k \<noteq> previous \<and> is_active t k"
  by (auto simp: rotated_def is_active_def grace_view_def)

lemma is_active_rolled_back:
  "t restored \<noteq> None \<Longrightarrow>
     is_active (rolled_back restored demoted until t) k \<longleftrightarrow> k = restored \<or> k \<noteq> demoted \<and> is_active t k"
  by (auto simp: rolled_back_def is_active_def grace_view_def active_view_def)

lemma is_active_seeded: "is_active (seeded new t) k \<longleftrightarrow> k = jr_kid new \<or> is_active t k"
  by (auto simp: seeded_def is_active_def seed_view_def split: option.splits)

lemma at_most_one_rotated:
  "at_most_one t \<Longrightarrow> is_active t previous \<Longrightarrow> at_most_one (rotated previous new until t)"
  by (auto simp: at_most_one_def is_active_rotated)

lemma at_most_one_rolled_back:
  "at_most_one t \<Longrightarrow> is_active t demoted \<Longrightarrow> t restored \<noteq> None \<Longrightarrow> at_most_one (rolled_back restored demoted until t)"
  by (auto simp: at_most_one_def is_active_rolled_back)

lemma at_most_one_seeded: "\<forall>k. \<not> is_active t k \<Longrightarrow> at_most_one (seeded new t)"
  by (auto simp: at_most_one_def is_active_seeded)

lemma kept_rotated:
  "kept_until t x k \<Longrightarrow> x \<le> until \<Longrightarrow> kept_until (rotated previous new until t) x k"
  by (auto simp: kept_until_def rotated_def is_active_def grace_view_def)

lemma kept_rolled_back:
  "kept_until t x k \<Longrightarrow> x \<le> until \<Longrightarrow> kept_until (rolled_back restored demoted until t) x k"
  by (auto simp: kept_until_def rolled_back_def is_active_def grace_view_def active_view_def)

lemma kept_seeded: "kept_until t x k \<Longrightarrow> kept_until (seeded new t) x k"
  by (auto simp: kept_until_def seeded_def is_active_def seed_view_def)

lemma answer_active: "active_answer t (Some r) \<Longrightarrow> is_active t (jr_kid r)"
  by (auto simp: active_answer_def is_active_def view_def)

section \<open>Operations\<close>

inductive jwks_op :: "'s jwks_store \<Rightarrow> rotation_policy \<Rightarrow> instant \<Rightarrow> 's \<Rightarrow> 's \<Rightarrow> bool"
  for st p now s where
  op_publish: "jwks_op st p now s (fst (published_jwks st vault now s))"
| op_rotate: "jwks_op st p now s (fst (rotate_key st p vault now s))"
| op_rollback: "jwks_op st p now s (fst (rollback_key st p vault target now s))"
| op_sign: "jwks_op st p now s (fst (sign_active st vault digest now s))"
| op_signing_key: "jwks_op st p now s (fst (active_signing_key st vault now s))"

text \<open>Operations one after the other, at times that do not decrease.\<close>

inductive jwks_run :: "'s jwks_store \<Rightarrow> rotation_policy \<Rightarrow> instant \<Rightarrow> 's \<Rightarrow> instant \<Rightarrow> 's \<Rightarrow> bool"
  for st p where
  run_start: "jwks_run st p t s t s"
| run_step: "jwks_run st p t0 s0 t s \<Longrightarrow> t \<le> t' \<Longrightarrow> jwks_op st p t' s s' \<Longrightarrow> jwks_run st p t0 s0 t' s'"

text \<open>How an operation may change the table.\<close>

definition table_step :: "rotation_policy \<Rightarrow> instant \<Rightarrow> key_table \<Rightarrow> key_table \<Rightarrow> bool" where
  "table_step p now t t' \<longleftrightarrow>
     t' = t \<or> (\<exists>previous new. is_active t previous \<and> t' = rotated previous new (grace_until p now) t) \<or>
     (\<exists>restored demoted. is_active t demoted \<and> t restored \<noteq> None \<and>
        t' = rolled_back restored demoted (grace_until p now) t)"

definition seed_step :: "key_table \<Rightarrow> key_table \<Rightarrow> bool" where
  "seed_step t t' \<longleftrightarrow> t' = t \<or> (\<forall>k. \<not> is_active t k) \<and> (\<exists>new. t' = seeded new t)"

lemma table_step_inv:
  "table_step p now t t' \<Longrightarrow> at_most_one t \<Longrightarrow> at_most_one t'"
  "table_step p now t t' \<Longrightarrow> kept_until t x k \<Longrightarrow> x \<le> grace_until p now \<Longrightarrow> kept_until t' x k"
  by (auto simp: table_step_def at_most_one_rotated at_most_one_rolled_back kept_rotated kept_rolled_back)

lemma seed_step_inv:
  "seed_step t t' \<Longrightarrow> at_most_one t \<Longrightarrow> at_most_one t'" "seed_step t t' \<Longrightarrow> kept_until t x k \<Longrightarrow> kept_until t' x k"
  by (auto simp: seed_step_def at_most_one_seeded kept_seeded)

context key_store begin

lemma ensure_seeded_step:
  assumes "ok s" "ensure_seeded st vault now s = (s', e)"
  shows "ok s' \<and> seed_step (tab s) (tab s')"
proof -
  obtain s1 r where r: "st_active st s = (s1, r)" by fastforce
  note read = active_law [OF assms(1) r]
  show ?thesis
  proof (cases "\<exists>key pem. r = Inr None \<and> tv_latest vault = Inr key \<and> tv_pem vault key = Inr pem")
    case False
    then have "s' = s1"
      using assms(2) r by (auto simp: ensure_seeded_def split: sum.splits option.splits)
    with read show ?thesis by (simp add: seed_step_def)
  next
    case True
    then obtain key pem where k: "r = Inr None" "tv_latest vault = Inr key" "tv_pem vault key = Inr pem" by blast
    let ?new = "record_from_vault_key key pem now"
    have "st_seed st ?new s1 = (s', e)"
      using assms(2) r k by (simp add: ensure_seeded_def)
    then have "ok s' \<and> tab s' = (if e = None then seeded ?new (tab s1) else tab s1)"
      using read by (intro seed_law) (simp_all add: record_from_vault_key_def)
    moreover have "\<forall>k. \<not> is_active (tab s) k"
      using read k(1) by (simp add: active_answer_def)
    ultimately show ?thesis
      using read by (auto simp: seed_step_def)
  qed
qed

lemma seeded_active_step:
  assumes "ok s" "seeded_active st vault now s = (s', r)"
  shows "ok s' \<and> seed_step (tab s) (tab s') \<and> (\<forall>a. r = Inr a \<longrightarrow> active_answer (tab s') (Some a))"
proof -
  obtain s1 e where e: "ensure_seeded st vault now s = (s1, e)" by fastforce
  note seed = ensure_seeded_step [OF assms(1) e]
  obtain s2 ra where a: "st_active st s1 = (s2, ra)" by fastforce
  show ?thesis
    using assms(2) e seed active_law [OF _ a] a
    by (auto simp: seeded_active_def active_key_def split: option.splits sum.splits)
qed

lemma rotate_prepare_step:
  assumes "ok s" "rotate_prepare st vault now s = (s', r)"
  shows "ok s' \<and> seed_step (tab s) (tab s') \<and>
    (\<forall>previous new. r = Inr (previous, new) \<longrightarrow> active_answer (tab s') (Some previous) \<and> jr_activated new = now)"
proof -
  obtain s1 ra where a: "seeded_active st vault now s = (s1, ra)" by fastforce
  show ?thesis
    using assms(2) a seeded_active_step [OF assms(1) a]
    by (auto simp: rotate_prepare_def record_from_vault_key_def split: sum.splits)
qed

lemma rotate_store_step:
  assumes "ok s" "tab s (jr_kid (fst pn)) \<noteq> None" "rotate_store st p now pn s = (s', r)"
  shows "ok s' \<and>
    (case r of
       Inl _ \<Rightarrow> tab s' = tab s
     | Inr outcome \<Rightarrow>
         tab s' = rotated (jr_kid (fst pn)) (snd pn) (grace_until p now) (tab s) \<and> ro_active outcome = jr_kid (snd pn))"
proof -
  obtain s1 e where e: "st_rotate st (fst pn) (snd pn) (grace_until p now) s = (s1, e)" by fastforce
  show ?thesis
    using assms(3) e rotate_law [OF assms(1,2) e] by (auto simp: rotate_store_def split: option.splits)
qed

lemma rotate_key_step:
  assumes "ok s"
  shows "ok (fst (rotate_key st p vault now s)) \<and>
    (\<exists>t. seed_step (tab s) t \<and> table_step p now t (tab (fst (rotate_key st p vault now s))))"
proof -
  obtain s1 r where r: "rotate_prepare st vault now s = (s1, r)" by fastforce
  note prep = rotate_prepare_step [OF assms r]
  show ?thesis
  proof (cases r)
    case (Inl e)
    with r prep show ?thesis by (auto simp: rotate_key_def table_step_def)
  next
    case (Inr pn)
    obtain s2 r2 where r2: "rotate_store st p now pn s1 = (s2, r2)" by fastforce
    have active: "is_active (tab s1) (jr_kid (fst pn))"
      using prep Inr by (cases pn) (auto dest: answer_active)
    then have "tab s1 (jr_kid (fst pn)) \<noteq> None"
      by (auto simp: is_active_def)
    with rotate_store_step [OF _ _ r2] prep Inr r r2 active show ?thesis
      by (auto simp: rotate_key_def table_step_def split: sum.splits)
  qed
qed

lemma rollback_target_in: "rollback_target target grace = Inr k \<Longrightarrow> k \<in> set grace"
  by (auto simp: rollback_target_def find_Some_iff split: option.splits list.splits)

lemma rollback_key_step:
  assumes "ok s"
  shows "ok (fst (rollback_key st p vault target now s)) \<and>
    (\<exists>t. seed_step (tab s) t \<and> table_step p now t (tab (fst (rollback_key st p vault target now s))))"
proof -
  obtain s1 r where r: "seeded_active st vault now s = (s1, r)" by fastforce
  note seed = seeded_active_step [OF assms r]
  show ?thesis
  proof (cases r)
    case (Inl e)
    with r seed show ?thesis by (auto simp: rollback_key_def table_step_def)
  next
    case (Inr active)
    obtain s2 g where g: "st_grace st now s1 = (s2, g)" by fastforce
    have grace: "ok s2" "tab s2 = tab s1" "g = Inr gs \<Longrightarrow> grace_answer (tab s1) now gs" for gs
      using grace_law [OF _ g] seed by auto
    show ?thesis
    proof (cases "\<exists>gs restored. g = Inr gs \<and> rollback_target target gs = Inr restored")
      case False
      with Inr r g grace seed show ?thesis
        by (auto simp: rollback_key_def table_step_def split: sum.splits)
    next
      case True
      then obtain gs restored where t: "g = Inr gs" "rollback_target target gs = Inr restored" by blast
      obtain s3 e where e: "st_rollback st restored active (grace_until p now) s2 = (s3, e)" by fastforce
      have demoted: "is_active (tab s1) (jr_kid active)"
        using seed Inr by (auto dest: answer_active)
      then have known: "tab s2 (jr_kid active) \<noteq> None"
        by (auto simp: is_active_def grace(2))
      have known': "tab s2 (jr_kid restored) \<noteq> None"
        using grace(3) [OF t(1)] rollback_target_in [OF t(2)] by (auto simp: grace_answer_def grace(2))
      have "ok s3 \<and> (tab s3 = tab s1 \<or> tab s3 = rolled_back (jr_kid restored) (jr_kid active) (grace_until p now) (tab s1))"
        using rollback_law [OF grace(1) known known' e] by (simp add: grace(2))
      then have "ok s3 \<and> table_step p now (tab s1) (tab s3)"
        using demoted known' unfolding table_step_def grace(2) by blast
      moreover have "fst (rollback_key st p vault target now s) = s3"
        using r Inr g t e by (auto simp: rollback_key_def split: option.splits)
      ultimately show ?thesis
        using seed by auto
    qed
  qed
qed

lemma op_step:
  assumes "jwks_op st p now s s'" "ok s"
  shows "ok s' \<and> (\<exists>t. seed_step (tab s) t \<and> table_step p now t (tab s'))"
  using assms(1)
proof cases
  case (op_publish vault)
  obtain s1 r where r: "seeded_active st vault now s = (s1, r)" by fastforce
  obtain s2 g where g: "st_grace st now s1 = (s2, g)" by fastforce
  show ?thesis
    using op_publish r g seeded_active_step [OF assms(2) r] grace_law [OF _ g]
    by (cases r; cases g) (auto simp: published_jwks_def table_step_def)
next
  case (op_rotate vault)
  then show ?thesis using rotate_key_step [OF assms(2)] by simp
next
  case (op_rollback vault target)
  then show ?thesis using rollback_key_step [OF assms(2)] by simp
next
  case (op_sign vault digest)
  obtain s1 r where r: "seeded_active st vault now s = (s1, r)" by fastforce
  show ?thesis
    using op_sign r seeded_active_step [OF assms(2) r] by (cases r) (auto simp: sign_active_def table_step_def)
next
  case (op_signing_key vault)
  obtain s1 r where r: "seeded_active st vault now s = (s1, r)" by fastforce
  show ?thesis
    using op_signing_key r seeded_active_step [OF assms(2) r]
    by (cases r) (auto simp: active_signing_key_def table_step_def)
qed

lemma run_inv:
  assumes "jwks_run st p t s t' s'" "ok s" "at_most_one (tab s)" "is_active (tab s) k"
  shows "t \<le> t' \<and> ok s' \<and> at_most_one (tab s') \<and> kept_until (tab s') (grace_until p t) k"
  using assms
proof (induction rule: jwks_run.induct)
  case (run_start t s)
  then show ?case by (simp add: kept_until_def)
next
  case (run_step t0 s0 t s t' s')
  then have "t0 \<le> t \<and> ok s \<and> at_most_one (tab s) \<and> kept_until (tab s) (grace_until p t0) k" by blast
  moreover have "grace_until p t0 \<le> grace_until p t'"
    using run_step by (simp add: grace_until_def)
  ultimately show ?case
    using op_step [OF run_step(3)] run_step(2) seed_step_inv table_step_inv by (meson order.trans)
qed

lemma published_spec:
  assumes "ok s" "published_jwks st vault now s = (s', Inr doc)"
  shows "\<exists>t a. seed_step (tab s) t \<and> active_answer t (Some a) \<and>
    je_kid ` set doc = insert (jr_kid a) {k. in_grace t now k}"
proof -
  obtain s1 r where r: "seeded_active st vault now s = (s1, r)" by fastforce
  note seed = seeded_active_step [OF assms(1) r]
  obtain a where a: "r = Inr a"
    using assms(2) r by (cases r) (auto simp: published_jwks_def)
  obtain s2 g where g: "st_grace st now s1 = (s2, g)" by fastforce
  obtain gs where gs: "g = Inr gs" "doc = build_jwks_from_records a gs"
    using assms(2) r a g by (cases g) (auto simp: published_jwks_def)
  have "je_kid ` set doc = insert (jr_kid a) (jr_kid ` set gs)"
    by (auto simp: gs(2) build_jwks_from_records_def jwk_from_record_def image_image)
  moreover have "jr_kid ` set gs = {k. in_grace (tab s1) now k}"
    using grace_law [OF _ g] seed gs(1) by (auto simp: grace_answer_def)
  ultimately show ?thesis
    using seed a by auto
qed

lemma kept_published:
  assumes "ok s" "at_most_one (tab s)" "kept_until (tab s) x k" "now < x"
    and "published_jwks st vault now s = (s', Inr doc)"
  shows "k \<in> je_kid ` set doc"
proof -
  obtain t a where t: "seed_step (tab s) t" "active_answer t (Some a)"
      "je_kid ` set doc = insert (jr_kid a) {k. in_grace t now k}"
    using published_spec [OF assms(1,5)] by blast
  have "kept_until t x k" "at_most_one t"
    using t(1) assms(2,3) seed_step_inv by auto
  from this(1) show ?thesis
    unfolding kept_until_def
  proof (elim disjE exE conjE)
    assume "is_active t k"
    then have "k = jr_kid a"
      using \<open>at_most_one t\<close> answer_active [OF t(2)] by (simp add: at_most_one_def)
    then show ?thesis using t(3) by simp
  next
    fix b u assume u: "t k = Some (JkGrace, b, u)" "case u of None \<Rightarrow> True | Some y \<Rightarrow> x \<le> y"
    then have "in_grace t now k"
      using assms(4) by (auto simp: in_grace_def split: option.splits)
    then show ?thesis using t(3) by simp
  qed
qed

lemma signed_tokens_verifiable_core:
  assumes "ok s" "at_most_one (tab s)" "sign_active st vault digest t s = (s1, Inr sd)"
    and "jwks_run st p t s1 t' s2" "t' < grace_until p t" "published_jwks st vault' t' s2 = (s3, Inr doc)"
  shows "sd_kid sd \<in> je_kid ` set doc"
proof -
  obtain a where a: "seeded_active st vault t s = (s1, Inr a)" "sd_kid sd = jr_kid a"
    using assms(3) by (auto simp: sign_active_def split: prod.splits sum.splits)
  note seed = seeded_active_step [OF assms(1) a(1)]
  have "is_active (tab s1) (sd_kid sd)"
    using seed a(2) by (auto dest: answer_active)
  moreover have "at_most_one (tab s1)"
    using seed assms(2) seed_step_inv(1) by blast
  ultimately have "ok s2" "at_most_one (tab s2)" "kept_until (tab s2) (grace_until p t) (sd_kid sd)"
    using run_inv [OF assms(4)] seed by auto
  then show ?thesis
    by (rule kept_published [OF _ _ _ assms(5,6)])
qed

text \<open>Two rotations that read before either writes leave two active keys; only the later one is published.\<close>

lemma overlapping_rotations:
  assumes "ok s" "rotate_prepare st v1 t1 s = (s1, Inr (previous1, new1))"
    and "rotate_prepare st v2 t2 s1 = (s2, Inr (previous2, new2))"
    and "rotate_store st p t1 (previous1, new1) s2 = (s3, Inr outcome1)"
    and "rotate_store st p t2 (previous2, new2) s3 = (s4, Inr outcome2)"
    and "t1 < t2" "jr_kid new1 \<noteq> jr_kid new2" "jr_kid new1 \<noteq> jr_kid previous2"
    and "published_jwks st v3 t3 s4 = (s5, Inr doc)"
  shows "is_active (tab s4) (ro_active outcome1) \<and> is_active (tab s4) (ro_active outcome2) \<and>
    ro_active outcome1 \<noteq> ro_active outcome2 \<and> ro_active outcome1 \<notin> je_kid ` set doc"
proof -
  have p1: "ok s1" "active_answer (tab s1) (Some previous1)" "jr_activated new1 = t1"
    using rotate_prepare_step [OF assms(1,2)] by simp_all
  have p2: "ok s2" "seed_step (tab s1) (tab s2)" "active_answer (tab s2) (Some previous2)" "jr_activated new2 = t2"
    using rotate_prepare_step [OF p1(1) assms(3)] by simp_all
  note a1 = answer_active [OF p1(2)] and a2 = answer_active [OF p2(3)] and times = p1(3) p2(4)
  have same: "tab s2 = tab s1"
    using p2(2) a1 by (auto simp: seed_step_def)
  have "tab s2 (jr_kid (fst (previous1, new1))) \<noteq> None"
    using a1 by (auto simp: same is_active_def)
  from rotate_store_step [OF p2(1) this assms(4)]
  have w1: "ok s3" "tab s3 = rotated (jr_kid previous1) new1 (grace_until p t1) (tab s2)" "ro_active outcome1 = jr_kid new1"
    by simp_all
  have known: "tab s3 (jr_kid previous2) \<noteq> None"
    using a2 by (auto simp: w1(2) rotated_def is_active_def grace_view_def)
  have w2: "ok s4" "tab s4 = rotated (jr_kid previous2) new2 (grace_until p t2) (tab s3)" "ro_active outcome2 = jr_kid new2"
    using rotate_store_step [OF w1(1) _ assms(5)] known by simp_all
  have row: "tab s4 (jr_kid new1) = Some (JkActive, t1, None)" "tab s4 (jr_kid new2) = Some (JkActive, t2, None)"
    using assms(7,8) times by (auto simp: w1(2) w2(2) rotated_def)
  then have both: "is_active (tab s4) (jr_kid new1)" "is_active (tab s4) (jr_kid new2)"
    by (auto simp: is_active_def)
  obtain t a where t: "seed_step (tab s4) t" "active_answer t (Some a)"
      "je_kid ` set doc = insert (jr_kid a) {k. in_grace t t3 k}"
    using published_spec [OF w2(1) assms(9)] by blast
  have t4: "t = tab s4"
    using t(1) both by (auto simp: seed_step_def)
  then have "t2 \<le> jr_activated a" "t (jr_kid a) = Some (view a)"
    using t(2) row(2) by (auto simp: active_answer_def)
  then have "jr_kid a \<noteq> jr_kid new1" "\<not> in_grace t t3 (jr_kid new1)"
    using row(1) assms(6) t4 by (auto simp: view_def in_grace_def)
  then show ?thesis
    using t(3) both assms(7) by (simp add: w1(3) w2(3))
qed

end

end
