(* ===== verification/Jwks_Properties.thy ===== *)
theory Jwks_Properties
  imports Jwks_Service
begin

text \<open>The properties of key rotation on the PostgreSQL store, with concrete runs.\<close>

section \<open>Time\<close>

lemma days_exact: "- 106751 \<le> sint d \<Longrightarrow> sint d \<le> 106751 \<Longrightarrow> days d = sint d * 86400000000000"
  unfolding days_def by (simp add: sint_word_ariths signed_take_bit_int_eq_self_iff)

text \<open>One day more and the grace period is negative: the demoted key leaves the document at once.\<close>

lemma days_wrap: "days 106752 < 0"
  by (simp add: days_def)

text \<open>The document built from two keys looks at the planned rotation, not at the one that took place.\<close>

lemma early_rotation_hides_previous:
  assumes "now < pk_activated previous + days (rp_active_days p)"
  shows "build_jwks active (Some previous) p now = build_jwks active None p now"
  using assms by (simp add: build_jwks_def is_in_grace_def rotate_and_retire_def Let_def)

section \<open>Statuses\<close>

lemma status_round_trip: "parse_jwks_status (jwks_status_text s) = Inr s"
  by (cases s) (simp_all add: parse_jwks_status_def)

section \<open>Verification of tokens\<close>

text \<open>
  C30. What is signed can be verified. When the service signs with a key at time \<open>t\<close>, then after any number of
  rotations, rollbacks, publications and signatures, one after the other, with any failures, the published document
  contains that key at every time before the end of the grace period that starts at \<open>t\<close>.
\<close>

theorem signed_tokens_verifiable:
  assumes "pg_ok s" "at_most_one (pg_table s)"
    and "sign_active pg_store vault digest t s = (s1, Inr sd)"
    and "jwks_run pg_store p t s1 t' s2" "t' < grace_until p t"
    and "published_jwks pg_store vault' t' s2 = (s3, Inr doc)"
  shows "sd_kid sd \<in> je_kid ` set doc"
  by (rule pg.signed_tokens_verifiable_core [OF assms])

text \<open>
  C31. Overlapping rotations lose a key. When two rotations have both read the active key before either writes, both
  succeed, both new keys are active, and the document published afterwards does not contain the first of them: what
  is signed with the key that the first call reported as active cannot be verified.
\<close>

theorem overlapping_rotations_lose_key:
  assumes "pg_ok s" "rotate_prepare pg_store v1 t1 s = (s1, Inr (previous1, new1))"
    and "rotate_prepare pg_store v2 t2 s1 = (s2, Inr (previous2, new2))"
    and "rotate_store pg_store p t1 (previous1, new1) s2 = (s3, Inr outcome1)"
    and "rotate_store pg_store p t2 (previous2, new2) s3 = (s4, Inr outcome2)"
    and "t1 < t2" "jr_kid new1 \<noteq> jr_kid new2" "jr_kid new1 \<noteq> jr_kid previous2"
    and "published_jwks pg_store v3 t3 s4 = (s5, Inr doc)"
  shows "is_active (pg_table s4) (ro_active outcome1) \<and> is_active (pg_table s4) (ro_active outcome2) \<and>
    ro_active outcome1 \<noteq> ro_active outcome2 \<and> ro_active outcome1 \<notin> je_kid ` set doc"
  by (rule pg.overlapping_rotations [OF assms])

section \<open>Runs\<close>

definition vault_at :: "32 word \<Rightarrow> vault_env" where
  "vault_at v =
     \<lparr>tv_latest = Inr \<lparr>vk_name = ''jwt'', vk_version = v\<rparr>, tv_rotate = Inr \<lparr>vk_name = ''jwt'', vk_version = v + 1\<rparr>,
      tv_pem = (\<lambda>_. Inr ''PEM''), tv_sign = (\<lambda>_ d. Inr d)\<rparr>"

definition key_row :: "32 word \<Rightarrow> jwks_status \<Rightarrow> instant \<Rightarrow> instant option \<Rightarrow> instant option \<Rightarrow> jwks_record" where
  "key_row v status activated grace retire =
     \<lparr>jr_kid = stable_kid \<lparr>vk_name = ''jwt'', vk_version = v\<rparr>, jr_kty = ''RSA'', jr_pem = ''PEM'', jr_vault_name = ''jwt'',
      jr_vault_version = v, jr_status = status, jr_activated = activated, jr_grace_started = grace,
      jr_retire_after = retire, jr_retired = None\<rparr>"

definition key_db :: "nat \<Rightarrow> jwks_record list \<Rightarrow> jwks_db" where
  "key_db clock rows = \<lparr>pg_clock = clock, pg_fault = (\<lambda>_. None), jk_rows = rows, jk_now = 0\<rparr>"

lemma key_db_simps [simp]:
  "pg_exec f (key_db clock rows) = (case f (key_db clock rows) of (db, r) \<Rightarrow> (db\<lparr>pg_clock := Suc clock\<rparr>, Inr r))"
  "jk_rows (key_db clock rows) = rows" "jk_now (key_db clock rows) = 0"
  "(key_db clock rows)\<lparr>pg_clock := c\<rparr> = key_db c rows" "(key_db clock rows)\<lparr>jk_rows := rows'\<rparr> = key_db clock rows'"
  by (simp_all add: key_db_def pg_exec_def Let_def split_def)

lemma numbers: "show_nat 1 = ''1''" "show_nat 2 = ''2''" "show_nat 3 = ''3''"
  by code_simp+

lemma kids [simp]:
  "stable_kid \<lparr>vk_name = ''jwt'', vk_version = 1\<rparr> = ''jwt-v1''" "stable_kid \<lparr>vk_name = ''jwt'', vk_version = 2\<rparr> = ''jwt-v2''"
  "stable_kid \<lparr>vk_name = ''jwt'', vk_version = 3\<rparr> = ''jwt-v3''"
  using numbers by (simp_all add: stable_kid_def)

lemma key_row_simps [simp]:
  "jr_kid (key_row v st a g u) = stable_kid \<lparr>vk_name = ''jwt'', vk_version = v\<rparr>" "jr_status (key_row v st a g u) = st"
  "jr_activated (key_row v st a g u) = a" "jr_retire_after (key_row v st a g u) = u"
  "jr_vault_version (key_row v st a g u) = v"
  "vault_key_ref (key_row v st a g u) = \<lparr>vk_name = ''jwt'', vk_version = v\<rparr>"
  "demote now until (key_row v st a g u) = key_row v JkGrace a (Some now) (Some until)"
  "restore (key_row v st a g u) = key_row v JkActive a None None"
  "record_from_vault_key \<lparr>vk_name = ''jwt'', vk_version = v\<rparr> ''PEM'' a = key_row v JkActive a None None"
  "jwk_from_record (key_row v st a g u) status =
     \<lparr>je_kid = stable_kid \<lparr>vk_name = ''jwt'', vk_version = v\<rparr>, je_kty = ''RSA'', je_pem = ''PEM'', je_use = ''sig'', je_status = status\<rparr>"
  by (simp_all add: key_row_def demote_def restore_def record_from_vault_key_def jwk_from_record_def vault_key_ref_def)

lemma vault_at_simps [simp]:
  "tv_rotate (vault_at v) = Inr \<lparr>vk_name = ''jwt'', vk_version = v + 1\<rparr>" "tv_pem (vault_at v) k = Inr ''PEM''"
  "tv_sign (vault_at v) k d = Inr d"
  by (simp_all add: vault_at_def)

lemma small_versions [simp]: "0 \<le> sint (1 :: 32 word)" "0 \<le> sint (2 :: 32 word)" "0 \<le> sint (3 :: 32 word)"
  by simp_all

lemmas run_simps = pg_store_def pg_active_key_def pg_grace_keys_def by_activation_def in_grace_at_def and_then_def
  scan_row_def seeded_active_def ensure_seeded_def active_key_def pg_tx_def update_row_def upsert_row_def

text \<open>One key signs, is rotated out, and is still published.\<close>

lemma run_sign:
  "sign_active pg_store (vault_at 1) ''digest'' 5 (key_db 0 [key_row 1 JkActive 0 None None]) =
     (key_db 2 [key_row 1 JkActive 0 None None],
      Inr \<lparr>sd_kid = ''jwt-v1'', sd_key = \<lparr>vk_name = ''jwt'', vk_version = 1\<rparr>, sd_signature = ''digest''\<rparr>)"
  by (simp add: sign_active_def run_simps eval_nat_numeral)

lemma grace_14: "grace_until asvs_l2_default t = t + 1209600000000000"
  by (simp add: grace_until_def asvs_l2_default_def days_def)

lemma run_rotate:
  "fst (rotate_key pg_store asvs_l2_default (vault_at 1) 6 (key_db 2 [key_row 1 JkActive 0 None None])) =
     key_db 8 [key_row 1 JkGrace 0 (Some 0) (Some 1209600000000006), key_row 2 JkActive 6 None None]"
  by (simp add: rotate_key_def rotate_prepare_def rotate_store_def pg_rotate_to_def grace_14 run_simps)

lemma run_publish:
  "published_jwks pg_store (vault_at 2) 6
     (key_db 8 [key_row 1 JkGrace 0 (Some 0) (Some 1209600000000006), key_row 2 JkActive 6 None None]) =
   (key_db 11 [key_row 1 JkGrace 0 (Some 0) (Some 1209600000000006), key_row 2 JkActive 6 None None],
    Inr [\<lparr>je_kid = ''jwt-v2'', je_kty = ''RSA'', je_pem = ''PEM'', je_use = ''sig'', je_status = ''active''\<rparr>,
         \<lparr>je_kid = ''jwt-v1'', je_kty = ''RSA'', je_pem = ''PEM'', je_use = ''sig'', je_status = ''grace''\<rparr>])"
  by (simp add: published_jwks_def build_jwks_from_records_def run_simps)

lemma signed_tokens_verifiable_witness:
  "\<exists>s3 doc. published_jwks pg_store (vault_at 2) 6
     (key_db 8 [key_row 1 JkGrace 0 (Some 0) (Some 1209600000000006), key_row 2 JkActive 6 None None]) = (s3, Inr doc) \<and>
   ''jwt-v1'' \<in> je_kid ` set doc"
proof -
  let ?s1 = "key_db 2 [key_row 1 JkActive 0 None None]"
  let ?s2 = "key_db 8 [key_row 1 JkGrace 0 (Some 0) (Some 1209600000000006), key_row 2 JkActive 6 None None]"
  have "pg_ok (key_db 0 [key_row 1 JkActive 0 None None])"
    "at_most_one (pg_table (key_db 0 [key_row 1 JkActive 0 None None]))"
    by (auto simp: pg_ok_def pg_table_def at_most_one_def is_active_def rows_table_def split: if_splits)
  moreover have "jwks_op pg_store asvs_l2_default 6 ?s1 ?s2"
    unfolding run_rotate [symmetric] by (rule op_rotate)
  then have "jwks_run pg_store asvs_l2_default 5 ?s1 6 ?s2"
    by (rule run_step [OF run_start, rotated]) simp
  ultimately have "''jwt-v1'' \<in> je_kid ` set doc"
    if "published_jwks pg_store (vault_at 2) 6 ?s2 = (s3, Inr doc)" for s3 doc
    using signed_tokens_verifiable [OF _ _ run_sign _ _ that, of asvs_l2_default] by (simp add: grace_14)
  from this [OF run_publish] show ?thesis
    unfolding run_publish by blast
qed

text \<open>Two rotations at the same time.\<close>

abbreviation race_start :: jwks_db where
  "race_start \<equiv> key_db 0 [key_row 1 JkActive 0 None None]"

lemma race_prepare:
  "rotate_prepare pg_store (vault_at 1) 10 race_start =
     (key_db 2 [key_row 1 JkActive 0 None None], Inr (key_row 1 JkActive 0 None None, key_row 2 JkActive 10 None None))"
  "rotate_prepare pg_store (vault_at 2) 11 (key_db 2 [key_row 1 JkActive 0 None None]) =
     (key_db 4 [key_row 1 JkActive 0 None None], Inr (key_row 1 JkActive 0 None None, key_row 3 JkActive 11 None None))"
  by (simp_all add: rotate_prepare_def run_simps eval_nat_numeral)

lemma race_store:
  "rotate_store pg_store asvs_l2_default 10 (key_row 1 JkActive 0 None None, key_row 2 JkActive 10 None None)
     (key_db 4 [key_row 1 JkActive 0 None None]) =
   (key_db 8 [key_row 1 JkGrace 0 (Some 0) (Some 1209600000000010), key_row 2 JkActive 10 None None],
    Inr \<lparr>ro_previous = ''jwt-v1'', ro_active = ''jwt-v2'', ro_grace_until = 1209600000000010\<rparr>)"
  "rotate_store pg_store asvs_l2_default 11 (key_row 1 JkActive 0 None None, key_row 3 JkActive 11 None None)
     (key_db 8 [key_row 1 JkGrace 0 (Some 0) (Some 1209600000000010), key_row 2 JkActive 10 None None]) =
   (key_db 12 [key_row 1 JkGrace 0 (Some 0) (Some 1209600000000011), key_row 2 JkActive 10 None None,
               key_row 3 JkActive 11 None None],
    Inr \<lparr>ro_previous = ''jwt-v1'', ro_active = ''jwt-v3'', ro_grace_until = 1209600000000011\<rparr>)"
  by (simp_all add: rotate_store_def pg_rotate_to_def grace_14 run_simps)

lemma race_publish:
  "published_jwks pg_store (vault_at 3) 12
     (key_db 12 [key_row 1 JkGrace 0 (Some 0) (Some 1209600000000011), key_row 2 JkActive 10 None None,
                 key_row 3 JkActive 11 None None]) =
   (key_db 15 [key_row 1 JkGrace 0 (Some 0) (Some 1209600000000011), key_row 2 JkActive 10 None None,
               key_row 3 JkActive 11 None None],
    Inr [\<lparr>je_kid = ''jwt-v3'', je_kty = ''RSA'', je_pem = ''PEM'', je_use = ''sig'', je_status = ''active''\<rparr>,
         \<lparr>je_kid = ''jwt-v1'', je_kty = ''RSA'', je_pem = ''PEM'', je_use = ''sig'', je_status = ''grace''\<rparr>])"
  by (simp add: published_jwks_def build_jwks_from_records_def run_simps)

lemma overlapping_rotations_lose_key_witness:
  "is_active (pg_table (key_db 12 [key_row 1 JkGrace 0 (Some 0) (Some 1209600000000011), key_row 2 JkActive 10 None None,
     key_row 3 JkActive 11 None None])) ''jwt-v2'' \<and>
   ''jwt-v2'' \<notin> je_kid ` set [\<lparr>je_kid = ''jwt-v3'', je_kty = ''RSA'', je_pem = ''PEM'', je_use = ''sig'', je_status = ''active''\<rparr>,
         \<lparr>je_kid = ''jwt-v1'', je_kty = ''RSA'', je_pem = ''PEM'', je_use = ''sig'', je_status = ''grace''\<rparr>]"
proof -
  have ok: "pg_ok race_start"
    by (simp add: pg_ok_def)
  have "is_active (pg_table (key_db 12 [key_row 1 JkGrace 0 (Some 0) (Some 1209600000000011), key_row 2 JkActive 10 None None,
     key_row 3 JkActive 11 None None])) (ro_active outcome1) \<and> ro_active outcome1 \<notin> je_kid ` set doc"
    if "rotate_store pg_store asvs_l2_default 10 (key_row 1 JkActive 0 None None, key_row 2 JkActive 10 None None)
         (key_db 4 [key_row 1 JkActive 0 None None]) = (s3, Inr outcome1)"
      "rotate_store pg_store asvs_l2_default 11 (key_row 1 JkActive 0 None None, key_row 3 JkActive 11 None None) s3 =
        (key_db 12 [key_row 1 JkGrace 0 (Some 0) (Some 1209600000000011), key_row 2 JkActive 10 None None,
           key_row 3 JkActive 11 None None], Inr outcome2)"
      "published_jwks pg_store (vault_at 3) 12
         (key_db 12 [key_row 1 JkGrace 0 (Some 0) (Some 1209600000000011), key_row 2 JkActive 10 None None,
           key_row 3 JkActive 11 None None]) = (s5, Inr doc)"
    for s3 outcome1 outcome2 s5 doc
    using overlapping_rotations_lose_key [OF ok race_prepare that(1,2) _ _ _ that(3)] by simp
  from this [OF race_store race_publish] show ?thesis
    unfolding rotation_outcome.simps .
qed

end
