(* ===== verification/OAuth.thy ===== *)
theory OAuth
  imports Auth_Claims Pg_Tx "HOL-Library.List_Lexorder" "HOL-Library.Char_ord"
begin

text \<open>
  The OAuth authorization server of \<^verbatim>\<open>identity-federation-service\<close>: \<^verbatim>\<open>internal/handlers/third_party_oauth.go\<close> with
  the statements of \<^verbatim>\<open>internal/repo/third_party_oauth.go\<close>, the scope functions of \<^verbatim>\<open>internal/handlers/rbac.go\<close> and
  the issuing of access tokens in \<^verbatim>\<open>internal/service/tokens.go\<close>.

  Hashes, random tokens, fresh ids, the JWT encoder and the package \<^verbatim>\<open>google/uuid\<close> are fields of \<open>oauth_env\<close>, which
  also holds the time of the call. Statements can fail at any point (\<open>Pg_Tx\<close>). Two handlers are split where they
  write, so that overlapping calls can be written down. Requests arrive decoded; logging is left out.
\<close>

section \<open>Rows and requests\<close>

record 'd oauth_user =
  us_id :: uuid
  us_email :: string
  us_name :: string
  us_org :: "uuid option"
  us_attributes :: "string \<Rightarrow> 'd dyn option"
  us_active :: bool
  us_deleted :: "instant option"

record oauth_app =
  oa_id :: uuid
  oa_client :: string
  oa_type :: string
  oa_grants :: "string list"
  oa_redirects :: "string list"
  oa_scopes :: "string list"
  oa_managing :: uuid
  oa_service_user :: "uuid option"
  oa_secret_hash :: "string option"
  oa_enablements :: "(uuid \<times> bool) list"
  oa_revoked :: "instant option"

record oauth_code =
  cd_id :: uuid
  cd_hash :: string
  cd_app :: uuid
  cd_client :: string
  cd_user :: uuid
  cd_org :: uuid
  cd_redirect :: string
  cd_state :: string
  cd_challenge :: string
  cd_method :: string
  cd_requested :: "string list"
  cd_granted :: "string list"
  cd_created :: instant
  cd_expires :: instant
  cd_consumed :: "instant option"
  cd_revoked :: "instant option"

record oauth_refresh =
  rf_id :: uuid
  rf_hash :: string
  rf_family :: uuid
  rf_app :: uuid
  rf_client :: string
  rf_subject :: uuid
  rf_org :: uuid
  rf_scopes :: "string list"
  rf_issued :: instant
  rf_expires :: instant
  rf_used :: "instant option"
  rf_revoked :: "instant option"

record 'd oauth_db = pg +
  od_users :: "uuid \<Rightarrow> 'd oauth_user option"
  od_roles :: "uuid \<Rightarrow> string list"
  od_permissions :: "uuid \<Rightarrow> string list"
  od_apps :: "oauth_app list"
  od_codes :: "oauth_code list"
  od_tokens :: "oauth_refresh list"
  od_consents :: "uuid \<times> uuid \<times> uuid \<Rightarrow> (string list \<times> instant) option"

record 'd oauth_env =
  ov_now :: instant
  ov_hash :: "string \<Rightarrow> string"
  ov_challenge :: "string \<Rightarrow> string"
  ov_plain :: "string option"
  ov_row_id :: uuid
  ov_family :: uuid
  ov_jti :: uuid
  ov_encode :: "'d claims \<Rightarrow> string + string"
  ov_uuid_parse :: "string \<Rightarrow> uuid option"
  ov_uuid_show :: "uuid \<Rightarrow> string"
  ov_issuer :: string
  ov_audience :: string
  ov_access_ttl :: int
  ov_refresh_ttl :: int

record token_request =
  tq_grant :: string
  tq_code :: string
  tq_redirect :: string
  tq_client :: string
  tq_secret :: string
  tq_verifier :: string
  tq_refresh :: string
  tq_scope :: string
  tq_scopes :: "string list"
  tq_org :: string

record token_response =
  tr_access :: string
  tr_expires_in :: int
  tr_refresh :: "string option"
  tr_scope :: string

text \<open>An answer with an HTTP status and a message.\<close>

type_synonym http_error = "nat \<times> string"

definition internal_error :: http_error where
  "internal_error = (500, ''internal error'')"

definition checked :: "'s \<times> (string + 'a) \<Rightarrow> 's \<times> (http_error + 'a)" where
  "checked r = (case r of (s, Inl _) \<Rightarrow> (s, Inl internal_error) | (s, Inr x) \<Rightarrow> (s, Inr x))"

section \<open>Scopes\<close>

definition normalize_set :: "string list \<Rightarrow> string list" where
  "normalize_set values = sort (remdups (filter (\<lambda>v. v \<noteq> []) (map trim_space values)))"

definition scope_allowed :: "string \<Rightarrow> string list \<Rightarrow> bool" where
  "scope_allowed scope permissions \<longleftrightarrow>
     scope \<in> set permissions \<or> ''*:*'' \<in> set permissions \<or>
     (case index_of (CHR '':'') scope of
        Some i \<Rightarrow> 0 < i \<and> take i scope @ '':*'' \<in> set permissions
      | None \<Rightarrow> False)"

definition derive_scopes ::
  "string list \<Rightarrow> string list \<Rightarrow> string list \<Rightarrow> string list \<Rightarrow> string list \<times> string list" where
  "derive_scopes requested0 app_scopes0 roles0 permissions0 =
     (let requested1 = normalize_set requested0;
          app_scopes = normalize_set app_scopes0;
          roles = normalize_set roles0;
          permissions = normalize_set permissions0;
          requested =
            (if requested1 \<noteq> [] then requested1
             else if app_scopes \<noteq> [] then app_scopes
             else if ''admin'' \<in> set roles \<or> ''*:*'' \<in> set permissions then [''*:*'']
             else permissions);
          ok = (\<lambda>scope. (app_scopes = [] \<or> scope_allowed scope app_scopes) \<and>
                 (''admin'' \<in> set roles \<or> scope_allowed scope permissions)) in
      (normalize_set (filter ok requested), normalize_set (filter (\<lambda>s. \<not> ok s) requested)))"

definition scope_ceiling :: "string list \<Rightarrow> string list \<Rightarrow> string list" where
  "scope_ceiling first0 second0 =
     (let first = normalize_set first0; second = normalize_set second0 in
      if first = [] then []
      else if second = [] then first
      else normalize_set (filter (\<lambda>scope. scope_allowed scope second) first))"

text \<open>\<^verbatim>\<open>strings.FieldsFunc\<close> at blanks, commas, newlines and tabs.\<close>

definition scope_separator :: "char \<Rightarrow> bool" where
  "scope_separator c \<longleftrightarrow> c \<in> {CHR '' '', CHR '','', CHR 0x0A, CHR 0x09}"

definition scope_fields :: "string \<Rightarrow> string list" where
  "scope_fields s =
     filter (\<lambda>w. w \<noteq> []) (foldr (\<lambda>c ws. if scope_separator c then [] # ws else (c # hd ws) # tl ws) s [[]])"

definition parse_scopes :: "string \<Rightarrow> string list \<Rightarrow> string list" where
  "parse_scopes scope scopes =
     normalize_set (filter (\<lambda>w. w \<noteq> []) (map trim_space (concat (map scope_fields scopes) @ scope_fields scope)))"

section \<open>Clients, organizations and PKCE\<close>

definition client_authentication ::
  "'d oauth_env \<Rightarrow> oauth_app option \<Rightarrow> string \<Rightarrow> string \<Rightarrow> http_error option" where
  "client_authentication env app client0 secret =
     (let client = trim_space client0 in
      case app of
        None \<Rightarrow> Some (401, ''invalid client'')
      | Some a \<Rightarrow>
          if client = [] \<or> client \<noteq> oa_client a then Some (401, ''invalid client'')
          else if oa_type a = ''public'' then None
          else if trim_space secret = [] \<or> oa_secret_hash a = None
          then Some (401, ''client authentication required'')
          else if Some (ov_hash env secret) \<noteq> oa_secret_hash a then Some (401, ''invalid client secret'')
          else None)"

definition enabled_for :: "oauth_app \<Rightarrow> uuid \<Rightarrow> bool" where
  "enabled_for a org \<longleftrightarrow> org \<noteq> uuid_nil \<and> (org, True) \<in> set (oa_enablements a)"

definition resolve_organization ::
  "uuid option \<Rightarrow> 'd claims \<Rightarrow> 'd oauth_user \<Rightarrow> http_error + uuid" where
  "resolve_organization requested c user =
     (let user_org = (case cl_org c of Some i \<Rightarrow> Some i | None \<Rightarrow> us_org user) in
      case user_org of
        None \<Rightarrow> Inl (400, ''organization_id is required for OAuth authorization'')
      | Some i \<Rightarrow>
          if i = uuid_nil then Inl (400, ''organization_id is required for OAuth authorization'')
          else if requested \<noteq> None \<and> requested \<noteq> Some uuid_nil \<and> requested \<noteq> Some i
          then Inl (403, ''users can only authorize applications for their active organization'')
          else Inr i)"

definition verify_pkce :: "'d oauth_env \<Rightarrow> string \<Rightarrow> string \<Rightarrow> string \<Rightarrow> bool" where
  "verify_pkce env pkce_method challenge verifier \<longleftrightarrow>
     pkce_method = ''S256'' \<and> challenge \<noteq> [] \<and> verifier \<noteq> [] \<and> ov_challenge env verifier = challenge"

definition usable :: "'d oauth_user option \<Rightarrow> bool" where
  "usable user \<longleftrightarrow> (case user of None \<Rightarrow> False | Some u \<Rightarrow> us_active u \<and> us_deleted u = None)"

section \<open>Statements\<close>

definition find_app :: "string \<Rightarrow> 'd oauth_db \<Rightarrow> 'd oauth_db \<times> (string + oauth_app option)" where
  "find_app client db =
     (case pg_exec (\<lambda>db. (db, find (\<lambda>a. oa_client a = client \<and> oa_revoked a = None) (od_apps db))) db of
        (db1, Inl m) \<Rightarrow> (db1, Inl m)
      | (db1, Inr None) \<Rightarrow> (db1, Inr None)
      | (db1, Inr (Some a)) \<Rightarrow> pg_exec (\<lambda>db. (db, Some a)) db1)"

definition find_user :: "uuid \<Rightarrow> 'd oauth_db \<Rightarrow> 'd oauth_db \<times> (string + 'd oauth_user option)" where
  "find_user i db = pg_exec (\<lambda>db. (db, od_users db i)) db"

definition security_snapshot ::
  "uuid \<Rightarrow> 'd oauth_db \<Rightarrow> 'd oauth_db \<times> (string + string list \<times> string list)" where
  "security_snapshot i db =
     (case pg_exec (\<lambda>db. (db, sort (od_roles db i))) db of
        (db1, Inl m) \<Rightarrow> (db1, Inl m)
      | (db1, Inr roles) \<Rightarrow>
          (case pg_exec (\<lambda>db. (db, sort (remdups (od_permissions db i)))) db1 of
             (db2, Inl m) \<Rightarrow> (db2, Inl m)
           | (db2, Inr permissions) \<Rightarrow> (db2, Inr (roles, permissions))))"

definition code_live :: "instant \<Rightarrow> oauth_code \<Rightarrow> bool" where
  "code_live now c \<longleftrightarrow> cd_consumed c = None \<and> cd_revoked c = None \<and> now < cd_expires c"

definition find_code :: "string \<Rightarrow> instant \<Rightarrow> 'd oauth_db \<Rightarrow> 'd oauth_db \<times> (string + oauth_code option)" where
  "find_code hash now db =
     pg_exec (\<lambda>db. (db, find (\<lambda>c. cd_hash c = hash \<and> code_live now c) (od_codes db))) db"

definition consume_code :: "string \<Rightarrow> instant \<Rightarrow> 'd oauth_db \<Rightarrow> 'd oauth_db \<times> (string + oauth_code option)" where
  "consume_code hash now db =
     pg_exec (\<lambda>db.
       (db\<lparr>od_codes := map (\<lambda>c. if cd_hash c = hash \<and> code_live now c then c\<lparr>cd_consumed := Some now\<rparr> else c) (od_codes db)\<rparr>,
        map_option (\<lambda>c. c\<lparr>cd_consumed := Some now\<rparr>) (find (\<lambda>c. cd_hash c = hash \<and> code_live now c) (od_codes db)))) db"

text \<open>Ids and hashes are unique: a second row with one of them is refused.\<close>

definition insert_code_sql :: "oauth_code \<Rightarrow> 'd oauth_db \<Rightarrow> 'd oauth_db \<times> (string + unit)" where
  "insert_code_sql c db =
     (case pg_exec (\<lambda>db.
        if cd_id c \<in> set (map cd_id (od_codes db)) \<or> cd_hash c \<in> set (map cd_hash (od_codes db)) then (db, False)
        else (db\<lparr>od_codes := od_codes db @ [c]\<rparr>, True)) db of
        (db1, Inl m) \<Rightarrow> (db1, Inl m)
      | (db1, Inr ok) \<Rightarrow> (db1, if ok then Inr () else Inl ''duplicate key''))"

definition upsert_consent ::
  "uuid \<Rightarrow> uuid \<Rightarrow> uuid \<Rightarrow> string list \<Rightarrow> instant \<Rightarrow> 'd oauth_db \<Rightarrow> 'd oauth_db \<times> (string + unit)" where
  "upsert_consent app user org scopes now db =
     pg_exec (\<lambda>db. (db\<lparr>od_consents := (od_consents db)((app, user, org) \<mapsto> (scopes, now))\<rparr>, ())) db"

definition find_refresh :: "string \<Rightarrow> 'd oauth_db \<Rightarrow> 'd oauth_db \<times> (string + oauth_refresh option)" where
  "find_refresh hash db = pg_exec (\<lambda>db. (db, find (\<lambda>r. rf_hash r = hash) (od_tokens db))) db"

definition insert_refresh_row :: "oauth_refresh \<Rightarrow> 'd oauth_db \<Rightarrow> 'd oauth_db \<times> bool" where
  "insert_refresh_row r db =
     (if rf_id r \<in> set (map rf_id (od_tokens db)) \<or> rf_hash r \<in> set (map rf_hash (od_tokens db)) then (db, False)
      else (db\<lparr>od_tokens := od_tokens db @ [r]\<rparr>, True))"

definition insert_refresh_sql :: "oauth_refresh \<Rightarrow> 'd oauth_db \<Rightarrow> 'd oauth_db \<times> (string + unit)" where
  "insert_refresh_sql r db =
     (case pg_exec (insert_refresh_row r) db of
        (db1, Inl m) \<Rightarrow> (db1, Inl m)
      | (db1, Inr ok) \<Rightarrow> (db1, if ok then Inr () else Inl ''duplicate key''))"

text \<open>\<^verbatim>\<open>SET revoked_at = COALESCE(revoked_at, now)\<close>.\<close>

definition revoke_where ::
  "(oauth_refresh \<Rightarrow> bool) \<Rightarrow> instant \<Rightarrow> 'd oauth_db \<Rightarrow> 'd oauth_db \<times> (string + bool)" where
  "revoke_where P now db =
     pg_exec (\<lambda>db.
       (db\<lparr>od_tokens := map (\<lambda>r. if P r \<and> rf_revoked r = None then r\<lparr>rf_revoked := Some now\<rparr> else r) (od_tokens db)\<rparr>,
        length (filter P (od_tokens db)) = 1)) db"

definition revoke_by_hash :: "string \<Rightarrow> instant \<Rightarrow> 'd oauth_db \<Rightarrow> 'd oauth_db \<times> (string + bool)" where
  "revoke_by_hash hash = revoke_where (\<lambda>r. rf_hash r = hash)"

definition revoke_family :: "uuid \<Rightarrow> instant \<Rightarrow> 'd oauth_db \<Rightarrow> 'd oauth_db \<times> (string + bool)" where
  "revoke_family family = revoke_where (\<lambda>r. rf_family r = family)"

definition revoke_by_id :: "uuid \<Rightarrow> uuid \<Rightarrow> instant \<Rightarrow> 'd oauth_db \<Rightarrow> 'd oauth_db \<times> (string + bool)" where
  "revoke_by_id subject i = revoke_where (\<lambda>r. rf_id r = i \<and> rf_subject r = subject)"

definition revoke_for_user :: "uuid \<Rightarrow> instant \<Rightarrow> 'd oauth_db \<Rightarrow> 'd oauth_db \<times> (string + bool)" where
  "revoke_for_user user = revoke_where (\<lambda>r. rf_subject r = user)"

definition revoke_for_app :: "uuid \<Rightarrow> instant \<Rightarrow> 'd oauth_db \<Rightarrow> 'd oauth_db \<times> (string + bool)" where
  "revoke_for_app app = revoke_where (\<lambda>r. rf_app r = app)"

definition revoke_for_app_org :: "uuid \<Rightarrow> uuid \<Rightarrow> instant \<Rightarrow> 'd oauth_db \<Rightarrow> 'd oauth_db \<times> (string + bool)" where
  "revoke_for_app_org app org = revoke_where (\<lambda>r. rf_app r = app \<and> rf_org r = org)"

text \<open>
  The rotation: in one transaction the row is marked as used, if it is neither used nor revoked, and the next row is
  inserted. \<open>Inr False\<close> means that the row could not be marked.
\<close>

definition rotate_refresh ::
  "uuid \<Rightarrow> oauth_refresh \<Rightarrow> instant \<Rightarrow> 'd oauth_db \<Rightarrow> 'd oauth_db \<times> (string + bool)" where
  "rotate_refresh current new now db =
     (case pg_exec (\<lambda>db. (db, ())) db of
        (db1, Inl m) \<Rightarrow> (db1, Inl m)
      | (db1, Inr _) \<Rightarrow>
          (case pg_exec (\<lambda>db.
             (db\<lparr>od_tokens := map (\<lambda>r. if rf_id r = current \<and> rf_used r = None \<and> rf_revoked r = None
                                      then r\<lparr>rf_used := Some now\<rparr> else r) (od_tokens db)\<rparr>,
              length (filter (\<lambda>r. rf_id r = current \<and> rf_used r = None \<and> rf_revoked r = None) (od_tokens db)) = 1)) db1 of
             (db2, Inl m) \<Rightarrow> (db2, Inl m)
           | (db2, Inr False) \<Rightarrow> (db2\<lparr>od_tokens := od_tokens db\<rparr>, Inr False)
           | (db2, Inr True) \<Rightarrow>
               (case insert_refresh_sql new db2 of
                  (db3, Inl m) \<Rightarrow> (db3\<lparr>od_tokens := od_tokens db\<rparr>, Inl m)
                | (db3, Inr _) \<Rightarrow>
                    (case pg_exec (\<lambda>db. (db, ())) db3 of
                       (db4, Inl m) \<Rightarrow> (db4\<lparr>od_tokens := od_tokens db\<rparr>, Inl m)
                     | (db4, Inr _) \<Rightarrow> (db4, Inr True)))))"

end
