(* ===== verification/OAuth_Handlers.thy ===== *)
theory OAuth_Handlers
  imports OAuth
begin

text \<open>
  The access tokens of the authorization server, and its handlers: authorization and consent, the three grants of the
  token endpoint, and revocation.
\<close>

section \<open>Access tokens\<close>

definition nanos :: int where "nanos = 1000000000"

definition maybe_text :: "string \<Rightarrow> string option" where
  "maybe_text s = (if s = [] then None else Some s)"

definition oauth_token_attributes ::
  "'d oauth_env \<Rightarrow> 'd oauth_user \<Rightarrow> oauth_app \<Rightarrow> string list \<Rightarrow> string \<Rightarrow> 'd dyn option" where
  "oauth_token_attributes env user app scopes =
     (us_attributes user)(''oauth_client_id'' \<mapsto> DStr (oa_client app),
        ''third_party_application_id'' \<mapsto> DStr (ov_uuid_show env (oa_id app)),
        ''oauth_scopes'' \<mapsto> DList (map DStr scopes))"

definition token_expiry :: "'d oauth_env \<Rightarrow> instant option \<Rightarrow> instant" where
  "token_expiry env max_expiry =
     (let exp = ov_now env + ov_access_ttl env in
      case max_expiry of None \<Rightarrow> exp | Some m \<Rightarrow> if m < exp then m else exp)"

definition oauth_claims ::
  "'d oauth_env \<Rightarrow> 'd oauth_user \<Rightarrow> oauth_app \<Rightarrow> string list \<Rightarrow> string list \<Rightarrow> instant \<Rightarrow> 'd claims" where
  "oauth_claims env user app scopes methods exp =
     \<lparr>cl_sub = us_id user, cl_iat = ov_now env div nanos, cl_exp = exp div nanos, cl_iss = maybe_text (ov_issuer env),
      cl_aud = maybe_text (ov_audience env), cl_jti = ov_jti env, cl_email = us_email user, cl_name = us_name user,
      cl_roles = [], cl_permissions = scopes, cl_org = us_org user,
      cl_attributes = oauth_token_attributes env user app scopes, cl_auth_methods = methods,
      cl_token_use = Some ''access'', cl_api_key = None, cl_session_kind = Some ''oauth_third_party_application'',
      cl_scope = None\<rparr>"

definition issue_for_client ::
  "'d oauth_env \<Rightarrow> 'd oauth_user \<Rightarrow> oauth_app \<Rightarrow> string list \<Rightarrow> string list \<Rightarrow> instant option \<Rightarrow>
   string + string \<times> int" where
  "issue_for_client env user app scopes methods max_expiry =
     (let exp = token_expiry env max_expiry in
      if \<not> ov_now env < exp then Inl ''refresh token invalid''
      else (case ov_encode env (oauth_claims env user app scopes methods exp) of
              Inl e \<Rightarrow> Inl (''encode oauth access token: '' @ e)
            | Inr token \<Rightarrow> Inr (token, (exp - ov_now env) div nanos)))"

record api_key =
  ak_id :: uuid
  ak_expires :: "instant option"
  ak_roles :: "string list"
  ak_permissions :: "string list"

definition api_key_claims :: "'d oauth_env \<Rightarrow> 'd oauth_user \<Rightarrow> api_key \<Rightarrow> instant \<Rightarrow> 'd claims" where
  "api_key_claims env user key exp =
     \<lparr>cl_sub = us_id user, cl_iat = ov_now env div nanos, cl_exp = exp div nanos, cl_iss = maybe_text (ov_issuer env),
      cl_aud = maybe_text (ov_audience env), cl_jti = ov_jti env, cl_email = us_email user, cl_name = us_name user,
      cl_roles = ak_roles key, cl_permissions = ak_permissions key, cl_org = us_org user,
      cl_attributes = us_attributes user, cl_auth_methods = [''api_key''],
      cl_token_use = Some ''access'', cl_api_key = Some (ak_id key), cl_session_kind = None, cl_scope = None\<rparr>"

definition issue_for_api_key :: "'d oauth_env \<Rightarrow> 'd oauth_user \<Rightarrow> api_key \<Rightarrow> string + string \<times> int" where
  "issue_for_api_key env user key =
     (let exp = token_expiry env (ak_expires key) in
      if \<not> ov_now env < exp then Inl ''refresh token invalid''
      else (case ov_encode env (api_key_claims env user key exp) of
              Inl e \<Rightarrow> Inl (''encode api key access token: '' @ e)
            | Inr token \<Rightarrow> Inr (token, (exp - ov_now env) div nanos)))"

definition new_refresh_row ::
  "'d oauth_env \<Rightarrow> oauth_app \<Rightarrow> uuid \<Rightarrow> uuid \<Rightarrow> string list \<Rightarrow> uuid \<Rightarrow> string \<Rightarrow> oauth_refresh" where
  "new_refresh_row env app subject org scopes family plain =
     \<lparr>rf_id = ov_row_id env, rf_hash = ov_hash env plain, rf_family = family, rf_app = oa_id app,
      rf_client = oa_client app, rf_subject = subject, rf_org = org, rf_scopes = normalize_set scopes,
      rf_issued = ov_now env, rf_expires = ov_now env + ov_refresh_ttl env, rf_used = None, rf_revoked = None\<rparr>"

section \<open>Authorization\<close>

record auth_request =
  ar_client :: string
  ar_redirect :: string
  ar_response_type :: string
  ar_scopes :: "string list"
  ar_state :: string
  ar_challenge :: string
  ar_method :: string
  ar_org :: "uuid option"

record 'd prepared =
  pp_app :: oauth_app
  pp_user :: "'d oauth_user"
  pp_org :: uuid
  pp_requested :: "string list"
  pp_granted :: "string list"
  pp_missing :: "string list"
  pp_method :: string

text \<open>The checks work on a trimmed copy of the request.\<close>

definition trimmed :: "auth_request \<Rightarrow> auth_request" where
  "trimmed req =
     req\<lparr>ar_client := trim_space (ar_client req), ar_redirect := trim_space (ar_redirect req),
         ar_response_type := (let t = trim_space (ar_response_type req) in if t = [] then ''code'' else t),
         ar_state := trim_space (ar_state req), ar_challenge := trim_space (ar_challenge req),
         ar_method := (let t = trim_space (ar_method req) in if t = [] then ''S256'' else t)\<rparr>"

definition request_error :: "auth_request \<Rightarrow> http_error option" where
  "request_error req =
     (if ar_client req = [] \<or> ar_redirect req = [] then Some (400, ''client_id and redirect_uri are required'')
      else if ar_response_type req \<noteq> ''code'' then Some (400, ''response_type must be code'')
      else if ar_state req = [] then Some (400, ''state is required for CSRF protection'')
      else if ar_challenge req = [] \<or> ar_method req \<noteq> ''S256''
      then Some (400, ''PKCE code_challenge with S256 is required'')
      else if ar_scopes req = [] then Some (400, ''scope is required for authorization_code consent'')
      else None)"

definition app_error :: "oauth_app \<Rightarrow> auth_request \<Rightarrow> uuid \<Rightarrow> http_error option" where
  "app_error a req org =
     (if ''authorization_code'' \<notin> set (oa_grants a) then Some (400, ''client is not enabled for authorization_code'')
      else if ar_redirect req \<notin> set (oa_redirects a) then Some (400, ''redirect_uri is not registered for client'')
      else if \<not> enabled_for a org then Some (403, ''application is not enabled for this organization'')
      else None)"

definition prepare_authorization ::
  "'d claims \<Rightarrow> auth_request \<Rightarrow> 'd oauth_db \<Rightarrow> 'd oauth_db \<times> (http_error + 'd prepared)" where
  "prepare_authorization c req0 db =
     (let req = trimmed req0 in
      case request_error req of
        Some e \<Rightarrow> (db, Inl e)
      | None \<Rightarrow>
          and_do (checked (find_user (cl_sub c) db)) (\<lambda>user db1.
            case user of
              None \<Rightarrow> (db1, Inl (401, ''subject user inactive''))
            | Some u \<Rightarrow>
                if \<not> usable (Some u) then (db1, Inl (401, ''subject user inactive''))
                else (case resolve_organization (ar_org req) c u of
                        Inl e \<Rightarrow> (db1, Inl e)
                      | Inr org \<Rightarrow>
                          and_do (checked (find_app (ar_client req) db1)) (\<lambda>app db2.
                            case app of
                              None \<Rightarrow> (db2, Inl (400, ''unknown client_id''))
                            | Some a \<Rightarrow>
                                (case app_error a req org of
                                   Some e \<Rightarrow> (db2, Inl e)
                                 | None \<Rightarrow>
                                     and_do (checked (security_snapshot (us_id u) db2)) (\<lambda>(roles, permissions) db3.
                                       (case derive_scopes (ar_scopes req) (oa_scopes a) roles permissions of
                                          (granted, missing) \<Rightarrow>
                                            if granted = []
                                            then (db3, Inl (403, ''requested scopes exceed application or user permissions''))
                                            else (db3, Inr \<lparr>pp_app = a, pp_user = u, pp_org = org,
                                                   pp_requested = normalize_set (ar_scopes req), pp_granted = granted,
                                                   pp_missing = missing, pp_method = ar_method req\<rparr>))))))))"

text \<open>The approval of a consent: the code is stored with the texts of the request as they came.\<close>

definition code_ttl :: int where "code_ttl = 600 * nanos"

definition consent_code :: "'d oauth_env \<Rightarrow> 'd prepared \<Rightarrow> auth_request \<Rightarrow> string \<Rightarrow> oauth_code" where
  "consent_code env pp req plain =
     \<lparr>cd_id = ov_row_id env, cd_hash = ov_hash env plain, cd_app = oa_id (pp_app pp), cd_client = oa_client (pp_app pp),
      cd_user = us_id (pp_user pp), cd_org = pp_org pp, cd_redirect = ar_redirect req, cd_state = ar_state req,
      cd_challenge = ar_challenge req, cd_method = pp_method pp, cd_requested = pp_requested pp,
      cd_granted = pp_granted pp, cd_created = ov_now env, cd_expires = ov_now env + code_ttl, cd_consumed = None,
      cd_revoked = None\<rparr>"

definition oauth_consent ::
  "'d oauth_env \<Rightarrow> 'd claims \<Rightarrow> auth_request \<Rightarrow> bool \<Rightarrow> 'd oauth_db \<Rightarrow> 'd oauth_db \<times> (http_error + string option)" where
  "oauth_consent env c req approve db =
     and_do (prepare_authorization c req db) (\<lambda>pp db1.
       if \<not> approve then (db1, Inr None)
       else (case ov_plain env of
               None \<Rightarrow> (db1, Inl internal_error)
             | Some plain \<Rightarrow>
                 and_do (checked (insert_code_sql (consent_code env pp req plain) db1)) (\<lambda>_ db2.
                   and_do (checked (upsert_consent (oa_id (pp_app pp)) (us_id (pp_user pp)) (pp_org pp) (pp_granted pp)
                             (ov_now env) db2)) (\<lambda>_ db3. (db3, Inr (Some plain))))))"

section \<open>The authorization-code grant\<close>

text \<open>The checks before the code is consumed.\<close>

definition code_checks ::
  "'d oauth_env \<Rightarrow> token_request \<Rightarrow> 'd oauth_db \<Rightarrow> 'd oauth_db \<times> (http_error + oauth_app)" where
  "code_checks env body db =
     (if trim_space (tq_code body) = [] \<or> trim_space (tq_redirect body) = [] \<or> trim_space (tq_verifier body) = []
      then (db, Inl (400, ''code, redirect_uri, and code_verifier are required''))
      else and_do (checked (find_app (trim_space (tq_client body)) db)) (\<lambda>app db1.
             case client_authentication env app (tq_client body) (tq_secret body) of
               Some e \<Rightarrow> (db1, Inl e)
             | None \<Rightarrow>
                 (let a = the app in
                  if ''authorization_code'' \<notin> set (oa_grants a)
                  then (db1, Inl (400, ''client is not enabled for authorization_code''))
                  else and_do (checked (find_code (ov_hash env (tq_code body)) (ov_now env) db1)) (\<lambda>code db2.
                         case code of
                           None \<Rightarrow> (db2, Inl (401, ''invalid authorization code''))
                         | Some cd \<Rightarrow>
                             if cd_client cd \<noteq> oa_client a \<or> cd_redirect cd \<noteq> trim_space (tq_redirect body)
                             then (db2, Inl (401, ''invalid authorization code''))
                             else if \<not> verify_pkce env (cd_method cd) (cd_challenge cd) (trim_space (tq_verifier body))
                             then (db2, Inl (401, ''invalid code_verifier''))
                             else (db2, Inr a)))))"

text \<open>The consumption and what follows.\<close>

definition code_issue ::
  "'d oauth_env \<Rightarrow> oauth_app \<Rightarrow> oauth_code option \<Rightarrow> 'd oauth_db \<Rightarrow> 'd oauth_db \<times> (http_error + token_response)" where
  "code_issue env a code db1 =
     (case code of
        None \<Rightarrow> (db1, Inl (401, ''invalid authorization code''))
      | Some cd \<Rightarrow>
          and_do (checked (find_user (cd_user cd) db1)) (\<lambda>user db2.
            case user of
              None \<Rightarrow> (db2, Inl (401, ''subject user inactive''))
            | Some u \<Rightarrow>
                if \<not> usable (Some u) then (db2, Inl (401, ''subject user inactive''))
                else if \<not> enabled_for a (cd_org cd)
                then (db2, Inl (403, ''application is not enabled for this organization''))
                else (case issue_for_client env u a (cd_granted cd) [''oauth_authorization_code''] None of
                        Inl _ \<Rightarrow> (db2, Inl (401, ''token issuance failed''))
                      | Inr (access, expires_in) \<Rightarrow>
                          (case ov_plain env of
                             None \<Rightarrow> (db2, Inl internal_error)
                           | Some plain \<Rightarrow>
                               and_do (checked (insert_refresh_sql
                                   (new_refresh_row env a (us_id u) (cd_org cd) (cd_granted cd) (ov_family env) plain) db2))
                                 (\<lambda>_ db3. (db3, Inr \<lparr>tr_access = access, tr_expires_in = expires_in,
                                    tr_refresh = Some plain, tr_scope = join_with '' '' (cd_granted cd)\<rparr>))))))"

definition code_redeem ::
  "'d oauth_env \<Rightarrow> token_request \<Rightarrow> oauth_app \<Rightarrow> 'd oauth_db \<Rightarrow> 'd oauth_db \<times> (http_error + token_response)" where
  "code_redeem env body a db =
     and_do (checked (consume_code (ov_hash env (tq_code body)) (ov_now env) db)) (code_issue env a)"

definition authorization_code_token ::
  "'d oauth_env \<Rightarrow> token_request \<Rightarrow> 'd oauth_db \<Rightarrow> 'd oauth_db \<times> (http_error + token_response)" where
  "authorization_code_token env body db = and_do (code_checks env body db) (\<lambda>a db1. code_redeem env body a db1)"

section \<open>The refresh grant\<close>

record refresh_plan =
  rn_row :: oauth_refresh
  rn_next :: oauth_refresh
  rn_response :: token_response

definition refresh_scopes ::
  "token_request \<Rightarrow> oauth_refresh \<Rightarrow> oauth_app \<Rightarrow> string list \<Rightarrow> string list \<Rightarrow> string list" where
  "refresh_scopes body row a roles permissions =
     (let asked = parse_scopes (tq_scope body) (tq_scopes body);
          requested = (if asked = [] then rf_scopes row else asked) in
      fst (derive_scopes requested (scope_ceiling (rf_scopes row) (oa_scopes a)) roles permissions))"

definition refresh_requested :: "token_request \<Rightarrow> oauth_refresh \<Rightarrow> string list" where
  "refresh_requested body row =
     (let asked = parse_scopes (tq_scope body) (tq_scopes body) in if asked = [] then rf_scopes row else asked)"

text \<open>Everything up to the rotation of the row.\<close>

definition refresh_prepare ::
  "'d oauth_env \<Rightarrow> token_request \<Rightarrow> 'd oauth_db \<Rightarrow> 'd oauth_db \<times> (http_error + refresh_plan)" where
  "refresh_prepare env body db =
     (let refresh = trim_space (tq_refresh body); invalid = (401, ''invalid refresh_token'') in
      if refresh = [] then (db, Inl (400, ''refresh_token is required''))
      else and_do (checked (find_refresh (ov_hash env refresh) db)) (\<lambda>found db1.
        case found of
          None \<Rightarrow> (db1, Inl invalid)
        | Some row \<Rightarrow>
            if \<not> ov_now env < rf_expires row then (db1, Inl invalid)
            else if rf_revoked row \<noteq> None \<or> rf_used row \<noteq> None
            then (fst (revoke_family (rf_family row) (ov_now env) db1), Inl invalid)
            else (let client = trim_space (tq_client body) in
              if client = [] then (db1, Inl (400, ''client_id is required''))
              else and_do (checked (find_app client db1)) (\<lambda>app db2.
                case app of
                  None \<Rightarrow> (db2, Inl invalid)
                | Some a \<Rightarrow>
                    if oa_id a \<noteq> rf_app row \<or> rf_client row \<noteq> oa_client a then (db2, Inl invalid)
                    else (case client_authentication env (Some a) client (tq_secret body) of
                      Some e \<Rightarrow> (db2, Inl e)
                    | None \<Rightarrow>
                        and_do (checked (find_user (rf_subject row) db2)) (\<lambda>user db3.
                          case user of
                            None \<Rightarrow> (db3, Inl (401, ''subject user inactive''))
                          | Some u \<Rightarrow>
                              if \<not> usable (Some u) then (db3, Inl (401, ''subject user inactive''))
                              else if \<not> enabled_for a (rf_org row)
                              then (db3, Inl (403, ''application is not enabled for this organization''))
                              else and_do (checked (security_snapshot (us_id u) db3)) (\<lambda>(roles, permissions) db4.
                                let granted = refresh_scopes body row a roles permissions in
                                if refresh_requested body row \<noteq> [] \<and> granted = []
                                then (db4, Inl (403,
                                  ''requested refresh scopes exceed current token, application, or user permissions''))
                                else (case issue_for_client env u a granted [''oauth_refresh_token''] None of
                                        Inl _ \<Rightarrow> (db4, Inl (401, ''token issuance failed''))
                                      | Inr (access, expires_in) \<Rightarrow>
                                          (case ov_plain env of
                                             None \<Rightarrow> (db4, Inl internal_error)
                                           | Some plain \<Rightarrow>
                                               (db4, Inr \<lparr>rn_row = row,
                                                  rn_next = new_refresh_row env a (us_id u) (rf_org row) granted (rf_family row) plain,
                                                  rn_response = \<lparr>tr_access = access, tr_expires_in = expires_in,
                                                    tr_refresh = Some plain, tr_scope = join_with '' '' granted\<rparr>\<rparr>))))))))))"

definition refresh_commit ::
  "'d oauth_env \<Rightarrow> refresh_plan \<Rightarrow> 'd oauth_db \<Rightarrow> 'd oauth_db \<times> (http_error + token_response)" where
  "refresh_commit env plan db =
     and_do (checked (rotate_refresh (rf_id (rn_row plan)) (rn_next plan) (ov_now env) db)) (\<lambda>rotated db1.
       if rotated then (db1, Inr (rn_response plan))
       else (fst (revoke_family (rf_family (rn_row plan)) (ov_now env) db1), Inl (401, ''invalid refresh_token'')))"

definition refresh_token_grant ::
  "'d oauth_env \<Rightarrow> token_request \<Rightarrow> 'd oauth_db \<Rightarrow> 'd oauth_db \<times> (http_error + token_response)" where
  "refresh_token_grant env body db = and_do (refresh_prepare env body db) (\<lambda>plan db1. refresh_commit env plan db1)"

section \<open>The client-credentials grant\<close>

definition requested_org ::
  "'d oauth_env \<Rightarrow> token_request \<Rightarrow> oauth_app \<Rightarrow> 'd oauth_user \<Rightarrow> http_error + uuid" where
  "requested_org env body a user =
     (let text = trim_space (tq_org body) in
      if text = [] then Inr (oa_managing a)
      else (case ov_uuid_parse env text of
              None \<Rightarrow> Inl (400, ''invalid organization_id'')
            | Some i \<Rightarrow>
                if i \<noteq> oa_managing a \<and> us_org user \<noteq> Some i
                then Inl (403, ''service user is not authorised for the requested organization_id'')
                else Inr i))"

definition client_credentials_token ::
  "'d oauth_env \<Rightarrow> token_request \<Rightarrow> 'd oauth_db \<Rightarrow> 'd oauth_db \<times> (http_error + token_response)" where
  "client_credentials_token env body db =
     and_do (checked (find_app (trim_space (tq_client body)) db)) (\<lambda>app db1.
       case client_authentication env app (tq_client body) (tq_secret body) of
         Some e \<Rightarrow> (db1, Inl e)
       | None \<Rightarrow>
           (let a = the app in
            if oa_type a \<noteq> ''confidential'' \<or> ''client_credentials'' \<notin> set (oa_grants a)
            then (db1, Inl (400, ''client is not enabled for client_credentials''))
            else (case oa_service_user a of
                    None \<Rightarrow> (db1, Inl (400, ''client has no service user''))
                  | Some i \<Rightarrow>
                      and_do (checked (find_user i db1)) (\<lambda>user db2.
                        case user of
                          None \<Rightarrow> (db2, Inl (401, ''service user inactive''))
                        | Some u \<Rightarrow>
                            if \<not> usable (Some u) then (db2, Inl (401, ''service user inactive''))
                            else (case requested_org env body a u of
                                    Inl e \<Rightarrow> (db2, Inl e)
                                  | Inr org \<Rightarrow>
                                      if \<not> enabled_for a org
                                      then (db2, Inl (403, ''application is not enabled for this organization''))
                                      else and_do (checked (security_snapshot (us_id u) db2)) (\<lambda>(roles, permissions) db3.
                                        let asked = parse_scopes (tq_scope body) (tq_scopes body);
                                            granted = fst (derive_scopes asked (oa_scopes a) roles permissions) in
                                        if (if asked = [] then oa_scopes a else asked) \<noteq> [] \<and> granted = []
                                        then (db3, Inl (403, ''requested scopes exceed application or service-user permissions''))
                                        else (case issue_for_client env (u\<lparr>us_org := Some org\<rparr>) a granted
                                                     [''oauth_client_credentials''] None of
                                                Inl _ \<Rightarrow> (db3, Inl (401, ''token issuance failed''))
                                              | Inr (access, expires_in) \<Rightarrow>
                                                  (db3, Inr \<lparr>tr_access = access, tr_expires_in = expires_in,
                                                     tr_refresh = None, tr_scope = join_with '' '' granted\<rparr>))))))))"

definition oauth_token ::
  "'d oauth_env \<Rightarrow> token_request \<Rightarrow> 'd oauth_db \<Rightarrow> 'd oauth_db \<times> (http_error + token_response)" where
  "oauth_token env body db =
     (let grant = trim_space (tq_grant body) in
      if grant = ''authorization_code'' then authorization_code_token env body db
      else if grant = ''refresh_token'' then refresh_token_grant env body db
      else if grant = ''client_credentials'' then client_credentials_token env body db
      else (db, Inl (400, ''unsupported grant_type'')))"

section \<open>Revocation\<close>

definition oauth_revoke ::
  "'d oauth_env \<Rightarrow> string \<Rightarrow> string \<Rightarrow> string \<Rightarrow> 'd oauth_db \<Rightarrow> 'd oauth_db \<times> (http_error + unit)" where
  "oauth_revoke env token0 client secret db =
     (let token = trim_space token0; revoke = (\<lambda>db. and_do (checked (revoke_by_hash (ov_hash env token) (ov_now env) db)) (\<lambda>_ db'. (db', Inr ()))) in
      if token = [] then (db, Inl (400, ''token required''))
      else and_do (checked (find_refresh (ov_hash env token) db)) (\<lambda>found db1.
        case found of
          None \<Rightarrow> revoke db1
        | Some row \<Rightarrow>
            and_do (checked (find_app (rf_client row) db1)) (\<lambda>app db2.
              case app of
                None \<Rightarrow> revoke db2
              | Some a \<Rightarrow>
                  (case client_authentication env (Some a) client secret of
                     Some e \<Rightarrow> (db2, Inl e)
                   | None \<Rightarrow> revoke db2))))"

definition revoke_authorization ::
  "'d oauth_env \<Rightarrow> uuid \<Rightarrow> string \<Rightarrow> 'd oauth_db \<Rightarrow> 'd oauth_db \<times> (http_error + unit)" where
  "revoke_authorization env user i db =
     (if user = uuid_nil then (db, Inl (401, ''unauthorized''))
      else (case ov_uuid_parse env i of
              None \<Rightarrow> (db, Inl (400, ''invalid id''))
            | Some token_id \<Rightarrow>
                and_do (checked (revoke_by_id user token_id (ov_now env) db)) (\<lambda>ok db1.
                  if ok then (db1, Inr ()) else (db1, Inl (404, ''not found'')))))"

end
