(* ===== verification/OAuth_Proofs.thy ===== *)
theory OAuth_Proofs
  imports OAuth_Handlers
begin

text \<open>
  What the handlers keep: a code that is consumed stays consumed and a refresh token that is used stays used, whatever
  other calls do in between. The scopes that are granted, and the authentication behind every token.
\<close>

section \<open>Scopes\<close>

lemma normalize_set_set: "set (normalize_set vs) = trim_space ` set vs - {[]}"
  by (auto simp: normalize_set_def)

lemma trim_space_idem [simp]: "trim_space (trim_space s) = trim_space s"
proof (cases "trim_space s = []")
  case True
  then show ?thesis by (simp only: True) (simp add: trim_space_def trim_left_def)
next
  case False
  define t where "t = trim_left s"
  have ne: "dropWhile is_space (rev t) \<noteq> []" and t: "t = dropWhile is_space s"
    using False by (simp_all add: trim_space_def trim_left_def t_def)
  then have last: "\<not> is_space (hd (dropWhile is_space (rev t)))"
    by (simp add: hd_dropWhile)
  have "rev t = takeWhile is_space (rev t) @ dropWhile is_space (rev t)"
    by simp
  then have "t = rev (dropWhile is_space (rev t)) @ rev (takeWhile is_space (rev t))"
    by (metis rev_append rev_rev_ident)
  then have "hd (rev (dropWhile is_space (rev t))) = hd t"
    using ne by (metis hd_append2 rev_is_Nil_conv)
  moreover have "\<not> is_space (hd t)"
    using t ne hd_dropWhile [of is_space s] by (metis dropWhile.simps(1) rev.simps(1))
  ultimately show ?thesis
    using False ne last by (intro trim_space_id) (simp_all add: trim_space_def trim_left_def t_def last_rev)
qed

lemma normalize_set_sorted: "sorted (normalize_set vs)" "distinct (normalize_set vs)"
  by (simp_all add: normalize_set_def)

lemma normalize_set_filter [simp]:
  "set (normalize_set (filter P (normalize_set vs))) = {v \<in> set (normalize_set vs). P v}"
proof -
  have "v \<in> set (normalize_set (filter P (normalize_set vs)))" if "v \<in> set (normalize_set vs)" "P v" for v
  proof -
    have "trim_space v = v" "v \<noteq> []"
      using that(1) by (auto simp: normalize_set_set)
    then show ?thesis
      using that by (simp add: normalize_set_set [of "filter P _"]) (metis (mono_tags) image_eqI mem_Collect_eq)
  qed
  then show ?thesis
    by (auto simp: normalize_set_set)
qed

lemma normalize_set_idem [simp]: "normalize_set (normalize_set vs) = normalize_set vs"
proof (rule sorted_distinct_set_unique)
  show "set (normalize_set (normalize_set vs)) = set (normalize_set vs)"
    using normalize_set_filter [of "\<lambda>_. True" vs] by simp
qed (simp_all add: normalize_set_sorted)

lemma normalize_set_empty: "normalize_set vs = [] \<longleftrightarrow> (\<forall>v \<in> set vs. trim_space v = [])"
  using normalize_set_set [of vs] by (metis (no_types, lifting) Diff_eq_empty_iff image_subset_iff set_empty singleton_iff)

definition scope_default :: "string list \<Rightarrow> string list \<Rightarrow> string list \<Rightarrow> string list \<Rightarrow> string list" where
  "scope_default requested app_scopes roles permissions =
     (if normalize_set requested \<noteq> [] then normalize_set requested
      else if normalize_set app_scopes \<noteq> [] then normalize_set app_scopes
      else if ''admin'' \<in> set (normalize_set roles) \<or> ''*:*'' \<in> set (normalize_set permissions) then [''*:*'']
      else normalize_set permissions)"

definition scope_granted :: "string list \<Rightarrow> string list \<Rightarrow> string list \<Rightarrow> string \<Rightarrow> bool" where
  "scope_granted app_scopes roles permissions scope \<longleftrightarrow>
     (normalize_set app_scopes = [] \<or> scope_allowed scope (normalize_set app_scopes)) \<and>
     (''admin'' \<in> set (normalize_set roles) \<or> scope_allowed scope (normalize_set permissions))"

lemma derive_scopes_split:
  "derive_scopes requested app_scopes roles permissions =
     (normalize_set (filter (scope_granted app_scopes roles permissions)
        (scope_default requested app_scopes roles permissions)),
      normalize_set (filter (\<lambda>s. \<not> scope_granted app_scopes roles permissions s)
        (scope_default requested app_scopes roles permissions)))"
  unfolding derive_scopes_def scope_default_def scope_granted_def [abs_def] Let_def by (rule refl)

section \<open>What is kept\<close>

definition code_spent :: "string \<Rightarrow> oauth_code list \<Rightarrow> bool" where
  "code_spent h cs \<longleftrightarrow> h \<in> cd_hash ` set cs \<and> (\<forall>c \<in> set cs. cd_hash c = h \<longrightarrow> cd_consumed c \<noteq> None)"

definition token_used :: "uuid \<Rightarrow> oauth_refresh list \<Rightarrow> bool" where
  "token_used i ts \<longleftrightarrow> i \<in> rf_id ` set ts \<and> (\<forall>r \<in> set ts. rf_id r = i \<longrightarrow> rf_used r \<noteq> None)"

definition keys_unique :: "'d oauth_db \<Rightarrow> bool" where
  "keys_unique db \<longleftrightarrow> distinct (map cd_hash (od_codes db)) \<and> distinct (map rf_id (od_tokens db))"

definition same_row :: "oauth_refresh \<Rightarrow> oauth_refresh \<Rightarrow> bool" where
  "same_row r r' \<longleftrightarrow> rf_id r' = rf_id r \<and> rf_family r' = rf_family r \<and> (rf_revoked r \<noteq> None \<longrightarrow> rf_revoked r' \<noteq> None)"

text \<open>
  \<open>keeps_rows F db db'\<close>: spent codes, used and revoked tokens and the keys are kept; every row of a token is kept, and
  a row that is new is in one of the families \<open>F\<close>.
\<close>

definition keeps_rows :: "uuid set \<Rightarrow> 'd oauth_db \<Rightarrow> 'd oauth_db \<Rightarrow> bool" where
  "keeps_rows F db db' \<longleftrightarrow>
     (\<forall>h. code_spent h (od_codes db) \<longrightarrow> code_spent h (od_codes db')) \<and>
     (\<forall>i. token_used i (od_tokens db) \<longrightarrow> token_used i (od_tokens db')) \<and>
     (keys_unique db \<longrightarrow> keys_unique db') \<and>
     (\<forall>r \<in> set (od_tokens db). \<exists>r' \<in> set (od_tokens db'). same_row r r') \<and>
     (\<forall>r' \<in> set (od_tokens db'). rf_family r' \<in> F \<or> (\<exists>r \<in> set (od_tokens db). same_row r r'))"

lemma same_row_refl [simp]: "same_row r r"
  by (simp add: same_row_def)

lemma same_row_self [simp]:
  "r \<in> R \<Longrightarrow> \<exists>x \<in> R. same_row r x" "r \<in> R \<Longrightarrow> \<exists>x \<in> R. same_row x r"
  by (auto intro: same_row_refl)

lemma same_row_trans: "same_row a b \<Longrightarrow> same_row b c \<Longrightarrow> same_row a c"
  by (simp add: same_row_def)

named_theorems keeps \<open>statements and handlers that keep spent codes and used tokens\<close>

lemma keeps_refl [keeps]: "keeps_rows F db db"
  by (auto simp: keeps_rows_def)

lemma keeps_trans:
  assumes ab: "keeps_rows F a b" and bc: "keeps_rows F b c"
  shows "keeps_rows F a c"
proof -
  have "\<exists>z \<in> set (od_tokens c). same_row x z" if "x \<in> set (od_tokens a)" for x
    using ab bc that same_row_trans unfolding keeps_rows_def by meson
  moreover have "rf_family z \<in> F \<or> (\<exists>x \<in> set (od_tokens a). same_row x z)" if z: "z \<in> set (od_tokens c)" for z
  proof -
    have "rf_family z \<in> F \<or> (\<exists>y \<in> set (od_tokens b). same_row y z)"
      using bc z by (simp add: keeps_rows_def)
    then show ?thesis
      using ab same_row_trans unfolding keeps_rows_def same_row_def by metis
  qed
  ultimately show ?thesis
    using ab bc by (simp add: keeps_rows_def)
qed

lemma keeps_same: "od_codes db' = od_codes db \<Longrightarrow> od_tokens db' = od_tokens db \<Longrightarrow> keeps_rows F db db'"
  by (auto simp: keeps_rows_def keys_unique_def)

lemma keeps_and_do [keeps]:
  "keeps_rows F db (fst r) \<Longrightarrow> (\<And>x db1. keeps_rows F db1 (fst (f x db1))) \<Longrightarrow> keeps_rows F db (fst (and_do r f))"
  by (auto simp: and_do_def split: prod.splits sum.splits intro: keeps_trans)

lemma keeps_checked [keeps]: "keeps_rows F db (fst r) \<Longrightarrow> keeps_rows F db (fst (checked r))"
  by (auto simp: checked_def split: prod.splits sum.splits)

lemma keeps_append:
  "rf_id r \<notin> rf_id ` set (od_tokens db) \<Longrightarrow> rf_family r \<in> F \<Longrightarrow> od_codes db' = od_codes db \<Longrightarrow>
     od_tokens db' = od_tokens db @ [r] \<Longrightarrow> keeps_rows F db db'"
  by (auto simp: keeps_rows_def keys_unique_def token_used_def)

lemma keeps_clock: "keeps_rows F db (db'\<lparr>pg_clock := n\<rparr>) = keeps_rows F db db'"
  by (simp add: keeps_rows_def keys_unique_def)

lemma keeps_exec:
  "(\<And>db'. db' = fst (f db) \<Longrightarrow> keeps_rows F db db') \<Longrightarrow> keeps_rows F db (fst (pg_exec f db))"
  by (auto simp: pg_exec_def Let_def keeps_clock keeps_refl split: option.splits prod.splits)

lemma keeps_read [keeps]: "keeps_rows F db (fst (pg_exec (\<lambda>db. (db, f db)) db))"
  by (rule keeps_exec) (simp add: keeps_refl)

lemma keeps_map_codes:
  assumes "\<And>c. cd_hash (f c) = cd_hash c" and "\<And>c. cd_consumed c \<noteq> None \<Longrightarrow> cd_consumed (f c) \<noteq> None"
  shows "keeps_rows F db (db\<lparr>od_codes := map f (od_codes db)\<rparr>)"
proof -
  have "cd_hash \<circ> f = cd_hash" using assms(1) by (simp add: fun_eq_iff)
  then show ?thesis
    using assms by (auto simp: keeps_rows_def code_spent_def keys_unique_def image_image)
qed

lemma keeps_map_tokens:
  assumes "\<And>r. same_row r (f r)" and "\<And>r. rf_used r \<noteq> None \<Longrightarrow> rf_used (f r) \<noteq> None"
  shows "keeps_rows F db (db\<lparr>od_tokens := map f (od_tokens db)\<rparr>)"
proof -
  have id: "rf_id (f r) = rf_id r" for r using assms(1) by (simp add: same_row_def)
  have "rf_id \<circ> f = rf_id" using id by (simp add: fun_eq_iff)
  moreover have "\<exists>x \<in> R. same_row x (f r)" if "r \<in> R" for r and R :: "oauth_refresh set" using assms(1) that by blast
  ultimately show ?thesis
    using assms id by (auto simp: keeps_rows_def token_used_def keys_unique_def image_image)
qed

lemma keeps_find_app [keeps]: "keeps_rows F db (fst (find_app client db))"
proof -
  obtain db1 r where r: "pg_exec (\<lambda>db. (db, find (\<lambda>a. oa_client a = client \<and> oa_revoked a = None) (od_apps db))) db = (db1, r)"
    by fastforce
  then have "keeps_rows F db db1"
    using keeps_read [of F db "\<lambda>db. find (\<lambda>a. oa_client a = client \<and> oa_revoked a = None) (od_apps db)"] by simp
  then show ?thesis
    using r keeps_trans [OF _ keeps_read] by (auto simp: find_app_def split: sum.splits option.splits)
qed

lemma keeps_find_user [keeps]: "keeps_rows F db (fst (find_user i db))"
  by (simp add: find_user_def keeps_read)

lemma keeps_snapshot [keeps]: "keeps_rows F db (fst (security_snapshot i db))"
proof -
  obtain db1 r where r: "pg_exec (\<lambda>db. (db, sort (od_roles db i))) db = (db1, r)"
    by fastforce
  obtain db2 q where q: "pg_exec (\<lambda>db. (db, sort (remdups (od_permissions db i)))) db1 = (db2, q)"
    by fastforce
  have "keeps_rows F db db1" "keeps_rows F db1 db2"
    using keeps_read [of F db "\<lambda>db. sort (od_roles db i)"] r keeps_read [of F db1 "\<lambda>db. sort (remdups (od_permissions db i))"] q
    by simp_all
  then show ?thesis
    using r q by (auto simp: security_snapshot_def split: sum.splits intro: keeps_trans)
qed

lemma keeps_find_code [keeps]: "keeps_rows F db (fst (find_code h now db))"
  by (simp add: find_code_def keeps_read)

lemma keeps_consume [keeps]: "keeps_rows F db (fst (consume_code h now db))"
  unfolding consume_code_def by (rule keeps_exec) (auto intro!: keeps_map_codes)

lemma keeps_insert_code [keeps]: "keeps_rows F db (fst (insert_code_sql c db))"
proof -
  let ?f = "\<lambda>db. if cd_id c \<in> set (map cd_id (od_codes db)) \<or> cd_hash c \<in> set (map cd_hash (od_codes db)) then (db, False)
        else (db\<lparr>od_codes := od_codes db @ [c]\<rparr>, True)"
  have "keeps_rows F db (fst (pg_exec ?f db))"
    by (rule keeps_exec) (auto simp: keeps_rows_def code_spent_def keys_unique_def)
  then show ?thesis
    by (auto simp: insert_code_sql_def split: prod.splits sum.splits)
qed

lemma keeps_consent [keeps]: "keeps_rows F db (fst (upsert_consent app user org scopes now db))"
  unfolding upsert_consent_def by (rule keeps_exec) (auto intro: keeps_same)

lemma keeps_find_refresh [keeps]: "keeps_rows F db (fst (find_refresh h db))"
  by (simp add: find_refresh_def keeps_read)

lemma keeps_insert_row: "rf_family r \<in> F \<Longrightarrow> keeps_rows F db (fst (insert_refresh_row r db))"
  by (auto simp: insert_refresh_row_def keeps_rows_def token_used_def keys_unique_def)

lemma keeps_insert_refresh [keeps]: "rf_family r \<in> F \<Longrightarrow> keeps_rows F db (fst (insert_refresh_sql r db))"
proof -
  assume "rf_family r \<in> F"
  then have "keeps_rows F db (fst (pg_exec (insert_refresh_row r) db))"
    by (intro keeps_exec) (simp add: keeps_insert_row)
  then show ?thesis
    by (auto simp: insert_refresh_sql_def split: prod.splits sum.splits)
qed

lemma keeps_revoke_where [keeps]: "keeps_rows F db (fst (revoke_where P now db))"
  unfolding revoke_where_def by (rule keeps_exec) (auto simp: same_row_def intro!: keeps_map_tokens)

lemma keeps_revokes [keeps]:
  "keeps_rows F db (fst (revoke_by_hash h now db))" "keeps_rows F db (fst (revoke_family f now db))"
  "keeps_rows F db (fst (revoke_by_id s i now db))" "keeps_rows F db (fst (revoke_for_user s now db))"
  "keeps_rows F db (fst (revoke_for_app a now db))" "keeps_rows F db (fst (revoke_for_app_org a org now db))"
  by (simp_all add: revoke_by_hash_def revoke_family_def revoke_by_id_def revoke_for_user_def revoke_for_app_def
      revoke_for_app_org_def keeps_revoke_where)

text \<open>The rotation keeps what is used, and changes nothing unless it succeeds.\<close>

definition mark_used :: "uuid \<Rightarrow> instant \<Rightarrow> oauth_refresh \<Rightarrow> oauth_refresh" where
  "mark_used i now r = (if rf_id r = i \<and> rf_used r = None \<and> rf_revoked r = None then r\<lparr>rf_used := Some now\<rparr> else r)"

definition markable :: "uuid \<Rightarrow> oauth_refresh \<Rightarrow> bool" where
  "markable i r \<longleftrightarrow> rf_id r = i \<and> rf_used r = None \<and> rf_revoked r = None"

lemma insert_refresh_tokens:
  "insert_refresh_sql r db = (db', Inr u) \<Longrightarrow> od_tokens db' = od_tokens db @ [r] \<and> od_codes db' = od_codes db"
  by (auto simp: insert_refresh_sql_def insert_refresh_row_def pg_exec_def Let_def
      split: prod.splits sum.splits option.splits if_splits)

lemma insert_refresh_codes: "insert_refresh_sql r db = (db', x) \<Longrightarrow> od_codes db' = od_codes db"
  by (auto simp: insert_refresh_sql_def insert_refresh_row_def pg_exec_def Let_def
      split: prod.splits sum.splits option.splits if_splits)

lemma pg_exec_read: "pg_exec (\<lambda>db. (db, f db)) db = (db1, r) \<Longrightarrow> od_tokens db1 = od_tokens db \<and> od_codes db1 = od_codes db"
  by (auto simp: pg_exec_def Let_def split: option.splits)

lemma pg_exec_mark:
  "pg_exec (\<lambda>db. (db\<lparr>od_tokens := map (mark_used i now) (od_tokens db)\<rparr>, length (filter (markable i) (od_tokens db)) = 1)) db =
     (db1, Inr ok) \<Longrightarrow>
   od_tokens db1 = map (mark_used i now) (od_tokens db) \<and> od_codes db1 = od_codes db \<and>
     ok = (length (filter (markable i) (od_tokens db)) = 1)"
  by (auto simp: pg_exec_def Let_def split: option.splits)

lemma pg_exec_failed: "pg_exec f db = (db1, Inl m) \<Longrightarrow> od_tokens db1 = od_tokens db \<and> od_codes db1 = od_codes db"
  by (auto simp: pg_exec_def Let_def split: option.splits prod.splits)

lemma rotate_refresh_alt:
  "rotate_refresh i new now db =
     (case pg_exec (\<lambda>db. (db, ())) db of
        (db1, Inl m) \<Rightarrow> (db1, Inl m)
      | (db1, Inr _) \<Rightarrow>
          (case pg_exec (\<lambda>db. (db\<lparr>od_tokens := map (mark_used i now) (od_tokens db)\<rparr>,
                length (filter (markable i) (od_tokens db)) = 1)) db1 of
             (db2, Inl m) \<Rightarrow> (db2, Inl m)
           | (db2, Inr False) \<Rightarrow> (db2\<lparr>od_tokens := od_tokens db\<rparr>, Inr False)
           | (db2, Inr True) \<Rightarrow>
               (case insert_refresh_sql new db2 of
                  (db3, Inl m) \<Rightarrow> (db3\<lparr>od_tokens := od_tokens db\<rparr>, Inl m)
                | (db3, Inr _) \<Rightarrow>
                    (case pg_exec (\<lambda>db. (db, ())) db3 of
                       (db4, Inl m) \<Rightarrow> (db4\<lparr>od_tokens := od_tokens db\<rparr>, Inl m)
                     | (db4, Inr _) \<Rightarrow> (db4, Inr True)))))"
  by (simp only: rotate_refresh_def markable_def [abs_def] mark_used_def [abs_def])

lemma rotate_refresh_effect:
  assumes "rotate_refresh i new now db = (db', res)"
  shows "od_codes db' = od_codes db \<and>
    (if res = Inr True
     then length (filter (markable i) (od_tokens db)) = 1 \<and>
          od_tokens db' = map (mark_used i now) (od_tokens db) @ [new]
     else od_tokens db' = od_tokens db)"
proof -
  let ?mark = "\<lambda>db. (db\<lparr>od_tokens := map (mark_used i now) (od_tokens db)\<rparr>, length (filter (markable i) (od_tokens db)) = 1)"
  obtain db1 r1 where 1: "pg_exec (\<lambda>db. (db, ())) db = (db1, r1)" by fastforce
  note same1 = pg_exec_read [OF 1]
  show ?thesis
  proof (cases r1)
    case (Inl m)
    then show ?thesis using assms 1 same1 by (auto simp: rotate_refresh_alt)
  next
    case (Inr u)
    note start = Inr
    obtain db2 r2 where 2: "pg_exec ?mark db1 = (db2, r2)" by fastforce
    show ?thesis
    proof (cases r2)
      case (Inl m)
      then show ?thesis using assms 1 2 same1 start pg_exec_failed [of ?mark db1 db2 m] by (auto simp: rotate_refresh_alt)
    next
      case (Inr ok)
      note mark = pg_exec_mark [OF 2 [unfolded Inr]] same1
      obtain db3 r3 where 3: "insert_refresh_sql new db2 = (db3, r3)" by fastforce
      obtain db4 r4 where 4: "pg_exec (\<lambda>db. (db, ())) db3 = (db4, r4)" by fastforce
      show ?thesis
        using assms 1 2 start Inr 3 4 mark insert_refresh_codes [OF 3] insert_refresh_tokens [of new db2 db3] pg_exec_read [OF 4]
        by (cases ok; cases r3; cases r4) (auto simp: rotate_refresh_alt)
    qed
  qed
qed

lemma mark_used_id [simp]: "rf_id (mark_used i now r) = rf_id r"
  by (simp add: mark_used_def)

text \<open>A successful insertion has a fresh id, so it does not unmark a used row.\<close>

lemma insert_refresh_fresh:
  "insert_refresh_sql r db = (db', Inr u) \<Longrightarrow> rf_id r \<notin> rf_id ` set (od_tokens db)"
  by (auto simp: insert_refresh_sql_def insert_refresh_row_def pg_exec_def Let_def
      split: prod.splits sum.splits option.splits if_splits)

lemma rotate_refresh_fresh:
  assumes "rotate_refresh i new now db = (db', Inr True)"
  shows "rf_id new \<notin> rf_id ` set (od_tokens db)"
proof -
  let ?mark = "\<lambda>db. (db\<lparr>od_tokens := map (mark_used i now) (od_tokens db)\<rparr>, length (filter (markable i) (od_tokens db)) = 1)"
  obtain db1 r1 where 1: "pg_exec (\<lambda>db. (db, ())) db = (db1, r1)" by fastforce
  obtain db2 r2 where 2: "pg_exec ?mark db1 = (db2, r2)" by fastforce
  obtain db3 r3 where 3: "insert_refresh_sql new db2 = (db3, r3)" by fastforce
  have "r1 = Inr ()" "r2 = Inr True" "\<exists>u. r3 = Inr u"
    using assms 1 2 3 by (auto simp: rotate_refresh_alt split: sum.splits bool.splits)
  then have "rf_id new \<notin> rf_id ` set (od_tokens db2)" "od_tokens db2 = map (mark_used i now) (od_tokens db)"
    using insert_refresh_fresh [of new db2 db3] 3 pg_exec_mark [of i now db1 db2 True] 2 pg_exec_read [OF 1] by simp_all
  moreover have "rf_id ` set (map (mark_used i now) (od_tokens db)) = rf_id ` set (od_tokens db)"
    by (simp add: image_image)
  ultimately show ?thesis
    by simp
qed

lemma keeps_rotate_failed:
  assumes "rotate_refresh i new now db = (db', res)" and "res \<noteq> Inr True"
  shows "keeps_rows F db db'"
  using rotate_refresh_effect [OF assms(1)] assms(2) by (simp add: keeps_same)

lemma keeps_rotate [keeps]:
  assumes "rf_family new \<in> F"
  shows "keeps_rows F db (fst (rotate_refresh i new now db))"
proof -
  obtain db' res where r: "rotate_refresh i new now db = (db', res)" by fastforce
  note effect = rotate_refresh_effect [OF r]
  show ?thesis
  proof (cases "res = Inr True")
    case True
    have marked: "keeps_rows F db (db\<lparr>od_tokens := map (mark_used i now) (od_tokens db)\<rparr>)" (is "keeps_rows F db ?db")
      by (rule keeps_map_tokens) (auto simp: same_row_def mark_used_def)
    have "rf_id new \<notin> rf_id ` set (od_tokens ?db)"
      using rotate_refresh_fresh r True by (simp add: image_image)
    then have "keeps_rows F ?db db'"
      using effect True assms by (intro keeps_append) simp_all
    then show ?thesis
      using r marked keeps_trans by fastforce
  next
    case False
    then show ?thesis using r keeps_rotate_failed by fastforce
  qed
qed

section \<open>The handlers keep it\<close>

lemma keeps_return [keeps]: "keeps_rows F db (fst (db, x))"
  by (simp add: keeps_refl)

lemma keeps_ignored [keeps]: "keeps_rows F db (fst r) \<Longrightarrow> keeps_rows F db (fst (fst r, x))"
  by simp

lemma keeps_if [keeps]:
  "keeps_rows F db (fst a) \<Longrightarrow> keeps_rows F db (fst b) \<Longrightarrow> keeps_rows F db (fst (if p then a else b))"
  by simp

lemma keeps_option [keeps]:
  "keeps_rows F db (fst a) \<Longrightarrow> (\<And>x. keeps_rows F db (fst (f x))) \<Longrightarrow> keeps_rows F db (fst (case_option a f opt))"
  by (cases opt) auto

lemma keeps_sum [keeps]:
  "(\<And>x. keeps_rows F db (fst (f x))) \<Longrightarrow> (\<And>x. keeps_rows F db (fst (g x))) \<Longrightarrow> keeps_rows F db (fst (case_sum f g r))"
  by (cases r) auto

lemma keeps_prod [keeps]:
  "(\<And>x y. keeps_rows F db (fst (f x y))) \<Longrightarrow> keeps_rows F db (fst (case_prod f p))"
  by (cases p) auto

lemma keeps_prod_state [keeps]:
  "(\<And>x y. keeps_rows F db (fst (f x y db))) \<Longrightarrow> keeps_rows F db (fst (case_prod f p db))"
  by (cases p) auto

lemma keeps_prepare_authorization [keeps]: "keeps_rows F db (fst (prepare_authorization c req db))"
  unfolding prepare_authorization_def Let_def by (intro keeps)

lemma keeps_oauth_consent [keeps]: "keeps_rows F db (fst (oauth_consent env c req approve db))"
  unfolding oauth_consent_def Let_def by (intro keeps)

lemma keeps_code_checks [keeps]: "keeps_rows F db (fst (code_checks env body db))"
  unfolding code_checks_def Let_def by (intro keeps)

lemma keeps_code_issue [keeps]: "ov_family env \<in> F \<Longrightarrow> keeps_rows F db (fst (code_issue env a code db))"
  unfolding code_issue_def Let_def by (intro keeps) (simp add: new_refresh_row_def)

lemma keeps_code_redeem [keeps]: "ov_family env \<in> F \<Longrightarrow> keeps_rows F db (fst (code_redeem env body a db))"
  unfolding code_redeem_def by (intro keeps)

lemma keeps_refresh_prepare [keeps]: "keeps_rows F db (fst (refresh_prepare env body db))"
  unfolding refresh_prepare_def Let_def by (intro keeps)

lemma keeps_refresh_commit [keeps]: "rf_family (rn_next plan) \<in> F \<Longrightarrow> keeps_rows F db (fst (refresh_commit env plan db))"
  unfolding refresh_commit_def Let_def by (intro keeps)

lemma keeps_client_credentials [keeps]: "keeps_rows F db (fst (client_credentials_token env body db))"
  unfolding client_credentials_token_def Let_def by (intro keeps)

lemma keeps_oauth_revoke [keeps]: "keeps_rows F db (fst (oauth_revoke env token client secret db))"
  unfolding oauth_revoke_def Let_def by (intro keeps)

lemma keeps_revoke_authorization [keeps]: "keeps_rows F db (fst (revoke_authorization env user i db))"
  unfolding revoke_authorization_def Let_def by (intro keeps)

end
