(* ===== verification/OAuth_System.thy ===== *)
theory OAuth_System
  imports OAuth_Proofs
begin

text \<open>
  The authorization server under concurrent calls. A state holds the database and the calls that have passed their
  checks and not yet written; the operations are the handlers, split where other calls can come between, and changes
  of the other tables by other parts of the service.
\<close>

section \<open>Calls in flight\<close>

record 'd oauth_system =
  sy_db :: "'d oauth_db"
  sy_checked :: "(token_request \<times> oauth_app) list"
  sy_plans :: "refresh_plan list"

datatype 'd oauth_op =
    Consent "'d oauth_env" "'d claims" auth_request bool
  | Check_Code "'d oauth_env" token_request
  | Redeem_Code "'d oauth_env" nat
  | Prepare_Refresh "'d oauth_env" token_request
  | Commit_Refresh "'d oauth_env" nat
  | Client_Credentials "'d oauth_env" token_request
  | Revoke_Token "'d oauth_env" string string string
  | Revoke_Authorization "'d oauth_env" uuid string
  | Revoke_User uuid instant
  | Revoke_App uuid instant
  | Revoke_App_Org uuid uuid instant
  | Elsewhere "'d oauth_db \<Rightarrow> 'd oauth_db"

datatype oauth_event = Code_Redeemed string token_response | Token_Rotated uuid uuid token_response

text \<open>
  Other parts of the service write no codes, and refresh tokens only to revoke those of a user
  (\<^verbatim>\<open>SoftDeleteUser\<close> and \<^verbatim>\<open>RevokeAllUserRefreshTokens\<close> of \<^verbatim>\<open>repo/rbac.go\<close>), which is the operation
  \<open>Revoke_User\<close>. All their other writes are an \<open>Elsewhere\<close>.
\<close>

definition elsewhere :: "('d oauth_db \<Rightarrow> 'd oauth_db) \<Rightarrow> 'd oauth_db \<Rightarrow> 'd oauth_db" where
  "elsewhere f db = (f db)\<lparr>od_codes := od_codes db, od_tokens := od_tokens db\<rparr>"

definition add_result :: "('e + 'a) \<Rightarrow> 'a list \<Rightarrow> 'a list" where
  "add_result r xs = (case r of Inl _ \<Rightarrow> xs | Inr x \<Rightarrow> xs @ [x])"

fun oauth_do :: "'d oauth_op \<Rightarrow> 'd oauth_system \<Rightarrow> 'd oauth_system \<times> oauth_event list" where
  "oauth_do (Consent env c req approve) s = (s\<lparr>sy_db := fst (oauth_consent env c req approve (sy_db s))\<rparr>, [])"
| "oauth_do (Check_Code env body) s =
     (case code_checks env body (sy_db s) of
        (db, r) \<Rightarrow> (s\<lparr>sy_db := db, sy_checked := add_result (map_sum id (Pair body) r) (sy_checked s)\<rparr>, []))"
| "oauth_do (Redeem_Code env n) s =
     (if n < length (sy_checked s)
      then (case sy_checked s ! n of
              (body, a) \<Rightarrow>
                (case code_redeem env body a (sy_db s) of
                   (db, Inl _) \<Rightarrow> (s\<lparr>sy_db := db\<rparr>, [])
                 | (db, Inr resp) \<Rightarrow> (s\<lparr>sy_db := db\<rparr>, [Code_Redeemed (ov_hash env (tq_code body)) resp])))
      else (s, []))"
| "oauth_do (Prepare_Refresh env body) s =
     (case refresh_prepare env body (sy_db s) of
        (db, r) \<Rightarrow> (s\<lparr>sy_db := db, sy_plans := add_result r (sy_plans s)\<rparr>, []))"
| "oauth_do (Commit_Refresh env n) s =
     (if n < length (sy_plans s)
      then (let plan = sy_plans s ! n in
            case refresh_commit env plan (sy_db s) of
              (db, Inl _) \<Rightarrow> (s\<lparr>sy_db := db\<rparr>, [])
            | (db, Inr resp) \<Rightarrow>
                (s\<lparr>sy_db := db\<rparr>, [Token_Rotated (rf_id (rn_row plan)) (rf_family (rn_row plan)) resp]))
      else (s, []))"
| "oauth_do (Client_Credentials env body) s = (s\<lparr>sy_db := fst (client_credentials_token env body (sy_db s))\<rparr>, [])"
| "oauth_do (Revoke_Token env token client secret) s =
     (s\<lparr>sy_db := fst (oauth_revoke env token client secret (sy_db s))\<rparr>, [])"
| "oauth_do (Revoke_Authorization env user i) s = (s\<lparr>sy_db := fst (revoke_authorization env user i (sy_db s))\<rparr>, [])"
| "oauth_do (Revoke_User user now) s = (s\<lparr>sy_db := fst (revoke_for_user user now (sy_db s))\<rparr>, [])"
| "oauth_do (Revoke_App app now) s = (s\<lparr>sy_db := fst (revoke_for_app app now (sy_db s))\<rparr>, [])"
| "oauth_do (Revoke_App_Org app org now) s = (s\<lparr>sy_db := fst (revoke_for_app_org app org now (sy_db s))\<rparr>, [])"
| "oauth_do (Elsewhere f) s = (s\<lparr>sy_db := elsewhere f (sy_db s)\<rparr>, [])"

fun oauth_run :: "'d oauth_op list \<Rightarrow> 'd oauth_system \<Rightarrow> 'd oauth_system \<times> oauth_event list" where
  "oauth_run [] s = (s, [])"
| "oauth_run (c # cs) s = (case oauth_do c s of (s1, es) \<Rightarrow> (case oauth_run cs s1 of (s2, fs) \<Rightarrow> (s2, es @ fs)))"

definition redeems :: "string \<Rightarrow> oauth_event \<Rightarrow> bool" where
  "redeems h e \<longleftrightarrow> (case e of Code_Redeemed h' _ \<Rightarrow> h' = h | _ \<Rightarrow> False)"

definition rotates :: "uuid \<Rightarrow> oauth_event \<Rightarrow> bool" where
  "rotates i e \<longleftrightarrow> (case e of Token_Rotated i' _ _ \<Rightarrow> i' = i | _ \<Rightarrow> False)"

definition in_family :: "uuid \<Rightarrow> oauth_event \<Rightarrow> bool" where
  "in_family f e \<longleftrightarrow> (case e of Token_Rotated _ f' _ \<Rightarrow> f' = f | _ \<Rightarrow> False)"

section \<open>What an operation keeps\<close>

fun new_families :: "'d oauth_op \<Rightarrow> 'd oauth_system \<Rightarrow> uuid set" where
  "new_families (Redeem_Code env n) s = {ov_family env}"
| "new_families (Commit_Refresh env n) s = (rf_family \<circ> rn_next) ` set (sy_plans s)"
| "new_families _ s = {}"

lemma keeps_elsewhere [keeps]: "keeps_rows F db (elsewhere f db)"
  by (simp add: elsewhere_def keeps_same)

lemma keeps_fst: "e = (db', y) \<Longrightarrow> keeps_rows F db (fst e) \<Longrightarrow> keeps_rows F db db'"
  by simp

lemma do_keeps: "keeps_rows (new_families c s) (sy_db s) (sy_db (fst (oauth_do c s)))"
proof (cases c)
  case (Redeem_Code env n)
  then show ?thesis
    using keeps_fst [OF _ keeps_code_redeem [of env "{ov_family env}"]]
    by (auto simp: keeps_refl split: prod.splits sum.splits)
next
  case (Commit_Refresh env n)
  then show ?thesis
    using keeps_fst [OF _ keeps_refresh_commit [of _ "(rf_family \<circ> rn_next) ` set (sy_plans s)"]]
    by (fastforce simp: keeps_refl Let_def split: prod.splits sum.splits)
next
  case (Check_Code env body)
  then show ?thesis
    using keeps_fst [OF _ keeps_code_checks] by (auto split: prod.splits)
next
  case (Prepare_Refresh env body)
  then show ?thesis
    using keeps_fst [OF _ keeps_refresh_prepare] by (auto split: prod.splits)
qed (simp_all add: keeps)

section \<open>Success\<close>

lemma checked_Inr: "checked r = (db', Inr y) \<longleftrightarrow> r = (db', Inr y)"
  by (auto simp: checked_def split: prod.splits sum.splits)

lemma code_spent_map:
  "h \<in> cd_hash ` set cs \<Longrightarrow> (\<And>c. cd_hash (f c) = cd_hash c) \<Longrightarrow>
     (\<And>c. c \<in> set cs \<Longrightarrow> cd_hash c = h \<Longrightarrow> cd_consumed (f c) \<noteq> None) \<Longrightarrow> code_spent h (map f cs)"
  by (auto simp: code_spent_def image_image)

lemma consume_spends:
  assumes "consume_code h now db = (db1, Inr (Some cd))"
  shows "\<not> code_spent h (od_codes db)" and "keys_unique db \<Longrightarrow> code_spent h (od_codes db1)"
proof -
  let ?mark = "\<lambda>c. if cd_hash c = h \<and> code_live now c then c\<lparr>cd_consumed := Some now\<rparr> else c"
  obtain c where found: "find (\<lambda>c. cd_hash c = h \<and> code_live now c) (od_codes db) = Some c"
    and db1: "od_codes db1 = map ?mark (od_codes db)"
    using assms by (auto simp: consume_code_def pg_exec_def Let_def split: option.splits)
  have c: "c \<in> set (od_codes db)" "cd_hash c = h" "code_live now c"
    using find_some [OF found] by simp_all
  then show "\<not> code_spent h (od_codes db)"
    by (auto simp: code_spent_def code_live_def)
  assume "keys_unique db"
  then have "code_live now x" if "x \<in> set (od_codes db)" "cd_hash x = h" for x
    using c that unfolding keys_unique_def distinct_map inj_on_def by metis
  then show "code_spent h (od_codes db1)"
    unfolding db1 using c by (intro code_spent_map) auto
qed

lemma redeem_spends:
  assumes "code_redeem env body a db = (db', Inr resp)"
  shows "\<not> code_spent (ov_hash env (tq_code body)) (od_codes db)"
    and "keys_unique db \<Longrightarrow> code_spent (ov_hash env (tq_code body)) (od_codes db')"
proof -
  let ?h = "ov_hash env (tq_code body)"
  obtain db1 code where consumed: "consume_code ?h (ov_now env) db = (db1, Inr code)"
    and rest: "code_issue env a code db1 = (db', Inr resp)"
    using assms unfolding code_redeem_def by (elim and_do_Inr) (simp only: checked_Inr)
  obtain cd where cd: "code = Some cd"
    using rest by (cases code) (simp_all add: code_issue_def)
  note spends = consume_spends [OF consumed [unfolded cd]]
  show "\<not> code_spent ?h (od_codes db)"
    by (rule spends)
  have "keeps_rows UNIV db1 db'"
    by (rule keeps_fst [OF rest]) (intro keeps UNIV_I)
  then show "keys_unique db \<Longrightarrow> code_spent ?h (od_codes db')"
    using spends by (simp add: keeps_rows_def)
qed

lemma commit_uses:
  assumes "refresh_commit env plan db = (db', Inr resp)"
  shows "rotate_refresh (rf_id (rn_row plan)) (rn_next plan) (ov_now env) db = (db', Inr True) \<and> resp = rn_response plan"
  using assms unfolding refresh_commit_def
  by (elim and_do_Inr) (auto simp: checked_Inr split: if_splits)

lemma rotate_uses:
  assumes r: "rotate_refresh i new now db = (db', Inr True)"
  shows "\<not> token_used i (od_tokens db)" and "keys_unique db \<Longrightarrow> token_used i (od_tokens db')"
    and "\<exists>r \<in> set (od_tokens db). rf_id r = i \<and> rf_revoked r = None"
proof -
  have one: "length (filter (markable i) (od_tokens db)) = 1"
    and db': "od_tokens db' = map (mark_used i now) (od_tokens db) @ [new]"
    using rotate_refresh_effect [OF r] by simp_all
  then obtain r where r: "r \<in> set (od_tokens db)" "markable i r"
    by (metis filter_empty_conv length_greater_0_conv zero_less_one)
  then show "\<not> token_used i (od_tokens db)" "\<exists>r \<in> set (od_tokens db). rf_id r = i \<and> rf_revoked r = None"
    by (auto simp: token_used_def markable_def)
  assume "keys_unique db"
  then have same: "x = r" if "x \<in> set (od_tokens db)" "rf_id x = i" for x
    using r that unfolding keys_unique_def distinct_map inj_on_def markable_def by metis
  then have "rf_used (mark_used i now x) \<noteq> None" if "x \<in> set (od_tokens db)" "rf_id x = i" for x
    using r that by (simp add: mark_used_def markable_def)
  moreover have "rf_id new \<noteq> i"
    using rotate_refresh_fresh [OF assms] r by (auto simp: markable_def)
  ultimately show "token_used i (od_tokens db')"
    using r db' unfolding token_used_def
    by (auto simp: image_image markable_def)
qed

end
