(* ===== verification/OAuth_Properties.thy ===== *)
theory OAuth_Properties
  imports OAuth_System
begin

text \<open>What the authorization server guarantees over arbitrary interleavings of calls, and what it grants.\<close>

section \<open>The invariant of the system\<close>









section \<open>Single use\<close>

lemma do_redeems:
  assumes "keys_unique (sy_db s)" and step: "oauth_do c s = (s1, es)"
  shows "filter (redeems h) es = [] \<or>
    length (filter (redeems h) es) = 1 \<and> \<not> code_spent h (od_codes (sy_db s)) \<and> code_spent h (od_codes (sy_db s1))"
proof (cases "\<exists>env n. c = Redeem_Code env n")
  case True
  then obtain env n where c: "c = Redeem_Code env n" by blast
  then show ?thesis
    using step redeem_spends [of env] assms(1)
    by (auto simp: redeems_def split: prod.splits sum.splits if_splits)
next
  case False
  then show ?thesis
    using step by (cases c) (auto simp: redeems_def Let_def split: prod.splits sum.splits if_splits)
qed

lemma do_rotates:
  assumes "keys_unique (sy_db s)" and step: "oauth_do c s = (s1, es)"
  shows "filter (rotates i) es = [] \<or>
    length (filter (rotates i) es) = 1 \<and> \<not> token_used i (od_tokens (sy_db s)) \<and> token_used i (od_tokens (sy_db s1))"
proof (cases "\<exists>env n. c = Commit_Refresh env n")
  case True
  then obtain env n where c: "c = Commit_Refresh env n" by blast
  show ?thesis
  proof (cases "n < length (sy_plans s)")
    case True
    obtain db r where r: "refresh_commit env (sy_plans s ! n) (sy_db s) = (db, r)" by fastforce
    show ?thesis
    proof (cases r)
      case (Inl e)
      then show ?thesis using step c True r by (auto simp: Let_def)
    next
      case (Inr resp)
      note rotated = commit_uses [OF r [unfolded Inr], THEN conjunct1]
      show ?thesis
        using step c True r Inr rotate_uses [OF rotated] assms(1)
        by (auto simp: rotates_def Let_def split: if_splits)
    qed
  qed (use step c in simp)
next
  case False
  then show ?thesis
    using step by (cases c) (auto simp: rotates_def Let_def split: prod.splits sum.splits if_splits)
qed

lemma do_spent:
  assumes "oauth_do c s = (s1, es)"
  shows "keys_unique (sy_db s) \<longrightarrow> keys_unique (sy_db s1)"
    and "code_spent h (od_codes (sy_db s)) \<longrightarrow> code_spent h (od_codes (sy_db s1))"
    and "token_used i (od_tokens (sy_db s)) \<longrightarrow> token_used i (od_tokens (sy_db s1))"
  using do_keeps [of c s] assms by (simp_all add: keeps_rows_def)

lemma run_redeems:
  assumes "keys_unique (sy_db s)" and "oauth_run ops s = (s', events)"
  shows "length (filter (redeems h) events) \<le> (if code_spent h (od_codes (sy_db s)) then 0 else 1)"
  using assms
proof (induction ops arbitrary: s events)
  case (Cons c cs)
  obtain s1 es fs where step: "oauth_do c s = (s1, es)" and rest: "oauth_run cs s1 = (s', fs)" "events = es @ fs"
    using Cons.prems(2) by (auto split: prod.splits)
  have "length (filter (redeems h) fs) \<le> (if code_spent h (od_codes (sy_db s1)) then 0 else 1)"
    using Cons.IH [of s1 fs] Cons.prems(1) do_spent(1) [OF step] rest by simp
  then show ?case
    using do_redeems [OF Cons.prems(1) step, of h] do_spent(2) [OF step, of h] rest(2) by (auto split: if_splits)
qed simp

lemma run_rotates:
  assumes "keys_unique (sy_db s)" and "oauth_run ops s = (s', events)"
  shows "length (filter (rotates i) events) \<le> (if token_used i (od_tokens (sy_db s)) then 0 else 1)"
  using assms
proof (induction ops arbitrary: s events)
  case (Cons c cs)
  obtain s1 es fs where step: "oauth_do c s = (s1, es)" and rest: "oauth_run cs s1 = (s', fs)" "events = es @ fs"
    using Cons.prems(2) by (auto split: prod.splits)
  have "length (filter (rotates i) fs) \<le> (if token_used i (od_tokens (sy_db s1)) then 0 else 1)"
    using Cons.IH [of s1 fs] Cons.prems(1) do_spent(1) [OF step] rest by simp
  then show ?case
    using do_rotates [OF Cons.prems(1) step, of i] do_spent(3) [OF step, of i] rest(2) by (auto split: if_splits)
qed simp

text \<open>A deployment with one client, one code and one user.\<close>

definition sample_env :: "unit oauth_env" where
  "sample_env = \<lparr>ov_now = 5, ov_hash = (\<lambda>s. s), ov_challenge = (\<lambda>s. s), ov_plain = Some ''n'', ov_row_id = 9,
     ov_family = 8, ov_jti = 0, ov_encode = (\<lambda>c. Inr ''t''), ov_uuid_parse = (\<lambda>s. None), ov_uuid_show = (\<lambda>i. []),
     ov_issuer = [], ov_audience = [], ov_access_ttl = 60, ov_refresh_ttl = 90\<rparr>"

definition sample_app :: oauth_app where
  "sample_app = \<lparr>oa_id = 1, oa_client = ''c'', oa_type = ''public'', oa_grants = [''authorization_code''],
     oa_redirects = [''u''], oa_scopes = [''b:read''], oa_managing = 2, oa_service_user = None, oa_secret_hash = None,
     oa_enablements = [(2, True)], oa_revoked = None\<rparr>"

definition sample_code :: oauth_code where
  "sample_code = \<lparr>cd_id = 3, cd_hash = ''h'', cd_app = 1, cd_client = ''c'', cd_user = 4, cd_org = 2, cd_redirect = ''u'',
     cd_state = ''s'', cd_challenge = ''v'', cd_method = ''S256'', cd_requested = [''b:read''], cd_granted = [''b:read''],
     cd_created = 0, cd_expires = 10, cd_consumed = None, cd_revoked = None\<rparr>"

definition sample_user :: "unit oauth_user" where
  "sample_user = \<lparr>us_id = 4, us_email = [], us_name = [], us_org = Some 2, us_attributes = (\<lambda>k. None),
     us_active = True, us_deleted = None\<rparr>"

definition sample_token :: oauth_refresh where
  "sample_token = \<lparr>rf_id = 6, rf_hash = ''r'', rf_family = 7, rf_app = 1, rf_client = ''c'', rf_subject = 4, rf_org = 2,
     rf_scopes = [''a:read''], rf_issued = 0, rf_expires = 10, rf_used = None, rf_revoked = None\<rparr>"

definition sample_db :: "oauth_refresh list \<Rightarrow> unit oauth_db" where
  "sample_db tokens = \<lparr>pg_clock = 0, pg_fault = (\<lambda>n. None), od_users = (\<lambda>i. Some sample_user), od_roles = (\<lambda>i. []),
     od_permissions = (\<lambda>i. [''c:write'']), od_apps = [sample_app], od_codes = [sample_code], od_tokens = tokens,
     od_consents = (\<lambda>k. None)\<rparr>"

definition sample_request :: token_request where
  "sample_request = \<lparr>tq_grant = [], tq_code = ''h'', tq_redirect = ''u'', tq_client = ''c'', tq_secret = [],
     tq_verifier = ''v'', tq_refresh = ''r'', tq_scope = ''c:write'', tq_scopes = [], tq_org = []\<rparr>"

definition sample_response :: token_response where
  "sample_response = \<lparr>tr_access = ''t'', tr_expires_in = 0, tr_refresh = Some ''n'', tr_scope = ''b:read''\<rparr>"

lemmas sample_defs = sample_response_def sample_env_def sample_app_def sample_code_def sample_user_def sample_token_def sample_db_def
  sample_request_def

lemma trim_space_plain: "trim_space ''h'' = ''h''" "trim_space ''r'' = ''r''" "trim_space ''c'' = ''c''"
  "trim_space ''u'' = ''u''" "trim_space ''v'' = ''v''"
  by code_simp+

lemma sample_redeemed_twice:
  "snd (oauth_run [Check_Code sample_env sample_request, Check_Code sample_env sample_request, Redeem_Code sample_env 0,
      Redeem_Code sample_env 1] \<lparr>sy_db = sample_db [sample_token], sy_checked = [], sy_plans = []\<rparr>) =
   [Code_Redeemed ''h'' sample_response]"
  by (simp add: sample_defs trim_space_plain code_checks_def code_redeem_def code_issue_def and_do_def checked_def pg_exec_def find_app_def client_authentication_def
     find_code_def code_live_def verify_pkce_def add_result_def consume_code_def find_user_def usable_def enabled_for_def
     issue_for_client_def token_expiry_def Let_def nanos_def new_refresh_row_def insert_refresh_sql_def insert_refresh_row_def)

text \<open>
  C32. Single use under concurrency: in every interleaving of calls, with any statements failing, an authorization
  code is exchanged for tokens at most once and a refresh token is rotated at most once; one that is already spent,
  never.
\<close>

theorem oauth_single_use:
  assumes "keys_unique (sy_db s)" and "oauth_run ops s = (s', events)"
  shows "length (filter (redeems h) events) \<le> (if code_spent h (od_codes (sy_db s)) then 0 else 1) \<and>
    length (filter (rotates i) events) \<le> (if token_used i (od_tokens (sy_db s)) then 0 else 1)"
  using run_redeems [OF assms] run_rotates [OF assms] by blast

theorem oauth_single_use_witness:
  "\<exists>s'. oauth_run [Check_Code sample_env sample_request, Check_Code sample_env sample_request, Redeem_Code sample_env 0,
      Redeem_Code sample_env 1] \<lparr>sy_db = sample_db [sample_token], sy_checked = [], sy_plans = []\<rparr> =
     (s', [Code_Redeemed ''h'' sample_response]) \<and>
   length (filter (redeems ''h'') [Code_Redeemed ''h'' sample_response]) \<le> 1 \<and>
   length (filter (rotates 6) [Code_Redeemed ''h'' sample_response]) \<le> 1"
proof -
  obtain s' where run: "oauth_run [Check_Code sample_env sample_request, Check_Code sample_env sample_request,
      Redeem_Code sample_env 0, Redeem_Code sample_env 1]
      \<lparr>sy_db = sample_db [sample_token], sy_checked = [], sy_plans = []\<rparr> = (s', [Code_Redeemed ''h'' sample_response])"
    using sample_redeemed_twice by (metis prod.collapse)
  have "keys_unique (sample_db [sample_token])"
    by (simp add: keys_unique_def sample_defs)
  then show ?thesis
    using run oauth_single_use [OF _ run, of "''h''" 6] by (auto split: if_splits)
qed

section \<open>Replay\<close>










definition sample_plan :: refresh_plan where
  "sample_plan = \<lparr>rn_row = sample_token, rn_next = sample_token\<lparr>rf_id := 11, rf_hash := ''x''\<rparr>,
     rn_response = sample_response\<rparr>"

text \<open>The same database with the statement that revokes the family failing.\<close>

definition spent_token :: oauth_refresh where
  "spent_token = sample_token\<lparr>rf_used := Some 1\<rparr>"

definition revoke_fails :: "nat \<Rightarrow> string option" where
  "revoke_fails n = (if n = 1 then Some ''connection lost'' else None)"


text \<open>
  When the revocation is lost the family lives on: a refresh with the token that replaced the spent one,
  already past its checks, still rotates it.
\<close>

definition next_token :: oauth_refresh where
  "next_token = sample_token\<lparr>rf_id := 12, rf_hash := ''y''\<rparr>"

lemma replay_revocation_lost:
  "snd (oauth_run [Prepare_Refresh sample_env sample_request, Commit_Refresh sample_env 0]
      \<lparr>sy_db = sample_db [spent_token, next_token]\<lparr>pg_fault := revoke_fails\<rparr>, sy_checked = [],
       sy_plans = [sample_plan\<lparr>rn_row := next_token\<rparr>]\<rparr>) = [Token_Rotated 12 7 sample_response]"
  by (simp add: sample_defs spent_token_def next_token_def sample_plan_def refresh_prepare_def trim_space_plain
      find_refresh_def pg_exec_def and_do_def checked_def add_result_def refresh_commit_def rotate_refresh_def
      revoke_family_def revoke_where_def Let_def revoke_fails_def insert_refresh_sql_def insert_refresh_row_def)

section \<open>Scopes\<close>

lemma parse_scopes_normal [simp]: "normalize_set (parse_scopes scope scopes) = parse_scopes scope scopes"
  by (simp add: parse_scopes_def)

lemma granted_scopes:
  assumes "requested \<noteq> []" and "normalize_set requested = requested"
  shows "set (fst (derive_scopes requested app roles permissions)) =
    {s \<in> set requested. scope_granted app roles permissions s}"
proof -
  have "scope_default requested app roles permissions = normalize_set requested"
    using assms by (simp add: scope_default_def)
  then show ?thesis
    using assms(2) normalize_set_filter [of "scope_granted app roles permissions" requested]
    by (simp add: derive_scopes_split)
qed

lemma scope_ceiling_scopes:
  assumes "normalize_set second \<noteq> []"
  shows "set (scope_ceiling first second) = {s \<in> set (normalize_set first). scope_allowed s (normalize_set second)}"
  using assms by (simp add: scope_ceiling_def Let_def)

lemma normalize_set_nil [simp]: "normalize_set [] = []"
  by (simp add: normalize_set_def)

lemma scope_ceiling_normal: "normalize_set (scope_ceiling first second) = scope_ceiling first second"
  by (simp add: scope_ceiling_def Let_def)

text \<open>With a ceiling, everything granted is within the scopes of the token.\<close>

lemma refresh_within_ceiling:
  assumes "scope_ceiling (rf_scopes row) (oa_scopes a) \<noteq> []" and "parse_scopes (tq_scope body) (tq_scopes body) \<noteq> []"
    and "s \<in> set (refresh_scopes body row a roles permissions)"
  shows "scope_allowed s (scope_ceiling (rf_scopes row) (oa_scopes a))"
proof -
  let ?asked = "parse_scopes (tq_scope body) (tq_scopes body)"
  have "s \<in> set (fst (derive_scopes ?asked (scope_ceiling (rf_scopes row) (oa_scopes a)) roles permissions))"
    using assms(2,3) by (simp only: refresh_scopes_def Let_def if_False)
  then show ?thesis
    using granted_scopes [OF assms(2) parse_scopes_normal, of "scope_ceiling (rf_scopes row) (oa_scopes a)" roles permissions]
      assms(1) by (simp only: mem_Collect_eq scope_granted_def scope_ceiling_normal) blast
qed

lemma no_ceiling:
  assumes "normalize_set (oa_scopes a) \<noteq> []"
    and "\<forall>t \<in> set (normalize_set (rf_scopes row)). \<not> scope_allowed t (normalize_set (oa_scopes a))"
  shows "scope_ceiling (rf_scopes row) (oa_scopes a) = []"
proof -
  have "set (scope_ceiling (rf_scopes row) (oa_scopes a)) = {}"
    unfolding scope_ceiling_scopes [OF assms(1), of "rf_scopes row"] using assms(2) by blast
  then show ?thesis by simp
qed

text \<open>
  C35. Scope escalation: when an administrator has reduced the scopes of an application so that none of a refresh
  token's scopes is left, the refresh grant does not fail: it issues every requested scope that the user has, whether
  or not the token or the application ever had it.
\<close>

theorem refresh_escalates:
  assumes "normalize_set (oa_scopes a) \<noteq> []"
    and "\<forall>t \<in> set (normalize_set (rf_scopes row)). \<not> scope_allowed t (normalize_set (oa_scopes a))"
    and "parse_scopes (tq_scope body) (tq_scopes body) \<noteq> []"
  shows "set (refresh_scopes body row a roles permissions) =
    {s \<in> set (parse_scopes (tq_scope body) (tq_scopes body)).
       ''admin'' \<in> set (normalize_set roles) \<or> scope_allowed s (normalize_set permissions)}"
  using granted_scopes [OF assms(3), of "[]"] no_ceiling [OF assms(1,2)] assms(3)
  by (simp add: refresh_scopes_def scope_granted_def)

text \<open>The whole call: the token has \<^verbatim>\<open>a:read\<close>, the client \<^verbatim>\<open>b:read\<close>, and \<^verbatim>\<open>c:write\<close> is issued.\<close>

lemma sample_scopes:
  "normalize_set [''a:read''] = [''a:read'']" "normalize_set [''b:read''] = [''b:read'']"
  "normalize_set [''c:write''] = [''c:write'']" "parse_scopes ''c:write'' [] = [''c:write'']"
  "\<not> scope_allowed ''a:read'' [''b:read'']" "\<not> scope_allowed ''c:write'' [''a:read'']"
  "\<not> scope_allowed ''c:write'' [''b:read'']" "scope_allowed ''c:write'' [''c:write'']"
  by code_simp+

lemma sample_fields:
  "oa_scopes sample_app = [''b:read'']" "rf_scopes sample_token = [''a:read'']" "tq_scope sample_request = ''c:write''"
  "tq_scopes sample_request = []"
  by (simp_all add: sample_defs)

lemma sample_refresh_scopes:
  "refresh_scopes sample_request sample_token sample_app [] [''c:write''] = [''c:write'']"
  by (simp add: refresh_scopes_def derive_scopes_split scope_default_def scope_granted_def scope_ceiling_def Let_def
      sample_defs sample_scopes)

lemma sample_prepare:
  "refresh_prepare sample_env sample_request (sample_db [sample_token]) =
     ((sample_db [sample_token])\<lparr>pg_clock := 6\<rparr>,
      Inr \<lparr>rn_row = sample_token, rn_next = new_refresh_row sample_env sample_app 4 2 [''c:write''] 7 ''n'',
        rn_response = \<lparr>tr_access = ''t'', tr_expires_in = 0, tr_refresh = Some ''n'', tr_scope = ''c:write''\<rparr>\<rparr>)"
proof -
  have sc: "refresh_scopes sample_request sample_token sample_app [] [''c:write''] = [''c:write'']"
    "refresh_requested sample_request sample_token = [''c:write'']"
    by (simp_all add: sample_refresh_scopes refresh_requested_def sample_fields sample_scopes)
  show ?thesis
    using sc by (simp add: trim_space_plain refresh_prepare_def and_do_def checked_def
        pg_exec_def find_refresh_def find_app_def client_authentication_def find_user_def usable_def enabled_for_def
        security_snapshot_def issue_for_client_def token_expiry_def nanos_def Let_def sample_defs)
qed

lemma sample_rotate: "\<exists>db. rotate_refresh (rf_id sample_token)
    (new_refresh_row sample_env sample_app 4 2 [''c:write''] 7 ''n'') (ov_now sample_env)
    ((sample_db [sample_token])\<lparr>pg_clock := 6\<rparr>) = (db, Inr True)"
  by (simp add: sample_defs rotate_refresh_def pg_exec_def new_refresh_row_def Let_def insert_refresh_sql_def
      insert_refresh_row_def)

theorem refresh_escalates_witness:
  "set (refresh_scopes sample_request sample_token sample_app [] [''c:write'']) = {''c:write''} \<and>
   \<not> scope_allowed ''c:write'' (rf_scopes sample_token) \<and> \<not> scope_allowed ''c:write'' (oa_scopes sample_app) \<and>
   (\<exists>db resp. refresh_token_grant sample_env sample_request (sample_db [sample_token]) = (db, Inr resp) \<and>
      tr_scope resp = ''c:write'')"
proof -
  have "set (refresh_scopes sample_request sample_token sample_app [] [''c:write'']) = {''c:write''}"
    using refresh_escalates [of sample_app sample_token sample_request "[]" "[''c:write'']"]
    by (simp add: sample_fields sample_scopes Collect_conv_if)
  moreover have "\<exists>db resp. refresh_token_grant sample_env sample_request (sample_db [sample_token]) = (db, Inr resp) \<and>
      tr_scope resp = ''c:write''"
    using sample_rotate by (auto simp: refresh_token_grant_def sample_prepare and_do_def refresh_commit_def checked_def)
  ultimately show ?thesis
    by (simp add: sample_fields sample_scopes)
qed

section \<open>What a code is bound to\<close>

lemma find_app_some:
  "find_app client db = (db1, Inr (Some a)) \<Longrightarrow>
     a \<in> set (od_apps db) \<and> oa_client a = client \<and> oa_revoked a = None \<and> od_codes db1 = od_codes db"
  by (auto simp: find_app_def pg_exec_def Let_def dest: find_some split: option.splits)

lemma find_code_some:
  "find_code h now db = (db1, Inr (Some cd)) \<Longrightarrow> cd \<in> set (od_codes db) \<and> cd_hash cd = h \<and> code_live now cd"
  by (auto simp: find_code_def pg_exec_def Let_def dest: find_some split: option.splits)

lemma client_authenticated:
  "client_authentication env (Some a) client secret = None \<longleftrightarrow>
     trim_space client \<noteq> [] \<and> oa_client a = trim_space client \<and>
     (oa_type a = ''public'' \<or> trim_space secret \<noteq> [] \<and> oa_secret_hash a = Some (ov_hash env secret))"
  by (auto simp: client_authentication_def Let_def)

lemma code_bound_core:
  assumes "code_checks env body db = (db', Inr a)"
  shows "a \<in> set (od_apps db) \<and> oa_revoked a = None \<and> ''authorization_code'' \<in> set (oa_grants a) \<and>
    oa_client a = trim_space (tq_client body) \<and> oa_client a \<noteq> [] \<and>
    (oa_type a \<noteq> ''public'' \<longrightarrow> oa_secret_hash a = Some (ov_hash env (tq_secret body))) \<and>
    (\<exists>cd \<in> set (od_codes db). cd_hash cd = ov_hash env (tq_code body) \<and> code_live (ov_now env) cd \<and>
       cd_client cd = oa_client a \<and> cd_redirect cd = trim_space (tq_redirect body) \<and> cd_method cd = ''S256'' \<and>
       cd_challenge cd \<noteq> [] \<and> cd_challenge cd = ov_challenge env (trim_space (tq_verifier body)))"
proof -
  obtain app db1 where app: "find_app (trim_space (tq_client body)) db = (db1, Inr app)"
    and rest: "client_authentication env app (tq_client body) (tq_secret body) = None"
    using assms unfolding code_checks_def
    by (auto elim!: and_do_Inr simp: checked_Inr split: if_splits option.splits)
  obtain a' where a': "app = Some a'"
    using rest by (cases app) (simp_all add: client_authentication_def Let_def)
  obtain code db2 where code: "find_code (ov_hash env (tq_code body)) (ov_now env) db1 = (db2, Inr code)"
    using assms app rest a' unfolding code_checks_def
    by (auto elim!: and_do_Inr simp: checked_Inr Let_def split: if_splits)
  obtain cd where cd: "code = Some cd"
    using assms app rest a' code unfolding code_checks_def
    by (cases code) (auto simp: and_do_def checked_def Let_def split: if_splits)
  have "a' = a \<and> ''authorization_code'' \<in> set (oa_grants a) \<and> cd_client cd = oa_client a \<and>
      cd_redirect cd = trim_space (tq_redirect body) \<and>
      verify_pkce env (cd_method cd) (cd_challenge cd) (trim_space (tq_verifier body))"
    using assms app rest a' code cd unfolding code_checks_def
    by (simp add: and_do_def checked_def Let_def split: if_splits)
  then show ?thesis
    using find_app_some [OF app [unfolded a']] find_code_some [OF code [unfolded cd]] rest a'
    by (auto simp: client_authenticated verify_pkce_def)
qed

text \<open>
  C34. A code is exchanged only by the party it was issued to: a request that passes the checks comes from a registered,
  unrevoked client that is enabled for the grant and has presented its secret unless it is public, and presents an
  unexpired unused code of that client with its redirect URI and the PKCE verifier of its challenge.
\<close>

theorem code_bound_to_client:
  assumes "code_checks env body db = (db', Inr a)"
  shows "a \<in> set (od_apps db) \<and> oa_revoked a = None \<and> ''authorization_code'' \<in> set (oa_grants a) \<and>
    oa_client a = trim_space (tq_client body) \<and> oa_client a \<noteq> [] \<and>
    (oa_type a \<noteq> ''public'' \<longrightarrow> oa_secret_hash a = Some (ov_hash env (tq_secret body))) \<and>
    (\<exists>cd \<in> set (od_codes db). cd_hash cd = ov_hash env (tq_code body) \<and> code_live (ov_now env) cd \<and>
       cd_client cd = oa_client a \<and> cd_redirect cd = trim_space (tq_redirect body) \<and> cd_method cd = ''S256'' \<and>
       cd_challenge cd \<noteq> [] \<and> cd_challenge cd = ov_challenge env (trim_space (tq_verifier body)))"
  using code_bound_core [OF assms] .

theorem code_bound_to_client_witness:
  "\<exists>db'. code_checks sample_env sample_request (sample_db []) = (db', Inr sample_app) \<and>
    (\<exists>cd \<in> set (od_codes (sample_db [])). cd_client cd = oa_client sample_app \<and> cd_challenge cd = ''v'')"
proof -
  obtain db' where "code_checks sample_env sample_request (sample_db []) = (db', Inr sample_app)"
    by (simp add: sample_defs trim_space_plain code_checks_def and_do_def checked_def pg_exec_def find_app_def
        client_authentication_def find_code_def code_live_def verify_pkce_def Let_def)
  then show ?thesis
    using code_bound_to_client [of sample_env sample_request "sample_db []" db' sample_app]
    by (auto simp: sample_env_def sample_request_def trim_space_plain)
qed

section \<open>Defects\<close>

text \<open>
  The consent checks the trimmed redirect URI and stores the text as it came, so a code whose redirect URI was sent
  with surrounding blanks can never be redeemed.
\<close>

lemma untrimmed_redirect_unredeemable:
  assumes "\<forall>cd \<in> set (od_codes db). cd_hash cd = ov_hash env (tq_code body) \<longrightarrow> cd_redirect cd = ar_redirect req"
    and "ar_redirect req \<noteq> trim_space (ar_redirect req)"
  shows "snd (code_checks env body db) \<noteq> Inr a"
proof
  assume "snd (code_checks env body db) = Inr a"
  then obtain db' where "code_checks env body db = (db', Inr a)"
    by (metis prod.collapse)
  then have "ar_redirect req = trim_space (tq_redirect body)"
    using code_bound_core assms(1) by metis
  then show False
    using assms(2) by simp
qed

text \<open>A code stores the organization of the consent; the access token carries the one of the user's row.\<close>

lemma code_token_organization:
  assumes "issue_for_client env u a scopes methods max_expiry = Inr (token, n)"
  shows "\<exists>exp. ov_encode env (oauth_claims env u a scopes methods exp) = Inr token \<and>
    cl_org (oauth_claims env u a scopes methods exp) = us_org u"
  using assms by (auto simp: issue_for_client_def Let_def oauth_claims_def split: if_splits sum.splits)

end
