(* ===== verification/Resolver.thy ===== *)
theory Resolver
  imports Dag Build_Executor
begin

text \<open>
  The resolution of a build, \<^verbatim>\<open>pipeline-build-service/internal/domain/resolver\<close>: the branch a dataset is read and
  written on (\<^verbatim>\<open>branch.go\<close>), the order of the job specs and the check for cycles, and the plan of stages
  (\<^verbatim>\<open>resolver.go\<close>). The steps that call the database are in \<open>Build_Creation\<close>.

  Maps of the code whose iteration order cannot be seen, because their keys are sorted, are lists of edges or
  functions. The loop of \<^verbatim>\<open>DetectCycles\<close> has fuel: one round per job spec, proved enough.
\<close>

section \<open>Job specs\<close>

record input_spec =
  in_dataset :: string
  in_chain :: "string list"
  in_filters :: "string list"
  in_fresh :: bool

record job_spec =
  js_rid :: string
  js_pipeline :: string
  js_branch :: string
  js_inputs :: "input_spec list"
  js_outputs :: "string list"
  js_kind :: string
  js_payload :: string
  js_hash :: string

section \<open>Branches\<close>

record resolved_input =
  ri_branch :: string
  ri_index :: nat

datatype resolved_output = ExistingBranch string | CreateFrom string string

datatype branch_error =
    NoMatch string "string list" "string list"
  | IncompatibleAncestry string string "string list" "string list"

fun first_fallback :: "nat \<Rightarrow> string list \<Rightarrow> string list \<Rightarrow> (string \<times> nat) option" where
  "first_fallback i [] branches = None"
| "first_fallback i (c # cs) branches = (if c \<in> set branches then Some (c, i) else first_fallback (Suc i) cs branches)"

definition resolve_input_dataset :: "string \<Rightarrow> string list \<Rightarrow> string list \<Rightarrow> branch_error + resolved_input" where
  "resolve_input_dataset build chain branches =
     (if build \<in> set branches then Inr \<lparr>ri_branch = build, ri_index = 0\<rparr>
      else (case first_fallback 1 chain branches of
              Some (c, i) \<Rightarrow> Inr \<lparr>ri_branch = c, ri_index = i\<rparr>
            | None \<Rightarrow> Inl (NoMatch build chain branches)))"

definition resolve_output_dataset :: "string \<Rightarrow> string list \<Rightarrow> string list \<Rightarrow> branch_error + resolved_output" where
  "resolve_output_dataset build chain branches =
     (if build \<in> set branches then Inr (ExistingBranch build)
      else (case first_fallback 1 chain branches of
              Some (c, i) \<Rightarrow> Inr (CreateFrom c build)
            | None \<Rightarrow> Inl (NoMatch build chain branches)))"

text \<open>The candidates that are in the ancestry must be there in the order of the chain.\<close>

fun ancestry_loop :: "string list \<Rightarrow> string list \<Rightarrow> nat \<Rightarrow> bool" where
  "ancestry_loop ancestry [] cursor = True"
| "ancestry_loop ancestry (c # cs) cursor =
     (case index_of c (drop cursor ancestry) of
        Some i \<Rightarrow> ancestry_loop ancestry cs (cursor + i + 1)
      | None \<Rightarrow> if c \<in> set ancestry then False else ancestry_loop ancestry cs cursor)"

definition assert_chain_ancestry ::
  "string \<Rightarrow> string \<Rightarrow> string list \<Rightarrow> string list \<Rightarrow> branch_error option" where
  "assert_chain_ancestry dataset build chain ancestry =
     (if ancestry = [] \<or> ancestry_loop ancestry chain 0 then None
      else Some (IncompatibleAncestry dataset build chain ancestry))"

section \<open>The order of the specs\<close>

text \<open>Sorted by id, of specs with one id the first.\<close>

fun drop_repeated :: "job_spec list \<Rightarrow> job_spec list" where
  "drop_repeated (a # b # ss) =
     (if js_rid a = js_rid b then drop_repeated (a # ss) else a # drop_repeated (b # ss))"
| "drop_repeated ss = ss"

definition order_specs :: "job_spec list \<Rightarrow> job_spec list" where
  "order_specs specs = drop_repeated (sort_key js_rid specs)"

definition validate_logic_kind :: "string \<Rightarrow> nat \<Rightarrow> string" where
  "validate_logic_kind kind outputs =
     (if to_upper kind \<in> {''SYNC'', ''TRANSFORM'', ''HEALTH_CHECK'', ''ANALYTICAL'', ''EXPORT''}
      then (if outputs = 0 then ''at least one output dataset is required'' else [])
      else ''unsupported logic_kind '' @ kind)"

section \<open>Cycles\<close>

text \<open>The map \<^verbatim>\<open>producer\<close>: of specs that write one dataset the last.\<close>

definition producer_of :: "job_spec list \<Rightarrow> string \<Rightarrow> string option" where
  "producer_of specs d = map_option js_rid (find (\<lambda>s. d \<in> set (js_outputs s)) (rev specs))"

definition upstreams :: "job_spec list \<Rightarrow> job_spec \<Rightarrow> string list" where
  "upstreams specs s = List.map_filter (\<lambda>i. producer_of specs (in_dataset i)) (js_inputs s)"

text \<open>The edges from a spec to the specs it reads from, in the order of the loops.\<close>

definition spec_edges :: "job_spec list \<Rightarrow> edge list" where
  "spec_edges specs = concat (map (\<lambda>s. map (Pair (js_rid s)) (upstreams specs s)) specs)"

text \<open>The inner loop of the scan: the queue is sorted after each insertion.\<close>

fun relax_sorted :: "string list \<Rightarrow> (string \<Rightarrow> int) \<Rightarrow> string list \<Rightarrow> (string \<Rightarrow> int) \<times> string list" where
  "relax_sorted [] deg q = (deg, q)"
| "relax_sorted (x # xs) deg q =
     (let deg1 = (if 0 < deg x then deg(x := deg x - 1) else deg) in
      relax_sorted xs deg1 (if deg1 x = 0 then sort (q @ [x]) else q))"

fun kahn_scan ::
  "nat \<Rightarrow> edge list \<Rightarrow> string list \<Rightarrow> (string \<Rightarrow> int) \<Rightarrow> nat \<Rightarrow> (nat \<times> (string \<Rightarrow> int)) option" where
  "kahn_scan fuel es [] deg popped = Some (popped, deg)"
| "kahn_scan 0 es (x # q) deg popped = None"
| "kahn_scan (Suc fuel) es (x # q) deg popped =
     (case relax_sorted (sort (adjacent es x)) deg q of (deg', q') \<Rightarrow> kahn_scan fuel es q' deg' (Suc popped))"

text \<open>
  The search of \<^verbatim>\<open>findCyclePath\<close> is the depth-first search of the executor (\<open>exec_cycle_loop\<close>) on the graph of the
  specs: same order of the neighbours, same tests, same path.
\<close>

definition spec_node :: "edge list \<Rightarrow> string \<Rightarrow> unit build_node" where
  "spec_node es i = \<lparr>bn_id = i, bn_job = 0, bn_deps = adjacent es i, bn_outputs = [], bn_max_attempts = 0,
     bn_stale = False, bn_metadata = (\<lambda>k. None)\<rparr>"

definition find_cycle_path :: "edge list \<Rightarrow> string list \<Rightarrow> (string \<Rightarrow> int) \<Rightarrow> string list option" where
  "find_cycle_path es ids deg =
     exec_cycle_loop (map (spec_node es) ids) [] (map (spec_node es) (sort (filter (\<lambda>i. 0 < deg i) ids)))"

datatype cycle_check = NoCycle | CycleFound "string list" | ScanUnfinished

definition detect_cycles :: "job_spec list \<Rightarrow> cycle_check" where
  "detect_cycles specs =
     (let es = spec_edges specs; ids = remdups (map js_rid specs) in
      case find (\<lambda>(a, b). a = b) es of
        Some (a, b) \<Rightarrow> CycleFound [a, a]
      | None \<Rightarrow>
          (case kahn_scan (length ids) es (sort (filter (\<lambda>i. in_degree es i = 0) ids)) (in_degree es) 0 of
             None \<Rightarrow> ScanUnfinished
           | Some (popped, deg) \<Rightarrow>
               if popped = length specs then NoCycle
               else (case find_cycle_path es ids deg of
                       Some c \<Rightarrow> CycleFound c
                     | None \<Rightarrow> CycleFound (map js_rid specs))))"

section \<open>The plan of stages\<close>

definition dependencies_of :: "job_spec list \<Rightarrow> job_spec \<Rightarrow> string list" where
  "dependencies_of specs s = sort (remdups (filter (\<lambda>u. u \<noteq> js_rid s) (upstreams specs s)))"

text \<open>A round takes every spec whose dependencies are done; the loop ends when there is none.\<close>

function stage_rounds :: "(string \<Rightarrow> string list) \<Rightarrow> string list \<Rightarrow> string list \<Rightarrow> string list list" where
  "stage_rounds deps remaining completed =
     (let stage = sort (filter (\<lambda>r. set (deps r) \<subseteq> set completed) remaining) in
      if stage = [] then []
      else stage # stage_rounds deps (filter (\<lambda>r. r \<notin> set stage) remaining) (completed @ stage))"
  by pat_completeness auto
termination stage_rounds
proof (relation "measure (\<lambda>(deps, remaining, completed). length remaining)", goal_cases)
  case (2 deps remaining completed stage)
  then have "set stage \<noteq> {}" "set stage \<subseteq> set remaining"
    by (simp_all del: set_sort set_filter) auto
  then obtain x where "x \<in> set remaining" "x \<in> set stage"
    by (metis equals0I subset_iff)
  then have "length (filter (\<lambda>r. r \<notin> set stage) remaining) < length remaining"
    by (intro length_filter_less) auto
  then show ?case by simp
qed simp

declare stage_rounds.simps [simp del]

definition fan_out_stages :: "(string \<times> string list) list \<Rightarrow> string list list" where
  "fan_out_stages dependencies =
     stage_rounds (\<lambda>r. case map_of (rev dependencies) r of None \<Rightarrow> [] | Some ds \<Rightarrow> ds)
       (remdups (map fst dependencies)) []"

record opened_tx =
  op_dataset :: string
  op_tx :: string

record resolved_job =
  rj_id :: uuid
  rj_spec :: string
  rj_txs :: "string list"
  rj_deps :: "string list"

text \<open>\<open>job_id\<close> stands for \<^verbatim>\<open>uuid.NewSHA1\<close> of the build and the spec.\<close>

definition build_fan_out_plan ::
  "(uuid \<Rightarrow> string \<Rightarrow> uuid) \<Rightarrow> uuid \<Rightarrow> job_spec list \<Rightarrow> opened_tx list \<Rightarrow> resolved_job list \<times> string list list" where
  "build_fan_out_plan job_id build specs opened =
     (let tx = (\<lambda>d. map_option op_tx (find (\<lambda>t. op_dataset t = d) (rev opened))) in
      (map (\<lambda>s. \<lparr>rj_id = job_id build (js_rid s), rj_spec = js_rid s, rj_txs = List.map_filter tx (js_outputs s),
                 rj_deps = dependencies_of specs s\<rparr>) specs,
       fan_out_stages (map (\<lambda>s. (js_rid s, dependencies_of specs s)) specs)))"

text \<open>The datasets that are read and not written by the build.\<close>

definition output_set :: "job_spec list \<Rightarrow> string set" where
  "output_set specs = set (concat (map js_outputs specs))"

definition external_inputs :: "job_spec list \<Rightarrow> string list" where
  "external_inputs specs =
     sort (remdups (filter (\<lambda>d. d \<notin> output_set specs) (concat (map (\<lambda>s. map in_dataset (js_inputs s)) specs))))"

text \<open>The fresh jobs of \<^verbatim>\<open>postgres/repository.go\<close>: a job is fresh only if all jobs it depends on are.\<close>

fun stale_pass :: "(string \<times> string list) list \<Rightarrow> (string \<Rightarrow> bool) \<Rightarrow> (string \<Rightarrow> bool) \<times> bool" where
  "stale_pass [] fresh = (fresh, False)"
| "stale_pass ((r, deps) # js) fresh =
     (if fresh r \<and> \<not> list_all fresh deps then (fst (stale_pass js (fresh(r := False))), True)
      else stale_pass js fresh)"

lemma stale_pass_le: "fst (stale_pass js fresh) x \<Longrightarrow> fresh x"
proof (induction js fresh rule: stale_pass.induct)
  case (2 r deps js fresh)
  show ?case
  proof (cases "fresh r \<and> \<not> list_all fresh deps")
    case True
    have "fst (stale_pass js (fresh(r := False))) x"
      using 2(3) True by simp
    then have "(fresh(r := False)) x"
      by (rule 2(1) [OF True])
    then show ?thesis by (simp split: if_splits)
  next
    case False
    have "stale_pass ((r, deps) # js) fresh = stale_pass js fresh"
      unfolding stale_pass.simps if_not_P [OF False] ..
    with 2 False show ?thesis by metis
  qed
qed simp

lemma stale_pass_changed:
  "snd (stale_pass js fresh) \<Longrightarrow> \<exists>x \<in> fst ` set js. fresh x \<and> \<not> fst (stale_pass js fresh) x"
proof (induction js fresh rule: stale_pass.induct)
  case (2 r deps js fresh)
  show ?case
  proof (cases "fresh r \<and> \<not> list_all fresh deps")
    case True
    have "\<not> fst (stale_pass js (fresh(r := False))) r"
      using stale_pass_le [of js "fresh(r := False)" r] by auto
    with True show ?thesis by simp
  next
    case False
    have "stale_pass ((r, deps) # js) fresh = stale_pass js fresh"
      unfolding stale_pass.simps if_not_P [OF False] ..
    with 2 False show ?thesis by simp
  qed
qed simp

function propagate_stale :: "(string \<times> string list) list \<Rightarrow> (string \<Rightarrow> bool) \<Rightarrow> (string \<Rightarrow> bool)" where
  "propagate_stale js fresh =
     (case stale_pass js fresh of (fresh', changed) \<Rightarrow> if changed then propagate_stale js fresh' else fresh')"
  by pat_completeness auto
termination propagate_stale
proof (relation "measure (\<lambda>(js, fresh). card {x \<in> fst ` set js. fresh x})", goal_cases)
  case 1
  then show ?case by simp
next
  case (2 js fresh fresh' changed)
  then have pass: "stale_pass js fresh = (fresh', True)"
    by simp
  then have "{x \<in> fst ` set js. fresh' x} \<subset> {x \<in> fst ` set js. fresh x}"
    using stale_pass_changed [of js fresh] stale_pass_le [of js fresh] by auto
  then show ?case
    by (simp add: psubset_card_mono)
qed

declare propagate_stale.simps [simp del]

end
