(* ===== verification/Build_Creation.thy ===== *)
theory Build_Creation
  imports Resolver Pg_Tx
begin

text \<open>
  The creation of a build: \<^verbatim>\<open>ResolveBuild\<close> of \<^verbatim>\<open>pipeline-build-service/internal/domain/resolver/resolver.go\<close> with its
  repositories, and the persistence of its result (\<^verbatim>\<open>internal/postgres/repository.go\<close>), composed as \<^verbatim>\<open>CreateBuild\<close> of
  \<^verbatim>\<open>internal/handler/build_resolution.go\<close> does.

  The tables are fields of the state; every statement can fail (\<open>Pg_Tx\<close>). Statements of the resolver run on their
  own, the persistence is one transaction. Fresh ids, the SHA-256 hashes of JSON texts and the ids derived from them
  are fields of \<open>build_env\<close>.
\<close>

section \<open>Tables\<close>

record spec_body =
  sb_rid :: string
  sb_kind :: string
  sb_payload :: string
  sb_outputs :: "string list"

text \<open>A row of \<^verbatim>\<open>pipeline_job_specs\<close>; \<open>Inl\<close> is the error of the JSON decoder.\<close>

record spec_row =
  sp_pipeline :: string
  sp_branch :: string
  sp_output :: string
  sp_published :: instant
  sp_rid :: string
  sp_hash :: string
  sp_listed :: "string list"
  sp_inputs :: "string + input_spec list"
  sp_body :: "string + spec_body"

record branch_row =
  br_dataset :: string
  br_name :: string
  br_head :: "string option"
  br_deleted :: bool

record tx_row =
  tw_id :: uuid
  tw_dataset :: string
  tw_branch :: string
  tw_status :: string

record build_row =
  bw_pipeline :: string
  bw_branch :: string
  bw_targets :: "string list"
  bw_state :: string
  bw_force :: bool
  bw_policy :: string
  bw_error :: "string option"

record job_row =
  jw_id :: uuid
  jw_build :: uuid
  jw_spec :: string
  jw_outputs :: "string list"
  jw_signature :: string
  jw_logic :: string
  jw_skipped :: bool
  jw_state :: string
  jw_txs :: "string list"

record output_row =
  ow_job :: uuid
  ow_dataset :: string
  ow_tx :: string
  ow_committed :: bool
  ow_aborted :: bool

text \<open>A row of \<^verbatim>\<open>job_specs\<close>; what is decoded of its JSON columns, datasets with their transform types.\<close>

record body_row =
  by_rid :: string
  by_kind :: string
  by_payload :: string
  by_payload_type :: string
  by_inputs :: "(string \<times> string) list"
  by_outputs :: "string list"

record build_db = pg +
  bd_specs :: "spec_row list"
  bd_datasets :: "string set"
  bd_branches :: "branch_row list"
  bd_schemas :: "string \<times> string \<Rightarrow> string option"
  bd_txs :: "tx_row list"
  bd_locks :: "string \<Rightarrow> (uuid \<times> string) option"
  bd_builds :: "uuid \<Rightarrow> build_row option"
  bd_jobs :: "job_row list"
  bd_outputs :: "output_row list"
  bd_deps :: "(uuid \<times> uuid) list"
  bd_bodies :: "body_row list"
  bd_keys :: "string \<times> string \<Rightarrow> uuid option"
  bd_audits :: "(uuid \<times> string \<times> string \<times> string) list"

record sig_item =
  si_dataset :: string
  si_internal :: bool
  si_producer :: string
  si_logic :: string
  si_branch :: string
  si_head :: string
  si_schema :: string
  si_chain :: "string list"
  si_fresh :: bool
  si_filters :: nat

record build_env =
  bv_build :: uuid
  bv_tx :: "string \<Rightarrow> uuid"
  bv_show :: "uuid \<Rightarrow> string"
  bv_job :: "uuid \<Rightarrow> string \<Rightarrow> uuid"
  bv_logic :: "job_spec \<Rightarrow> string"
  bv_items :: "sig_item list \<Rightarrow> string"
  bv_sha :: "string \<Rightarrow> string"

record build_args =
  ba_pipeline :: string
  ba_branch :: string
  ba_fallback :: "string list"
  ba_outputs :: "string list"
  ba_force :: bool
  ba_policy :: string

record input_view =
  iv_dataset :: string
  iv_branch :: string
  iv_head :: "string option"
  iv_schema :: string

record resolved_build =
  rb_build :: uuid
  rb_state :: string
  rb_force :: bool
  rb_specs :: "job_spec list"
  rb_views :: "input_view list"
  rb_opened :: "opened_tx list"
  rb_jobs :: "resolved_job list"
  rb_stages :: "string list list"
  rb_reason :: "string option"

datatype resolution_error =
    MissingJobSpec string "string list"
  | CycleDetected "string list"
  | InputNotFound string
  | InputBranchMissing string string "string list"
  | StaleInput string
  | LockHeld string uuid
  | InvalidLogicKind string string
  | Database string

definition build_resolution :: string where "build_resolution = ''BUILD_RESOLUTION''"
definition build_queued :: string where "build_queued = ''BUILD_QUEUED''"
definition build_failed :: string where "build_failed = ''BUILD_FAILED''"

definition in_progress :: "string set" where
  "in_progress = {build_resolution, build_queued, ''BUILD_RUNNING'', ''BUILD_ABORTING''}"

text \<open>A failing statement makes the step fail with the error of the driver.\<close>

definition run_sql :: "(build_db \<Rightarrow> build_db \<times> 'r) \<Rightarrow> build_db \<Rightarrow> build_db \<times> (resolution_error + 'r)" where
  "run_sql f db = (case pg_exec f db of (db', Inl m) \<Rightarrow> (db', Inl (Database m)) | (db', Inr r) \<Rightarrow> (db', Inr r))"

section \<open>Loading the job specs\<close>

definition latest :: "spec_row list \<Rightarrow> spec_row option" where
  "latest rows = find (\<lambda>r. list_all (\<lambda>r'. sp_published r' \<le> sp_published r) rows) rows"

text \<open>Rows of the output itself come before rows that list it, and later ones before earlier ones.\<close>

definition select_spec :: "string \<Rightarrow> string \<Rightarrow> string \<Rightarrow> spec_row list \<Rightarrow> spec_row option" where
  "select_spec pipeline out branch rows =
     (let rs = filter (\<lambda>r. sp_pipeline r = pipeline \<and> sp_branch r = branch) rows in
      case latest (filter (\<lambda>r. sp_output r = out) rs) of
        Some r \<Rightarrow> Some r
      | None \<Rightarrow> latest (filter (\<lambda>r. out \<in> set (sp_listed r)) rs))"

definition decode_spec :: "spec_row \<Rightarrow> string + job_spec" where
  "decode_spec r =
     (case sp_inputs r of
        Inl e \<Rightarrow> Inl (''decode job spec inputs: '' @ e)
      | Inr inputs \<Rightarrow>
          (case sp_body r of
             Inl e \<Rightarrow> Inl (''decode job_spec_json: '' @ e)
           | Inr b \<Rightarrow>
               Inr \<lparr>js_rid = (if sb_rid b \<noteq> [] then sb_rid b else sp_rid r), js_pipeline = sp_pipeline r,
                    js_branch = sp_branch r, js_inputs = inputs,
                    js_outputs = (if sb_outputs b = [] then [sp_output r] else sb_outputs b),
                    js_kind = sb_kind b, js_payload = sb_payload b, js_hash = sp_hash r\<rparr>))"

definition lookup_on_branch ::
  "string \<Rightarrow> string \<Rightarrow> string \<Rightarrow> build_db \<Rightarrow> build_db \<times> (resolution_error + job_spec option)" where
  "lookup_on_branch pipeline out branch db =
     and_do (run_sql (\<lambda>db. (db, select_spec pipeline out branch (bd_specs db))) db) (\<lambda>row db1.
       case row of
         None \<Rightarrow> (db1, Inr None)
       | Some r \<Rightarrow>
           (case decode_spec r of Inl e \<Rightarrow> (db1, Inl (Database e)) | Inr s \<Rightarrow> (db1, Inr (Some s))))"

fun lookup_spec ::
  "string \<Rightarrow> string \<Rightarrow> string list \<Rightarrow> build_db \<Rightarrow> build_db \<times> (resolution_error + job_spec option)" where
  "lookup_spec pipeline out [] db = (db, Inr None)"
| "lookup_spec pipeline out (b # bs) db =
     (let branch = trim_space b in
      if branch = [] then lookup_spec pipeline out bs db
      else and_do (lookup_on_branch pipeline out branch db) (\<lambda>s db1.
             case s of Some x \<Rightarrow> (db1, Inr (Some x)) | None \<Rightarrow> lookup_spec pipeline out bs db1))"

fun load_loop :: "build_args \<Rightarrow> string list \<Rightarrow> build_db \<Rightarrow> build_db \<times> (resolution_error + job_spec list)" where
  "load_loop args [] db = (db, Inr [])"
| "load_loop args (out # outs) db =
     (let branches = ba_branch args # ba_fallback args in
      and_do (lookup_spec (ba_pipeline args) out branches db) (\<lambda>s db1.
        case s of
          None \<Rightarrow> (db1, Inl (MissingJobSpec out branches))
        | Some x \<Rightarrow> and_do (load_loop args outs db1) (\<lambda>xs db2. (db2, Inr (x # xs)))))"

definition load_job_specs :: "build_args \<Rightarrow> build_db \<Rightarrow> build_db \<times> (resolution_error + job_spec list)" where
  "load_job_specs args db = and_do (load_loop args (ba_outputs args) db) (\<lambda>specs db1. (db1, Inr (order_specs specs)))"

section \<open>The inputs\<close>

definition branch_snapshots :: "string \<Rightarrow> branch_row list \<Rightarrow> (string \<times> string option) list" where
  "branch_snapshots d rows =
     sort_key fst (map (\<lambda>b. (br_name b, map_option (\<lambda>h. ''ri.foundry.main.transaction.'' @ h) (br_head b)))
       (filter (\<lambda>b. br_dataset b = d \<and> \<not> br_deleted b) rows))"

definition list_branches ::
  "string \<Rightarrow> build_db \<Rightarrow> build_db \<times> (resolution_error + (string \<times> string option) list)" where
  "list_branches d db = run_sql (\<lambda>db. (db, branch_snapshots d (bd_branches db))) db"

definition live_branch :: "build_db \<Rightarrow> string \<Rightarrow> string \<Rightarrow> bool" where
  "live_branch db d b \<longleftrightarrow> d \<in> bd_datasets db \<and> b \<in> fst ` set (branch_snapshots d (bd_branches db))"

definition view_schema :: "string \<Rightarrow> string \<Rightarrow> build_db \<Rightarrow> build_db \<times> (resolution_error + string)" where
  "view_schema d b db =
     run_sql (\<lambda>db. (db, if live_branch db d b
       then (case bd_schemas db (d, b) of None \<Rightarrow> ''{}'' | Some s \<Rightarrow> if s = [] then ''{}'' else s) else ''{}'')) db"

definition resolve_one_input ::
  "string \<Rightarrow> input_spec \<Rightarrow> build_db \<Rightarrow> build_db \<times> (resolution_error + input_view)" where
  "resolve_one_input build i db =
     and_do (list_branches (in_dataset i) db) (\<lambda>snapshots db1.
       if snapshots = [] then (db1, Inl (InputNotFound (in_dataset i)))
       else (case resolve_input_dataset build (in_chain i) (map fst snapshots) of
               Inl e \<Rightarrow> (db1, Inl (InputBranchMissing (in_dataset i) build (in_chain i)))
             | Inr r \<Rightarrow>
                 if in_fresh i \<and> 0 < ri_index r then (db1, Inl (StaleInput (in_dataset i)))
                 else and_do (view_schema (in_dataset i) (ri_branch r) db1) (\<lambda>schema db2.
                        (db2, Inr \<lparr>iv_dataset = in_dataset i, iv_branch = ri_branch r,
                           iv_head = (case find (\<lambda>p. fst p = ri_branch r) snapshots of None \<Rightarrow> None | Some p \<Rightarrow> snd p),
                           iv_schema = (if schema = [] then ''null'' else schema)\<rparr>))))"

text \<open>The inputs of all specs in order; a dataset is resolved where it occurs first.\<close>

fun inputs_loop ::
  "string \<Rightarrow> string set \<Rightarrow> string set \<Rightarrow> input_spec list \<Rightarrow> build_db \<Rightarrow> build_db \<times> (resolution_error + input_view list)" where
  "inputs_loop build internal seen [] db = (db, Inr [])"
| "inputs_loop build internal seen (i # is) db =
     (if in_dataset i \<in> internal \<or> in_dataset i \<in> seen then inputs_loop build internal seen is db
      else and_do (resolve_one_input build i db) (\<lambda>v db1.
             and_do (inputs_loop build internal (insert (in_dataset i) seen) is db1) (\<lambda>vs db2. (db2, Inr (v # vs)))))"

definition validate_inputs ::
  "string \<Rightarrow> job_spec list \<Rightarrow> build_db \<Rightarrow> build_db \<times> (resolution_error + input_view list)" where
  "validate_inputs build specs db = inputs_loop build (output_set specs) {} (concat (map js_inputs specs)) db"

section \<open>Locks\<close>

definition has_upstream_sql :: "string list \<Rightarrow> uuid \<Rightarrow> build_db \<Rightarrow> bool" where
  "has_upstream_sql inputs self db \<longleftrightarrow>
     list_ex (\<lambda>j. jw_build j \<noteq> self \<and> list_ex (\<lambda>w. ow_job w = jw_id j \<and> ow_dataset w \<in> set inputs) (bd_outputs db) \<and>
       (case bd_builds db (jw_build j) of None \<Rightarrow> False | Some b \<Rightarrow> bw_state b \<in> in_progress)) (bd_jobs db)"

definition has_upstream_in_progress ::
  "string list \<Rightarrow> uuid \<Rightarrow> build_db \<Rightarrow> build_db \<times> (resolution_error + bool)" where
  "has_upstream_in_progress inputs self db =
     (if inputs = [] then (db, Inr False) else run_sql (\<lambda>db. (db, has_upstream_sql inputs self db)) db)"

text \<open>
  The schema (\<^verbatim>\<open>20260501000001_versioning_init.sql\<close> of the dataset service) has a unique index: a branch has at most
  one open transaction, so an insertion that would give it a second one fails.
\<close>

definition has_open_tx :: "build_db \<Rightarrow> string \<Rightarrow> string \<Rightarrow> bool" where
  "has_open_tx db d branch \<longleftrightarrow>
     list_ex (\<lambda>t. tw_dataset t = d \<and> tw_branch t = branch \<and> tw_status t = ''OPEN'') (bd_txs db)"

definition one_open_per_branch :: string where
  "one_open_per_branch = ''ERROR: duplicate key value violates unique constraint '' @ [CHR 34] @
     ''uq_dataset_transactions_one_open_per_branch'' @ [CHR 34] @ '' (SQLSTATE 23505)''"

definition open_transaction ::
  "build_env \<Rightarrow> string \<Rightarrow> string \<Rightarrow> build_db \<Rightarrow> build_db \<times> (resolution_error + string)" where
  "open_transaction env d branch db =
     and_do (run_sql (\<lambda>db.
         if \<not> live_branch db d branch then (db, Inr False)
         else if has_open_tx db d branch then (db, Inl one_open_per_branch)
         else (db\<lparr>bd_txs := bd_txs db @ [\<lparr>tw_id = bv_tx env d, tw_dataset = d, tw_branch = branch, tw_status = ''OPEN''\<rparr>]\<rparr>,
               Inr True)) db) (\<lambda>res db1.
       case res of
         Inl m \<Rightarrow> (db1, Inl (Database m))
       | Inr ok \<Rightarrow>
           if ok then (db1, Inr (''ri.foundry.main.transaction.'' @ bv_show env (bv_tx env d)))
           else (db1, Inl (Database (''dataset branch not found: '' @ d @ ''@'' @ branch))))"

text \<open>\<open>None\<close> is success, \<open>Some\<close> the holder of the lock.\<close>

definition try_acquire ::
  "string \<Rightarrow> uuid \<Rightarrow> string \<Rightarrow> build_db \<Rightarrow> build_db \<times> (resolution_error + uuid option)" where
  "try_acquire d build tx db =
     and_do (run_sql (\<lambda>db. case bd_locks db d of
         None \<Rightarrow> (db\<lparr>bd_locks := (bd_locks db)(d \<mapsto> (build, tx))\<rparr>, True)
       | Some _ \<Rightarrow> (db, False)) db) (\<lambda>ok db1.
       if ok then (db1, Inr None)
       else and_do (run_sql (\<lambda>db. (db, bd_locks db d)) db1) (\<lambda>l db2.
              case l of
                None \<Rightarrow> (db2, Inl (Database ''no rows in result set''))
              | Some (holder, _) \<Rightarrow> (db2, Inr (Some holder))))"

fun acquire_loop ::
  "build_env \<Rightarrow> uuid \<Rightarrow> string \<Rightarrow> string list \<Rightarrow> string list \<Rightarrow> build_db \<Rightarrow> build_db \<times> (resolution_error + opened_tx list)" where
  "acquire_loop env build branch seen [] db = (db, Inr [])"
| "acquire_loop env build branch seen (d # ds) db =
     (if d \<in> set seen then acquire_loop env build branch seen ds db
      else and_do (open_transaction env d branch db) (\<lambda>tx db1.
             and_do (try_acquire d build tx db1) (\<lambda>holder db2.
               case holder of
                 Some h \<Rightarrow> (db2, Inl (LockHeld d h))
               | None \<Rightarrow>
                   and_do (acquire_loop env build branch (d # seen) ds db2) (\<lambda>ts db3.
                     (db3, Inr (\<lparr>op_dataset = d, op_tx = tx\<rparr> # ts))))))"

definition acquire_locks ::
  "build_env \<Rightarrow> uuid \<Rightarrow> job_spec list \<Rightarrow> string \<Rightarrow> build_db \<Rightarrow> build_db \<times> (resolution_error + opened_tx list)" where
  "acquire_locks env build specs branch db = acquire_loop env build branch [] (concat (map js_outputs specs)) db"

section \<open>Resolution\<close>

fun first_invalid_kind :: "job_spec list \<Rightarrow> resolution_error option" where
  "first_invalid_kind [] = None"
| "first_invalid_kind (s # ss) =
     (let reason = validate_logic_kind (js_kind s) (length (js_outputs s)) in
      if reason \<noteq> [] then Some (InvalidLogicKind (js_rid s) reason) else first_invalid_kind ss)"

text \<open>The case of an unfinished scan does not occur (\<open>detect_cycles_core\<close>).\<close>

definition check_specs :: "job_spec list \<Rightarrow> resolution_error option" where
  "check_specs specs =
     (case first_invalid_kind specs of
        Some e \<Rightarrow> Some e
      | None \<Rightarrow>
          (case detect_cycles specs of
             NoCycle \<Rightarrow> None | CycleFound c \<Rightarrow> Some (CycleDetected c) | ScanUnfinished \<Rightarrow> Some (CycleDetected [])))"

definition resolve_build ::
  "build_env \<Rightarrow> build_args \<Rightarrow> build_db \<Rightarrow> build_db \<times> (resolution_error + resolved_build)" where
  "resolve_build env args db =
     and_do (load_job_specs args db) (\<lambda>specs db1.
       case check_specs specs of
         Some e \<Rightarrow> (db1, Inl e)
       | None \<Rightarrow>
           and_do (validate_inputs (ba_branch args) specs db1) (\<lambda>views db2.
             and_do (has_upstream_in_progress (external_inputs specs) (bv_build env) db2) (\<lambda>upstream db3.
               if upstream
               then (db3, Inr \<lparr>rb_build = bv_build env, rb_state = build_queued, rb_force = ba_force args,
                       rb_specs = specs, rb_views = views, rb_opened = [], rb_jobs = [], rb_stages = [],
                       rb_reason = Some ''upstream build in progress''\<rparr>)
               else and_do (acquire_locks env (bv_build env) specs (ba_branch args) db3) (\<lambda>opened db4.
                      case build_fan_out_plan (bv_job env) (bv_build env) specs opened of
                        (jobs, stages) \<Rightarrow>
                          (db4, Inr \<lparr>rb_build = bv_build env, rb_state = build_resolution, rb_force = ba_force args,
                             rb_specs = specs, rb_views = views, rb_opened = opened, rb_jobs = jobs,
                             rb_stages = stages, rb_reason = None\<rparr>)))))"

end
