(* ===== verification/Build_Persistence.thy ===== *)
theory Build_Persistence
  imports Build_Creation
begin

text \<open>
  The second half of the creation of a build: which jobs count as fresh, the transaction that stores the plan, the
  idempotency key, and \<^verbatim>\<open>CreateBuild\<close> itself with its error paths. Releasing the locks is what the audit sink does when
  a build ends (\<^verbatim>\<open>recordBuildEvent\<close>, \<^verbatim>\<open>MarkBuildAborted\<close>).
\<close>

section \<open>Freshness\<close>

definition unique_strings :: "string list \<Rightarrow> string list" where
  "unique_strings xs = sort (remdups (filter (\<lambda>x. x \<noteq> []) (map trim_space xs)))"

text \<open>The map of producers holds the last spec that writes a dataset.\<close>

definition producing_spec :: "job_spec list \<Rightarrow> string \<Rightarrow> job_spec option" where
  "producing_spec specs d = find (\<lambda>s. d \<in> set (js_outputs s)) (rev specs)"

definition logic_hash :: "build_env \<Rightarrow> job_spec \<Rightarrow> string" where
  "logic_hash env s = (if trim_space (js_hash s) \<noteq> [] then trim_space (js_hash s) else bv_logic env s)"

definition signature_item :: "build_env \<Rightarrow> job_spec list \<Rightarrow> input_view list \<Rightarrow> job_spec \<Rightarrow> input_spec \<Rightarrow> sig_item" where
  "signature_item env specs views s i =
     (let external =
        (case find (\<lambda>v. iv_dataset v = in_dataset i) (rev views) of
           None \<Rightarrow> \<lparr>si_dataset = in_dataset i, si_internal = False, si_producer = [], si_logic = [], si_branch = [],
                     si_head = [], si_schema = [], si_chain = in_chain i, si_fresh = in_fresh i,
                     si_filters = length (in_filters i)\<rparr>
         | Some v \<Rightarrow> \<lparr>si_dataset = in_dataset i, si_internal = False, si_producer = [], si_logic = [],
                     si_branch = iv_branch v, si_head = (case iv_head v of None \<Rightarrow> [] | Some h \<Rightarrow> h),
                     si_schema = (if iv_schema v = [] then [] else bv_sha env (iv_schema v)), si_chain = in_chain i,
                     si_fresh = in_fresh i, si_filters = length (in_filters i)\<rparr>) in
      case producing_spec specs (in_dataset i) of
        None \<Rightarrow> external
      | Some p \<Rightarrow>
          if js_rid p = js_rid s then external
          else \<lparr>si_dataset = in_dataset i, si_internal = True, si_producer = js_rid p, si_logic = logic_hash env p,
                si_branch = [], si_head = [], si_schema = [], si_chain = [], si_fresh = False, si_filters = 0\<rparr>)"

definition input_signature :: "build_env \<Rightarrow> job_spec list \<Rightarrow> input_view list \<Rightarrow> job_spec \<Rightarrow> string" where
  "input_signature env specs views s =
     bv_items env (sort_key si_dataset (map (signature_item env specs views s) (js_inputs s)))"

definition fresh_exists_sql :: "string \<Rightarrow> string \<Rightarrow> string \<Rightarrow> string list \<Rightarrow> build_db \<Rightarrow> bool" where
  "fresh_exists_sql rid logic signature outs db \<longleftrightarrow>
     list_ex (\<lambda>j. jw_spec j = rid \<and> jw_state j = ''COMPLETED'' \<and> \<not> jw_skipped j \<and> jw_logic j = logic \<and>
       jw_signature j = signature \<and> set outs \<subseteq> set (jw_outputs j) \<and>
       list_all (\<lambda>d. list_ex (\<lambda>w. ow_job w = jw_id j \<and> ow_dataset w = d \<and> ow_committed w) (bd_outputs db)) outs) (bd_jobs db)"

definition previous_fresh_job_exists ::
  "string \<Rightarrow> string \<Rightarrow> string \<Rightarrow> string list \<Rightarrow> build_db \<Rightarrow> build_db \<times> (resolution_error + bool)" where
  "previous_fresh_job_exists rid logic signature outs db =
     (if trim_space rid = [] \<or> outs = [] then (db, Inr False)
      else run_sql (\<lambda>db. (db, fresh_exists_sql rid logic signature (unique_strings outs) db)) db)"

section \<open>The transaction that stores the plan\<close>

definition spec_for :: "job_spec list \<Rightarrow> string \<Rightarrow> job_spec option" where
  "spec_for specs r = find (\<lambda>s. js_rid s = r) (rev specs)"

fun fresh_loop ::
  "build_env \<Rightarrow> job_spec list \<Rightarrow> input_view list \<Rightarrow> resolved_job list \<Rightarrow> build_db \<Rightarrow>
   build_db \<times> (resolution_error + (string \<Rightarrow> bool))" where
  "fresh_loop env specs views [] db = (db, Inr (\<lambda>_. False))"
| "fresh_loop env specs views (j # js) db =
     (case spec_for specs (rj_spec j) of
        None \<Rightarrow> fresh_loop env specs views js db
      | Some s \<Rightarrow>
          and_do (previous_fresh_job_exists (rj_spec j) (logic_hash env s) (input_signature env specs views s)
              (js_outputs s) db) (\<lambda>fresh db1.
            and_do (fresh_loop env specs views js db1) (\<lambda>m db2. (db2, Inr (m(rj_spec j := fresh))))))"

text \<open>An existing row keeps its build, spec and state.\<close>

definition upsert_job :: "job_row \<Rightarrow> build_db \<Rightarrow> build_db \<times> unit" where
  "upsert_job j db =
     (if jw_id j \<in> jw_id ` set (bd_jobs db)
      then (db\<lparr>bd_jobs := map (\<lambda>r. if jw_id r = jw_id j
              then j\<lparr>jw_build := jw_build r, jw_spec := jw_spec r, jw_state := jw_state r\<rparr> else r) (bd_jobs db)\<rparr>, ())
      else (db\<lparr>bd_jobs := bd_jobs db @ [j]\<rparr>, ()))"

definition dataset_for_transaction :: "opened_tx list \<Rightarrow> string \<Rightarrow> string" where
  "dataset_for_transaction opened tx = (case find (\<lambda>t. op_tx t = tx) opened of None \<Rightarrow> tx | Some t \<Rightarrow> op_dataset t)"

definition upsert_output :: "uuid \<Rightarrow> string \<Rightarrow> string \<Rightarrow> build_db \<Rightarrow> build_db \<times> unit" where
  "upsert_output j d tx db =
     (if list_ex (\<lambda>w. ow_job w = j \<and> ow_dataset w = d) (bd_outputs db)
      then (db\<lparr>bd_outputs := map (\<lambda>w. if ow_job w = j \<and> ow_dataset w = d then w\<lparr>ow_tx := tx\<rparr> else w) (bd_outputs db)\<rparr>, ())
      else (db\<lparr>bd_outputs := bd_outputs db @
              [\<lparr>ow_job = j, ow_dataset = d, ow_tx = tx, ow_committed = False, ow_aborted = False\<rparr>]\<rparr>, ()))"

fun outputs_loop :: "uuid \<Rightarrow> opened_tx list \<Rightarrow> string list \<Rightarrow> build_db \<Rightarrow> build_db \<times> (resolution_error + unit)" where
  "outputs_loop j opened [] db = (db, Inr ())"
| "outputs_loop j opened (tx # txs) db =
     and_do (run_sql (upsert_output j (dataset_for_transaction opened tx) tx) db) (\<lambda>_ db1. outputs_loop j opened txs db1)"

text \<open>A job without a spec is stored with the empty spec and empty hashes.\<close>

definition plan_row ::
  "build_env \<Rightarrow> resolved_build \<Rightarrow> (string \<Rightarrow> bool) \<Rightarrow> resolved_job \<Rightarrow> job_spec option \<Rightarrow> job_row" where
  "plan_row env rb fresh j spec =
     \<lparr>jw_id = rj_id j, jw_build = rb_build rb, jw_spec = rj_spec j,
      jw_outputs = (case spec of None \<Rightarrow> [] | Some s \<Rightarrow> unique_strings (js_outputs s)),
      jw_signature = (case spec of None \<Rightarrow> [] | Some s \<Rightarrow> input_signature env (rb_specs rb) (rb_views rb) s),
      jw_logic = (case spec of None \<Rightarrow> [] | Some s \<Rightarrow> logic_hash env s),
      jw_skipped = fresh (rj_spec j), jw_state = ''WAITING'', jw_txs = rj_txs j\<rparr>"

fun jobs_loop ::
  "build_env \<Rightarrow> resolved_build \<Rightarrow> (string \<Rightarrow> bool) \<Rightarrow> resolved_job list \<Rightarrow> build_db \<Rightarrow>
   build_db \<times> (resolution_error + unit)" where
  "jobs_loop env rb fresh [] db = (db, Inr ())"
| "jobs_loop env rb fresh (j # js) db =
     and_do (run_sql (upsert_job (plan_row env rb fresh j (spec_for (rb_specs rb) (rj_spec j)))) db) (\<lambda>_ db1.
       and_do (outputs_loop (rj_id j) (rb_opened rb) (rj_txs j) db1) (\<lambda>_ db2. jobs_loop env rb fresh js db2))"

definition job_edges :: "resolved_job list \<Rightarrow> (uuid \<times> uuid) list" where
  "job_edges js =
     concat (map (\<lambda>j. List.map_filter (\<lambda>d. map_option (\<lambda>k. (rj_id j, rj_id k)) (find (\<lambda>k. rj_spec k = d) (rev js)))
       (rj_deps j)) js)"

fun deps_loop :: "(uuid \<times> uuid) list \<Rightarrow> build_db \<Rightarrow> build_db \<times> (resolution_error + unit)" where
  "deps_loop [] db = (db, Inr ())"
| "deps_loop (e # es) db =
     and_do (run_sql (\<lambda>db. (db\<lparr>bd_deps := (if e \<in> set (bd_deps db) then bd_deps db else bd_deps db @ [e])\<rparr>, ())) db) (\<lambda>_ db1. deps_loop es db1)"

definition update_build_sql :: "resolved_build \<Rightarrow> build_db \<Rightarrow> build_db \<times> unit" where
  "update_build_sql rb db =
     (db\<lparr>bd_builds := (bd_builds db)(rb_build rb := map_option (\<lambda>b. b\<lparr>
        bw_state := (if rb_reason rb \<noteq> None then build_queued else rb_state rb),
        bw_targets := unique_strings (concat (map js_outputs (rb_specs rb)))\<rparr>) (bd_builds db (rb_build rb)))\<rparr>, ())"

definition persist_statements :: "build_env \<Rightarrow> resolved_build \<Rightarrow> build_db \<Rightarrow> build_db \<times> (resolution_error + unit)" where
  "persist_statements env rb db =
     and_do (run_sql (update_build_sql rb) db) (\<lambda>_ db1.
       and_do (if rb_force rb then (db1, Inr (\<lambda>_. False)) else fresh_loop env (rb_specs rb) (rb_views rb) (rb_jobs rb) db1)
         (\<lambda>fresh db2.
         and_do (jobs_loop env rb (propagate_stale (map (\<lambda>j. (rj_spec j, rj_deps j)) (rb_jobs rb)) fresh) (rb_jobs rb) db2)
           (\<lambda>_ db3. deps_loop (job_edges (rb_jobs rb)) db3)))"

text \<open>Begin, the statements, commit; a failure rolls back the tables.\<close>

definition persist_resolved_build :: "build_env \<Rightarrow> resolved_build \<Rightarrow> build_db \<Rightarrow> build_db \<times> (resolution_error + unit)" where
  "persist_resolved_build env rb db =
     and_do (run_sql (\<lambda>db. (db, ())) db) (\<lambda>_ db1.
       case and_do (persist_statements env rb db1) (\<lambda>_ db2. run_sql (\<lambda>db. (db, ())) db2) of
         (db3, Inl e) \<Rightarrow> (db1\<lparr>pg_clock := pg_clock db3\<rparr>, Inl e)
       | (db3, Inr _) \<Rightarrow> (db3, Inr ()))"

section \<open>The handler\<close>

definition open_build :: "build_env \<Rightarrow> build_args \<Rightarrow> build_db \<Rightarrow> build_db \<times> (resolution_error + unit)" where
  "open_build env args db =
     run_sql (\<lambda>db.
       (case bd_builds db (bv_build env) of
          Some _ \<Rightarrow> db
        | None \<Rightarrow> db\<lparr>bd_builds := (bd_builds db)(bv_build env \<mapsto>
            \<lparr>bw_pipeline = ba_pipeline args, bw_branch = ba_branch args, bw_targets = unique_strings (ba_outputs args),
             bw_state = build_resolution, bw_force = ba_force args,
             bw_policy = (if ba_policy args = [] then ''DEPENDENT_ONLY'' else ba_policy args), bw_error = None\<rparr>)\<rparr>, ())) db"

text \<open>The owner of the key, and whether this call has claimed it.\<close>

definition claim_idempotency ::
  "string \<times> string \<Rightarrow> uuid \<Rightarrow> build_db \<Rightarrow> build_db \<times> (resolution_error + uuid \<times> bool)" where
  "claim_idempotency key build db =
     and_do (run_sql (\<lambda>db. case bd_keys db key of
         None \<Rightarrow> (db\<lparr>bd_keys := (bd_keys db)(key \<mapsto> build)\<rparr>, Some build)
       | Some _ \<Rightarrow> (db, None)) db) (\<lambda>owner db1.
       case owner of
         Some b \<Rightarrow> (db1, Inr (b, True))
       | None \<Rightarrow>
           and_do (run_sql (\<lambda>db. (db, bd_keys db key)) db1) (\<lambda>b db2.
             case b of None \<Rightarrow> (db2, Inl (Database ''no rows in result set'')) | Some b \<Rightarrow> (db2, Inr (b, False))))"

definition release_idempotency :: "string \<times> string \<Rightarrow> build_db \<Rightarrow> build_db" where
  "release_idempotency key db = fst (run_sql (\<lambda>db. (db\<lparr>bd_keys := (bd_keys db)(key := None)\<rparr>, ())) db)"

definition mark_build_failed :: "uuid \<Rightarrow> string \<Rightarrow> build_db \<Rightarrow> build_db" where
  "mark_build_failed build reason db =
     fst (run_sql (\<lambda>db. (db\<lparr>bd_builds := (bd_builds db)(build := map_option
       (\<lambda>b. b\<lparr>bw_state := build_failed, bw_error := Some reason\<rparr>) (bd_builds db build))\<rparr>, ())) db)"

datatype create_answer =
    BadRequest string
  | Replayed uuid
  | ClaimFailed resolution_error
  | OpenFailed resolution_error
  | ResolutionFailed resolution_error
  | PersistFailed resolution_error
  | Accepted resolved_build

definition request_invalid :: "build_args \<Rightarrow> string option" where
  "request_invalid args =
     (if trim_space (ba_pipeline args) = [] then Some ''pipeline_rid is required''
      else if trim_space (ba_branch args) = [] then Some ''build_branch is required''
      else if ba_outputs args = [] then Some ''output_dataset_rids must declare at least one dataset''
      else None)"

text \<open>After the key has been claimed; \<open>error_text\<close> is the message of the error.\<close>

definition create_opened ::
  "(resolution_error \<Rightarrow> string) \<Rightarrow> build_env \<Rightarrow> build_args \<Rightarrow> (string \<times> string) option \<Rightarrow> build_db \<Rightarrow>
   build_db \<times> create_answer" where
  "create_opened error_text env args key db =
     (case open_build env args db of
        (db1, Inl e) \<Rightarrow>
          ((case key of None \<Rightarrow> db1 | Some k \<Rightarrow> release_idempotency k db1), OpenFailed e)
      | (db1, Inr _) \<Rightarrow>
          (case resolve_build env args db1 of
             (db2, Inl e) \<Rightarrow> (mark_build_failed (bv_build env) (error_text e) db2, ResolutionFailed e)
           | (db2, Inr rb) \<Rightarrow>
               (case persist_resolved_build env rb db2 of
                  (db3, Inl e) \<Rightarrow> (mark_build_failed (bv_build env) (error_text e) db3, PersistFailed e)
                | (db3, Inr _) \<Rightarrow> (db3, Accepted rb))))"

definition create_build ::
  "(resolution_error \<Rightarrow> string) \<Rightarrow> build_env \<Rightarrow> build_args \<Rightarrow> string \<Rightarrow> string \<Rightarrow> build_db \<Rightarrow> build_db \<times> create_answer" where
  "create_build error_text env args subject header db =
     (case request_invalid args of
        Some m \<Rightarrow> (db, BadRequest m)
      | None \<Rightarrow>
          (let k = trim_space header in
           if k = [] then create_opened error_text env args None db
           else (case claim_idempotency (subject, k) (bv_build env) db of
                   (db1, Inl e) \<Rightarrow> (db1, ClaimFailed e)
                 | (db1, Inr (owner, claimed)) \<Rightarrow>
                     if claimed then create_opened error_text env args (Some (subject, k)) db1
                     else (db1, Replayed owner))))"

text \<open>The end of a build that was running: \<^verbatim>\<open>recordBuildEvent\<close>.\<close>

definition release_build_locks :: "uuid \<Rightarrow> build_db \<Rightarrow> build_db \<times> (resolution_error + unit)" where
  "release_build_locks build db =
     (if build = uuid_nil then (db, Inr ())
      else run_sql (\<lambda>db. (db\<lparr>bd_locks := (\<lambda>d. case bd_locks db d of
        None \<Rightarrow> None | Some (b, t) \<Rightarrow> if b = build then None else Some (b, t))\<rparr>, ())) db)"

definition record_build_event ::
  "uuid \<Rightarrow> string \<Rightarrow> string \<Rightarrow> build_db \<Rightarrow> build_db \<times> (resolution_error + unit)" where
  "record_build_event build to reason db =
     (let set = (\<lambda>f db. (db\<lparr>bd_builds := (bd_builds db)(build := map_option f (bd_builds db build))\<rparr>, ())) in
      if build = uuid_nil \<or> to = [] then (db, Inr ())
      else if to = ''BUILD_COMPLETED''
      then and_do (run_sql (set (\<lambda>b. b\<lparr>bw_state := to\<rparr>)) db) (\<lambda>_ db1. release_build_locks build db1)
      else if to = build_failed \<or> to = ''BUILD_ABORTED''
      then and_do (run_sql (set (\<lambda>b. b\<lparr>bw_state := to, bw_error := (if reason = [] then bw_error b else Some reason)\<rparr>)) db)
             (\<lambda>_ db1. release_build_locks build db1)
      else if to = ''BUILD_RUNNING''
      then run_sql (set (\<lambda>b. if bw_state b \<in> {build_resolution, build_queued} then b\<lparr>bw_state := to\<rparr> else b)) db
      else (db, Inr ()))"

end
