(* ===== verification/Build_Loading.thy ===== *)
theory Build_Loading
  imports Build_Persistence
begin

text \<open>
  From the stored plan of a build to the plan of the executor: \<^verbatim>\<open>LoadPlan\<close> of \<^verbatim>\<open>internal/postgres/repository.go\<close> and
  \<^verbatim>\<open>normalizePlan\<close> of \<^verbatim>\<open>internal/handler/execution.go\<close>. The rows of one query come in the order of the table; the executor
  sorts nodes and dependencies. The details of an output are the id of its transaction.
\<close>

section \<open>The rows\<close>

definition list_jobs_for_build :: "uuid \<Rightarrow> build_db \<Rightarrow> build_db \<times> (resolution_error + job_row list)" where
  "list_jobs_for_build build db = run_sql (\<lambda>db. (db, filter (\<lambda>j. jw_build j = build) (bd_jobs db))) db"

definition dependency_rows :: "uuid \<Rightarrow> build_db \<Rightarrow> (uuid \<times> string) list" where
  "dependency_rows build db =
     concat (map (\<lambda>(j, d).
         if list_ex (\<lambda>r. jw_id r = j \<and> jw_build r = build) (bd_jobs db)
         then map (\<lambda>r. (j, jw_spec r)) (filter (\<lambda>r. jw_id r = d) (bd_jobs db)) else [])
       (bd_deps db))"

definition dependencies_for_build ::
  "uuid \<Rightarrow> build_db \<Rightarrow> build_db \<times> (resolution_error + (uuid \<Rightarrow> string list))" where
  "dependencies_for_build build db =
     and_do (run_sql (\<lambda>db. (db, dependency_rows build db)) db) (\<lambda>rows db1.
       (db1, Inr (\<lambda>j. map snd (filter (\<lambda>r. fst r = j) rows))))"

text \<open>SQL's \<^verbatim>\<open>replace\<close>.\<close>

function sql_replace :: "string \<Rightarrow> string \<Rightarrow> string \<Rightarrow> string" where
  "sql_replace s from_text to_text =
     (if s = [] \<or> from_text = [] then s
      else if has_prefix s from_text then to_text @ sql_replace (drop (length from_text) s) from_text to_text
      else hd s # sql_replace (tl s) from_text to_text)"
  by pat_completeness auto
termination by (relation "measure (\<lambda>(s, f, t). length s)") auto

declare sql_replace.simps [simp del]

record spec_metadata =
  sm_kind :: string
  sm_payload :: string
  sm_type :: string
  sm_inputs :: "string list"
  sm_outputs :: "string list"

definition metadata_of :: "body_row \<Rightarrow> spec_metadata" where
  "metadata_of b =
     \<lparr>sm_kind = by_kind b, sm_payload = by_payload b,
      sm_type = (case find (\<lambda>i. snd i \<noteq> []) (by_inputs b) of Some i \<Rightarrow> snd i | None \<Rightarrow> by_payload_type b),
      sm_inputs = filter (\<lambda>d. d \<noteq> []) (map fst (by_inputs b)), sm_outputs = by_outputs b\<rparr>"

text \<open>The rows are joined on either form of the id, and stored under the id of \<^verbatim>\<open>job_specs\<close>; of equal ids the last.\<close>

definition joined_bodies :: "uuid \<Rightarrow> build_db \<Rightarrow> body_row list" where
  "joined_bodies build db =
     concat (map (\<lambda>j. filter (\<lambda>b. by_rid b = jw_spec j \<or>
         sql_replace (by_rid b) ''ri.foundry.main.job_spec.'' ''ri.foundry.main.jobspec.'' = jw_spec j) (bd_bodies db))
       (filter (\<lambda>j. jw_build j = build) (bd_jobs db)))"

definition job_specs_by_rid ::
  "uuid \<Rightarrow> build_db \<Rightarrow> build_db \<times> (resolution_error + (string \<Rightarrow> spec_metadata option))" where
  "job_specs_by_rid build db =
     and_do (run_sql (\<lambda>db. (db, joined_bodies build db)) db) (\<lambda>rows db1.
       (db1, Inr (\<lambda>r. map_option metadata_of (find (\<lambda>b. by_rid b = r) (rev rows)))))"

definition outputs_for_node :: "uuid \<Rightarrow> build_db \<Rightarrow> build_db \<times> (resolution_error + string output_tx list)" where
  "outputs_for_node j db =
     run_sql (\<lambda>db. (db, map (\<lambda>w. \<lparr>ot_dataset = ow_dataset w, ot_details = ow_tx w\<rparr>)
       (sort_key ow_dataset (filter (\<lambda>w. ow_job w = j) (bd_outputs db))))) db"

section \<open>The metadata of a node\<close>

text \<open>\<open>sha\<close> is the hash of the JSON object of the two texts.\<close>

definition job_staleness_signature :: "(string \<Rightarrow> string \<Rightarrow> string) \<Rightarrow> job_row \<Rightarrow> string" where
  "job_staleness_signature sha j =
     (if trim_space (jw_signature j) = [] \<and> trim_space (jw_logic j) = [] then []
      else sha (trim_space (jw_signature j)) (trim_space (jw_logic j)))"

definition put_text :: "string \<Rightarrow> string \<Rightarrow> metadata \<Rightarrow> metadata" where
  "put_text k v m = (if v = [] then m else m(k \<mapsto> MetaString v))"

text \<open>\<^verbatim>\<open>fmt.Sprint\<close> of a list of texts and of bytes.\<close>

definition sprint_list :: "string list \<Rightarrow> string" where
  "sprint_list xs = ''['' @ join_with '' '' xs @ '']''"

definition spec_entries :: "spec_metadata \<Rightarrow> metadata \<Rightarrow> metadata" where
  "spec_entries s m =
     (let m1 = put_text ''logic_kind'' (sm_kind s) m;
          m2 = (if sm_payload s = [] then m1
                else m1(''logic_payload'' \<mapsto> MetaOther (sprint_list (map (\<lambda>c. show_nat (of_char c)) (sm_payload s)))));
          m3 = put_text ''transform_type'' (sm_type s) m2;
          m4 = (if sm_inputs s = [] then m3 else m3(''input_dataset_ids'' \<mapsto> MetaOther (sprint_list (sm_inputs s)))) in
      (case sm_outputs s of [] \<Rightarrow> m4 | d # _ \<Rightarrow> m4(''output_dataset_id'' \<mapsto> MetaString d)))"

definition node_metadata ::
  "(string \<Rightarrow> string \<Rightarrow> string) \<Rightarrow> bool \<Rightarrow> (string \<Rightarrow> spec_metadata option) \<Rightarrow> job_row \<Rightarrow> metadata" where
  "node_metadata sha force specs j =
     (let m0 = [''job_spec_rid'' \<mapsto> MetaString (jw_spec j), ''force_build'' \<mapsto> MetaOther (if force then ''true'' else ''false'')];
          m1 = (if trim_space (jw_signature j) = [] then m0 else m0(''input_signature'' \<mapsto> MetaString (jw_signature j)));
          m2 = (if trim_space (jw_logic j) = [] then m1 else m1(''canonical_logic_hash'' \<mapsto> MetaString (jw_logic j)));
          m3 = put_text ''staleness_signature'' (job_staleness_signature sha j) m2;
          m4 = (if jw_skipped j then m3(''staleness_skip_reason'' \<mapsto> MetaString ''fresh'') else m3) in
      (case specs (jw_spec j) of None \<Rightarrow> m4 | Some s \<Rightarrow> spec_entries s m4))"

section \<open>The plan\<close>

fun nodes_loop ::
  "(job_row \<Rightarrow> metadata) \<Rightarrow> (uuid \<Rightarrow> string list) \<Rightarrow> job_row list \<Rightarrow> build_db \<Rightarrow>
   build_db \<times> (resolution_error + string build_node list)" where
  "nodes_loop meta deps [] db = (db, Inr [])"
| "nodes_loop meta deps (j # js) db =
     and_do (outputs_for_node (jw_id j) db) (\<lambda>outs db1.
       and_do (nodes_loop meta deps js db1) (\<lambda>ns db2.
         (db2, Inr (\<lparr>bn_id = jw_spec j, bn_job = jw_id j, bn_deps = deps (jw_id j), bn_outputs = outs,
            bn_max_attempts = 1, bn_stale = jw_skipped j, bn_metadata = meta j\<rparr> # ns))))"

text \<open>The executor takes any policy but \<^verbatim>\<open>ALL_NON_DEPENDENT\<close> for \<^verbatim>\<open>DEPENDENT_ONLY\<close>; \<open>None\<close> is the empty text.\<close>

definition policy_of :: "string \<Rightarrow> abort_policy option" where
  "policy_of t = (if t = [] then None else if t = ''ALL_NON_DEPENDENT'' then Some AllNonDependent else Some DependentOnly)"

definition load_plan ::
  "(string \<Rightarrow> string \<Rightarrow> string) \<Rightarrow> uuid \<Rightarrow> build_db \<Rightarrow> build_db \<times> (resolution_error + string build_plan)" where
  "load_plan sha build db =
     and_do (run_sql (\<lambda>db. (db, bd_builds db build)) db) (\<lambda>row db1.
       case row of
         None \<Rightarrow> (db1, Inl (Database ''no rows in result set''))
       | Some b \<Rightarrow>
           and_do (list_jobs_for_build build db1) (\<lambda>js db2.
             and_do (dependencies_for_build build db2) (\<lambda>deps db3.
               and_do (job_specs_by_rid build db3) (\<lambda>specs db4.
                 and_do (nodes_loop (node_metadata sha (bw_force b) specs) deps js db4) (\<lambda>ns db5.
                   (db5, Inr \<lparr>bp_policy = policy_of (bw_policy b), bp_parallelism = 4, bp_max_attempts = 1,
                      bp_nodes = ns\<rparr>))))))"

definition normalize_plan :: "int \<Rightarrow> string build_plan \<Rightarrow> string build_plan" where
  "normalize_plan ports p =
     (let par = (if bp_parallelism p < 1 then ports else bp_parallelism p) in
      p\<lparr>bp_parallelism := (if par < 1 then 4 else par),
        bp_max_attempts := (if bp_max_attempts p < 1 then 1 else bp_max_attempts p),
        bp_policy := (case bp_policy p of None \<Rightarrow> Some DependentOnly | Some x \<Rightarrow> Some x)\<rparr>)"

end
