(* ===== verification/Build_Abort.thy ===== *)
theory Build_Abort
  imports Build_Persistence Job_Lifecycle
begin

text \<open>
  \<^verbatim>\<open>AbortBuild\<close> of \<^verbatim>\<open>internal/handler/abort.go\<close> with its statements in \<^verbatim>\<open>internal/postgres/repository.go\<close>. A transaction
  is aborted by \<^verbatim>\<open>ConfigGatedTransactionManager\<close> as \<^verbatim>\<open>main\<close> wires it: without an adapter for Iceberg tables. The build is
  given by its id, \<open>None\<close> for a blank one; \<open>running\<close> is the set of builds with a registered execution.
\<close>

record abort_job =
  aj_id :: uuid
  aj_state :: string
  aj_outputs :: "(string \<times> string) list"

record abort_snapshot =
  as_id :: uuid
  as_state :: string
  as_jobs :: "abort_job list"

section \<open>Loading the build\<close>

definition outputs_for_job :: "uuid \<Rightarrow> build_db \<Rightarrow> build_db \<times> (resolution_error + (string \<times> string) list)" where
  "outputs_for_job j db =
     run_sql (\<lambda>db. (db, map (\<lambda>w. (ow_dataset w, ow_tx w))
       (sort_key ow_dataset (filter (\<lambda>w. ow_job w = j) (bd_outputs db))))) db"

fun abort_jobs_loop :: "job_row list \<Rightarrow> build_db \<Rightarrow> build_db \<times> (resolution_error + abort_job list)" where
  "abort_jobs_loop [] db = (db, Inr [])"
| "abort_jobs_loop (j # js) db =
     and_do (outputs_for_job (jw_id j) db) (\<lambda>outs db1.
       and_do (abort_jobs_loop js db1) (\<lambda>rest db2.
         (db2, Inr (\<lparr>aj_id = jw_id j, aj_state = jw_state j, aj_outputs = outs\<rparr> # rest))))"

definition abort_jobs :: "uuid \<Rightarrow> build_db \<Rightarrow> build_db \<times> (resolution_error + abort_job list)" where
  "abort_jobs build db =
     and_do (run_sql (\<lambda>db. (db, filter (\<lambda>j. jw_build j = build) (bd_jobs db))) db) abort_jobs_loop"

definition load_build_for_abort ::
  "uuid \<Rightarrow> build_db \<Rightarrow> build_db \<times> (resolution_error + abort_snapshot option)" where
  "load_build_for_abort build db =
     and_do (run_sql (\<lambda>db. (db, bd_builds db build)) db) (\<lambda>row db1.
       case row of
         None \<Rightarrow> (db1, Inr None)
       | Some b \<Rightarrow>
           and_do (abort_jobs build db1) (\<lambda>js db2.
             (db2, Inr (Some \<lparr>as_id = build, as_state = bw_state b, as_jobs = js\<rparr>))))"

section \<open>The writes\<close>

definition update_build :: "uuid \<Rightarrow> (build_row \<Rightarrow> build_row) \<Rightarrow> build_db \<Rightarrow> build_db \<times> unit" where
  "update_build build f db = (db\<lparr>bd_builds := (bd_builds db)(build := map_option f (bd_builds db build))\<rparr>, ())"

definition mark_build_aborting :: "uuid \<Rightarrow> string \<Rightarrow> build_db \<Rightarrow> build_db \<times> (resolution_error + unit)" where
  "mark_build_aborting build reason db =
     run_sql (update_build build (\<lambda>b. b\<lparr>bw_state := ''BUILD_ABORTING'', bw_error := Some reason\<rparr>)) db"

definition mark_build_aborted :: "uuid \<Rightarrow> string \<Rightarrow> build_db \<Rightarrow> build_db \<times> (resolution_error + unit)" where
  "mark_build_aborted build reason db =
     and_do (run_sql (update_build build (\<lambda>b. b\<lparr>bw_state := ''BUILD_ABORTED'', bw_error := Some reason\<rparr>)) db)
       (\<lambda>_ db1. run_sql (\<lambda>db. (db\<lparr>bd_locks := (\<lambda>d. case bd_locks db d of
          None \<Rightarrow> None | Some (b, t) \<Rightarrow> if b = build then None else Some (b, t))\<rparr>, ())) db1)"

text \<open>Two statements without a transaction; the second does not ask whether the first changed a row.\<close>

definition repo_transition_job ::
  "uuid \<Rightarrow> job_state \<Rightarrow> job_state \<Rightarrow> string \<Rightarrow> build_db \<Rightarrow> build_db \<times> (resolution_error + unit)" where
  "repo_transition_job j from to reason db =
     and_do (run_sql (\<lambda>db. (db\<lparr>bd_jobs := map (\<lambda>r. if jw_id r = j \<and> jw_state r = job_state_string from
         then r\<lparr>jw_state := job_state_string to\<rparr> else r) (bd_jobs db)\<rparr>, ())) db) (\<lambda>_ db1.
       run_sql (\<lambda>db. (db\<lparr>bd_audits := bd_audits db @
         [(j, job_state_string from, job_state_string to, reason)]\<rparr>, ())) db1)"

definition abort_targets :: "job_state option \<Rightarrow> job_state list" where
  "abort_targets s =
     (case s of
        Some JobRunning \<Rightarrow> [JobAbortPending, JobAborted]
      | Some JobRunPending \<Rightarrow> [JobAbortPending, JobAborted]
      | Some JobWaiting \<Rightarrow> [JobAborted]
      | Some JobAbortPending \<Rightarrow> [JobAborted]
      | _ \<Rightarrow> [])"

fun targets_loop :: "uuid \<Rightarrow> job_state \<Rightarrow> job_state list \<Rightarrow> build_db \<Rightarrow> build_db" where
  "targets_loop j from [] db = db"
| "targets_loop j from (to # tos) db =
     (if \<not> job_valid_transition from to \<and> from \<noteq> to then targets_loop j from tos db
      else targets_loop j to tos (fst (repo_transition_job j from to ''build aborted by user'' db)))"

fun transition_abort_jobs :: "abort_job list \<Rightarrow> build_db \<Rightarrow> build_db" where
  "transition_abort_jobs [] db = db"
| "transition_abort_jobs (j # js) db =
     transition_abort_jobs js
       (case parse_job_state (aj_state j) of
          None \<Rightarrow> db
        | Some from \<Rightarrow> targets_loop (aj_id j) from (abort_targets (Some from)) db)"

definition iceberg_prefix :: string where
  "iceberg_prefix = ''ri.foundry.main.iceberg-table.''"

definition abort_transaction :: "bool \<Rightarrow> string \<times> string \<Rightarrow> build_db \<Rightarrow> build_db \<times> (string + unit)" where
  "abort_transaction catalog t db =
     (if has_prefix (fst t) iceberg_prefix
      then (db, Inl (if catalog
        then ''foundry_iceberg_catalog_adapter_not_configured: FOUNDRY_ICEBERG_CATALOG_URL is set but the Iceberg transaction store is not wired''
        else ''foundry_iceberg_catalog_not_configured: set FOUNDRY_ICEBERG_CATALOG_URL to abort Iceberg outputs''))
      else pg_exec (\<lambda>db. (db\<lparr>bd_outputs := map (\<lambda>w. if ow_dataset w = fst t \<and> ow_tx w = snd t
        then w\<lparr>ow_aborted := True\<rparr> else w) (bd_outputs db)\<rparr>, ())) db)"

text \<open>The number of transactions aborted and the errors.\<close>

fun abort_open_outputs ::
  "bool \<Rightarrow> (string \<times> string) list \<Rightarrow> (string \<times> string) list \<Rightarrow> build_db \<Rightarrow> build_db \<times> nat \<times> string list" where
  "abort_open_outputs catalog seen [] db = (db, 0, [])"
| "abort_open_outputs catalog seen (t # ts) db =
     (if t \<in> set seen then abort_open_outputs catalog seen ts db
      else (case abort_transaction catalog t db of
              (db1, Inl e) \<Rightarrow>
                (case abort_open_outputs catalog (t # seen) ts db1 of
                   (db2, n, es) \<Rightarrow> (db2, n, (fst t @ '': '' @ e) # es))
            | (db1, Inr _) \<Rightarrow>
                (case abort_open_outputs catalog (t # seen) ts db1 of (db2, n, es) \<Rightarrow> (db2, Suc n, es))))"

section \<open>The handler\<close>

datatype abort_answer =
    AbortBlank
  | AbortError resolution_error
  | AbortNotFound
  | AbortConflict
  | AbortDone bool nat "string list"

definition cancel_execution :: "uuid set \<Rightarrow> uuid \<Rightarrow> bool" where
  "cancel_execution running build \<longleftrightarrow> build \<noteq> uuid_nil \<and> build \<in> running"

definition abort_loaded :: "uuid set \<Rightarrow> bool \<Rightarrow> abort_snapshot \<Rightarrow> build_db \<Rightarrow> build_db \<times> abort_answer" where
  "abort_loaded running catalog snap db =
     (case abort_open_outputs catalog [] (concat (map aj_outputs (as_jobs snap))) (transition_abort_jobs (as_jobs snap) db) of
        (db1, n, errors) \<Rightarrow>
          ((if errors = [] then fst (mark_build_aborted (as_id snap) ''aborted by user'' db1) else db1),
           AbortDone (cancel_execution running (as_id snap)) n errors))"

definition abort_build :: "uuid set \<Rightarrow> bool \<Rightarrow> uuid option \<Rightarrow> build_db \<Rightarrow> build_db \<times> abort_answer" where
  "abort_build running catalog target db =
     (case target of
        None \<Rightarrow> (db, AbortBlank)
      | Some build \<Rightarrow>
          (case load_build_for_abort build db of
             (db1, Inl e) \<Rightarrow> (db1, AbortError e)
           | (db1, Inr None) \<Rightarrow> (db1, AbortNotFound)
           | (db1, Inr (Some snap)) \<Rightarrow>
               if as_state snap = ''BUILD_COMPLETED'' \<or> as_state snap = build_failed then (db1, AbortConflict)
               else if as_state snap \<noteq> ''BUILD_ABORTING'' \<and> as_state snap \<noteq> ''BUILD_ABORTED''
               then (case mark_build_aborting (as_id snap) ''aborted by user'' db1 of
                       (db2, Inl e) \<Rightarrow> (db2, AbortError e)
                     | (db2, Inr _) \<Rightarrow> abort_loaded running catalog snap db2)
               else abort_loaded running catalog snap db1))"

end
