(* ===== verification/Resolver_Proofs.thy ===== *)
theory Resolver_Proofs
  imports Resolver Dag_Proofs Build_Executor_Proofs "HOL-Library.Multiset"
begin

text \<open>
  The resolver's check for cycles is exact, its plan has every spec once, after its dependencies and as early as
  possible, and the fresh jobs are those all of whose dependencies are fresh. The proofs of the scan rest on the
  invariant of the planner (\<open>Dag_Proofs\<close>), those of the cycle path on the search of the executor.
\<close>

section \<open>The order of the specs\<close>

lemma drop_repeated_set: "js_rid ` set (drop_repeated ss) = js_rid ` set ss"
  by (induction ss rule: drop_repeated.induct) auto

lemma drop_repeated_subset: "set (drop_repeated ss) \<subseteq> set ss"
  by (induction ss rule: drop_repeated.induct) auto

lemma drop_repeated_sorted:
  "sorted (map js_rid ss) \<Longrightarrow> sorted_wrt (<) (map js_rid (drop_repeated ss))"
proof (induction ss rule: drop_repeated.induct)
  case (1 a b ss)
  show ?case
  proof (cases "js_rid a = js_rid b")
    case False
    with "1.prems" have less: "js_rid a < js_rid b" by (simp add: order.strict_iff_order)
    have "js_rid a < js_rid s" if "s \<in> set (drop_repeated (b # ss))" for s
      using that drop_repeated_subset [of "b # ss"] "1.prems" less by fastforce
    with 1 False show ?thesis by simp
  qed (use 1 in simp)
qed simp_all

lemma distinct_order_specs: "distinct (map js_rid (order_specs specs))"
  using drop_repeated_sorted [of "sort_key js_rid specs"] by (simp add: order_specs_def strict_sorted_iff)

section \<open>The scan\<close>

lemma sort_mset: "mset xs = mset ys \<Longrightarrow> sort xs = sort (ys :: string list)"
  by (metis mset_sort properties_for_sort sorted_sort)

text \<open>With enough edges left, the sorted loop is the plain loop with a sorted queue.\<close>

lemma relax_sorted_relax:
  assumes "\<And>x. int (count_list xs x) \<le> deg x"
  shows "relax_sorted xs deg (sort q) = (fst (relax xs deg q), sort (snd (relax xs deg q)))"
  using assms
proof (induction xs arbitrary: deg q)
  case (Cons x xs)
  have pos: "0 < deg x"
    using Cons.prems [of x] by simp
  have le: "int (count_list xs y) \<le> (deg(x := deg x - 1)) y" for y
    using Cons.prems [of y] by (simp split: if_splits)
  have queue: "sort (sort q @ [x]) = sort (q @ [x])"
    by (rule sort_mset) simp
  have "relax_sorted (x # xs) deg (sort q) =
      relax_sorted xs (deg(x := deg x - 1)) (sort (if deg x - 1 = 0 then q @ [x] else q))"
    using pos by (simp add: Let_def queue)
  also have "\<dots> = (fst (relax (x # xs) deg q), sort (snd (relax (x # xs) deg q)))"
    by (subst Cons.IH [OF le]) (simp add: Let_def)
  finally show ?case .
qed simp

text \<open>The order of the neighbours matters only for the order of the queue.\<close>

lemma relax_permuted:
  assumes le: "\<And>x. int (count_list xs x) \<le> deg x" and perm: "mset ys = mset xs"
  shows "fst (relax ys deg q) = fst (relax xs deg q)" "mset (snd (relax ys deg q)) = mset (snd (relax xs deg q))"
proof -
  have count: "count_list ys = count_list xs"
    using perm by (metis count_mset ext)
  obtain zs where zs: "relax xs deg q = (\<lambda>x. deg x - int (count_list xs x), q @ zs)" "distinct zs"
    "set zs = {x \<in> set xs. deg x = int (count_list xs x)}"
    using relax_spec [of xs deg q] le by blast
  obtain zs' where zs': "relax ys deg q = (\<lambda>x. deg x - int (count_list ys x), q @ zs')" "distinct zs'"
    "set zs' = {x \<in> set ys. deg x = int (count_list ys x)}"
    using relax_spec [of ys deg q] le by (auto simp: count)
  have "set zs' = set zs"
    using zs(3) zs'(3) mset_eq_setD [OF perm] by (simp add: count)
  then have "mset zs' = mset zs"
    using zs(2) zs'(2) by (simp add: set_eq_iff_mset_eq_distinct)
  then show "fst (relax ys deg q) = fst (relax xs deg q)" "mset (snd (relax ys deg q)) = mset (snd (relax xs deg q))"
    using zs(1) zs'(1) by (simp_all add: count)
qed

lemma kahn_inv_perm: "mset q = mset q' \<Longrightarrow> kahn_inv es ids q deg order = kahn_inv es ids q' deg order"
  using mset_eq_setD [of q q'] mset_eq_imp_distinct_iff [of q q'] by (simp add: kahn_inv_def)

lemma adjacent_le: "u \<notin> P \<Longrightarrow> int (count_list (adjacent es u) x) \<le> pend es P x"
  using pend_insert [of u P es x] pend_nonneg [of es "insert u P" x] by linarith

lemma kahn_scan_step:
  assumes inv: "kahn_inv es ids (u # q) deg order" and tgt: "snd ` set es \<subseteq> ids" and q: "sorted q"
    and step: "relax_sorted (sort (adjacent es u)) deg q = (deg', q')"
  shows "kahn_inv es ids q' deg' (order @ [u]) \<and> sorted q'"
proof -
  have inv': "kahn_inv es ids (q @ [u]) deg order"
    using inv by (subst kahn_inv_perm [of _ "u # q"]) simp_all
  have deg: "deg = pend es (set order)" and u: "u \<notin> set order"
    using inv by (auto simp: kahn_inv_def)
  obtain deg1 q1 where plain: "relax (adjacent es u) deg q = (deg1, q1)"
    by fastforce
  have le: "int (count_list (adjacent es u) x) \<le> deg x" for x
    using adjacent_le [OF u] by (simp add: deg)
  have le_sorted: "int (count_list (sort (adjacent es u)) x) \<le> deg x" for x
    using le by (metis count_mset mset_sort)
  have "relax_sorted (sort (adjacent es u)) deg q =
      (fst (relax (sort (adjacent es u)) deg q), sort (snd (relax (sort (adjacent es u)) deg q)))"
    using relax_sorted_relax [OF le_sorted, of q] q by (simp add: sorted_sort_id)
  then have "deg' = fst (relax (sort (adjacent es u)) deg q)" "q' = sort (snd (relax (sort (adjacent es u)) deg q))"
    using step by simp_all
  moreover have "fst (relax (sort (adjacent es u)) deg q) = deg1"
    "mset (snd (relax (sort (adjacent es u)) deg q)) = mset q1"
    using relax_permuted [OF le, of "sort (adjacent es u)" q] plain by simp_all
  ultimately have "deg' = deg1" "q' = sort q1"
    by (simp_all only: sort_mset [of "snd (relax (sort (adjacent es u)) deg q)" q1])
  moreover have "kahn_inv es ids q1 deg1 (order @ [u])"
    using kahn_inv_step [OF inv' _ tgt] plain by simp
  ultimately show ?thesis
    using kahn_inv_perm [of "sort q1" q1] by simp
qed

lemma kahn_scan_result:
  assumes "kahn_inv es ids q deg order" and "sorted q" and "snd ` set es \<subseteq> ids" and "finite ids"
    and "card ids \<le> length order + fuel"
  shows "\<exists>order'. kahn_scan fuel es q deg (length order) = Some (length order', pend es (set order')) \<and>
    kahn_inv es ids [] (pend es (set order')) order'"
  using assms
proof (induction fuel arbitrary: q deg order)
  case 0
  show ?case
  proof (cases q)
    case Nil
    then show ?thesis
      using 0(1) by (intro exI [of _ order]) (simp add: kahn_inv_def)
  next
    case (Cons u q')
    have "set (order @ q) \<subseteq> ids" "distinct (order @ q)"
      using 0(1) unfolding kahn_inv_def by (blast, blast)
    then have "length (order @ q) \<le> card ids"
      using 0(4) by (metis card_mono distinct_card)
    then show ?thesis
      using 0(5) Cons by simp
  qed
next
  case (Suc fuel)
  show ?case
  proof (cases q)
    case Nil
    then show ?thesis
      using Suc.prems(1) by (intro exI [of _ order]) (simp add: kahn_inv_def)
  next
    case (Cons u q')
    obtain deg1 q1 where step: "relax_sorted (sort (adjacent es u)) deg q' = (deg1, q1)"
      by fastforce
    have "kahn_inv es ids q1 deg1 (order @ [u])" "sorted q1"
      using kahn_scan_step [OF _ Suc.prems(3) _ step] Suc.prems(1,2) Cons by auto
    then show ?thesis
      using Suc.IH [of q1 deg1 "order @ [u]"] Suc.prems(3-5) Cons step by simp
  qed
qed

section \<open>The check for cycles\<close>

lemma producer_known: "producer_of specs d = Some r \<Longrightarrow> r \<in> js_rid ` set specs"
  by (auto simp: producer_of_def dest: find_some)

lemma spec_edges_known: "(a, b) \<in> set (spec_edges specs) \<Longrightarrow> a \<in> js_rid ` set specs \<and> b \<in> js_rid ` set specs"
  by (auto simp: spec_edges_def upstreams_def map_filter_def dest: producer_known)

lemma deps_of_spec_node: "i \<in> set ids \<Longrightarrow> deps_of (map (spec_node es) ids) i = adjacent es i"
  by (induction ids) (auto simp: deps_of_def node_at_def spec_node_def)

lemma bn_ids_spec_node [simp]: "map bn_id (map (spec_node es) ids) = ids" "bn_id (spec_node es i) = i"
  by (simp_all add: spec_node_def comp_def)

lemma dep_edges_spec_node:
  assumes "\<And>a b. (a, b) \<in> set es \<Longrightarrow> a \<in> set ids \<and> b \<in> set ids"
  shows "dep_edges (map (spec_node es) ids) = set es"
  using assms unfolding dep_edges_def bn_ids_spec_node
  by (auto simp: deps_of_spec_node set_adjacent)

text \<open>What the scan leaves contains a cycle, and the search from it finds one.\<close>

lemma residual_cycle:
  assumes R: "R \<noteq> {}" and pred: "\<And>x. x \<in> R \<Longrightarrow> \<exists>u \<in> R. (u, x) \<in> set es"
  shows "\<exists>a \<in> R. (a, a) \<in> (set es)\<^sup>+"
proof -
  let ?es = "filter (\<lambda>(u, x). u \<in> R \<and> x \<in> R) es"
  have "\<not> acyclic (set ?es)"
  proof
    assume "acyclic (set ?es)"
    from acyclic_source [OF this R] obtain x where x: "x \<in> R" "\<And>u. (u, x) \<in> set ?es \<Longrightarrow> u \<notin> R"
      by blast
    obtain u where "u \<in> R" "(u, x) \<in> set es"
      using pred [OF x(1)] by blast
    then have "(u, x) \<in> set ?es" using x(1) by simp
    with x(2) \<open>u \<in> R\<close> show False by blast
  qed
  then obtain a where a: "(a, a) \<in> (set ?es)\<^sup>+"
    by (auto simp: acyclic_def)
  then have "a \<in> R"
    by (auto dest: tranclD)
  moreover have "(a, a) \<in> (set es)\<^sup>+"
    using a by (rule trancl_mono) auto
  ultimately show ?thesis by blast
qed

lemma find_cycle_path_some:
  assumes known: "\<And>a b. (a, b) \<in> set es \<Longrightarrow> a \<in> set ids \<and> b \<in> set ids"
    and a: "a \<in> set ids" "0 < deg a" "(a, a) \<in> (set es)\<^sup>+"
  shows "\<exists>c. find_cycle_path es ids deg = Some c \<and> is_cycle (set es) c"
proof -
  let ?nodes = "map (spec_node es) ids"
  note edges = dep_edges_spec_node [OF known]
  have "settled_set (dep_edges ?nodes) (set [])"
    by (simp add: settled_set_empty)
  note post = exec_cycle_loop_post [OF this, of "map (spec_node es) (sort (filter (\<lambda>i. 0 < deg i) ids))",
      folded find_cycle_path_def, unfolded edges bn_ids_spec_node]
  show ?thesis
  proof (cases "find_cycle_path es ids deg")
    case None
    then obtain B where "settled_set (set es) B" "a \<in> B"
      using post a edges by auto
    with a(3) show ?thesis by (simp add: settled_set_def)
  next
    case (Some c)
    with post edges show ?thesis by simp
  qed
qed

lemma initial_scan:
  assumes "snd ` set es \<subseteq> ids" and "ids = set xs" and "distinct xs"
  shows "kahn_inv es ids (sort (filter (\<lambda>i. in_degree es i = 0) xs)) (in_degree es) []"
  using assms by (auto simp: kahn_inv_def in_degree_pend)

lemma detect_cycles_core:
  assumes dist: "distinct (map js_rid specs)"
  shows "detect_cycles specs \<noteq> ScanUnfinished"
    and "detect_cycles specs = NoCycle \<longleftrightarrow> acyclic (set (spec_edges specs))"
    and "detect_cycles specs = CycleFound c \<Longrightarrow> is_cycle (set (spec_edges specs)) c"
proof -
  let ?es = "spec_edges specs" and ?ids = "map js_rid specs"
  have ids: "remdups ?ids = ?ids"
    using dist by (simp add: distinct_remdups_id)
  have known: "(a, b) \<in> set ?es \<Longrightarrow> a \<in> set ?ids \<and> b \<in> set ?ids" for a b
    using spec_edges_known [of a b specs] by simp
  have tgt: "snd ` set ?es \<subseteq> set ?ids" "fst ` set ?es \<subseteq> set ?ids"
    using known by auto
  have all: "detect_cycles specs \<noteq> ScanUnfinished \<and> (detect_cycles specs = NoCycle \<longleftrightarrow> acyclic (set ?es)) \<and>
    (\<forall>c. detect_cycles specs = CycleFound c \<longrightarrow> is_cycle (set ?es) c)"
  proof (cases "find (\<lambda>(a, b). a = b) ?es")
    case (Some e)
    obtain a b where ab: "e = (a, b)" by fastforce
    have "e \<in> set ?es" "fst e = snd e"
      using find_some [OF Some] by (auto split: prod.splits)
    then have e: "find (\<lambda>(a, b). a = b) ?es = Some (a, a)" "(a, a) \<in> set ?es"
      using Some ab by auto
    then have "detect_cycles specs = CycleFound [a, a]" "is_cycle (set ?es) [a, a]"
      by (simp_all add: detect_cycles_def Let_def is_cycle_def)
    moreover have "\<not> acyclic (set ?es)"
      using e(2) by (auto simp: acyclic_def)
    ultimately show ?thesis by simp
  next
    case None
    have fuel: "card (set ?ids) \<le> length ([] :: string list) + length (remdups ?ids)"
      using dist unfolding ids by (simp only: distinct_card list.size add_0)
    have sorted: "sorted (sort (filter (\<lambda>i. in_degree ?es i = 0) ?ids))"
      by simp
    obtain order where scan: "kahn_scan (length (remdups ?ids)) ?es (sort (filter (\<lambda>i. in_degree ?es i = 0) ?ids))
        (in_degree ?es) 0 = Some (length order, pend ?es (set order))"
      and inv: "kahn_inv ?es (set ?ids) [] (pend ?es (set order)) order"
      using kahn_scan_result [OF initial_scan [OF tgt(1) refl dist] sorted tgt(1) finite_set fuel] by auto
    have order: "distinct order" "set order = {x \<in> set ?ids. pend ?es (set order) x = 0}" "ordered ?es order"
      using inv by (simp_all add: kahn_inv_def)
    then have sub: "set order \<subseteq> set ?ids"
      by blast
    have len: "length order = length specs \<longleftrightarrow> set order = set ?ids"
      using order(1) dist sub by (metis card_subset_eq distinct_card finite_set length_map)
    show ?thesis
    proof (cases "set order = set ?ids")
      case True
      then have "detect_cycles specs = NoCycle"
        using None scan len by (simp add: detect_cycles_def Let_def ids)
      moreover have "acyclic (set ?es)"
        using ordered_acyclic [OF order(3)] tgt(1) True by simp
      ultimately show ?thesis by simp
    next
      case False
      then have not: "length order \<noteq> length specs"
        by (simp add: len)
      let ?R = "set ?ids - set order"
      have pos: "0 < pend ?es (set order) x" if "x \<in> ?R" for x
        using that order(2) pend_nonneg [of ?es "set order" x] by (auto simp: order.strict_iff_order)
      have "\<exists>u \<in> ?R. (u, x) \<in> set ?es" if "x \<in> ?R" for x
        using pos [OF that] pend_0_iff [of ?es "set order" x] known by fastforce
      moreover have "?R \<noteq> {}"
        using False sub by blast
      ultimately obtain a where a: "a \<in> ?R" "(a, a) \<in> (set ?es)\<^sup>+"
        using residual_cycle by metis
      obtain c where c: "find_cycle_path ?es ?ids (pend ?es (set order)) = Some c" "is_cycle (set ?es) c"
        using find_cycle_path_some [of ?es ?ids a "pend ?es (set order)"] known pos [OF a(1)] a by blast
      have "detect_cycles specs = CycleFound c"
        using None scan not c(1) by (simp add: detect_cycles_def Let_def ids)
      moreover have "\<not> acyclic (set ?es)"
        using a(2) by (auto simp: acyclic_def)
      ultimately show ?thesis
        using c(2) by simp
    qed
  qed
  show "detect_cycles specs \<noteq> ScanUnfinished" "detect_cycles specs = NoCycle \<longleftrightarrow> acyclic (set ?es)"
    "detect_cycles specs = CycleFound c \<Longrightarrow> is_cycle (set ?es) c"
    using all by simp_all
qed

section \<open>The plan of stages\<close>

text \<open>The edges from each dependency to the specs that wait for it.\<close>

definition wait_edges :: "(string \<Rightarrow> string list) \<Rightarrow> string list \<Rightarrow> edge list" where
  "wait_edges deps ids = concat (map (\<lambda>x. map (\<lambda>u. (u, x)) (deps x)) ids)"

lemma wait_edges_iff: "(u, x) \<in> set (wait_edges deps ids) \<longleftrightarrow> x \<in> set ids \<and> u \<in> set (deps x)"
  by (auto simp: wait_edges_def)

definition round_inv ::
  "(string \<Rightarrow> string list) \<Rightarrow> string list \<Rightarrow> string list list \<Rightarrow> string list \<Rightarrow> bool" where
  "round_inv deps ids stages remaining \<longleftrightarrow>
     distinct (concat stages @ remaining) \<and> set (concat stages @ remaining) = set ids \<and>
     levels (wait_edges deps ids) stages \<and>
     (stages \<noteq> [] \<longrightarrow> (\<forall>x \<in> set remaining. \<not> set (deps x) \<subseteq> set (concat (butlast stages))))"

lemma round_inv_step:
  assumes inv: "round_inv deps ids stages remaining"
    and stage: "stage = sort (filter (\<lambda>r. set (deps r) \<subseteq> set (concat stages)) remaining)" "stage \<noteq> []"
  shows "round_inv deps ids (stages @ [stage]) (filter (\<lambda>r. r \<notin> set stage) remaining)"
proof -
  have dist: "distinct (concat stages @ remaining)" and ids: "set (concat stages @ remaining) = set ids"
    and lev: "levels (wait_edges deps ids) stages"
    and late: "stages \<noteq> [] \<longrightarrow> (\<forall>x \<in> set remaining. \<not> set (deps x) \<subseteq> set (concat (butlast stages)))"
    using inv by (simp_all add: round_inv_def)
  have mem: "x \<in> set stage \<longleftrightarrow> x \<in> set remaining \<and> set (deps x) \<subseteq> set (concat stages)" for x
    by (simp add: stage(1))
  have "distinct stage"
    using dist by (simp add: stage(1))
  then have "distinct (concat (stages @ [stage]) @ filter (\<lambda>r. r \<notin> set stage) remaining)"
    using dist mem by auto
  moreover have "set (concat (stages @ [stage]) @ filter (\<lambda>r. r \<notin> set stage) remaining) = set ids"
    unfolding ids [symmetric] using mem by auto
  moreover have "levels (wait_edges deps ids) (stages @ [stage])"
  proof (rule levels_snoc [OF lev stage(2)])
    show "sorted stage" by (simp add: stage(1))
    show "u \<in> set (concat stages)" if "x \<in> set stage" "(u, x) \<in> set (wait_edges deps ids)" for x u
      using that mem by (auto simp: wait_edges_iff)
    show "\<exists>u \<in> set (last stages). (u, x) \<in> set (wait_edges deps ids)" if "stages \<noteq> []" "x \<in> set stage" for x
    proof -
      have split: "concat stages = concat (butlast stages) @ last stages"
        using that(1) by (metis append_butlast_last_id concat_append concat.simps append_Nil2)
      have "x \<in> set ids"
        using mem that(2) ids by auto
      moreover have "\<not> set (deps x) \<subseteq> set (concat (butlast stages))"
        using late that(1,2) mem by blast
      moreover have "set (deps x) \<subseteq> set (concat (butlast stages)) \<union> set (last stages)"
        using mem that(2) by (simp only: split set_append)
      ultimately show ?thesis
        unfolding wait_edges_iff by blast
    qed
  qed
  moreover have "\<forall>x \<in> set (filter (\<lambda>r. r \<notin> set stage) remaining). \<not> set (deps x) \<subseteq> set (concat (butlast (stages @ [stage])))"
    using mem by auto
  ultimately show ?thesis
    unfolding round_inv_def by blast
qed

lemma stage_rounds_result:
  assumes "round_inv deps ids stages remaining"
  shows "\<exists>rest. round_inv deps ids (stages @ stage_rounds deps remaining (concat stages)) rest \<and>
    (\<forall>x \<in> set rest. \<not> set (deps x) \<subseteq> set (concat (stages @ stage_rounds deps remaining (concat stages))))"
  using assms
proof (induction "length remaining" arbitrary: stages remaining rule: less_induct)
  case less
  define stage where "stage = sort (filter (\<lambda>r. set (deps r) \<subseteq> set (concat stages)) remaining)"
  show ?case
  proof (cases "stage = []")
    case True
    then have "filter (\<lambda>r. set (deps r) \<subseteq> set (concat stages)) remaining = []"
      unfolding stage_def by (metis set_empty set_sort)
    then have "\<forall>x \<in> set remaining. \<not> set (deps x) \<subseteq> set (concat stages)"
      by (simp only: filter_empty_conv)
    moreover have "stage_rounds deps remaining (concat stages) = []"
      using True by (simp add: stage_rounds.simps [of deps remaining] stage_def)
    ultimately show ?thesis
      using less(2) by auto
  next
    case False
    let ?rest = "filter (\<lambda>r. r \<notin> set stage) remaining"
    have "set stage \<subseteq> set remaining"
      by (auto simp: stage_def)
    then obtain x where "x \<in> set remaining" "x \<in> set stage"
      using False by (meson list.set_sel(1) subset_iff)
    then have "length ?rest < length remaining"
      by (intro length_filter_less) auto
    moreover have "round_inv deps ids (stages @ [stage]) ?rest"
      by (rule round_inv_step [OF less(2) stage_def False])
    moreover have "stage_rounds deps remaining (concat stages) = stage # stage_rounds deps ?rest (concat (stages @ [stage]))"
      using False by (simp add: stage_rounds.simps [of deps remaining] stage_def)
    ultimately show ?thesis
      using less(1) [of ?rest "stages @ [stage]"] by simp
  qed
qed

lemma stage_rounds_levels:
  assumes dist: "distinct ids" and known: "\<And>x. x \<in> set ids \<Longrightarrow> set (deps x) \<subseteq> set ids"
    and acyc: "acyclic (set (wait_edges deps ids))"
  shows "levels (wait_edges deps ids) (stage_rounds deps ids []) \<and> distinct (concat (stage_rounds deps ids [])) \<and>
    set (concat (stage_rounds deps ids [])) = set ids"
proof -
  let ?stages = "stage_rounds deps ids []"
  have "round_inv deps ids [] ids"
    using dist by (simp add: round_inv_def levels_def)
  from stage_rounds_result [OF this] obtain rest where inv: "round_inv deps ids ?stages rest"
    and wait: "\<And>x. x \<in> set rest \<Longrightarrow> \<not> set (deps x) \<subseteq> set (concat ?stages)"
    by auto
  have ids: "set (concat ?stages) \<union> set rest = set ids"
    using inv by (simp add: round_inv_def)
  have "rest = []"
  proof (rule ccontr)
    assume "rest \<noteq> []"
    then have "set rest \<noteq> {}" by simp
    from acyclic_source [OF acyc this]
    obtain x where x: "x \<in> set rest" "\<And>u. (u, x) \<in> set (wait_edges deps ids) \<Longrightarrow> u \<notin> set rest"
      by blast
    have "x \<in> set ids"
      using x(1) ids by blast
    then have "set (deps x) \<subseteq> set (concat ?stages)"
      using x(2) known ids by (fastforce simp: wait_edges_iff)
    with wait [OF x(1)] show False by blast
  qed
  then show ?thesis
    using inv by (simp add: round_inv_def)
qed

text \<open>The dependencies of the plan are the edges of the check, without the loops.\<close>

lemma map_of_specs:
  assumes "distinct (map js_rid specs)" and "s \<in> set specs"
  shows "map_of (rev (map (\<lambda>s. (js_rid s, f s)) specs)) (js_rid s) = Some (f s)"
proof (rule map_of_is_SomeI)
  show "distinct (map fst (rev (map (\<lambda>s. (js_rid s, f s)) specs)))"
    using assms(1) by (simp add: comp_def flip: rev_map)
  show "(js_rid s, f s) \<in> set (rev (map (\<lambda>s. (js_rid s, f s)) specs))"
    using assms(2) by auto
qed

lemma fan_out_core:
  fixes job_id :: "uuid \<Rightarrow> string \<Rightarrow> uuid" and build :: uuid and opened :: "opened_tx list"
  assumes dist: "distinct (map js_rid specs)" and acyc: "acyclic (set (spec_edges specs))"
  defines "stages \<equiv> snd (build_fan_out_plan job_id build specs opened)"
  shows "distinct (concat stages) \<and> set (concat stages) = set (map js_rid specs) \<and>
    levels (map prod.swap (spec_edges specs)) stages"
proof -
  let ?pairs = "map (\<lambda>s. (js_rid s, dependencies_of specs s)) specs"
  define deps where "deps = (\<lambda>r. case map_of (rev ?pairs) r of None \<Rightarrow> [] | Some ds \<Rightarrow> ds)"
  let ?ids = "map js_rid specs"
  have fst: "map fst ?pairs = ?ids" by (simp add: comp_def)
  have stages: "stages = stage_rounds deps ?ids []"
    using dist unfolding stages_def build_fan_out_plan_def Let_def snd_conv fan_out_stages_def deps_def fst
    by (simp only: distinct_remdups_id)
  have noloop: "(a, a) \<notin> set (spec_edges specs)" for a
    using acyc by (auto simp: acyclic_def)
  have edge: "(js_rid s, u) \<in> set (spec_edges specs) \<longleftrightarrow> u \<in> set (upstreams specs s)" if "s \<in> set specs" for s u
    using that dist by (auto simp: spec_edges_def distinct_map inj_on_def)
  have deps: "set (deps (js_rid s)) = {u. (js_rid s, u) \<in> set (spec_edges specs)}" if "s \<in> set specs" for s
    using edge [OF that] noloop map_of_specs [OF dist that, of "dependencies_of specs"]
    by (auto simp: deps_def dependencies_of_def)
  have wait: "set (wait_edges deps ?ids) = set (map prod.swap (spec_edges specs))"
    using deps spec_edges_known by (fastforce simp: wait_edges_iff)
  then have conv: "set (wait_edges deps ?ids) = (set (spec_edges specs))\<inverse>"
    by auto
  have "acyclic (set (wait_edges deps ?ids))"
    using acyc unfolding conv by simp
  moreover have "set (deps x) \<subseteq> set ?ids" if "x \<in> set ?ids" for x
    using that deps spec_edges_known by fastforce
  ultimately have "levels (wait_edges deps ?ids) stages \<and> distinct (concat stages) \<and> set (concat stages) = set ?ids"
    unfolding stages using stage_rounds_levels [OF dist] by blast
  then show ?thesis
    unfolding levels_def wait by blast
qed

section \<open>Fresh jobs\<close>

lemma stale_pass_stable:
  "\<not> snd (stale_pass js fresh) \<Longrightarrow>
     fst (stale_pass js fresh) = fresh \<and> (\<forall>(r, ds) \<in> set js. fresh r \<longrightarrow> list_all fresh ds)"
  by (induction js fresh rule: stale_pass.induct) (auto split: if_splits)

text \<open>A set of jobs that is fresh and closed under dependencies survives every pass.\<close>

lemma stale_pass_keeps:
  "\<forall>(r, ds) \<in> set js. r \<in> C \<longrightarrow> set ds \<subseteq> C \<Longrightarrow> \<forall>x \<in> C. fresh x \<Longrightarrow> \<forall>x \<in> C. fst (stale_pass js fresh) x"
proof (induction js fresh rule: stale_pass.induct)
  case (2 r deps js fresh)
  show ?case
  proof (cases "fresh r \<and> \<not> list_all fresh deps")
    case True
    have "r \<notin> C"
      using True 2(3,4) by (auto simp: list_all_iff)
    then have "\<forall>x \<in> C. (fresh(r := False)) x"
      using 2(4) by auto
    then have "\<forall>x \<in> C. fst (stale_pass js (fresh(r := False))) x"
      using 2(3) by (intro 2(1) [OF True]) simp_all
    then show ?thesis
      using True by simp
  next
    case False
    have "stale_pass ((r, deps) # js) fresh = stale_pass js fresh"
      unfolding stale_pass.simps if_not_P [OF False] ..
    then show ?thesis
      using 2(2) [OF False] 2(3,4) by simp
  qed
qed simp

lemma propagate_stale_core:
  "(\<forall>x. propagate_stale js fresh x \<longrightarrow> fresh x) \<and>
   (\<forall>(r, ds) \<in> set js. propagate_stale js fresh r \<longrightarrow> list_all (propagate_stale js fresh) ds) \<and>
   (\<forall>C. (\<forall>(r, ds) \<in> set js. r \<in> C \<longrightarrow> set ds \<subseteq> C) \<longrightarrow> (\<forall>x \<in> C. fresh x) \<longrightarrow> (\<forall>x \<in> C. propagate_stale js fresh x))"
proof (induction js fresh rule: propagate_stale.induct)
  case (1 js fresh)
  obtain fresh' changed where pass: "stale_pass js fresh = (fresh', changed)" by fastforce
  have le: "fresh' x \<Longrightarrow> fresh x" for x
    using stale_pass_le [of js fresh x] pass by simp
  have keep: "\<forall>(r, ds) \<in> set js. r \<in> C \<longrightarrow> set ds \<subseteq> C \<Longrightarrow> \<forall>x \<in> C. fresh x \<Longrightarrow> \<forall>x \<in> C. fresh' x" for C
    using stale_pass_keeps [of js C fresh] pass by simp
  show ?case
  proof (cases changed)
    case True
    have step: "propagate_stale js fresh = propagate_stale js fresh'"
      using pass True by (simp add: propagate_stale.simps [of js fresh])
    note IH = 1 [OF pass [symmetric] True, folded step]
    have "\<forall>x. propagate_stale js fresh x \<longrightarrow> fresh x"
      using IH le by blast
    moreover have "\<forall>x \<in> C. propagate_stale js fresh x"
      if C: "\<forall>(r, ds) \<in> set js. r \<in> C \<longrightarrow> set ds \<subseteq> C" "\<forall>x \<in> C. fresh x" for C
      using IH keep [OF C] C(1) by blast
    ultimately show ?thesis
      using IH by blast
  next
    case False
    have "propagate_stale js fresh = fresh'"
      using pass False by (simp add: propagate_stale.simps [of js fresh])
    moreover have "fresh' = fresh" "\<forall>(r, ds) \<in> set js. fresh r \<longrightarrow> list_all fresh ds"
      using stale_pass_stable [of js fresh] pass False by simp_all
    ultimately show ?thesis by simp
  qed
qed

end
