(* ===== verification/Build_Invariants.thy ===== *)
theory Build_Invariants
  imports Build_Abort Resolver_Proofs
begin

text \<open>
  What the creation and the abort of a build leave alone. A predicate on the tables that survives the few kinds of
  writes the statements make (the locales below) survives every operation, whatever statements fail. The instances are
  the facts about locks, rows and faults that the properties of builds rest on.
\<close>

definition ends_in :: "('s \<Rightarrow> bool) \<Rightarrow> 's \<times> 'r \<Rightarrow> bool" where
  "ends_in P r \<longleftrightarrow> P (fst r)"

lemma ends_in_pair: "P s \<Longrightarrow> ends_in P (s, r)"
  by (simp add: ends_in_def)

lemma ends_in_and_do:
  "ends_in P r \<Longrightarrow> (\<And>y s. P s \<Longrightarrow> ends_in P (f y s)) \<Longrightarrow> ends_in P (and_do r f)"
  by (auto simp: ends_in_def and_do_def split: prod.split sum.split)

lemma ends_in_if: "ends_in P a \<Longrightarrow> ends_in P b \<Longrightarrow> ends_in P (if c then a else b)"
  by simp

lemma ends_in_option:
  "ends_in P a \<Longrightarrow> (\<And>y. ends_in P (b y)) \<Longrightarrow> ends_in P (case x of None \<Rightarrow> a | Some y \<Rightarrow> b y)"
  by (simp split: option.split)

lemma ends_in_sum:
  "(\<And>e. ends_in P (a e)) \<Longrightarrow> (\<And>y. ends_in P (b y)) \<Longrightarrow> ends_in P (case x of Inl e \<Rightarrow> a e | Inr y \<Rightarrow> b y)"
  by (simp split: sum.split)

lemma ends_in_result:
  "ends_in P r \<Longrightarrow> (\<And>s e. P s \<Longrightarrow> ends_in P (a s e)) \<Longrightarrow> (\<And>s y. P s \<Longrightarrow> ends_in P (b s y)) \<Longrightarrow>
     ends_in P (case r of (s, Inl e) \<Rightarrow> a s e | (s, Inr y) \<Rightarrow> b s y)"
  by (auto simp: ends_in_def split: prod.split sum.split)

lemma ends_in_prod: "(\<And>a b. ends_in P (f a b)) \<Longrightarrow> ends_in P (case x of (a, b) \<Rightarrow> f a b)"
  by (simp split: prod.split)

lemma ends_in_fst: "ends_in P r \<Longrightarrow> P (fst r)"
  by (simp add: ends_in_def)

lemmas ends_in_rules = ends_in_pair ends_in_and_do ends_in_if ends_in_option ends_in_sum

lemma run_sql_Inr:
  assumes "run_sql f db = (db', Inr r)"
  obtains u where "f db = (u, r)" "db' = u\<lparr>pg_clock := Suc (pg_clock db)\<rparr>"
  using assms by (auto simp: run_sql_def pg_exec_def Let_def split: option.splits prod.splits sum.splits)

lemma run_sql_ok:
  "no_faults db \<Longrightarrow> run_sql f db = (case f db of (u, r) \<Rightarrow> (u\<lparr>pg_clock := Suc (pg_clock db)\<rparr>, Inr r))"
  by (simp add: run_sql_def pg_exec_ok split: prod.split)

section \<open>Invariants of the creation\<close>

locale opening_invariant =
  fixes P :: "build_db \<Rightarrow> bool" and build :: uuid
  assumes clock: "P db \<Longrightarrow> pg_clock db \<le> n \<Longrightarrow> P (db\<lparr>pg_clock := n\<rparr>)"
    and txs: "P db \<Longrightarrow> P (db\<lparr>bd_txs := ts\<rparr>)"
    and build_row: "P db \<Longrightarrow> P (db\<lparr>bd_builds := (bd_builds db)(build \<mapsto> row)\<rparr>)"
    and idem_keys: "P db \<Longrightarrow> P (db\<lparr>bd_keys := ks\<rparr>)"
begin

lemma run_keeps:
  assumes "P db" and "P (fst (f db))" and "pg_clock (fst (f db)) = pg_clock db"
  shows "ends_in P (run_sql f db)"
proof (cases "pg_fault db (pg_clock db)")
  case None
  then show ?thesis
    using assms clock [of "fst (f db)" "Suc (pg_clock db)"]
    by (cases "f db") (simp add: ends_in_def run_sql_def pg_exec_def)
next
  case (Some m)
  then show ?thesis
    using assms clock [of db "Suc (pg_clock db)"] by (simp add: ends_in_def run_sql_def pg_exec_def)
qed

lemma read_keeps: "P db \<Longrightarrow> ends_in P (run_sql (\<lambda>db. (db, g db)) db)"
  by (rule run_keeps) simp_all

lemma lookup_on_branch_keeps: "P db \<Longrightarrow> ends_in P (lookup_on_branch p out b db)"
  unfolding lookup_on_branch_def by (intro ends_in_rules read_keeps)

lemma lookup_spec_keeps: "P db \<Longrightarrow> ends_in P (lookup_spec p out bs db)"
proof (induction bs arbitrary: db)
  case (Cons b bs)
  show ?case
    unfolding lookup_spec.simps Let_def by (intro ends_in_rules lookup_on_branch_keeps Cons)
qed (simp add: ends_in_def)

lemma load_loop_keeps: "P db \<Longrightarrow> ends_in P (load_loop args outs db)"
proof (induction outs arbitrary: db)
  case (Cons out outs)
  show ?case
    unfolding load_loop.simps Let_def by (intro ends_in_rules lookup_spec_keeps Cons)
qed (simp add: ends_in_def)

lemma load_job_specs_keeps: "P db \<Longrightarrow> ends_in P (load_job_specs args db)"
  unfolding load_job_specs_def by (intro ends_in_rules load_loop_keeps)

lemma resolve_one_input_keeps: "P db \<Longrightarrow> ends_in P (resolve_one_input b i db)"
  unfolding resolve_one_input_def list_branches_def view_schema_def by (intro ends_in_rules read_keeps)

lemma inputs_loop_keeps: "P db \<Longrightarrow> ends_in P (inputs_loop b internal seen is db)"
proof (induction "is" arbitrary: db seen)
  case (Cons i "is")
  show ?case
    unfolding inputs_loop.simps by (intro ends_in_rules resolve_one_input_keeps Cons)
qed (simp add: ends_in_def)

lemma validate_inputs_keeps: "P db \<Longrightarrow> ends_in P (validate_inputs b specs db)"
  unfolding validate_inputs_def by (rule inputs_loop_keeps)

lemma has_upstream_keeps: "P db \<Longrightarrow> ends_in P (has_upstream_in_progress ins self db)"
  unfolding has_upstream_in_progress_def by (intro ends_in_rules read_keeps)

lemma open_transaction_keeps: "P db \<Longrightarrow> ends_in P (open_transaction env d b db)"
  unfolding open_transaction_def
  by (intro ends_in_rules run_keeps) (simp_all add: txs)

lemma open_build_keeps: "P db \<Longrightarrow> bv_build env = build \<Longrightarrow> ends_in P (open_build env args db)"
  unfolding open_build_def
  by (rule run_keeps) (simp_all add: build_row split: option.split)

lemma claim_keeps: "P db \<Longrightarrow> ends_in P (claim_idempotency key b db)"
  unfolding claim_idempotency_def
  by (intro ends_in_rules run_keeps) (simp_all add: idem_keys split: option.split)

lemma release_keeps: "P db \<Longrightarrow> P (release_idempotency key db)"
  unfolding release_idempotency_def by (rule ends_in_fst, rule run_keeps) (simp_all add: idem_keys)

lemma map_row_keeps:
  assumes "P db"
  shows "P (db\<lparr>bd_builds := (bd_builds db)(build := map_option f (bd_builds db build))\<rparr>)"
proof (cases "bd_builds db build")
  case None
  then have "(bd_builds db)(build := map_option f (bd_builds db build)) = bd_builds db"
    by (simp add: fun_upd_idem)
  then show ?thesis using assms by simp
qed (simp add: assms build_row)

lemma mark_build_failed_keeps: "P db \<Longrightarrow> P (mark_build_failed build reason db)"
  unfolding mark_build_failed_def by (rule ends_in_fst, rule run_keeps) (simp_all add: map_row_keeps)

lemma previous_fresh_keeps: "P db \<Longrightarrow> ends_in P (previous_fresh_job_exists r l s outs db)"
  unfolding previous_fresh_job_exists_def by (intro ends_in_rules read_keeps)

lemma fresh_loop_keeps: "P db \<Longrightarrow> ends_in P (fresh_loop env specs views js db)"
proof (induction js arbitrary: db)
  case (Cons j js)
  show ?case
    unfolding fresh_loop.simps by (intro ends_in_rules previous_fresh_keeps Cons)
qed (simp add: ends_in_def)

text \<open>What an accepted or failed creation has run.\<close>

lemma create_accepted:
  assumes "create_build text env args subject header db = (db', Accepted rb)" and "P db" and "bv_build env = build"
  shows "\<exists>db1 db2. P db1 \<and> bd_builds db1 build \<noteq> None \<and> resolve_build env args db1 = (db2, Inr rb) \<and> persist_resolved_build env rb db2 = (db', Inr ())"
proof -
  have opened: "\<exists>db1 db2. P db1 \<and> bd_builds db1 build \<noteq> None \<and> resolve_build env args db1 = (db2, Inr rb) \<and> persist_resolved_build env rb db2 = (db', Inr ())"
    if "P db0" "create_opened text env args key db0 = (db', Accepted rb)" for db0 key
  proof -
    obtain db1 r where o: "open_build env args db0 = (db1, r)" by fastforce
    have "P db1"
      using open_build_keeps [OF that(1) assms(3), of args] o by (simp add: ends_in_def)
    moreover have "bd_builds db1 build \<noteq> None" if "r = Inr u" for u
      using o that assms(3) unfolding open_build_def
      by (auto elim!: run_sql_Inr split: option.splits)
    ultimately show ?thesis
      using that(2) o unfolding create_opened_def
      by (cases r) (auto split: prod.splits sum.splits option.splits)
  qed
  show ?thesis
    using assms(1,2) opened claim_keeps [OF assms(2), of "(subject, trim_space header)" "bv_build env"]
    unfolding create_build_def Let_def ends_in_def
    by (auto split: option.splits if_splits prod.splits sum.splits)
qed

lemma create_failed:
  assumes "create_build text env args subject header db = (db', ResolutionFailed e)" and "P db" and "bv_build env = build"
  shows "\<exists>db1 db2. P db1 \<and> bd_builds db1 build \<noteq> None \<and> resolve_build env args db1 = (db2, Inl e) \<and>
    db' = mark_build_failed build (text e) db2"
proof -
  have opened: "\<exists>db1 db2. P db1 \<and> bd_builds db1 build \<noteq> None \<and> resolve_build env args db1 = (db2, Inl e) \<and>
      db' = mark_build_failed build (text e) db2"
    if "P db0" "create_opened text env args key db0 = (db', ResolutionFailed e)" for db0 key
  proof -
    obtain db1 r where o: "open_build env args db0 = (db1, r)" by fastforce
    have "P db1"
      using open_build_keeps [OF that(1) assms(3), of args] o by (simp add: ends_in_def)
    moreover have "bd_builds db1 build \<noteq> None" if "r = Inr u" for u
      using o that assms(3) unfolding open_build_def
      by (auto elim!: run_sql_Inr split: option.splits)
    ultimately show ?thesis
      using that(2) o assms(3) unfolding create_opened_def
      by (cases r) (auto split: prod.splits sum.splits option.splits)
  qed
  show ?thesis
    using assms(1,2) opened claim_keeps [OF assms(2), of "(subject, trim_space header)" "bv_build env"]
    unfolding create_build_def Let_def ends_in_def
    by (auto split: option.splits if_splits prod.splits sum.splits)
qed

end

text \<open>The rows of the plan may change, too.\<close>

locale creation_invariant = opening_invariant +
  assumes jobs: "P db \<Longrightarrow> P (db\<lparr>bd_jobs := js\<rparr>)"
    and outputs: "P db \<Longrightarrow> P (db\<lparr>bd_outputs := os\<rparr>)"
    and deps: "P db \<Longrightarrow> P (db\<lparr>bd_deps := es\<rparr>)"
begin

lemma upsert_output_keeps: "P db \<Longrightarrow> ends_in P (run_sql (upsert_output j d t) db)"
  by (rule run_keeps) (simp_all add: upsert_output_def outputs)

lemma outputs_loop_keeps: "P db \<Longrightarrow> ends_in P (outputs_loop j opened ts db)"
proof (induction ts arbitrary: db)
  case (Cons t ts)
  show ?case
    unfolding outputs_loop.simps by (intro ends_in_rules upsert_output_keeps Cons)
qed (simp add: ends_in_def)

lemma upsert_job_keeps: "P db \<Longrightarrow> ends_in P (run_sql (upsert_job row) db)"
  by (rule run_keeps) (simp_all add: upsert_job_def jobs)

lemma jobs_loop_keeps: "P db \<Longrightarrow> ends_in P (jobs_loop env rb fresh js db)"
proof (induction js arbitrary: db)
  case (Cons j js)
  show ?case
    unfolding jobs_loop.simps by (intro ends_in_rules upsert_job_keeps outputs_loop_keeps Cons)
qed (simp add: ends_in_def)

lemma deps_loop_keeps: "P db \<Longrightarrow> ends_in P (deps_loop es db)"
proof (induction es arbitrary: db)
  case (Cons e es)
  have "ends_in P (run_sql (\<lambda>db. (db\<lparr>bd_deps := (if e \<in> set (bd_deps db) then bd_deps db else bd_deps db @ [e])\<rparr>, ())) db)"
    using Cons.prems by (intro run_keeps) (simp_all add: deps)
  then show ?case
    unfolding deps_loop.simps by (intro ends_in_rules Cons)
qed (simp add: ends_in_def)

lemma persist_statements_keeps:
  assumes "P db" and "rb_build rb = build"
  shows "ends_in P (persist_statements env rb db)"
proof -
  have "ends_in P (run_sql (update_build_sql rb) db)"
    unfolding update_build_sql_def assms(2)
    using assms(1) by (intro run_keeps) (simp_all only: fst_conv map_row_keeps, simp)
  then show ?thesis
    unfolding persist_statements_def
    by (intro ends_in_rules fresh_loop_keeps jobs_loop_keeps deps_loop_keeps)
qed

end

text \<open>The clock never goes back.\<close>

interpretation ticks: creation_invariant "\<lambda>db. k \<le> pg_clock db" build for k build
  by unfold_locales auto

context creation_invariant begin

lemma persist_keeps:
  assumes "P db" and "rb_build rb = build"
  shows "ends_in P (persist_resolved_build env rb db)"
  unfolding persist_resolved_build_def
proof (rule ends_in_and_do [OF read_keeps [OF assms(1)]])
  fix y s
  assume s: "P s"
  let ?r = "and_do (persist_statements env rb s) (\<lambda>_ db2. run_sql (\<lambda>db. (db, ())) db2)"
  have "P (fst ?r)"
    by (rule ends_in_fst, rule ends_in_and_do, rule persist_statements_keeps [OF s assms(2)]) (rule read_keeps)
  moreover have "pg_clock s \<le> pg_clock (fst ?r)"
    by (rule ends_in_fst, rule ends_in_and_do, rule ticks.persist_statements_keeps [OF order.refl assms(2)])
      (rule ticks.read_keeps)
  ultimately show "ends_in P (case ?r of (db3, Inl e) \<Rightarrow> (s\<lparr>pg_clock := pg_clock db3\<rparr>, Inl e)
      | (db3, Inr _) \<Rightarrow> (db3, Inr ()))"
    using clock [OF s] by (cases ?r) (auto simp: ends_in_def split: sum.split)
qed

end

section \<open>Invariants of the locks\<close>

text \<open>A free lock may be taken by the build.\<close>

locale resolving_invariant = opening_invariant +
  assumes lock: "P db \<Longrightarrow> bd_locks db d = None \<Longrightarrow> P (db\<lparr>bd_locks := (bd_locks db)(d \<mapsto> (build, t))\<rparr>)"
begin

lemma try_acquire_keeps: "P db \<Longrightarrow> ends_in P (try_acquire d build t db)"
  unfolding try_acquire_def
  by (intro ends_in_rules ends_in_prod run_keeps) (simp_all add: lock split: option.split)

lemma acquire_loop_keeps: "P db \<Longrightarrow> ends_in P (acquire_loop env build branch seen ds db)"
proof (induction ds arbitrary: db seen)
  case (Cons d ds)
  show ?case
    unfolding acquire_loop.simps
    by (intro ends_in_rules open_transaction_keeps try_acquire_keeps Cons)
qed (simp add: ends_in_def)

lemma resolve_build_keeps:
  assumes "P db" and "bv_build env = build"
  shows "ends_in P (resolve_build env args db)"
  unfolding resolve_build_def assms(2) acquire_locks_def
  by (intro ends_in_rules ends_in_prod load_job_specs_keeps validate_inputs_keeps has_upstream_keeps
      acquire_loop_keeps assms(1))

lemma resolved_build_id: "resolve_build env args db = (db', Inr rb) \<Longrightarrow> rb_build rb = bv_build env"
  unfolding resolve_build_def
  by (auto elim!: and_do_Inr split: option.splits if_splits prod.splits)

end

locale locking_invariant = creation_invariant + resolving_invariant
begin

lemma create_opened_keeps:
  assumes "P db" and "bv_build env = build"
  shows "ends_in P (create_opened text env args key db)"
proof (cases "open_build env args db")
  case (Pair db1 r)
  then have db1: "P db1"
    using open_build_keeps [OF assms, of args] by (simp add: ends_in_def)
  show ?thesis
  proof (cases r)
    case (Inl e)
    then show ?thesis
      using db1 Pair by (cases key) (simp_all add: create_opened_def ends_in_def release_keeps)
  next
    case (Inr u)
    obtain db2 r2 where res: "resolve_build env args db1 = (db2, r2)" by fastforce
    have db2: "P db2"
      using resolve_build_keeps [OF db1 assms(2), of args] res by (simp add: ends_in_def)
    show ?thesis
    proof (cases r2)
      case (Inl e)
      then show ?thesis
        using mark_build_failed_keeps [OF db2] Pair Inr res assms(2) by (simp add: create_opened_def ends_in_def)
    next
      case rb: (Inr rb)
      obtain db3 r3 where per: "persist_resolved_build env rb db2 = (db3, r3)" by fastforce
      have "P db3"
        using persist_keeps [OF db2, of rb env] resolved_build_id [of env args db1 db2 rb] res rb per assms(2)
        by (simp add: ends_in_def)
      then show ?thesis
        using mark_build_failed_keeps [of db3] Pair Inr res rb per assms(2)
        by (cases r3) (simp_all add: create_opened_def ends_in_def)
    qed
  qed
qed

lemma create_build_keeps:
  assumes "P db" and "bv_build env = build"
  shows "ends_in P (create_build text env args subject header db)"
  unfolding create_build_def Let_def
  by (intro ends_in_option ends_in_if ends_in_pair ends_in_result ends_in_prod create_opened_keeps claim_keeps assms)

end

text \<open>What survives the end of another build, too.\<close>

locale foreign_invariant = locking_invariant +
  assumes audits: "P db \<Longrightarrow> P (db\<lparr>bd_audits := as\<rparr>)"
    and unlock: "P db \<Longrightarrow> P (db\<lparr>bd_locks := (\<lambda>d. case bd_locks db d of
      None \<Rightarrow> None | Some (b, t) \<Rightarrow> if b = build then None else Some (b, t))\<rparr>)"
begin

lemma transition_keeps: "P db \<Longrightarrow> ends_in P (repo_transition_job j s t reason db)"
  unfolding repo_transition_job_def
  by (intro ends_in_and_do run_keeps) (simp_all add: jobs audits)

lemma targets_loop_keeps: "P db \<Longrightarrow> P (targets_loop j s ts db)"
  by (induction j s ts db rule: targets_loop.induct) (simp_all add: ends_in_fst [OF transition_keeps])

lemma transition_abort_jobs_keeps: "P db \<Longrightarrow> P (transition_abort_jobs js db)"
  by (induction js db rule: transition_abort_jobs.induct) (simp add: targets_loop_keeps split: option.split)+

lemma update_build_keeps: "P db \<Longrightarrow> ends_in P (run_sql (update_build build f) db)"
  by (rule run_keeps) (simp_all add: update_build_def map_row_keeps)

lemma pg_exec_keeps:
  assumes "P db" and "P (fst (f db))" and "pg_clock (fst (f db)) = pg_clock db"
  shows "ends_in P (pg_exec f db)"
  using run_keeps [of db f, OF assms]
  by (auto simp: run_sql_def ends_in_def split: prod.splits sum.splits)

lemma abort_transaction_keeps: "P db \<Longrightarrow> ends_in P (abort_transaction catalog t db)"
  unfolding abort_transaction_def
  by (intro ends_in_if ends_in_pair pg_exec_keeps) (simp_all add: outputs)

lemma abort_open_outputs_keeps: "P db \<Longrightarrow> ends_in P (abort_open_outputs catalog seen ts db)"
proof (induction ts arbitrary: db seen)
  case (Cons t ts)
  obtain db1 r where r: "abort_transaction catalog t db = (db1, r)" by fastforce
  have "P db1"
    using abort_transaction_keeps [OF Cons.prems, of catalog t] r by (simp add: ends_in_def)
  moreover obtain db2 n es where rest: "abort_open_outputs catalog (t # seen) ts db1 = (db2, n, es)"
    by (metis prod_cases3)
  ultimately have "P db2"
    using Cons.IH [of db1 "t # seen"] by (simp add: ends_in_def)
  then show ?case
    using Cons r rest by (cases r) (simp_all add: ends_in_def)
qed (simp add: ends_in_def)

lemma unlock_keeps: "P db \<Longrightarrow> ends_in P (run_sql (\<lambda>db. (db\<lparr>bd_locks := (\<lambda>d. case bd_locks db d of
    None \<Rightarrow> None | Some (b, t) \<Rightarrow> if b = build then None else Some (b, t))\<rparr>, ())) db)"
  by (rule run_keeps) (simp_all only: fst_conv unlock, simp)

lemma abort_loaded_keeps:
  assumes "P db" and "as_id snap = build"
  shows "ends_in P (abort_loaded running catalog snap db)"
proof -
  obtain db1 n es where r: "abort_open_outputs catalog [] (concat (map aj_outputs (as_jobs snap)))
      (transition_abort_jobs (as_jobs snap) db) = (db1, n, es)"
    by (metis prod_cases3)
  have db1: "P db1"
    using abort_open_outputs_keeps [OF transition_abort_jobs_keeps [OF assms(1)]] r
    by (metis ends_in_def fst_conv)
  have "ends_in P (mark_build_aborted build reason db1)" for reason
    unfolding mark_build_aborted_def by (intro ends_in_and_do update_build_keeps unlock_keeps db1)
  then show ?thesis
    using db1 r assms(2) by (simp add: abort_loaded_def ends_in_def)
qed

lemma abort_jobs_keeps: "P db \<Longrightarrow> ends_in P (abort_jobs b db)"
proof -
  have loop: "P db \<Longrightarrow> ends_in P (abort_jobs_loop js db)" for js db
  proof (induction js arbitrary: db)
    case (Cons j js)
    show ?case
      unfolding abort_jobs_loop.simps outputs_for_job_def by (intro ends_in_rules read_keeps Cons)
  qed (simp add: ends_in_def)
  show "P db \<Longrightarrow> ends_in P (abort_jobs b db)"
    unfolding abort_jobs_def by (intro ends_in_and_do read_keeps loop)
qed

lemma load_build_keeps: "P db \<Longrightarrow> ends_in P (load_build_for_abort b db)"
  unfolding load_build_for_abort_def by (intro ends_in_rules read_keeps abort_jobs_keeps)

lemma loaded_id: "load_build_for_abort b db = (db', Inr (Some snap)) \<Longrightarrow> as_id snap = b"
  unfolding load_build_for_abort_def
  by (elim and_do_Inr) (auto elim!: and_do_Inr split: option.splits)

lemma abort_build_keeps:
  assumes "P db"
  shows "ends_in P (abort_build running catalog (Some build) db)"
proof -
  obtain db1 r where load: "load_build_for_abort build db = (db1, r)" by fastforce
  have db1: "P db1"
    using load_build_keeps [OF assms, of build] load by (simp add: ends_in_def)
  have "ends_in P (abort_build running catalog (Some build) db)" if "r = Inr (Some snap)" for snap
  proof -
    have id: "as_id snap = build"
      using loaded_id load that by simp
    obtain db2 r2 where m: "mark_build_aborting build ''aborted by user'' db1 = (db2, r2)" by fastforce
    have "P db2"
      using update_build_keeps [OF db1] m unfolding mark_build_aborting_def ends_in_def by (metis fst_conv)
    then show ?thesis
      using load that m id db1 abort_loaded_keeps
      by (cases r2) (simp_all add: abort_build_def ends_in_def)
  qed
  then show ?thesis
    using load db1 by (cases r) (simp_all add: abort_build_def ends_in_def split: option.split)
qed

lemma record_build_event_keeps:
  assumes "P db"
  shows "ends_in P (record_build_event build to reason db)"
proof -
  have row: "P db \<Longrightarrow> ends_in P (run_sql (\<lambda>db. (db\<lparr>bd_builds := (bd_builds db)(build := map_option f (bd_builds db build))\<rparr>, ())) db)"
    for f db
    by (rule run_keeps) (simp_all add: map_row_keeps)
  have locks: "P db \<Longrightarrow> ends_in P (release_build_locks build db)" for db
    unfolding release_build_locks_def by (intro ends_in_if ends_in_pair unlock_keeps)
  show ?thesis
    unfolding record_build_event_def Let_def
    by (intro ends_in_if ends_in_pair ends_in_and_do row locks assms)
qed

end

section \<open>Instances\<close>

text \<open>Only the acquisition takes locks; nothing writes branches.\<close>

interpretation same_locks: creation_invariant "\<lambda>db. bd_locks db = L" build for L build
  by unfold_locales auto

interpretation same_branches: locking_invariant "\<lambda>db. bd_branches db = B" build for B build
  by unfold_locales auto

interpretation same_both: opening_invariant "\<lambda>db. bd_locks db = L \<and> bd_branches db = B" build for L B build
  by unfold_locales auto

text \<open>The resolution leaves the stored plans alone.\<close>

definition same_plans :: "build_db \<Rightarrow> build_db \<Rightarrow> bool" where
  "same_plans db db' \<longleftrightarrow> bd_jobs db' = bd_jobs db \<and> bd_deps db' = bd_deps db \<and> bd_outputs db' = bd_outputs db"

interpretation plans: resolving_invariant "same_plans db" build for db build
  by unfold_locales (auto simp: same_plans_def)

text \<open>A failed build with a lock, among other builds.\<close>

definition dead_lock :: "string \<Rightarrow> uuid \<Rightarrow> string \<Rightarrow> build_db \<Rightarrow> bool" where
  "dead_lock x b t db \<longleftrightarrow>
     bd_locks db x = Some (b, t) \<and> (case bd_builds db b of None \<Rightarrow> False | Some row \<Rightarrow> bw_state row = build_failed)"

interpretation dead: foreign_invariant "\<lambda>db. b \<noteq> build \<longrightarrow> dead_lock x b t db" build for x b t build
  by unfold_locales (auto simp: dead_lock_def)

text \<open>A lock that is held, a row that exists, and statements that do not fail.\<close>

interpretation held: locking_invariant "\<lambda>db. bd_locks db x = Some l" build for x l build
  by unfold_locales auto

interpretation opened: foreign_invariant "\<lambda>db. bd_builds db build \<noteq> None" build for build
  by unfold_locales auto

interpretation healthy: foreign_invariant "no_faults" build for build
  by unfold_locales (auto simp: no_faults_def)

interpretation same_specs: foreign_invariant "\<lambda>db. bd_specs db = S" build for S build
  by unfold_locales auto

interpretation healthy_specs: locking_invariant "\<lambda>db. no_faults db \<and> bd_specs db = S" build for S build
  by unfold_locales (auto simp: no_faults_def)

end
