(* ===== verification/Build_Creation_Proofs.thy ===== *)
theory Build_Creation_Proofs
  imports Build_Invariants
begin

text \<open>
  Lemmas about the creation of builds: what a loop that acquires locks leaves, which errors a step can give, on what
  the loaded specs depend, and what an accepted build has checked.
\<close>

section \<open>Acquiring locks\<close>

lemma open_transaction_locks: "open_transaction env d b db = (db', r) \<Longrightarrow> bd_locks db' = bd_locks db"
  using same_locks.open_transaction_keeps [of db "bd_locks db" env d b] by (simp add: ends_in_def)

lemma try_acquire_None:
  "try_acquire d b t db = (db', Inr None) \<Longrightarrow> bd_locks db d = None \<and> bd_locks db' = (bd_locks db)(d \<mapsto> (b, t))"
  unfolding try_acquire_def
  by (erule and_do_Inr, erule run_sql_Inr) (auto elim!: and_do_Inr split: option.splits if_splits prod.splits)

lemma try_acquire_Some:
  "try_acquire d b t db = (db', Inr (Some h)) \<Longrightarrow> \<exists>t'. bd_locks db d = Some (h, t') \<and> bd_locks db' d = Some (h, t')"
  unfolding try_acquire_def
  by (erule and_do_Inr, erule run_sql_Inr)
    (auto elim!: and_do_Inr run_sql_Inr split: option.splits if_splits prod.splits)

definition owns :: "uuid \<Rightarrow> string \<Rightarrow> opened_tx list \<Rightarrow> build_db \<Rightarrow> bool" where
  "owns build d ts db \<longleftrightarrow> (\<exists>t \<in> set ts. op_dataset t = d \<and> bd_locks db d = Some (build, op_tx t))"

lemma acquire_loop_ok:
  "acquire_loop env build branch seen ds db = (db', Inr ts) \<Longrightarrow>
     (\<forall>d \<in> set ds - set seen. bd_locks db d = None \<and> owns build d ts db') \<and>
     (\<forall>d. d \<notin> set ds - set seen \<longrightarrow> bd_locks db' d = bd_locks db d)"
proof (induction ds arbitrary: seen db db' ts)
  case (Cons d ds)
  show ?case
  proof (cases "d \<in> set seen")
    case True
    then have "set (d # ds) - set seen = set ds - set seen" by auto
    with True Cons show ?thesis by simp
  next
    case False
    then have run: "and_do (open_transaction env d branch db) (\<lambda>tx db1.
        and_do (try_acquire d build tx db1) (\<lambda>holder db2.
          case holder of Some h \<Rightarrow> (db2, Inl (LockHeld d h))
          | None \<Rightarrow> and_do (acquire_loop env build branch (d # seen) ds db2) (\<lambda>ts db3.
              (db3, Inr (\<lparr>op_dataset = d, op_tx = tx\<rparr> # ts))))) = (db', Inr ts)"
      using Cons.prems by simp
    from and_do_Inr [OF run] obtain db1 tx where o: "open_transaction env d branch db = (db1, Inr tx)"
      and run1: "and_do (try_acquire d build tx db1) (\<lambda>holder db2.
          case holder of Some h \<Rightarrow> (db2, Inl (LockHeld d h))
          | None \<Rightarrow> and_do (acquire_loop env build branch (d # seen) ds db2) (\<lambda>ts db3.
              (db3, Inr (\<lparr>op_dataset = d, op_tx = tx\<rparr> # ts)))) = (db', Inr ts)" .
    from and_do_Inr [OF run1] obtain db2 holder where a: "try_acquire d build tx db1 = (db2, Inr holder)"
      and run2: "(case holder of Some h \<Rightarrow> (db2, Inl (LockHeld d h))
          | None \<Rightarrow> and_do (acquire_loop env build branch (d # seen) ds db2) (\<lambda>ts db3.
              (db3, Inr (\<lparr>op_dataset = d, op_tx = tx\<rparr> # ts)))) = (db', Inr ts)" .
    have holder: "holder = None"
      using run2 by (cases holder) simp_all
    obtain ts' where rest: "acquire_loop env build branch (d # seen) ds db2 = (db', Inr ts')"
      and ts: "ts = \<lparr>op_dataset = d, op_tx = tx\<rparr> # ts'"
      using run2 unfolding holder by (auto elim: and_do_Inr)
    have locks: "bd_locks db d = None" "bd_locks db2 = (bd_locks db)(d \<mapsto> (build, tx))"
      using try_acquire_None [OF a [unfolded holder]] open_transaction_locks [OF o] by simp_all
    note IH = Cons.IH [OF rest]
    have "bd_locks db' d = Some (build, tx)"
      using IH locks(2) by simp
    then have "owns build d ts db'"
      by (simp add: owns_def ts)
    moreover have "bd_locks db e = None \<and> owns build e ts db'" if "e \<in> set ds - set seen" "e \<noteq> d" for e
      using that IH locks(2) by (auto simp: owns_def ts)
    moreover have "bd_locks db' e = bd_locks db e" if "e \<notin> set (d # ds) - set seen" for e
      using that IH locks(2) False by auto
    ultimately show ?thesis
      using locks(1) False by auto
  qed
qed simp

text \<open>Apart from held locks the errors are those of the database.\<close>

lemma run_sql_Inl: "run_sql f db = (db', Inl e) \<Longrightarrow> \<exists>m. e = Database m"
  by (cases "pg_exec f db") (auto simp: run_sql_def split: sum.splits)

lemma open_transaction_Inl: "open_transaction env d b db = (db', Inl e) \<Longrightarrow> \<exists>m. e = Database m"
  unfolding open_transaction_def by (elim and_do_Inl) (auto dest: run_sql_Inl split: if_splits sum.splits)

lemma try_acquire_Inl: "try_acquire d b t db = (db', Inl e) \<Longrightarrow> \<exists>m. e = Database m"
  unfolding try_acquire_def
  by (elim and_do_Inl) (auto elim!: and_do_Inl dest: run_sql_Inl split: if_splits option.splits prod.splits)

text \<open>A lock that is held stops the loop; the locks before it stay.\<close>

lemma acquire_loop_held:
  "acquire_loop env build branch seen ds db = (db', Inl (LockHeld d h)) \<Longrightarrow>
     \<exists>pre post. ds = pre @ d # post \<and> d \<notin> set pre \<union> set seen \<and>
       (\<exists>t. bd_locks db' d = Some (h, t)) \<and> (\<forall>x \<in> set pre - set seen. \<exists>t. bd_locks db' x = Some (build, t))"
proof (induction ds arbitrary: seen db)
  case (Cons e ds)
  show ?case
  proof (cases "e \<in> set seen")
    case True
    then have "acquire_loop env build branch seen ds db = (db', Inl (LockHeld d h))"
      using Cons.prems by simp
    from Cons.IH [OF this] obtain pre post where "ds = pre @ d # post" "d \<notin> set pre \<union> set seen"
      "\<exists>t. bd_locks db' d = Some (h, t)" "\<forall>x \<in> set pre - set seen. \<exists>t. bd_locks db' x = Some (build, t)"
      by blast
    then show ?thesis
      using True by (intro exI [of _ "e # pre"] exI [of _ post]) auto
  next
    case False
    have not_held: "r \<noteq> Inl (LockHeld d h)" if "open_transaction env e branch db = (db1, r)" for db1 r
      using open_transaction_Inl [of env e branch db db1] that by auto
    have not_held': "r \<noteq> Inl (LockHeld d h)" if "try_acquire e build tx db1 = (db2, r)" for db1 db2 r tx
      using try_acquire_Inl [of e build tx db1 db2] that by auto
    obtain db1 r1 where o: "open_transaction env e branch db = (db1, r1)" by fastforce
    then obtain tx where r1: "r1 = Inr tx"
      using Cons.prems False not_held [OF o] by (cases r1) (auto simp: and_do_def)
    obtain db2 r2 where a: "try_acquire e build tx db1 = (db2, r2)" by fastforce
    then obtain holder where r2: "r2 = Inr holder"
      using Cons.prems False not_held' [OF a] o r1 by (cases r2) (auto simp: and_do_def)
    show ?thesis
    proof (cases holder)
      case None
      obtain db3 r3 where rest: "acquire_loop env build branch (e # seen) ds db2 = (db3, r3)" by fastforce
      have "acquire_loop env build branch (e # seen) ds db2 = (db', Inl (LockHeld d h))"
        using Cons.prems False o r1 a r2 None rest by (cases r3) (auto simp: and_do_def)
      note IH = Cons.IH [OF this]
      have "bd_locks db2 e = Some (build, tx)"
        using try_acquire_None a r2 None by simp
      then have "bd_locks db' e = Some (build, tx)"
        using held.acquire_loop_keeps [of db2 e "(build, tx)" env build branch "e # seen" ds]
          \<open>acquire_loop env build branch (e # seen) ds db2 = (db', Inl (LockHeld d h))\<close>
        by (simp add: ends_in_def)
      moreover obtain pre post where "ds = pre @ d # post" "d \<notin> set pre \<union> set (e # seen)"
        "\<exists>t. bd_locks db' d = Some (h, t)" "\<forall>x \<in> set pre - set (e # seen). \<exists>t. bd_locks db' x = Some (build, t)"
        using IH by blast
      ultimately show ?thesis
        by (intro exI [of _ "e # pre"] exI [of _ post]) auto
    next
      case (Some h')
      then have "db' = db2" "e = d" "h' = h"
        using Cons.prems False o r1 a r2 by (auto simp: and_do_def)
      moreover have "\<exists>t. bd_locks db2 e = Some (h', t)"
        using try_acquire_Some a r2 Some by blast
      ultimately show ?thesis
        using False by (intro exI [of _ "[]"] exI [of _ ds]) simp
    qed
  qed
qed simp

section \<open>Errors of the resolution\<close>

text \<open>The errors of a step; only the acquisition answers that a lock is held.\<close>

definition fails_in :: "'e set \<Rightarrow> 's \<times> ('e + 'a) \<Rightarrow> bool" where
  "fails_in E r \<longleftrightarrow> (case snd r of Inl e \<Rightarrow> e \<in> E | Inr _ \<Rightarrow> True)"

lemma fails_in_and_do:
  "fails_in E r \<Longrightarrow> (\<And>y s. fails_in E (f y s)) \<Longrightarrow> fails_in E (and_do r f)"
  by (cases r; cases "snd r") (simp_all add: fails_in_def and_do_def)

lemma fails_in_option:
  "fails_in E a \<Longrightarrow> (\<And>y. fails_in E (b y)) \<Longrightarrow> fails_in E (case x of None \<Rightarrow> a | Some y \<Rightarrow> b y)"
  by (simp split: option.split)

lemma fails_in_sum:
  "(\<And>e. fails_in E (a e)) \<Longrightarrow> (\<And>y. fails_in E (b y)) \<Longrightarrow> fails_in E (case x of Inl e \<Rightarrow> a e | Inr y \<Rightarrow> b y)"
  by (simp split: sum.split)

lemma fails_in_if: "fails_in E a \<Longrightarrow> fails_in E b \<Longrightarrow> fails_in E (if c then a else b)"
  by simp

lemma fails_in_Inr: "fails_in E (s, Inr x)"
  by (simp add: fails_in_def)

lemma fails_in_Inl: "e \<in> E \<Longrightarrow> fails_in E (s, Inl e)"
  by (simp add: fails_in_def)

definition other_errors :: "resolution_error set" where
  "other_errors = - {e. \<exists>d h. e = LockHeld d h}"

lemma fails_in_run_sql: "fails_in other_errors (run_sql f db)"
  using run_sql_Inl [of f db] by (cases "run_sql f db") (auto simp: fails_in_def other_errors_def split: sum.split)

lemma other_errors_simps [simp]:
  "MissingJobSpec d bs \<in> other_errors" "CycleDetected c \<in> other_errors" "InputNotFound d \<in> other_errors"
  "InputBranchMissing d b c \<in> other_errors" "StaleInput d \<in> other_errors" "InvalidLogicKind r m \<in> other_errors"
  "Database m \<in> other_errors" "LockHeld d h \<notin> other_errors"
  by (simp_all add: other_errors_def)

lemmas fails_in_rules =
  fails_in_and_do fails_in_option fails_in_sum fails_in_if fails_in_Inr fails_in_Inl fails_in_run_sql other_errors_simps(1-7)

lemma load_job_specs_errors: "fails_in other_errors (load_job_specs args db)"
proof -
  have on_branch: "fails_in other_errors (lookup_on_branch p d b db)" for p d b db
    unfolding lookup_on_branch_def by (intro fails_in_rules)
  have spec: "fails_in other_errors (lookup_spec p d bs db)" for p d bs db
  proof (induction bs arbitrary: db)
    case (Cons b bs)
    show ?case
      unfolding lookup_spec.simps Let_def by (intro fails_in_rules on_branch Cons)
  qed (simp add: fails_in_Inr)
  have loop: "fails_in other_errors (load_loop args ds db)" for ds db
  proof (induction ds arbitrary: db)
    case (Cons d ds)
    show ?case
      unfolding load_loop.simps Let_def by (intro fails_in_rules spec Cons)
  qed (simp add: fails_in_Inr)
  show ?thesis
    unfolding load_job_specs_def by (intro fails_in_rules loop)
qed

lemma validate_inputs_errors: "fails_in other_errors (validate_inputs b specs db)"
proof -
  have one: "fails_in other_errors (resolve_one_input b i db)" for i db
    unfolding resolve_one_input_def list_branches_def view_schema_def by (intro fails_in_rules)
  have "fails_in other_errors (inputs_loop b internal seen is db)" for internal seen "is" db
  proof (induction "is" arbitrary: db seen)
    case (Cons i "is")
    show ?case
      unfolding inputs_loop.simps by (intro fails_in_rules one Cons)
  qed (simp add: fails_in_Inr)
  then show ?thesis
    unfolding validate_inputs_def by blast
qed

lemma has_upstream_errors: "fails_in other_errors (has_upstream_in_progress ds self db)"
  unfolding has_upstream_in_progress_def by (intro fails_in_rules)

lemma check_specs_errors: "check_specs specs = Some e \<Longrightarrow> e \<in> other_errors"
proof -
  have "first_invalid_kind specs = Some e \<Longrightarrow> e \<in> other_errors"
    by (induction specs) (auto simp: Let_def split: if_splits)
  then show "check_specs specs = Some e \<Longrightarrow> e \<in> other_errors"
    by (auto simp: check_specs_def split: option.splits cycle_check.splits)
qed

lemma fails_inD: "fails_in other_errors r \<Longrightarrow> r \<noteq> (db, Inl (LockHeld d h))"
  by (auto simp: fails_in_def)

lemma resolve_build_held:
  assumes "resolve_build env args db = (db', Inl (LockHeld d h))"
  shows "\<exists>specs db1 db2. load_job_specs args db = (db1, Inr specs) \<and>
    acquire_loop env (bv_build env) (ba_branch args) [] (concat (map js_outputs specs)) db2 = (db', Inl (LockHeld d h))"
proof -
  obtain db1 specs where l: "load_job_specs args db = (db1, Inr specs)"
    using assms fails_inD [OF load_job_specs_errors] unfolding resolve_build_def by (blast elim: and_do_Inl)
  have c: "check_specs specs = None"
    using assms l check_specs_errors [of specs "LockHeld d h"]
    unfolding resolve_build_def by (cases "check_specs specs") (auto simp: and_do_def)
  show ?thesis
    using assms l c fails_inD [OF validate_inputs_errors] fails_inD [OF has_upstream_errors]
    unfolding resolve_build_def acquire_locks_def
    by (auto elim!: and_do_Inl split: if_splits prod.splits) blast
qed

text \<open>Without failing statements the specs that are loaded depend only on their table.\<close>

definition same_rows :: "build_db \<Rightarrow> build_db \<Rightarrow> bool" where
  "same_rows db db' \<longleftrightarrow> no_faults db \<and> no_faults db' \<and> bd_specs db = bd_specs db'"

definition alike :: "build_db \<times> 'r \<Rightarrow> build_db \<times> 'r \<Rightarrow> bool" where
  "alike r r' \<longleftrightarrow> snd r = snd r' \<and> same_rows (fst r) (fst r')"

lemma alike_pair: "same_rows s s' \<Longrightarrow> alike (s, x) (s', x)"
  by (simp add: alike_def)

lemma alike_and_do:
  assumes "alike r r'" and "\<And>x s s'. same_rows s s' \<Longrightarrow> alike (f x s) (f x s')"
  shows "alike (and_do r f) (and_do r' f)"
  using assms by (cases r; cases r'; cases "snd r") (simp_all add: alike_def and_do_def)

lemma alike_option:
  "alike a a' \<Longrightarrow> (\<And>y. alike (b y) (b' y)) \<Longrightarrow>
     alike (case x of None \<Rightarrow> a | Some y \<Rightarrow> b y) (case x of None \<Rightarrow> a' | Some y \<Rightarrow> b' y)"
  by (simp split: option.split)

lemma alike_sum:
  "(\<And>e. alike (a e) (a' e)) \<Longrightarrow> (\<And>y. alike (b y) (b' y)) \<Longrightarrow>
     alike (case x of Inl e \<Rightarrow> a e | Inr y \<Rightarrow> b y) (case x of Inl e \<Rightarrow> a' e | Inr y \<Rightarrow> b' y)"
  by (simp split: sum.split)

lemma alike_if: "alike a a' \<Longrightarrow> alike b b' \<Longrightarrow> alike (if c then a else b) (if c then a' else b')"
  by simp

lemma alike_read:
  assumes "same_rows db db'" and "g db = g db'"
  shows "alike (run_sql (\<lambda>db. (db, g db)) db) (run_sql (\<lambda>db. (db, g db)) db')"
  using assms by (simp add: alike_def same_rows_def run_sql_ok no_faults_def)

lemmas alike_rules = alike_pair alike_and_do alike_option alike_sum alike_if

lemma lookup_on_branch_alike: "same_rows db db' \<Longrightarrow> alike (lookup_on_branch p d c db) (lookup_on_branch p d c db')"
  unfolding lookup_on_branch_def
  by (intro alike_rules alike_read) (simp_all add: same_rows_def)

lemma lookup_spec_alike: "same_rows db db' \<Longrightarrow> alike (lookup_spec p d bs db) (lookup_spec p d bs db')"
proof (induction bs arbitrary: db db')
  case (Cons b bs)
  show ?case
    unfolding lookup_spec.simps Let_def by (intro alike_rules lookup_on_branch_alike Cons)
qed (simp add: alike_def)

lemma load_loop_alike: "same_rows db db' \<Longrightarrow> alike (load_loop args ds db) (load_loop args ds db')"
proof (induction ds arbitrary: db db')
  case (Cons d ds)
  show ?case
    unfolding load_loop.simps Let_def by (intro alike_rules lookup_spec_alike Cons)
qed (simp add: alike_def)

lemma load_job_specs_same:
  assumes "same_rows db db'"
  shows "snd (load_job_specs args db) = snd (load_job_specs args db')"
proof -
  have "alike (load_job_specs args db) (load_job_specs args db')"
    unfolding load_job_specs_def by (intro alike_rules load_loop_alike assms)
  then show ?thesis by (simp add: alike_def)
qed

section \<open>Accepted builds\<close>

text \<open>The view of an input: its branch is the first of the chain that exists.\<close>

definition view_ok :: "branch_row list \<Rightarrow> string \<Rightarrow> input_spec \<Rightarrow> input_view \<Rightarrow> bool" where
  "view_ok rows b i v \<longleftrightarrow>
     iv_dataset v = in_dataset i \<and>
     (\<exists>r. resolve_input_dataset b (in_chain i) (map fst (branch_snapshots (in_dataset i) rows)) = Inr r \<and>
        iv_branch v = ri_branch r \<and> (in_fresh i \<longrightarrow> ri_index r = 0))"

lemma resolve_one_input_ok:
  "resolve_one_input b i db = (db', Inr v) \<Longrightarrow> view_ok (bd_branches db) b i v"
  unfolding resolve_one_input_def list_branches_def
  by (elim and_do_Inr run_sql_Inr) (auto simp: view_ok_def elim!: and_do_Inr split: if_splits sum.splits)

lemma inputs_loop_ok:
  "inputs_loop b internal seen is db = (db', Inr vs) \<Longrightarrow>
     iv_dataset ` set vs = in_dataset ` set is - internal - seen \<and> (\<forall>v \<in> set vs. \<exists>i \<in> set is. view_ok (bd_branches db) b i v)"
proof (induction "is" arbitrary: seen db vs)
  case (Cons i "is")
  show ?case
  proof (cases "in_dataset i \<in> internal \<or> in_dataset i \<in> seen")
    case True
    then have "inputs_loop b internal seen is db = (db', Inr vs)"
      using Cons.prems by simp
    from Cons.IH [OF this] show ?thesis
      using True by auto
  next
    case False
    then obtain db1 v vs' where one: "resolve_one_input b i db = (db1, Inr v)"
      and rest: "inputs_loop b internal (insert (in_dataset i) seen) is db1 = (db', Inr vs')" and vs: "vs = v # vs'"
      using Cons.prems by (auto elim!: and_do_Inr)
    have rows: "bd_branches db1 = bd_branches db"
      using same_branches.resolve_one_input_keeps [of db "bd_branches db" b i] one by (simp add: ends_in_def)
    have v: "view_ok (bd_branches db) b i v"
      by (rule resolve_one_input_ok [OF one])
    have "iv_dataset ` set vs' = in_dataset ` set is - internal - insert (in_dataset i) seen"
      "\<forall>v \<in> set vs'. \<exists>i \<in> set is. view_ok (bd_branches db) b i v"
      using Cons.IH [OF rest] rows by simp_all
    then show ?thesis
      using v False by (auto simp: vs view_ok_def)
  qed
qed simp

definition known_inputs :: "branch_row list \<Rightarrow> string \<Rightarrow> resolved_build \<Rightarrow> bool" where
  "known_inputs rows b rb \<longleftrightarrow>
     iv_dataset ` set (rb_views rb) = set (external_inputs (rb_specs rb)) \<and>
     (\<forall>v \<in> set (rb_views rb). \<exists>s \<in> set (rb_specs rb). \<exists>i \<in> set (js_inputs s). view_ok rows b i v)"

lemma resolve_build_ok:
  assumes "resolve_build env args db = (db', Inr rb)" and "rb_reason rb = None"
  shows "(\<forall>d \<in> output_set (rb_specs rb). bd_locks db d = None \<and> owns (bv_build env) d (rb_opened rb) db') \<and>
    (\<forall>d. d \<notin> output_set (rb_specs rb) \<longrightarrow> bd_locks db' d = bd_locks db d) \<and>
    check_specs (rb_specs rb) = None \<and> known_inputs (bd_branches db) (ba_branch args) rb \<and>
    (\<exists>specs. rb_specs rb = order_specs specs) \<and>
    (rb_jobs rb, rb_stages rb) = build_fan_out_plan (bv_job env) (bv_build env) (rb_specs rb) (rb_opened rb)"
proof -
  obtain db1 specs db2 views db3 opened where l: "load_job_specs args db = (db1, Inr specs)"
    and c: "check_specs specs = None" and v: "validate_inputs (ba_branch args) specs db1 = (db2, Inr views)"
    and u: "has_upstream_in_progress (external_inputs specs) (bv_build env) db2 = (db3, Inr False)"
    and a: "acquire_locks env (bv_build env) specs (ba_branch args) db3 = (db', Inr opened)"
    and rb: "rb_specs rb = specs" "rb_views rb = views" "rb_opened rb = opened"
      "(rb_jobs rb, rb_stages rb) = build_fan_out_plan (bv_job env) (bv_build env) specs opened"
    using assms unfolding resolve_build_def
    by (auto elim!: and_do_Inr split: option.splits if_splits prod.splits)
  have same: "bd_locks db3 = bd_locks db" "bd_branches db1 = bd_branches db"
    using same_both.load_job_specs_keeps [of db "bd_locks db" "bd_branches db" args]
      same_locks.validate_inputs_keeps [of db1 "bd_locks db" "ba_branch args" specs]
      same_locks.has_upstream_keeps [of db2 "bd_locks db" "external_inputs specs" "bv_build env"] l v u
    by (simp_all add: ends_in_def)
  have inputs: "iv_dataset ` set views = in_dataset ` set (concat (map js_inputs specs)) - output_set specs - {}"
    "\<forall>v \<in> set views. \<exists>i \<in> set (concat (map js_inputs specs)). view_ok (bd_branches db) (ba_branch args) i v"
    using inputs_loop_ok [of "ba_branch args" "output_set specs" "{}" "concat (map js_inputs specs)" db1 db2 views] v same(2)
    unfolding validate_inputs_def by simp_all
  have ext: "set (external_inputs specs) = in_dataset ` set (concat (map js_inputs specs)) - output_set specs"
    by (auto simp: external_inputs_def)
  have "known_inputs (bd_branches db) (ba_branch args) rb"
    unfolding known_inputs_def rb(1,2) ext using inputs by fastforce
  moreover have "(\<forall>d \<in> output_set specs. bd_locks db3 d = None \<and> owns (bv_build env) d opened db') \<and>
      (\<forall>d. d \<notin> output_set specs \<longrightarrow> bd_locks db' d = bd_locks db3 d)"
    using acquire_loop_ok [OF a [unfolded acquire_locks_def]] by (simp add: output_set_def)
  moreover have "\<exists>raw. specs = order_specs raw"
    using l unfolding load_job_specs_def by (auto elim!: and_do_Inr)
  ultimately show ?thesis
    using c rb same(1) by simp
qed

lemma create_accepted_ok:
  assumes "create_build text env args subject header db = (db', Accepted rb)" and "rb_reason rb = None"
  shows "(\<forall>d \<in> output_set (rb_specs rb). bd_locks db d = None \<and> owns (bv_build env) d (rb_opened rb) db') \<and>
    (\<forall>d. d \<notin> output_set (rb_specs rb) \<longrightarrow> bd_locks db' d = bd_locks db d) \<and>
    check_specs (rb_specs rb) = None \<and> known_inputs (bd_branches db) (ba_branch args) rb \<and>
    (\<exists>specs. rb_specs rb = order_specs specs) \<and>
    (rb_jobs rb, rb_stages rb) = build_fan_out_plan (bv_job env) (bv_build env) (rb_specs rb) (rb_opened rb)"
proof -
  obtain db1 db2 where p: "bd_locks db1 = bd_locks db" "bd_branches db1 = bd_branches db"
    "resolve_build env args db1 = (db2, Inr rb)" "persist_resolved_build env rb db2 = (db', Inr ())"
    using same_both.create_accepted [OF assms(1), of "bd_locks db" "bd_branches db"] by auto
  have "bd_locks db' = bd_locks db2"
    using same_locks.persist_keeps [of db2 "bd_locks db2" rb "rb_build rb" env] p(4) by (simp add: ends_in_def)
  then show ?thesis
    using resolve_build_ok [OF p(3) assms(2)] p(1,2) by (simp add: owns_def)
qed

section \<open>The stored plan\<close>

text \<open>A job of the same spec, logic and inputs has completed and committed the outputs.\<close>

definition completed_before :: "build_env \<Rightarrow> job_spec list \<Rightarrow> input_view list \<Rightarrow> build_db \<Rightarrow> string \<Rightarrow> bool" where
  "completed_before env specs views db r \<longleftrightarrow>
     (case spec_for specs r of
        None \<Rightarrow> False
      | Some s \<Rightarrow> trim_space r \<noteq> [] \<and> js_outputs s \<noteq> [] \<and>
          fresh_exists_sql r (logic_hash env s) (input_signature env specs views s) (unique_strings (js_outputs s)) db)"

definition ran_before :: "build_env \<Rightarrow> resolved_build \<Rightarrow> build_db \<Rightarrow> string \<Rightarrow> bool" where
  "ran_before env rb db r \<longleftrightarrow>
     \<not> rb_force rb \<and> r \<in> rj_spec ` set (rb_jobs rb) \<and> completed_before env (rb_specs rb) (rb_views rb) db r"

lemma previous_fresh_ok:
  "previous_fresh_job_exists r l sig outs db = (db', Inr b) \<Longrightarrow>
     b = (trim_space r \<noteq> [] \<and> outs \<noteq> [] \<and> fresh_exists_sql r l sig (unique_strings outs) db) \<and>
     db' = db\<lparr>pg_clock := pg_clock db'\<rparr>"
  unfolding previous_fresh_job_exists_def by (auto elim!: run_sql_Inr split: if_splits)

lemma completed_before_cong:
  assumes "bd_jobs db' = bd_jobs db" and "bd_outputs db' = bd_outputs db"
  shows "completed_before env specs views db' = completed_before env specs views db"
  by (simp add: completed_before_def fresh_exists_sql_def assms fun_eq_iff split: option.split)

lemma fresh_loop_ok:
  "fresh_loop env specs views js db = (db', Inr m) \<Longrightarrow>
     db' = db\<lparr>pg_clock := pg_clock db'\<rparr> \<and>
     (\<forall>r. m r \<longleftrightarrow> r \<in> rj_spec ` set js \<and> completed_before env specs views db r)"
proof (induction js arbitrary: db m)
  case (Cons j js)
  show ?case
  proof (cases "spec_for specs (rj_spec j)")
    case None
    then have "\<not> completed_before env specs views db (rj_spec j)"
      by (simp add: completed_before_def)
    moreover have "fresh_loop env specs views js db = (db', Inr m)"
      using Cons.prems None by simp
    ultimately show ?thesis
      using Cons.IH [of db m] by auto
  next
    case (Some s)
    then obtain db1 b m' where one: "previous_fresh_job_exists (rj_spec j) (logic_hash env s)
        (input_signature env specs views s) (js_outputs s) db = (db1, Inr b)"
      and rest: "fresh_loop env specs views js db1 = (db', Inr m')" and m: "m = m'(rj_spec j := b)"
      using Cons.prems by (auto elim!: and_do_Inr)
    note one' = previous_fresh_ok [OF one]
    have b: "b = completed_before env specs views db (rj_spec j)"
      using one' Some by (simp add: completed_before_def)
    have db1: "db1 = db\<lparr>pg_clock := pg_clock db1\<rparr>"
      using one' by simp
    have "bd_jobs db1 = bd_jobs db" "bd_outputs db1 = bd_outputs db"
      "db1\<lparr>pg_clock := c\<rparr> = db\<lparr>pg_clock := c\<rparr>" for c
      by (subst db1, simp)+
    then show ?thesis
      using Cons.IH [OF rest] completed_before_cong [of db1 db env specs views]
      by (auto simp: m b)
  qed
qed simp

text \<open>
  The rows a planned job gets in \<^verbatim>\<open>job_outputs\<close>: one per dataset, in the order of first occurrence, with the last of
  its transactions for that dataset.
\<close>

definition first_seen :: "'a list \<Rightarrow> 'a list" where
  "first_seen xs = rev (remdups (rev xs))"

lemma first_seen_simps [simp]:
  "first_seen [] = []" "first_seen (xs @ [x]) = (if x \<in> set xs then first_seen xs else first_seen xs @ [x])"
  "set (first_seen xs) = set xs"
  by (simp_all add: first_seen_def)

definition output_rows :: "uuid \<Rightarrow> opened_tx list \<Rightarrow> string list \<Rightarrow> output_row list" where
  "output_rows j opened txs =
     map (\<lambda>d. \<lparr>ow_job = j, ow_dataset = d,
         ow_tx = the (find (\<lambda>t. dataset_for_transaction opened t = d) (rev txs)), ow_committed = False, ow_aborted = False\<rparr>)
       (first_seen (map (dataset_for_transaction opened) txs))"

text \<open>One more transaction.\<close>

lemma upsert_output_row:
  assumes "j \<notin> ow_job ` set old" and "bd_outputs db = old @ output_rows j opened txs"
  shows "fst (upsert_output j (dataset_for_transaction opened t) t db) =
    db\<lparr>bd_outputs := old @ output_rows j opened (txs @ [t])\<rparr>"
proof -
  let ?d = "dataset_for_transaction opened"
  have old: "\<not> list_ex (\<lambda>w. ow_job w = j \<and> ow_dataset w = ?d t) old"
    "map (\<lambda>w. if ow_job w = j \<and> ow_dataset w = ?d t then w\<lparr>ow_tx := t\<rparr> else w) old = old"
    using assms(1) by (auto simp: list_ex_iff intro!: map_idI)
  have seen: "list_ex (\<lambda>w. ow_job w = j \<and> ow_dataset w = ?d t) (output_rows j opened txs) \<longleftrightarrow> ?d t \<in> ?d ` set txs"
    by (auto simp: output_rows_def list_ex_iff)
  show ?thesis
  proof (cases "?d t \<in> ?d ` set txs")
    case True
    then have "map (\<lambda>w. if ow_job w = j \<and> ow_dataset w = ?d t then w\<lparr>ow_tx := t\<rparr> else w) (output_rows j opened txs) =
        output_rows j opened (txs @ [t])"
      by (simp add: output_rows_def)
    then show ?thesis
      using True old seen by (simp add: upsert_output_def assms(2))
  next
    case False
    then have "output_rows j opened (txs @ [t]) = output_rows j opened txs @
        [\<lparr>ow_job = j, ow_dataset = ?d t, ow_tx = t, ow_committed = False, ow_aborted = False\<rparr>]"
      by (auto simp: output_rows_def)
    then show ?thesis
      using False old(1) seen by (simp add: upsert_output_def assms(2))
  qed
qed

lemma outputs_loop_frame:
  "outputs_loop j opened txs db = (db', Inr u) \<Longrightarrow> db' = db\<lparr>pg_clock := pg_clock db', bd_outputs := bd_outputs db'\<rparr>"
proof (induction txs arbitrary: db)
  case (Cons t ts)
  obtain db1 where one: "run_sql (upsert_output j (dataset_for_transaction opened t) t) db = (db1, Inr ())"
    and rest: "outputs_loop j opened ts db1 = (db', Inr u)"
    using Cons.prems by (auto elim!: and_do_Inr)
  have "\<exists>ws. db1 = db\<lparr>bd_outputs := ws, pg_clock := Suc (pg_clock db)\<rparr>"
    using one by (elim run_sql_Inr) (auto simp: upsert_output_def split: if_splits)
  then have "db1\<lparr>pg_clock := c, bd_outputs := ws\<rparr> = db\<lparr>pg_clock := c, bd_outputs := ws\<rparr>" for c ws
    by auto
  then show ?case
    using Cons.IH [OF rest] by simp
qed simp

lemma outputs_loop_more:
  assumes "outputs_loop j opened ts db = (db', Inr u)" and "j \<notin> ow_job ` set old"
    and "bd_outputs db = old @ output_rows j opened txs"
  shows "bd_outputs db' = old @ output_rows j opened (txs @ ts)"
  using assms
proof (induction ts arbitrary: db txs)
  case Nil
  then show ?case by simp
next
  case (Cons t ts)
  obtain db1 where one: "run_sql (upsert_output j (dataset_for_transaction opened t) t) db = (db1, Inr ())"
    and rest: "outputs_loop j opened ts db1 = (db', Inr u)"
    using Cons.prems(1) by (auto elim!: and_do_Inr)
  have "bd_outputs db1 = old @ output_rows j opened (txs @ [t])"
    using one upsert_output_row [OF Cons.prems(2,3), of t] by (auto elim!: run_sql_Inr)
  from Cons.IH [OF rest Cons.prems(2) this] show ?case by simp
qed

lemma outputs_loop_rows:
  assumes "outputs_loop j opened txs db = (db', Inr u)" and "j \<notin> ow_job ` set (bd_outputs db)"
  shows "bd_outputs db' = bd_outputs db @ output_rows j opened txs"
  using outputs_loop_more [OF assms, of "[]"] by (simp add: output_rows_def)

text \<open>The rows of the planned jobs, if their ids are new.\<close>

definition planned_outputs :: "resolved_build \<Rightarrow> output_row list" where
  "planned_outputs rb = concat (map (\<lambda>j. output_rows (rj_id j) (rb_opened rb) (rj_txs j)) (rb_jobs rb))"

definition new_job :: "build_db \<Rightarrow> uuid \<Rightarrow> bool" where
  "new_job db i \<longleftrightarrow> i \<notin> jw_id ` set (bd_jobs db)"

definition no_outputs :: "build_db \<Rightarrow> uuid \<Rightarrow> bool" where
  "no_outputs db i \<longleftrightarrow> i \<notin> ow_job ` set (bd_outputs db)"

lemma jobs_loop_outputs:
  assumes "jobs_loop env rb fresh js db = (db', Inr u)" and "distinct (map rj_id js)" and "\<forall>j \<in> set js. no_outputs db (rj_id j)"
  shows "bd_outputs db' = bd_outputs db @ concat (map (\<lambda>j. output_rows (rj_id j) (rb_opened rb) (rj_txs j)) js)"
  using assms
proof (induction js arbitrary: db)
  case (Cons j js)
  obtain db1 db2 where up: "run_sql (upsert_job (plan_row env rb fresh j (spec_for (rb_specs rb) (rj_spec j)))) db = (db1, Inr ())"
    and outs: "outputs_loop (rj_id j) (rb_opened rb) (rj_txs j) db1 = (db2, Inr ())"
    and rest: "jobs_loop env rb fresh js db2 = (db', Inr u)"
    using Cons.prems(1) by (auto elim!: and_do_Inr)
  have db1: "bd_outputs db1 = bd_outputs db"
    using up by (auto elim!: run_sql_Inr simp: upsert_job_def split: if_splits)
  have db2: "bd_outputs db2 = bd_outputs db @ output_rows (rj_id j) (rb_opened rb) (rj_txs j)"
    using outputs_loop_rows [OF outs] Cons.prems(3) by (simp add: db1 no_outputs_def)
  have "rj_id k \<noteq> rj_id j" if "k \<in> set js" for k
    using Cons.prems(2) that by (metis distinct.simps(2) imageI list.set_map list.simps(9))
  then have "\<forall>k \<in> set js. no_outputs db2 (rj_id k)"
    using Cons.prems(3) by (auto simp: db2 no_outputs_def output_rows_def)
  then show ?case
    using Cons.IH [OF rest] Cons.prems(2) db2 by simp
qed simp

lemma jobs_loop_ok:
  assumes "jobs_loop env rb fresh js db = (db', Inr u)" and "distinct (map rj_id js)" and "\<forall>j \<in> set js. new_job db (rj_id j)"
  shows "db' = db\<lparr>pg_clock := pg_clock db',
    bd_jobs := bd_jobs db @ map (\<lambda>j. plan_row env rb fresh j (spec_for (rb_specs rb) (rj_spec j))) js,
    bd_outputs := bd_outputs db'\<rparr>"
  using assms
proof (induction js arbitrary: db)
  case (Cons j js)
  let ?row = "plan_row env rb fresh j (spec_for (rb_specs rb) (rj_spec j))"
  obtain db1 db2 where up: "run_sql (upsert_job ?row) db = (db1, Inr ())"
    and outs: "outputs_loop (rj_id j) (rb_opened rb) (rj_txs j) db1 = (db2, Inr ())"
    and rest: "jobs_loop env rb fresh js db2 = (db', Inr u)"
    using Cons.prems(1) by (auto elim!: and_do_Inr)
  have id: "jw_id ?row = rj_id j"
    by (simp add: plan_row_def)
  have db1: "db1 = db\<lparr>pg_clock := Suc (pg_clock db), bd_jobs := bd_jobs db @ [?row]\<rparr>"
    using up Cons.prems(3) by (auto elim!: run_sql_Inr simp: upsert_job_def id new_job_def)
  have db2: "db2 = db1\<lparr>pg_clock := pg_clock db2, bd_outputs := bd_outputs db2\<rparr>"
    by (rule outputs_loop_frame [OF outs])
  have rows: "bd_jobs db2 = bd_jobs db @ [?row]"
    by (subst db2) (simp add: db1)
  have "rj_id k \<noteq> rj_id j" if "k \<in> set js" for k
    using Cons.prems(2) that by (metis distinct.simps(2) imageI list.set_map list.simps(9))
  then have "\<forall>k \<in> set js. new_job db2 (rj_id k)"
    using Cons.prems(3) by (auto simp: rows new_job_def id)
  then have "db' = db2\<lparr>pg_clock := pg_clock db',
      bd_jobs := bd_jobs db2 @ map (\<lambda>j. plan_row env rb fresh j (spec_for (rb_specs rb) (rj_spec j))) js,
      bd_outputs := bd_outputs db'\<rparr>"
    using Cons.IH [OF rest] Cons.prems(2) by simp
  moreover have "db2\<lparr>pg_clock := c, bd_jobs := js, bd_outputs := ws\<rparr> = db\<lparr>pg_clock := c, bd_jobs := js, bd_outputs := ws\<rparr>" for c js ws
    by (subst db2) (simp add: db1)
  ultimately show ?case
    by (simp add: rows)
qed simp

lemma deps_loop_ok:
  "deps_loop es db = (db', Inr u) \<Longrightarrow>
     db' = db\<lparr>pg_clock := pg_clock db', bd_deps := bd_deps db'\<rparr> \<and> set (bd_deps db') = set (bd_deps db) \<union> set es"
proof (induction es arbitrary: db)
  case (Cons e es)
  then obtain db1 where run: "run_sql (\<lambda>db. (db\<lparr>bd_deps := (if e \<in> set (bd_deps db) then bd_deps db else bd_deps db @ [e])\<rparr>, ())) db =
      (db1, Inr ())"
    and rest: "deps_loop es db1 = (db', Inr u)"
    by (auto elim!: and_do_Inr)
  have "db1 = db\<lparr>pg_clock := Suc (pg_clock db),
      bd_deps := (if e \<in> set (bd_deps db) then bd_deps db else bd_deps db @ [e])\<rparr>"
    using run by (elim run_sql_Inr) simp
  then have one: "db1 = db\<lparr>pg_clock := pg_clock db1, bd_deps := bd_deps db1\<rparr>"
      "set (bd_deps db1) = insert e (set (bd_deps db))"
    by (simp_all add: insert_absorb)
  have "db1\<lparr>pg_clock := c, bd_deps := ds\<rparr> = db\<lparr>pg_clock := c, bd_deps := ds\<rparr>" for c ds
    by (subst one(1)) simp
  then show ?case
    using Cons.IH [OF rest] one(2) by simp
qed simp

text \<open>The build row, by the statement that updates it.\<close>

definition planned_build :: "resolved_build \<Rightarrow> build_row \<Rightarrow> build_row" where
  "planned_build rb b =
     b\<lparr>bw_state := (if rb_reason rb \<noteq> None then build_queued else rb_state rb),
       bw_targets := unique_strings (concat (map js_outputs (rb_specs rb)))\<rparr>"

definition stored_plan_of :: "build_env \<Rightarrow> resolved_build \<Rightarrow> (string \<Rightarrow> bool) \<Rightarrow> build_db \<Rightarrow> build_db" where
  "stored_plan_of env rb fresh db = db\<lparr>
     bd_builds := (bd_builds db)(rb_build rb := map_option (planned_build rb) (bd_builds db (rb_build rb))),
     bd_jobs := bd_jobs db @ map (\<lambda>j. plan_row env rb fresh j (spec_for (rb_specs rb) (rj_spec j))) (rb_jobs rb)\<rparr>"

lemma persist_statements_ok:
  assumes "persist_statements env rb db = (db', Inr u)" and "distinct (map rj_id (rb_jobs rb))"
    and known: "\<forall>j \<in> set (rb_jobs rb). new_job db (rj_id j)"
  defines "fresh \<equiv> propagate_stale (map (\<lambda>j. (rj_spec j, rj_deps j)) (rb_jobs rb)) (ran_before env rb db)"
  shows "db' = (stored_plan_of env rb fresh db)\<lparr>pg_clock := pg_clock db', bd_outputs := bd_outputs db', bd_deps := bd_deps db'\<rparr> \<and>
    set (bd_deps db') = set (bd_deps db) \<union> set (job_edges (rb_jobs rb)) \<and>
    ((\<forall>j \<in> set (rb_jobs rb). no_outputs db (rj_id j)) \<longrightarrow> bd_outputs db' = bd_outputs db @ planned_outputs rb)"
proof -
  obtain db1 db2 m db3 where up: "run_sql (update_build_sql rb) db = (db1, Inr ())"
    and m: "(if rb_force rb then (db1, Inr (\<lambda>_. False))
      else fresh_loop env (rb_specs rb) (rb_views rb) (rb_jobs rb) db1) = (db2, Inr m)"
    and js: "jobs_loop env rb (propagate_stale (map (\<lambda>j. (rj_spec j, rj_deps j)) (rb_jobs rb)) m) (rb_jobs rb) db2 = (db3, Inr ())"
    and ds: "deps_loop (job_edges (rb_jobs rb)) db3 = (db', Inr u)"
    using assms(1) unfolding persist_statements_def by (auto elim!: and_do_Inr)
  have db1: "db1 = db\<lparr>pg_clock := pg_clock db1,
      bd_builds := (bd_builds db)(rb_build rb := map_option (planned_build rb) (bd_builds db (rb_build rb)))\<rparr>"
    using up by (auto elim!: run_sql_Inr simp: update_build_sql_def planned_build_def [abs_def])
  have same1: "bd_jobs db1 = bd_jobs db" "bd_outputs db1 = bd_outputs db"
    by (subst db1, simp)+
  have db2: "db2 = db1\<lparr>pg_clock := pg_clock db2\<rparr>" and m: "m = ran_before env rb db"
    using m fresh_loop_ok [of env "rb_specs rb" "rb_views rb" "rb_jobs rb" db1 db2 m] same1
      completed_before_cong [of db1 db env "rb_specs rb" "rb_views rb"]
    by (auto simp: ran_before_def fun_eq_iff split: if_splits)
  have same2: "bd_jobs db2 = bd_jobs db" "bd_outputs db2 = bd_outputs db"
    by (subst db2, simp add: same1)+
  have db3: "db3 = db2\<lparr>pg_clock := pg_clock db3,
      bd_jobs := bd_jobs db @ map (\<lambda>j. plan_row env rb fresh j (spec_for (rb_specs rb) (rj_spec j))) (rb_jobs rb),
      bd_outputs := bd_outputs db3\<rparr>"
    using jobs_loop_ok [OF js assms(2)] known same2 by (simp add: new_job_def fresh_def m)
  have outs: "(\<forall>j \<in> set (rb_jobs rb). no_outputs db (rj_id j)) \<longrightarrow> bd_outputs db3 = bd_outputs db @ planned_outputs rb"
    using jobs_loop_outputs [OF js assms(2)] same2 by (simp add: no_outputs_def planned_outputs_def)
  have "bd_deps db3 = bd_deps db"
    by (subst db3, simp, subst db2, simp, subst db1, simp)
  moreover have rest: "db3\<lparr>pg_clock := c, bd_deps := es\<rparr> =
      (stored_plan_of env rb fresh db)\<lparr>pg_clock := c, bd_outputs := bd_outputs db3, bd_deps := es\<rparr>" for c es
    by (subst db3, simp, subst db2, simp, subst db1, simp add: stored_plan_of_def)
  moreover have "bd_outputs db' = bd_outputs db3"
    by (subst conjunct1 [OF deps_loop_ok [OF ds]]) simp
  ultimately show ?thesis
    using deps_loop_ok [OF ds] outs by simp
qed

lemma persist_resolved_ok:
  assumes "persist_resolved_build env rb db = (db', Inr u)"
  shows "\<exists>db2. persist_statements env rb (db\<lparr>pg_clock := Suc (pg_clock db)\<rparr>) = (db2, Inr ()) \<and>
    db' = db2\<lparr>pg_clock := Suc (pg_clock db2)\<rparr>"
  using assms unfolding persist_resolved_build_def
  by (auto elim!: and_do_Inr run_sql_Inr split: prod.splits sum.splits)

text \<open>A failure leaves the tables as they were.\<close>

lemma persist_resolved_failed:
  assumes "persist_resolved_build env rb db = (db', Inl e)"
  shows "db' = db\<lparr>pg_clock := pg_clock db'\<rparr>"
proof -
  have "run_sql (\<lambda>db. (db, ())) db = (db1, r) \<Longrightarrow> db1 = db\<lparr>pg_clock := Suc (pg_clock db)\<rparr>" for db1 r
    by (auto simp: run_sql_def pg_exec_def split: option.splits)
  then show ?thesis
    using assms unfolding persist_resolved_build_def and_do_def
    by (auto split: prod.splits sum.splits)
qed

text \<open>Without failing statements the plan is stored.\<close>

definition succeeds :: "build_db \<times> ('e + 'r) \<Rightarrow> bool" where
  "succeeds r \<longleftrightarrow> no_faults (fst r) \<and> (\<exists>x. snd r = Inr x)"

lemma succeeds_and_do: "succeeds r \<Longrightarrow> (\<And>y s. no_faults s \<Longrightarrow> succeeds (f y s)) \<Longrightarrow> succeeds (and_do r f)"
  by (cases r) (auto simp: succeeds_def and_do_def)

lemma succeeds_pair: "no_faults s \<Longrightarrow> succeeds (s, Inr x)"
  by (simp add: succeeds_def)

lemma succeeds_if: "succeeds a \<Longrightarrow> succeeds b \<Longrightarrow> succeeds (if c then a else b)"
  by simp

lemma succeeds_option: "succeeds a \<Longrightarrow> (\<And>y. succeeds (b y)) \<Longrightarrow> succeeds (case x of None \<Rightarrow> a | Some y \<Rightarrow> b y)"
  by (simp split: option.split)

lemma succeeds_run_sql:
  assumes "no_faults db" and "ends_in no_faults (run_sql f db)"
  shows "succeeds (run_sql f db)"
  using assms by (simp add: succeeds_def ends_in_def run_sql_ok split: prod.split)

lemmas succeeds_rules = succeeds_and_do succeeds_pair succeeds_if succeeds_option succeeds_run_sql

lemma persist_succeeds:
  assumes "no_faults db"
  shows "\<exists>db'. persist_resolved_build env rb db = (db', Inr ())"
proof -
  have fresh: "no_faults db \<Longrightarrow> succeeds (fresh_loop env specs views js db)" for specs views js db
  proof (induction js arbitrary: db)
    case (Cons j js)
    show ?case
      unfolding fresh_loop.simps previous_fresh_job_exists_def
      by (intro succeeds_rules healthy.read_keeps Cons)
  qed (simp add: succeeds_def)
  have outs: "no_faults db \<Longrightarrow> succeeds (outputs_loop j opened ts db)" for j opened ts db
  proof (induction ts arbitrary: db)
    case (Cons t ts)
    show ?case
      unfolding outputs_loop.simps by (intro succeeds_rules healthy.upsert_output_keeps Cons)
  qed (simp add: succeeds_def)
  have jobs: "no_faults db \<Longrightarrow> succeeds (jobs_loop env rb fresh js db)" for fresh js db
  proof (induction js arbitrary: db)
    case (Cons j js)
    show ?case
      unfolding jobs_loop.simps by (intro succeeds_rules outs healthy.upsert_job_keeps Cons)
  qed (simp add: succeeds_def)
  have deps: "no_faults db \<Longrightarrow> succeeds (deps_loop es db)" for es db
  proof (induction es arbitrary: db)
    case (Cons e es)
    show ?case
      unfolding deps_loop.simps
      by (intro succeeds_rules Cons healthy.run_keeps) (use Cons.prems in \<open>simp_all add: no_faults_def\<close>)
  qed (simp add: succeeds_def)
  have up: "no_faults db \<Longrightarrow> ends_in no_faults (run_sql (update_build_sql rb) db)" for db
    by (rule healthy.run_keeps) (simp_all add: update_build_sql_def no_faults_def)
  have "no_faults db \<Longrightarrow> succeeds (persist_statements env rb db)" for db
    unfolding persist_statements_def by (intro succeeds_rules up fresh jobs deps)
  then have "succeeds (persist_statements env rb (db\<lparr>pg_clock := Suc (pg_clock db)\<rparr>))"
    using assms by (simp add: no_faults_def)
  then show ?thesis
    using assms unfolding persist_resolved_build_def and_do_def succeeds_def
    by (auto simp: run_sql_ok split: prod.splits sum.splits)
qed

end
