(* ===== verification/Build_Samples.thy ===== *)
theory Build_Samples
  imports Build_Creation_Proofs
begin

text \<open>
  Concrete inputs for the properties of builds: two specs that depend on each other, and a pipeline with one spec that
  writes the datasets \<^verbatim>\<open>a\<close> and \<^verbatim>\<open>b\<close>, built once with free locks and once with the lock of \<^verbatim>\<open>b\<close> held by another build.
\<close>

section \<open>A plan\<close>

text \<open>Two specs, the second reads what the first writes.\<close>

definition demo_spec :: "string \<Rightarrow> string \<Rightarrow> string list \<Rightarrow> job_spec" where
  "demo_spec rid input outs =
     \<lparr>js_rid = rid, js_pipeline = ''p'', js_branch = ''m'',
      js_inputs = [\<lparr>in_dataset = input, in_chain = [], in_filters = [], in_fresh = False\<rparr>],
      js_outputs = outs, js_kind = ''TRANSFORM'', js_payload = [], js_hash = ''h''\<rparr>"

definition demo_specs :: "job_spec list" where
  "demo_specs = [demo_spec ''t'' ''x'' [''y''], demo_spec ''s'' ''r'' [''x'']]"

lemma demo_ordered: "order_specs demo_specs = [demo_spec ''s'' ''r'' [''x''], demo_spec ''t'' ''x'' [''y'']]"
  by code_simp

lemma demo_no_cycle: "detect_cycles (order_specs demo_specs) = NoCycle"
  by code_simp

section \<open>A creation\<close>

definition demo_row :: spec_row where
  "demo_row = \<lparr>sp_pipeline = ''p'', sp_branch = ''m'', sp_output = ''a'', sp_published = 0, sp_rid = ''s'', sp_hash = ''h'',
     sp_listed = [''a'', ''b''], sp_inputs = Inr [],
     sp_body = Inr \<lparr>sb_rid = ''s'', sb_kind = ''TRANSFORM'', sb_payload = [], sb_outputs = [''a'', ''b'']\<rparr>\<rparr>"

definition demo_branches :: "branch_row list" where
  "demo_branches = [\<lparr>br_dataset = ''a'', br_name = ''m'', br_head = None, br_deleted = False\<rparr>,
     \<lparr>br_dataset = ''b'', br_name = ''m'', br_head = None, br_deleted = False\<rparr>]"

definition demo_db :: "(string \<Rightarrow> (uuid \<times> string) option) \<Rightarrow> build_db" where
  "demo_db locks = \<lparr>pg_clock = 0, pg_fault = (\<lambda>n. None), bd_specs = [demo_row], bd_datasets = {''a'', ''b''},
     bd_branches = demo_branches, bd_schemas = (\<lambda>p. None), bd_txs = [], bd_locks = locks, bd_builds = (\<lambda>b. None), bd_jobs = [], bd_outputs = [],
     bd_deps = [], bd_bodies = [], bd_keys = (\<lambda>k. None), bd_audits = []\<rparr>"

definition demo_env :: build_env where
  "demo_env = \<lparr>bv_build = 1, bv_tx = (\<lambda>d. if d = ''a'' then 2 else 3), bv_show = (\<lambda>u. ''u''), bv_job = (\<lambda>b r. 4),
     bv_logic = (\<lambda>s. ''l''), bv_items = (\<lambda>is. ''i''), bv_sha = (\<lambda>s. s)\<rparr>"

definition demo_args :: build_args where
  "demo_args = \<lparr>ba_pipeline = ''p'', ba_branch = ''m'', ba_fallback = [], ba_outputs = [''a''], ba_force = False, ba_policy = []\<rparr>"

definition demo_loaded :: job_spec where
  "demo_loaded = \<lparr>js_rid = ''s'', js_pipeline = ''p'', js_branch = ''m'', js_inputs = [], js_outputs = [''a'', ''b''],
     js_kind = ''TRANSFORM'', js_payload = [], js_hash = ''h''\<rparr>"

lemma demo_texts: "trim_space ''m'' = ''m''" "trim_space ''p'' = ''p''" "trim_space [] = []"
  by code_simp+

lemma demo_checked: "check_specs [demo_loaded] = None" "order_specs [demo_loaded] = [demo_loaded]"
  by code_simp+

lemma demo_plan: "external_inputs [demo_loaded] = []" "output_set [demo_loaded] = {''a'', ''b''}"
  "build_fan_out_plan (\<lambda>b r. 4) 1 [demo_loaded] opened =
     ([\<lparr>rj_id = 4, rj_spec = ''s'', rj_txs = List.map_filter (\<lambda>d. map_option op_tx (find (\<lambda>t. op_dataset t = d) (rev opened))) [''a'', ''b''],
     rj_deps = []\<rparr>], [[''s'']])"
  by (simp_all add: external_inputs_def output_set_def demo_loaded_def build_fan_out_plan_def
     dependencies_of_def upstreams_def fan_out_stages_def stage_rounds.simps insert_commute Let_def)

lemma demo_select: "select_spec ''p'' ''a'' ''m'' [demo_row] = Some demo_row"
  by (simp add: select_spec_def latest_def demo_row_def)

lemma demo_decode: "decode_spec demo_row = Inr demo_loaded"
  by (simp add: decode_spec_def demo_row_def demo_loaded_def)

lemmas demo_eval = run_sql_def pg_exec_def and_do_def Let_def

lemma demo_load:
  "load_job_specs demo_args (demo_db L\<lparr>pg_clock := n, bd_builds := B\<rparr>) =
     (demo_db L\<lparr>pg_clock := Suc n, bd_builds := B\<rparr>, Inr [demo_loaded])"
  by (simp add: load_job_specs_def lookup_on_branch_def demo_eval demo_args_def demo_texts demo_select
      demo_decode demo_checked demo_db_def)

lemma demo_open:
  "open_build demo_env demo_args (demo_db L) = (demo_db L\<lparr>pg_clock := 1, bd_builds := [1 \<mapsto>
     \<lparr>bw_pipeline = ''p'', bw_branch = ''m'', bw_targets = unique_strings [''a''], bw_state = build_resolution,
      bw_force = False, bw_policy = ''DEPENDENT_ONLY'', bw_error = None\<rparr>]\<rparr>, Inr ())"
  by (simp add: open_build_def demo_eval demo_args_def demo_env_def demo_db_def)

lemma demo_fields: "js_inputs demo_loaded = []" "js_outputs demo_loaded = [''a'', ''b'']"
  "bv_build demo_env = 1" "ba_branch demo_args = ''m''" "bv_job demo_env = (\<lambda>b r. 4)"
  by (simp_all add: demo_loaded_def demo_env_def demo_args_def)

lemma demo_snapshots: "branch_snapshots ''a'' demo_branches = [(''m'', None)]" "branch_snapshots ''b'' demo_branches = [(''m'', None)]"
  by code_simp+

definition demo_state :: "build_db \<Rightarrow> bool" where
  "demo_state db \<longleftrightarrow> no_faults db \<and> bd_branches db = demo_branches \<and> bd_datasets db = {''a'', ''b''}"

lemma demo_state: "demo_state (demo_db L\<lparr>pg_clock := n, bd_builds := B\<rparr>)"
  by (simp add: demo_state_def demo_db_def no_faults_def)

lemma demo_locks: "bd_locks (demo_db L\<lparr>pg_clock := n, bd_builds := B\<rparr>) = L"
  by (simp add: demo_db_def)

lemma demo_no_tx: "\<not> has_open_tx (demo_db L\<lparr>pg_clock := n, bd_builds := B\<rparr>) d b"
  by (simp add: has_open_tx_def demo_db_def)

lemma demo_transaction:
  assumes "demo_state db" and "d = ''a'' \<or> d = ''b''" and "\<not> has_open_tx db d ''m''"
  shows "\<exists>db' t. open_transaction demo_env d ''m'' db = (db', Inr t) \<and> demo_state db' \<and> bd_locks db' = bd_locks db \<and>
    (\<forall>e. has_open_tx db' e ''m'' \<longleftrightarrow> e = d \<or> has_open_tx db e ''m'')"
  using assms by (auto simp: open_transaction_def run_sql_ok and_do_def demo_state_def live_branch_def
      demo_snapshots no_faults_def has_open_tx_def)

lemma demo_free:
  assumes "demo_state db" and "bd_locks db d = None"
  shows "\<exists>db'. try_acquire d b t db = (db', Inr None) \<and> demo_state db' \<and> bd_locks db' = (bd_locks db)(d \<mapsto> (b, t)) \<and>
    has_open_tx db' = has_open_tx db"
  using assms by (simp add: try_acquire_def run_sql_ok and_do_def demo_state_def no_faults_def has_open_tx_def fun_eq_iff)

lemma demo_taken:
  assumes "demo_state db" and "bd_locks db d = Some (h, t')"
  shows "\<exists>db'. try_acquire d b t db = (db', Inr (Some h))"
  using assms by (simp add: try_acquire_def run_sql_ok and_do_def demo_state_def no_faults_def)

lemma demo_first:
  assumes "demo_state db" and "bd_locks db ''a'' = None" and "\<And>d. \<not> has_open_tx db d ''m''"
  obtains db1 db2 t where "open_transaction demo_env ''a'' ''m'' db = (db1, Inr t)" "try_acquire ''a'' 1 t db1 = (db2, Inr None)"
    "demo_state db2" "bd_locks db2 = (bd_locks db)(''a'' \<mapsto> (1, t))" "\<not> has_open_tx db2 ''b'' ''m''"
proof -
  obtain db1 t where tx: "open_transaction demo_env ''a'' ''m'' db = (db1, Inr t)" "demo_state db1" "bd_locks db1 = bd_locks db"
    "\<not> has_open_tx db1 ''b'' ''m''"
    using demo_transaction [OF assms(1), of "''a''"] assms(3) by auto
  obtain db2 where "try_acquire ''a'' 1 t db1 = (db2, Inr None)" "demo_state db2" "bd_locks db2 = (bd_locks db1)(''a'' \<mapsto> (1, t))"
    "has_open_tx db2 = has_open_tx db1"
    using demo_free [OF tx(2), of "''a''" 1 t] tx(3) assms(2) by auto
  with tx show thesis
    using that by simp
qed

lemma demo_acquire:
  assumes "demo_state db" and "bd_locks db ''a'' = None" and "bd_locks db ''b'' = None" and "\<And>d. \<not> has_open_tx db d ''m''"
  shows "\<exists>db' ts. acquire_locks demo_env 1 [demo_loaded] ''m'' db = (db', Inr ts)"
proof -
  obtain db1 db2 t where a: "open_transaction demo_env ''a'' ''m'' db = (db1, Inr t)" "try_acquire ''a'' 1 t db1 = (db2, Inr None)"
    and s: "demo_state db2" "bd_locks db2 = (bd_locks db)(''a'' \<mapsto> (1, t))" "\<not> has_open_tx db2 ''b'' ''m''"
    using demo_first [OF assms(1,2,4)] .
  obtain db3 t' where b: "open_transaction demo_env ''b'' ''m'' db2 = (db3, Inr t')" "demo_state db3" "bd_locks db3 ''b'' = None"
    using demo_transaction [OF s(1), of "''b''"] s(2,3) assms(3) by auto
  with a demo_free [OF b(2,3), of 1 t'] show ?thesis
    by (auto simp: acquire_locks_def demo_fields and_do_def)
qed

lemma demo_acquire_held:
  assumes "demo_state db" and "bd_locks db ''a'' = None" and "bd_locks db ''b'' = Some (9, u)"
    and "\<And>d. \<not> has_open_tx db d ''m''"
  shows "\<exists>db'. acquire_locks demo_env 1 [demo_loaded] ''m'' db = (db', Inl (LockHeld ''b'' 9))"
proof -
  obtain db1 db2 t where a: "open_transaction demo_env ''a'' ''m'' db = (db1, Inr t)" "try_acquire ''a'' 1 t db1 = (db2, Inr None)"
    and s: "demo_state db2" "bd_locks db2 = (bd_locks db)(''a'' \<mapsto> (1, t))" "\<not> has_open_tx db2 ''b'' ''m''"
    using demo_first [OF assms(1,2,4)] .
  obtain db3 t' where b: "open_transaction demo_env ''b'' ''m'' db2 = (db3, Inr t')" "demo_state db3" "bd_locks db3 ''b'' = Some (9, u)"
    using demo_transaction [OF s(1), of "''b''"] s(2,3) assms(3) by auto
  with a demo_taken [OF b(2,3), of 1 t'] show ?thesis
    by (auto simp: acquire_locks_def demo_fields and_do_def)
qed

lemma demo_resolve_held:
  "snd (resolve_build demo_env demo_args (demo_db [''b'' \<mapsto> (9, ''t'')]\<lparr>pg_clock := n, bd_builds := B\<rparr>)) = Inl (LockHeld ''b'' 9)"
proof -
  obtain db where "acquire_locks demo_env 1 [demo_loaded] ''m''
      (demo_db [''b'' \<mapsto> (9, ''t'')]\<lparr>pg_clock := Suc n, bd_builds := B\<rparr>) = (db, Inl (LockHeld ''b'' 9))"
    using demo_acquire_held [OF demo_state [where L = "[''b'' \<mapsto> (9, ''t'')]" and n = "Suc n" and B = B]] demo_locks demo_no_tx
    by auto
  then show ?thesis
    by (simp add: resolve_build_def demo_load and_do_def demo_checked validate_inputs_def has_upstream_in_progress_def
        demo_plan demo_fields)
qed

lemma demo_valid: "request_invalid demo_args = None"
  by (simp add: request_invalid_def demo_args_def demo_texts)

lemma demo_held:
  "snd (create_build (\<lambda>e. []) demo_env demo_args [] [] (demo_db [''b'' \<mapsto> (9, ''t'')])) =
     ResolutionFailed (LockHeld ''b'' 9)"
proof -
  let ?db = "fst (open_build demo_env demo_args (demo_db [''b'' \<mapsto> (9, ''t'')]))"
  have "snd (resolve_build demo_env demo_args ?db) = Inl (LockHeld ''b'' 9)"
    unfolding demo_open fst_conv by (rule demo_resolve_held)
  then obtain db2 where "resolve_build demo_env demo_args ?db = (db2, Inl (LockHeld ''b'' 9))"
    by (metis prod.collapse)
  then show ?thesis
    by (simp add: create_build_def create_opened_def demo_valid demo_open demo_texts)
qed

lemma demo_resolve:
  "\<exists>db' rb. resolve_build demo_env demo_args (demo_db Map.empty\<lparr>pg_clock := n, bd_builds := B\<rparr>) = (db', Inr rb) \<and>
     rb_reason rb = None \<and> rb_specs rb = [demo_loaded]"
proof -
  obtain db ts where "acquire_locks demo_env 1 [demo_loaded] ''m''
      (demo_db Map.empty\<lparr>pg_clock := Suc n, bd_builds := B\<rparr>) = (db, Inr ts)"
    using demo_acquire [OF demo_state [where L = Map.empty and n = "Suc n" and B = B]] demo_locks demo_no_tx by auto
  then show ?thesis
    by (simp add: resolve_build_def demo_load and_do_def demo_checked validate_inputs_def has_upstream_in_progress_def
        demo_plan demo_fields)
qed

lemma demo_accepted:
  "\<exists>db' rb. create_build (\<lambda>e. []) demo_env demo_args [] [] (demo_db Map.empty) = (db', Accepted rb) \<and>
     rb_reason rb = None \<and> rb_specs rb = [demo_loaded]"
proof -
  let ?db = "fst (open_build demo_env demo_args (demo_db Map.empty))"
  obtain db1 rb where res: "resolve_build demo_env demo_args ?db = (db1, Inr rb)" "rb_reason rb = None" "rb_specs rb = [demo_loaded]"
    unfolding demo_open fst_conv using demo_resolve by blast
  have "no_faults ?db"
    unfolding demo_open by (simp add: no_faults_def demo_db_def)
  then have "no_faults db1"
    using healthy.resolve_build_keeps [of ?db demo_env "bv_build demo_env" demo_args] res(1)
    by (simp add: ends_in_def)
  then obtain db' where "persist_resolved_build demo_env rb db1 = (db', Inr ())"
    using persist_succeeds by blast
  with res show ?thesis
    by (simp add: create_build_def create_opened_def demo_valid demo_open demo_texts)
qed

end
