(* ===== verification/Build_Creation_Properties.thy ===== *)
theory Build_Creation_Properties
  imports Build_Samples
begin

text \<open>
  The properties of the creation of builds: the check for cycles and the plan of stages, the locks of an accepted
  build, the locks a failed build leaves behind, and the rows of the plan.
\<close>

section \<open>The plan\<close>

lemma order_specs_rids: "set (map js_rid (order_specs specs)) = set (map js_rid specs)"
  using drop_repeated_set [of "sort_key js_rid specs"] by (simp add: order_specs_def)

text \<open>
  C36. The check for cycles of a build's job specs always comes to an answer, and the answer is right: it finds none
  exactly when the relation "reads from" on the specs is acyclic, and the path it reports is a cycle. When there is
  none, the plan has every spec exactly once, in the stage directly after the last of the specs it reads from.
\<close>

theorem resolver_plan_correct:
  "(detect_cycles (order_specs specs) = NoCycle \<longleftrightarrow> acyclic (set (spec_edges (order_specs specs)))) \<and>
   (detect_cycles (order_specs specs) = NoCycle \<or>
     (\<exists>c. detect_cycles (order_specs specs) = CycleFound c \<and> is_cycle (set (spec_edges (order_specs specs))) c)) \<and>
   (detect_cycles (order_specs specs) = NoCycle \<longrightarrow>
     distinct (concat (snd (build_fan_out_plan job_id build (order_specs specs) opened))) \<and>
     set (concat (snd (build_fan_out_plan job_id build (order_specs specs) opened))) = set (map js_rid specs) \<and>
     levels (map prod.swap (spec_edges (order_specs specs))) (snd (build_fan_out_plan job_id build (order_specs specs) opened)))"
proof -
  note core = detect_cycles_core [OF distinct_order_specs [of specs]]
  have "detect_cycles (order_specs specs) = NoCycle \<or>
     (\<exists>c. detect_cycles (order_specs specs) = CycleFound c \<and> is_cycle (set (spec_edges (order_specs specs))) c)"
    using core by (cases "detect_cycles (order_specs specs)") auto
  then show ?thesis
    using core(2) fan_out_core [OF distinct_order_specs [of specs], of job_id build opened]
    unfolding order_specs_rids by blast
qed

theorem resolver_plan_correct_witness:
  "set (concat (snd (build_fan_out_plan (\<lambda>b r. b) 1 (order_specs demo_specs) []))) = {''s'', ''t''}"
  using resolver_plan_correct [of demo_specs "\<lambda>b r. b" 1 "[]"] demo_no_cycle
  by (auto simp: demo_specs_def demo_spec_def)

section \<open>The locks\<close>

text \<open>
  C37. When a build is accepted for resolution (not queued), each dataset any of its specs writes was not locked
  before and is locked by this build afterwards, under the transaction opened for it, and no other lock has changed.
  Its specs have a supported kind and no cycle, and each external input has a view on the first branch of its chain
  that exists, the build's own branch where the input must be fresh.
\<close>

theorem accepted_build_owns_outputs:
  assumes "create_build msg env args subject hdr db = (db', Accepted rb)" and "rb_reason rb = None"
  shows "(\<forall>d. if d \<in> output_set (rb_specs rb)
       then bd_locks db d = None \<and> owns (bv_build env) d (rb_opened rb) db' else bd_locks db' d = bd_locks db d) \<and>
    acyclic (set (spec_edges (rb_specs rb))) \<and> first_invalid_kind (rb_specs rb) = None \<and>
    known_inputs (bd_branches db) (ba_branch args) rb"
proof -
  note ok = create_accepted_ok [OF assms]
  obtain specs where specs: "rb_specs rb = order_specs specs"
    using ok by blast
  have "first_invalid_kind (rb_specs rb) = None" "detect_cycles (rb_specs rb) = NoCycle"
    using ok by (auto simp: check_specs_def split: option.splits cycle_check.splits)
  then show ?thesis
    using ok detect_cycles_core(2) [OF distinct_order_specs [of specs]] specs by simp
qed

theorem accepted_build_owns_outputs_witness:
  "\<exists>db' rb. create_build (\<lambda>e. []) demo_env demo_args [] [] (demo_db Map.empty) = (db', Accepted rb) \<and>
     acyclic (set (spec_edges (rb_specs rb)))"
  using demo_accepted accepted_build_owns_outputs by metis

text \<open>What can be done to the build service after a build has failed, except for executing that build itself.\<close>

inductive later_calls :: "uuid \<Rightarrow> build_db \<Rightarrow> build_db \<Rightarrow> bool" for b where
  later_refl: "later_calls b db db"
| later_create:
    "later_calls b db db1 \<Longrightarrow> bv_build env \<noteq> b \<Longrightarrow> later_calls b db (fst (create_build msg env args subject hdr db1))"
| later_abort: "later_calls b db db1 \<Longrightarrow> later_calls b db (fst (abort_build running catalog target db1))"
| later_event: "later_calls b db db1 \<Longrightarrow> e \<noteq> b \<Longrightarrow> later_calls b db (fst (record_build_event e to reason db1))"

lemma abort_failed_build:
  assumes "dead_lock x b t db"
  shows "(\<exists>e. snd (abort_build running catalog (Some b) db) = AbortError e \<or>
      snd (abort_build running catalog (Some b) db) = AbortConflict) \<and>
    dead_lock x b t (fst (abort_build running catalog (Some b) db))"
proof -
  obtain db1 r where load: "load_build_for_abort b db = (db1, r)" by fastforce
  have "dead_lock x b t db1"
    using dead.load_build_keeps [of b "b + 1" x t db b] assms load by (simp add: ends_in_def)
  moreover have "r = Inr (Some snap) \<Longrightarrow> as_state snap = build_failed" "r \<noteq> Inr None" for snap
    using load assms unfolding load_build_for_abort_def
    by (auto elim!: and_do_Inr run_sql_Inr simp: dead_lock_def split: option.splits)
  ultimately show ?thesis
    using load by (cases r) (auto simp: abort_build_def split: option.split)
qed

lemma dead_later: "later_calls b db db' \<Longrightarrow> dead_lock x b t db \<Longrightarrow> dead_lock x b t db'"
proof (induction rule: later_calls.induct)
  case (later_create db db1 env msg args subject hdr)
  then show ?case
    using dead.create_build_keeps [of b "bv_build env" x t db1 env msg args subject hdr]
    by (simp add: ends_in_def)
next
  case (later_abort db db1 running catalog target)
  then have dead: "dead_lock x b t db1" by simp
  show ?case
  proof (cases target)
    case None
    with dead show ?thesis by (simp add: abort_build_def)
  next
    case (Some c)
    then show ?thesis
      using dead abort_failed_build [OF dead] dead.abort_build_keeps [of b c x t db1 running catalog]
      by (cases "c = b") (auto simp: ends_in_def)
  qed
next
  case (later_event db db1 e to reason)
  then show ?case
    using dead.record_build_event_keeps [of b e x t db1 to reason] by (simp add: ends_in_def)
qed simp

lemma dead_refuses:
  assumes "dead_lock x b t db" and "create_build msg env args subject hdr db = (db', Accepted rb)" and "rb_reason rb = None"
  shows "x \<notin> output_set (rb_specs rb)"
proof
  assume "x \<in> output_set (rb_specs rb)"
  with create_accepted_ok [OF assms(2,3)] have "bd_locks db x = None" by metis
  with assms(1) show False by (simp add: dead_lock_def)
qed

lemma later_healthy: "later_calls b db db' \<Longrightarrow> no_faults db \<Longrightarrow> no_faults db'"
proof (induction rule: later_calls.induct)
  case (later_create db db1 env msg args subject hdr)
  then show ?case
    using healthy.create_build_keeps [of db1 env "bv_build env" msg args subject hdr] by (simp add: ends_in_def)
next
  case (later_abort db db1 running catalog target)
  then show ?case
    using healthy.abort_build_keeps [of db1 running catalog] by (cases target) (simp_all add: abort_build_def ends_in_def)
next
  case (later_event db db1 e to reason)
  then show ?case
    using healthy.record_build_event_keeps [of db1 e to reason] by (simp add: ends_in_def)
qed simp

text \<open>The end of an execution of the failed build.\<close>

lemma dead_released:
  assumes "dead_lock x b t db" and "no_faults db" and "b \<noteq> uuid_nil"
    and "to \<in> {''BUILD_COMPLETED'', build_failed, ''BUILD_ABORTED''}"
  shows "bd_locks (fst (record_build_event b to reason db)) x = None \<and>
    map_option bw_state (bd_builds (fst (record_build_event b to reason db)) b) = Some to"
proof -
  obtain row where "bd_locks db x = Some (b, t)" "bd_builds db b = Some row"
    using assms(1) by (auto simp: dead_lock_def split: option.splits)
  then show ?thesis
    using assms(2-4)
    by (auto simp: record_build_event_def Let_def release_build_locks_def run_sql_def pg_exec_def and_do_def no_faults_def
        build_failed_def)
qed

text \<open>
  C38. A build that fails because the lock of one of its outputs is held keeps the locks of all outputs that come
  before it until somebody executes the failed build itself (no statement of the creation failing). After any other
  creations, aborts of any build and events of other builds they are still held by the failed build, an abort of the
  failed build is refused, and no build that writes one of these datasets is accepted for resolution. The last event
  of an execution of the failed build is what releases them, and it overwrites the state of the failed build.
\<close>

theorem failed_build_keeps_locks:
  assumes fail: "create_build msg env args subject hdr db = (db1, ResolutionFailed (LockHeld d h))"
    and healthy: "no_faults db" and later: "later_calls (bv_build env) db1 db2"
  shows "\<exists>specs pre post. snd (load_job_specs args db) = Inr specs \<and> concat (map js_outputs specs) = pre @ d # post \<and>
    d \<notin> set pre \<and>
    (\<forall>x \<in> set pre. (\<exists>t. dead_lock x (bv_build env) t db2) \<and>
       snd (abort_build running catalog (Some (bv_build env)) db2) \<in> insert AbortConflict (range AbortError) \<and>
       (\<forall>msg' env' args' subject' hdr' db3 rb.
          create_build msg' env' args' subject' hdr' db2 = (db3, Accepted rb) \<longrightarrow> rb_reason rb = None \<longrightarrow>
          x \<notin> output_set (rb_specs rb)) \<and>
       (bv_build env \<noteq> uuid_nil \<longrightarrow> (\<forall>to \<in> {''BUILD_COMPLETED'', build_failed, ''BUILD_ABORTED''}. \<forall>reason.
          bd_locks (fst (record_build_event (bv_build env) to reason db2)) x = None \<and>
          map_option bw_state (bd_builds (fst (record_build_event (bv_build env) to reason db2)) (bv_build env)) = Some to)))"
proof -
  let ?b = "bv_build env"
  obtain dba dbb where a: "no_faults dba" "bd_specs dba = bd_specs db" "bd_builds dba ?b \<noteq> None"
    "resolve_build env args dba = (dbb, Inl (LockHeld d h))" "db1 = mark_build_failed ?b (msg (LockHeld d h)) dbb"
    using healthy_specs.create_failed [OF fail, of "bd_specs db" ?b] healthy by auto
  obtain specs dbc dbd where specs: "load_job_specs args dba = (dbc, Inr specs)"
    and loop: "acquire_loop env ?b (ba_branch args) [] (concat (map js_outputs specs)) dbd = (dbb, Inl (LockHeld d h))"
    using resolve_build_held [OF a(4)] by blast
  have "snd (load_job_specs args db) = Inr specs"
    using load_job_specs_same [of db dba args] a(1,2) healthy specs by (simp add: same_rows_def)
  moreover obtain pre post where outs: "concat (map js_outputs specs) = pre @ d # post" "d \<notin> set pre"
    and locks: "\<forall>x \<in> set pre. \<exists>t. bd_locks dbb x = Some (?b, t)"
    using acquire_loop_held [OF loop] by auto
  moreover have dbb: "no_faults dbb" "bd_builds dbb ?b \<noteq> None"
    using healthy.resolve_build_keeps [OF a(1), of env ?b args] opened.resolve_build_keeps [of dba ?b env args] a(3,4)
    by (simp_all add: ends_in_def)
  then have row: "dead_lock x ?b t db1" if "bd_locks dbb x = Some (?b, t)" for x t
    using that by (auto simp: a(5) mark_build_failed_def run_sql_ok dead_lock_def)
  have healthy1: "no_faults db1"
    using dbb(1) by (auto simp: a(5) mark_build_failed_def run_sql_ok no_faults_def)
  have "(\<exists>t. dead_lock x ?b t db2) \<and>
       snd (abort_build running catalog (Some ?b) db2) \<in> insert AbortConflict (range AbortError) \<and>
       (\<forall>msg' env' args' subject' hdr' db3 rb.
          create_build msg' env' args' subject' hdr' db2 = (db3, Accepted rb) \<longrightarrow> rb_reason rb = None \<longrightarrow>
          x \<notin> output_set (rb_specs rb)) \<and>
       (?b \<noteq> uuid_nil \<longrightarrow> (\<forall>to \<in> {''BUILD_COMPLETED'', build_failed, ''BUILD_ABORTED''}. \<forall>reason.
          bd_locks (fst (record_build_event ?b to reason db2)) x = None \<and>
          map_option bw_state (bd_builds (fst (record_build_event ?b to reason db2)) ?b) = Some to))"
    if x: "x \<in> set pre" for x
  proof -
    obtain t where "bd_locks dbb x = Some (?b, t)"
      using locks x by blast
    then have dead: "dead_lock x ?b t db2"
      by (intro dead_later [OF later] row)
    have "snd (abort_build running catalog (Some ?b) db2) \<in> insert AbortConflict (range AbortError)"
      using abort_failed_build [OF dead, of running catalog] by auto
    moreover have "?b \<noteq> uuid_nil \<longrightarrow> (\<forall>to \<in> {''BUILD_COMPLETED'', build_failed, ''BUILD_ABORTED''}. \<forall>reason.
        bd_locks (fst (record_build_event ?b to reason db2)) x = None \<and>
        map_option bw_state (bd_builds (fst (record_build_event ?b to reason db2)) ?b) = Some to)"
      by (intro impI ballI allI) (rule dead_released [OF dead later_healthy [OF later healthy1]])
    moreover have "\<forall>msg' env' args' subject' hdr' db3 rb.
        create_build msg' env' args' subject' hdr' db2 = (db3, Accepted rb) \<longrightarrow> rb_reason rb = None \<longrightarrow>
        x \<notin> output_set (rb_specs rb)"
      using dead_refuses [OF dead] by blast
    ultimately show ?thesis
      using dead by (intro conjI exI [of _ t])
  qed
  ultimately show ?thesis
    by (intro exI [of _ specs] exI [of _ pre] exI [of _ post] conjI ballI) simp_all
qed

theorem failed_build_keeps_locks_witness:
  "\<exists>t. let db1 = fst (create_build (\<lambda>e. []) demo_env demo_args [] [] (demo_db [''b'' \<mapsto> (9, ''t'')]));
         db2 = fst (create_build (\<lambda>e. []) (demo_env\<lparr>bv_build := 5\<rparr>) demo_args [] [] db1);
         db3 = fst (abort_build {} False (Some 1) db2) in
     bd_locks db3 ''a'' = Some (1, t) \<and> bd_locks (fst (record_build_event 1 ''BUILD_COMPLETED'' [] db3)) ''a'' = None"
proof -
  let ?db = "demo_db [''b'' \<mapsto> (9, ''t'')]"
  obtain db1 where fail: "create_build (\<lambda>e. []) demo_env demo_args [] [] ?db = (db1, ResolutionFailed (LockHeld ''b'' 9))"
    using demo_held by (metis prod.collapse)
  define db2 where "db2 = fst (create_build (\<lambda>e. []) (demo_env\<lparr>bv_build := 5\<rparr>) demo_args [] [] db1)"
  define db3 where "db3 = fst (abort_build {} False (Some 1) db2)"
  have later: "later_calls (bv_build demo_env) db1 db3"
    unfolding db3_def db2_def by (intro later_abort later_create later_refl) (simp add: demo_env_def)
  have healthy: "no_faults ?db"
    by (simp add: no_faults_def demo_db_def)
  have id: "bv_build demo_env = 1" "(1 :: uuid) \<noteq> uuid_nil"
    by (simp_all add: demo_env_def)
  obtain specs pre post where specs: "snd (load_job_specs demo_args ?db) = Inr specs"
    "concat (map js_outputs specs) = pre @ ''b'' # post" "''b'' \<notin> set pre"
    and dead: "\<forall>x \<in> set pre. (\<exists>t. dead_lock x 1 t db3) \<and>
      bd_locks (fst (record_build_event 1 ''BUILD_COMPLETED'' [] db3)) x = None"
    using failed_build_keeps_locks [OF fail healthy later, of "{}" False] id by auto
  have "snd (load_job_specs demo_args ?db) = Inr [demo_loaded]"
    using demo_load [where L = "[''b'' \<mapsto> (9, ''t'')]" and n = 0 and B = "\<lambda>b. None"] by (simp add: demo_db_def)
  then have "[''a'', ''b''] = pre @ ''b'' # post"
    using specs by (simp add: demo_fields)
  then have "''a'' \<in> set pre"
    by (cases pre) auto
  then show ?thesis
    using dead by (auto simp: fail dead_lock_def db3_def db2_def Let_def)
qed

section \<open>The rows of the plan\<close>

text \<open>A set of specs that holds the dependencies of its members and whose jobs have all completed before.\<close>

definition skippable :: "build_env \<Rightarrow> resolved_build \<Rightarrow> build_db \<Rightarrow> string \<Rightarrow> bool" where
  "skippable env rb db r \<longleftrightarrow>
     (\<exists>C. r \<in> C \<and> (\<forall>k \<in> set (rb_jobs rb). rj_spec k \<in> C \<longrightarrow> set (rj_deps k) \<subseteq> C) \<and> (\<forall>x \<in> C. ran_before env rb db x))"

text \<open>The row of a planned job.\<close>

definition planned_row :: "build_env \<Rightarrow> resolved_build \<Rightarrow> build_db \<Rightarrow> resolved_job \<Rightarrow> job_row \<Rightarrow> bool" where
  "planned_row env rb db j r \<longleftrightarrow>
     jw_id r = rj_id j \<and> jw_build r = rb_build rb \<and> jw_spec r = rj_spec j \<and> jw_state r = ''WAITING'' \<and>
     jw_txs r = rj_txs j \<and> (jw_skipped r \<longleftrightarrow> skippable env rb db (rj_spec j)) \<and>
     (\<forall>s. spec_for (rb_specs rb) (rj_spec j) = Some s \<longrightarrow>
        jw_outputs r = unique_strings (js_outputs s) \<and> jw_logic r = logic_hash env s \<and>
        jw_signature r = input_signature env (rb_specs rb) (rb_views rb) s)"

lemma propagate_stale_skippable:
  "propagate_stale (map (\<lambda>j. (rj_spec j, rj_deps j)) (rb_jobs rb)) (ran_before env rb db) r \<longleftrightarrow> skippable env rb db r"
  (is "?fresh r \<longleftrightarrow> _")
proof -
  note core = propagate_stale_core [of "map (\<lambda>j. (rj_spec j, rj_deps j)) (rb_jobs rb)" "ran_before env rb db"]
  have le: "?fresh x \<Longrightarrow> ran_before env rb db x" for x
    using core by blast
  have deps: "set (rj_deps k) \<subseteq> {x. ?fresh x}" if "k \<in> set (rb_jobs rb)" "?fresh (rj_spec k)" for k
    using conjunct1 [OF conjunct2 [OF core]] that by (auto simp: list_all_iff)
  show ?thesis
  proof
    assume r: "?fresh r"
    show "skippable env rb db r"
      unfolding skippable_def
    proof (intro exI [of _ "{x. ?fresh x}"] conjI ballI impI)
      show "r \<in> {x. ?fresh x}"
        using r by simp
      show "set (rj_deps k) \<subseteq> {x. ?fresh x}" if "k \<in> set (rb_jobs rb)" "rj_spec k \<in> {x. ?fresh x}" for k
        using deps that by simp
      show "ran_before env rb db x" if "x \<in> {x. ?fresh x}" for x
        using le that by simp
    qed
  next
    assume "skippable env rb db r"
    then obtain C where "r \<in> C" "\<forall>k \<in> set (rb_jobs rb). rj_spec k \<in> C \<longrightarrow> set (rj_deps k) \<subseteq> C" "\<forall>x \<in> C. ran_before env rb db x"
      unfolding skippable_def by blast
    moreover from this(2) have "\<forall>(r, ds) \<in> set (map (\<lambda>j. (rj_spec j, rj_deps j)) (rb_jobs rb)). r \<in> C \<longrightarrow> set ds \<subseteq> C"
      by auto
    ultimately show "?fresh r"
      using core by blast
  qed
qed

lemma skippable_cong:
  assumes "bd_jobs db' = bd_jobs db" and "bd_outputs db' = bd_outputs db"
  shows "skippable env rb db' = skippable env rb db"
  using completed_before_cong [OF assms, of env "rb_specs rb" "rb_views rb"]
  by (simp add: skippable_def ran_before_def fun_eq_iff)

lemma persisted_rows:
  assumes "persist_resolved_build env rb db = (db', Inr u)" and "distinct (map rj_id (rb_jobs rb))"
    and "\<forall>j \<in> set (rb_jobs rb). new_job db (rj_id j)"
  shows "db' = (stored_plan_of env rb (skippable env rb db) db)\<lparr>pg_clock := pg_clock db', bd_outputs := bd_outputs db', bd_deps := bd_deps db'\<rparr>"
    "set (bd_deps db') = set (bd_deps db) \<union> set (job_edges (rb_jobs rb))"
    "\<forall>j \<in> set (rb_jobs rb). no_outputs db (rj_id j) \<Longrightarrow> bd_outputs db' = bd_outputs db @ planned_outputs rb"
proof -
  let ?db = "db\<lparr>pg_clock := Suc (pg_clock db)\<rparr>"
  obtain db2 where p: "persist_statements env rb ?db = (db2, Inr ())" "db' = db2\<lparr>pg_clock := Suc (pg_clock db2)\<rparr>"
    using persist_resolved_ok [OF assms(1)] by blast
  have fresh: "propagate_stale (map (\<lambda>j. (rj_spec j, rj_deps j)) (rb_jobs rb)) (ran_before env rb ?db) = skippable env rb db"
    using skippable_cong [of ?db db] by (simp add: fun_eq_iff propagate_stale_skippable)
  have "\<forall>j \<in> set (rb_jobs rb). new_job ?db (rj_id j)"
    using assms(3) by (simp add: new_job_def)
  note stored = persist_statements_ok [OF p(1) assms(2) this, unfolded fresh]
  have "db2\<lparr>pg_clock := c\<rparr> =
      (stored_plan_of env rb (skippable env rb db) db)\<lparr>pg_clock := c, bd_outputs := bd_outputs db2, bd_deps := bd_deps db2\<rparr>" for c
    by (subst conjunct1 [OF stored]) (simp add: stored_plan_of_def)
  then show "db' = (stored_plan_of env rb (skippable env rb db) db)\<lparr>pg_clock := pg_clock db', bd_outputs := bd_outputs db', bd_deps := bd_deps db'\<rparr>"
    by (simp add: p(2))
  show "set (bd_deps db') = set (bd_deps db) \<union> set (job_edges (rb_jobs rb))"
    using stored by (simp add: p(2))
  show "bd_outputs db' = bd_outputs db @ planned_outputs rb" if "\<forall>j \<in> set (rb_jobs rb). no_outputs db (rj_id j)"
    using stored that by (simp add: p(2) no_outputs_def)
qed

lemma persisted_jobs:
  assumes "persist_resolved_build env rb db = (db', Inr u)" and "distinct (map rj_id (rb_jobs rb))"
    and "\<forall>j \<in> set (rb_jobs rb). new_job db (rj_id j)"
  shows "bd_jobs db' = bd_jobs db @
      map (\<lambda>j. plan_row env rb (skippable env rb db) j (spec_for (rb_specs rb) (rj_spec j))) (rb_jobs rb)"
  by (subst persisted_rows(1) [OF assms]) (simp add: stored_plan_of_def)

text \<open>
  C40. Storing a resolved build is all or nothing. An error leaves every table as it was. Success changes four tables
  and no other: the row of the build gets its state and targets; \<^verbatim>\<open>jobs\<close> gets exactly one waiting row per planned job
  with the outputs, hashes and transactions of its spec; \<^verbatim>\<open>job_outputs\<close> gets exactly one uncommitted row per planned
  job and dataset it writes, with the transaction opened for it; and \<^verbatim>\<open>job_dependencies\<close> the edges between the jobs.
  A job is marked as skipped exactly when it belongs to a set of jobs that is closed under dependencies and all of
  which have completed before with the same logic and inputs; with the force flag none is. The ids of the jobs are
  distinct and new.
\<close>

theorem persisted_plan:
  assumes "distinct (map rj_id (rb_jobs rb))"
    and "\<forall>j \<in> set (rb_jobs rb). new_job db (rj_id j) \<and> no_outputs db (rj_id j)"
  shows "case persist_resolved_build env rb db of
      (db', Inl e) \<Rightarrow> db' = db\<lparr>pg_clock := pg_clock db'\<rparr>
    | (db', Inr _) \<Rightarrow>
        (\<exists>rows. list_all2 (planned_row env rb db) (rb_jobs rb) rows \<and>
           db' = db\<lparr>pg_clock := pg_clock db',
             bd_builds := (bd_builds db)(rb_build rb := map_option (planned_build rb) (bd_builds db (rb_build rb))),
             bd_jobs := bd_jobs db @ rows, bd_outputs := bd_outputs db @ planned_outputs rb, bd_deps := bd_deps db'\<rparr>) \<and>
        set (bd_deps db') = set (bd_deps db) \<union> set (job_edges (rb_jobs rb))"
proof (cases "persist_resolved_build env rb db")
  case (Pair db' r)
  show ?thesis
  proof (cases r)
    case (Inl e)
    then show ?thesis
      using persist_resolved_failed [of env rb db db' e] Pair by simp
  next
    case (Inr u)
    have "persist_resolved_build env rb db = (db', Inr u)"
      using Pair Inr by simp
    note rows = persisted_rows [OF this assms(1)]
    have new: "\<forall>j \<in> set (rb_jobs rb). new_job db (rj_id j)" and outs: "\<forall>j \<in> set (rb_jobs rb). no_outputs db (rj_id j)"
      using assms(2) by blast+
    let ?rows = "map (\<lambda>j. plan_row env rb (skippable env rb db) j (spec_for (rb_specs rb) (rj_spec j))) (rb_jobs rb)"
    have "list_all2 (planned_row env rb db) (rb_jobs rb) ?rows"
      by (simp add: list_all2_map2 list_all2_same planned_row_def plan_row_def)
    moreover
    have plan: "(stored_plan_of env rb (skippable env rb db) db)\<lparr>pg_clock := c, bd_outputs := ws, bd_deps := es\<rparr> =
        db\<lparr>pg_clock := c,
          bd_builds := (bd_builds db)(rb_build rb := map_option (planned_build rb) (bd_builds db (rb_build rb))),
          bd_jobs := bd_jobs db @ ?rows, bd_outputs := ws, bd_deps := es\<rparr>" for c ws es
      by (simp add: stored_plan_of_def)
    note rows(1) [OF new, unfolded plan rows(3) [OF new outs]]
    ultimately show ?thesis
      using rows(2) [OF new] unfolding Pair Inr prod.case sum.case by (intro conjI exI [of _ ?rows])
  qed
qed

text \<open>
  Two jobs, the second reads what the first writes. The first has completed before: its job is stored as skipped, the
  other one is not.
\<close>

definition demo_reader :: job_spec where
  "demo_reader = demo_spec ''t'' ''a'' [''y'']"

definition demo_build :: resolved_build where
  "demo_build = \<lparr>rb_build = 1, rb_state = build_resolution, rb_force = False, rb_specs = [demo_loaded, demo_reader],
     rb_views = [],
     rb_opened = [\<lparr>op_dataset = ''a'', op_tx = ''ta''\<rparr>, \<lparr>op_dataset = ''b'', op_tx = ''tb''\<rparr>, \<lparr>op_dataset = ''y'', op_tx = ''ty''\<rparr>],
     rb_jobs = [\<lparr>rj_id = 4, rj_spec = ''s'', rj_txs = [''ta'', ''tb''], rj_deps = []\<rparr>,
       \<lparr>rj_id = 5, rj_spec = ''t'', rj_txs = [''ty''], rj_deps = [''s'']\<rparr>],
     rb_stages = [[''s''], [''t'']], rb_reason = None\<rparr>"

definition demo_before :: build_db where
  "demo_before = demo_db Map.empty\<lparr>
     bd_jobs := [\<lparr>jw_id = 8, jw_build = 7, jw_spec = ''s'', jw_outputs = [''a'', ''b''], jw_signature = ''i'', jw_logic = ''h'',
       jw_skipped = False, jw_state = ''COMPLETED'', jw_txs = [''ua'', ''ub'']\<rparr>],
     bd_outputs := [\<lparr>ow_job = 8, ow_dataset = ''a'', ow_tx = ''ua'', ow_committed = True, ow_aborted = False\<rparr>,
       \<lparr>ow_job = 8, ow_dataset = ''b'', ow_tx = ''ub'', ow_committed = True, ow_aborted = False\<rparr>]\<rparr>"

lemma demo_ids: "unique_strings [''a'', ''b''] = [''a'', ''b'']" "trim_space ''s'' = ''s''" "trim_space ''h'' = ''h''"
  by code_simp+

lemma demo_ran: "ran_before demo_env demo_build demo_before ''s''" "\<not> ran_before demo_env demo_build demo_before ''t''"
  by (simp_all add: ran_before_def completed_before_def fresh_exists_sql_def demo_build_def demo_before_def spec_for_def
      demo_loaded_def demo_reader_def demo_spec_def demo_ids logic_hash_def input_signature_def demo_env_def)

lemma demo_skips: "skippable demo_env demo_build demo_before ''s''" "\<not> skippable demo_env demo_build demo_before ''t''"
proof -
  show "skippable demo_env demo_build demo_before ''s''"
    unfolding skippable_def
    by (rule exI [of _ "{''s''}"]) (simp add: demo_ran, simp add: demo_build_def)
  show "\<not> skippable demo_env demo_build demo_before ''t''"
    using demo_ran(2) by (auto simp: skippable_def)
qed

theorem persisted_plan_witness:
  "\<exists>db'. persist_resolved_build demo_env demo_build demo_before = (db', Inr ()) \<and>
     map (\<lambda>r. (jw_id r, jw_skipped r)) (bd_jobs db') = [(8, False), (4, True), (5, False)] \<and>
     map (\<lambda>w. (ow_job w, ow_dataset w, ow_tx w, ow_committed w)) (bd_outputs db') =
       [(8, ''a'', ''ua'', True), (8, ''b'', ''ub'', True), (4, ''a'', ''ta'', False), (4, ''b'', ''tb'', False),
        (5, ''y'', ''ty'', False)] \<and>
     set (bd_deps db') = {(5, 4)}"
proof -
  have "no_faults demo_before"
    by (simp add: no_faults_def demo_db_def demo_before_def)
  then obtain db' where ok: "persist_resolved_build demo_env demo_build demo_before = (db', Inr ())"
    using persist_succeeds by blast
  have 1: "distinct (map rj_id (rb_jobs demo_build))"
    by (simp add: demo_build_def)
  have 2: "\<forall>j \<in> set (rb_jobs demo_build). new_job demo_before (rj_id j) \<and> no_outputs demo_before (rj_id j)"
    by (simp add: demo_build_def demo_before_def new_job_def no_outputs_def)
  obtain rows where rows: "list_all2 (planned_row demo_env demo_build demo_before) (rb_jobs demo_build) rows"
    and db': "db' = demo_before\<lparr>pg_clock := pg_clock db',
      bd_builds := (bd_builds demo_before)(rb_build demo_build := map_option (planned_build demo_build)
        (bd_builds demo_before (rb_build demo_build))),
      bd_jobs := bd_jobs demo_before @ rows, bd_outputs := bd_outputs demo_before @ planned_outputs demo_build,
      bd_deps := bd_deps db'\<rparr>"
    and deps: "set (bd_deps db') = set (bd_deps demo_before) \<union> set (job_edges (rb_jobs demo_build))"
    using persisted_plan [OF 1 2, of demo_env] unfolding ok by auto
  have "map (\<lambda>r. (jw_id r, jw_skipped r)) rows = [(4, True), (5, False)]"
    using rows demo_skips by (auto simp: demo_build_def list_all2_Cons1 planned_row_def)
  then have "map (\<lambda>r. (jw_id r, jw_skipped r)) (bd_jobs db') = [(8, False), (4, True), (5, False)]"
    by (subst db') (simp add: demo_before_def)
  moreover have "map (\<lambda>w. (ow_job w, ow_dataset w, ow_tx w, ow_committed w)) (bd_outputs db') =
       [(8, ''a'', ''ua'', True), (8, ''b'', ''ub'', True), (4, ''a'', ''ta'', False), (4, ''b'', ''tb'', False),
        (5, ''y'', ''ty'', False)]"
    by (subst db') (simp add: demo_before_def demo_build_def planned_outputs_def output_rows_def first_seen_def
        dataset_for_transaction_def)
  moreover have "set (bd_deps db') = {(5, 4)}"
    unfolding deps by (simp add: demo_before_def demo_db_def demo_build_def job_edges_def)
  ultimately show ?thesis
    using ok by (intro exI [of _ db'] conjI)
qed

section \<open>Defects\<close>

text \<open>
  The signature of a job whose inputs are all written inside the build does not depend on any data: once it has
  completed, it counts as fresh whatever its inputs contain by now.
\<close>

lemma internal_signature_ignores_data:
  assumes "\<forall>i \<in> set (js_inputs s). \<exists>p. producing_spec specs (in_dataset i) = Some p \<and> js_rid p \<noteq> js_rid s"
  shows "input_signature env specs views s = input_signature env specs views' s"
proof -
  have "signature_item env specs views s i = signature_item env specs views' s i" if "i \<in> set (js_inputs s)" for i
    using assms that by (fastforce simp: signature_item_def)
  then have "map (signature_item env specs views s) (js_inputs s) = map (signature_item env specs views' s) (js_inputs s)"
    by simp
  then show ?thesis
    unfolding input_signature_def by metis
qed

text \<open>An abort writes the audit row of a transition that has changed no job.\<close>

lemma abort_audits_unmoved:
  assumes "no_faults db" and "\<forall>r \<in> set (bd_jobs db). jw_id r = j \<longrightarrow> jw_state r \<noteq> job_state_string s"
  shows "bd_jobs (fst (repo_transition_job j s t reason db)) = bd_jobs db \<and>
    bd_audits (fst (repo_transition_job j s t reason db)) =
      bd_audits db @ [(j, job_state_string s, job_state_string t, reason)]"
proof -
  have "map (\<lambda>r. if jw_id r = j \<and> jw_state r = job_state_string s then r\<lparr>jw_state := job_state_string t\<rparr> else r) (bd_jobs db) = bd_jobs db"
    using assms(2) by (intro map_idI) auto
  then show ?thesis
    using assms(1) by (simp add: repo_transition_job_def run_sql_ok and_do_def no_faults_def)
qed

end
