(* ===== verification/Build_Loading_Properties.thy ===== *)
theory Build_Loading_Properties
  imports Build_Loading Build_Creation_Properties
begin

text \<open>
  From request to execution: the plan stored for an accepted build is loaded as a graph the executor accepts, with the
  dependencies the resolver has found.
\<close>

section \<open>Loading\<close>

lemma nodes_loop_ok:
  "nodes_loop meta deps js db = (db', Inr ns) \<Longrightarrow>
     map (\<lambda>n. (bn_id n, bn_deps n, bn_stale n)) ns = map (\<lambda>j. (jw_spec j, deps (jw_id j), jw_skipped j)) js"
  by (induction js arbitrary: db ns) (auto elim!: and_do_Inr)

lemma load_plan_ok:
  assumes "load_plan sha b db = (db', Inr p)"
  shows "map (\<lambda>n. (bn_id n, bn_deps n, bn_stale n)) (bp_nodes p) =
    map (\<lambda>j. (jw_spec j, map snd (filter (\<lambda>r. fst r = jw_id j) (dependency_rows b db)), jw_skipped j))
      (filter (\<lambda>j. jw_build j = b) (bd_jobs db))"
proof -
  have same: "dependency_rows b (db\<lparr>pg_clock := n\<rparr>) = dependency_rows b db" for n
  proof -
    have fields: "bd_jobs (db\<lparr>pg_clock := n\<rparr>) = bd_jobs db" "bd_deps (db\<lparr>pg_clock := n\<rparr>) = bd_deps db"
      by simp_all
    show ?thesis
      unfolding dependency_rows_def fields ..
  qed
  show ?thesis
    using assms unfolding load_plan_def list_jobs_for_build_def dependencies_for_build_def job_specs_by_rid_def
    by (auto elim!: and_do_Inr run_sql_Inr dest!: nodes_loop_ok simp: same split: option.splits)
qed

lemma dependency_rows_iff:
  "(j, x) \<in> set (dependency_rows b db) \<longleftrightarrow>
     (\<exists>d. (j, d) \<in> set (bd_deps db) \<and> (\<exists>r \<in> set (bd_jobs db). jw_id r = j \<and> jw_build r = b) \<and>
       (\<exists>r \<in> set (bd_jobs db). jw_id r = d \<and> jw_spec r = x))"
  unfolding dependency_rows_def by (fastforce simp: list_ex_iff split: if_splits prod.splits)

section \<open>The edges of the plan\<close>

definition planned_jobs :: "(string \<Rightarrow> uuid) \<Rightarrow> (job_spec \<Rightarrow> string list) \<Rightarrow> job_spec list \<Rightarrow> resolved_job list" where
  "planned_jobs jid txs specs =
     map (\<lambda>s. \<lparr>rj_id = jid (js_rid s), rj_spec = js_rid s, rj_txs = txs s, rj_deps = dependencies_of specs s\<rparr>) specs"

lemma dependencies_of_edges: "s \<in> set specs \<Longrightarrow> u \<in> set (dependencies_of specs s) \<Longrightarrow> (js_rid s, u) \<in> set (spec_edges specs)"
  by (auto simp: dependencies_of_def spec_edges_def)

lemma dependencies_known: "s \<in> set specs \<Longrightarrow> u \<in> set (dependencies_of specs s) \<Longrightarrow> u \<in> js_rid ` set specs"
  using dependencies_of_edges spec_edges_known by blast

lemma planned_job_id:
  assumes "u \<in> js_rid ` set specs"
  shows "map_option rj_id (find (\<lambda>k. rj_spec k = u) (rev (planned_jobs jid txs specs))) = Some (jid u)"
proof -
  have "find (\<lambda>k. rj_spec k = u) (rev (planned_jobs jid txs specs)) \<noteq> None"
    using assms by (auto simp: find_None_iff planned_jobs_def)
  then obtain k where k: "find (\<lambda>k. rj_spec k = u) (rev (planned_jobs jid txs specs)) = Some k"
    by auto
  then have "k \<in> set (planned_jobs jid txs specs)" "rj_spec k = u"
    using find_some [OF k] by simp_all
  then have "rj_id k = jid u"
    by (auto simp: planned_jobs_def)
  with k show ?thesis by simp
qed

lemma job_edges_iff:
  "(a, c) \<in> set (job_edges (planned_jobs jid txs specs)) \<longleftrightarrow>
    (\<exists>s \<in> set specs. \<exists>u \<in> set (dependencies_of specs s). a = jid (js_rid s) \<and> c = jid u)"
proof -
  let ?js = "planned_jobs jid txs specs"
  have edge: "map_option (\<lambda>k. (jid (js_rid s), rj_id k)) (find (\<lambda>k. rj_spec k = u) (rev ?js)) = Some (jid (js_rid s), jid u)"
    if "s \<in> set specs" "u \<in> set (dependencies_of specs s)" for s u
    using planned_job_id [OF dependencies_known [OF that], of jid txs] by auto
  have "set (List.map_filter (\<lambda>u. map_option (\<lambda>k. (jid (js_rid s), rj_id k)) (find (\<lambda>k. rj_spec k = u) (rev ?js)))
      (dependencies_of specs s)) = (\<lambda>u. (jid (js_rid s), jid u)) ` set (dependencies_of specs s)" if "s \<in> set specs" for s
    using edge [OF that] by (force simp: map_filter_def)
  then have "set (job_edges ?js) = (\<Union>s \<in> set specs. (\<lambda>u. (jid (js_rid s), jid u)) ` set (dependencies_of specs s))"
    unfolding job_edges_def set_concat set_map image_image by (simp add: planned_jobs_def)
  then show ?thesis by auto
qed

section \<open>The stored plan\<close>

text \<open>
  What the tables promise before the creation: the id of the build is new, the ids of its jobs are new and distinct,
  and the dependencies refer to existing jobs.
\<close>

definition fresh_ids :: "build_env \<Rightarrow> job_spec list \<Rightarrow> build_db \<Rightarrow> bool" where
  "fresh_ids env specs db \<longleftrightarrow>
     inj_on (bv_job env (bv_build env)) (js_rid ` set specs) \<and>
     (\<forall>r \<in> set (bd_jobs db). jw_build r \<noteq> bv_build env \<and> jw_id r \<notin> bv_job env (bv_build env) ` js_rid ` set specs) \<and>
     (\<forall>e \<in> set (bd_deps db). fst e \<in> jw_id ` set (bd_jobs db))"

text \<open>The rows of the build after its creation.\<close>

lemma stored_plan:
  assumes acc: "create_build msg env args subject hdr db = (db', Accepted rb)" and reason: "rb_reason rb = None"
    and ids: "fresh_ids env (rb_specs rb) db"
  defines "jid \<equiv> bv_job env (bv_build env)" and "specs \<equiv> rb_specs rb"
  shows "\<exists>g txs. bd_jobs db' = bd_jobs db @ map g specs \<and>
    set (bd_deps db') = set (bd_deps db) \<union> set (job_edges (planned_jobs jid txs specs)) \<and>
    (\<forall>s. jw_id (g s) = jid (js_rid s) \<and> jw_build (g s) = bv_build env \<and> jw_spec (g s) = js_rid s \<and>
       (jw_skipped (g s) \<longleftrightarrow> skippable env rb db (js_rid s)))"
proof -
  obtain db1 db2 where p: "same_plans db db1" "resolve_build env args db1 = (db2, Inr rb)"
    "persist_resolved_build env rb db2 = (db', Inr ())"
    using plans.create_accepted [OF acc, of db] by (auto simp: same_plans_def)
  have same: "same_plans db db2"
    using plans.resolve_build_keeps [OF p(1), of env "bv_build env" args] p(2) by (simp add: ends_in_def)
  define txs :: "job_spec \<Rightarrow> string list"
    where "txs = (\<lambda>s. List.map_filter (\<lambda>d. map_option op_tx (find (\<lambda>t. op_dataset t = d) (rev (rb_opened rb)))) (js_outputs s))"
  have planned: "rb_jobs rb = planned_jobs jid txs specs"
    using resolve_build_ok [OF p(2) reason]
    by (simp add: build_fan_out_plan_def planned_jobs_def Let_def jid_def specs_def txs_def)
  have dist: "distinct (map js_rid specs)"
    using resolve_build_ok [OF p(2) reason] distinct_order_specs by (auto simp: specs_def)
  have rb: "rb_build rb = bv_build env"
    using held.resolved_build_id [OF p(2)] .
  have inj: "distinct (map rj_id (rb_jobs rb))"
    using ids dist unfolding planned planned_jobs_def fresh_ids_def
    by (simp add: comp_def distinct_map inj_on_def jid_def specs_def)
  have "jid (js_rid s) \<notin> jw_id ` set (bd_jobs db2)" if "s \<in> set specs" for s
    using ids same that by (force simp: fresh_ids_def same_plans_def jid_def specs_def)
  then have new: "\<forall>j \<in> set (rb_jobs rb). new_job db2 (rj_id j)"
    unfolding planned planned_jobs_def new_job_def by simp
  have skip: "skippable env rb db2 = skippable env rb db"
    using same by (intro skippable_cong) (simp_all add: same_plans_def)
  let ?g = "\<lambda>s. plan_row env rb (skippable env rb db) \<lparr>rj_id = jid (js_rid s), rj_spec = js_rid s, rj_txs = txs s,
    rj_deps = dependencies_of specs s\<rparr> (spec_for (rb_specs rb) (js_rid s))"
  have "bd_jobs db' = bd_jobs db @ map ?g specs \<and>
      set (bd_deps db') = set (bd_deps db) \<union> set (job_edges (planned_jobs jid txs specs))"
    using persisted_jobs [OF p(3) inj new] persisted_rows(2) [OF p(3) inj new] same unfolding planned skip
    by (simp add: planned_jobs_def same_plans_def comp_def)
  moreover have "jw_id (?g s) = jid (js_rid s) \<and> jw_build (?g s) = bv_build env \<and> jw_spec (?g s) = js_rid s \<and>
      (jw_skipped (?g s) \<longleftrightarrow> skippable env rb db (js_rid s))" for s
    by (simp add: plan_row_def rb)
  ultimately show ?thesis
    by (intro exI [of _ ?g] exI [of _ txs]) blast
qed

section \<open>Execution\<close>

text \<open>The rows that are loaded for the build: its specs, with the dependencies the resolver has found.\<close>

lemma loaded_plan:
  assumes acc: "create_build msg env args subject hdr db = (db', Accepted rb)" and reason: "rb_reason rb = None"
    and ids: "fresh_ids env (rb_specs rb) db" and load: "load_plan sha (bv_build env) db' = (db2, Inr p)"
  shows "map (\<lambda>n. (bn_id n, set (bn_deps n), bn_stale n)) (bp_nodes p) =
    map (\<lambda>s. (js_rid s, set (dependencies_of (rb_specs rb) s), skippable env rb db (js_rid s))) (rb_specs rb)"
proof -
  let ?b = "bv_build env" and ?jid = "bv_job env (bv_build env)" and ?specs = "rb_specs rb"
  obtain g txs where rows: "bd_jobs db' = bd_jobs db @ map g ?specs"
    and edges: "set (bd_deps db') = set (bd_deps db) \<union> set (job_edges (planned_jobs ?jid txs ?specs))"
    and g: "\<forall>s. jw_id (g s) = ?jid (js_rid s) \<and> jw_build (g s) = ?b \<and> jw_spec (g s) = js_rid s \<and>
      (jw_skipped (g s) \<longleftrightarrow> skippable env rb db (js_rid s))"
    using stored_plan [OF acc reason ids] by blast
  have old: "jw_build r \<noteq> ?b" "s \<in> set ?specs \<Longrightarrow> jw_id r \<noteq> ?jid (js_rid s)" if "r \<in> set (bd_jobs db)" for r s
    using ids that unfolding fresh_ids_def by blast+
  have inj: "?jid x = ?jid y \<longleftrightarrow> x = y" if "x \<in> js_rid ` set ?specs" "y \<in> js_rid ` set ?specs" for x y
    using ids that unfolding fresh_ids_def inj_on_def by blast
  have refs: "(?jid (js_rid s), d) \<notin> set (bd_deps db)" if "s \<in> set ?specs" for s d
    using ids old(2) that unfolding fresh_ids_def by fastforce
  have job: "(\<exists>r \<in> set (bd_jobs db'). jw_id r = ?jid (js_rid s) \<and> jw_build r = ?b)" if "s \<in> set ?specs" for s
    using g that by (auto simp: rows)
  have target: "(\<exists>r \<in> set (bd_jobs db'). jw_id r = ?jid u \<and> jw_spec r = x) \<longleftrightarrow> x = u" if "u \<in> js_rid ` set ?specs" for u x
    using g inj that old(2) unfolding rows by fastforce
  have dist: "distinct (map js_rid ?specs)"
    using create_accepted_ok [OF acc reason] distinct_order_specs by auto
  have edge: "(?jid (js_rid s), d) \<in> set (bd_deps db') \<longleftrightarrow> (\<exists>u \<in> set (dependencies_of ?specs s). d = ?jid u)"
    if "s \<in> set ?specs" for s d
  proof -
    have "s' = s" if "s' \<in> set ?specs" "?jid (js_rid s) = ?jid (js_rid s')" for s'
      using that \<open>s \<in> set ?specs\<close> inj dist by (metis distinct_map imageI inj_onD)
    then show ?thesis
      using refs [OF that, of d] that unfolding edges Un_iff job_edges_iff by blast
  qed
  have deps: "(?jid (js_rid s), x) \<in> set (dependency_rows ?b db') \<longleftrightarrow> x \<in> set (dependencies_of ?specs s)"
    if s: "s \<in> set ?specs" for s x
  proof -
    let ?deps = "set (dependencies_of ?specs s)"
    have t: "(\<exists>r \<in> set (bd_jobs db'). jw_id r = ?jid u \<and> jw_spec r = x) \<longleftrightarrow> x = u" if "u \<in> ?deps" for u
      by (rule target [OF dependencies_known [OF s that]])
    have "(?jid (js_rid s), x) \<in> set (dependency_rows ?b db') \<longleftrightarrow>
        (\<exists>u \<in> ?deps. \<exists>r \<in> set (bd_jobs db'). jw_id r = ?jid u \<and> jw_spec r = x)"
      unfolding dependency_rows_iff edge [OF s] using job [OF s] by metis
    also have "\<dots> \<longleftrightarrow> (\<exists>u \<in> ?deps. x = u)"
      using t by (intro bex_cong refl) blast
    finally show ?thesis by simp
  qed
  have nodes: "map (\<lambda>n. (bn_id n, bn_deps n, bn_stale n)) (bp_nodes p) =
      map (\<lambda>j. (jw_spec j, map snd (filter (\<lambda>r. fst r = jw_id j) (dependency_rows ?b db')), jw_skipped j)) (map g ?specs)"
    using load_plan_ok [OF load] g old(1) by (simp add: rows filter_False filter_True)
  have "set (map snd (filter (\<lambda>r. fst r = jw_id (g s)) (dependency_rows ?b db'))) = set (dependencies_of ?specs s)"
    if "s \<in> set ?specs" for s
    using deps [OF that] g by force
  then show ?thesis
    using arg_cong [OF nodes, of "map (\<lambda>(i, d, f). (i, set d, f))"] g by (simp add: comp_def)
qed

text \<open>
  C39. A build accepted for resolution can be executed: if the ids it is given are new, its specs have ids, and the
  stored plan can be read, the executor accepts it. Its graph has exactly the specs of the build, in the order of
  their ids, each with the dependencies the resolver has found, and skips exactly those that the freshness rule allows.
\<close>

theorem accepted_build_executes:
  assumes acc: "create_build msg env args subject hdr db = (db', Accepted rb)" and reason: "rb_reason rb = None"
    and ids: "fresh_ids env (rb_specs rb) db" and named: "[] \<notin> js_rid ` set (rb_specs rb)"
    and load: "load_plan sha (bv_build env) db' = (db2, Inr p)"
  shows "\<exists>nodes. new_execution_graph (normalize_plan ports p) = Inr nodes \<and>
    map (\<lambda>n. (bn_id n, set (bn_deps n), bn_stale n)) nodes =
      map (\<lambda>s. (js_rid s, set (dependencies_of (rb_specs rb) s), skippable env rb db (js_rid s))) (rb_specs rb)"
proof -
  let ?p = "normalize_plan ports p" and ?specs = "rb_specs rb"
  have nodes: "map (\<lambda>n. (bn_id n, set (bn_deps n), bn_stale n)) (bp_nodes ?p) =
      map (\<lambda>s. (js_rid s, set (dependencies_of ?specs s), skippable env rb db (js_rid s))) ?specs"
    using loaded_plan [OF acc reason ids load] by (simp add: normalize_plan_def)
  obtain raw where raw: "?specs = order_specs raw" and check: "check_specs ?specs = None"
    using create_accepted_ok [OF acc reason] by blast
  have bn_ids: "map bn_id (bp_nodes ?p) = map js_rid ?specs"
    using arg_cong [OF nodes, of "map fst"] by (simp add: comp_def)
  have "detect_cycles ?specs = NoCycle"
    using check by (auto simp: check_specs_def split: option.splits cycle_check.splits)
  then have acyc: "acyclic (set (spec_edges ?specs))"
    using detect_cycles_core(2) [OF distinct_order_specs [of raw]] raw by simp
  have node: "\<exists>s \<in> set ?specs. bn_id n = js_rid s \<and> set (bn_deps n) = set (dependencies_of ?specs s)" if "n \<in> set (bp_nodes ?p)" for n
  proof -
    have "(bn_id n, set (bn_deps n), bn_stale n) \<in> set (map (\<lambda>n. (bn_id n, set (bn_deps n), bn_stale n)) (bp_nodes ?p))"
      using that by simp
    then show ?thesis
      unfolding nodes by auto
  qed
  have "plan_edges (bp_nodes ?p) \<subseteq> set (spec_edges ?specs)"
    using node dependencies_of_edges by (fastforce simp: plan_edges_def)
  then have "acyclic (plan_edges (bp_nodes ?p))"
    using acyc acyclic_subset by blast
  moreover have "bn_id n \<noteq> [] \<and> set (bn_deps n) \<subseteq> bn_id ` set (bp_nodes ?p)" if "n \<in> set (bp_nodes ?p)" for n
    using node [OF that] named dependencies_known arg_cong [OF bn_ids, of set] by fastforce
  moreover have "distinct (map bn_id (bp_nodes ?p))"
    unfolding bn_ids raw by (rule distinct_order_specs)
  ultimately have "plan_ok ?p"
    by (simp add: plan_ok_def)
  then have graph: "new_execution_graph ?p = Inr (graph_nodes ?p)"
    using new_execution_graph_core [of ?p "graph_nodes ?p"] by blast
  have sorted: "sorted (map bn_id (bp_nodes ?p))"
    unfolding bn_ids raw using drop_repeated_sorted [of "sort_key js_rid raw"]
    by (simp add: order_specs_def strict_sorted_iff)
  have "graph_nodes ?p = map (\<lambda>n. n\<lparr>bn_deps := sort (bn_deps n)\<rparr>) (bp_nodes ?p)"
    unfolding graph_nodes_def using sorted by (intro sort_key_id_if_sorted) (simp add: comp_def)
  then have "map (\<lambda>n. (bn_id n, set (bn_deps n), bn_stale n)) (graph_nodes ?p) =
      map (\<lambda>n. (bn_id n, set (bn_deps n), bn_stale n)) (bp_nodes ?p)"
    by simp
  then show ?thesis
    using graph nodes by simp
qed

text \<open>The demo build is stored and loaded without failing statements.\<close>

lemma load_plan_succeeds:
  assumes "no_faults db" and "bd_builds db b \<noteq> None"
  shows "\<exists>db' p. load_plan sha b db = (db', Inr p)"
proof -
  have outs: "no_faults db \<Longrightarrow> succeeds (outputs_for_node j db)" for j db
    unfolding outputs_for_node_def by (intro succeeds_run_sql healthy.read_keeps)
  have nodes: "no_faults db \<Longrightarrow> succeeds (nodes_loop meta ds js db)" for meta ds js db
  proof (induction js arbitrary: db)
    case (Cons j js)
    show ?case
      unfolding nodes_loop.simps by (intro succeeds_rules outs Cons)
  qed (simp add: succeeds_def)
  obtain row where row: "bd_builds db b = Some row"
    using assms(2) by auto
  let ?db = "db\<lparr>pg_clock := Suc (pg_clock db)\<rparr>"
  have "no_faults ?db"
    using assms(1) by (simp add: no_faults_def)
  then have "succeeds (load_plan sha b db)"
    unfolding load_plan_def run_sql_ok [OF assms(1)] list_jobs_for_build_def dependencies_for_build_def job_specs_by_rid_def
    by (simp add: row and_do_def [of "(_, Inr (Some _))"])
      (intro succeeds_rules healthy.read_keeps nodes)
  then show ?thesis
    by (metis prod.collapse succeeds_def)
qed

lemma accepted_loads:
  assumes "create_build msg env args subject hdr db = (db', Accepted rb)" and "no_faults db"
  shows "\<exists>db2 p. load_plan sha (bv_build env) db' = (db2, Inr p)"
proof -
  obtain db1 db2 where p: "bd_builds db1 (bv_build env) \<noteq> None" "resolve_build env args db1 = (db2, Inr rb)"
    "persist_resolved_build env rb db2 = (db', Inr ())"
    using healthy.create_accepted [OF assms] by auto
  have "bd_builds db2 (bv_build env) \<noteq> None"
    using opened.resolve_build_keeps [OF p(1), of env args] p(2) by (simp add: ends_in_def)
  then have "bd_builds db' (bv_build env) \<noteq> None"
    using opened.persist_keeps [of db2 "bv_build env" rb env] held.resolved_build_id [OF p(2)] p(3) by (simp add: ends_in_def)
  moreover have "no_faults db'"
    using healthy.create_build_keeps [OF assms(2), of env "bv_build env" msg args subject hdr] assms(1) by (simp add: ends_in_def)
  ultimately show ?thesis
    using load_plan_succeeds by blast
qed

theorem accepted_build_executes_witness:
  "\<exists>p nodes. snd (load_plan (\<lambda>a b. a) 1 (fst (create_build (\<lambda>e. []) demo_env demo_args [] [] (demo_db Map.empty)))) = Inr p \<and>
     new_execution_graph (normalize_plan 4 p) = Inr nodes \<and> map bn_id nodes = [''s'']"
proof -
  let ?db = "demo_db Map.empty"
  obtain db' rb where acc: "create_build (\<lambda>e. []) demo_env demo_args [] [] ?db = (db', Accepted rb)" "rb_reason rb = None"
    and specs: "rb_specs rb = [demo_loaded]"
    using demo_accepted by blast
  have ids: "fresh_ids demo_env (rb_specs rb) ?db"
    by (simp add: fresh_ids_def specs demo_db_def)
  have named: "[] \<notin> js_rid ` set (rb_specs rb)"
    by (simp add: specs demo_loaded_def)
  have "no_faults ?db"
    by (simp add: no_faults_def demo_db_def)
  then obtain db2 p where load: "load_plan (\<lambda>a b. a) (bv_build demo_env) db' = (db2, Inr p)"
    using accepted_loads [OF acc(1)] by blast
  obtain nodes where nodes: "new_execution_graph (normalize_plan 4 p) = Inr nodes"
    "map (\<lambda>n. (bn_id n, set (bn_deps n), bn_stale n)) nodes =
      map (\<lambda>s. (js_rid s, set (dependencies_of (rb_specs rb) s), skippable demo_env rb ?db (js_rid s))) (rb_specs rb)"
    using accepted_build_executes [OF acc ids named load, of 4] by blast
  have "map bn_id nodes = [''s'']"
    using arg_cong [OF nodes(2), of "map fst"] by (simp add: comp_def specs demo_loaded_def)
  moreover have "snd (load_plan (\<lambda>a b. a) 1 (fst (create_build (\<lambda>e. []) demo_env demo_args [] [] ?db))) = Inr p"
    using load acc(1) by (simp add: demo_fields)
  ultimately show ?thesis
    using nodes(1) by (intro exI [of _ p] exI [of _ nodes] conjI)
qed

section \<open>Defects\<close>

text \<open>
  A build that is queued because an upstream build is in progress is stored without jobs. Nothing resolves it again;
  when it is executed, its graph is empty and the executor has nothing to do.
\<close>

lemma queued_build_is_empty:
  assumes acc: "create_build msg env args subject hdr db = (db', Accepted rb)" and reason: "rb_reason rb \<noteq> None"
    and new: "\<forall>r \<in> set (bd_jobs db). jw_build r \<noteq> bv_build env" and load: "load_plan sha (bv_build env) db' = (db2, Inr p)"
  shows "new_execution_graph (normalize_plan ports p) = Inr []"
proof -
  obtain dba dbb where p: "same_plans db dba" "resolve_build env args dba = (dbb, Inr rb)"
    "persist_resolved_build env rb dbb = (db', Inr ())"
    using plans.create_accepted [OF acc, of db] by (auto simp: same_plans_def)
  have same: "same_plans db dbb"
    using plans.resolve_build_keeps [OF p(1), of env "bv_build env" args] p(2) by (simp add: ends_in_def)
  have none: "rb_jobs rb = []"
    using p(2) reason unfolding resolve_build_def by (auto elim!: and_do_Inr split: option.splits if_splits prod.splits)
  then have "bd_jobs db' = bd_jobs db"
    using persisted_jobs [OF p(3)] same by (simp add: same_plans_def)
  then have "filter (\<lambda>j. jw_build j = bv_build env) (bd_jobs db') = []"
    using new by (simp add: filter_empty_conv)
  then have "bp_nodes p = []"
    using load_plan_ok [OF load] by simp
  then show ?thesis
    by (simp add: new_execution_graph_def normalize_plan_def first_missing_def exec_cycle_def)
qed

text \<open>
  Rows of \<^verbatim>\<open>job_specs\<close> are joined on the id of the job spec in either form, and found only under the form of
  \<^verbatim>\<open>job_specs\<close>: a job whose id has the other form has no logic kind and no payload in its plan.
\<close>

lemma replaced_spec_has_no_metadata:
  assumes "\<forall>b \<in> set (bd_bodies db). by_rid b \<noteq> r" and "job_specs_by_rid build db = (db', Inr specs)"
  shows "specs r = None"
proof -
  have "\<forall>b \<in> set (joined_bodies build db). by_rid b \<noteq> r"
    using assms(1) by (auto simp: joined_bodies_def)
  then show ?thesis
    using assms(2) unfolding job_specs_by_rid_def
    by (auto elim!: and_do_Inr run_sql_Inr simp: find_None_iff)
qed

end
