(* ===== verification/Spec2Isabelle.thy ===== *)
theory Spec2Isabelle
  imports Saga_Witnesses Store_Properties Automation_Run Job_States Job_Lifecycle Saga_Consumer Dag_Proofs
    Cron_Eval_Proofs Pipeline_Plan_Proofs Expr_Types_Proofs Expr_Round_Trip Expr_Soundness Pipeline_Graph_Proofs Restricted_View_Properties
    Build_Executor_Properties Abac_Properties Jwks_Properties OAuth_Properties
    Build_Loading_Properties
begin

text \<open>
  A verification library of OpenFoundry, a data platform of some fifty Go services and forty shared libraries. It
  models the platform's own decision logic: how events leave a service exactly once (outbox, saga, idempotency),
  how long-lived entities change state under concurrency (state-machine store and the lifecycles on it), when
  scheduled work fires (cron), who may read which rows and hold which token (claims, restricted views, attribute
  policies, OAuth), and how pipelines are
  planned, built, checked and evaluated (DAG planner, build resolution and execution, plan validator, expression
  language).

  \<^bold>\<open>The parts and their theories.\<close> Paths are under \<^verbatim>\<open>src/\<close>.

  \<^item> Prelude: Go strings as byte strings with the functions of \<^verbatim>\<open>strings\<close> and \<^verbatim>\<open>strconv\<close> that are called,
    JSON documents, results as sums, lemmas on lists and decimal numbers. Json: encoding and decoding of the
    typed documents. Float64: floating-point operations as a record, signed 64-bit integers. Pg_Tx: one
    PostgreSQL transaction as a state with a clock and an arbitrary fault function, so that every statement of
    the models below can fail at any point.
  \<^item> Outbox (\<^verbatim>\<open>libs/outbox/outbox.go\<close>): \<open>enqueue\<close> is the INSERT and DELETE in the caller's transaction; the table
    is a map, the write-ahead log the list the relay reads.
  \<^item> Saga, Saga_Proofs, Saga_Witnesses (\<^verbatim>\<open>libs/saga\<close>): the runner with its row in \<open>saga.state\<close>, steps, replays,
    compensations and the events it enqueues.
  \<^item> State_Machine, State_Machine_Proofs, Store_Properties (\<^verbatim>\<open>libs/state-machine\<close>): the versioned table, load,
    apply, sweep and the retry loop, for every machine type (the locale \<open>aggregate\<close>). Lifecycle holds the
    contract of a transition table; Approvals, Approvals_Sweep, Automation_Run, Job_States, Job_Lifecycle and
    Automation_Operations are the machines of \<^verbatim>\<open>workflow-automation-service\<close>, \<^verbatim>\<open>pipeline-build-service\<close>,
    \<^verbatim>\<open>model-deployment-service\<close> and \<^verbatim>\<open>reindex-coordinator-service\<close> that interpret these locales.
  \<^item> Idempotency (\<^verbatim>\<open>libs/idempotency\<close>): the store contract (locale \<open>dedup_store\<close>), its two stores, the wrapper.
    Saga_Consumer: the consumer that puts idempotency, saga and outbox together.
  \<^item> Dag, Dag_Proofs (\<^verbatim>\<open>pipeline-build-service/internal/domain/engine/dag.go\<close>): the two planners.
  \<^item> Build_Executor, Build_Executor_Proofs, Build_Executor_Scheduler, Build_Executor_Properties
    (\<^verbatim>\<open>pipeline-build-service/internal/domain/executor/executor.go\<close>): the execution graph, one node with its
    attempts, commits and rollbacks, and the scheduler as a step relation over nodes in flight, with cancellation
    and the failure cascade.
  \<^item> Resolver, Resolver_Proofs, Build_Creation, Build_Persistence, Build_Abort
    (\<^verbatim>\<open>pipeline-build-service/internal\<close>: \<^verbatim>\<open>domain/resolver\<close>, \<^verbatim>\<open>postgres/repository.go\<close>,
    \<^verbatim>\<open>handler/build_resolution.go\<close>, \<^verbatim>\<open>handler/abort.go\<close>): from a request to the stored plan of a build. The job specs
    and their order, the check for cycles, the stages, the branches of the inputs, the locks on the outputs, the jobs
    that may be skipped, \<^verbatim>\<open>CreateBuild\<close> and \<^verbatim>\<open>AbortBuild\<close>. The tables are the record \<open>build_db\<close>, each statement a function
    on it that can fail, also where the schema forbids its result (one open transaction per branch). Build_Invariants says what these operations leave alone, by locales over the kinds of writes
    (\<open>opening_invariant\<close>, \<open>creation_invariant\<close>, \<open>locking_invariant\<close>, \<open>foreign_invariant\<close>) with one interpretation per fact;
    Build_Creation_Proofs, Build_Samples and Build_Creation_Properties hold the lemmas, the inputs of the witnesses and
    the theorems. Build_Loading (\<^verbatim>\<open>LoadPlan\<close>) turns the stored rows into the plan of the executor;
    Build_Loading_Properties composes resolver, storage, loader and executor.
  \<^item> Cron, Cron_Calendar, Cron_Eval, Cron_Eval_Proofs (\<^verbatim>\<open>libs/scheduling-cron\<close>): value sets, the parser, the
    calendar of the \<^verbatim>\<open>time\<close> package, the search for the next firing.
  \<^item> Pipeline_Plan, Pipeline_Plan_Proofs (\<^verbatim>\<open>libs/pipeline-plan\<close>): the operator graph and its validator.
  \<^item> Expr_Types, Expr_Parser, Expr_Infer, Expr_Eval, Geo_Distance (\<^verbatim>\<open>libs/pipeline-expression\<close>,
    \<^verbatim>\<open>libs/geospatial-core/distance.go\<close>): the type lattice, lexer, parser and printer, type checker and
    evaluator of expressions; Expr_Types_Proofs, Expr_Parser_Proofs, Expr_Round_Trip and Expr_Soundness are
    their theorems. Pipeline_Graph, Pipeline_Graph_Proofs: the node graph (\<^verbatim>\<open>graph.go\<close>) and its validator.
  \<^item> Auth_Claims (\<^verbatim>\<open>libs/auth-middleware\<close>: \<^verbatim>\<open>claims.go\<close>, \<^verbatim>\<open>markings.go\<close>, \<^verbatim>\<open>rls.go\<close>): what a token allows.
    Restricted_View, Restricted_View_Sql (\<^verbatim>\<open>libs/restrictedview/policy.go\<close>): row-level policies, their evaluation
    on rows and their compilation to SQL; Restricted_View_Proofs and Restricted_View_Properties are their theorems.
    Abac, Abac_Properties (\<^verbatim>\<open>authorization-policy-service/internal/domain\<close>): the attribute-based evaluator over the
    policies and restricted views of a tenant.
  \<^item> Jwks, Jwks_Stores, Jwks_Memory, Jwks_Service, Jwks_Properties
    (\<^verbatim>\<open>identity-federation-service/internal/jwksrotation\<close>): signing keys, their rotation and rollback over any
    store that keeps the contract \<open>key_store\<close>, which the PostgreSQL and the in-memory store both do.
  \<^item> OAuth, OAuth_Handlers, OAuth_Proofs, OAuth_System, OAuth_Properties
    (\<^verbatim>\<open>identity-federation-service/internal/handlers/third_party_oauth.go\<close>, \<^verbatim>\<open>internal/repo/third_party_oauth.go\<close>):
    clients, codes and refresh tokens, the consent, the three grants and revocation, and the interleavings of such
    calls.

  \<^bold>\<open>What the theorems show.\<close> Every property is stated over the definitions that translate the code and carries its
  claim number. In each component they say what an operation does on every branch, errors included (a failed
  transaction changes nothing, an event is relayed once, a stale writer is refused, a decided request stays
  decided), that loops end, that a fast routine agrees with a plain specification (the planner with topological
  orders, the cron search with the least matching time, the validator with the documented rules), that what is
  written is read back (types, expressions, ranges), and that the type checker is sound for the evaluator. Some
  theorems prove a defect of the code; the manifest lists them as findings.

  \<^bold>\<open>Bounds and fuel.\<close> Machine integers keep their width (\<open>64 word\<close>, \<open>32 word\<close>) where the code can wrap or
  saturate. The expression parser has fuel for its nesting: the number of tokens, proved enough
  (\<open>parse_text_total\<close>). The scan for cycles of the resolver has one round per job spec, proved enough (\<open>detect_cycles_core\<close>:
  never \<open>ScanUnfinished\<close>). The cron search, the DFS of the plan validator and the calendar have termination proofs.
  \<open>with_retry\<close> counts its attempts as the code does.

  \<^bold>\<open>What is not modelled.\<close> Strings are bytes and case folding is ASCII. Layout of JSON text, logging, metrics,
  contexts and cancellation (the build executor apart), connection pools and HTTP routing are left out. Time is an instant given to an
  operation, a time zone is its offset function. Floating-point arithmetic, SHA-1, UUIDs and HTTP calls are
  parameters. The services that are mostly SQL and HTTP (connectors, tenancy, identity, ontology handlers), the
  generated code and the web applications are not modelled; the manifest lists them with the reason.
\<close>

end
